(* ===== verification/Rust_Text.thy ===== *)
theory Rust_Text
  imports Prelude "HOL-Library.Sublist"
begin

text \<open>
  Rust strings.  A \<open>str\<close> is its UTF-8 byte sequence, so a Rust string is a HOL \<open>string\<close>
  whose characters are bytes: \<open>len\<close> is \<open>length\<close>, \<open>bytes\<close> are the elements, and comparison is
  the lexicographic order on bytes.  \<open>chars_of\<close> groups the bytes into the encodings of the
  Unicode scalar values, which is what \<open>chars()\<close> iterates over; the predicates on scalar
  values (\<open>char::is_whitespace\<close>, \<open>char::is_control\<close>) are written on those encodings.
\<close>

section \<open>Scalar values\<close>

definition is_cont_byte :: "char \<Rightarrow> bool" where
  "is_cont_byte c \<longleftrightarrow> CHR 0x80 \<le> c \<and> c < CHR 0xC0"

function chars_of :: "string \<Rightarrow> string list" where
  "chars_of [] = []"
| "chars_of (c # cs) = (c # takeWhile is_cont_byte cs) # chars_of (dropWhile is_cont_byte cs)"
  by pat_completeness auto
termination
  by (relation "measure length") (auto simp: le_imp_less_Suc length_dropWhile_le)

definition char_count :: "string \<Rightarrow> nat" where
  "char_count s = length (chars_of s)"

lemma concat_chars_of [simp]: "concat (chars_of s) = s"
  by (induction s rule: chars_of.induct) auto

lemma chars_of_Nil_iff [simp]: "chars_of s = [] \<longleftrightarrow> s = []"
  by (cases s) auto

lemma char_count_le_length: "char_count s \<le> length s"
proof -
  have "length (chars_of s) \<le> length s"
  proof (induction s rule: chars_of.induct)
    case (2 c cs)
    then show ?case
      by (simp add: order.trans [OF _ length_dropWhile_le])
  qed simp
  then show ?thesis by (simp add: char_count_def)
qed

text \<open>The Unicode property \<open>White_Space\<close>, each scalar value in its UTF-8 encoding.\<close>

definition whitespace_chars :: "string list" where
  "whitespace_chars =
     [[CHR 0x09], [CHR 0x0A], [CHR 0x0B], [CHR 0x0C], [CHR 0x0D], [CHR 0x20],
      [CHR 0xC2, CHR 0x85], [CHR 0xC2, CHR 0xA0], [CHR 0xE1, CHR 0x9A, CHR 0x80],
      [CHR 0xE2, CHR 0x80, CHR 0x80], [CHR 0xE2, CHR 0x80, CHR 0x81],
      [CHR 0xE2, CHR 0x80, CHR 0x82], [CHR 0xE2, CHR 0x80, CHR 0x83],
      [CHR 0xE2, CHR 0x80, CHR 0x84], [CHR 0xE2, CHR 0x80, CHR 0x85],
      [CHR 0xE2, CHR 0x80, CHR 0x86], [CHR 0xE2, CHR 0x80, CHR 0x87],
      [CHR 0xE2, CHR 0x80, CHR 0x88], [CHR 0xE2, CHR 0x80, CHR 0x89],
      [CHR 0xE2, CHR 0x80, CHR 0x8A], [CHR 0xE2, CHR 0x80, CHR 0xA8],
      [CHR 0xE2, CHR 0x80, CHR 0xA9], [CHR 0xE2, CHR 0x80, CHR 0xAF],
      [CHR 0xE2, CHR 0x81, CHR 0x9F], [CHR 0xE3, CHR 0x80, CHR 0x80]]"

definition is_whitespace :: "string \<Rightarrow> bool" where
  "is_whitespace c \<longleftrightarrow> c \<in> set whitespace_chars"

fun is_control :: "string \<Rightarrow> bool" where
  "is_control [b] \<longleftrightarrow> b < CHR 0x20 \<or> b = CHR 0x7F"
| "is_control [l, b] \<longleftrightarrow> l = CHR 0xC2 \<and> CHR 0x80 \<le> b \<and> b \<le> CHR 0x9F"
| "is_control _ \<longleftrightarrow> False"

definition any_char :: "(string \<Rightarrow> bool) \<Rightarrow> string \<Rightarrow> bool" where
  "any_char P s \<longleftrightarrow> list_ex P (chars_of s)"

definition trim :: "string \<Rightarrow> string" where
  "trim s = concat (rev (dropWhile is_whitespace (rev (dropWhile is_whitespace (chars_of s)))))"

text \<open>\<open>str::trim().is_empty()\<close>.\<close>

definition blank :: "string \<Rightarrow> bool" where
  "blank s \<longleftrightarrow> trim s = []"

lemma chars_of_nonempty: "c \<in> set (chars_of s) \<Longrightarrow> c \<noteq> []"
  by (induction s rule: chars_of.induct) auto

lemma blank_iff: "blank s \<longleftrightarrow> (\<forall>c \<in> set (chars_of s). is_whitespace c)"
proof -
  let ?d = "dropWhile is_whitespace (chars_of s)"
  have sub: "set ?d \<subseteq> set (chars_of s)"
    by (metis set_dropWhileD subsetI)
  have "concat (rev (dropWhile is_whitespace (rev ?d))) = [] \<longleftrightarrow> dropWhile is_whitespace (rev ?d) = []"
  proof -
    have "set (dropWhile is_whitespace (rev ?d)) \<subseteq> set (chars_of s)"
      using sub set_dropWhileD by fastforce
    then have "\<And>x. x \<in> set (dropWhile is_whitespace (rev ?d)) \<Longrightarrow> x \<noteq> []"
      using chars_of_nonempty by blast
    then show ?thesis by (auto simp: concat_eq_Nil_conv)
  qed
  also have "\<dots> \<longleftrightarrow> (\<forall>c \<in> set ?d. is_whitespace c)"
    by (simp add: dropWhile_eq_Nil_conv)
  also have "\<dots> \<longleftrightarrow> (\<forall>c \<in> set (chars_of s). is_whitespace c)"
  proof
    assume all: "\<forall>c \<in> set ?d. is_whitespace c"
    show "\<forall>c \<in> set (chars_of s). is_whitespace c"
    proof (cases ?d)
      case Nil
      then show ?thesis by (simp add: dropWhile_eq_Nil_conv)
    next
      case (Cons y ys)
      then have "\<not> is_whitespace y" by (metis dropWhile_eq_Cons_conv)
      with all Cons show ?thesis by simp
    qed
  qed (use sub in blast)
  finally show ?thesis by (simp add: blank_def trim_def)
qed

lemma blank_Nil [simp]: "blank []"
  by (simp add: blank_iff)

section \<open>ASCII\<close>

definition is_ascii_uppercase :: "char \<Rightarrow> bool" where
  "is_ascii_uppercase c \<longleftrightarrow> CHR ''A'' \<le> c \<and> c \<le> CHR ''Z''"

definition is_ascii_lowercase :: "char \<Rightarrow> bool" where
  "is_ascii_lowercase c \<longleftrightarrow> CHR ''a'' \<le> c \<and> c \<le> CHR ''z''"

definition is_ascii_digit :: "char \<Rightarrow> bool" where
  "is_ascii_digit c \<longleftrightarrow> CHR ''0'' \<le> c \<and> c \<le> CHR ''9''"

definition is_ascii_alphabetic :: "char \<Rightarrow> bool" where
  "is_ascii_alphabetic c \<longleftrightarrow> is_ascii_uppercase c \<or> is_ascii_lowercase c"

definition is_ascii_alphanumeric :: "char \<Rightarrow> bool" where
  "is_ascii_alphanumeric c \<longleftrightarrow> is_ascii_alphabetic c \<or> is_ascii_digit c"

definition is_ascii_hexdigit :: "char \<Rightarrow> bool" where
  "is_ascii_hexdigit c \<longleftrightarrow> is_ascii_digit c \<or> (CHR ''a'' \<le> c \<and> c \<le> CHR ''f'')
     \<or> (CHR ''A'' \<le> c \<and> c \<le> CHR ''F'')"

text \<open>\<open>u8::is_ascii_whitespace\<close> excludes the vertical tab.\<close>

definition is_ascii_whitespace :: "char \<Rightarrow> bool" where
  "is_ascii_whitespace c \<longleftrightarrow> c \<in> {CHR 0x20, CHR 0x09, CHR 0x0A, CHR 0x0C, CHR 0x0D}"

definition ascii_lower :: "char \<Rightarrow> char" where
  "ascii_lower c = (if is_ascii_uppercase c then char_of ((of_char c :: nat) + 32) else c)"

definition to_ascii_lowercase :: "string \<Rightarrow> string" where
  "to_ascii_lowercase s = map ascii_lower s"

definition eq_ignore_ascii_case :: "string \<Rightarrow> string \<Rightarrow> bool" where
  "eq_ignore_ascii_case a b \<longleftrightarrow> to_ascii_lowercase a = to_ascii_lowercase b"

lemma ascii_lower_not_upper: "\<not> is_ascii_uppercase (ascii_lower c)"
proof (cases "is_ascii_uppercase c")
  case True
  then have "of_char c \<le> (90 :: nat)" "65 \<le> (of_char c :: nat)"
    by (auto simp: is_ascii_uppercase_def less_eq_char_def)
  with True show ?thesis
    by (simp add: ascii_lower_def is_ascii_uppercase_def less_eq_char_def of_char_of
        not_le take_bit_eq_mod)
next
  case False
  then show ?thesis by (simp add: ascii_lower_def)
qed

lemma ascii_lower_idem [simp]: "ascii_lower (ascii_lower c) = ascii_lower c"
  by (metis ascii_lower_def ascii_lower_not_upper)

lemma to_ascii_lowercase_idem [simp]:
  "to_ascii_lowercase (to_ascii_lowercase s) = to_ascii_lowercase s"
  by (simp add: to_ascii_lowercase_def)

lemma length_to_ascii_lowercase [simp]: "length (to_ascii_lowercase s) = length s"
  by (simp add: to_ascii_lowercase_def)

section \<open>Splitting and joining\<close>

text \<open>\<open>str::split(char)\<close>: the empty string splits into one empty piece.\<close>

fun split_char :: "char \<Rightarrow> string \<Rightarrow> string list" where
  "split_char c [] = [[]]"
| "split_char c (x # xs) =
     (if x = c then [] # split_char c xs
      else (case split_char c xs of [] \<Rightarrow> [[x]] | p # ps \<Rightarrow> (x # p) # ps))"

fun join_char :: "char \<Rightarrow> string list \<Rightarrow> string" where
  "join_char c [] = []"
| "join_char c [p] = p"
| "join_char c (p # q # ps) = p @ c # join_char c (q # ps)"

lemma split_char_nonempty [simp]: "split_char c s \<noteq> []"
  by (induction s) (auto split: list.splits)

lemma join_split [simp]: "join_char c (split_char c s) = s"
proof (induction s)
  case (Cons x xs)
  then show ?case
    by (cases "split_char c xs"; cases "tl (split_char c xs)") auto
qed simp

lemma split_char_no_sep: "p \<in> set (split_char c s) \<Longrightarrow> c \<notin> set p"
  by (induction s arbitrary: p) (auto split: list.splits if_splits)

lemma split_char_append_sep:
  "c \<notin> set p \<Longrightarrow> split_char c (p @ c # s) = p # split_char c s"
  by (induction p) auto

lemma split_char_single: "c \<notin> set p \<Longrightarrow> split_char c p = [p]"
  by (induction p) auto

lemma split_join:
  "ps \<noteq> [] \<Longrightarrow> (\<And>p. p \<in> set ps \<Longrightarrow> c \<notin> set p) \<Longrightarrow> split_char c (join_char c ps) = ps"
  by (induction c ps rule: join_char.induct) (auto simp: split_char_single split_char_append_sep)

fun split_once :: "char \<Rightarrow> string \<Rightarrow> (string \<times> string) option" where
  "split_once c [] = None"
| "split_once c (x # xs) =
     (if x = c then Some ([], xs)
      else map_option (\<lambda>(a, b). (x # a, b)) (split_once c xs))"

fun rsplit_once :: "char \<Rightarrow> string \<Rightarrow> (string \<times> string) option" where
  "rsplit_once c [] = None"
| "rsplit_once c (x # xs) =
     (case rsplit_once c xs of
        Some (a, b) \<Rightarrow> Some (x # a, b)
      | None \<Rightarrow> (if x = c then Some ([], xs) else None))"

lemma split_once_Some:
  "split_once c s = Some (a, b) \<longleftrightarrow> s = a @ c # b \<and> c \<notin> set a"
proof (induction s arbitrary: a)
  case (Cons x xs)
  then show ?case by (cases a) auto
qed simp

lemma split_once_None: "split_once c s = None \<longleftrightarrow> c \<notin> set s"
  by (induction s) auto

section \<open>Searching\<close>

definition strip_prefix :: "string \<Rightarrow> string \<Rightarrow> string option" where
  "strip_prefix p s = (if prefix p s then Some (drop (length p) s) else None)"

definition strip_suffix :: "string \<Rightarrow> string \<Rightarrow> string option" where
  "strip_suffix p s = (if suffix p s then Some (take (length s - length p) s) else None)"

lemma strip_prefix_Some: "strip_prefix p s = Some r \<longleftrightarrow> s = p @ r"
  by (auto simp: strip_prefix_def prefix_def)

lemma strip_suffix_Some: "strip_suffix p s = Some r \<longleftrightarrow> s = r @ p"
  by (auto simp: strip_suffix_def suffix_def)

text \<open>\<open>str::find(&str)\<close>: the least byte index at which the pattern starts.\<close>

fun find_str :: "string \<Rightarrow> string \<Rightarrow> nat option" where
  "find_str p s = (if prefix p s then Some 0
     else (case s of [] \<Rightarrow> None | _ # t \<Rightarrow> map_option Suc (find_str p t)))"

declare find_str.simps [simp del]

definition contains_str :: "string \<Rightarrow> string \<Rightarrow> bool" where
  "contains_str p s \<longleftrightarrow> find_str p s \<noteq> None"

lemma find_str_Some_split:
  "find_str p s = Some i \<Longrightarrow> s = take i s @ p @ drop (i + length p) s \<and> i + length p \<le> length s"
proof (induction s arbitrary: i)
  case Nil
  then show ?case by (auto simp: find_str.simps [of p "[]"] split: if_splits)
next
  case (Cons x s)
  show ?case
  proof (cases "prefix p (x # s)")
    case True
    with Cons.prems prefix_length_le [OF True] show ?thesis
      by (auto simp: find_str.simps [of p "x # s"] prefix_def)
  next
    case False
    with Cons.prems obtain j where "find_str p s = Some j" "i = Suc j"
      by (auto simp: find_str.simps [of p "x # s"])
    with Cons.IH [of j] show ?thesis by simp
  qed
qed

lemma find_str_least:
  "s = a @ p @ b \<Longrightarrow> \<exists>i. find_str p s = Some i \<and> i \<le> length a"
proof (induction a arbitrary: s)
  case Nil
  then show ?case by (simp add: find_str.simps [of p "p @ b"])
next
  case (Cons x a)
  show ?case
  proof (cases "prefix p s")
    case True
    then show ?thesis by (simp add: find_str.simps [of p s])
  next
    case False
    from Cons.IH [OF refl] obtain i where "find_str p (a @ p @ b) = Some i" "i \<le> length a"
      by blast
    with False Cons.prems show ?thesis by (auto simp: find_str.simps [of p "x # a @ p @ b"])
  qed
qed

lemma contains_str_iff: "contains_str p s \<longleftrightarrow> (\<exists>a b. s = a @ p @ b)"
  using find_str_Some_split find_str_least unfolding contains_str_def
  by (metis not_None_eq option.distinct(1))

text \<open>\<open>str::lines\<close>: pieces end at a line feed, which is dropped with one preceding carriage
  return; a last piece without a line feed is kept as it is and an empty one is not produced.\<close>

fun lines_of_pieces :: "string list \<Rightarrow> string list" where
  "lines_of_pieces [] = []"
| "lines_of_pieces [l] = (if l = [] then [] else [l])"
| "lines_of_pieces (p # q # ps) =
     (case strip_suffix [CHR 0x0D] p of None \<Rightarrow> p | Some r \<Rightarrow> r) # lines_of_pieces (q # ps)"

definition lines_of :: "string \<Rightarrow> string list" where
  "lines_of s = lines_of_pieces (split_char (CHR 0x0A) s)"

text \<open>\<open>trim_start_matches('\\u{feff}')\<close> removes every leading byte-order mark.\<close>

fun trim_start_bom :: "string \<Rightarrow> string" where
  "trim_start_bom (a # b # c # s) =
     (if a = CHR 0xEF \<and> b = CHR 0xBB \<and> c = CHR 0xBF then trim_start_bom s else a # b # c # s)"
| "trim_start_bom s = s"

section \<open>Numbers\<close>

text \<open>\<open>str::parse::<u64>\<close>: an optional plus sign and at least one decimal digit, in range.\<close>

fun digits_value :: "nat \<Rightarrow> string \<Rightarrow> nat" where
  "digits_value acc [] = acc"
| "digits_value acc (c # s) = digits_value (10 * acc + (of_char c - 48)) s"

definition parse_u64 :: "string \<Rightarrow> u64 option" where
  "parse_u64 s =
     (let digits = (case s of c # t \<Rightarrow> if c = CHR ''+'' then t else s | [] \<Rightarrow> []) in
      if digits = [] \<or> \<not> list_all is_ascii_digit digits then None
      else if digits_value 0 digits < 2 ^ 64 then Some (of_nat (digits_value 0 digits)) else None)"

section \<open>Encoding\<close>

text \<open>\<open>std::str::from_utf8\<close>: well-formed UTF-8 without overlong forms, surrogates or values above
  \<open>U+10FFFF\<close>.\<close>

definition byte_in :: "nat \<Rightarrow> nat \<Rightarrow> char \<Rightarrow> bool" where
  "byte_in lo hi c \<longleftrightarrow> lo \<le> (of_char c :: nat) \<and> (of_char c :: nat) \<le> hi"

fun valid_utf8 :: "string \<Rightarrow> bool" where
  "valid_utf8 [] \<longleftrightarrow> True"
| "valid_utf8 (a # s) \<longleftrightarrow>
     (if byte_in 0 0x7F a then valid_utf8 s
      else if byte_in 0xC2 0xDF a then
        (case s of b # s' \<Rightarrow> byte_in 0x80 0xBF b \<and> valid_utf8 s' | [] \<Rightarrow> False)
      else if byte_in 0xE0 0xEF a then
        (case s of b # c # s' \<Rightarrow>
           (if a = CHR 0xE0 then byte_in 0xA0 0xBF b
            else if a = CHR 0xED then byte_in 0x80 0x9F b else byte_in 0x80 0xBF b)
           \<and> byte_in 0x80 0xBF c \<and> valid_utf8 s'
         | _ \<Rightarrow> False)
      else if byte_in 0xF0 0xF4 a then
        (case s of b # c # d # s' \<Rightarrow>
           (if a = CHR 0xF0 then byte_in 0x90 0xBF b
            else if a = CHR 0xF4 then byte_in 0x80 0x8F b else byte_in 0x80 0xBF b)
           \<and> byte_in 0x80 0xBF c \<and> byte_in 0x80 0xBF d \<and> valid_utf8 s'
         | _ \<Rightarrow> False)
      else False)"

definition from_utf8 :: "string \<Rightarrow> string option" where
  "from_utf8 s = (if valid_utf8 s then Some s else None)"

end
