(* ===== verification/Domain_Base.thy ===== *)
theory Domain_Base
  imports Rust_Text
begin

text \<open>
  The vocabulary of \<open>erabi-domain\<close>: the error codes and \<open>ProductError\<close> of \<open>error.rs\<close>, the
  typed identifiers of \<open>id.rs\<close>, the run and source statuses of \<open>status.rs\<close>, and the layered
  operational settings of \<open>settings.rs\<close> and \<open>run_profile.rs\<close>.  A typed identifier is the
  text of its UUID; the UUID library itself is not modelled, so freshly created identifiers
  are arguments of the operations that create them.
\<close>

section \<open>Errors\<close>

datatype ErrorCode =
    SchemaDrift | AmbiguousPageType | UnresolvedReference | StorageCritical
  | CrawlerUnavailable | ValidationError | Conflict | NotFound | AccessDenied
  | CrawlerTimeout | InvalidCanonicalizationPolicy | InvalidUrl | UnsupportedUrlScheme
  | InvalidDomainScope | InvalidDomainScopeRule | RegistrableDomainUnavailable
  | InvalidDiscoveryTransition | InvalidCrawlGuardrails | InvalidPageTypeBudget
  | InvalidTransitionBudget | BudgetOverflow

text \<open>\<open>details\<close> is always \<open>Value::Null\<close>, \<open>recoverable\<close> false and \<open>suggested_actions\<close> empty in the
  errors the domain crate builds; the record keeps the fields that vary.\<close>

record ProductError =
  code :: ErrorCode
  safe_message :: string

definition with_code :: "ErrorCode \<Rightarrow> string \<Rightarrow> ProductError" where
  "with_code c message = \<lparr>code = c, safe_message = message\<rparr>"

definition conflict :: "string \<Rightarrow> ProductError" where
  "conflict message = \<lparr>code = Conflict, safe_message = message\<rparr>"

lemma code_with_code [simp]: "code (with_code c m) = c" "code (conflict m) = Conflict"
  by (simp_all add: with_code_def conflict_def)

type_synonym 'a product_result = "ProductError + 'a"

section \<open>Identifiers and statuses\<close>

type_synonym PageTypeId = string
type_synonym DiscoveryTransitionId = string
type_synonym SeedId = string
type_synonym CrawlerId = string
type_synonym CrawlerVersionId = string
type_synonym CrawlRunId = string
type_synonym TestEvidenceId = string
type_synonym RunProfileId = string

datatype CrawlRunType = QuickScrape | TestRun | DiscoveryPreview | ProductionRun

datatype CrawlRunStatus = RunQueued | RunRunning | RunSucceeded | RunPartialResult | RunFailed | RunCancelled

section \<open>Layered settings\<close>

datatype 'a LayerValue = Inherit | Custom 'a | ResetToBuiltIn

datatype SettingSource =
    PerRunOverride | RunProfileLayer | CrawlerOperationalDefault | CollectionOverride
  | GlobalSetting | BuiltInDefault

record 'a ResolvedValue =
  resolved :: 'a
  origin :: SettingSource

record 'a SettingLayers =
  per_run :: "'a LayerValue"
  run_profile :: "'a LayerValue option"
  crawler :: "'a LayerValue option"
  collection :: "'a LayerValue option"
  global :: "'a LayerValue"

definition quick_scrape_layers ::
  "'a LayerValue \<Rightarrow> 'a LayerValue option \<Rightarrow> 'a LayerValue \<Rightarrow> 'a SettingLayers" where
  "quick_scrape_layers per_run_value collection_value global_value =
     \<lparr>per_run = per_run_value, run_profile = None, crawler = None,
      collection = collection_value, global = global_value\<rparr>"

definition setting_layers :: "'a SettingLayers \<Rightarrow> (SettingSource \<times> 'a LayerValue option) list" where
  "setting_layers l =
     [(PerRunOverride, Some (per_run l)),
      (RunProfileLayer, run_profile l),
      (CrawlerOperationalDefault, crawler l),
      (CollectionOverride, collection l),
      (GlobalSetting, Some (global l))]"

fun resolve_layers ::
  "(SettingSource \<times> 'a LayerValue option) list \<Rightarrow> 'a \<Rightarrow> 'a ResolvedValue" where
  "resolve_layers [] built_in = \<lparr>resolved = built_in, origin = BuiltInDefault\<rparr>"
| "resolve_layers ((src, Some (Custom v)) # ls) built_in = \<lparr>resolved = v, origin = src\<rparr>"
| "resolve_layers ((src, Some ResetToBuiltIn) # ls) built_in =
     \<lparr>resolved = built_in, origin = BuiltInDefault\<rparr>"
| "resolve_layers ((src, Some Inherit) # ls) built_in = resolve_layers ls built_in"
| "resolve_layers ((src, None) # ls) built_in = resolve_layers ls built_in"

definition resolve :: "'a SettingLayers \<Rightarrow> 'a \<Rightarrow> 'a ResolvedValue" where
  "resolve l built_in = resolve_layers (setting_layers l) built_in"

text \<open>A layer decides when it is applicable and does not defer.\<close>

definition decides :: "SettingSource \<times> 'a LayerValue option \<Rightarrow> bool" where
  "decides p \<longleftrightarrow> snd p \<noteq> None \<and> snd p \<noteq> Some Inherit"

lemma resolve_layers_find:
  "resolve_layers ls b =
     (case find decides ls of
        Some (src, Some (Custom x)) \<Rightarrow> \<lparr>resolved = x, origin = src\<rparr>
      | _ \<Rightarrow> \<lparr>resolved = b, origin = BuiltInDefault\<rparr>)"
  by (induction ls b rule: resolve_layers.induct) (auto simp: decides_def)

lemma quick_scrape_origin:
  "origin (resolve (quick_scrape_layers p c g) b)
     \<in> {PerRunOverride, CollectionOverride, GlobalSetting, BuiltInDefault}"
  by (cases p; cases c; cases "the c"; cases g)
    (auto simp: resolve_def setting_layers_def quick_scrape_layers_def)

text \<open>
  Resolution follows the canonical precedence per-run, run profile, crawler, collection,
  global: the highest-precedence applicable layer that does not inherit decides alone, no
  matter what the layers below it say; a custom value is reported with its own layer as the
  source, a reset yields the built-in value, and so does the absence of any deciding layer.
  A Quick Scrape never takes a value from a run profile or a crawler.
\<close>
theorem resolve_precedence:
  "resolve l b =
     (case find decides (setting_layers l) of
        Some (src, Some (Custom x)) \<Rightarrow> \<lparr>resolved = x, origin = src\<rparr>
      | _ \<Rightarrow> \<lparr>resolved = b, origin = BuiltInDefault\<rparr>)
   \<and> origin (resolve (quick_scrape_layers p c g) b')
       \<in> {PerRunOverride, CollectionOverride, GlobalSetting, BuiltInDefault}"
  by (rule conjI [OF _ quick_scrape_origin]) (simp add: resolve_def resolve_layers_find)

end
