(* ===== verification/Guardrails.thy ===== *)
theory Guardrails
  imports Domain_Base
begin

text \<open>
  Version-level crawl guardrails (\<open>guardrails.rs\<close>), the discovery transition graph
  (\<open>transition.rs\<close>) and the pure scheduling decision over both (\<open>budget.rs\<close>).  Counters keep
  their Rust widths, so the checked additions of the evaluator are additions of words with an
  explicit overflow branch.
\<close>

section \<open>Guardrails\<close>

definition GUARDRAIL_POLICY_VERSION :: u16 where
  "GUARDRAIL_POLICY_VERSION = 1"

datatype DeferredPageTypeHealth = DeferredExtractionHealth u16

record PageTypeDiscoveryGuardrails =
  page_type_id :: PageTypeId
  page_budget :: "u64 option"
  health_threshold :: "DeferredPageTypeHealth option"

record CrawlerVersionGuardrails =
  gr_version :: u16
  max_pages :: u64
  max_depth :: u32
  max_duration_seconds :: u64
  max_downloaded_bytes :: u64
  max_concurrent_requests_per_domain :: u32
  min_request_delay_ms :: u64
  gr_page_types :: "PageTypeDiscoveryGuardrails list"

definition default_guardrails :: CrawlerVersionGuardrails where
  "default_guardrails =
     \<lparr>gr_version = GUARDRAIL_POLICY_VERSION, max_pages = 1000, max_depth = 16,
      max_duration_seconds = 3600, max_downloaded_bytes = 100 * 1024 * 1024,
      max_concurrent_requests_per_domain = 1, min_request_delay_ms = 100, gr_page_types = []\<rparr>"

fun validate_page_types :: "PageTypeId set \<Rightarrow> PageTypeDiscoveryGuardrails list \<Rightarrow> unit product_result" where
  "validate_page_types seen [] = Inr ()"
| "validate_page_types seen (p # ps) =
     (if page_type_id p \<in> seen \<or> page_budget p = Some 0 then
        Inl (with_code InvalidPageTypeBudget ''PageType budgets must be positive and unique'')
      else (case health_threshold p of
         Some (DeferredExtractionHealth v) \<Rightarrow>
           if v \<noteq> 1 then
             Inl (with_code InvalidPageTypeBudget ''the PageType health contract version is unsupported'')
           else validate_page_types (insert (page_type_id p) seen) ps
       | None \<Rightarrow> validate_page_types (insert (page_type_id p) seen) ps))"

definition validate_guardrails :: "CrawlerVersionGuardrails \<Rightarrow> unit product_result" where
  "validate_guardrails g =
     (if gr_version g \<noteq> GUARDRAIL_POLICY_VERSION \<or> max_pages g = 0 \<or> max_depth g = 0
         \<or> max_duration_seconds g = 0 \<or> max_downloaded_bytes g = 0
         \<or> max_concurrent_requests_per_domain g = 0
      then Inl (with_code InvalidCrawlGuardrails ''mandatory crawler guardrails must be valid and positive'')
      else validate_page_types {} (gr_page_types g))"

record ResolvedOperationalLimits =
  lim_max_pages :: u64
  lim_max_depth :: u32
  lim_max_duration_seconds :: u64
  lim_max_downloaded_bytes :: u64
  lim_concurrency :: u32
  lim_request_delay_ms :: u64

definition validate_effective_operational_limits ::
  "CrawlerVersionGuardrails \<Rightarrow> ResolvedOperationalLimits \<Rightarrow> unit product_result" where
  "validate_effective_operational_limits g l =
     res_bind (validate_guardrails g) (\<lambda>_.
       if lim_max_pages l > max_pages g
          \<or> lim_max_depth l > max_depth g
          \<or> lim_max_duration_seconds l > max_duration_seconds g
          \<or> lim_max_downloaded_bytes l > max_downloaded_bytes g
          \<or> lim_concurrency l > max_concurrent_requests_per_domain g
          \<or> lim_request_delay_ms l < min_request_delay_ms g
       then Inl (with_code InvalidCrawlGuardrails
                   ''resolved operational limits exceed the crawler safety baseline'')
       else Inr ())"

definition guardrail_page_type ::
  "CrawlerVersionGuardrails \<Rightarrow> PageTypeId \<Rightarrow> PageTypeDiscoveryGuardrails option" where
  "guardrail_page_type g i = find (\<lambda>b. page_type_id b = i) (gr_page_types g)"

text \<open>The contract the validation enforces, stated without the loop.\<close>

definition page_type_budgets_ok :: "PageTypeDiscoveryGuardrails list \<Rightarrow> bool" where
  "page_type_budgets_ok ps \<longleftrightarrow>
     distinct (map page_type_id ps) \<and>
     (\<forall>p \<in> set ps. page_budget p \<noteq> Some 0 \<and>
        (\<forall>v. health_threshold p = Some (DeferredExtractionHealth v) \<longrightarrow> v = 1))"

definition guardrails_ok :: "CrawlerVersionGuardrails \<Rightarrow> bool" where
  "guardrails_ok g \<longleftrightarrow>
     gr_version g = GUARDRAIL_POLICY_VERSION \<and> max_pages g > 0 \<and> max_depth g > 0
     \<and> max_duration_seconds g > 0 \<and> max_downloaded_bytes g > 0
     \<and> max_concurrent_requests_per_domain g > 0 \<and> page_type_budgets_ok (gr_page_types g)"

lemma validate_page_types_ok:
  "validate_page_types seen ps = Inr () \<longleftrightarrow>
     page_type_budgets_ok ps \<and> page_type_id ` set ps \<inter> seen = {}"
proof (induction seen ps rule: validate_page_types.induct)
  case (2 seen p ps)
  show ?case
  proof (cases "health_threshold p")
    case None
    with "2.IH" show ?thesis by (auto simp: page_type_budgets_ok_def)
  next
    case (Some h)
    obtain v where h: "h = DeferredExtractionHealth v" by (cases h)
    show ?thesis
    proof (cases "v = 1")
      case True
      with Some h "2.IH" show ?thesis by (auto simp: page_type_budgets_ok_def)
    next
      case False
      with Some h show ?thesis by (auto simp: page_type_budgets_ok_def)
    qed
  qed
qed (simp add: page_type_budgets_ok_def)

lemma validate_guardrails_ok: "validate_guardrails g = Inr () \<longleftrightarrow> guardrails_ok g"
  by (auto simp: validate_guardrails_def guardrails_ok_def validate_page_types_ok word_greater_zero_iff)

lemma default_guardrails_ok: "guardrails_ok default_guardrails"
  by (simp add: guardrails_ok_def default_guardrails_def page_type_budgets_ok_def)

lemma guardrail_page_type_unique:
  assumes "guardrails_ok g" and "p \<in> set (gr_page_types g)"
  shows "guardrail_page_type g (page_type_id p) = Some p"
proof -
  from assms(1) have d: "distinct (map page_type_id (gr_page_types g))"
    by (simp add: guardrails_ok_def page_type_budgets_ok_def)
  have "find (\<lambda>b. page_type_id b = page_type_id p) ps = Some p"
    if "distinct (map page_type_id ps)" "p \<in> set ps" for ps
    using that by (induction ps) (auto simp: image_iff)
  with d assms(2) show ?thesis by (simp add: guardrail_page_type_def)
qed

text \<open>
  Guardrail validation succeeds exactly on the documented contract (supported version,
  every mandatory cap positive, per-page-type budgets positive and unique, supported health
  contract), and an operational limit set passes on top of it exactly when it widens no
  semantic cap and does not shorten the semantic request delay.
\<close>
theorem effective_limits_never_widen:
  "(validate_guardrails g = Inr () \<longleftrightarrow> guardrails_ok g)
   \<and> (validate_effective_operational_limits g l = Inr () \<longleftrightarrow>
       guardrails_ok g \<and> lim_max_pages l \<le> max_pages g \<and> lim_max_depth l \<le> max_depth g
       \<and> lim_max_duration_seconds l \<le> max_duration_seconds g
       \<and> lim_max_downloaded_bytes l \<le> max_downloaded_bytes g
       \<and> lim_concurrency l \<le> max_concurrent_requests_per_domain g
       \<and> min_request_delay_ms g \<le> lim_request_delay_ms l)"
  by (auto simp: validate_effective_operational_limits_def validate_guardrails_ok result_simps not_less)

section \<open>Transitions\<close>

record TransitionBudget =
  max_links_per_source_page :: u32
  total_budget :: "u64 option"
  depth_contribution :: u32

record DiscoveryTransition =
  tr_id :: DiscoveryTransitionId
  source_page_type_id :: PageTypeId
  target_page_type_id :: PageTypeId
  tr_name :: string
  tr_enabled :: bool
  link_selector :: string
  url_constraints :: "string option"
  tr_priority :: int
  tr_budget :: TransitionBudget
  deduplicate :: bool
  latest_test_evidence_id :: "TestEvidenceId option"

definition validate_transition :: "DiscoveryTransition \<Rightarrow> unit product_result" where
  "validate_transition t =
     (if blank (tr_name t) \<or> char_count (tr_name t) > 256 then
        Inl (with_code InvalidDiscoveryTransition
               ''transition name must be non-empty and at most 256 characters'')
      else if blank (link_selector t) \<or> char_count (link_selector t) > 1024 then
        Inl (with_code InvalidDiscoveryTransition
               ''transition link selector must be non-empty and bounded'')
      else if (case url_constraints t of None \<Rightarrow> False
               | Some c \<Rightarrow> blank c \<or> char_count c > 2048 \<or> any_char is_control c) then
        Inl (with_code InvalidDiscoveryTransition ''transition URL constraints are invalid'')
      else if max_links_per_source_page (tr_budget t) = 0 then
        Inl (with_code InvalidTransitionBudget ''transition link budget must be positive'')
      else if total_budget (tr_budget t) = Some 0 then
        Inl (with_code InvalidTransitionBudget
               ''transition total budget must be positive when configured'')
      else Inr ())"

text \<open>\<open>TransitionGraph::new\<close>; the graph is the accepted list of transitions.\<close>

fun check_transitions ::
  "PageTypeId set \<Rightarrow> DiscoveryTransitionId set \<Rightarrow> DiscoveryTransition list \<Rightarrow> unit product_result" where
  "check_transitions pts seen [] = Inr ()"
| "check_transitions pts seen (t # ts) =
     res_bind (validate_transition t) (\<lambda>_.
       if tr_id t \<in> seen then
         Inl (with_code InvalidDiscoveryTransition ''transition IDs must be unique'')
       else if source_page_type_id t \<notin> pts then
         Inl (with_code InvalidDiscoveryTransition ''transition source PageType is not owned by the version'')
       else if target_page_type_id t \<notin> pts then
         Inl (with_code InvalidDiscoveryTransition ''transition target PageType is not owned by the version'')
       else check_transitions pts (insert (tr_id t) seen) ts)"

definition new_transition_graph ::
  "PageTypeId list \<Rightarrow> DiscoveryTransition list \<Rightarrow> DiscoveryTransition list product_result" where
  "new_transition_graph pts ts = res_bind (check_transitions (set pts) {} ts) (\<lambda>_. Inr ts)"

lemma check_transitions_ok:
  "check_transitions pts seen ts = Inr () \<longleftrightarrow>
     (\<forall>t \<in> set ts. validate_transition t = Inr ()
        \<and> source_page_type_id t \<in> pts \<and> target_page_type_id t \<in> pts)
     \<and> distinct (map tr_id ts) \<and> tr_id ` set ts \<inter> seen = {}"
  by (induction pts seen ts rule: check_transitions.induct) (auto simp: result_simps)

text \<open>
  A transition graph is built exactly from the lists whose transitions are each valid,
  have unique identifiers and connect page types of the version; the graph then holds exactly
  the given transitions in order.  Cycles and self-edges are not excluded.
\<close>
theorem transition_graph_accepts:
  "new_transition_graph pts ts = Inr g \<longleftrightarrow>
     g = ts \<and> distinct (map tr_id ts)
     \<and> list_all (\<lambda>t. validate_transition t = Inr ()
          \<and> {source_page_type_id t, target_page_type_id t} \<subseteq> set pts) ts"
  by (auto simp: new_transition_graph_def result_simps check_transitions_ok list_all_iff)

end
