(* ===== verification/Budget.thy ===== *)
theory Budget
  imports Guardrails
begin

text \<open>
  The discovery budget evaluator of \<open>budget.rs\<close>: one pure decision for one prospective page.
\<close>

record DiscoveryBudgetCandidate =
  pages_already_scheduled :: u64
  current_depth :: u32
  elapsed_duration_seconds :: u64
  downloaded_bytes :: u64
  page_type_pages :: u64
  transition_links_on_source_page :: u32
  transition_total_links :: u64
  prospective_download_bytes :: u64

datatype DiscoveryBudgetExclusion =
    MaxPages | MaxDuration | MaxDepth | MaxDownloadedBytes | PageTypePageBudget
  | TransitionPerPageLinkLimit | TransitionTotalBudget

datatype DiscoveryBudgetDecision = Allowed | Excluded DiscoveryBudgetExclusion

datatype DiscoveryBudgetError = InvalidGuardrails | InvalidBudget | Overflow

record DiscoveryBudgetEvaluator =
  ev_guardrails :: CrawlerVersionGuardrails
  ev_page_type :: "PageTypeDiscoveryGuardrails option"
  ev_transition :: "TransitionBudget option"

definition transition_checks ::
  "TransitionBudget option \<Rightarrow> DiscoveryBudgetCandidate
     \<Rightarrow> DiscoveryBudgetError + DiscoveryBudgetExclusion option" where
  "transition_checks tr c =
     (case tr of
        None \<Rightarrow> Inr None
      | Some t \<Rightarrow>
          if transition_links_on_source_page c \<ge> max_links_per_source_page t then
            Inr (Some TransitionPerPageLinkLimit)
          else if (case total_budget t of None \<Rightarrow> False | Some b \<Rightarrow> transition_total_links c \<ge> b) then
            Inr (Some TransitionTotalBudget)
          else
            res_bind (ok_or (checked_add (transition_links_on_source_page c) 1) Overflow) (\<lambda>_.
            res_bind (ok_or (checked_add (transition_total_links c) 1) Overflow) (\<lambda>_.
            Inr None)))"

definition evaluate_budget ::
  "DiscoveryBudgetEvaluator \<Rightarrow> DiscoveryBudgetCandidate
     \<Rightarrow> DiscoveryBudgetError + DiscoveryBudgetDecision" where
  "evaluate_budget ev c =
     (let g = ev_guardrails ev in
      res_bind (map_err (\<lambda>_. InvalidGuardrails) (validate_guardrails g)) (\<lambda>_.
      if (case ev_page_type ev of None \<Rightarrow> False | Some p \<Rightarrow> page_budget p = Some 0) then
        Inl InvalidGuardrails
      else if (case ev_transition ev of None \<Rightarrow> False
               | Some t \<Rightarrow> max_links_per_source_page t = 0 \<or> total_budget t = Some 0) then
        Inl InvalidBudget
      else if pages_already_scheduled c \<ge> max_pages g then Inr (Excluded MaxPages)
      else if elapsed_duration_seconds c \<ge> max_duration_seconds g then Inr (Excluded MaxDuration)
      else
        res_bind (ok_or (checked_add (current_depth c)
                    (case ev_transition ev of None \<Rightarrow> 0 | Some t \<Rightarrow> depth_contribution t)) Overflow)
          (\<lambda>prospective_depth.
        if prospective_depth > max_depth g then Inr (Excluded MaxDepth)
        else
          res_bind (ok_or (checked_add (downloaded_bytes c) (prospective_download_bytes c)) Overflow)
            (\<lambda>prospective_bytes.
          if prospective_bytes > max_downloaded_bytes g then Inr (Excluded MaxDownloadedBytes)
          else if (case Option.bind (ev_page_type ev) page_budget of None \<Rightarrow> False
                   | Some b \<Rightarrow> page_type_pages c \<ge> b) then
            Inr (Excluded PageTypePageBudget)
          else
            res_bind (transition_checks (ev_transition ev) c) (\<lambda>exclusion.
            case exclusion of
              Some e \<Rightarrow> Inr (Excluded e)
            | None \<Rightarrow>
                res_bind (ok_or (checked_add (pages_already_scheduled c) 1) Overflow)
                  (\<lambda>_. Inr Allowed))))))"

section \<open>Correctness\<close>

text \<open>The caps a candidate must respect, over unbounded naturals.\<close>

definition within_caps :: "DiscoveryBudgetEvaluator \<Rightarrow> DiscoveryBudgetCandidate \<Rightarrow> bool" where
  "within_caps ev c \<longleftrightarrow>
     (let g = ev_guardrails ev in
      unat (pages_already_scheduled c) + 1 \<le> unat (max_pages g)
      \<and> unat (elapsed_duration_seconds c) < unat (max_duration_seconds g)
      \<and> unat (current_depth c)
          + (case ev_transition ev of None \<Rightarrow> 0 | Some t \<Rightarrow> unat (depth_contribution t))
          \<le> unat (max_depth g)
      \<and> unat (downloaded_bytes c) + unat (prospective_download_bytes c)
          \<le> unat (max_downloaded_bytes g)
      \<and> (case Option.bind (ev_page_type ev) page_budget of None \<Rightarrow> True
         | Some b \<Rightarrow> unat (page_type_pages c) + 1 \<le> unat b)
      \<and> (case ev_transition ev of None \<Rightarrow> True
         | Some t \<Rightarrow> unat (transition_links_on_source_page c) + 1 \<le> unat (max_links_per_source_page t)
             \<and> unat (transition_total_links c) + 1 < 2 ^ 64
             \<and> (case total_budget t of None \<Rightarrow> True
                | Some b \<Rightarrow> unat (transition_total_links c) + 1 \<le> unat b)))"

definition evaluator_ok :: "DiscoveryBudgetEvaluator \<Rightarrow> bool" where
  "evaluator_ok ev \<longleftrightarrow>
     guardrails_ok (ev_guardrails ev)
     \<and> (case ev_page_type ev of None \<Rightarrow> True | Some p \<Rightarrow> page_budget p \<noteq> Some 0)
     \<and> (case ev_transition ev of None \<Rightarrow> True
        | Some t \<Rightarrow> max_links_per_source_page t \<noteq> 0 \<and> total_budget t \<noteq> Some 0)"

lemma validate_guardrails_cases:
  "(\<exists>e. validate_guardrails g = Inl e) \<or> validate_guardrails g = Inr ()"
  by (cases "validate_guardrails g") auto

lemma transition_checks_pass:
  "transition_checks tr c = Inr None \<longleftrightarrow>
     (case tr of None \<Rightarrow> True
      | Some t \<Rightarrow> unat (transition_links_on_source_page c) + 1 \<le> unat (max_links_per_source_page t)
          \<and> unat (transition_total_links c) + 1 < 2 ^ 64
          \<and> (case total_budget t of None \<Rightarrow> True
             | Some b \<Rightarrow> unat (transition_total_links c) + 1 \<le> unat b))"
proof (cases tr)
  case (Some t)
  have links: "transition_links_on_source_page c < max_links_per_source_page t \<Longrightarrow>
      \<exists>x. checked_add (transition_links_on_source_page c) 1 = Some x"
    by (rule succ_no_overflow)
  have total: "(\<exists>x. checked_add (transition_total_links c) 1 = Some x) \<longleftrightarrow>
      unat (transition_total_links c) + 1 < 2 ^ 64"
    by (simp add: checked_add_def)
  show ?thesis
    using Some links total
    by (auto simp: transition_checks_def result_simps word_le_nat_alt not_le Suc_le_eq
        word_less_nat_alt split: option.splits)
qed (simp add: transition_checks_def)

text \<open>A checked sum followed by its cap admits exactly the sums below the cap.\<close>

lemma checked_stage:
  "res_bind (ok_or (checked_add a b) Overflow)
       (\<lambda>x. if x > m then Inr (Excluded r) else k) = Inr Allowed
     \<longleftrightarrow> unat a + unat b \<le> unat m \<and> k = Inr Allowed"
  unfolding checked_add_within [symmetric] by (auto simp: result_simps not_less)

lemma last_stage:
  "pages_already_scheduled c < max_pages g \<Longrightarrow>
   res_bind (transition_checks tr c) (\<lambda>exclusion. case exclusion of
       Some e \<Rightarrow> Inr (Excluded e)
     | None \<Rightarrow> res_bind (ok_or (checked_add (pages_already_scheduled c) 1) Overflow) (\<lambda>_. Inr Allowed))
     = Inr Allowed \<longleftrightarrow> transition_checks tr c = Inr None"
  using succ_no_overflow [of "pages_already_scheduled c" "max_pages g"]
  by (auto simp: result_simps split: option.splits)

text \<open>
  C29. The evaluator allows a candidate exactly when its configuration is valid and, computed
  over unbounded naturals, scheduling it keeps every crawler, page-type and transition cap:
  no wrap-around of a 32- or 64-bit counter can turn an exceeded cap into an admission, and
  malformed configuration is never read as unlimited.
\<close>
theorem budget_allows_iff_within_caps:
  "evaluate_budget ev c = Inr Allowed \<longleftrightarrow> evaluator_ok ev \<and> within_caps ev c"
proof (cases "evaluator_ok ev")
  case False
  then show ?thesis
    using validate_guardrails_cases [of "ev_guardrails ev"]
    by (auto simp: evaluate_budget_def Let_def evaluator_ok_def validate_guardrails_ok [symmetric]
        split: option.splits)
next
  case True
  let ?g = "ev_guardrails ev"
  from True have ok: "validate_guardrails ?g = Inr ()"
    by (simp add: evaluator_ok_def validate_guardrails_ok)
  show ?thesis
  proof (cases "pages_already_scheduled c < max_pages ?g")
    case False
    with ok show ?thesis
      by (auto simp: evaluate_budget_def Let_def within_caps_def not_less word_le_nat_alt
          split: option.splits)
  next
    case pages: True
    from True ok pages have "evaluate_budget ev c = Inr Allowed \<longleftrightarrow>
       \<not> elapsed_duration_seconds c \<ge> max_duration_seconds ?g
       \<and> unat (current_depth c)
           + unat (case ev_transition ev of None \<Rightarrow> 0 | Some t \<Rightarrow> depth_contribution t) \<le> unat (max_depth ?g)
       \<and> unat (downloaded_bytes c) + unat (prospective_download_bytes c) \<le> unat (max_downloaded_bytes ?g)
       \<and> \<not> (case Option.bind (ev_page_type ev) page_budget of None \<Rightarrow> False | Some b \<Rightarrow> page_type_pages c \<ge> b)
       \<and> transition_checks (ev_transition ev) c = Inr None"
      by (auto simp: evaluate_budget_def Let_def evaluator_ok_def checked_stage last_stage not_le
          split: option.split_asm)
    with True pages show ?thesis
      by (auto simp: within_caps_def Let_def transition_checks_pass word_le_nat_alt word_less_nat_alt
          not_le Suc_le_eq split: option.splits)
  qed
qed

end
