(* ===== verification/Url_Api.thy ===== *)
theory Url_Api
  imports Rust_Text
begin

text \<open>
  The operations of the \<open>url\<close> crate the sources call, as a record of functions over an
  opaque URL type.  The crate is not part of the repository: every definition that parses,
  reads or edits a URL takes such a record as an argument, and nothing is assumed about it
  except where a theorem names the law it needs.  Setters return \<open>None\<close> where the crate
  returns \<open>Err\<close>.
\<close>

datatype Ipv4Addr = Ipv4Addr u8 u8 u8 u8

datatype Ipv6Addr = Ipv6Addr u16 u16 u16 u16 u16 u16 u16 u16

datatype url_host = HostDomain string | HostIpv4 Ipv4Addr | HostIpv6 Ipv6Addr

record 'u url_api =
  url_parse :: "string \<Rightarrow> 'u option"
  url_scheme :: "'u \<Rightarrow> string"
  url_username :: "'u \<Rightarrow> string"
  url_password :: "'u \<Rightarrow> string option"
  url_host_str :: "'u \<Rightarrow> string option"
  url_host :: "'u \<Rightarrow> url_host option"
  url_port :: "'u \<Rightarrow> u16 option"
  url_port_or_known_default :: "'u \<Rightarrow> u16 option"
  url_path :: "'u \<Rightarrow> string"
  url_query :: "'u \<Rightarrow> string option"
  url_fragment :: "'u \<Rightarrow> string option"
  url_as_str :: "'u \<Rightarrow> string"
  url_query_pairs :: "'u \<Rightarrow> (string \<times> string) list"
  url_set_scheme :: "string \<Rightarrow> 'u \<Rightarrow> 'u option"
  url_set_host :: "string \<Rightarrow> 'u \<Rightarrow> 'u option"
  url_clear_port :: "'u \<Rightarrow> 'u option"
  url_set_path :: "string \<Rightarrow> 'u \<Rightarrow> 'u"
  url_set_query :: "string option \<Rightarrow> 'u \<Rightarrow> 'u"
  url_clear_fragment :: "'u \<Rightarrow> 'u"
  form_first_key :: "string \<Rightarrow> string option"

definition is_http_scheme :: "string \<Rightarrow> bool" where
  "is_http_scheme s \<longleftrightarrow> s = ''http'' \<or> s = ''https''"

text \<open>A structured URL type and its accessors, the concrete instance the examples use.\<close>

record plain_url =
  pu_scheme :: string
  pu_username :: string
  pu_password :: "string option"
  pu_host :: "url_host option"
  pu_host_str :: "string option"
  pu_port :: "u16 option"
  pu_path :: string
  pu_query :: "string option"
  pu_fragment :: "string option"

definition plain_default_port :: "plain_url \<Rightarrow> u16 option" where
  "plain_default_port u =
     (case pu_port u of Some p \<Rightarrow> Some p
      | None \<Rightarrow> if pu_scheme u = ''http'' then Some 80 else if pu_scheme u = ''https'' then Some 443 else None)"

definition plain_api :: "plain_url url_api" where
  "plain_api = \<lparr>url_parse = (\<lambda>_. None), url_scheme = pu_scheme, url_username = pu_username,
     url_password = pu_password, url_host_str = pu_host_str, url_host = pu_host, url_port = pu_port,
     url_port_or_known_default = plain_default_port, url_path = pu_path, url_query = pu_query,
     url_fragment = pu_fragment, url_as_str = (\<lambda>u. pu_scheme u @ '':'' @ pu_path u),
     url_query_pairs = (\<lambda>_. []), url_set_scheme = (\<lambda>s u. Some (u\<lparr>pu_scheme := s\<rparr>)),
     url_set_host = (\<lambda>h u. Some (u\<lparr>pu_host := Some (HostDomain h), pu_host_str := Some h\<rparr>)),
     url_clear_port = (\<lambda>u. Some (u\<lparr>pu_port := None\<rparr>)), url_set_path = (\<lambda>p u. u\<lparr>pu_path := p\<rparr>),
     url_set_query = (\<lambda>q u. u\<lparr>pu_query := q\<rparr>), url_clear_fragment = (\<lambda>u. u\<lparr>pu_fragment := None\<rparr>),
     form_first_key = (\<lambda>s. Some (hd (split_char (CHR ''='') s)))\<rparr>"

definition plain_https :: "string \<Rightarrow> string \<Rightarrow> plain_url" where
  "plain_https h p = \<lparr>pu_scheme = ''https'', pu_username = [], pu_password = None,
     pu_host = Some (HostDomain h), pu_host_str = Some h, pu_port = None, pu_path = p,
     pu_query = None, pu_fragment = None\<rparr>"

end
