(* ===== verification/Ordered_Map.thy ===== *)
theory Ordered_Map
  imports Prelude
begin

text \<open>
  \<open>std::collections::BTreeMap\<close> as a key-sorted association list: iteration order is key order,
  which the sources rely on when they prune or evict.  The locale states what clients use of
  the container; the interpretation discharges it for the sorted lists.
\<close>

locale ordered_map =
  fixes lookup :: "'m \<Rightarrow> 'k \<Rightarrow> 'v option"
    and insert_kv :: "'k \<Rightarrow> 'v \<Rightarrow> 'm \<Rightarrow> 'm"
    and remove :: "'k \<Rightarrow> 'm \<Rightarrow> 'm"
    and retain :: "('k \<Rightarrow> 'v \<Rightarrow> bool) \<Rightarrow> 'm \<Rightarrow> 'm"
    and size_of :: "'m \<Rightarrow> nat"
    and invar :: "'m \<Rightarrow> bool"
  assumes lookup_insert: "invar m \<Longrightarrow> lookup (insert_kv k v m) k' = (if k' = k then Some v else lookup m k')"
    and lookup_remove: "invar m \<Longrightarrow> lookup (remove k m) k' = (if k' = k then None else lookup m k')"
    and lookup_retain: "invar m \<Longrightarrow>
      lookup (retain P m) k = (case lookup m k of None \<Rightarrow> None | Some v \<Rightarrow> if P k v then Some v else None)"
    and invar_insert: "invar m \<Longrightarrow> invar (insert_kv k v m)"
    and invar_remove: "invar m \<Longrightarrow> invar (remove k m)"
    and invar_retain: "invar m \<Longrightarrow> invar (retain P m)"
    and size_insert: "invar m \<Longrightarrow>
      size_of (insert_kv k v m) = (if lookup m k = None then Suc (size_of m) else size_of m)"
    and size_remove: "invar m \<Longrightarrow>
      size_of (remove k m) = (if lookup m k = None then size_of m else size_of m - 1)"
    and size_pos: "invar m \<Longrightarrow> lookup m k \<noteq> None \<Longrightarrow> 0 < size_of m"
    and size_retain: "size_of (retain P m) \<le> size_of m"
begin

lemma insert_room:
  assumes "invar m" and "lookup m k \<noteq> None \<or> size_of m < c"
    and "size_of m \<le> c"
  shows "size_of (insert_kv k v m) \<le> c"
  using assms by (auto simp: size_insert)

text \<open>Evicting a present key before inserting an absent one keeps a full map at its bound.\<close>

lemma evict_insert_room:
  assumes "invar m" and "lookup m k = None" and "lookup m e \<noteq> None" and "size_of m \<le> c"
  shows "size_of (insert_kv k v (remove e m)) \<le> c"
proof -
  have "0 < size_of m" using assms(1,3) by (rule size_pos)
  moreover have "lookup (remove e m) k = None" using assms(1,2) by (simp add: lookup_remove)
  ultimately show ?thesis
    using assms by (auto simp: size_insert invar_remove size_remove)
qed

lemmas map_laws = lookup_insert lookup_remove lookup_retain invar_insert invar_remove invar_retain

end

type_synonym ('k, 'v) bmap = "('k \<times> 'v) list"

definition bm_invar :: "('k::linorder, 'v) bmap \<Rightarrow> bool" where
  "bm_invar m \<longleftrightarrow> sorted_wrt (<) (map fst m)"

definition bm_lookup :: "('k, 'v) bmap \<Rightarrow> 'k \<Rightarrow> 'v option" where
  "bm_lookup m k = map_of m k"

fun bm_insert :: "'k::linorder \<Rightarrow> 'v \<Rightarrow> ('k, 'v) bmap \<Rightarrow> ('k, 'v) bmap" where
  "bm_insert k v [] = [(k, v)]"
| "bm_insert k v ((a, b) # m) =
     (if k < a then (k, v) # (a, b) # m
      else if k = a then (k, v) # m
      else (a, b) # bm_insert k v m)"

definition bm_remove :: "'k \<Rightarrow> ('k, 'v) bmap \<Rightarrow> ('k, 'v) bmap" where
  "bm_remove k m = filter (\<lambda>p. fst p \<noteq> k) m"

definition bm_retain :: "('k \<Rightarrow> 'v \<Rightarrow> bool) \<Rightarrow> ('k, 'v) bmap \<Rightarrow> ('k, 'v) bmap" where
  "bm_retain P m = filter (\<lambda>p. P (fst p) (snd p)) m"

definition bm_keys :: "('k, 'v) bmap \<Rightarrow> 'k list" where
  "bm_keys m = map fst m"

definition bm_values :: "('k, 'v) bmap \<Rightarrow> 'v list" where
  "bm_values m = map snd m"

lemma keys_bm_insert: "fst ` set (bm_insert k v m) = insert k (fst ` set m)"
  by (induction k v m rule: bm_insert.induct) auto

lemma bm_invar_Nil [simp]: "bm_invar []"
  by (simp add: bm_invar_def)

lemma bm_invar_Cons [simp]:
  "bm_invar ((a, b) # m) \<longleftrightarrow> (\<forall>x \<in> fst ` set m. a < x) \<and> bm_invar m"
  by (simp add: bm_invar_def)

lemma bm_invar_distinct: "bm_invar m \<Longrightarrow> distinct (map fst m)"
  by (simp add: bm_invar_def strict_sorted_iff)

lemma bm_insert_invar: "bm_invar m \<Longrightarrow> bm_invar (bm_insert k v m)"
  by (induction k v m rule: bm_insert.induct)
    (auto simp: keys_bm_insert simp del: ball_simps dest: order.strict_trans)

lemma bm_insert_lookup:
  "bm_lookup (bm_insert k v m) k' = (if k' = k then Some v else bm_lookup m k')"
  by (induction k v m rule: bm_insert.induct) (auto simp: bm_lookup_def)

lemma map_of_filter_fst: "map_of (filter (\<lambda>p. fst p \<noteq> k) m) k' = (if k' = k then None else map_of m k')"
  by (induction m) auto

lemma map_of_retain:
  "distinct (map fst m) \<Longrightarrow>
   map_of (filter (\<lambda>p. P (fst p) (snd p)) m) k =
     (case map_of m k of None \<Rightarrow> None | Some v \<Rightarrow> if P k v then Some v else None)"
proof (induction m)
  case (Cons p m)
  have "map_of (filter q m) k = None" if "k \<notin> fst ` set m" for q
    using that by (auto simp: map_of_eq_None_iff)
  with Cons show ?case by (cases p) (auto split: option.splits simp: map_of_eq_None_iff)
qed simp

lemma bm_filter_invar: "bm_invar m \<Longrightarrow> bm_invar (filter q m)"
  by (simp add: bm_invar_def sorted_wrt_map sorted_wrt_filter)

lemma bm_insert_length:
  "bm_invar m \<Longrightarrow>
   length (bm_insert k v m) = (if bm_lookup m k = None then Suc (length m) else length m)"
proof (induction k v m rule: bm_insert.induct)
  case (2 k v a b m)
  show ?case
  proof (cases "k < a")
    case True
    with 2(2) have "k \<notin> fst ` set m" by force
    with True show ?thesis by (auto simp: bm_lookup_def map_of_eq_None_iff)
  next
    case False
    with 2 show ?thesis by (auto simp: bm_lookup_def)
  qed
qed (simp add: bm_lookup_def)

lemma bm_remove_length:
  "distinct (map fst m) \<Longrightarrow>
   length (filter (\<lambda>p. fst p \<noteq> k) m) = (if map_of m k = None then length m else length m - 1)"
proof (induction m)
  case (Cons p m)
  show ?case
  proof (cases "fst p = k")
    case True
    with Cons.prems have "k \<notin> fst ` set m" by simp
    then have "filter (\<lambda>p. fst p \<noteq> k) m = m" by (auto simp: filter_id_conv)
    with True show ?thesis by simp
  next
    case False
    then have "map_of (p # m) k = map_of m k" by (cases p) simp
    moreover have "map_of m k \<noteq> None \<Longrightarrow> m \<noteq> []" by auto
    ultimately show ?thesis using Cons False by (cases m) auto
  qed
qed simp

interpretation bm: ordered_map bm_lookup bm_insert bm_remove bm_retain length bm_invar
proof (unfold_locales, goal_cases)
  case 1 then show ?case by (simp add: bm_insert_lookup)
next
  case 2 then show ?case by (simp add: bm_lookup_def bm_remove_def map_of_filter_fst)
next
  case 3 then show ?case by (simp add: bm_lookup_def bm_retain_def map_of_retain bm_invar_distinct)
next
  case 4 then show ?case by (rule bm_insert_invar)
next
  case 5 then show ?case by (simp add: bm_remove_def bm_filter_invar)
next
  case 6 then show ?case by (simp add: bm_retain_def bm_filter_invar)
next
  case 7 then show ?case by (rule bm_insert_length)
next
  case 8 then show ?case by (simp add: bm_lookup_def bm_remove_def bm_remove_length bm_invar_distinct)
next
  case (9 m k) then show ?case by (cases m) (auto simp: bm_lookup_def)
next
  case 10 show ?case by (simp add: bm_retain_def)
qed

lemma bm_lookup_mem: "bm_lookup m k = Some v \<Longrightarrow> (k, v) \<in> set m"
  by (simp add: bm_lookup_def map_of_SomeD)

lemma bm_mem_lookup: "bm_invar m \<Longrightarrow> (k, v) \<in> set m \<Longrightarrow> bm_lookup m k = Some v"
  by (simp add: bm_lookup_def bm_invar_distinct)

lemma bm_lookup_None: "bm_lookup m k = None \<longleftrightarrow> k \<notin> set (bm_keys m)"
  by (simp add: bm_lookup_def bm_keys_def map_of_eq_None_iff)

end
