(* ===== verification/Pacing.thy ===== *)
theory Pacing
  imports Url_Api Ordered_Map
begin

text \<open>
  Origin-scoped pacing (\<open>crates/erabi-crawler/src/pacing.rs\<close>): origin identities, bounded
  \<open>Retry-After\<close> timings, the per-origin admission state and the process-wide registry.
  Durations and instants are natural numbers of nanoseconds; the last representable
  \<open>Instant\<close> is platform dependent and a parameter \<open>lim\<close>.  The registry maps an origin to the
  address of its shared state (\<open>Arc<OriginState>\<close>); the store maps addresses to states.
\<close>

type_synonym Duration = nat
type_synonym Instant = nat

definition from_secs :: "nat \<Rightarrow> Duration" where
  "from_secs s = s * 10 ^ 9"

definition from_millis :: "u64 \<Rightarrow> Duration" where
  "from_millis ms = unat ms * 10 ^ 6"

definition MAX_PACING_DELAY :: Duration where
  "MAX_PACING_DELAY = from_secs (5 * 60)"

definition RATE_LIMIT_BACKOFF_BASE :: Duration where
  "RATE_LIMIT_BACKOFF_BASE = from_secs 1"

definition MAX_RATE_LIMIT_BACKOFF :: Duration where
  "MAX_RATE_LIMIT_BACKOFF = from_secs 60"

definition MAX_ORIGIN_PACING_STATES :: nat where
  "MAX_ORIGIN_PACING_STATES = 1024"

section \<open>Origins\<close>

datatype OriginKey = OriginKey (scheme: string) (host: string) (port: u16)

text \<open>The derived \<open>Ord\<close>: lexicographic in scheme, host, port.\<close>

instantiation OriginKey :: linorder
begin

definition less_eq_OriginKey :: "OriginKey \<Rightarrow> OriginKey \<Rightarrow> bool" where
  "less_eq_OriginKey a b \<longleftrightarrow> (scheme a, host a, port a) \<le> (scheme b, host b, port b)"

definition less_OriginKey :: "OriginKey \<Rightarrow> OriginKey \<Rightarrow> bool" where
  "less_OriginKey a b \<longleftrightarrow> (scheme a, host a, port a) < (scheme b, host b, port b)"

instance
proof
  fix a b c :: OriginKey
  show "a < b \<longleftrightarrow> a \<le> b \<and> \<not> b \<le> a"
    unfolding less_eq_OriginKey_def less_OriginKey_def by (rule less_le_not_le)
  show "a \<le> a" by (simp add: less_eq_OriginKey_def)
  show "a \<le> b \<Longrightarrow> b \<le> c \<Longrightarrow> a \<le> c"
    unfolding less_eq_OriginKey_def by (rule order_trans)
  show "a \<le> b \<Longrightarrow> b \<le> a \<Longrightarrow> a = b"
    unfolding less_eq_OriginKey_def by (cases a; cases b) (drule (1) order.antisym, simp)
  show "a \<le> b \<or> b \<le> a"
    unfolding less_eq_OriginKey_def by (rule linear)
qed

end

datatype OriginKeyError = UnsupportedScheme | MissingHost | MissingEffectivePort

definition origin_from_url :: "'u url_api \<Rightarrow> 'u \<Rightarrow> OriginKeyError + OriginKey" where
  "origin_from_url api url =
     (if \<not> is_http_scheme (url_scheme api url) then Inl UnsupportedScheme
      else res_bind (ok_or (url_host_str api url) MissingHost) (\<lambda>h.
        res_bind (ok_or (url_port_or_known_default api url) MissingEffectivePort) (\<lambda>p.
          if p = 0 then Inl MissingEffectivePort
          else Inr (OriginKey (to_ascii_lowercase (url_scheme api url)) (to_ascii_lowercase h) p))))"

section \<open>Timings and outcomes\<close>

datatype RetryAfterTiming = Absent | Honored Duration | Clamped Duration | InvalidTiming

definition timing_from_duration :: "Duration \<Rightarrow> RetryAfterTiming" where
  "timing_from_duration d = (if d > MAX_PACING_DELAY then Clamped MAX_PACING_DELAY else Honored d)"

fun from_provider_millis :: "u64 option \<Rightarrow> RetryAfterTiming" where
  "from_provider_millis None = Absent"
| "from_provider_millis (Some ms) = timing_from_duration (from_millis ms)"

text \<open>\<open>httpdate\<close> is a parameter: the parsed deadline in nanoseconds since the epoch.\<close>

definition from_http_header :: "(string \<Rightarrow> nat option) \<Rightarrow> string \<Rightarrow> nat \<Rightarrow> RetryAfterTiming" where
  "from_http_header parse_http_date raw now =
     (let v = trim raw in
      if v = [] then InvalidTiming
      else case parse_u64 v of
        Some seconds \<Rightarrow> timing_from_duration (from_secs (unat seconds))
      | None \<Rightarrow> (case parse_http_date v of
          None \<Rightarrow> InvalidTiming
        | Some deadline \<Rightarrow>
            if deadline < now then InvalidTiming else timing_from_duration (deadline - now)))"

fun timing_delay :: "RetryAfterTiming \<Rightarrow> Duration option" where
  "timing_delay (Honored d) = Some d"
| "timing_delay (Clamped d) = Some d"
| "timing_delay Absent = None"
| "timing_delay InvalidTiming = None"

datatype PacingOutcome = SuccessOutcome | FailedOutcome | RateLimitedOutcome RetryAfterTiming

datatype AdmissionError =
    RobotsDisallowed
  | AdmissionCancelled
  | InvalidConcurrency
  | RequestDelayTooLarge
  | RobotsOriginMismatch
  | RegistrationReleased
  | OriginCapacityExhausted
  | RegistrationIdExhausted
  | ClockOverflow

record ResolvedPacingConfiguration =
  concurrency :: u32
  request_delay :: Duration

definition config_from_snapshot :: "u32 \<Rightarrow> u64 \<Rightarrow> AdmissionError + ResolvedPacingConfiguration" where
  "config_from_snapshot c delay_ms =
     (if c = 0 then Inl InvalidConcurrency
      else if from_millis delay_ms > MAX_PACING_DELAY then Inl RequestDelayTooLarge
      else Inr \<lparr>concurrency = c, request_delay = from_millis delay_ms\<rparr>)"

section \<open>State of one origin\<close>

type_synonym RegistrationId = u64

record OriginPacingState =
  in_flight :: u32
  registrations :: "(RegistrationId, u32) bmap"
  waiting_admissions :: u32
  next_request_at :: "Instant option"
  backoff_until :: "Instant option"
  retry_after_until :: "Instant option"
  consecutive_rate_limits :: u8

definition default_pacing_state :: OriginPacingState where
  "default_pacing_state = \<lparr>in_flight = 0, registrations = [], waiting_admissions = 0,
     next_request_at = None, backoff_until = None, retry_after_until = None,
     consecutive_rate_limits = 0\<rparr>"

definition effective_concurrency :: "OriginPacingState \<Rightarrow> u32 option" where
  "effective_concurrency s = iter_min (bm_values (registrations s))"

definition drop_expired :: "Instant \<Rightarrow> Instant option \<Rightarrow> Instant option" where
  "drop_expired now d = (case d of Some t \<Rightarrow> if t \<le> now then None else d | None \<Rightarrow> None)"

definition normalize_expired_safety :: "Instant \<Rightarrow> OriginPacingState \<Rightarrow> OriginPacingState" where
  "normalize_expired_safety now s =
     s\<lparr>next_request_at := drop_expired now (next_request_at s),
       backoff_until := drop_expired now (backoff_until s),
       retry_after_until := drop_expired now (retry_after_until s)\<rparr>"

definition is_safe_to_retire :: "Instant \<Rightarrow> OriginPacingState \<Rightarrow> bool \<times> OriginPacingState" where
  "is_safe_to_retire now s0 =
     (let s = normalize_expired_safety now s0 in
      (registrations s = [] \<and> in_flight s = 0 \<and> waiting_admissions s = 0
         \<and> next_request_at s = None \<and> backoff_until s = None \<and> retry_after_until s = None, s))"

definition add_registration :: "RegistrationId \<Rightarrow> u32 \<Rightarrow> OriginPacingState \<Rightarrow> OriginPacingState" where
  "add_registration i c s = s\<lparr>registrations := bm_insert i c (registrations s)\<rparr>"

definition release_registration :: "RegistrationId \<Rightarrow> OriginPacingState \<Rightarrow> OriginPacingState" where
  "release_registration i s = s\<lparr>registrations := bm_remove i (registrations s)\<rparr>"

definition register_waiter :: "OriginPacingState \<Rightarrow> OriginPacingState" where
  "register_waiter s = s\<lparr>waiting_admissions := saturating_add (waiting_admissions s) 1\<rparr>"

definition release_waiter :: "OriginPacingState \<Rightarrow> OriginPacingState" where
  "release_waiter s = s\<lparr>waiting_admissions := saturating_sub (waiting_admissions s) 1\<rparr>"

definition release_permit :: "OriginPacingState \<Rightarrow> OriginPacingState" where
  "release_permit s = s\<lparr>in_flight := saturating_sub (in_flight s) 1\<rparr>"

definition latest_deadline :: "OriginPacingState \<Rightarrow> Instant option" where
  "latest_deadline s =
     iter_max (List.map_filter id [next_request_at s, backoff_until s, retry_after_until s])"

definition later_deadline :: "Instant option \<Rightarrow> Instant \<Rightarrow> Instant" where
  "later_deadline current candidate =
     (case current of None \<Rightarrow> candidate | Some c \<Rightarrow> max c candidate)"

definition instant_checked_add :: "nat \<Rightarrow> Instant \<Rightarrow> Duration \<Rightarrow> Instant option" where
  "instant_checked_add lim now d = (if now + d \<le> lim then Some (now + d) else None)"

definition checked_deadline :: "nat \<Rightarrow> Instant \<Rightarrow> Duration \<Rightarrow> AdmissionError + Instant" where
  "checked_deadline lim now d = ok_or (instant_checked_add lim now d) ClockOverflow"

definition duration_max :: Duration where
  "duration_max = (2 ^ 64 - 1) * 10 ^ 9 + 999999999"

definition duration_checked_mul :: "Duration \<Rightarrow> u32 \<Rightarrow> Duration option" where
  "duration_checked_mul d m = (if d * unat m \<le> duration_max then Some (d * unat m) else None)"

definition checked_shl :: "u32 \<Rightarrow> nat \<Rightarrow> u32 option" where
  "checked_shl x n = (if n < 32 then Some (push_bit n x) else None)"

definition bounded_backoff :: "u8 \<Rightarrow> Duration" where
  "bounded_backoff consecutive =
     (let exponent = min (unat (saturating_sub consecutive 1)) 6;
          multiplier = (case checked_shl 1 exponent of Some m \<Rightarrow> m | None \<Rightarrow> - 1)
      in min (case duration_checked_mul RATE_LIMIT_BACKOFF_BASE multiplier of
                Some d \<Rightarrow> d | None \<Rightarrow> MAX_RATE_LIMIT_BACKOFF)
             MAX_RATE_LIMIT_BACKOFF)"

text \<open>An error leaves the fields already assigned in place: the lock guard has no rollback.\<close>

definition record_outcome ::
  "nat \<Rightarrow> PacingOutcome \<Rightarrow> Instant \<Rightarrow> OriginPacingState \<Rightarrow> (AdmissionError + unit) \<times> OriginPacingState" where
  "record_outcome lim outcome now s0 =
     (let s = normalize_expired_safety now s0 in
      case outcome of
        SuccessOutcome \<Rightarrow> (Inr (), s\<lparr>consecutive_rate_limits := 0\<rparr>)
      | FailedOutcome \<Rightarrow> (Inr (), s)
      | RateLimitedOutcome retry_after \<Rightarrow>
          (let n = saturating_add (consecutive_rate_limits s) 1;
               s1 = s\<lparr>consecutive_rate_limits := n\<rparr> in
           case checked_deadline lim now (bounded_backoff n) of
             Inl e \<Rightarrow> (Inl e, s1)
           | Inr until \<Rightarrow>
               (let s2 = s1\<lparr>backoff_until := Some (later_deadline (backoff_until s1) until)\<rparr> in
                case timing_delay retry_after of
                  None \<Rightarrow> (Inr (), s2)
                | Some delay \<Rightarrow>
                    (case checked_deadline lim now delay of
                       Inl e \<Rightarrow> (Inl e, s2)
                     | Inr until2 \<Rightarrow>
                         (Inr (), s2\<lparr>retry_after_until :=
                            Some (later_deadline (retry_after_until s2) until2)\<rparr>)))))"

datatype AdmissionAttempt = Acquired | WaitUntil Instant | WaitForPermit

text \<open>One pass of the admission loop under the origin lock.\<close>

definition admission_attempt ::
  "nat \<Rightarrow> Duration \<Rightarrow> Instant \<Rightarrow> OriginPacingState \<Rightarrow> (AdmissionError + AdmissionAttempt) \<times> OriginPacingState" where
  "admission_attempt lim effective_delay now s0 =
     (let s = normalize_expired_safety now s0 in
      case effective_concurrency s of
        None \<Rightarrow> (Inl RegistrationReleased, s)
      | Some c \<Rightarrow>
          (let not_before = latest_deadline s in
           if in_flight s < c \<and> (case not_before of None \<Rightarrow> True | Some d \<Rightarrow> d \<le> now)
           then (let s1 = s\<lparr>in_flight := saturating_add (in_flight s) 1\<rparr> in
                 case checked_deadline lim now effective_delay of
                   Inl e \<Rightarrow> (Inl e, s1)
                 | Inr d \<Rightarrow> (Inr Acquired, s1\<lparr>next_request_at := Some d\<rparr>))
           else (case not_before of
                   Some d \<Rightarrow> (Inr (if now < d then WaitUntil d else WaitForPermit), s)
                 | None \<Rightarrow> (Inr WaitForPermit, s))))"

section \<open>The registry\<close>

type_synonym addr = nat
type_synonym state_store = "OriginPacingState list"

record OriginRegistryState =
  states :: "(OriginKey, addr) bmap"
  next_registration_id :: "u64 option"

definition empty_registry :: OriginRegistryState where
  "empty_registry = \<lparr>states = [], next_registration_id = Some 1\<rparr>"

text \<open>The filter over the entries: testing an entry also drops its expired deadlines.\<close>

fun scan_safe :: "Instant \<Rightarrow> (OriginKey \<times> addr) list \<Rightarrow> state_store \<Rightarrow> OriginKey list \<times> state_store" where
  "scan_safe now [] st = ([], st)"
| "scan_safe now ((k, a) # es) st =
     (case is_safe_to_retire now (st ! a) of (safe, s) \<Rightarrow>
      (case scan_safe now es (st[a := s]) of (ks, st') \<Rightarrow> (if safe then k # ks else ks, st')))"

fun prune_loop :: "nat \<Rightarrow> OriginKey list \<Rightarrow> (OriginKey, addr) bmap \<Rightarrow> (OriginKey, addr) bmap" where
  "prune_loop capacity [] m = m"
| "prune_loop capacity (k # ks) m =
     (if length m < capacity then m else prune_loop capacity ks (bm_remove k m))"

definition prune_safe_states ::
  "Instant \<Rightarrow> nat \<Rightarrow> OriginRegistryState \<Rightarrow> state_store \<Rightarrow> OriginRegistryState \<times> state_store" where
  "prune_safe_states now capacity reg st =
     (case scan_safe now (states reg) st of (removable, st') \<Rightarrow>
      (reg\<lparr>states := prune_loop capacity removable (states reg)\<rparr>, st'))"

text \<open>Finding or creating the shared state of an origin.\<close>

definition origin_state ::
  "nat \<Rightarrow> OriginKey \<Rightarrow> Instant \<Rightarrow> OriginRegistryState \<Rightarrow> state_store \<Rightarrow>
   (AdmissionError + addr) \<times> OriginRegistryState \<times> state_store" where
  "origin_state capacity k now reg st =
     (case bm_lookup (states reg) k of
        Some a \<Rightarrow> (Inr a, reg, st)
      | None \<Rightarrow>
          (case (if length (states reg) \<ge> capacity then prune_safe_states now capacity reg st
                 else (reg, st)) of
             (reg1, st1) \<Rightarrow>
               if length (states reg1) \<ge> capacity then (Inl OriginCapacityExhausted, reg1, st1)
               else (Inr (length st1), reg1\<lparr>states := bm_insert k (length st1) (states reg1)\<rparr>,
                     st1 @ [default_pacing_state])))"

definition registry_register ::
  "nat \<Rightarrow> OriginKey \<Rightarrow> u32 \<Rightarrow> Instant \<Rightarrow> OriginRegistryState \<Rightarrow> state_store \<Rightarrow>
   (AdmissionError + (addr \<times> RegistrationId)) \<times> OriginRegistryState \<times> state_store" where
  "registry_register capacity k c now reg st =
     (case origin_state capacity k now reg st of
        (Inl e, reg1, st1) \<Rightarrow> (Inl e, reg1, st1)
      | (Inr a, reg1, st1) \<Rightarrow>
          (case next_registration_id reg1 of
             None \<Rightarrow> (Inl RegistrationIdExhausted, reg1, st1)
           | Some i \<Rightarrow>
               (Inr (a, i), reg1\<lparr>next_registration_id := checked_add i 1\<rparr>,
                st1[a := add_registration i c (st1 ! a)])))"

section \<open>Facts about one origin's state\<close>

text \<open>\<open>owes s dl\<close>: the state still holds a deadline no earlier than \<open>dl\<close>.\<close>

definition owes :: "OriginPacingState \<Rightarrow> Instant \<Rightarrow> bool" where
  "owes s dl \<longleftrightarrow> (case latest_deadline s of None \<Rightarrow> False | Some d \<Rightarrow> dl \<le> d)"

lemma latest_deadline_Some_iff:
  "owes s dl \<longleftrightarrow> (\<exists>d \<in> {next_request_at s, backoff_until s, retry_after_until s}.
     \<exists>t. d = Some t \<and> dl \<le> t)"
  by (cases "next_request_at s"; cases "backoff_until s"; cases "retry_after_until s")
    (auto simp: owes_def latest_deadline_def map_filter_simps le_max_iff_disj)

lemma drop_expired_Some [simp]: "drop_expired now d = Some t \<longleftrightarrow> d = Some t \<and> now < t"
  by (auto simp: drop_expired_def split: option.splits if_splits)

lemma drop_expired_None: "drop_expired now d = None \<longleftrightarrow> (\<forall>t. d = Some t \<longrightarrow> t \<le> now)"
  by (auto simp: drop_expired_def split: option.splits if_splits)

lemma normalize_fields [simp]:
  "in_flight (normalize_expired_safety t s) = in_flight s"
  "registrations (normalize_expired_safety t s) = registrations s"
  "waiting_admissions (normalize_expired_safety t s) = waiting_admissions s"
  "consecutive_rate_limits (normalize_expired_safety t s) = consecutive_rate_limits s"
  "next_request_at (normalize_expired_safety t s) = drop_expired t (next_request_at s)"
  "backoff_until (normalize_expired_safety t s) = drop_expired t (backoff_until s)"
  "retry_after_until (normalize_expired_safety t s) = drop_expired t (retry_after_until s)"
  by (simp_all add: normalize_expired_safety_def)

lemma owes_normalize: "t < dl \<Longrightarrow> owes (normalize_expired_safety t s) dl \<longleftrightarrow> owes s dl"
  by (auto simp: latest_deadline_Some_iff)

text \<open>Only a state that owes nothing in the future and has no user may be retired.\<close>

lemma safe_to_retire_iff:
  "fst (is_safe_to_retire t s) \<longleftrightarrow>
     registrations s = [] \<and> in_flight s = 0 \<and> waiting_admissions s = 0 \<and> (\<forall>dl > t. \<not> owes s dl)"
proof -
  have "(drop_expired t (next_request_at s) = None \<and> drop_expired t (backoff_until s) = None
      \<and> drop_expired t (retry_after_until s) = None) \<longleftrightarrow> (\<forall>dl > t. \<not> owes s dl)"
    by (auto simp: latest_deadline_Some_iff drop_expired_None)
  then show ?thesis by (auto simp: is_safe_to_retire_def Let_def)
qed

lemma snd_safe_to_retire [simp]: "snd (is_safe_to_retire t s) = normalize_expired_safety t s"
  by (simp add: is_safe_to_retire_def Let_def)

text \<open>
  Rate-limit backoff doubles from one second per consecutive rate limit and is capped at
  one minute; no wrap-around or overflow path of the machine arithmetic is ever taken.
\<close>
theorem bounded_backoff_exact:
  "bounded_backoff n = min (from_secs (2 ^ (unat n - 1))) (from_secs 60)"
proof -
  let ?e = "min (unat n - 1) 6"
  have e: "unat (push_bit ?e (1 :: u32)) = 2 ^ ?e"
  proof -
    have "(2::nat) ^ ?e < 2 ^ 32" by (rule power_strict_increasing) auto
    moreover have "push_bit ?e (1 :: u32) = of_nat (2 ^ ?e)" by (simp add: push_bit_eq_mult)
    ultimately show ?thesis by (simp only: unsigned_of_nat take_bit_nat_eq_self) simp
  qed
  have le: "(2::nat) ^ ?e \<le> 2 ^ 6" by (rule power_increasing) auto
  then have mul: "duration_checked_mul RATE_LIMIT_BACKOFF_BASE (push_bit ?e 1) =
      Some (from_secs (2 ^ ?e))"
    using e by (simp add: duration_checked_mul_def RATE_LIMIT_BACKOFF_BASE_def from_secs_def
        duration_max_def del: One_nat_def)
  have "?e < 32" by simp
  then have "bounded_backoff n = min (from_secs (2 ^ ?e)) (from_secs 60)"
    using mul by (simp add: bounded_backoff_def Let_def checked_shl_def machine_simps
        MAX_RATE_LIMIT_BACKOFF_def)
  also have "\<dots> = min (from_secs (2 ^ (unat n - 1))) (from_secs 60)"
  proof (cases "unat n - 1 \<le> 6")
    case False
    then have "(2::nat) ^ 6 \<le> 2 ^ (unat n - 1)" by (intro power_increasing) auto
    with False show ?thesis by (simp add: from_secs_def min_def)
  qed (simp add: min_def)
  finally show ?thesis .
qed

end
