(* ===== verification/Pacing_Protocol.thy ===== *)
theory Pacing_Protocol
  imports Pacing
begin

text \<open>
  The process-wide admission protocol: every interleaving of registrations, admission waits,
  permits, outcomes and the clock.  Handles (\<open>PacingRegistration\<close>, the waiter guard and
  \<open>AdmissionPermit\<close>) name the address of the shared state they hold; dropping a handle runs its
  \<open>Drop\<close> code.  Each action is one critical section of \<open>pacing.rs\<close>.  The field
  \<open>obligations\<close> is a history of the deadlines the program promised to wait for; no action reads
  it.
\<close>

datatype RobotsAdmissionDecision = Allowed | Disallowed | Overridden

datatype RobotsPolicyEvidence = NetworkPolicyEvidence | CacheEvidence | NotFoundEvidence | AccessDeniedEvidence

record RobotsAdmission =
  admission_origin :: OriginKey
  admission_decision :: RobotsAdmissionDecision
  admission_crawl_delay :: "Duration option"
  admission_evidence :: RobotsPolicyEvidence

record PacingRegistration =
  reg_origin :: OriginKey
  reg_state :: addr
  registration_id :: RegistrationId
  configuration :: ResolvedPacingConfiguration

record Waiter =
  waiter_registration :: PacingRegistration
  effective_delay :: Duration

record AdmissionPermit =
  permit_origin :: OriginKey
  permit_state :: addr
  outcome_recorded :: bool

record world =
  clock :: Instant
  store :: state_store
  registry :: OriginRegistryState
  live :: "PacingRegistration list"
  pending :: "Waiter list"
  permits :: "AdmissionPermit list"
  obligations :: "(OriginKey \<times> Instant) list"

definition init_world :: world where
  "init_world = \<lparr>clock = 0, store = [], registry = empty_registry, live = [], pending = [],
     permits = [], obligations = []\<rparr>"

definition remove_nth :: "nat \<Rightarrow> 'a list \<Rightarrow> 'a list" where
  "remove_nth i xs = take i xs @ drop (Suc i) xs"

section \<open>Operations on the service\<close>

definition service_register ::
  "nat \<Rightarrow> OriginKey \<Rightarrow> u32 \<Rightarrow> u64 \<Rightarrow> Instant \<Rightarrow> world \<Rightarrow> (AdmissionError + PacingRegistration) \<times> world" where
  "service_register capacity k c delay_ms now w =
     (case config_from_snapshot c delay_ms of
        Inl e \<Rightarrow> (Inl e, w)
      | Inr cfg \<Rightarrow>
          (case registry_register capacity k (concurrency cfg) now (registry w) (store w) of
             (Inl e, reg, st) \<Rightarrow> (Inl e, w\<lparr>registry := reg, store := st\<rparr>)
           | (Inr (a, i), reg, st) \<Rightarrow>
               (let r = \<lparr>reg_origin = k, reg_state = a, registration_id = i, configuration = cfg\<rparr>
                in (Inr r, w\<lparr>registry := reg, store := st, live := live w @ [r]\<rparr>))))"

definition on_state :: "addr \<Rightarrow> (OriginPacingState \<Rightarrow> OriginPacingState) \<Rightarrow> world \<Rightarrow> world" where
  "on_state a f w = w\<lparr>store := (store w)[a := f (store w ! a)]\<rparr>"

definition drop_registration :: "nat \<Rightarrow> world \<Rightarrow> world" where
  "drop_registration i w =
     (let r = live w ! i in
      (on_state (reg_state r) (release_registration (registration_id r)) w)\<lparr>live := remove_nth i (live w)\<rparr>)"

text \<open>The checks of \<open>acquire\<close>, then the waiter guard that spans the admission loop.\<close>

definition begin_wait :: "PacingRegistration \<Rightarrow> Duration option \<Rightarrow> world \<Rightarrow> world" where
  "begin_wait r robots_delay w =
     (let d = max (request_delay (configuration r)) (case robots_delay of None \<Rightarrow> 0 | Some x \<Rightarrow> x) in
      (on_state (reg_state r) register_waiter w)
        \<lparr>pending := pending w @ [\<lparr>waiter_registration = r, effective_delay = d\<rparr>]\<rparr>)"

definition acquire :: "PacingRegistration \<Rightarrow> RobotsAdmission \<Rightarrow> world \<Rightarrow> AdmissionError + world" where
  "acquire r robots w =
     (if admission_origin robots \<noteq> reg_origin r then Inl RobotsOriginMismatch
      else if admission_decision robots = Disallowed then Inl RobotsDisallowed
      else Inr (begin_wait r (admission_crawl_delay robots) w))"

definition acquire_robots_fetch :: "PacingRegistration \<Rightarrow> world \<Rightarrow> AdmissionError + world" where
  "acquire_robots_fetch r w = Inr (begin_wait r None w)"

definition end_wait :: "nat \<Rightarrow> world \<Rightarrow> world" where
  "end_wait i w =
     (on_state (reg_state (waiter_registration (pending w ! i))) release_waiter w)
       \<lparr>pending := remove_nth i (pending w)\<rparr>"

text \<open>One iteration of the admission loop of waiter \<open>i\<close>.\<close>

definition attempt :: "nat \<Rightarrow> nat \<Rightarrow> world \<Rightarrow> world" where
  "attempt lim i w =
     (let p = pending w ! i; r = waiter_registration p; a = reg_state r in
      case admission_attempt lim (effective_delay p) (clock w) (store w ! a) of
        (Inl e, s) \<Rightarrow> end_wait i (w\<lparr>store := (store w)[a := s]\<rparr>)
      | (Inr Acquired, s) \<Rightarrow>
          (end_wait i (w\<lparr>store := (store w)[a := s]\<rparr>))
            \<lparr>permits := permits w @ [\<lparr>permit_origin = reg_origin r, permit_state = a,
                                     outcome_recorded = False\<rparr>],
              obligations := (reg_origin r, clock w + effective_delay p) # obligations w\<rparr>
      | (Inr _, s) \<Rightarrow> w\<lparr>store := (store w)[a := s]\<rparr>)"

fun outcome_deadlines :: "PacingOutcome \<Rightarrow> Instant \<Rightarrow> OriginPacingState \<Rightarrow> Instant list" where
  "outcome_deadlines (RateLimitedOutcome ra) now s =
     (now + bounded_backoff (saturating_add (consecutive_rate_limits s) 1))
       # (case timing_delay ra of None \<Rightarrow> [] | Some d \<Rightarrow> [now + d])"
| "outcome_deadlines _ now s = []"

definition permit_record_outcome :: "nat \<Rightarrow> nat \<Rightarrow> PacingOutcome \<Rightarrow> Instant \<Rightarrow> world \<Rightarrow> world" where
  "permit_record_outcome lim i outcome now w =
     (let p = permits w ! i; a = permit_state p in
      if outcome_recorded p then w
      else case record_outcome lim outcome now (store w ! a) of (res, s) \<Rightarrow>
        w\<lparr>store := (store w)[a := s], permits := (permits w)[i := p\<lparr>outcome_recorded := True\<rparr>],
          obligations := (case res of
             Inl _ \<Rightarrow> obligations w
           | Inr _ \<Rightarrow> map (Pair (permit_origin p)) (outcome_deadlines outcome now (store w ! a)) @ obligations w)\<rparr>)"

definition drop_permit :: "nat \<Rightarrow> world \<Rightarrow> world" where
  "drop_permit i w =
     (on_state (permit_state (permits w ! i)) release_permit w)\<lparr>permits := remove_nth i (permits w)\<rparr>"

section \<open>Interleavings\<close>

datatype action =
    Tick Duration
  | Register OriginKey u32 u64 Instant
  | DropRegistration nat
  | Acquire nat RobotsAdmission
  | AcquireRobotsFetch nat
  | Attempt nat
  | CancelWait nat
  | RecordOutcome nat PacingOutcome Instant
  | DropPermit nat

text \<open>Clock values read before the lock was taken may be older than the clock.  A registration
  cannot be dropped while an admission borrowed from it is pending.\<close>

fun enabled :: "action \<Rightarrow> world \<Rightarrow> bool" where
  "enabled (Tick d) w \<longleftrightarrow> True"
| "enabled (Register k c ms t) w \<longleftrightarrow> t \<le> clock w"
| "enabled (DropRegistration i) w \<longleftrightarrow> i < length (live w) \<and>
     list_all (\<lambda>p. waiter_registration p \<noteq> live w ! i) (pending w)"
| "enabled (Acquire i robots) w \<longleftrightarrow> i < length (live w)"
| "enabled (AcquireRobotsFetch i) w \<longleftrightarrow> i < length (live w)"
| "enabled (Attempt i) w \<longleftrightarrow> i < length (pending w)"
| "enabled (CancelWait i) w \<longleftrightarrow> i < length (pending w)"
| "enabled (RecordOutcome i x t) w \<longleftrightarrow> i < length (permits w) \<and> t \<le> clock w"
| "enabled (DropPermit i) w \<longleftrightarrow> i < length (permits w)"

fun perform :: "nat \<Rightarrow> nat \<Rightarrow> action \<Rightarrow> world \<Rightarrow> world" where
  "perform lim capacity (Tick d) w = w\<lparr>clock := clock w + d\<rparr>"
| "perform lim capacity (Register k c ms t) w = snd (service_register capacity k c ms t w)"
| "perform lim capacity (DropRegistration i) w = drop_registration i w"
| "perform lim capacity (Acquire i robots) w =
     (case acquire (live w ! i) robots w of Inl _ \<Rightarrow> w | Inr w' \<Rightarrow> w')"
| "perform lim capacity (AcquireRobotsFetch i) w =
     (case acquire_robots_fetch (live w ! i) w of Inl _ \<Rightarrow> w | Inr w' \<Rightarrow> w')"
| "perform lim capacity (Attempt i) w = attempt lim i w"
| "perform lim capacity (CancelWait i) w = end_wait i w"
| "perform lim capacity (RecordOutcome i x t) w = permit_record_outcome lim i x t w"
| "perform lim capacity (DropPermit i) w = drop_permit i w"

inductive reachable :: "nat \<Rightarrow> nat \<Rightarrow> world \<Rightarrow> bool" for lim capacity where
  reachable_init: "reachable lim capacity init_world"
| reachable_step: "reachable lim capacity w \<Longrightarrow> enabled act w \<Longrightarrow>
     reachable lim capacity (perform lim capacity act w)"

section \<open>The invariant\<close>

definition permits_at :: "addr \<Rightarrow> AdmissionPermit list \<Rightarrow> nat" where
  "permits_at a ps = length (filter (\<lambda>p. permit_state p = a) ps)"

text \<open>What the state at an address must say about the handles that hold it.\<close>

definition cell_ok :: "world \<Rightarrow> addr \<Rightarrow> OriginPacingState \<Rightarrow> bool" where
  "cell_ok w a s \<longleftrightarrow>
     bm_invar (registrations s)
   \<and> (\<forall>r \<in> set (live w). reg_state r = a \<longrightarrow>
        bm_lookup (registrations s) (registration_id r) = Some (concurrency (configuration r)))
   \<and> permits_at a (permits w) \<le> unat (in_flight s)
   \<and> (\<forall>(k, dl) \<in> set (obligations w). clock w < dl \<and> bm_lookup (states (registry w)) k = Some a \<longrightarrow> owes s dl)"

definition registry_ok :: "nat \<Rightarrow> world \<Rightarrow> bool" where
  "registry_ok capacity w \<longleftrightarrow>
     bm_invar (states (registry w)) \<and> length (states (registry w)) \<le> capacity
   \<and> (\<forall>k a. bm_lookup (states (registry w)) k = Some a \<longrightarrow> a < length (store w))"

definition handles_ok :: "world \<Rightarrow> bool" where
  "handles_ok w \<longleftrightarrow>
     distinct (map registration_id (live w))
   \<and> (\<forall>r \<in> set (live w). bm_lookup (states (registry w)) (reg_origin r) = Some (reg_state r)
        \<and> (\<forall>n. next_registration_id (registry w) = Some n \<longrightarrow> registration_id r < n))
   \<and> (\<forall>p \<in> set (permits w). bm_lookup (states (registry w)) (permit_origin p) = Some (permit_state p))
   \<and> (\<forall>p \<in> set (pending w). waiter_registration p \<in> set (live w))
   \<and> (\<forall>(k, dl) \<in> set (obligations w). clock w < dl \<longrightarrow> bm_lookup (states (registry w)) k \<noteq> None)"

definition world_ok :: "nat \<Rightarrow> world \<Rightarrow> bool" where
  "world_ok capacity w \<longleftrightarrow> registry_ok capacity w \<and> handles_ok w
     \<and> (\<forall>a < length (store w). cell_ok w a (store w ! a))"

lemmas world_ok_defs = world_ok_def registry_ok_def handles_ok_def

lemma set_remove_nth: "set (remove_nth i xs) \<subseteq> set xs"
  unfolding remove_nth_def using set_take_subset set_drop_subset by fastforce

lemma in_set_remove_nthD: "x \<in> set (remove_nth i xs) \<Longrightarrow> x \<in> set xs"
  using set_remove_nth by fast

lemma distinct_remove_nth:
  assumes "distinct (map f xs)" and "i < length xs"
  shows "distinct (map f (remove_nth i xs))" and "\<forall>x \<in> set (remove_nth i xs). f x \<noteq> f (xs ! i)"
proof -
  have "map f xs = map f (take i xs) @ f (xs ! i) # map f (drop (Suc i) xs)"
    using assms(2) by (metis id_take_nth_drop list.simps(9) map_append)
  with assms(1) show "distinct (map f (remove_nth i xs))"
    and "\<forall>x \<in> set (remove_nth i xs). f x \<noteq> f (xs ! i)"
    by (auto simp: remove_nth_def image_iff)
qed

lemma permits_at_simps [simp]:
  "permits_at a [] = 0"
  "permits_at a (ps @ qs) = permits_at a ps + permits_at a qs"
  "permits_at a (p # ps) = (if permit_state p = a then 1 else 0) + permits_at a ps"
  by (auto simp: permits_at_def)

lemma permits_at_remove_nth:
  assumes "i < length ps"
  shows "permits_at a ps = permits_at a (remove_nth i ps) + (if permit_state (ps ! i) = a then 1 else 0)"
proof -
  have "permits_at a ps = permits_at a (take i ps @ [ps ! i] @ drop (Suc i) ps)"
    using id_take_nth_drop [OF assms] by simp
  then show ?thesis by (simp add: remove_nth_def)
qed

lemma permits_at_update:
  "i < length ps \<Longrightarrow> permit_state q = permit_state (ps ! i) \<Longrightarrow> permits_at a (ps[i := q]) = permits_at a ps"
  by (induction ps arbitrary: i) (auto simp: permits_at_def split: nat.splits)

lemma cell_ok_store [simp]:
  "cell_ok (w\<lparr>store := st\<rparr>) a s = cell_ok w a s" "cell_ok (w\<lparr>pending := ps\<rparr>) a s = cell_ok w a s"
  by (simp_all add: cell_ok_def)

text \<open>Replacing the state of one address, with everything else unchanged.\<close>

lemma world_ok_store_update:
  assumes "world_ok c w" and "a < length (store w) \<Longrightarrow> cell_ok w a s"
  shows "world_ok c (w\<lparr>store := (store w)[a := s]\<rparr>)"
proof -
  have "cell_ok w b ((store w)[a := s] ! b)" if "b < length (store w)" for b
    using assms that by (cases "b = a") (auto simp: world_ok_def)
  with assms(1) show ?thesis by (auto simp: world_ok_defs)
qed

lemma cell_okD: "world_ok c w \<Longrightarrow> a < length (store w) \<Longrightarrow> cell_ok w a (store w ! a)"
  by (simp add: world_ok_def)

lemma live_addr: "world_ok c w \<Longrightarrow> r \<in> set (live w) \<Longrightarrow> reg_state r < length (store w)"
  by (auto simp: world_ok_defs)

lemma permit_addr: "world_ok c w \<Longrightarrow> p \<in> set (permits w) \<Longrightarrow> permit_state p < length (store w)"
  by (auto simp: world_ok_defs)

lemma world_ok_init: "world_ok c init_world"
  by (simp add: world_ok_defs init_world_def empty_registry_def bm_lookup_def)

lemma world_ok_tick: "world_ok c w \<Longrightarrow> world_ok c (w\<lparr>clock := clock w + d\<rparr>)"
proof -
  assume ok: "world_ok c w"
  have "cell_ok (w\<lparr>clock := clock w + d\<rparr>) a s" if "cell_ok w a s" for a s
    using that by (auto simp: cell_ok_def dest!: bspec)
  with ok show ?thesis by (auto simp: world_ok_defs dest!: bspec)
qed

text \<open>Changes that keep what the invariant reads of a state.\<close>

lemma cell_ok_keep:
  assumes "cell_ok w a s" and "registrations s' = registrations s" and "in_flight s \<le> in_flight s'"
    and "\<And>dl. clock w < dl \<Longrightarrow> owes s dl \<Longrightarrow> owes s' dl"
  shows "cell_ok w a s'"
  using assms by (fastforce simp: cell_ok_def word_le_nat_alt)

lemma owes_waiter [simp]:
  "owes (register_waiter s) dl = owes s dl" "owes (release_waiter s) dl = owes s dl"
  "owes (release_permit s) dl = owes s dl" "owes (release_registration i s) dl = owes s dl"
  "owes (add_registration i c s) dl = owes s dl"
  by (simp_all add: latest_deadline_Some_iff register_waiter_def release_waiter_def
      release_permit_def release_registration_def add_registration_def)

lemma handle_fields [simp]:
  "registrations (register_waiter s) = registrations s" "in_flight (register_waiter s) = in_flight s"
  "registrations (release_waiter s) = registrations s" "in_flight (release_waiter s) = in_flight s"
  "registrations (release_permit s) = registrations s"
  "in_flight (release_permit s) = saturating_sub (in_flight s) 1"
  "registrations (release_registration i s) = bm_remove i (registrations s)"
  "in_flight (release_registration i s) = in_flight s"
  "registrations (add_registration i c s) = bm_insert i c (registrations s)"
  "in_flight (add_registration i c s) = in_flight s"
  by (simp_all add: register_waiter_def release_waiter_def
      release_permit_def release_registration_def add_registration_def)

lemma world_ok_begin_wait:
  assumes ok: "world_ok c w" and r: "r \<in> set (live w)"
  shows "world_ok c (begin_wait r d w)"
proof -
  have "cell_ok w (reg_state r) (register_waiter (store w ! reg_state r))"
    by (rule cell_ok_keep [OF cell_okD [OF ok live_addr [OF ok r]]]) auto
  then have "world_ok c (w\<lparr>store := (store w)[reg_state r := register_waiter (store w ! reg_state r)]\<rparr>)"
    by (intro world_ok_store_update ok)
  with r show ?thesis
    by (auto simp: begin_wait_def on_state_def world_ok_defs Let_def)
qed

lemma world_ok_pending: "world_ok c w \<Longrightarrow> set ps \<subseteq> set (pending w) \<Longrightarrow> world_ok c (w\<lparr>pending := ps\<rparr>)"
  by (auto simp: world_ok_defs)

lemma world_ok_end_wait:
  assumes ok: "world_ok c w" and i: "i < length (pending w)"
  shows "world_ok c (end_wait i w)"
proof -
  let ?a = "reg_state (waiter_registration (pending w ! i))"
  have "waiter_registration (pending w ! i) \<in> set (live w)"
    using ok i by (auto simp: world_ok_defs)
  then have a: "?a < length (store w)" by (rule live_addr [OF ok])
  have "cell_ok w ?a (release_waiter (store w ! ?a))"
    by (rule cell_ok_keep [OF cell_okD [OF ok a]]) auto
  then have "world_ok c (on_state ?a release_waiter w)"
    unfolding on_state_def by (intro world_ok_store_update ok)
  then show ?thesis
    using set_remove_nth [of i "pending w"] by (auto simp: end_wait_def on_state_def intro!: world_ok_pending)
qed

lemma world_ok_drop_registration:
  assumes ok: "world_ok c w" and en: "enabled (DropRegistration i) w"
  shows "world_ok c (drop_registration i w)"
proof -
  let ?r = "live w ! i" and ?l = "remove_nth i (live w)"
  let ?a = "reg_state ?r" and ?k = "registration_id ?r"
  let ?s = "release_registration ?k (store w ! ?a)"
  have i: "i < length (live w)" and r: "?r \<in> set (live w)" using en by auto
  have d: "distinct (map registration_id (live w))" using ok by (simp add: world_ok_defs)
  note ne = distinct_remove_nth [OF d i]
  have sub: "set ?l \<subseteq> set (live w)" by (rule set_remove_nth)
  have keep: "x \<in> set ?l" if "x \<in> set (live w)" "x \<noteq> ?r" for x
    using that id_take_nth_drop [OF i] by (metis (no_types, lifting) Un_iff remove_nth_def set_ConsD set_append)
  have cells: "cell_ok (w\<lparr>live := ?l\<rparr>) a' s" if "cell_ok w a' s" for a' s
    using that sub by (auto simp: cell_ok_def)
  have "cell_ok (w\<lparr>live := ?l\<rparr>) ?a ?s"
    using cells [OF cell_okD [OF ok live_addr [OF ok r]]] ne(2)
    by (auto simp: cell_ok_def bm.map_laws)
  moreover have "world_ok c (w\<lparr>live := ?l\<rparr>)"
    using ok sub ne(1) cells en keep by (auto simp: world_ok_defs list_all_iff)
  ultimately have "world_ok c (w\<lparr>live := ?l, store := (store w)[?a := ?s]\<rparr>)"
    using world_ok_store_update [of c "w\<lparr>live := ?l\<rparr>" ?a ?s] by simp
  moreover have "drop_registration i w = w\<lparr>live := ?l, store := (store w)[?a := ?s]\<rparr>"
    by (simp add: drop_registration_def on_state_def Let_def)
  ultimately show ?thesis by simp
qed

lemma world_ok_drop_permit:
  assumes ok: "world_ok c w" and i: "i < length (permits w)"
  shows "world_ok c (drop_permit i w)"
proof -
  let ?p = "permits w ! i" and ?l = "remove_nth i (permits w)"
  let ?a = "permit_state ?p"
  let ?s = "release_permit (store w ! ?a)"
  have a: "?a < length (store w)" using ok i by (intro permit_addr) auto
  note cnt = permits_at_remove_nth [OF i]
  have cells: "cell_ok (w\<lparr>permits := ?l\<rparr>) a' s" if "cell_ok w a' s" for a' s
    using that cnt [of a'] by (auto simp: cell_ok_def)
  have "cell_ok (w\<lparr>permits := ?l\<rparr>) ?a ?s"
    using cell_okD [OF ok a] cnt [of ?a]
    by (auto simp: cell_ok_def machine_simps)
  moreover have "world_ok c (w\<lparr>permits := ?l\<rparr>)"
    using ok cells by (auto simp: world_ok_defs dest: in_set_remove_nthD)
  ultimately have "world_ok c (w\<lparr>permits := ?l, store := (store w)[?a := ?s]\<rparr>)"
    using world_ok_store_update [of c "w\<lparr>permits := ?l\<rparr>" ?a ?s] by simp
  moreover have "drop_permit i w = w\<lparr>permits := ?l, store := (store w)[?a := ?s]\<rparr>"
    by (simp add: drop_permit_def on_state_def)
  ultimately show ?thesis by simp
qed

section \<open>Admission and outcomes keep the invariant\<close>

lemma attempt_Acquired:
  assumes "admission_attempt lim d now s0 = (Inr Acquired, s)"
  shows "unat (in_flight s) = Suc (unat (in_flight s0))"
    and "\<And>i c. bm_lookup (registrations s0) i = Some c \<Longrightarrow> in_flight s \<le> c"
    and "\<And>dl. now < dl \<Longrightarrow> \<not> owes s0 dl"
    and "owes s (now + d)" and "registrations s = registrations s0"
proof -
  let ?n = "normalize_expired_safety now s0"
  from assms obtain c where c: "effective_concurrency ?n = Some c" and lt: "in_flight s0 < c"
    and dl: "\<forall>t. latest_deadline ?n = Some t \<longrightarrow> t \<le> now"
    and s: "s = ?n\<lparr>in_flight := saturating_add (in_flight s0) 1, next_request_at := Some (now + d)\<rparr>"
    by (auto simp: admission_attempt_def Let_def checked_deadline_def instant_checked_add_def
        split: option.splits if_splits)
  have suc: "Suc (unat (in_flight s0)) \<le> unat c" using lt by (simp add: word_less_nat_alt)
  also have "unat c < 2 ^ 32" using unsigned_less [of c] by simp
  finally have "Suc (unat (in_flight s0)) < 2 ^ 32" .
  with s show inc: "unat (in_flight s) = Suc (unat (in_flight s0))"
    by (simp add: machine_simps)
  show "in_flight s \<le> c'" if "bm_lookup (registrations s0) i = Some c'" for i c'
  proof -
    have "c \<le> c'"
      using c bm_lookup_mem [OF that]
      by (force simp: effective_concurrency_def iter_min_Some bm_values_def)
    with suc inc show ?thesis by (simp add: word_le_nat_alt)
  qed
  show "\<not> owes s0 dl'" if "now < dl'" for dl'
    using dl that owes_normalize [OF that, of s0] by (fastforce simp: owes_def split: option.splits)
  show "owes s (now + d)" "registrations s = registrations s0"
    by (auto simp: s latest_deadline_Some_iff)
qed

text \<open>Whatever an attempt returns, it keeps registrations and live deadlines and never lowers the
  number of requests in flight.\<close>

lemma attempt_keeps:
  assumes "admission_attempt lim d now s0 = (res, s)"
  shows "registrations s = registrations s0" and "in_flight s0 \<le> in_flight s"
    and "\<And>dl. now < dl \<Longrightarrow> owes s0 dl \<Longrightarrow> owes s dl"
proof -
  let ?n = "normalize_expired_safety now s0"
  let ?free = "\<forall>t. latest_deadline ?n = Some t \<longrightarrow> t \<le> now"
  have grow: "in_flight s0 \<le> saturating_add (in_flight s0) 1"
    using unsigned_less [of "in_flight s0", where 'a = nat]
    by (simp add: word_le_nat_alt machine_simps)
  have cases: "s = ?n \<or> (?free \<and> registrations s = registrations s0
      \<and> in_flight s = saturating_add (in_flight s0) 1)"
    using assms
    by (auto simp: admission_attempt_def Let_def split: option.splits if_splits sum.splits)
  then show "registrations s = registrations s0" "in_flight s0 \<le> in_flight s"
    using grow by auto
  have "\<not> owes s0 dl" if "?free" "now < dl" for dl
    using that owes_normalize [OF that(2), of s0] by (fastforce simp: owes_def split: option.splits)
  with cases show "now < dl \<Longrightarrow> owes s0 dl \<Longrightarrow> owes s dl" for dl
    using owes_normalize by blast
qed

lemma le_later_deadline:
  "dl \<le> later_deadline c x \<longleftrightarrow> dl \<le> x \<or> (\<exists>t. c = Some t \<and> dl \<le> t)"
  by (auto simp: later_deadline_def le_max_iff_disj split: option.splits)

lemma outcome_keeps:
  assumes "record_outcome lim x t s0 = (res, s)"
  shows "registrations s = registrations s0" and "in_flight s = in_flight s0"
    and "\<And>dl. t < dl \<Longrightarrow> owes s0 dl \<Longrightarrow> owes s dl"
    and "\<And>dl. res = Inr () \<Longrightarrow> dl \<in> set (outcome_deadlines x t s0) \<Longrightarrow> owes s dl"
proof -
  let ?n = "normalize_expired_safety t s0"
  show "registrations s = registrations s0" "in_flight s = in_flight s0"
    using assms by (auto simp: record_outcome_def Let_def split: PacingOutcome.splits sum.splits option.splits)
  have "owes s dl" if "owes ?n dl" for dl
    using assms that
    by (auto simp: record_outcome_def Let_def latest_deadline_Some_iff le_later_deadline
        split: PacingOutcome.splits sum.splits option.splits)
  then show "t < dl \<Longrightarrow> owes s0 dl \<Longrightarrow> owes s dl" for dl
    by (simp add: owes_normalize)
  show "res = Inr () \<Longrightarrow> dl \<in> set (outcome_deadlines x t s0) \<Longrightarrow> owes s dl" for dl
    using assms
    by (auto simp: record_outcome_def Let_def latest_deadline_Some_iff le_later_deadline
        checked_deadline_def instant_checked_add_def
        split: PacingOutcome.splits sum.splits option.splits if_splits)
qed

lemma world_ok_attempt:
  assumes ok: "world_ok c w" and i: "i < length (pending w)"
  shows "world_ok c (attempt lim i w)"
proof -
  let ?p = "pending w ! i"
  let ?r = "waiter_registration ?p"
  let ?a = "reg_state ?r"
  obtain res s where at: "admission_attempt lim (effective_delay ?p) (clock w) (store w ! ?a) = (res, s)"
    by (meson surj_pair)
  have r: "?r \<in> set (live w)" using ok i by (auto simp: world_ok_defs)
  note a = live_addr [OF ok r]
  note keep = attempt_keeps [OF at]
  have cell: "cell_ok w ?a s"
    by (rule cell_ok_keep [OF cell_okD [OF ok a] keep])
  then have ok1: "world_ok c (w\<lparr>store := (store w)[?a := s]\<rparr>)" (is "world_ok c ?w1")
    by (intro world_ok_store_update ok)
  then have ok2: "world_ok c (end_wait i ?w1)" (is "world_ok c ?w2")
    using i by (intro world_ok_end_wait) auto
  show ?thesis
  proof (cases "res = Inr Acquired")
    case False
    then have "attempt lim i w = ?w1 \<or> attempt lim i w = ?w2"
      using at by (auto simp: attempt_def Let_def split: sum.splits AdmissionAttempt.splits)
    with ok1 ok2 show ?thesis by auto
  next
    case True
    note acq = attempt_Acquired [OF at [unfolded True]]
    let ?np = "\<lparr>permit_origin = reg_origin ?r, permit_state = ?a, outcome_recorded = False\<rparr>"
    let ?w3 = "?w2\<lparr>permits := permits w @ [?np],
      obligations := (reg_origin ?r, clock w + effective_delay ?p) # obligations w\<rparr>"
    have eq: "attempt lim i w = ?w3" using at True by (simp add: attempt_def Let_def)
    have fields: "live ?w2 = live w" "permits ?w2 = permits w" "obligations ?w2 = obligations w"
      "clock ?w2 = clock w" "registry ?w2 = registry w" "length (store ?w2) = length (store w)"
      by (simp_all add: end_wait_def on_state_def)
    have st: "store ?w2 ! ?a = release_waiter s" using a i by (simp add: end_wait_def on_state_def)
    have cnt: "permits_at ?a (permits w) \<le> unat (in_flight (store w ! ?a))"
      using cell_okD [OF ok a] by (simp add: cell_ok_def)
    have lk: "bm_lookup (states (registry w)) (reg_origin ?r) = Some ?a"
      using ok r by (auto simp: world_ok_defs)
    have "cell_ok ?w3 b (store ?w3 ! b)" if "b < length (store w)" for b
    proof -
      have "cell_ok ?w2 b (store ?w2 ! b)" using ok2 that by (simp add: world_ok_def fields)
      then show ?thesis
        using st cnt acq(1,4) lk by (auto simp: cell_ok_def fields)
    qed
    with ok2 lk show ?thesis by (auto simp: eq world_ok_defs fields)
  qed
qed

lemma world_ok_record_outcome:
  assumes ok: "world_ok c w" and i: "i < length (permits w)" and t: "t \<le> clock w"
  shows "world_ok c (permit_record_outcome lim i x t w)"
proof (cases "outcome_recorded (permits w ! i)")
  case False
  let ?p = "permits w ! i"
  let ?a = "permit_state ?p"
  obtain res s where ro: "record_outcome lim x t (store w ! ?a) = (res, s)" by (meson surj_pair)
  have p: "?p \<in> set (permits w)" using i by simp
  note a = permit_addr [OF ok p] and keep = outcome_keeps [OF ro]
  let ?ob = "case res of Inl _ \<Rightarrow> obligations w
     | Inr _ \<Rightarrow> map (Pair (permit_origin ?p)) (outcome_deadlines x t (store w ! ?a)) @ obligations w"
  let ?w = "w\<lparr>permits := (permits w)[i := ?p\<lparr>outcome_recorded := True\<rparr>], obligations := ?ob\<rparr>"
  have lk: "bm_lookup (states (registry w)) (permit_origin ?p) = Some ?a"
    using ok p by (auto simp: world_ok_defs)
  have other: "cell_ok ?w b u" if "cell_ok w b u" "b \<noteq> ?a" for b u
    using that lk i by (auto simp: cell_ok_def permits_at_update split: sum.splits)
  have "cell_ok w ?a s"
    using keep t by (intro cell_ok_keep [OF cell_okD [OF ok a]]) auto
  then have mine: "cell_ok ?w ?a s"
    using keep(4) i by (auto simp: cell_ok_def permits_at_update split: sum.splits)
  have "cell_ok ?w b ((store w)[?a := s] ! b)" if "b < length (store w)" for b
    using that ok mine other by (cases "b = ?a") (auto simp: world_ok_def)
  moreover have "handles_ok ?w"
    using ok lk p i by (auto simp: world_ok_defs in_set_conv_nth nth_list_update split: sum.splits) fastforce+
  moreover have "permit_record_outcome lim i x t w = ?w\<lparr>store := (store w)[?a := s]\<rparr>"
    using ro False by (simp add: permit_record_outcome_def Let_def)
  ultimately show ?thesis
    using ok by (simp add: world_ok_def registry_ok_def handles_ok_def)
qed (use ok in \<open>simp add: permit_record_outcome_def\<close>)

section \<open>Registration and pruning keep the invariant\<close>

lemma normalize_idem:
  "normalize_expired_safety t (normalize_expired_safety t s) = normalize_expired_safety t s"
  by (simp add: normalize_expired_safety_def drop_expired_def split: option.splits)

lemma safe_to_retire_normalize:
  "fst (is_safe_to_retire t (normalize_expired_safety t s)) = fst (is_safe_to_retire t s)"
  by (simp add: safe_to_retire_iff owes_normalize)

definition normalized_or_same :: "Instant \<Rightarrow> state_store \<Rightarrow> state_store \<Rightarrow> bool" where
  "normalized_or_same t st st' \<longleftrightarrow> length st' = length st \<and>
     (\<forall>a < length st. st' ! a = st ! a \<or> st' ! a = normalize_expired_safety t (st ! a))"

lemma scan_safe_spec:
  assumes "scan_safe t es st = (ks, st')" and "\<forall>(k, a) \<in> set es. a < length st"
  shows "normalized_or_same t st st'
     \<and> (\<forall>k \<in> set ks. \<exists>a. (k, a) \<in> set es \<and> fst (is_safe_to_retire t (st ! a)))"
  using assms
proof (induction es arbitrary: st ks)
  case (Cons e es)
  obtain k a where e: "e = (k, a)" by (cases e)
  let ?n = "normalize_expired_safety t (st ! a)"
  have al: "a < length st" using Cons.prems e by auto
  obtain b s where bs: "is_safe_to_retire t (st ! a) = (b, s)" by (meson surj_pair)
  then have sn: "s = ?n" using snd_safe_to_retire [of t "st ! a"] by simp
  obtain ks1 where sc: "scan_safe t es (st[a := ?n]) = (ks1, st')"
    and ks: "ks = (if b then k # ks1 else ks1)"
    using Cons.prems(1) by (auto simp: e bs sn split: prod.splits)
  have "\<forall>(k, a') \<in> set es. a' < length (st[a := ?n])" using Cons.prems(2) by auto
  note IH = Cons.IH [OF sc this]
  have "normalized_or_same t st st'"
    using IH al by (auto simp: normalized_or_same_def nth_list_update normalize_idem) (metis normalize_idem)+
  moreover have "\<exists>a'. (k', a') \<in> set (e # es) \<and> fst (is_safe_to_retire t (st ! a'))" if "k' \<in> set ks" for k'
  proof -
    from that ks consider "k' = k" "b" | "k' \<in> set ks1" by (auto split: if_splits)
    then show ?thesis
    proof cases
      case 1
      then show ?thesis using bs e by (metis fst_conv list.set_intros(1))
    next
      case 2
      then obtain a' where "(k', a') \<in> set es" "fst (is_safe_to_retire t (st[a := ?n] ! a'))"
        using IH by blast
      then show ?thesis
        using al by (cases "a' = a") (auto simp: safe_to_retire_normalize)
    qed
  qed
  ultimately show ?case by blast
qed (auto simp: normalized_or_same_def)

lemma prune_loop_spec:
  "bm_invar m \<Longrightarrow> bm_invar (prune_loop c ks m) \<and> length (prune_loop c ks m) \<le> length m \<and>
   (\<forall>k. bm_lookup (prune_loop c ks m) k = bm_lookup m k
      \<or> (k \<in> set ks \<and> bm_lookup (prune_loop c ks m) k = None))"
proof (induction ks arbitrary: m)
  case (Cons k ks)
  have "length (bm_remove k m) \<le> length m" by (simp add: bm_remove_def)
  with Cons.IH [of "bm_remove k m"] Cons.prems show ?case
    by (auto simp: bm.map_laws split: if_splits)
qed simp

lemma live_lookup: "world_ok c w \<Longrightarrow> r \<in> set (live w) \<Longrightarrow>
    bm_lookup (states (registry w)) (reg_origin r) = Some (reg_state r)"
  by (auto simp: world_ok_defs)

lemma permit_lookup: "world_ok c w \<Longrightarrow> p \<in> set (permits w) \<Longrightarrow>
    bm_lookup (states (registry w)) (permit_origin p) = Some (permit_state p)"
  by (auto simp: world_ok_defs)

lemma obligation_lookup:
  assumes "world_ok c w" and "(k, dl) \<in> set (obligations w)" and "clock w < dl"
  obtains a where "bm_lookup (states (registry w)) k = Some a" and "owes (store w ! a) dl"
proof -
  have "bm_lookup (states (registry w)) k \<noteq> None"
    using assms unfolding world_ok_def handles_ok_def by blast
  then obtain a where a: "bm_lookup (states (registry w)) k = Some a" by blast
  then have "cell_ok w a (store w ! a)" using assms(1) by (auto simp: world_ok_defs)
  with a assms that show thesis by (auto simp: cell_ok_def)
qed

text \<open>A state that passes the retirement test has no user and no future obligation.\<close>

lemma retired_unused:
  assumes ok: "world_ok c w" and t: "t \<le> clock w" and k: "bm_lookup (states (registry w)) k = Some a"
    and safe: "fst (is_safe_to_retire t (store w ! a))"
  shows "k \<notin> reg_origin ` set (live w)" and "k \<notin> permit_origin ` set (permits w)"
    and "clock w < dl \<Longrightarrow> (k, dl) \<notin> set (obligations w)"
proof -
  have cell: "cell_ok w a (store w ! a)" using ok k by (auto simp: world_ok_defs)
  have "bm_lookup (registrations (store w ! a)) i = None" for i
    using safe by (simp add: safe_to_retire_iff bm_lookup_def)
  then show "k \<notin> reg_origin ` set (live w)"
    using cell live_lookup [OF ok] k by (fastforce simp: cell_ok_def)
  have "permits_at a (permits w) = 0" using cell safe by (simp add: cell_ok_def safe_to_retire_iff)
  then show "k \<notin> permit_origin ` set (permits w)"
    using permit_lookup [OF ok] k by (fastforce simp: permits_at_def filter_empty_conv)
  show "(k, dl) \<notin> set (obligations w)" if dl: "clock w < dl"
  proof
    assume "(k, dl) \<in> set (obligations w)"
    then obtain b where "bm_lookup (states (registry w)) k = Some b" "owes (store w ! b) dl"
      using obligation_lookup [OF ok _ dl] by blast
    with k safe t dl show False by (simp add: safe_to_retire_iff)
  qed
qed

lemma cell_ok_normalized:
  assumes "world_ok c w" and "t \<le> clock w" and "normalized_or_same t (store w) st" and "a < length (store w)"
  shows "cell_ok w a (st ! a)"
proof -
  have "cell_ok w a (normalize_expired_safety t (store w ! a))"
    using assms(2) by (intro cell_ok_keep [OF cell_okD [OF assms(1,4)]]) (auto simp: owes_normalize)
  with assms cell_okD [OF assms(1,4)] show ?thesis by (auto simp: normalized_or_same_def)
qed

text \<open>Pruning removes only origins without users or future obligations.\<close>

lemma world_ok_prune:
  assumes ok: "world_ok c w" and t: "t \<le> clock w"
    and pr: "prune_safe_states t c (registry w) (store w) = (reg, st)"
  shows "world_ok c (w\<lparr>registry := reg, store := st\<rparr>)"
proof -
  let ?m = "states (registry w)"
  obtain ks where sc: "scan_safe t ?m (store w) = (ks, st)"
    and reg: "reg = (registry w)\<lparr>states := prune_loop c ks ?m\<rparr>"
    using pr by (auto simp: prune_safe_states_def split: prod.splits)
  have inv: "bm_invar ?m" using ok by (simp add: world_ok_defs)
  have "\<forall>(k, a) \<in> set ?m. a < length (store w)"
    using ok bm_mem_lookup [OF inv] by (auto simp: world_ok_defs)
  note sp = scan_safe_spec [OF sc this] and pl = prune_loop_spec [OF inv, of c ks]
  have none: "bm_lookup (states reg) k = bm_lookup ?m k \<or> bm_lookup (states reg) k = None" for k
    using pl reg by auto
  have same: "bm_lookup (states reg) k = bm_lookup ?m k"
    if "k \<in> reg_origin ` set (live w) \<or> k \<in> permit_origin ` set (permits w)
      \<or> (\<exists>dl. clock w < dl \<and> (k, dl) \<in> set (obligations w))" for k
  proof (rule ccontr)
    assume "\<not> ?thesis"
    then have "k \<in> set ks" using pl [THEN conjunct2, THEN conjunct2] by (auto simp: reg)
    then obtain a where "(k, a) \<in> set ?m" and safe: "fst (is_safe_to_retire t (store w ! a))"
      using sp by blast
    then have "bm_lookup ?m k = Some a" using bm_mem_lookup [OF inv] by blast
    from retired_unused [OF ok t this safe] that show False by blast
  qed
  have "cell_ok (w\<lparr>registry := reg, store := st\<rparr>) a (st ! a)" if "a < length (store w)" for a
  proof -
    have "bm_lookup (states reg) k = Some a \<Longrightarrow> bm_lookup ?m k = Some a" for k
      using none [of k] by simp
    with cell_ok_normalized [OF ok t conjunct1 [OF sp] that] show ?thesis
      by (auto simp: cell_ok_def)
  qed
  moreover have "handles_ok (w\<lparr>registry := reg, store := st\<rparr>)"
  proof -
    have "next_registration_id reg = next_registration_id (registry w)" by (simp add: reg)
    moreover have "handles_ok w" using ok by (simp add: world_ok_def)
    moreover have "bm_lookup (states reg) k \<noteq> None"
      if "(k, dl) \<in> set (obligations w)" "clock w < dl" for k dl
      using same [of k] that obligation_lookup [OF ok that] by (metis option.distinct(1))
    ultimately show ?thesis using same by (auto simp: handles_ok_def)
  qed
  moreover have "registry_ok c (w\<lparr>registry := reg, store := st\<rparr>)"
  proof -
    have "bm_lookup (states reg) k = Some a \<Longrightarrow> a < length st" for k a
      using none [of k] ok sp by (simp add: world_ok_defs normalized_or_same_def)
    with ok pl show ?thesis by (auto simp: world_ok_defs reg)
  qed
  moreover have "length st = length (store w)" using sp by (simp add: normalized_or_same_def)
  ultimately show ?thesis by (simp add: world_ok_def)
qed

lemma world_ok_new_state:
  assumes ok: "world_ok c w" and room: "length (states (registry w)) < c"
    and absent: "bm_lookup (states (registry w)) k = None"
  shows "world_ok c (w\<lparr>registry := (registry w)\<lparr>states := bm_insert k (length (store w)) (states (registry w))\<rparr>,
      store := store w @ [default_pacing_state]\<rparr>)" (is "world_ok c ?w")
proof -
  let ?n = "length (store w)" and ?m = "states (registry w)"
  have invm: "bm_invar ?m" using ok by (simp add: world_ok_defs)
  then have lk: "bm_lookup (states (registry ?w)) k' = (if k' = k then Some ?n else bm_lookup ?m k')" for k'
    by (simp add: bm.lookup_insert)
  have fresh: "bm_lookup ?m k' \<noteq> Some ?n" for k'
    using ok by (auto simp: world_ok_defs)
  have old: "cell_ok ?w b (store ?w ! b)" if "b < ?n" for b
    using cell_okD [OF ok that] that invm by (auto simp: cell_ok_def nth_append bm.lookup_insert split: if_splits)
  have "\<forall>r \<in> set (live w). reg_state r \<noteq> ?n" "\<forall>p \<in> set (permits w). permit_state p \<noteq> ?n"
    using fresh live_lookup [OF ok] permit_lookup [OF ok] by metis+
  moreover have "(k, dl) \<notin> set (obligations w)" if "clock w < dl" for dl
    using obligation_lookup [OF ok _ that] absent by (metis option.distinct(1))
  ultimately have new: "cell_ok ?w ?n default_pacing_state"
    using fresh invm
    by (auto simp: cell_ok_def default_pacing_state_def permits_at_def filter_empty_conv bm.lookup_insert split: if_splits)
  have "cell_ok ?w b (store ?w ! b)" if "b < length (store ?w)" for b
    using old [of b] new that by (cases "b = ?n") auto
  moreover have "registry_ok c ?w"
    using ok room absent invm
    by (auto simp: world_ok_defs bm.map_laws bm.size_insert less_SucI split: if_splits)
  moreover have "handles_ok ?w"
    using ok absent invm by (auto simp: world_ok_defs bm.lookup_insert split: if_splits)
  ultimately show ?thesis by (simp add: world_ok_def)
qed

lemma prune_keeps_absent:
  assumes "prune_safe_states t c reg st = (reg', st')" and "bm_invar (states reg)"
    and "bm_lookup (states reg) k = None"
  shows "bm_lookup (states reg') k = None"
proof -
  obtain ks where "reg' = reg\<lparr>states := prune_loop c ks (states reg)\<rparr>"
    using assms(1) by (auto simp: prune_safe_states_def split: prod.splits)
  with prune_loop_spec [OF assms(2), of c ks, THEN conjunct2, THEN conjunct2, rule_format, of k]
  show ?thesis using assms(3) by auto
qed

lemma world_ok_origin_state:
  assumes ok: "world_ok c w" and t: "t \<le> clock w"
    and os: "origin_state c k t (registry w) (store w) = (res, reg, st)"
  shows "world_ok c (w\<lparr>registry := reg, store := st\<rparr>)"
    and "res = Inr a \<Longrightarrow> bm_lookup (states reg) k = Some a"
proof -
  have inv: "bm_invar (states (registry w))" using ok by (simp add: world_ok_defs)
  have "world_ok c (w\<lparr>registry := reg, store := st\<rparr>) \<and> (res = Inr a \<longrightarrow> bm_lookup (states reg) k = Some a)"
  proof (cases "bm_lookup (states (registry w)) k")
    case (Some b)
    then show ?thesis using os ok by (auto simp: origin_state_def)
  next
    case None
    obtain reg1 st1 where p: "(if c \<le> length (states (registry w))
        then prune_safe_states t c (registry w) (store w) else (registry w, store w)) = (reg1, st1)"
      by (meson surj_pair)
    let ?w1 = "w\<lparr>registry := reg1, store := st1\<rparr>"
    have ok1: "world_ok c ?w1"
      using p ok world_ok_prune [OF ok t] by (auto split: if_splits)
    have none: "bm_lookup (states reg1) k = None"
      using p None prune_keeps_absent [OF _ inv None] by (auto split: if_splits)
    show ?thesis
    proof (cases "c \<le> length (states reg1)")
      case True
      then show ?thesis using os None p ok1 by (auto simp: origin_state_def)
    next
      case False
      have "bm_invar (states reg1)" using ok1 by (simp add: world_ok_defs)
      then show ?thesis
        using False os None p world_ok_new_state [OF ok1, of k] none
        by (auto simp: origin_state_def bm.lookup_insert)
    qed
  qed
  then show "world_ok c (w\<lparr>registry := reg, store := st\<rparr>)"
    and "res = Inr a \<Longrightarrow> bm_lookup (states reg) k = Some a" by auto
qed

text \<open>A new registration takes an identifier larger than every live one.\<close>

lemma world_ok_add_registration:
  assumes ok: "world_ok c w" and k: "bm_lookup (states (registry w)) (reg_origin r) = Some (reg_state r)"
    and n: "next_registration_id (registry w) = Some (registration_id r)"
  shows "world_ok c (w\<lparr>registry := (registry w)\<lparr>next_registration_id := checked_add (registration_id r) 1\<rparr>,
      store := (store w)[reg_state r :=
        add_registration (registration_id r) (concurrency (configuration r)) (store w ! reg_state r)],
      live := live w @ [r]\<rparr>)" (is "world_ok c ?w")
proof -
  let ?a = "reg_state r" and ?i = "registration_id r"
  have a: "?a < length (store w)" using ok k by (auto simp: world_ok_defs)
  have less: "registration_id x < ?i" if "x \<in> set (live w)" for x
    using ok n that by (auto simp: world_ok_defs)
  have nxt: "x < m" if "checked_add ?i 1 = Some m" "x \<le> ?i" for m and x :: u64
    using that by (auto simp: machine_simps word_less_nat_alt word_le_nat_alt)
  have other: "cell_ok ?w b u" if "cell_ok w b u" "b \<noteq> ?a" for b u
    using that by (auto simp: cell_ok_def)
  have mine: "cell_ok ?w ?a (add_registration ?i (concurrency (configuration r)) (store w ! ?a))"
    using cell_okD [OF ok a] less by (fastforce simp: cell_ok_def bm.map_laws)
  have "cell_ok ?w b (store ?w ! b)" if "b < length (store w)" for b
    using that other [OF cell_okD [OF ok that]] mine by (cases "b = ?a") auto
  moreover have "handles_ok ?w"
  proof -
    have "registration_id r \<notin> registration_id ` set (live w)" using less by force
    moreover have "handles_ok w" using ok by (simp add: world_ok_def)
    ultimately show ?thesis using k nxt less by (auto simp: handles_ok_def less_imp_le)
  qed
  moreover have "registry_ok c ?w" using ok by (simp add: world_ok_defs)
  ultimately show ?thesis by (simp add: world_ok_def)
qed

lemma world_ok_register:
  assumes ok: "world_ok c w" and t: "t \<le> clock w"
  shows "world_ok c (snd (service_register c k n ms t w))"
proof (cases "config_from_snapshot n ms")
  case (Inr cfg)
  obtain res reg st where os: "origin_state c k t (registry w) (store w) = (res, reg, st)"
    using prod_cases3 by blast
  note ok1 = world_ok_origin_state [OF ok t os]
  show ?thesis
  proof (cases res)
    case (Inl e)
    then show ?thesis using ok1(1) os Inr by (simp add: service_register_def registry_register_def)
  next
    case a: (Inr a)
    show ?thesis
    proof (cases "next_registration_id reg")
      case None
      then show ?thesis using ok1(1) os Inr a by (simp add: service_register_def registry_register_def)
    next
      case (Some i)
      show ?thesis
        using world_ok_add_registration [OF ok1(1),
            of "\<lparr>reg_origin = k, reg_state = a, registration_id = i, configuration = cfg\<rparr>"]
          ok1(2) [OF a] os Inr a Some
        by (simp add: service_register_def registry_register_def Let_def)
    qed
  qed
qed (use ok in \<open>simp add: service_register_def\<close>)

section \<open>Safety of every interleaving\<close>

lemma world_ok_perform:
  assumes ok: "world_ok c w" and en: "enabled act w"
  shows "world_ok c (perform lim c act w)"
proof (cases act)
  case (DropRegistration i)
  then show ?thesis using world_ok_drop_registration ok en by simp
next
  case (Acquire i robots)
  then show ?thesis using ok en by (auto simp: acquire_def intro: world_ok_begin_wait)
next
  case (AcquireRobotsFetch i)
  then show ?thesis using ok en by (auto simp: acquire_robots_fetch_def intro: world_ok_begin_wait)
qed (use ok en in \<open>auto intro: world_ok_tick world_ok_register world_ok_attempt world_ok_end_wait
    world_ok_record_outcome world_ok_drop_permit\<close>)

lemma reachable_ok: "reachable lim c w \<Longrightarrow> world_ok c w"
  by (induction rule: reachable.induct) (auto intro: world_ok_init world_ok_perform)

definition origin_permits :: "OriginKey \<Rightarrow> world \<Rightarrow> nat" where
  "origin_permits k w = length (filter (\<lambda>p. permit_origin p = k) (permits w))"

lemma origin_permits_at:
  assumes "world_ok c w" and "bm_lookup (states (registry w)) k = Some a"
  shows "origin_permits k w \<le> permits_at a (permits w)"
proof -
  have "p \<in> set (permits w) \<Longrightarrow> permit_origin p = k \<Longrightarrow> permit_state p = a" for p
    using permit_lookup [OF assms(1)] assms(2) by fastforce
  then have "filter (\<lambda>p. permit_origin p = k) (permits w) =
      filter (\<lambda>p. permit_origin p = k) (filter (\<lambda>p. permit_state p = a) (permits w))"
    by (auto intro: filter_cong)
  then show ?thesis by (simp add: origin_permits_def permits_at_def) (metis length_filter_le filter_filter)
qed

text \<open>An attempt that adds a permit was answered \<open>Acquired\<close>.\<close>

lemma grant_Acquired:
  assumes "length (permits w) < length (permits (attempt lim i w))"
  obtains s where "admission_attempt lim (effective_delay (pending w ! i)) (clock w)
      (store w ! reg_state (waiter_registration (pending w ! i))) = (Inr Acquired, s)"
  using assms
  by (auto simp: attempt_def Let_def end_wait_def on_state_def
      split: prod.splits sum.splits AdmissionAttempt.splits)

text \<open>
  C8. A grant respects every configured concurrency: after any interleaving of registrations, waits,
  releases, outcomes and pruning, whenever an admission is granted, the live permits of that origin with the
  new one (across all states ever allocated for it) number at most the concurrency of every registration
  that is live for the origin at that moment.  Only grants are bounded: a registration made later with a
  lower concurrency revokes no permit, it holds back the next grant.
\<close>
theorem admission_respects_concurrency:
  assumes "reachable lim capacity w" and "i < length (pending w)"
    and "length (permits w) < length (permits (attempt lim i w))"
    and "r \<in> set (live w)" and "reg_origin r = reg_origin (waiter_registration (pending w ! i))"
  shows "origin_permits (reg_origin r) (attempt lim i w) \<le> unat (concurrency (configuration r))"
proof -
  let ?wr = "waiter_registration (pending w ! i)"
  obtain s where at: "admission_attempt lim (effective_delay (pending w ! i)) (clock w)
      (store w ! reg_state ?wr) = (Inr Acquired, s)"
    using grant_Acquired assms(3) by blast
  have ok: "world_ok capacity w" using assms(1) by (rule reachable_ok)
  have wr: "?wr \<in> set (live w)" using ok assms(2) by (auto simp: world_ok_defs)
  have a: "reg_state r = reg_state ?wr"
    using live_lookup [OF ok assms(4)] live_lookup [OF ok wr] assms(5) by simp
  have cell: "cell_ok w (reg_state ?wr) (store w ! reg_state ?wr)"
    by (rule cell_okD [OF ok live_addr [OF ok wr]])
  have "in_flight s \<le> concurrency (configuration r)"
    using attempt_Acquired(2) [OF at] cell assms(4) a by (auto simp: cell_ok_def)
  moreover have "origin_permits (reg_origin r) (attempt lim i w) = Suc (origin_permits (reg_origin r) w)"
    using at assms(5) by (simp add: attempt_def Let_def origin_permits_def)
  moreover have "origin_permits (reg_origin r) w \<le> unat (in_flight (store w ! reg_state ?wr))"
    using origin_permits_at [OF ok live_lookup [OF ok assms(4)]] cell a by (simp add: cell_ok_def)
  ultimately show ?thesis
    using attempt_Acquired(1) [OF at] by (simp add: word_le_nat_alt)
qed

text \<open>
  C9. Politeness survives pruning and concurrent use: when a request is admitted, every deadline
  the program ever promised for that origin has passed, namely the request delay (the larger of
  the configured and the robots delay) of every earlier admission, every rate-limit backoff and
  every honoured \<open>Retry-After\<close>.
\<close>
theorem admission_respects_deadlines:
  assumes "reachable lim capacity w" and "i < length (pending w)"
    and "length (permits w) < length (permits (attempt lim i w))"
    and "(reg_origin (waiter_registration (pending w ! i)), deadline) \<in> set (obligations w)"
  shows "deadline \<le> clock w"
proof (rule ccontr)
  let ?wr = "waiter_registration (pending w ! i)"
  assume "\<not> ?thesis"
  then have late: "clock w < deadline" by simp
  obtain s where at: "admission_attempt lim (effective_delay (pending w ! i)) (clock w)
      (store w ! reg_state ?wr) = (Inr Acquired, s)"
    using grant_Acquired assms(3) by blast
  have ok: "world_ok capacity w" using assms(1) by (rule reachable_ok)
  have wr: "?wr \<in> set (live w)" using ok assms(2) by (auto simp: world_ok_defs)
  from obligation_lookup [OF ok assms(4) late] live_lookup [OF ok wr]
  have "owes (store w ! reg_state ?wr) deadline" by (metis option.inject)
  with attempt_Acquired(3) [OF at late] show False by simp
qed

text \<open>
  C33. The registry stays within its capacity and is the only home of an origin's state: all live
  registrations and permits of one origin hold the same shared state, even after unused states
  were pruned and the origin was registered again.
\<close>
theorem registry_bounded_and_shared:
  assumes "reachable lim capacity w"
  shows "length (states (registry w)) \<le> capacity
    \<and> (\<forall>r \<in> set (live w). bm_lookup (states (registry w)) (reg_origin r) = Some (reg_state r))
    \<and> (\<forall>p \<in> set (permits w). bm_lookup (states (registry w)) (permit_origin p) = Some (permit_state p))"
  using reachable_ok [OF assms] by (auto simp: world_ok_defs)

text \<open>
  C34. When the next-request deadline cannot be represented, the admission fails after the
  in-flight counter was raised: no permit exists to lower it again.
\<close>
theorem clock_overflow_keeps_slot:
  assumes "admission_attempt lim d now s = (Inl ClockOverflow, s')"
  shows "unat (in_flight s') = Suc (unat (in_flight s))"
proof -
  from assms obtain c where lt: "in_flight s < c" and s': "in_flight s' = saturating_add (in_flight s) 1"
    by (auto simp: admission_attempt_def Let_def checked_deadline_def instant_checked_add_def
        split: option.splits if_splits sum.splits)
  then have "Suc (unat (in_flight s)) \<le> unat c" by (simp add: word_less_nat_alt)
  also have "unat c < 2 ^ 32" using unsigned_less [of c, where 'a = nat] by simp
  finally show ?thesis using s' by (simp add: machine_simps)
qed

section \<open>Concrete runs\<close>

fun run :: "nat \<Rightarrow> nat \<Rightarrow> action list \<Rightarrow> world \<Rightarrow> world option" where
  "run lim c [] w = Some w"
| "run lim c (act # acts) w = (if enabled act w then run lim c acts (perform lim c act w) else None)"

lemma run_reachable: "reachable lim c w \<Longrightarrow> run lim c acts w = Some w' \<Longrightarrow> reachable lim c w'"
  by (induction acts arbitrary: w) (auto split: if_splits intro: reachable_step)

definition sample_origin :: OriginKey where
  "sample_origin = OriginKey ''https'' ''a.test'' 443"

text \<open>Two registrations with concurrency 2 and 3, one admission, a rate limit, and a second wait
  after the backoff.\<close>

definition sample_actions :: "action list" where
  "sample_actions = [Register sample_origin 2 100 0, Register sample_origin 3 50 0,
     AcquireRobotsFetch 0, Attempt 0, RecordOutcome 0 (RateLimitedOutcome Absent) 0,
     AcquireRobotsFetch 1, Attempt 0, Tick (from_secs 2)]"

definition sample_config :: "u32 \<Rightarrow> Duration \<Rightarrow> RegistrationId \<Rightarrow> PacingRegistration" where
  "sample_config c d i = \<lparr>reg_origin = sample_origin, reg_state = 0, registration_id = i,
     configuration = \<lparr>concurrency = c, request_delay = d\<rparr>\<rparr>"

definition sample_world :: world where
  "sample_world = \<lparr>clock = 2000000000,
     store = [\<lparr>in_flight = 1, registrations = [(1, 2), (2, 3)], waiting_admissions = 1,
       next_request_at = Some 100000000, backoff_until = Some 1000000000, retry_after_until = None,
       consecutive_rate_limits = 1\<rparr>],
     registry = \<lparr>states = [(sample_origin, 0)], next_registration_id = Some 3\<rparr>,
     live = [sample_config 2 100000000 1, sample_config 3 50000000 2],
     pending = [\<lparr>waiter_registration = sample_config 3 50000000 2, effective_delay = 50000000\<rparr>],
     permits = [\<lparr>permit_origin = sample_origin, permit_state = 0, outcome_recorded = True\<rparr>],
     obligations = [(sample_origin, 1000000000), (sample_origin, 100000000)]\<rparr>"

lemmas run_defs = service_register_def config_from_snapshot_def registry_register_def origin_state_def
  from_millis_def from_secs_def MAX_PACING_DELAY_def empty_registry_def bm_lookup_def
  default_pacing_state_def add_registration_def acquire_robots_fetch_def begin_wait_def on_state_def
  attempt_def admission_attempt_def effective_concurrency_def bm_values_def latest_deadline_def
  normalize_expired_safety_def drop_expired_def checked_deadline_def instant_checked_add_def
  end_wait_def remove_nth_def register_waiter_def release_waiter_def checked_add_def
  saturating_add_def saturating_sub_def permit_record_outcome_def record_outcome_def
  later_deadline_def map_filter_simps

lemma sample_backoff: "bounded_backoff 1 = 1000000000"
  by (simp add: bounded_backoff_def Let_def checked_shl_def duration_checked_mul_def duration_max_def
      RATE_LIMIT_BACKOFF_BASE_def MAX_RATE_LIMIT_BACKOFF_def from_secs_def saturating_sub_def)

lemma sample_world_run: "run (10 ^ 30) 4 sample_actions init_world = Some sample_world"
  by (simp add: sample_actions_def sample_world_def sample_config_def init_world_def run_defs
      sample_backoff Let_def)

lemma sample_world_reachable: "reachable (10 ^ 30) 4 sample_world"
  by (rule run_reachable [OF reachable_init sample_world_run])

lemma sample_grant:
  "length (permits sample_world) < length (permits (attempt (10 ^ 30) 0 sample_world))"
  by (simp add: sample_world_def sample_config_def run_defs Let_def)

theorem admission_respects_concurrency_witness:
  "origin_permits sample_origin (attempt (10 ^ 30) 0 sample_world) \<le> unat (2 :: u32)"
proof -
  have "origin_permits (reg_origin (sample_config 2 100000000 1)) (attempt (10 ^ 30) 0 sample_world)
      \<le> unat (concurrency (configuration (sample_config 2 100000000 1)))"
    by (rule admission_respects_concurrency [OF sample_world_reachable _ sample_grant])
      (simp_all add: sample_world_def sample_config_def)
  then show ?thesis by (simp add: sample_config_def)
qed

theorem admission_respects_deadlines_witness:
  "(sample_origin, 1000000000) \<in> set (obligations sample_world) \<and> 1000000000 \<le> clock sample_world"
proof -
  have "1000000000 \<le> clock sample_world"
    by (rule admission_respects_deadlines [OF sample_world_reachable _ sample_grant])
      (simp_all add: sample_world_def sample_config_def)
  then show ?thesis by (simp add: sample_world_def)
qed

theorem registry_bounded_and_shared_witness:
  "length (states (registry sample_world)) \<le> 4
   \<and> list_all (\<lambda>r. bm_lookup (states (registry sample_world)) (reg_origin r) = Some (reg_state r)) (live sample_world)"
  using registry_bounded_and_shared [OF sample_world_reachable] by (simp add: list_all_iff)

theorem clock_overflow_keeps_slot_witness:
  "unat (in_flight (snd (admission_attempt 5 10 0 (add_registration 1 1 default_pacing_state)))) = 1"
proof -
  have "admission_attempt 5 10 0 (add_registration 1 1 default_pacing_state) =
      (Inl ClockOverflow, add_registration 1 1 (default_pacing_state\<lparr>in_flight := 1\<rparr>))"
    by (simp add: run_defs Let_def)
  from clock_overflow_keeps_slot [OF this] show ?thesis
    by (simp add: run_defs Let_def)
qed

end
