(* ===== verification/Network_Policy.thy ===== *)
theory Network_Policy
  imports Url_Api Ordered_Map
begin

text \<open>
  The outbound network policy (\<open>crates/erabi-crawler/src/network_policy.rs\<close>): which addresses
  are public unicast, the structural checks on a URL, and the validation of every DNS answer.
  The resolver is a parameter that returns an answer or times out.  The reference for the
  address tests is the list of special-use prefixes, read on the address as one number.
\<close>

section \<open>Addresses\<close>

datatype IpAddr = V4 Ipv4Addr | V6 Ipv6Addr

fun octets :: "Ipv4Addr \<Rightarrow> nat list" where
  "octets (Ipv4Addr a b c d) = [unat a, unat b, unat c, unat d]"

fun segments :: "Ipv6Addr \<Rightarrow> nat list" where
  "segments (Ipv6Addr a b c d e f g h) =
     [unat a, unat b, unat c, unat d, unat e, unat f, unat g, unat h]"

fun ip_key :: "IpAddr \<Rightarrow> nat list" where
  "ip_key (V4 a) = 0 # octets a"
| "ip_key (V6 a) = 1 # segments a"

lemma ip_key_inj [simp]: "ip_key a = ip_key b \<longleftrightarrow> a = b"
proof (cases a; cases b)
  fix x y assume "a = V4 x" "b = V4 y" then show ?thesis by (cases x; cases y) (simp add: word_unat_eq_iff)
next
  fix x y assume "a = V6 x" "b = V6 y" then show ?thesis by (cases x; cases y) (simp add: word_unat_eq_iff)
qed auto

text \<open>The derived \<open>Ord\<close>: version 4 before version 6, then the octets or segments in order.\<close>

instantiation IpAddr :: linorder
begin

definition less_eq_IpAddr :: "IpAddr \<Rightarrow> IpAddr \<Rightarrow> bool" where
  "less_eq_IpAddr a b \<longleftrightarrow> ip_key a \<le> ip_key b"

definition less_IpAddr :: "IpAddr \<Rightarrow> IpAddr \<Rightarrow> bool" where
  "less_IpAddr a b \<longleftrightarrow> ip_key a < ip_key b"

instance
  by standard (auto simp: less_eq_IpAddr_def less_IpAddr_def less_le_not_le dest: order.antisym)

end

type_synonym SocketAddr = "IpAddr \<times> u16"

fun is_public_ipv4 :: "Ipv4Addr \<Rightarrow> bool" where
  "is_public_ipv4 (Ipv4Addr first second third fourth) \<longleftrightarrow>
     \<not> (first = 0
      \<or> first = 10
      \<or> (first = 100 \<and> 64 \<le> second \<and> second \<le> 127)
      \<or> first = 127
      \<or> (first = 169 \<and> second = 254)
      \<or> (first = 172 \<and> 16 \<le> second \<and> second \<le> 31)
      \<or> (first = 192 \<and> second = 0 \<and> third = 0)
      \<or> (first = 192 \<and> second = 0 \<and> third = 2)
      \<or> (first = 192 \<and> second = 168)
      \<or> (first = 192 \<and> second = 88 \<and> third = 99)
      \<or> (first = 198 \<and> 18 \<le> second \<and> second \<le> 19)
      \<or> (first = 198 \<and> second = 51 \<and> third = 100)
      \<or> (first = 203 \<and> second = 0 \<and> third = 113)
      \<or> first \<ge> 224)"

fun is_public_ipv6 :: "Ipv6Addr \<Rightarrow> bool" where
  "is_public_ipv6 (Ipv6Addr a b c d e f g h) \<longleftrightarrow>
     \<not> ((a = 0 \<and> b = 0 \<and> c = 0 \<and> d = 0 \<and> e = 0 \<and> f = 0 \<and> g = 0 \<and> h = 0)
      \<or> (a = 0 \<and> b = 0 \<and> c = 0 \<and> d = 0 \<and> e = 0 \<and> f = 0 \<and> g = 0 \<and> h = 1)
      \<or> a AND 0xff00 = 0xff00
      \<or> (a = 0 \<and> b = 0 \<and> c = 0 \<and> d = 0 \<and> e = 0 \<and> f = 0)
      \<or> (a = 0 \<and> b = 0 \<and> c = 0 \<and> d = 0 \<and> e = 0 \<and> f = 0xffff)
      \<or> (a = 0x64 \<and> b = 0xff9b \<and> c = 0 \<and> d = 0 \<and> e = 0 \<and> f = 0)
      \<or> (a = 0x64 \<and> b = 0xff9b \<and> c = 1)
      \<or> (a = 0x100 \<and> b = 0 \<and> c = 0 \<and> d = 0)
      \<or> (a = 0x2001 \<and> b \<le> 0x01ff)
      \<or> a = 0x2002
      \<or> (a = 0x2001 \<and> b = 0xdb8)
      \<or> (a = 0x3fff \<and> b \<le> 0x0fff)
      \<or> a = 0x5f00
      \<or> a AND 0xfe00 = 0xfc00
      \<or> a AND 0xffc0 = 0xfe80)"

fun is_public_unicast :: "IpAddr \<Rightarrow> bool" where
  "is_public_unicast (V4 a) = is_public_ipv4 a"
| "is_public_unicast (V6 a) = is_public_ipv6 a"

section \<open>Special-use prefixes\<close>

text \<open>An address as one number, and membership in \<open>base/len\<close> among numbers of \<open>w\<close> bits.\<close>

definition number_of :: "nat \<Rightarrow> nat list \<Rightarrow> nat" where
  "number_of base xs = foldl (\<lambda>acc x. acc * base + x) 0 xs"

definition in_prefix :: "nat \<Rightarrow> nat \<Rightarrow> nat \<times> nat \<Rightarrow> bool" where
  "in_prefix w n p = (case p of (b, len) \<Rightarrow> n div 2 ^ (w - len) = b div 2 ^ (w - len))"

definition v4_prefix :: "nat list \<Rightarrow> nat \<Rightarrow> nat \<times> nat" where
  "v4_prefix os len = (number_of 256 os, len)"

definition v6_prefix :: "nat list \<Rightarrow> nat \<Rightarrow> nat \<times> nat" where
  "v6_prefix ss len = (number_of 65536 ss, len)"

definition special_use_v4 :: "(nat \<times> nat) list" where
  "special_use_v4 =
     [v4_prefix [0, 0, 0, 0] 8, v4_prefix [10, 0, 0, 0] 8, v4_prefix [100, 64, 0, 0] 10,
      v4_prefix [127, 0, 0, 0] 8, v4_prefix [169, 254, 0, 0] 16, v4_prefix [172, 16, 0, 0] 12,
      v4_prefix [192, 0, 0, 0] 24, v4_prefix [192, 0, 2, 0] 24, v4_prefix [192, 168, 0, 0] 16,
      v4_prefix [192, 88, 99, 0] 24, v4_prefix [198, 18, 0, 0] 15, v4_prefix [198, 51, 100, 0] 24,
      v4_prefix [203, 0, 113, 0] 24, v4_prefix [224, 0, 0, 0] 4, v4_prefix [240, 0, 0, 0] 4]"

definition special_use_v6 :: "(nat \<times> nat) list" where
  "special_use_v6 =
     [v6_prefix [0, 0, 0, 0, 0, 0, 0, 0] 96, v6_prefix [0, 0, 0, 0, 0, 0xffff, 0, 0] 96,
      v6_prefix [0x64, 0xff9b, 0, 0, 0, 0, 0, 0] 96, v6_prefix [0x64, 0xff9b, 1, 0, 0, 0, 0, 0] 48,
      v6_prefix [0x100, 0, 0, 0, 0, 0, 0, 0] 64, v6_prefix [0x2001, 0, 0, 0, 0, 0, 0, 0] 23,
      v6_prefix [0x2001, 0xdb8, 0, 0, 0, 0, 0, 0] 32, v6_prefix [0x2002, 0, 0, 0, 0, 0, 0, 0] 16,
      v6_prefix [0x3fff, 0, 0, 0, 0, 0, 0, 0] 20, v6_prefix [0x5f00, 0, 0, 0, 0, 0, 0, 0] 16,
      v6_prefix [0xfc00, 0, 0, 0, 0, 0, 0, 0] 7, v6_prefix [0xfe80, 0, 0, 0, 0, 0, 0, 0] 10,
      v6_prefix [0xff00, 0, 0, 0, 0, 0, 0, 0] 8]"

fun special_use :: "IpAddr \<Rightarrow> bool" where
  "special_use (V4 a) \<longleftrightarrow> list_ex (in_prefix 32 (number_of 256 (octets a))) special_use_v4"
| "special_use (V6 a) \<longleftrightarrow> list_ex (in_prefix 128 (number_of 65536 (segments a))) special_use_v6"

lemma number_of_snoc: "number_of B (xs @ [x]) = number_of B xs * B + x"
  by (simp add: number_of_def)

lemma number_of_append_div:
  "(\<forall>y \<in> set ys. y < B) \<Longrightarrow> number_of B (xs @ ys) div B ^ length ys = number_of B xs"
proof (induction ys rule: rev_induct)
  case (snoc y ys)
  have "number_of B (xs @ ys @ [y]) div (B * B ^ length ys) = number_of B (xs @ ys) div B ^ length ys"
    using snoc.prems number_of_snoc [of B "xs @ ys" y] by (simp add: div_mult2_eq)
  with snoc show ?case by simp
qed simp

lemma digit_eq:
  assumes "x < B" "z < (B :: nat)"
  shows "n * B + x = n' * B + z \<longleftrightarrow> n = n' \<and> x = z"
proof
  assume eq: "n * B + x = n' * B + z"
  then have "(n * B + x) div B = (n' * B + z) div B" by simp
  with assms have "n = n'" by simp
  with eq show "n = n' \<and> x = z" by simp
qed simp

lemma number_of_inj:
  "length xs = length xs' \<Longrightarrow> \<forall>x \<in> set xs \<union> set xs'. x < B \<Longrightarrow>
   number_of B xs = number_of B xs' \<longleftrightarrow> xs = xs'"
proof (induction xs arbitrary: xs' rule: rev_induct)
  case (snoc x xs)
  then obtain zs z where xs': "xs' = zs @ [z]" by (metis length_append_singleton length_0_conv rev_exhaust nat.distinct(1))
  have lt: "x < B" "z < B" using snoc.prems xs' by auto
  have "number_of B xs = number_of B zs \<longleftrightarrow> xs = zs" using snoc xs' by auto
  with digit_eq [OF lt] show ?case by (simp add: xs' number_of_snoc)
qed simp

lemma prefix_digits:
  assumes "length xs = length xs'" "length ys = length ys'" "k \<le> m"
    and "\<forall>z \<in> set xs \<union> set ys \<union> set xs' \<union> set ys' \<union> {x, x'}. z < 2 ^ m"
  shows "number_of (2 ^ m) (xs @ x # ys) div 2 ^ (m * length ys + k) =
      number_of (2 ^ m) (xs' @ x' # ys') div 2 ^ (m * length ys + k)
    \<longleftrightarrow> xs = xs' \<and> x div 2 ^ k = x' div 2 ^ k"
proof -
  have step: "number_of (2 ^ m) (us @ u # vs) div 2 ^ (m * length vs + k) =
      number_of (2 ^ m) us * 2 ^ (m - k) + u div 2 ^ k" if "\<forall>v \<in> set vs. v < 2 ^ m" for us vs and u :: nat
  proof -
    have "number_of (2 ^ m) (us @ u # vs) div (2 ^ m) ^ length vs = number_of (2 ^ m) (us @ [u])"
      using number_of_append_div [OF that, of "us @ [u]"] by simp
    then have "number_of (2 ^ m) (us @ u # vs) div 2 ^ (m * length vs + k) =
        (number_of (2 ^ m) us * 2 ^ m + u) div 2 ^ k"
      by (simp add: power_add div_mult2_eq power_mult number_of_snoc)
    moreover have "number_of (2 ^ m) us * 2 ^ m = number_of (2 ^ m) us * 2 ^ (m - k) * 2 ^ k"
      using assms(3) by (simp add: mult.assoc flip: power_add)
    ultimately show ?thesis by simp
  qed
  have lt: "u div 2 ^ k < 2 ^ (m - k)" if "u < 2 ^ m" for u :: nat
    using that assms(3) by (simp add: less_mult_imp_div_less flip: power_add)
  have "number_of (2 ^ m) xs * 2 ^ (m - k) + x div 2 ^ k = number_of (2 ^ m) xs' * 2 ^ (m - k) + x' div 2 ^ k
    \<longleftrightarrow> number_of (2 ^ m) xs = number_of (2 ^ m) xs' \<and> x div 2 ^ k = x' div 2 ^ k"
    using assms(4) by (intro digit_eq lt) auto
  moreover have "number_of (2 ^ m) xs = number_of (2 ^ m) xs' \<longleftrightarrow> xs = xs'"
    using assms(1,4) by (intro number_of_inj) auto
  ultimately show ?thesis
    using step [of ys xs x] step [of ys' xs' x'] assms by simp
qed

lemma in_prefix_digits:
  assumes "w = m * (length xs + 1 + length ys)" "len = m * length xs + j" "j \<le> m"
    and "length xs = length xs'" "length ys = length ys'"
    and "\<forall>z \<in> set xs \<union> set ys \<union> set xs' \<union> set ys' \<union> {x, x'}. z < 2 ^ m"
  shows "in_prefix w (number_of (2 ^ m) (xs @ x # ys)) (number_of (2 ^ m) (xs' @ x' # ys'), len)
    \<longleftrightarrow> xs = xs' \<and> x div 2 ^ (m - j) = x' div 2 ^ (m - j)"
proof -
  have "w - len = m * length ys + (m - j)" using assms(1-3) by (simp add: algebra_simps)
  then show ?thesis using prefix_digits [of xs xs' ys ys' "m - j" m x x'] assms(4-6) by (simp add: in_prefix_def)
qed

lemmas v4_digits = in_prefix_digits [where m = 8 and w = 32, simplified]
lemmas v6_digits = in_prefix_digits [where m = 16 and w = 128, simplified]

lemma u8_lt [simp]: "unat (x :: u8) < 256" and u16_lt [simp]: "unat (y :: u16) < 65536"
  using unsigned_less [of x, where 'a = nat] unsigned_less [of y, where 'a = nat] by simp_all

text \<open>Membership of an address in a table prefix, by octet and by segment.\<close>

lemma v4_member:
  fixes a b c d :: u8 and a' b' c' d' :: nat
  defines "n \<equiv> number_of 256 [unat a, unat b, unat c, unat d]"
  assumes "a' < 256" "b' < 256" "c' < 256" "d' < 256"
  shows "j \<le> 8 \<Longrightarrow> in_prefix 32 n (v4_prefix [a', b', c', d'] j) \<longleftrightarrow> unat a div 2 ^ (8 - j) = a' div 2 ^ (8 - j)"
    and "j \<le> 8 \<Longrightarrow> in_prefix 32 n (v4_prefix [a', b', c', d'] (8 + j)) \<longleftrightarrow>
      unat a = a' \<and> unat b div 2 ^ (8 - j) = b' div 2 ^ (8 - j)"
    and "j \<le> 8 \<Longrightarrow> in_prefix 32 n (v4_prefix [a', b', c', d'] (16 + j)) \<longleftrightarrow>
      unat a = a' \<and> unat b = b' \<and> unat c div 2 ^ (8 - j) = c' div 2 ^ (8 - j)"
  using assms(2-)
    v4_digits [of "[]" "[unat b, unat c, unat d]" _ j "[]" "[b', c', d']" "unat a" a']
    v4_digits [of "[unat a]" "[unat c, unat d]" _ j "[a']" "[c', d']" "unat b" b']
    v4_digits [of "[unat a, unat b]" "[unat d]" _ j "[a', b']" "[d']" "unat c" c']
  by (simp_all add: n_def v4_prefix_def)

lemma v6_member:
  fixes a b c d e f g h :: u16 and ss :: "nat list"
  defines "n \<equiv> number_of 65536 [unat a, unat b, unat c, unat d, unat e, unat f, unat g, unat h]"
  assumes "\<forall>z \<in> set [a', b', c', d', e', f', g', h']. z < 65536"
  shows "j \<le> 16 \<Longrightarrow> in_prefix 128 n (v6_prefix [a', b', c', d', e', f', g', h'] j) \<longleftrightarrow>
      unat a div 2 ^ (16 - j) = a' div 2 ^ (16 - j)"
    and "j \<le> 16 \<Longrightarrow> in_prefix 128 n (v6_prefix [a', b', c', d', e', f', g', h'] (16 + j)) \<longleftrightarrow>
      unat a = a' \<and> unat b div 2 ^ (16 - j) = b' div 2 ^ (16 - j)"
    and "in_prefix 128 n (v6_prefix [a', b', c', d', e', f', g', h'] 48) \<longleftrightarrow>
      unat a = a' \<and> unat b = b' \<and> unat c = c'"
    and "in_prefix 128 n (v6_prefix [a', b', c', d', e', f', g', h'] 64) \<longleftrightarrow>
      unat a = a' \<and> unat b = b' \<and> unat c = c' \<and> unat d = d'"
    and "in_prefix 128 n (v6_prefix [a', b', c', d', e', f', g', h'] 96) \<longleftrightarrow>
      unat a = a' \<and> unat b = b' \<and> unat c = c' \<and> unat d = d' \<and> unat e = e' \<and> unat f = f'"
  using assms(2)
    v6_digits [of "[]" "[unat b, unat c, unat d, unat e, unat f, unat g, unat h]" _ j "[]"
      "[b', c', d', e', f', g', h']" "unat a" a']
    v6_digits [of "[unat a]" "[unat c, unat d, unat e, unat f, unat g, unat h]" _ j "[a']"
      "[c', d', e', f', g', h']" "unat b" b']
    v6_digits [of "[unat a, unat b]" "[unat d, unat e, unat f, unat g, unat h]" _ 16 "[a', b']"
      "[d', e', f', g', h']" "unat c" c']
    v6_digits [of "[unat a, unat b, unat c]" "[unat e, unat f, unat g, unat h]" _ 16 "[a', b', c']"
      "[e', f', g', h']" "unat d" d']
    v6_digits [of "[unat a, unat b, unat c, unat d, unat e]" "[unat g, unat h]" _ 16
      "[a', b', c', d', e']" "[g', h']" "unat f" f']
  by (simp_all add: n_def v6_prefix_def)

lemma and_high_mask:
  "(x :: u16) AND 0xfe00 = 0xfc00 \<longleftrightarrow> unat x div 512 = 126"
  "(x :: u16) AND 0xffc0 = 0xfe80 \<longleftrightarrow> unat x div 64 = 1018"
  "(x :: u16) AND 0xff00 = 0xff00 \<longleftrightarrow> unat x div 256 = 255"
proof -
  have m: "NOT (mask 9 :: u16) = 0xfe00" "NOT (mask 6 :: u16) = 0xffc0" "NOT (mask 8 :: u16) = 0xff00"
    by (simp_all add: mask_eq_exp_minus_1)
  show "x AND 0xfe00 = 0xfc00 \<longleftrightarrow> unat x div 512 = 126"
    using unat_and_not_mask [of x 9] by (simp add: m word_unat_eq_iff [of _ "0xfc00"])
  show "x AND 0xffc0 = 0xfe80 \<longleftrightarrow> unat x div 64 = 1018"
    using unat_and_not_mask [of x 6] by (simp add: m word_unat_eq_iff [of _ "0xfe80"])
  show "x AND 0xff00 = 0xff00 \<longleftrightarrow> unat x div 256 = 255"
    using unat_and_not_mask [of x 8] by (simp add: m word_unat_eq_iff [of _ "0xff00"])
qed

lemma special_use_v4_octets:
  "special_use (V4 (Ipv4Addr a b c d)) \<longleftrightarrow>
     unat a = 0 \<or> unat a = 10 \<or> (unat a = 100 \<and> unat b div 64 = 1) \<or> unat a = 127
   \<or> (unat a = 169 \<and> unat b = 254) \<or> (unat a = 172 \<and> unat b div 16 = 1)
   \<or> (unat a = 192 \<and> unat b = 0 \<and> unat c = 0) \<or> (unat a = 192 \<and> unat b = 0 \<and> unat c = 2)
   \<or> (unat a = 192 \<and> unat b = 168) \<or> (unat a = 192 \<and> unat b = 88 \<and> unat c = 99)
   \<or> (unat a = 198 \<and> unat b div 2 = 9) \<or> (unat a = 198 \<and> unat b = 51 \<and> unat c = 100)
   \<or> (unat a = 203 \<and> unat b = 0 \<and> unat c = 113) \<or> unat a div 16 = 14 \<or> unat a div 16 = 15"
  using v4_member(1) [of _ _ _ _ 8 a b c d] v4_member(1) [of _ _ _ _ 4 a b c d]
    v4_member(2) [of _ _ _ _ 2 a b c d] v4_member(2) [of _ _ _ _ 8 a b c d]
    v4_member(2) [of _ _ _ _ 4 a b c d] v4_member(2) [of _ _ _ _ 7 a b c d]
    v4_member(3) [of _ _ _ _ 8 a b c d]
  by (simp add: special_use_v4_def)

lemma public_ipv4_prefixes:
  "is_public_ipv4 x \<longleftrightarrow> \<not> special_use (V4 x)"
proof (cases x)
  case (Ipv4Addr a b c d)
  have div: "n div 64 = 1 \<longleftrightarrow> 64 \<le> n \<and> n \<le> 127" "n div 16 = 1 \<longleftrightarrow> 16 \<le> n \<and> n \<le> 31"
    "n div 2 = 9 \<longleftrightarrow> 18 \<le> n \<and> n \<le> 19" for n :: nat by auto
  have top: "unat a div 16 = 14 \<or> unat a div 16 = 15 \<longleftrightarrow> 224 \<le> unat a"
    using u8_lt [of a] by linarith
  show ?thesis
    by (simp only: Ipv4Addr special_use_v4_octets div top is_public_ipv4.simps word_unat_eq_iff word_le_nat_alt)
      simp
qed

lemma special_use_v6_segments:
  "special_use (V6 (Ipv6Addr a b c d e f g h)) \<longleftrightarrow>
     (unat a = 0 \<and> unat b = 0 \<and> unat c = 0 \<and> unat d = 0 \<and> unat e = 0 \<and> unat f = 0)
   \<or> (unat a = 0 \<and> unat b = 0 \<and> unat c = 0 \<and> unat d = 0 \<and> unat e = 0 \<and> unat f = 0xffff)
   \<or> (unat a = 0x64 \<and> unat b = 0xff9b \<and> unat c = 0 \<and> unat d = 0 \<and> unat e = 0 \<and> unat f = 0)
   \<or> (unat a = 0x64 \<and> unat b = 0xff9b \<and> unat c = 1)
   \<or> (unat a = 0x100 \<and> unat b = 0 \<and> unat c = 0 \<and> unat d = 0)
   \<or> (unat a = 0x2001 \<and> unat b div 512 = 0) \<or> (unat a = 0x2001 \<and> unat b = 0xdb8)
   \<or> unat a = 0x2002 \<or> (unat a = 0x3fff \<and> unat b div 4096 = 0) \<or> unat a = 0x5f00
   \<or> unat a div 512 = 126 \<or> unat a div 64 = 1018 \<or> unat a div 256 = 255"
  using v6_member(1) [of _ _ _ _ _ _ _ _ 16 a b c d e f g h] v6_member(1) [of _ _ _ _ _ _ _ _ 7 a b c d e f g h]
    v6_member(1) [of _ _ _ _ _ _ _ _ 10 a b c d e f g h] v6_member(1) [of _ _ _ _ _ _ _ _ 8 a b c d e f g h]
    v6_member(2) [of _ _ _ _ _ _ _ _ 7 a b c d e f g h] v6_member(2) [of _ _ _ _ _ _ _ _ 16 a b c d e f g h]
    v6_member(2) [of _ _ _ _ _ _ _ _ 4 a b c d e f g h]
    v6_member(3-5) [of _ _ _ _ _ _ _ _ a b c d e f g h]
  by (simp add: special_use_v6_def)

lemma public_ipv6_prefixes:
  "is_public_ipv6 x \<longleftrightarrow> \<not> special_use (V6 x)"
proof (cases x)
  case (Ipv6Addr a b c d e f g h)
  have div: "n div 512 = 0 \<longleftrightarrow> n \<le> 511" "n div 4096 = 0 \<longleftrightarrow> n \<le> 4095" for n :: nat by auto
  have u: "(y :: u16) = n \<longleftrightarrow> unat y = unat n" "y \<le> n \<longleftrightarrow> unat y \<le> unat n" for y n
    by (simp_all add: word_unat_eq_iff word_le_nat_alt)
  have n: "unat (0 :: u16) = 0" "unat (1 :: u16) = 1" "unat (0xffff :: u16) = 0xffff" "unat (0x64 :: u16) = 0x64"
    "unat (0xff9b :: u16) = 0xff9b" "unat (0x100 :: u16) = 0x100" "unat (0x2001 :: u16) = 0x2001"
    "unat (0x1ff :: u16) = 511" "unat (0xdb8 :: u16) = 0xdb8" "unat (0x2002 :: u16) = 0x2002"
    "unat (0x3fff :: u16) = 0x3fff" "unat (0xfff :: u16) = 4095" "unat (0x5f00 :: u16) = 0x5f00"
    by simp_all
  show ?thesis
    unfolding Ipv6Addr special_use_v6_segments is_public_ipv6.simps and_high_mask div
    unfolding u n by argo
qed

text \<open>
  C27. The address tests are exactly the special-use registry: an address is accepted as public
  unicast if and only if no special-use prefix (loopback, private, link-local, shared,
  documentation, benchmarking, multicast, reserved, mapped, translated) contains it.
\<close>
theorem public_unicast_iff_not_special_use:
  "is_public_unicast ip \<longleftrightarrow> \<not> special_use ip"
  by (cases ip) (simp_all only: is_public_unicast.simps public_ipv4_prefixes public_ipv6_prefixes)

section \<open>Targets\<close>

datatype NetworkTargetError =
    NetUnsupportedScheme
  | NetMissingHost
  | CredentialsNotAllowed
  | FragmentNotAllowed
  | InvalidPort
  | ProhibitedLiteralAddress
  | ResolutionFailed
  | ResolutionTimedOut
  | EmptyResolution
  | TooManyAddresses
  | ProhibitedResolvedAddress

datatype NetworkResolveError = ResolveFailed | ResolveTooManyAddresses

datatype resolution = TimedOut | Answered "NetworkResolveError + SocketAddr list"

definition DEFAULT_NETWORK_RESOLUTION_ADDRESS_LIMIT :: nat where
  "DEFAULT_NETWORK_RESOLUTION_ADDRESS_LIMIT = 16"

text \<open>The system resolver's loop over the answers of \<open>lookup_host\<close> (\<open>None\<close>: the lookup failed).\<close>

fun collect_answers :: "SocketAddr list \<Rightarrow> SocketAddr list \<Rightarrow> NetworkResolveError + SocketAddr list" where
  "collect_answers acc [] = Inr acc"
| "collect_answers acc (x # xs) =
     (if length acc \<ge> DEFAULT_NETWORK_RESOLUTION_ADDRESS_LIMIT then Inl ResolveTooManyAddresses
      else collect_answers (acc @ [x]) xs)"

definition system_resolve ::
  "(string \<Rightarrow> u16 \<Rightarrow> SocketAddr list option) \<Rightarrow> string \<Rightarrow> u16 \<Rightarrow> NetworkResolveError + SocketAddr list" where
  "system_resolve lookup_host host port =
     (case lookup_host host port of None \<Rightarrow> Inl ResolveFailed | Some xs \<Rightarrow> collect_answers [] xs)"

text \<open>The deterministic resolver of fixtures.\<close>

definition static_resolve ::
  "(string, NetworkResolveError + SocketAddr list) bmap \<Rightarrow> string \<Rightarrow> u16 \<Rightarrow> NetworkResolveError + SocketAddr list" where
  "static_resolve answers host port =
     (case bm_lookup answers host of Some r \<Rightarrow> r | None \<Rightarrow> Inl ResolveFailed)"

definition with_address_limit :: "nat \<Rightarrow> nat" where
  "with_address_limit limit = min limit DEFAULT_NETWORK_RESOLUTION_ADDRESS_LIMIT"

definition validate_url_shape :: "'u url_api \<Rightarrow> 'u \<Rightarrow> NetworkTargetError + unit" where
  "validate_url_shape api url =
     (if \<not> is_http_scheme (url_scheme api url) then Inl NetUnsupportedScheme
      else if url_host_str api url = None then Inl NetMissingHost
      else if url_username api url \<noteq> [] \<or> url_password api url \<noteq> None then Inl CredentialsNotAllowed
      else if url_fragment api url \<noteq> None then Inl FragmentNotAllowed
      else Inr ())"

definition validate_url :: "'u url_api \<Rightarrow> 'u \<Rightarrow> NetworkTargetError + unit" where
  "validate_url api url =
     res_bind (validate_url_shape api url) (\<lambda>_.
       res_bind (ok_or (url_port_or_known_default api url) InvalidPort) (\<lambda>p.
         if p = 0 then Inl InvalidPort else Inr ()))"

text \<open>The loop that checks each answer and inserts it into the ordered set.\<close>

fun normalize_loop ::
  "u16 \<Rightarrow> (SocketAddr, unit) bmap \<Rightarrow> SocketAddr list \<Rightarrow> NetworkTargetError + (SocketAddr, unit) bmap" where
  "normalize_loop port acc [] = Inr acc"
| "normalize_loop port acc (x # xs) =
     (if \<not> is_public_unicast (fst x) then Inl ProhibitedResolvedAddress
      else normalize_loop port (bm_insert (fst x, port) () acc) xs)"

definition normalize_and_validate_addresses ::
  "SocketAddr list \<Rightarrow> u16 \<Rightarrow> nat \<Rightarrow> NetworkTargetError + SocketAddr list" where
  "normalize_and_validate_addresses addresses port address_limit =
     (if addresses = [] then Inl EmptyResolution
      else if address_limit = 0 \<or> length addresses > address_limit then Inl TooManyAddresses
      else res_bind (normalize_loop port [] addresses) (\<lambda>normalized.
        if normalized = [] then Inl EmptyResolution else Inr (bm_keys normalized)))"

record 'u ValidatedNetworkTarget =
  target_url :: 'u
  target_host :: string
  target_port :: u16
  target_addresses :: "SocketAddr list"

definition resolve_domain ::
  "(string \<Rightarrow> u16 \<Rightarrow> resolution) \<Rightarrow> nat \<Rightarrow> string \<Rightarrow> u16 \<Rightarrow> NetworkTargetError + SocketAddr list" where
  "resolve_domain resolver limit host port =
     (case resolver host port of
        TimedOut \<Rightarrow> Inl ResolutionTimedOut
      | Answered (Inl ResolveFailed) \<Rightarrow> Inl ResolutionFailed
      | Answered (Inl ResolveTooManyAddresses) \<Rightarrow> Inl TooManyAddresses
      | Answered (Inr xs) \<Rightarrow> normalize_and_validate_addresses xs port limit)"

definition validate_and_resolve ::
  "'u url_api \<Rightarrow> (string \<Rightarrow> u16 \<Rightarrow> resolution) \<Rightarrow> nat \<Rightarrow> 'u \<Rightarrow> NetworkTargetError + 'u ValidatedNetworkTarget" where
  "validate_and_resolve api resolver limit url =
     res_bind (validate_url api url) (\<lambda>_.
     res_bind (ok_or (url_host_str api url) NetMissingHost) (\<lambda>host.
     res_bind (ok_or (url_port_or_known_default api url) InvalidPort) (\<lambda>port.
     res_bind (case url_host api url of
         Some (HostIpv4 a) \<Rightarrow>
           if \<not> is_public_unicast (V4 a) then Inl ProhibitedLiteralAddress else Inr [(V4 a, port)]
       | Some (HostIpv6 a) \<Rightarrow>
           if \<not> is_public_unicast (V6 a) then Inl ProhibitedLiteralAddress else Inr [(V6 a, port)]
       | Some (HostDomain _) \<Rightarrow> resolve_domain resolver limit host port
       | None \<Rightarrow> Inl NetMissingHost) (\<lambda>addresses.
     Inr \<lparr>target_url = url, target_host = host, target_port = port, target_addresses = addresses\<rparr>))))"

section \<open>Outbound safety\<close>

lemma resolve_domain_Inr:
  "resolve_domain resolver limit h port = Inr ys \<longleftrightarrow>
     (\<exists>xs. resolver h port = Answered (Inr xs) \<and> normalize_and_validate_addresses xs port limit = Inr ys)"
proof (cases "resolver h port")
  case (Answered r)
  show ?thesis
  proof (cases r)
    case (Inl e)
    with Answered show ?thesis by (cases e) (simp_all add: resolve_domain_def)
  qed (simp add: resolve_domain_def Answered)
qed (simp add: resolve_domain_def)

lemma normalize_loop_spec:
  "bm_invar acc \<Longrightarrow> normalize_loop port acc xs = Inr m \<Longrightarrow>
   bm_invar m \<and> set (bm_keys m) = set (bm_keys acc) \<union> (\<lambda>x. (fst x, port)) ` set xs
     \<and> list_all (\<lambda>x. is_public_unicast (fst x)) xs"
proof (induction port acc xs rule: normalize_loop.induct)
  case (2 port acc x xs)
  have "set (bm_keys (bm_insert (fst x, port) () acc)) = insert (fst x, port) (set (bm_keys acc))"
    using keys_bm_insert [of "(fst x, port)" "()" acc] by (simp add: bm_keys_def)
  with 2 show ?case by (auto simp: bm_insert_invar split: if_splits)
qed simp

lemma normalized_addresses:
  assumes "normalize_and_validate_addresses xs port limit = Inr ys"
  shows "ys \<noteq> []" and "length ys \<le> limit" and "sorted_wrt (<) ys"
    and "set ys = (\<lambda>x. (fst x, port)) ` set xs"
    and "\<forall>y \<in> set ys. is_public_unicast (fst y) \<and> snd y = port"
proof -
  from assms obtain m where m: "normalize_loop port [] xs = Inr m" "m \<noteq> []" and ys: "ys = bm_keys m"
    and len: "length xs \<le> limit"
    by (auto simp: normalize_and_validate_addresses_def result_simps split: if_splits)
  note sp = normalize_loop_spec [OF bm_invar_Nil m(1)]
  show "ys \<noteq> []" using m ys by (simp add: bm_keys_def)
  show sorted: "sorted_wrt (<) ys" using sp ys by (simp add: bm_keys_def bm_invar_def)
  show set: "set ys = (\<lambda>x. (fst x, port)) ` set xs" using sp ys by (simp add: bm_keys_def)
  have "length ys = card (set ys)" using sorted by (simp add: strict_sorted_iff distinct_card)
  also have "\<dots> \<le> length xs" unfolding set by (rule order_trans [OF card_image_le card_length]) simp
  finally show "length ys \<le> limit" using len by simp
  show "\<forall>y \<in> set ys. is_public_unicast (fst y) \<and> snd y = port"
    using sp by (auto simp: set list_all_iff)
qed

text \<open>
  C10. Server-side request forgery is excluded: whatever the resolver answers, a validated target
  is an HTTP(S) URL without credentials or fragment, and it carries at least one and a bounded
  number of distinct addresses, none of them inside a special-use prefix, all with the URL's own
  non-zero port.
\<close>
theorem validated_target_is_public:
  assumes "validate_and_resolve api resolver limit url = Inr t"
  shows "target_url t = url \<and> is_http_scheme (url_scheme api url) \<and> url_username api url = []
    \<and> url_password api url = None \<and> url_fragment api url = None
    \<and> url_port_or_known_default api url = Some (target_port t) \<and> target_port t \<noteq> 0
    \<and> target_addresses t \<noteq> [] \<and> length (target_addresses t) \<le> max 1 limit
    \<and> distinct (target_addresses t)
    \<and> list_all (\<lambda>x. \<not> special_use (fst x) \<and> snd x = target_port t) (target_addresses t)"
proof -
  have public: "is_public_unicast ip \<longleftrightarrow> \<not> special_use ip" for ip
    by (cases ip) (simp_all only: is_public_unicast.simps public_ipv4_prefixes public_ipv6_prefixes)
  have shape: "is_http_scheme (url_scheme api url) \<and> url_username api url = []
      \<and> url_password api url = None \<and> url_fragment api url = None
      \<and> url_port_or_known_default api url = Some (target_port t) \<and> target_port t \<noteq> 0 \<and> target_url t = url"
    using assms
    by (auto simp: validate_and_resolve_def validate_url_def validate_url_shape_def result_simps split: if_splits)
  have "target_addresses t \<noteq> [] \<and> length (target_addresses t) \<le> max 1 limit \<and> distinct (target_addresses t)
    \<and> list_all (\<lambda>x. is_public_unicast (fst x) \<and> snd x = target_port t) (target_addresses t)"
  proof (cases "url_host api url")
    case None
    with assms show ?thesis by (auto simp: validate_and_resolve_def result_simps)
  next
    case (Some h)
    show ?thesis
    proof (cases h)
      case (HostDomain d)
      with Some obtain xs where
        xs: "normalize_and_validate_addresses xs (target_port t) limit = Inr (target_addresses t)"
        using assms
        by (auto simp: validate_and_resolve_def resolve_domain_Inr result_simps)
      from normalized_addresses [OF xs] show ?thesis
        by (auto simp: list_all_iff strict_sorted_iff)
    qed (use assms Some in \<open>auto simp: validate_and_resolve_def result_simps
          simp del: is_public_unicast.simps split: if_splits\<close>)
  qed
  with shape show ?thesis by (simp add: public)
qed

definition sample_resolver :: "string \<Rightarrow> u16 \<Rightarrow> resolution" where
  "sample_resolver host port =
     Answered (Inr [(V4 (Ipv4Addr 93 184 216 35), 9), (V4 (Ipv4Addr 93 184 216 34), 9)])"

theorem validated_target_is_public_witness:
  "\<exists>t. validate_and_resolve plain_api sample_resolver 16 (plain_https ''a.test'' ''/'') = Inr t
     \<and> target_addresses t = [(V4 (Ipv4Addr 93 184 216 34), 443), (V4 (Ipv4Addr 93 184 216 35), 443)]
     \<and> list_all (\<lambda>x. \<not> special_use (fst x) \<and> snd x = target_port t) (target_addresses t)"
proof -
  let ?t = "\<lparr>target_url = plain_https ''a.test'' ''/'', target_host = ''a.test'', target_port = 443,
    target_addresses = [(V4 (Ipv4Addr 93 184 216 34), 443), (V4 (Ipv4Addr 93 184 216 35), 443)]\<rparr>"
  have "validate_and_resolve plain_api sample_resolver 16 (plain_https ''a.test'' ''/'') = Inr ?t"
    by (simp add: validate_and_resolve_def validate_url_def validate_url_shape_def plain_api_def
        plain_https_def is_http_scheme_def plain_default_port_def resolve_domain_def sample_resolver_def
        normalize_and_validate_addresses_def bm_keys_def less_IpAddr_def)
  with validated_target_is_public [OF this] show ?thesis by simp
qed

text \<open>
  Resolution is deterministic: the addresses handed to the client depend only on the set of
  answers, not on their order or multiplicity, and are in ascending order.
\<close>
theorem normalized_addresses_deterministic:
  assumes "normalize_and_validate_addresses xs port limit = Inr ys"
    and "set xs' = set xs" and "length xs' \<le> limit"
  shows "normalize_and_validate_addresses xs' port limit = Inr ys \<and> sorted ys"
proof -
  from assms obtain m where m: "normalize_loop port [] xs = Inr m" and ys: "ys = bm_keys m"
    and lim: "limit \<noteq> 0" "xs \<noteq> []" "m \<noteq> []"
    by (auto simp: normalize_and_validate_addresses_def result_simps split: if_splits)
  have ok: "\<exists>m'. normalize_loop port acc zs = Inr m'" if "list_all (\<lambda>x. is_public_unicast (fst x)) zs" for acc zs
    using that by (induction port acc zs rule: normalize_loop.induct) auto
  have "list_all (\<lambda>x. is_public_unicast (fst x)) xs'"
    using normalize_loop_spec [OF bm_invar_Nil m] assms(2) by (simp add: list_all_iff)
  then obtain m' where m': "normalize_loop port [] xs' = Inr m'" using ok by blast
  note s = normalize_loop_spec [OF bm_invar_Nil m] and s' = normalize_loop_spec [OF bm_invar_Nil m']
  have "bm_keys m' = bm_keys m"
    using s s' assms(2) by (intro strict_sorted_equal) (auto simp: bm_invar_def bm_keys_def)
  moreover have "m' \<noteq> []" using calculation lim(3) by (auto simp: bm_keys_def)
  ultimately show ?thesis
    using lim assms(2,3) m' ys s
    by (auto simp: normalize_and_validate_addresses_def bm_invar_def bm_keys_def strict_sorted_iff)
qed

theorem normalized_addresses_deterministic_witness:
  "normalize_and_validate_addresses
     [(V4 (Ipv4Addr 8 8 8 8), 1), (V4 (Ipv4Addr 2 2 2 2), 1), (V4 (Ipv4Addr 8 8 8 8), 1)] 443 16 =
   Inr [(V4 (Ipv4Addr 2 2 2 2), 443), (V4 (Ipv4Addr 8 8 8 8), 443)]"
proof -
  have "normalize_and_validate_addresses [(V4 (Ipv4Addr 2 2 2 2), 1), (V4 (Ipv4Addr 8 8 8 8), 1)] 443 16 =
      Inr [(V4 (Ipv4Addr 2 2 2 2), 443), (V4 (Ipv4Addr 8 8 8 8), 443)]"
    by (simp add: normalize_and_validate_addresses_def bm_keys_def less_IpAddr_def)
  from normalized_addresses_deterministic [OF this] show ?thesis by (simp add: insert_commute)
qed

end
