(* ===== verification/Snapshot.thy ===== *)
theory Snapshot
  imports Domain_Base
begin

text \<open>
  Run snapshots (\<open>crates/erabi-domain/src/crawl_snapshot.rs\<close>): the frozen settings, the robots
  audit, validation of a draft, the two hashes and rehydration; canonical JSON text with sorted
  object keys; and the completeness decision of \<open>complete_snapshot.rs\<close>.  Serialisation of a value
  to JSON (\<open>serde_json::to_value\<close>), the quoting of a string (\<open>serde_json::to_string\<close>) and
  SHA-256 come from other crates and are parameters.
\<close>

section \<open>Canonical JSON\<close>

datatype json =
    JNull
  | JBool bool
  | JNumber string
  | JString string
  | JArray "json list"
  | JObject "(string \<times> json) list"

text \<open>Numbers are carried as their printed text.\<close>

definition join_str :: "string \<Rightarrow> string list \<Rightarrow> string" where
  "join_str sep xs = (case xs of [] \<Rightarrow> [] | x # ys \<Rightarrow> x @ concat (map (\<lambda>y. sep @ y) ys))"

fun write_canonical_json :: "(string \<Rightarrow> string) \<Rightarrow> json \<Rightarrow> string" where
  "write_canonical_json quote JNull = ''null''"
| "write_canonical_json quote (JBool b) = (if b then ''true'' else ''false'')"
| "write_canonical_json quote (JNumber n) = n"
| "write_canonical_json quote (JString s) = quote s"
| "write_canonical_json quote (JArray vs) =
     ''['' @ join_str '','' (map (write_canonical_json quote) vs) @ '']''"
| "write_canonical_json quote (JObject kvs) =
     ''{'' @ join_str '','' (map (\<lambda>(k, t). quote k @ '':'' @ t)
        (sort_key fst (map (\<lambda>(k, v). (k, write_canonical_json quote v)) kvs))) @ ''}''"

definition nibble_char :: "nat \<Rightarrow> char" where
  "nibble_char n = ''0123456789abcdef'' ! n"

definition hex_encode :: "u8 list \<Rightarrow> string" where
  "hex_encode bytes = concat (map (\<lambda>b. [nibble_char (unat (drop_bit 4 b)), nibble_char (unat (b AND 0x0f))]) bytes)"

definition canonical_sha256 ::
  "(string \<Rightarrow> string) \<Rightarrow> (string \<Rightarrow> u8 list) \<Rightarrow> json \<Rightarrow> string" where
  "canonical_sha256 quote sha256 v = hex_encode (sha256 (write_canonical_json quote v))"

text \<open>Two values that differ only in the order of object entries, at any depth.\<close>

inductive json_equiv :: "json \<Rightarrow> json \<Rightarrow> bool" where
  je_refl: "json_equiv v v"
| je_array: "list_all2 json_equiv vs ws \<Longrightarrow> json_equiv (JArray vs) (JArray ws)"
| je_object: "distinct (map fst kvs) \<Longrightarrow> mset kvs' = mset kvs \<Longrightarrow>
     list_all2 (\<lambda>p q. fst p = fst q \<and> json_equiv (snd p) (snd q)) kvs' lws \<Longrightarrow>
     json_equiv (JObject kvs) (JObject lws)"

lemma written_entries_eq:
  assumes "distinct (map fst kvs)" and "mset kvs' = mset kvs"
    and "list_all2 (\<lambda>p q. fst p = fst q \<and> w (snd p) = w (snd q)) kvs' lws"
  shows "sort_key fst (map (\<lambda>(k, v). (k, w v)) kvs) = sort_key fst (map (\<lambda>(k, v). (k, w v)) lws)"
proof -
  have "map (\<lambda>(k, v). (k, w v)) kvs' = map (\<lambda>(k, v). (k, w v)) lws"
    using assms(3) by (induction rule: list_all2_induct) auto
  then have "mset (map (\<lambda>(k, v). (k, w v)) kvs) = mset (map (\<lambda>(k, v). (k, w v)) lws)"
    using assms(2) by (metis mset_map)
  moreover have "inj_on fst (set (map (\<lambda>(k, v). (k, w v)) kvs))"
    using assms(1) by (induction kvs) (auto simp: inj_on_def rev_image_eqI)
  ultimately show ?thesis by (rule sort_key_perm_eq)
qed

text \<open>
  C35. The text that is hashed does not depend on the order in which object keys were inserted, at
  any nesting depth: semantically equal values have equal canonical text and equal hashes.
\<close>
theorem canonical_json_order_insensitive:
  assumes "json_equiv v w"
  shows "write_canonical_json quote v = write_canonical_json quote w
    \<and> canonical_sha256 quote sha256 v = canonical_sha256 quote sha256 w"
proof -
  have "write_canonical_json quote v = write_canonical_json quote w"
    using assms
  proof (induction rule: json_equiv.induct)
    case (je_array vs ws)
    then have "map (write_canonical_json quote) vs = map (write_canonical_json quote) ws"
      by (induction rule: list_all2_induct) auto
    then show ?case by simp
  next
    case (je_object kvs kvs' lws)
    then have "list_all2 (\<lambda>p q. fst p = fst q \<and>
        write_canonical_json quote (snd p) = write_canonical_json quote (snd q)) kvs' lws"
      by (auto elim: list_all2_mono)
    from written_entries_eq [OF je_object(1,2) this] show ?case by simp
  qed simp
  then show ?thesis by (simp add: canonical_sha256_def)
qed

theorem canonical_json_order_insensitive_witness:
  "write_canonical_json (\<lambda>s. s) (JObject [(''b'', JNull), (''a'', JNumber ''1'')]) = ''{a:1,b:null}''"
proof -
  have "json_equiv (JObject [(''b'', JNull), (''a'', JNumber ''1'')]) (JObject [(''a'', JNumber ''1''), (''b'', JNull)])"
    by (rule je_object [of _ "[(''a'', JNumber ''1''), (''b'', JNull)]"]) (auto intro: je_refl)
  from canonical_json_order_insensitive [OF this, of "\<lambda>s. s"] show ?thesis
    by (simp add: join_str_def)
qed

section \<open>Drafts and snapshots\<close>

definition MAX_ROBOTS_OVERRIDE_REASON_CHARS :: nat where
  "MAX_ROBOTS_OVERRIDE_REASON_CHARS = 1000"

datatype SnapshotError = InvalidSnapshot string | CanonicalSerialization

record SnapshotOperationalSettings =
  max_pages_setting :: "u64 ResolvedValue"
  max_depth_setting :: "u32 ResolvedValue"
  max_duration_seconds_setting :: "u64 ResolvedValue"
  concurrency_setting :: "u32 ResolvedValue"
  request_delay_ms_setting :: "u64 ResolvedValue"
  timeout_ms_setting :: "u64 ResolvedValue"
  screenshot_setting :: "bool ResolvedValue"
  asset_download_limit_bytes_setting :: "u64 ResolvedValue"
  retain_artifacts_setting :: "bool ResolvedValue"
  user_agent_setting :: "string ResolvedValue"

datatype 'u RunConfiguration =
    CrawlerVersionConfiguration CrawlerId CrawlerVersionId string
  | QuickScrapeConfiguration 'u "(string \<times> json) list"

datatype RobotsDecision = Respect | Override string

record RobotsAudit =
  audit_decision :: RobotsDecision
  audit_actor :: string
  decided_at :: string
  affected_scope :: string
  audit_user_agent :: string
  audit_crawler_version_id :: "CrawlerVersionId option"

record 'u CrawlRunSnapshotDraft =
  run_type :: CrawlRunType
  run_configuration :: "'u RunConfiguration"
  selected_seed_ids :: "SeedId list"
  run_profile_id :: "RunProfileId option"
  settings :: SnapshotOperationalSettings
  robots :: RobotsAudit
  run_actor :: string
  created_at :: string

record 'u CrawlRunSnapshot =
  frozen :: "'u CrawlRunSnapshotDraft"
  snapshot_hash :: string
  checkpoint_compatibility_hash :: string

definition require_non_empty :: "string \<Rightarrow> string \<Rightarrow> SnapshotError + unit" where
  "require_non_empty label v =
     (if blank v then Inl (InvalidSnapshot (label @ '' must not be empty'')) else Inr ())"

definition reason_too_long :: string where
  "reason_too_long = ''robots override reason must not exceed 1000 characters''"

definition audit_respect ::
  "string \<Rightarrow> string \<Rightarrow> string \<Rightarrow> string \<Rightarrow> CrawlerVersionId option \<Rightarrow> RobotsAudit" where
  "audit_respect actor at scope ua version =
     \<lparr>audit_decision = Respect, audit_actor = actor, decided_at = at, affected_scope = scope,
      audit_user_agent = ua, audit_crawler_version_id = version\<rparr>"

definition override_with_reason ::
  "string \<Rightarrow> string \<Rightarrow> string \<Rightarrow> string \<Rightarrow> string \<Rightarrow> CrawlerVersionId option \<Rightarrow> SnapshotError + RobotsAudit" where
  "override_with_reason reason actor at scope ua version =
     res_bind (require_non_empty ''robots override reason'' reason) (\<lambda>_.
       if char_count reason > MAX_ROBOTS_OVERRIDE_REASON_CHARS then Inl (InvalidSnapshot reason_too_long)
       else Inr \<lparr>audit_decision = Override reason, audit_actor = actor, decided_at = at,
         affected_scope = scope, audit_user_agent = ua, audit_crawler_version_id = version\<rparr>)"

definition validate_audit :: "RobotsAudit \<Rightarrow> SnapshotError + unit" where
  "validate_audit a =
     res_bind (require_non_empty ''robots actor'' (audit_actor a)) (\<lambda>_.
     res_bind (require_non_empty ''robots decision time'' (decided_at a)) (\<lambda>_.
     res_bind (require_non_empty ''robots affected scope'' (affected_scope a)) (\<lambda>_.
     res_bind (require_non_empty ''robots user agent'' (audit_user_agent a)) (\<lambda>_.
       case audit_decision a of
         Override reason \<Rightarrow>
           res_bind (require_non_empty ''robots override reason'' reason) (\<lambda>_.
             if char_count reason > MAX_ROBOTS_OVERRIDE_REASON_CHARS
             then Inl (InvalidSnapshot reason_too_long) else Inr ())
       | Respect \<Rightarrow> Inr ()))))"

definition is_sha256_hex :: "string \<Rightarrow> bool" where
  "is_sha256_hex s \<longleftrightarrow> length s = 64 \<and> list_all is_ascii_hexdigit s"

definition validate_configuration :: "'u CrawlRunSnapshotDraft \<Rightarrow> SnapshotError + unit" where
  "validate_configuration d =
     (case run_configuration d of
        QuickScrapeConfiguration _ _ \<Rightarrow>
          if run_type d = QuickScrape then
            (if audit_crawler_version_id (robots d) \<noteq> None
             then Inl (InvalidSnapshot ''Quick Scrape robots audit cannot reference a CrawlerVersion'')
             else Inr ())
          else Inl (InvalidSnapshot ''only QUICK_SCRAPE may use an ad-hoc Quick Scrape configuration'')
      | CrawlerVersionConfiguration _ version config_hash \<Rightarrow>
          if run_type d = QuickScrape
          then Inl (InvalidSnapshot ''QUICK_SCRAPE requires an ad-hoc Quick Scrape configuration'')
          else if audit_crawler_version_id (robots d) \<noteq> Some version
          then Inl (InvalidSnapshot ''robots audit must reference the snapshotted CrawlerVersion'')
          else if \<not> is_sha256_hex config_hash
          then Inl (InvalidSnapshot ''semantic configuration hash must be a SHA-256 hex value'')
          else Inr ())"

definition validate_draft :: "'u CrawlRunSnapshotDraft \<Rightarrow> SnapshotError + unit" where
  "validate_draft d =
     res_bind (require_non_empty ''run actor'' (run_actor d)) (\<lambda>_.
     res_bind (require_non_empty ''run creation time'' (created_at d)) (\<lambda>_.
     res_bind (require_non_empty ''resolved user agent'' (resolved (user_agent_setting (settings d)))) (\<lambda>_.
     res_bind (validate_audit (robots d)) (\<lambda>_.
       if resolved (user_agent_setting (settings d)) \<noteq> audit_user_agent (robots d)
       then Inl (InvalidSnapshot ''resolved user agent must match robots audit user agent'')
       else validate_configuration d))))"

text \<open>The projection that decides checkpoint compatibility: identities of people, times and the
  run profile do not take part.\<close>

record 'u CheckpointCompatibility =
  cc_run_type :: CrawlRunType
  cc_configuration :: "'u RunConfiguration"
  cc_selected_seed_ids :: "SeedId list"
  cc_settings :: SnapshotOperationalSettings
  cc_robots_decision :: RobotsDecision
  cc_robots_scope :: string
  cc_user_agent :: string

definition checkpoint_compatibility :: "'u CrawlRunSnapshotDraft \<Rightarrow> 'u CheckpointCompatibility" where
  "checkpoint_compatibility d =
     \<lparr>cc_run_type = run_type d, cc_configuration = run_configuration d,
      cc_selected_seed_ids = selected_seed_ids d, cc_settings = settings d,
      cc_robots_decision = audit_decision (robots d), cc_robots_scope = affected_scope (robots d),
      cc_user_agent = audit_user_agent (robots d)\<rparr>"

text \<open>\<open>serde_json::to_value\<close> of the two serialised types, and the hash of a JSON value.\<close>

record 'u snapshot_env =
  draft_to_value :: "'u CrawlRunSnapshotDraft \<Rightarrow> json option"
  compat_to_value :: "'u CheckpointCompatibility \<Rightarrow> json option"
  value_hash :: "json \<Rightarrow> string"

definition snapshot_new :: "'u snapshot_env \<Rightarrow> 'u CrawlRunSnapshotDraft \<Rightarrow> SnapshotError + 'u CrawlRunSnapshot" where
  "snapshot_new env d =
     res_bind (validate_draft d) (\<lambda>_.
     res_bind (ok_or (draft_to_value env d) CanonicalSerialization) (\<lambda>v.
     res_bind (ok_or (compat_to_value env (checkpoint_compatibility d)) CanonicalSerialization) (\<lambda>c.
       Inr \<lparr>frozen = d, snapshot_hash = value_hash env v, checkpoint_compatibility_hash = value_hash env c\<rparr>)))"

definition rehydrate ::
  "'u snapshot_env \<Rightarrow> 'u CrawlRunSnapshotDraft \<Rightarrow> string \<Rightarrow> string \<Rightarrow> SnapshotError + 'u CrawlRunSnapshot" where
  "rehydrate env d stored_hash stored_compat_hash =
     res_bind (snapshot_new env d) (\<lambda>s.
       if snapshot_hash s \<noteq> stored_hash
       then Inl (InvalidSnapshot ''stored snapshot hash does not match the canonical snapshot'')
       else if checkpoint_compatibility_hash s \<noteq> stored_compat_hash
       then Inl (InvalidSnapshot ''stored checkpoint compatibility hash does not match the canonical snapshot'')
       else Inr s)"

lemma require_non_empty_Inr [simp]: "require_non_empty l v = Inr u \<longleftrightarrow> \<not> blank v"
  by (simp add: require_non_empty_def)

lemma validate_audit_Inr:
  "validate_audit a = Inr u \<longleftrightarrow>
     \<not> blank (audit_actor a) \<and> \<not> blank (decided_at a) \<and> \<not> blank (affected_scope a)
   \<and> \<not> blank (audit_user_agent a)
   \<and> (case audit_decision a of Respect \<Rightarrow> True
      | Override reason \<Rightarrow> \<not> blank reason \<and> char_count reason \<le> MAX_ROBOTS_OVERRIDE_REASON_CHARS)"
  by (auto simp: validate_audit_def result_simps split: RobotsDecision.splits)

text \<open>What a draft must satisfy to be frozen.\<close>

definition auditable :: "'u CrawlRunSnapshotDraft \<Rightarrow> bool" where
  "auditable d \<longleftrightarrow>
     \<not> blank (run_actor d) \<and> \<not> blank (created_at d)
   \<and> \<not> blank (audit_actor (robots d)) \<and> \<not> blank (decided_at (robots d)) \<and> \<not> blank (affected_scope (robots d))
   \<and> \<not> blank (audit_user_agent (robots d))
   \<and> resolved (user_agent_setting (settings d)) = audit_user_agent (robots d)
   \<and> (case audit_decision (robots d) of Respect \<Rightarrow> True
      | Override reason \<Rightarrow> \<not> blank reason \<and> char_count reason \<le> 1000)
   \<and> (case run_configuration d of
        QuickScrapeConfiguration _ _ \<Rightarrow> run_type d = QuickScrape \<and> audit_crawler_version_id (robots d) = None
      | CrawlerVersionConfiguration _ version h \<Rightarrow> run_type d \<noteq> QuickScrape
          \<and> audit_crawler_version_id (robots d) = Some version \<and> is_sha256_hex h)"

text \<open>
  A draft is accepted exactly when its audit context is complete, the user agent sent to
  servers is the audited one, an override carries a bounded reason, and run type, configuration
  and audited version agree.
\<close>
theorem validate_draft_iff_auditable:
  "validate_draft d = Inr () \<longleftrightarrow> auditable d"
  by (cases "run_configuration d")
    (auto simp: validate_draft_def auditable_def validate_configuration_def validate_audit_Inr
      result_simps MAX_ROBOTS_OVERRIDE_REASON_CHARS_def split: RobotsDecision.splits)

text \<open>
  Rehydration accepts exactly the snapshots that were frozen: it returns a snapshot if and only
  if freezing the stored draft again succeeds with both stored hashes, and then returns that
  snapshot.
\<close>
theorem rehydrate_iff_frozen:
  "rehydrate env d h c = Inr s \<longleftrightarrow>
     snapshot_new env d = Inr s \<and> snapshot_hash s = h \<and> checkpoint_compatibility_hash s = c"
  by (auto simp: rehydrate_def result_simps split: if_splits)

section \<open>Completeness of a run\<close>

datatype ExtractionHealth =
    NotRequired | NotEvaluated | Healthy | CriticalFailure | ProductionBreakingSchemaDriftHealth

datatype CompleteSnapshotReason =
    NonProductionRun | RunNotSuccessful | InScopeWorkIncomplete | PaginationTruncated
  | UnresolvedPartialWork | PageTypeAmbiguity | ExtractionHealthNotEvaluated
  | CriticalExtractionFailure | ProductionBreakingSchemaDrift

record CompleteSnapshotStructuralInput =
  in_run_type :: CrawlRunType
  in_status :: CrawlRunStatus
  in_scope_pages_planned :: u64
  in_scope_pages_completed :: u64
  pagination_truncation_count :: u64
  unresolved_partial_work_count :: u64
  page_type_ambiguity_count :: u64
  extraction_health :: ExtractionHealth

datatype CompleteSnapshotStructuralDecision = Complete | Incomplete "CompleteSnapshotReason list"

datatype CompleteSnapshotStructuralInputError = CompletedExceedsPlanned

definition reason_if :: "bool \<Rightarrow> CompleteSnapshotReason \<Rightarrow> CompleteSnapshotReason list" where
  "reason_if b r = (if b then [r] else [])"

definition decide ::
  "CompleteSnapshotStructuralInput \<Rightarrow> CompleteSnapshotStructuralInputError + CompleteSnapshotStructuralDecision" where
  "decide i =
     (if in_scope_pages_completed i > in_scope_pages_planned i then Inl CompletedExceedsPlanned
      else
        (let reasons =
           reason_if (in_run_type i \<noteq> ProductionRun) NonProductionRun
         @ reason_if (in_status i \<noteq> RunSucceeded) RunNotSuccessful
         @ reason_if (in_scope_pages_completed i < in_scope_pages_planned i) InScopeWorkIncomplete
         @ reason_if (pagination_truncation_count i > 0) PaginationTruncated
         @ reason_if (unresolved_partial_work_count i > 0) UnresolvedPartialWork
         @ reason_if (page_type_ambiguity_count i > 0) PageTypeAmbiguity
         @ (case extraction_health i of
              NotRequired \<Rightarrow> [] | Healthy \<Rightarrow> []
            | NotEvaluated \<Rightarrow> [ExtractionHealthNotEvaluated]
            | CriticalFailure \<Rightarrow> [CriticalExtractionFailure]
            | ProductionBreakingSchemaDriftHealth \<Rightarrow> [ProductionBreakingSchemaDrift])
         in if reasons = [] then Inr Complete else Inr (Incomplete reasons)))"

text \<open>
  A run is declared complete exactly when it is a successful production run that finished
  every planned in-scope page, with no truncated pagination, unresolved or ambiguous work, and
  healthy (or not required) extraction.
\<close>
theorem decide_complete_iff:
  "decide i = Inr Complete \<longleftrightarrow>
     in_run_type i = ProductionRun \<and> in_status i = RunSucceeded
   \<and> in_scope_pages_completed i = in_scope_pages_planned i
   \<and> pagination_truncation_count i = 0 \<and> unresolved_partial_work_count i = 0
   \<and> page_type_ambiguity_count i = 0 \<and> extraction_health i \<in> {NotRequired, Healthy}"
  by (cases "extraction_health i") (auto simp: decide_def reason_if_def Let_def word_gt_0)

end
