(* ===== verification/Robots.thy ===== *)
theory Robots
  imports Pacing_Protocol Network_Policy Snapshot
begin

text \<open>
  Parsing and evaluation of robots policies (\<open>crates/erabi-crawler/src/robots.rs\<close>): rule
  matching with \<open>*\<close> and a trailing \<open>$\<close>, group selection by user agent, rule precedence and
  crawl delays.  Durations are natural numbers of nanoseconds.  Decimal to binary conversion
  (\<open>str::parse::<f64>\<close>) is a parameter that returns the parsed value.
\<close>

section \<open>Documents\<close>

record RobotsRule =
  pattern :: string
  allow :: bool
  specificity :: nat
  end_anchored :: bool

record RobotsGroup =
  user_agents :: "string list"
  rules :: "RobotsRule list"
  crawl_delays :: "Duration list"

definition default_group :: RobotsGroup where
  "default_group = \<lparr>user_agents = [], rules = [], crawl_delays = []\<rparr>"

record RobotsDocument =
  groups :: "RobotsGroup list"
  allow_all :: bool
  deny_all :: bool

definition allow_all_document :: RobotsDocument where
  "allow_all_document = \<lparr>groups = [], allow_all = True, deny_all = False\<rparr>"

definition deny_all_document :: RobotsDocument where
  "deny_all_document = \<lparr>groups = [], allow_all = False, deny_all = True\<rparr>"

definition permits_disallow_override :: "RobotsDocument \<Rightarrow> bool" where
  "permits_disallow_override d \<longleftrightarrow> \<not> allow_all d \<and> \<not> deny_all d"

datatype RobotsInvalidPolicy = ResponseTooLarge | InvalidEncoding | MalformedDirective | InvalidCrawlDelay

section \<open>Rule matching\<close>

text \<open>The loop over the pieces that follow the first \<open>*\<close>.\<close>

fun match_parts :: "bool \<Rightarrow> string list \<Rightarrow> string \<Rightarrow> bool" where
  "match_parts anchored [] remaining \<longleftrightarrow> \<not> anchored \<or> remaining = []"
| "match_parts anchored [part] remaining \<longleftrightarrow>
     (if anchored then suffix part remaining else contains_str part remaining)"
| "match_parts anchored (part # q # ps) remaining \<longleftrightarrow>
     (case find_str part remaining of
        None \<Rightarrow> False
      | Some index \<Rightarrow> match_parts anchored (q # ps) (drop (index + length part) remaining))"

definition rule_matches :: "RobotsRule \<Rightarrow> string \<Rightarrow> bool" where
  "rule_matches rule request_path =
     (case split_char (CHR ''*'') (pattern rule) of
        [] \<Rightarrow> False
      | first # parts \<Rightarrow>
          if \<not> prefix first request_path then False
          else match_parts (end_anchored rule) parts (drop (length first) request_path))"

text \<open>The meaning of a pattern, character by character: \<open>*\<close> stands for any byte sequence and an
  unanchored pattern matches a prefix.\<close>

fun pattern_spec :: "bool \<Rightarrow> string \<Rightarrow> string \<Rightarrow> bool" where
  "pattern_spec anchored [] s \<longleftrightarrow> (anchored \<longrightarrow> s = [])"
| "pattern_spec anchored (c # p) s \<longleftrightarrow>
     (if c = CHR ''*'' then list_ex (\<lambda>k. pattern_spec anchored p (drop k s)) [0..<Suc (length s)]
      else (case s of [] \<Rightarrow> False | x # t \<Rightarrow> x = c \<and> pattern_spec anchored p t))"

lemma pattern_spec_literal:
  "CHR ''*'' \<notin> set p \<Longrightarrow>
   pattern_spec a (p @ r) s \<longleftrightarrow> (\<exists>t. s = p @ t \<and> pattern_spec a r t)"
proof (induction p arbitrary: s)
  case (Cons c p)
  then show ?case by (cases s) auto
qed simp

lemma pattern_spec_star:
  "pattern_spec a (CHR ''*'' # p) s \<longleftrightarrow> (\<exists>u v. s = u @ v \<and> pattern_spec a p v)"
proof
  assume "pattern_spec a (CHR ''*'' # p) s"
  then obtain k where "pattern_spec a p (drop k s)" by (auto simp: list_ex_iff simp del: upt_Suc)
  then show "\<exists>u v. s = u @ v \<and> pattern_spec a p v" by (metis append_take_drop_id)
next
  assume "\<exists>u v. s = u @ v \<and> pattern_spec a p v"
  then obtain u v where "s = u @ v" "pattern_spec a p v" by blast
  then have "pattern_spec a p (drop (length u) s)" "length u \<in> set [0..<Suc (length s)]" by auto
  then show "pattern_spec a (CHR ''*'' # p) s" by (auto simp: list_ex_iff simp del: upt_Suc)
qed

declare pattern_spec.simps(2) [simp del]

text \<open>The same meaning on the pieces between stars.\<close>

fun parts_spec :: "bool \<Rightarrow> string list \<Rightarrow> string \<Rightarrow> bool" where
  "parts_spec a [] s \<longleftrightarrow> (a \<longrightarrow> s = [])"
| "parts_spec a (p # ps) s \<longleftrightarrow> (\<exists>u v. s = u @ p @ v \<and> parts_spec a ps v)"

lemma parts_spec_extend: "ps \<noteq> [] \<Longrightarrow> parts_spec a ps v \<Longrightarrow> parts_spec a ps (w @ v)"
  by (cases ps) (auto, metis append.assoc)

lemma parts_spec_pattern:
  "\<forall>p \<in> set (p # ps). CHR ''*'' \<notin> set p \<Longrightarrow>
   pattern_spec a (CHR ''*'' # join_char (CHR ''*'') (p # ps)) s \<longleftrightarrow> parts_spec a (p # ps) s"
proof (induction ps arbitrary: p s)
  case Nil
  then show ?case using pattern_spec_literal [of p a "[]"] by (auto simp: pattern_spec_star)
next
  case (Cons q ps)
  have "pattern_spec a (CHR ''*'' # join_char (CHR ''*'') (p # q # ps)) s \<longleftrightarrow>
     (\<exists>u v. s = u @ p @ v \<and> pattern_spec a (CHR ''*'' # join_char (CHR ''*'') (q # ps)) v)"
    using Cons.prems
    by (simp add: pattern_spec_literal
          pattern_spec_star [of a "p @ CHR ''*'' # join_char (CHR ''*'') (q # ps)"]) blast
  with Cons show ?case by simp
qed

text \<open>Taking the leftmost occurrence of each piece loses nothing, because what follows a star may
  start anywhere in the remaining text.\<close>

lemma match_parts_spec:
  "match_parts a ps s \<longleftrightarrow> parts_spec a ps s"
proof (induction a ps s rule: match_parts.induct)
  case (2 a p s)
  then show ?case by (cases a) (auto simp: suffix_def contains_str_iff)
next
  case (3 a p q ps s)
  show ?case
  proof
    assume "match_parts a (p # q # ps) s"
    then obtain i where i: "find_str p s = Some i"
      and m: "match_parts a (q # ps) (drop (i + length p) s)"
      by (auto split: option.splits)
    from i have "s = take i s @ p @ drop (i + length p) s" using find_str_Some_split by blast
    with m 3 [OF i] show "parts_spec a (p # q # ps) s"
      by (simp del: parts_spec.simps(2) add: parts_spec.simps(2) [of a p]) blast
  next
    assume "parts_spec a (p # q # ps) s"
    then obtain u v where s: "s = u @ p @ v" and v: "parts_spec a (q # ps) v"
      by (auto simp del: parts_spec.simps(2) simp: parts_spec.simps(2) [of a p])
    from find_str_least [OF s] obtain i where i: "find_str p s = Some i" "i \<le> length u" by blast
    have "drop (i + length p) s = drop (i + length p) (u @ p) @ v"
      using s i(2) by simp
    then have "parts_spec a (q # ps) (drop (i + length p) s)"
      using v by (metis list.distinct(1) parts_spec_extend)
    with 3 [OF i(1)] i show "match_parts a (p # q # ps) s" by simp
  qed
qed auto

text \<open>
  C26. The wildcard matcher decides exactly the robots pattern language: its greedy
  leftmost-occurrence loop accepts a request path if and only if the path matches the pattern
  with \<open>*\<close> standing for any byte sequence and \<open>$\<close> anchoring the end.
\<close>
theorem rule_matches_iff_pattern:
  "rule_matches rule path \<longleftrightarrow> pattern_spec (end_anchored rule) (pattern rule) path"
proof -
  obtain first parts where sp: "split_char (CHR ''*'') (pattern rule) = first # parts"
    by (cases "split_char (CHR ''*'') (pattern rule)") auto
  have nostar: "\<forall>p \<in> set (first # parts). CHR ''*'' \<notin> set p"
    using split_char_no_sep [of _ "CHR ''*''" "pattern rule"] sp by auto
  have pat: "pattern rule = join_char (CHR ''*'') (first # parts)"
    using join_split [of "CHR ''*''" "pattern rule"] sp by simp
  let ?a = "end_anchored rule"
  have "rule_matches rule path \<longleftrightarrow> (\<exists>t. path = first @ t \<and> parts_spec ?a parts t)"
    by (auto simp: rule_matches_def sp match_parts_spec prefix_def)
  also have "\<dots> \<longleftrightarrow> pattern_spec ?a (join_char (CHR ''*'') (first # parts)) path"
  proof (cases parts)
    case Nil
    then show ?thesis using nostar pattern_spec_literal [of first ?a "[]"] by simp
  next
    case (Cons q ps)
    then show ?thesis
      using nostar pattern_spec_literal [of first ?a "CHR ''*'' # join_char (CHR ''*'') parts"]
        parts_spec_pattern [of q ps ?a]
      by simp
  qed
  finally show ?thesis by (simp add: pat)
qed

section \<open>Parsing\<close>

text \<open>
  A binary floating-point number as the parser reads it: not finite, or finite with its sign bit
  and the result of \<open>Duration::try_from_secs_f64\<close>.  The decimal conversion \<open>str::parse::<f64>\<close>
  is the parameter \<open>pf\<close>.
\<close>

datatype f64_value = NotFinite | Finite bool "Duration option"

definition parse_crawl_delay :: "(string \<Rightarrow> f64_value option) \<Rightarrow> string \<Rightarrow> RobotsInvalidPolicy + Duration" where
  "parse_crawl_delay pf v =
     (case pf v of
        None \<Rightarrow> Inl InvalidCrawlDelay
      | Some NotFinite \<Rightarrow> Inl InvalidCrawlDelay
      | Some (Finite negative d) \<Rightarrow>
          if negative then Inl InvalidCrawlDelay
          else (case d of None \<Rightarrow> Inl InvalidCrawlDelay | Some x \<Rightarrow> Inr (min x MAX_PACING_DELAY)))"

record parse_state =
  ps_groups :: "RobotsGroup list"
  ps_current :: "RobotsGroup option"
  ps_policy :: bool

text \<open>\<open>current.take()\<close> followed by the push of a group with user agents.\<close>

definition flush_group :: "parse_state \<Rightarrow> parse_state" where
  "flush_group st =
     (case ps_current st of
        Some g \<Rightarrow> st\<lparr>ps_groups := (if user_agents g = [] then ps_groups st else ps_groups st @ [g]),
                      ps_current := None\<rparr>
      | None \<Rightarrow> st)"

definition rule_of_value :: "bool \<Rightarrow> string \<Rightarrow> RobotsRule option" where
  "rule_of_value is_allow v =
     (case (case strip_suffix ''$'' v of None \<Rightarrow> (v, False) | Some p \<Rightarrow> (p, True)) of (p, anchored) \<Rightarrow>
      if p = [] then None
      else Some \<lparr>pattern = p, allow = is_allow,
                 specificity = length (filter (\<lambda>b. b \<noteq> CHR ''*'') p), end_anchored = anchored\<rparr>)"

definition parse_directive ::
  "(string \<Rightarrow> f64_value option) \<Rightarrow> string \<Rightarrow> string \<Rightarrow> parse_state \<Rightarrow> RobotsInvalidPolicy + parse_state" where
  "parse_directive pf name v st =
     (if name = ''user-agent'' then
        (if v = [] \<or> any_char is_control v then Inl MalformedDirective
         else
           (let st1 = (if ps_policy st then (flush_group st)\<lparr>ps_policy := False\<rparr> else st);
                g = (case ps_current st1 of Some g \<Rightarrow> g | None \<Rightarrow> default_group)
            in Inr (st1\<lparr>ps_current := Some (g\<lparr>user_agents := user_agents g @ [to_ascii_lowercase v]\<rparr>)\<rparr>)))
      else if name = ''allow'' \<or> name = ''disallow'' then
        (case ps_current st of
           None \<Rightarrow> Inl MalformedDirective
         | Some g \<Rightarrow>
             (let st1 = st\<lparr>ps_policy := True\<rparr> in
              if v = [] then Inr st1
              else if any_char is_control v then Inl MalformedDirective
              else (case rule_of_value (name = ''allow'') v of
                      None \<Rightarrow> Inr st1
                    | Some r \<Rightarrow> Inr (st1\<lparr>ps_current := Some (g\<lparr>rules := rules g @ [r]\<rparr>)\<rparr>))))
      else if name = ''crawl-delay'' then
        (case ps_current st of
           None \<Rightarrow> Inl MalformedDirective
         | Some g \<Rightarrow>
             res_bind (parse_crawl_delay pf v) (\<lambda>d.
               Inr (st\<lparr>ps_policy := True, ps_current := Some (g\<lparr>crawl_delays := crawl_delays g @ [d]\<rparr>)\<rparr>)))
      else Inr st)"

definition parse_line ::
  "(string \<Rightarrow> f64_value option) \<Rightarrow> string \<Rightarrow> parse_state \<Rightarrow> RobotsInvalidPolicy + parse_state" where
  "parse_line pf raw st =
     (let line = trim (case split_once (CHR ''#'') raw of Some (before, _) \<Rightarrow> before | None \<Rightarrow> raw) in
      if line = [] then Inr ((flush_group st)\<lparr>ps_policy := False\<rparr>)
      else (case split_once (CHR '':'') line of
              None \<Rightarrow> Inr st
            | Some (name, v) \<Rightarrow> parse_directive pf (to_ascii_lowercase (trim name)) (trim v) st))"

fun parse_lines ::
  "(string \<Rightarrow> f64_value option) \<Rightarrow> string list \<Rightarrow> parse_state \<Rightarrow> RobotsInvalidPolicy + parse_state" where
  "parse_lines pf [] st = Inr st"
| "parse_lines pf (l # ls) st = res_bind (parse_line pf l st) (parse_lines pf ls)"

definition parse_robots_document ::
  "(string \<Rightarrow> f64_value option) \<Rightarrow> string \<Rightarrow> RobotsInvalidPolicy + RobotsDocument" where
  "parse_robots_document pf body =
     res_bind (parse_lines pf (lines_of (trim_start_bom body))
         \<lparr>ps_groups = [], ps_current = None, ps_policy = False\<rparr>)
       (\<lambda>st. Inr \<lparr>groups = ps_groups (flush_group st), allow_all = False, deny_all = False\<rparr>)"

text \<open>What the parser guarantees of a group, and of one still being built.\<close>

definition group_ok :: "RobotsGroup \<Rightarrow> bool" where
  "group_ok g \<longleftrightarrow>
     user_agents g \<noteq> []
   \<and> list_all (\<lambda>a. a \<noteq> [] \<and> to_ascii_lowercase a = a) (user_agents g)
   \<and> list_all (\<lambda>d. d \<le> MAX_PACING_DELAY) (crawl_delays g)
   \<and> list_all (\<lambda>r. pattern r \<noteq> [] \<and>
        specificity r + count_list (pattern r) (CHR ''*'') = length (pattern r)) (rules g)"

definition state_ok :: "parse_state \<Rightarrow> bool" where
  "state_ok st \<longleftrightarrow> list_all group_ok (ps_groups st)
     \<and> (case ps_current st of None \<Rightarrow> True | Some g \<Rightarrow> group_ok g)"

lemma filter_count: "length (filter (\<lambda>b. b \<noteq> c) p) + count_list p c = length p"
  by (induction p) auto

lemma rule_of_value_ok:
  "rule_of_value a v = Some r \<Longrightarrow>
   pattern r \<noteq> [] \<and> specificity r + count_list (pattern r) (CHR ''*'') = length (pattern r)"
  by (auto simp: rule_of_value_def filter_count split: option.splits if_splits)

lemma crawl_delay_ok: "parse_crawl_delay pf v = Inr d \<Longrightarrow> d \<le> MAX_PACING_DELAY"
  by (auto simp: parse_crawl_delay_def split: option.splits f64_value.splits if_splits)

lemma flush_group_ok: "state_ok st \<Longrightarrow> state_ok (flush_group st)"
  by (auto simp: state_ok_def flush_group_def split: option.splits)

lemma state_ok_policy [simp]: "state_ok (st\<lparr>ps_policy := b\<rparr>) = state_ok st"
  by (simp add: state_ok_def)

lemma lower_nonempty: "v \<noteq> [] \<Longrightarrow> to_ascii_lowercase v \<noteq> []"
  by (metis length_0_conv length_to_ascii_lowercase)

lemma group_ok_add_agent:
  "v \<noteq> [] \<Longrightarrow> g = default_group \<or> group_ok g \<Longrightarrow>
   group_ok (g\<lparr>user_agents := user_agents g @ [to_ascii_lowercase v]\<rparr>)"
  by (auto simp: group_ok_def default_group_def lower_nonempty)

lemma parse_directive_ok:
  assumes "state_ok st" and "parse_directive pf name v st = Inr st'"
  shows "state_ok st'"
proof (cases "name = ''user-agent''")
  case True
  let ?st1 = "if ps_policy st then (flush_group st)\<lparr>ps_policy := False\<rparr> else st"
  let ?g = "case ps_current ?st1 of Some g \<Rightarrow> g | None \<Rightarrow> default_group"
  have ok: "state_ok ?st1" using assms(1) flush_group_ok by auto
  have v: "v \<noteq> []" and st': "st' = ?st1\<lparr>ps_current :=
      Some (?g\<lparr>user_agents := user_agents ?g @ [to_ascii_lowercase v]\<rparr>)\<rparr>"
    using assms(2) True by (auto simp: parse_directive_def Let_def split: if_splits)
  have "?g = default_group \<or> group_ok ?g" using ok by (auto simp: state_ok_def split: option.splits)
  then have "group_ok (?g\<lparr>user_agents := user_agents ?g @ [to_ascii_lowercase v]\<rparr>)"
    by (rule group_ok_add_agent [OF v])
  with ok show ?thesis unfolding st' by (simp add: state_ok_def)
next
  case False
  show ?thesis
  proof (cases "ps_current st")
    case None
    then show ?thesis using assms False by (auto simp: parse_directive_def split: if_splits)
  next
    case (Some g)
    then have g: "group_ok g" using assms(1) by (simp add: state_ok_def)
    have "group_ok (g\<lparr>rules := rules g @ [r]\<rparr>)" if "rule_of_value a v = Some r" for a r
      using g rule_of_value_ok [OF that] by (simp add: group_ok_def)
    moreover have "group_ok (g\<lparr>crawl_delays := crawl_delays g @ [d]\<rparr>)" if "parse_crawl_delay pf v = Inr d" for d
      using g crawl_delay_ok [OF that] by (simp add: group_ok_def)
    ultimately show ?thesis
      using assms False Some
      by (auto simp: parse_directive_def Let_def result_simps state_ok_def split: if_splits option.splits)
  qed
qed

lemma parse_line_ok: "state_ok st \<Longrightarrow> parse_line pf raw st = Inr st' \<Longrightarrow> state_ok st'"
  by (auto simp: parse_line_def Let_def flush_group_ok split: if_splits option.splits prod.splits
      intro: parse_directive_ok)

lemma parse_lines_ok: "state_ok st \<Longrightarrow> parse_lines pf ls st = Inr st' \<Longrightarrow> state_ok st'"
  by (induction ls arbitrary: st) (auto simp: result_simps dest: parse_line_ok)

text \<open>
  Every policy the parser accepts is well formed: each group names at least one user agent,
  all in lower case, each crawl delay is within the pacing bound, each rule has a non-empty
  pattern whose specificity is its number of literal bytes, and the document is neither the
  allow-all nor the deny-all policy, so an override may apply to it.
\<close>
theorem parsed_document_well_formed:
  assumes "parse_robots_document pf body = Inr doc"
  shows "list_all group_ok (groups doc) \<and> permits_disallow_override doc"
proof -
  from assms obtain st where
    st: "parse_lines pf (lines_of (trim_start_bom body)) \<lparr>ps_groups = [], ps_current = None, ps_policy = False\<rparr> = Inr st"
    and doc: "doc = \<lparr>groups = ps_groups (flush_group st), allow_all = False, deny_all = False\<rparr>"
    by (auto simp: parse_robots_document_def result_simps)
  have "state_ok st" by (rule parse_lines_ok [OF _ st]) (simp add: state_ok_def)
  then have "state_ok (flush_group st)" by (rule flush_group_ok)
  then show ?thesis by (simp add: doc state_ok_def permits_disallow_override_def)
qed

definition sample_f64 :: "string \<Rightarrow> f64_value option" where
  "sample_f64 s = None"

definition sample_robots :: string where
  "sample_robots = ''User-agent: *'' @ [CHR 0x0A] @ ''Disallow: /p*$'' @ [CHR 0x0A] @ ''Allow: /p/q''"

theorem parsed_document_well_formed_witness:
  "(case parse_robots_document sample_f64 sample_robots of
      Inr doc \<Rightarrow> length (groups doc) = 1 \<and> list_all group_ok (groups doc)
    | Inl _ \<Rightarrow> False)"
proof -
  have "case parse_robots_document sample_f64 sample_robots of Inr doc \<Rightarrow> length (groups doc) = 1 | Inl _ \<Rightarrow> False"
    by code_simp
  with parsed_document_well_formed [of sample_f64 sample_robots] show ?thesis
    by (auto split: sum.splits)
qed

section \<open>Group selection and evaluation\<close>

definition user_agent_matches :: "string \<Rightarrow> string \<Rightarrow> bool" where
  "user_agent_matches active selector \<longleftrightarrow>
     active = selector
   \<or> (case strip_prefix selector active of
        None \<Rightarrow> False
      | Some remainder \<Rightarrow>
          (case remainder of [] \<Rightarrow> False | c # _ \<Rightarrow> c = CHR ''/'' \<or> is_ascii_whitespace c))"

definition group_specificity :: "string \<Rightarrow> RobotsGroup \<Rightarrow> nat option" where
  "group_specificity active g =
     iter_max (map length (filter (user_agent_matches active) (filter (\<lambda>a. a \<noteq> ''*'') (user_agents g))))"

text \<open>The loop that collects the groups naming the agent and the highest specificity.\<close>

fun exact_matches :: "string \<Rightarrow> RobotsGroup list \<Rightarrow> nat \<Rightarrow> (nat \<times> RobotsGroup) list \<Rightarrow> nat \<times> (nat \<times> RobotsGroup) list" where
  "exact_matches active [] highest acc = (highest, acc)"
| "exact_matches active (g # gs) highest acc =
     (case group_specificity active g of
        None \<Rightarrow> exact_matches active gs highest acc
      | Some n \<Rightarrow> exact_matches active gs (max highest n) (acc @ [(n, g)]))"

definition select_groups :: "RobotsGroup list \<Rightarrow> string \<Rightarrow> RobotsGroup list" where
  "select_groups gs user_agent =
     (case exact_matches (to_ascii_lowercase user_agent) gs 0 [] of (highest, matched) \<Rightarrow>
      if highest > 0 then map snd (filter (\<lambda>p. fst p = highest) matched)
      else filter (\<lambda>g. ''*'' \<in> set (user_agents g)) gs)"

definition request_path_for_robots :: "'u url_api \<Rightarrow> 'u \<Rightarrow> string" where
  "request_path_for_robots api target =
     (case url_query api target of
        Some query \<Rightarrow> url_path api target @ ''?'' @ query
      | None \<Rightarrow> url_path api target)"

definition better_rule :: "(nat \<times> bool) option \<Rightarrow> RobotsRule \<Rightarrow> (nat \<times> bool) option" where
  "better_rule best r =
     (case best of
        Some (n, a) \<Rightarrow> if n > specificity r \<or> (n = specificity r \<and> a) then Some (n, a)
                       else Some (specificity r, allow r)
      | None \<Rightarrow> Some (specificity r, allow r))"

fun best_rule_in :: "string \<Rightarrow> RobotsRule list \<Rightarrow> (nat \<times> bool) option \<Rightarrow> (nat \<times> bool) option" where
  "best_rule_in path [] best = best"
| "best_rule_in path (r # rs) best =
     best_rule_in path rs (if rule_matches r path then better_rule best r else best)"

fun max_delay :: "Duration list \<Rightarrow> Duration option \<Rightarrow> Duration option" where
  "max_delay [] acc = acc"
| "max_delay (d # ds) acc = max_delay ds (Some (case acc of None \<Rightarrow> d | Some c \<Rightarrow> max c d))"

fun evaluate_groups ::
  "string \<Rightarrow> RobotsGroup list \<Rightarrow> (nat \<times> bool) option \<Rightarrow> Duration option \<Rightarrow> (nat \<times> bool) option \<times> Duration option" where
  "evaluate_groups path [] best delay = (best, delay)"
| "evaluate_groups path (g # gs) best delay =
     evaluate_groups path gs (best_rule_in path (rules g) best) (max_delay (crawl_delays g) delay)"

record RobotsRuleEvaluation =
  evaluated_allowed :: bool
  evaluated_delay :: "Duration option"

definition evaluate_document :: "'u url_api \<Rightarrow> RobotsDocument \<Rightarrow> 'u \<Rightarrow> string \<Rightarrow> RobotsRuleEvaluation" where
  "evaluate_document api doc target user_agent =
     (if allow_all doc then \<lparr>evaluated_allowed = True, evaluated_delay = None\<rparr>
      else if deny_all doc then \<lparr>evaluated_allowed = False, evaluated_delay = None\<rparr>
      else (case evaluate_groups (request_path_for_robots api target)
                   (select_groups (groups doc) user_agent) None None of
              (best, delay) \<Rightarrow>
                \<lparr>evaluated_allowed = (case best of None \<Rightarrow> True | Some (_, a) \<Rightarrow> a), evaluated_delay = delay\<rparr>))"

text \<open>The loops as one fold over the rules and delays of the selected groups.\<close>

lemma best_rule_in_append:
  "best_rule_in path (rs @ qs) best = best_rule_in path qs (best_rule_in path rs best)"
  by (induction rs arbitrary: best) auto

lemma max_delay_append: "max_delay (ds @ es) acc = max_delay es (max_delay ds acc)"
  by (induction ds arbitrary: acc) auto

lemma evaluate_groups_flat:
  "evaluate_groups path gs best delay =
     (best_rule_in path (concat (map rules gs)) best, max_delay (concat (map crawl_delays gs)) delay)"
  by (induction gs arbitrary: best delay) (auto simp: best_rule_in_append max_delay_append)

lemma max_delay_iter: "max_delay ds acc = iter_max (case acc of None \<Rightarrow> ds | Some d \<Rightarrow> d # ds)"
proof (induction ds arbitrary: acc)
  case (Cons d ds)
  then show ?case by (cases acc; cases "iter_max ds") (auto simp: max.assoc)
qed (auto split: option.splits)

text \<open>The best rule so far is the maximum for specificity, then for allowing.\<close>

definition rule_rank :: "RobotsRule \<Rightarrow> nat \<times> bool" where
  "rule_rank r = (specificity r, allow r)"

lemma better_rule_max: "better_rule best r = Some (case best of None \<Rightarrow> rule_rank r | Some b \<Rightarrow> max b (rule_rank r))"
  by (cases best) (auto simp: better_rule_def rule_rank_def max_def less_eq_prod_def split: if_splits)

lemma best_rule_iter:
  "best_rule_in path rs best =
     iter_max ((case best of None \<Rightarrow> [] | Some b \<Rightarrow> [b]) @ map rule_rank (filter (\<lambda>r. rule_matches r path) rs))"
proof (induction rs arbitrary: best)
  case (Cons r rs)
  show ?case
    unfolding best_rule_in.simps Cons.IH
    by (cases best; cases "iter_max (map rule_rank (filter (\<lambda>r. rule_matches r path) rs))")
      (auto simp: better_rule_max max.assoc)
qed (auto split: option.splits)

definition applicable_rules :: "'u url_api \<Rightarrow> RobotsDocument \<Rightarrow> 'u \<Rightarrow> string \<Rightarrow> RobotsRule list" where
  "applicable_rules api doc target user_agent =
     filter (\<lambda>r. rule_matches r (request_path_for_robots api target))
       (concat (map rules (select_groups (groups doc) user_agent)))"

lemma max_rank_allows:
  "iter_max (map rule_rank rs) = Some (n, a) \<Longrightarrow>
   a \<longleftrightarrow> list_ex (\<lambda>r. allow r \<and> list_all (\<lambda>q. specificity q \<le> specificity r) rs) rs"
  by (force simp: iter_max_Some list_ex_iff list_all_iff rule_rank_def less_eq_prod_def)

text \<open>
  C32. Rule precedence: outside the allow-all and deny-all policies a target is allowed exactly when
  no rule of the selected groups matches it, or some matching allow rule is at least as specific
  as every matching rule; the order of rules and groups is irrelevant, and the effective delay is
  the largest delay of the selected groups.
\<close>
theorem evaluate_longest_match:
  "evaluated_allowed (evaluate_document api doc target ua) =
     (allow_all doc \<or> (\<not> deny_all doc \<and>
       (let rs = applicable_rules api doc target ua in
        rs = [] \<or> list_ex (\<lambda>r. allow r \<and> list_all (\<lambda>q. specificity q \<le> specificity r) rs) rs)))
   \<and> evaluated_delay (evaluate_document api doc target ua) =
       (if allow_all doc \<or> deny_all doc then None
        else iter_max (concat (map crawl_delays (select_groups (groups doc) ua))))"
proof (cases "allow_all doc \<or> deny_all doc")
  case False
  let ?rs = "applicable_rules api doc target ua"
  have best: "evaluate_groups (request_path_for_robots api target) (select_groups (groups doc) ua) None None =
      (iter_max (map rule_rank ?rs), iter_max (concat (map crawl_delays (select_groups (groups doc) ua))))"
    by (simp add: evaluate_groups_flat best_rule_iter max_delay_iter applicable_rules_def)
  show ?thesis
  proof (cases "iter_max (map rule_rank ?rs)")
    case None
    then show ?thesis using False best by (simp add: evaluate_document_def Let_def)
  next
    case (Some b)
    obtain n a where b: "b = (n, a)" by (cases b)
    have "?rs \<noteq> []" using Some by auto
    then show ?thesis
      using False best Some max_rank_allows [of ?rs n a] by (simp add: evaluate_document_def Let_def b)
  qed
qed (auto simp: evaluate_document_def)

lemma exact_matches_spec:
  "exact_matches active gs h acc =
     (foldl max h (List.map_filter (group_specificity active) gs),
      acc @ List.map_filter (\<lambda>g. map_option (\<lambda>n. (n, g)) (group_specificity active g)) gs)"
  by (induction active gs h acc rule: exact_matches.induct) (auto simp: map_filter_simps split: option.splits)

lemma foldl_max: "foldl max (h :: nat) xs = Max (insert h (set xs))"
proof (induction xs arbitrary: h)
  case (Cons x xs)
  have "Max (insert (max h x) (set xs)) = Max (insert h (insert x (set xs)))"
    by (cases "set xs = {}") (simp_all add: max.assoc)
  with Cons show ?case by simp
qed simp

lemma map_filter_exact:
  "map snd (filter (\<lambda>p. fst p = h) (List.map_filter (\<lambda>g. map_option (\<lambda>n. (n, g)) (f g)) gs)) =
   filter (\<lambda>g. f g = Some h) gs"
  by (induction gs) (auto simp: map_filter_simps split: option.splits)

text \<open>
  The most specific user-agent groups win: when some group names the agent, exactly the groups
  with the longest matching name are selected, and only otherwise the wildcard groups.
\<close>
theorem select_groups_most_specific:
  "select_groups gs ua =
     (let spec = group_specificity (to_ascii_lowercase ua);
          best = Max (insert 0 (set (List.map_filter spec gs)))
      in if 0 < best then filter (\<lambda>g. spec g = Some best) gs
         else filter (\<lambda>g. ''*'' \<in> set (user_agents g)) gs)"
  by (simp add: select_groups_def exact_matches_spec foldl_max map_filter_exact Let_def)

section \<open>The policy cache\<close>

definition ROBOTS_CACHE_TTL :: Duration where
  "ROBOTS_CACHE_TTL = from_secs (10 * 60)"

definition MAX_ROBOTS_CACHE_ENTRIES :: nat where
  "MAX_ROBOTS_CACHE_ENTRIES = 256"

definition MAX_ROBOTS_RESPONSE_BYTES :: nat where
  "MAX_ROBOTS_RESPONSE_BYTES = 512 * 1024"

record CacheEntry =
  document :: RobotsDocument
  expires_at :: Instant
  entry_evidence :: RobotsPolicyEvidence

type_synonym RobotsCache = "(OriginKey, CacheEntry) bmap"

definition drop_stale :: "Instant \<Rightarrow> RobotsCache \<Rightarrow> RobotsCache" where
  "drop_stale now c = bm_retain (\<lambda>_ e. expires_at e > now) c"

definition cache_get ::
  "OriginKey \<Rightarrow> Instant \<Rightarrow> RobotsCache \<Rightarrow> (RobotsDocument \<times> RobotsPolicyEvidence) option \<times> RobotsCache" where
  "cache_get k now c =
     (let c1 = drop_stale now c in
      (map_option (\<lambda>e. (document e, entry_evidence e)) (bm_lookup c1 k), c1))"

definition eviction_key :: "RobotsCache \<Rightarrow> OriginKey option" where
  "eviction_key c = map_option snd (iter_min (map (\<lambda>(k, e). (expires_at e, k)) c))"

definition cache_insert ::
  "OriginKey \<Rightarrow> RobotsDocument \<Rightarrow> RobotsPolicyEvidence \<Rightarrow> Instant \<Rightarrow> Instant \<Rightarrow> RobotsCache \<Rightarrow> RobotsCache" where
  "cache_insert k doc evidence now expiry c =
     (let c1 = drop_stale now c;
          c2 = (if bm_lookup c1 k = None \<and> length c1 \<ge> MAX_ROBOTS_CACHE_ENTRIES
                then (case eviction_key c1 of Some e \<Rightarrow> bm_remove e c1 | None \<Rightarrow> c1)
                else c1)
      in bm_insert k \<lparr>document = doc, expires_at = expiry, entry_evidence = evidence\<rparr> c2)"

datatype cache_op =
    CacheGet OriginKey Instant
  | CacheInsert OriginKey RobotsDocument RobotsPolicyEvidence Instant Instant

fun cache_step :: "RobotsCache \<Rightarrow> cache_op \<Rightarrow> RobotsCache" where
  "cache_step c (CacheGet k now) = snd (cache_get k now c)"
| "cache_step c (CacheInsert k d ev now expiry) = cache_insert k d ev now expiry c"

definition cache_ok :: "RobotsCache \<Rightarrow> bool" where
  "cache_ok c \<longleftrightarrow> bm_invar c \<and> length c \<le> MAX_ROBOTS_CACHE_ENTRIES"

lemma drop_stale_ok: "cache_ok c \<Longrightarrow> cache_ok (drop_stale now c)"
  using bm.size_retain [of "\<lambda>_ e. expires_at e > now" c]
  by (auto simp: cache_ok_def drop_stale_def bm.map_laws)

lemma eviction_key_present:
  assumes "c \<noteq> []"
  obtains e where "eviction_key c = Some e" and "bm_lookup c e \<noteq> None"
proof -
  let ?ks = "map (\<lambda>(k, e). (expires_at e, k)) c"
  have "iter_min ?ks \<noteq> None" using assms by simp
  then obtain m where m: "iter_min ?ks = Some m" by blast
  then have "m \<in> set ?ks" by (simp only: iter_min_Some)
  then obtain k e where ke: "(k, e) \<in> set c" "m = (expires_at e, k)" by auto
  have "k \<in> set (bm_keys c)" using ke(1) by (force simp: bm_keys_def)
  then have "bm_lookup c k \<noteq> None" using bm_lookup_None by fast
  with m ke(2) that show thesis by (simp add: eviction_key_def)
qed

lemma cache_insert_ok:
  assumes "cache_ok c"
  shows "cache_ok (cache_insert k d ev now expiry c)"
proof -
  let ?c = "drop_stale now c"
  let ?e = "\<lparr>document = d, expires_at = expiry, entry_evidence = ev\<rparr>"
  have ok: "bm_invar ?c" "length ?c \<le> MAX_ROBOTS_CACHE_ENTRIES"
    using drop_stale_ok [OF assms] by (auto simp: cache_ok_def)
  show ?thesis
  proof (cases "bm_lookup ?c k = None \<and> length ?c \<ge> MAX_ROBOTS_CACHE_ENTRIES")
    case True
    then have "?c \<noteq> []" by (auto simp: MAX_ROBOTS_CACHE_ENTRIES_def)
    then obtain e where e: "eviction_key ?c = Some e" "bm_lookup ?c e \<noteq> None"
      using eviction_key_present by blast
    have "length (bm_insert k ?e (bm_remove e ?c)) \<le> MAX_ROBOTS_CACHE_ENTRIES"
      by (rule bm.evict_insert_room [OF ok(1) conjunct1 [OF True] e(2) ok(2)])
    with True e ok show ?thesis by (simp add: cache_insert_def Let_def cache_ok_def bm.map_laws)
  next
    case False
    then have "length (bm_insert k ?e ?c) \<le> MAX_ROBOTS_CACHE_ENTRIES"
      using ok by (intro bm.insert_room) auto
    with False ok show ?thesis by (auto simp: cache_insert_def Let_def cache_ok_def bm.map_laws)
  qed
qed

lemma cache_step_ok: "cache_ok c \<Longrightarrow> cache_ok (cache_step c op)"
  by (cases op) (auto simp: cache_get_def Let_def drop_stale_ok cache_insert_ok)

lemma cache_run_ok: "cache_ok c \<Longrightarrow> cache_ok (foldl cache_step c ops)"
  by (induction ops arbitrary: c) (auto simp: cache_step_ok)

text \<open>
  C22. After any sequence of lookups and insertions the cache holds at most 256 policies, and a
  lookup at time \<open>now\<close> answers only from a stored entry that expires strictly later.
\<close>
theorem cache_bounded_and_fresh:
  "let c = foldl cache_step [] ops in
     length c \<le> 256
   \<and> (case fst (cache_get k now c) of
        None \<Rightarrow> True
      | Some (d, ev) \<Rightarrow>
          (\<exists>e. bm_lookup c k = Some e \<and> document e = d \<and> entry_evidence e = ev \<and> now < expires_at e))"
proof -
  let ?c = "foldl cache_step [] ops"
  have ok: "cache_ok ?c" by (rule cache_run_ok) (simp add: cache_ok_def)
  then show ?thesis
    by (auto simp: Let_def cache_ok_def MAX_ROBOTS_CACHE_ENTRIES_def cache_get_def drop_stale_def
        bm.map_laws split: option.splits if_splits)
qed

text \<open>
  A policy that was stored is found again until it expires: inserting it at any point of any
  history makes a later lookup for the origin return it, as long as the lookup is earlier than
  its expiry.
\<close>
theorem cache_insert_get:
  assumes "later < expiry"
  shows "fst (cache_get k later (cache_insert k d ev now expiry (foldl cache_step [] ops))) = Some (d, ev)"
proof -
  let ?c = "foldl cache_step [] ops"
  have ok: "cache_ok ?c" by (rule cache_run_ok) (simp add: cache_ok_def)
  let ?c1 = "drop_stale now ?c"
  have inv: "bm_invar ?c1" using drop_stale_ok [OF ok] by (simp add: cache_ok_def)
  define c2 where "c2 = (if bm_lookup ?c1 k = None \<and> length ?c1 \<ge> MAX_ROBOTS_CACHE_ENTRIES
      then (case eviction_key ?c1 of Some e \<Rightarrow> bm_remove e ?c1 | None \<Rightarrow> ?c1) else ?c1)"
  have "bm_invar c2" using inv by (auto simp: c2_def bm.map_laws split: option.splits)
  moreover have "cache_insert k d ev now expiry ?c =
      bm_insert k \<lparr>document = d, expires_at = expiry, entry_evidence = ev\<rparr> c2"
    by (simp add: cache_insert_def c2_def Let_def)
  ultimately show ?thesis
    using assms by (simp add: cache_get_def drop_stale_def Let_def bm.map_laws)
qed

theorem cache_insert_get_witness:
  "fst (cache_get sample_origin 5 (cache_insert sample_origin deny_all_document AccessDeniedEvidence 1 7 []))
     = Some (deny_all_document, AccessDeniedEvidence)"
  using cache_insert_get [of 5 7 sample_origin deny_all_document AccessDeniedEvidence 1 "[]"] by simp

section \<open>The policy service\<close>

datatype RobotsUnavailable =
    UnavailableTimeout | UnavailableTransport | UnavailableRedirect | UnavailableServerFailure
  | UnavailableRateLimited | UnavailableOtherStatus

datatype RobotsTransportError = TransportTimeout | TransportUnavailable | TransportResponseTooLarge

datatype RobotsPolicyError =
    PolicyOrigin OriginKeyError
  | PolicyNetworkTarget NetworkTargetError
  | PolicyAdmission AdmissionError
  | PolicyUnavailable RobotsUnavailable
  | PolicyUnavailableWithPacing RobotsUnavailable AdmissionError
  | PolicyInvalid RobotsInvalidPolicy

record RobotsHttpResponse =
  status :: u16
  body :: string
  retry_after :: RetryAfterTiming

fun transport_error :: "RobotsTransportError \<Rightarrow> RobotsPolicyError" where
  "transport_error TransportTimeout = PolicyUnavailable UnavailableTimeout"
| "transport_error TransportUnavailable = PolicyUnavailable UnavailableTransport"
| "transport_error TransportResponseTooLarge = PolicyInvalid ResponseTooLarge"

text \<open>The bounded body read: the announced length, then the chunks as they arrive (\<open>Inl\<close>: the read
  failed).\<close>

fun read_chunks :: "string \<Rightarrow> (RobotsTransportError + string) list \<Rightarrow> RobotsTransportError + string" where
  "read_chunks acc [] = Inr acc"
| "read_chunks acc (Inl e # cs) = Inl e"
| "read_chunks acc (Inr chunk # cs) =
     (if length chunk > MAX_ROBOTS_RESPONSE_BYTES - length acc then Inl TransportResponseTooLarge
      else read_chunks (acc @ chunk) cs)"

definition read_bounded_body ::
  "nat option \<Rightarrow> (RobotsTransportError + string) list \<Rightarrow> RobotsTransportError + string" where
  "read_bounded_body content_length chunks =
     (if (case content_length of Some n \<Rightarrow> n > MAX_ROBOTS_RESPONSE_BYTES | None \<Rightarrow> False)
      then Inl TransportResponseTooLarge
      else read_chunks [] chunks)"

definition robots_url :: "'u url_api \<Rightarrow> 'u \<Rightarrow> 'u" where
  "robots_url api target =
     url_clear_fragment api (url_set_query api None (url_set_path api ''/robots.txt'' target))"

text \<open>A failure that is reported after the outcome was recorded with the pacing service.\<close>

definition recorded_failure :: "RobotsUnavailable \<Rightarrow> AdmissionError + unit \<Rightarrow> RobotsPolicyError" where
  "recorded_failure f recorded =
     (case recorded of Inr _ \<Rightarrow> PolicyUnavailable f | Inl pacing \<Rightarrow> PolicyUnavailableWithPacing f pacing)"

text \<open>The reading of a response.  \<open>outcome\<close> is the answer of \<open>record_outcome\<close> on the permit of
  the fetch.\<close>

definition document_of_response ::
  "(string \<Rightarrow> f64_value option) \<Rightarrow> (PacingOutcome \<Rightarrow> AdmissionError + unit) \<Rightarrow> RobotsHttpResponse \<Rightarrow>
   RobotsPolicyError + (RobotsDocument \<times> RobotsPolicyEvidence)" where
  "document_of_response pf outcome r =
     (if length (body r) > MAX_ROBOTS_RESPONSE_BYTES then Inl (PolicyInvalid ResponseTooLarge)
      else if 200 \<le> status r \<and> status r \<le> 299 then
        res_bind (ok_or (from_utf8 (body r)) (PolicyInvalid InvalidEncoding)) (\<lambda>text.
        res_bind (map_err PolicyInvalid (parse_robots_document pf text)) (\<lambda>doc.
          Inr (doc, NetworkPolicyEvidence)))
      else if status r = 401 \<or> status r = 403 then Inr (deny_all_document, AccessDeniedEvidence)
      else if status r = 404 then Inr (allow_all_document, NotFoundEvidence)
      else if 300 \<le> status r \<and> status r \<le> 399 then Inl (PolicyUnavailable UnavailableRedirect)
      else if status r = 429 then
        Inl (recorded_failure UnavailableRateLimited (outcome (RateLimitedOutcome (retry_after r))))
      else if 500 \<le> status r \<and> status r \<le> 599 then
        Inl (recorded_failure UnavailableServerFailure (outcome FailedOutcome))
      else Inl (recorded_failure UnavailableOtherStatus (outcome FailedOutcome)))"

text \<open>
  What one fetch meets outside this module: the resolver, the admission by the pacing service, the
  HTTP transport, the recording of the outcome and the clock after the response.
\<close>

record 'u fetch_env =
  env_api :: "'u url_api"
  env_resolver :: "string \<Rightarrow> u16 \<Rightarrow> resolution"
  env_address_limit :: nat
  env_admission :: "AdmissionError + unit"
  env_transport :: "'u ValidatedNetworkTarget \<Rightarrow> string \<Rightarrow> RobotsTransportError + RobotsHttpResponse"
  env_outcome :: "PacingOutcome \<Rightarrow> AdmissionError + unit"
  env_parse_f64 :: "string \<Rightarrow> f64_value option"
  env_instant_limit :: nat
  env_now :: Instant

definition fetch_document ::
  "'u fetch_env \<Rightarrow> 'u \<Rightarrow> string \<Rightarrow> OriginKey \<Rightarrow> RobotsCache \<Rightarrow>
   (RobotsPolicyError + (RobotsDocument \<times> RobotsPolicyEvidence)) \<times> RobotsCache" where
  "fetch_document env target user_agent origin_key cache =
     (let fetched =
        res_bind (map_err PolicyNetworkTarget
            (validate_and_resolve (env_api env) (env_resolver env) (env_address_limit env)
               (robots_url (env_api env) target))) (\<lambda>t.
        res_bind (map_err PolicyAdmission (env_admission env)) (\<lambda>_.
        res_bind (map_err transport_error (env_transport env t user_agent)) (\<lambda>response.
        res_bind (document_of_response (env_parse_f64 env) (env_outcome env) response) (\<lambda>found.
        res_bind (map_err PolicyAdmission (env_outcome env SuccessOutcome)) (\<lambda>_.
        res_bind (ok_or (instant_checked_add (env_instant_limit env) (env_now env) ROBOTS_CACHE_TTL)
            (PolicyAdmission ClockOverflow)) (\<lambda>expiry. Inr (found, expiry)))))))
      in case fetched of
           Inl e \<Rightarrow> (Inl e, cache)
         | Inr ((doc, evidence), expiry) \<Rightarrow>
             (Inr (doc, evidence), cache_insert origin_key doc evidence (env_now env) expiry cache))"

text \<open>A caller that finds no usable entry and no fetch in flight.\<close>

definition cached_or_fetch_document ::
  "'u fetch_env \<Rightarrow> Instant \<Rightarrow> 'u \<Rightarrow> string \<Rightarrow> OriginKey \<Rightarrow> RobotsCache \<Rightarrow>
   (RobotsPolicyError + (RobotsDocument \<times> RobotsPolicyEvidence)) \<times> RobotsCache" where
  "cached_or_fetch_document env now target user_agent origin_key cache =
     (case cache_get origin_key now cache of
        (Some (doc, _), cache1) \<Rightarrow> (Inr (doc, CacheEvidence), cache1)
      | (None, cache1) \<Rightarrow> fetch_document env target user_agent origin_key cache1)"

definition admission_decision_for :: "RobotsDocument \<Rightarrow> RobotsDecision \<Rightarrow> bool \<Rightarrow> RobotsAdmissionDecision" where
  "admission_decision_for doc decision allowed =
     (if allowed then Allowed
      else if permits_disallow_override doc \<and> (case decision of Override _ \<Rightarrow> True | Respect \<Rightarrow> False)
      then Overridden else Disallowed)"

definition evaluate_inner ::
  "'u fetch_env \<Rightarrow> Instant \<Rightarrow> 'u \<Rightarrow> 'v CrawlRunSnapshot \<Rightarrow> RobotsCache \<Rightarrow>
   (RobotsPolicyError + RobotsAdmission) \<times> RobotsCache" where
  "evaluate_inner env now target snapshot cache =
     (let ua = resolved (user_agent_setting (settings (frozen snapshot))) in
      case validate_url (env_api env) target of
        Inl e \<Rightarrow> (Inl (PolicyNetworkTarget e), cache)
      | Inr _ \<Rightarrow>
          (case origin_from_url (env_api env) target of
             Inl e \<Rightarrow> (Inl (PolicyOrigin e), cache)
           | Inr k \<Rightarrow>
               (case cached_or_fetch_document env now target ua k cache of
                  (Inl e, cache1) \<Rightarrow> (Inl e, cache1)
                | (Inr (doc, evidence), cache1) \<Rightarrow>
                    (let ev = evaluate_document (env_api env) doc target ua in
                     (Inr \<lparr>admission_origin = k,
                           admission_decision = admission_decision_for doc
                             (audit_decision (robots (frozen snapshot))) (evaluated_allowed ev),
                           admission_crawl_delay = evaluated_delay ev,
                           admission_evidence = evidence\<rparr>, cache1)))))"

text \<open>
  An override never reaches beyond a parsed policy: an evaluation ends \<open>Overridden\<close> only if
  the frozen audit holds an override, and the policy that was read or cached is one whose rules
  disallow the target; a 401, 403 or 404 policy is never overridden and a missing or invalid
  policy is an error.
\<close>
theorem override_only_parsed_disallow:
  assumes "fst (evaluate_inner env now target snapshot cache) = Inr adm"
    and "admission_decision adm = Overridden"
  shows "\<exists>reason doc ev. audit_decision (robots (frozen snapshot)) = Override reason
    \<and> fst (cached_or_fetch_document env now target
        (resolved (user_agent_setting (settings (frozen snapshot)))) (admission_origin adm) cache) = Inr (doc, ev)
    \<and> \<not> allow_all doc \<and> \<not> deny_all doc
    \<and> \<not> evaluated_allowed (evaluate_document (env_api env) doc target
        (resolved (user_agent_setting (settings (frozen snapshot)))))"
proof -
  let ?ua = "resolved (user_agent_setting (settings (frozen snapshot)))"
  from assms(1) obtain k doc ev cache1 where
    c: "cached_or_fetch_document env now target ?ua k cache = (Inr (doc, ev), cache1)"
    and adm: "admission_origin adm = k" "admission_decision adm = admission_decision_for doc
        (audit_decision (robots (frozen snapshot)))
        (evaluated_allowed (evaluate_document (env_api env) doc target ?ua))"
    by (auto simp: evaluate_inner_def Let_def split: sum.splits prod.splits)
  with assms(2) show ?thesis
    by (auto simp: admission_decision_for_def permits_disallow_override_def
        split: if_splits RobotsDecision.splits)
qed

definition sample_settings :: SnapshotOperationalSettings where
  "sample_settings =
     \<lparr>max_pages_setting = \<lparr>resolved = 10, origin = BuiltInDefault\<rparr>,
      max_depth_setting = \<lparr>resolved = 2, origin = BuiltInDefault\<rparr>,
      max_duration_seconds_setting = \<lparr>resolved = 60, origin = BuiltInDefault\<rparr>,
      concurrency_setting = \<lparr>resolved = 1, origin = BuiltInDefault\<rparr>,
      request_delay_ms_setting = \<lparr>resolved = 0, origin = BuiltInDefault\<rparr>,
      timeout_ms_setting = \<lparr>resolved = 1, origin = BuiltInDefault\<rparr>,
      screenshot_setting = \<lparr>resolved = False, origin = BuiltInDefault\<rparr>,
      asset_download_limit_bytes_setting = \<lparr>resolved = 0, origin = BuiltInDefault\<rparr>,
      retain_artifacts_setting = \<lparr>resolved = True, origin = BuiltInDefault\<rparr>,
      user_agent_setting = \<lparr>resolved = ''bot'', origin = BuiltInDefault\<rparr>\<rparr>"

definition sample_snapshot :: "unit CrawlRunSnapshot" where
  "sample_snapshot =
     \<lparr>frozen = \<lparr>run_type = QuickScrape, run_configuration = QuickScrapeConfiguration () [],
        selected_seed_ids = [], run_profile_id = None, settings = sample_settings,
        robots = \<lparr>audit_decision = Override ''audit'', audit_actor = ''op'', decided_at = ''t'',
          affected_scope = ''run'', audit_user_agent = ''bot'', audit_crawler_version_id = None\<rparr>,
        run_actor = ''op'', created_at = ''t''\<rparr>,
      snapshot_hash = [], checkpoint_compatibility_hash = []\<rparr>"

definition sample_env :: "plain_url fetch_env" where
  "sample_env = \<lparr>env_api = plain_api, env_resolver = sample_resolver, env_address_limit = 16,
     env_admission = Inr (), env_transport = (\<lambda>_ _. Inl TransportTimeout), env_outcome = (\<lambda>_. Inr ()),
     env_parse_f64 = sample_f64, env_instant_limit = 0, env_now = 5\<rparr>"

definition sample_disallow :: RobotsDocument where
  "sample_disallow = \<lparr>groups = [\<lparr>user_agents = [''*''], rules = [\<lparr>pattern = ''/p'', allow = False,
     specificity = 2, end_anchored = False\<rparr>], crawl_delays = []\<rparr>], allow_all = False, deny_all = False\<rparr>"

definition sample_cache :: RobotsCache where
  "sample_cache = [(sample_origin, \<lparr>document = sample_disallow, expires_at = 7,
     entry_evidence = NetworkPolicyEvidence\<rparr>)]"

theorem override_only_parsed_disallow_witness:
  "\<exists>reason doc ev. audit_decision (robots (frozen sample_snapshot)) = Override reason
    \<and> fst (cached_or_fetch_document sample_env 5 (plain_https ''a.test'' ''/p/1'') ''bot'' sample_origin sample_cache)
        = Inr (doc, ev)
    \<and> \<not> allow_all doc \<and> \<not> deny_all doc"
proof -
  let ?adm = "\<lparr>admission_origin = sample_origin, admission_decision = Overridden,
    admission_crawl_delay = None, admission_evidence = CacheEvidence\<rparr>"
  have "fst (evaluate_inner sample_env 5 (plain_https ''a.test'' ''/p/1'') sample_snapshot sample_cache) = Inr ?adm"
    by code_simp
  from override_only_parsed_disallow [OF this] show ?thesis
    by (auto simp: sample_snapshot_def sample_settings_def)
qed

text \<open>
  A failed retrieval never becomes an admission and is never cached: a transport failure, a
  redirect, a rate limit, a server failure, an oversized or malformed body all leave the cache
  as it was (up to expired entries) and return an error.
\<close>
theorem failed_fetch_not_cached:
  "(case fetch_document env target ua k cache of
      (Inl e, cache1) \<Rightarrow> cache1 = cache
    | (Inr (doc, ev), cache1) \<Rightarrow>
        (\<exists>t response. validate_and_resolve (env_api env) (env_resolver env) (env_address_limit env)
             (robots_url (env_api env) target) = Inr t
         \<and> env_admission env = Inr () \<and> env_transport env t ua = Inr response
         \<and> length (body response) \<le> MAX_ROBOTS_RESPONSE_BYTES
         \<and> unat (status response) \<in> {200..299} \<union> {401, 403, 404}))"
proof -
  have st: "200 \<le> x \<and> x \<le> 299 \<longleftrightarrow> unat x \<in> {200..299}" "x = 401 \<longleftrightarrow> unat x = 401"
    "x = 403 \<longleftrightarrow> unat x = 403" "x = 404 \<longleftrightarrow> unat x = 404" for x :: u16
    by (simp_all add: word_le_nat_alt word_unat_eq_iff)
  have "length (body r) \<le> MAX_ROBOTS_RESPONSE_BYTES \<and> unat (status r) \<in> {200..299} \<union> {401, 403, 404}"
    if "document_of_response pf out r = Inr x" for pf out r x
    using that unfolding document_of_response_def st by (auto split: if_splits)
  then show ?thesis
    by (auto simp: fetch_document_def Let_def result_simps split: sum.splits prod.splits)
qed

text \<open>The bounded reader returns the concatenated chunks, and only when they fit.\<close>

lemma read_chunks_Inr:
  "length acc \<le> MAX_ROBOTS_RESPONSE_BYTES \<Longrightarrow>
   read_chunks acc cs = Inr b \<longleftrightarrow>
     (\<exists>xs. cs = map Inr xs \<and> b = acc @ concat xs \<and> length b \<le> MAX_ROBOTS_RESPONSE_BYTES)"
proof (induction acc cs rule: read_chunks.induct)
  case (3 acc chunk cs)
  show ?case
  proof (cases "length chunk > MAX_ROBOTS_RESPONSE_BYTES - length acc")
    case True
    then show ?thesis by (auto simp: Cons_eq_map_conv)
  next
    case False
    with 3 have "length (acc @ chunk) \<le> MAX_ROBOTS_RESPONSE_BYTES" by simp
    from 3(1) [OF False this] False show ?thesis
      by (simp add: Cons_eq_map_conv) (metis append.assoc concat.simps(2) list.inject)
  qed
qed auto

text \<open>
  However the server chunks its body, at most 512 KiB are retained: the bounded reader returns
  exactly the concatenation of the chunks, and only when it fits.
\<close>
theorem read_bounded_body_exact:
  "read_bounded_body len cs = Inr b \<longleftrightarrow>
     \<not> (case len of Some n \<Rightarrow> n > 524288 | None \<Rightarrow> False)
   \<and> (\<exists>xs. cs = map Inr xs \<and> b = concat xs \<and> length b \<le> 524288)"
  by (cases len) (auto simp: read_bounded_body_def read_chunks_Inr MAX_ROBOTS_RESPONSE_BYTES_def)

end
