(* ===== verification/Job_Store.thy ===== *)
theory Job_Store
  imports Snapshot
begin

text \<open>
  The tables behind the durable job queue and the statements the repositories run on them
  (\<open>migrations/0003_runs.sql\<close>, \<open>migrations/0004_jobs.sql\<close>, row types of
  \<open>crates/erabi-db/src/repositories/job.rs\<close>).  A table is a list of rows.  An insert, update or
  delete checks the table's primary key, unique, check and foreign key constraints and its
  triggers, and fails where SQLite aborts the statement.  The payload of a progress event, a
  JSON text with exactly two fields, is kept as those fields.  The lease columns of a job, which
  every statement writes together, form one optional group.  Integers are \<open>int\<close> with the
  conversions between \<open>i64\<close>, \<open>u32\<close> and \<open>u64\<close> written out.
\<close>

section \<open>Rows\<close>

datatype JobState = JobQueued | JobRunning | JobSucceeded | JobFailed | JobCancelled

datatype JobFailureCode =
    HandlerFailed | HandlerPanicked | LeaseExpiredFailure | CancelledFailure | StoragePressureFailure

datatype AttemptOutcome = AttemptRunning | AttemptSucceeded | AttemptFailed | AttemptLeaseExpired

datatype ProgressTerminalState = ProgressSucceeded | ProgressFailed | ProgressCancelled

datatype ProgressMetadataValue = CodeValue string | CountValue u32 | FlagValue bool

type_synonym JobId = string

record LeaseColumns =
  col_lease_id :: string
  col_lease_owner :: string
  col_acquired_at :: int
  col_expires_at :: int
  col_heartbeat_at :: int

record JobRow =
  job_id :: JobId
  kind :: string
  priority :: int
  state :: JobState
  parent_job_id :: "JobId option"
  crawl_run_id :: "string option"
  scheduled_at :: int
  current_attempt :: int
  max_attempts :: int
  lease_generation :: int
  lease_columns :: "LeaseColumns option"
  failure_code :: "JobFailureCode option"
  job_created_at :: int
  job_updated_at :: int

record JobLease =
  lease_id :: string
  lease_owner :: string
  generation :: int
  acquired_at :: int
  lease_expires_at :: int
  heartbeat_at :: int

record AttemptRow =
  attempt_id :: string
  attempt_job_id :: JobId
  attempt_number :: int
  attempt_lease_id :: string
  attempt_lease_generation :: int
  worker_id :: string
  started_at :: int
  finished_at :: "int option"
  outcome :: AttemptOutcome
  attempt_failure_code :: "JobFailureCode option"

record CheckpointRow =
  checkpoint_id :: string
  checkpoint_job_id :: JobId
  checkpoint_attempt_id :: "string option"
  checkpoint_json :: string
  checkpoint_created_at :: int

record ProgressRow =
  progress_id :: string
  progress_job_id :: JobId
  progress_attempt_id :: "string option"
  progress_sequence :: int
  event_type :: string
  metadata :: "(string \<times> ProgressMetadataValue) list"
  terminal :: "ProgressTerminalState option"
  progress_created_at :: int

record RunRow =
  run_id :: string
  run_row_type :: CrawlRunType
  run_status :: CrawlRunStatus
  run_snapshot_hash :: string
  run_compatibility_hash :: string

record queue_db =
  jobs :: "JobRow list"
  job_attempts :: "AttemptRow list"
  job_checkpoints :: "CheckpointRow list"
  job_progress_events :: "ProgressRow list"
  crawl_runs :: "RunRow list"

definition empty_db :: queue_db where
  "empty_db = \<lparr>jobs = [], job_attempts = [], job_checkpoints = [], job_progress_events = [], crawl_runs = []\<rparr>"

section \<open>Constraints and triggers\<close>

definition jobs_check :: "JobRow \<Rightarrow> bool" where
  "jobs_check r \<longleftrightarrow>
     1 \<le> length (kind r) \<and> length (kind r) \<le> 64
   \<and> 0 \<le> current_attempt r \<and> 1 \<le> max_attempts r \<and> 0 \<le> lease_generation r
   \<and> current_attempt r \<le> max_attempts r
   \<and> (state r = JobRunning \<longleftrightarrow> lease_columns r \<noteq> None)
   \<and> (case lease_columns r of None \<Rightarrow> True
      | Some c \<Rightarrow> col_heartbeat_at c \<le> col_expires_at c \<and> col_acquired_at c \<le> col_heartbeat_at c)"

definition legal_state_transition :: "JobState \<Rightarrow> JobState \<Rightarrow> bool" where
  "legal_state_transition old new \<longleftrightarrow>
     (old = JobQueued \<and> (new = JobRunning \<or> new = JobCancelled))
   \<or> (old = JobRunning \<and> (new = JobQueued \<or> new = JobSucceeded \<or> new = JobFailed \<or> new = JobCancelled))"

definition attempts_check :: "AttemptRow \<Rightarrow> bool" where
  "attempts_check a \<longleftrightarrow>
     1 \<le> attempt_number a \<and> 1 \<le> attempt_lease_generation a
   \<and> (case outcome a of
        AttemptRunning \<Rightarrow> finished_at a = None \<and> attempt_failure_code a = None
      | AttemptSucceeded \<Rightarrow> finished_at a \<noteq> None \<and> attempt_failure_code a = None
      | _ \<Rightarrow> finished_at a \<noteq> None \<and> attempt_failure_code a \<noteq> None)"

text \<open>\<open>job_attempts_terminal_history_immutable\<close>: only a running attempt may be updated, to a
  terminal outcome, with its identity unchanged.\<close>

definition attempt_update_allowed :: "AttemptRow \<Rightarrow> AttemptRow \<Rightarrow> bool" where
  "attempt_update_allowed old new \<longleftrightarrow>
     outcome old = AttemptRunning
   \<and> attempt_id new = attempt_id old \<and> attempt_job_id new = attempt_job_id old
   \<and> attempt_number new = attempt_number old \<and> attempt_lease_id new = attempt_lease_id old
   \<and> attempt_lease_generation new = attempt_lease_generation old
   \<and> worker_id new = worker_id old \<and> started_at new = started_at old
   \<and> outcome new \<noteq> AttemptRunning \<and> finished_at new \<noteq> None"

section \<open>Statements\<close>

text \<open>A transaction body: an error rolls every change back.\<close>

type_synonym ('e, 'a) tx = "queue_db \<Rightarrow> 'e + ('a \<times> queue_db)"

definition tx_return :: "'a \<Rightarrow> ('e, 'a) tx" where
  "tx_return a = (\<lambda>db. Inr (a, db))"

definition tx_fail :: "'e \<Rightarrow> ('e, 'a) tx" where
  "tx_fail e = (\<lambda>db. Inl e)"

definition tx_bind :: "('e, 'a) tx \<Rightarrow> ('a \<Rightarrow> ('e, 'b) tx) \<Rightarrow> ('e, 'b) tx" where
  "tx_bind m f = (\<lambda>db. case m db of Inl e \<Rightarrow> Inl e | Inr (a, db') \<Rightarrow> f a db')"

definition tx_guard :: "bool \<Rightarrow> 'e \<Rightarrow> ('e, unit) tx" where
  "tx_guard b e = (if b then tx_return () else tx_fail e)"

definition tx_read :: "(queue_db \<Rightarrow> 'a) \<Rightarrow> ('e, 'a) tx" where
  "tx_read f = (\<lambda>db. Inr (f db, db))"

definition tx_result :: "'e + 'a \<Rightarrow> ('e, 'a) tx" where
  "tx_result r = (case r of Inl e \<Rightarrow> tx_fail e | Inr a \<Rightarrow> tx_return a)"

definition tx_map_err :: "('d \<Rightarrow> 'e) \<Rightarrow> ('d, 'a) tx \<Rightarrow> ('e, 'a) tx" where
  "tx_map_err h m = (\<lambda>db. map_err h (m db))"

fun tx_for :: "('a \<Rightarrow> ('e, unit) tx) \<Rightarrow> 'a list \<Rightarrow> ('e, unit) tx" where
  "tx_for f [] = tx_return ()"
| "tx_for f (x # xs) = tx_bind (f x) (\<lambda>_. tx_for f xs)"

text \<open>Committing keeps the new database, an error keeps the old one.\<close>

definition transaction :: "('e, 'a) tx \<Rightarrow> queue_db \<Rightarrow> ('e + 'a) \<times> queue_db" where
  "transaction m db = (case m db of Inl e \<Rightarrow> (Inl e, db) | Inr (a, db') \<Rightarrow> (Inr a, db'))"

named_theorems tx_simps \<open>unfolding of transaction bodies\<close>

lemma tx_basic [tx_simps]:
  "tx_return a db = Inr (b, db') \<longleftrightarrow> b = a \<and> db' = db"
  "tx_fail e db = Inr (c, db') \<longleftrightarrow> False"
  "tx_bind m f db = Inr (d, db') \<longleftrightarrow> (\<exists>a db1. m db = Inr (a, db1) \<and> f a db1 = Inr (d, db'))"
  "tx_guard P e db = Inr (u, db') \<longleftrightarrow> P \<and> db' = db"
  "tx_read g db = Inr (v, db') \<longleftrightarrow> v = g db \<and> db' = db"
  "tx_result r db = Inr (w, db') \<longleftrightarrow> r = Inr w \<and> db' = db"
  "tx_map_err h m db = Inr (x, db') \<longleftrightarrow> m db = Inr (x, db')"
  by (auto simp: tx_return_def tx_fail_def tx_bind_def tx_guard_def tx_read_def tx_result_def
      tx_map_err_def map_err_def split: sum.splits)

definition insert_job :: "'e \<Rightarrow> JobRow \<Rightarrow> ('e, unit) tx" where
  "insert_job dberr r = (\<lambda>db.
     if job_id r \<notin> job_id ` set (jobs db) \<and> state r = JobQueued \<and> jobs_check r
      \<and> (case parent_job_id r of None \<Rightarrow> True | Some p \<Rightarrow> p = job_id r \<or> p \<in> job_id ` set (jobs db))
      \<and> (case crawl_run_id r of None \<Rightarrow> True | Some q \<Rightarrow> q \<in> run_id ` set (crawl_runs db))
     then Inr ((), db\<lparr>jobs := jobs db @ [r]\<rparr>) else Inl dberr)"

text \<open>\<open>UPDATE jobs\<close>: \<open>sets_state\<close> says whether the statement assigns the state column, which is
  what fires the transition trigger.  The result is the number of changed rows.\<close>

definition update_jobs :: "'e \<Rightarrow> bool \<Rightarrow> (JobRow \<Rightarrow> bool) \<Rightarrow> (JobRow \<Rightarrow> JobRow) \<Rightarrow> ('e, nat) tx" where
  "update_jobs dberr sets_state P f = (\<lambda>db.
     if list_all (\<lambda>r. P r \<longrightarrow> jobs_check (f r) \<and> (sets_state \<longrightarrow> legal_state_transition (state r) (state (f r)))) (jobs db)
     then Inr (length (filter P (jobs db)), db\<lparr>jobs := map (\<lambda>r. if P r then f r else r) (jobs db)\<rparr>)
     else Inl dberr)"

text \<open>\<open>DELETE FROM jobs\<close> fails while a row of another table or a child job refers to the job.\<close>

definition delete_jobs :: "'e \<Rightarrow> (JobRow \<Rightarrow> bool) \<Rightarrow> ('e, nat) tx" where
  "delete_jobs dberr P = (\<lambda>db.
     let gone = map job_id (filter P (jobs db)); kept = filter (\<lambda>r. \<not> P r) (jobs db) in
     if list_all (\<lambda>a. attempt_job_id a \<notin> set gone) (job_attempts db)
      \<and> list_all (\<lambda>c. checkpoint_job_id c \<notin> set gone) (job_checkpoints db)
      \<and> list_all (\<lambda>p. progress_job_id p \<notin> set gone) (job_progress_events db)
      \<and> list_all (\<lambda>r. case parent_job_id r of None \<Rightarrow> True | Some p \<Rightarrow> p \<notin> set gone) kept
     then Inr (length gone, db\<lparr>jobs := kept\<rparr>) else Inl dberr)"

definition insert_attempt :: "'e \<Rightarrow> AttemptRow \<Rightarrow> ('e, unit) tx" where
  "insert_attempt dberr a = (\<lambda>db.
     if attempt_id a \<notin> attempt_id ` set (job_attempts db) \<and> attempts_check a
      \<and> attempt_job_id a \<in> job_id ` set (jobs db)
      \<and> list_all (\<lambda>b. \<not> (attempt_job_id b = attempt_job_id a \<and> attempt_number b = attempt_number a)
            \<and> attempt_lease_id b \<noteq> attempt_lease_id a) (job_attempts db)
     then Inr ((), db\<lparr>job_attempts := job_attempts db @ [a]\<rparr>) else Inl dberr)"

definition update_attempts :: "'e \<Rightarrow> (AttemptRow \<Rightarrow> bool) \<Rightarrow> (AttemptRow \<Rightarrow> AttemptRow) \<Rightarrow> ('e, nat) tx" where
  "update_attempts dberr P f = (\<lambda>db.
     if list_all (\<lambda>a. P a \<longrightarrow> attempts_check (f a) \<and> attempt_update_allowed a (f a)) (job_attempts db)
     then Inr (length (filter P (job_attempts db)),
       db\<lparr>job_attempts := map (\<lambda>a. if P a then f a else a) (job_attempts db)\<rparr>)
     else Inl dberr)"

definition insert_checkpoint :: "'e \<Rightarrow> CheckpointRow \<Rightarrow> ('e, unit) tx" where
  "insert_checkpoint dberr c = (\<lambda>db.
     if checkpoint_id c \<notin> checkpoint_id ` set (job_checkpoints db)
      \<and> checkpoint_job_id c \<in> job_id ` set (jobs db)
      \<and> (case checkpoint_attempt_id c of None \<Rightarrow> True | Some a \<Rightarrow> a \<in> attempt_id ` set (job_attempts db))
     then Inr ((), db\<lparr>job_checkpoints := job_checkpoints db @ [c]\<rparr>) else Inl dberr)"

definition insert_progress :: "'e \<Rightarrow> ProgressRow \<Rightarrow> ('e, unit) tx" where
  "insert_progress dberr p = (\<lambda>db.
     if progress_id p \<notin> progress_id ` set (job_progress_events db)
      \<and> progress_job_id p \<in> job_id ` set (jobs db)
      \<and> (case progress_attempt_id p of None \<Rightarrow> True | Some a \<Rightarrow> a \<in> attempt_id ` set (job_attempts db))
      \<and> 1 \<le> progress_sequence p \<and> 1 \<le> length (event_type p) \<and> length (event_type p) \<le> 64
      \<and> list_all (\<lambda>q. \<not> (progress_job_id q = progress_job_id p \<and> progress_sequence q = progress_sequence p))
          (job_progress_events db)
     then Inr ((), db\<lparr>job_progress_events := job_progress_events db @ [p]\<rparr>) else Inl dberr)"

definition insert_run :: "'e \<Rightarrow> RunRow \<Rightarrow> ('e, unit) tx" where
  "insert_run dberr r = (\<lambda>db.
     if run_id r \<notin> run_id ` set (crawl_runs db)
     then Inr ((), db\<lparr>crawl_runs := crawl_runs db @ [r]\<rparr>) else Inl dberr)"

definition update_runs :: "(RunRow \<Rightarrow> bool) \<Rightarrow> CrawlRunStatus \<Rightarrow> ('e, nat) tx" where
  "update_runs P new_status = (\<lambda>db.
     Inr (length (filter P (crawl_runs db)),
       db\<lparr>crawl_runs := map (\<lambda>r. if P r then r\<lparr>run_status := new_status\<rparr> else r) (crawl_runs db)\<rparr>))"

end
