(* ===== verification/Progress.thy ===== *)
theory Progress
  imports Job_Store
begin

text \<open>
  The append-only progress stream of a job (\<open>crates/erabi-db/src/repositories/progress.rs\<close>):
  validated keys and metadata, allocation of the next sequence number, the single terminal event,
  and bounded replay.  UUID parsing is a parameter; fresh event identifiers are arguments.
\<close>

section \<open>Validated input\<close>

datatype ProgressRepositoryError =
    ProgressDatabase
  | InvalidProgressKey
  | InvalidProgressMetadata
  | InvalidAttemptId
  | InvalidProgressSequence
  | InvalidReplayRequest
  | ProgressJobNotFound
  | AttemptNotFound
  | AttemptJobMismatch
  | TerminalStreamClosed
  | ProgressInvariant

definition is_upper_code_byte :: "char \<Rightarrow> bool" where
  "is_upper_code_byte b \<longleftrightarrow> is_ascii_uppercase b \<or> is_ascii_digit b \<or> b = CHR ''_''"

definition valid_code :: "string \<Rightarrow> bool" where
  "valid_code s \<longleftrightarrow> s \<noteq> [] \<and> length s \<le> 64 \<and> list_all is_upper_code_byte s"

definition progress_key_new :: "string \<Rightarrow> ProgressRepositoryError + string" where
  "progress_key_new s = (if valid_code s then Inr s else Inl InvalidProgressKey)"

definition sensitive_names :: "string list" where
  "sensitive_names = [''token'', ''secret'', ''password'', ''credential'', ''authorization'', ''cookie'',
     ''connection'', ''request'', ''response'', ''body'', ''record'']"

definition has_sensitive_name :: "string \<Rightarrow> bool" where
  "has_sensitive_name s \<longleftrightarrow> list_ex (\<lambda>n. contains_str n s) sensitive_names"

definition valid_metadata_key :: "string \<Rightarrow> bool" where
  "valid_metadata_key s \<longleftrightarrow>
     length s \<le> 32
   \<and> (case s of [] \<Rightarrow> False
      | c # cs \<Rightarrow> is_ascii_lowercase c
          \<and> list_all (\<lambda>b. is_ascii_lowercase b \<or> is_ascii_digit b \<or> b = CHR ''_'') cs)
   \<and> \<not> has_sensitive_name s"

definition metadata_key_new :: "string \<Rightarrow> ProgressRepositoryError + string" where
  "metadata_key_new s = (if valid_metadata_key s then Inr s else Inl InvalidProgressMetadata)"

definition valid_metadata_code :: "string \<Rightarrow> bool" where
  "valid_metadata_code s \<longleftrightarrow> valid_code s \<and> \<not> has_sensitive_name (to_ascii_lowercase s)"

definition metadata_code_new :: "string \<Rightarrow> ProgressRepositoryError + string" where
  "metadata_code_new s = (if valid_metadata_code s then Inr s else Inl InvalidProgressMetadata)"

definition metadata_new ::
  "(string \<times> ProgressMetadataValue) list \<Rightarrow> ProgressRepositoryError + (string \<times> ProgressMetadataValue) list" where
  "metadata_new entries = (if length entries > 16 then Inl InvalidProgressMetadata else Inr entries)"

record NewProgressEvent =
  new_job_id :: JobId
  new_attempt_id :: "string option"
  new_key :: string
  new_metadata :: "(string \<times> ProgressMetadataValue) list"
  new_terminal :: "ProgressTerminalState option"

definition terminal_event :: "JobId \<Rightarrow> ProgressTerminalState \<Rightarrow> NewProgressEvent" where
  "terminal_event j t = \<lparr>new_job_id = j, new_attempt_id = None, new_key = ''COMPLETED'', new_metadata = [],
     new_terminal = Some t\<rparr>"

section \<open>Reading and appending\<close>

definition into_metadata ::
  "ProgressRow \<Rightarrow> ProgressRepositoryError + ((string \<times> ProgressMetadataValue) list \<times> ProgressTerminalState option)" where
  "into_metadata row =
     (if list_all (\<lambda>(k, v). valid_metadata_key k
           \<and> (case v of CodeValue c \<Rightarrow> valid_metadata_code c | _ \<Rightarrow> True)) (metadata row)
       \<and> length (metadata row) \<le> 16
      then Inr (metadata row, terminal row) else Inl ProgressInvariant)"

definition stream :: "JobId \<Rightarrow> queue_db \<Rightarrow> ProgressRow list" where
  "stream j db = filter (\<lambda>p. progress_job_id p = j) (job_progress_events db)"

definition ensure_job_exists :: "JobId \<Rightarrow> (ProgressRepositoryError, unit) tx" where
  "ensure_job_exists j = (\<lambda>db.
     if j \<in> job_id ` set (jobs db) then Inr ((), db) else Inl ProgressJobNotFound)"

definition ensure_attempt_belongs_to_job :: "NewProgressEvent \<Rightarrow> (ProgressRepositoryError, unit) tx" where
  "ensure_attempt_belongs_to_job e = (\<lambda>db.
     case new_attempt_id e of
       None \<Rightarrow> Inr ((), db)
     | Some a \<Rightarrow>
         (case find (\<lambda>r. attempt_id r = a) (job_attempts db) of
            None \<Rightarrow> Inl AttemptNotFound
          | Some r \<Rightarrow> if attempt_job_id r = new_job_id e then Inr ((), db) else Inl AttemptJobMismatch))"

text \<open>\<open>ORDER BY sequence DESC LIMIT 1\<close>.\<close>

definition last_event :: "ProgressRow list \<Rightarrow> ProgressRow option" where
  "last_event ps = (case sort_key progress_sequence ps of [] \<Rightarrow> None | qs \<Rightarrow> Some (last qs))"

definition ensure_stream_open :: "JobId \<Rightarrow> (ProgressRepositoryError, unit) tx" where
  "ensure_stream_open j = (\<lambda>db.
     case last_event (stream j db) of
       None \<Rightarrow> Inr ((), db)
     | Some row \<Rightarrow>
         (case into_metadata row of
            Inl e \<Rightarrow> Inl e
          | Inr (_, t) \<Rightarrow> if t \<noteq> None then Inl TerminalStreamClosed else Inr ((), db)))"

definition max_sequence :: "ProgressRow list \<Rightarrow> int" where
  "max_sequence ps = (case iter_max (map progress_sequence ps) of None \<Rightarrow> 0 | Some m \<Rightarrow> m)"

definition allocate_sequence :: "JobId \<Rightarrow> (ProgressRepositoryError, int) tx" where
  "allocate_sequence j = (\<lambda>db.
     case i64_checked_add (max_sequence (stream j db)) 1 of
       None \<Rightarrow> Inl ProgressInvariant
     | Some n \<Rightarrow> if n \<le> 0 then Inl ProgressInvariant else Inr (n, db))"

definition append_in_transaction ::
  "string \<Rightarrow> NewProgressEvent \<Rightarrow> int \<Rightarrow> (ProgressRepositoryError, ProgressRow) tx" where
  "append_in_transaction fresh_id e at =
     tx_bind (ensure_job_exists (new_job_id e)) (\<lambda>_.
     tx_bind (ensure_attempt_belongs_to_job e) (\<lambda>_.
     tx_bind (ensure_stream_open (new_job_id e)) (\<lambda>_.
     tx_bind (allocate_sequence (new_job_id e)) (\<lambda>n.
       let row = \<lparr>progress_id = fresh_id, progress_job_id = new_job_id e, progress_attempt_id = new_attempt_id e,
             progress_sequence = n, event_type = new_key e, metadata = new_metadata e,
             terminal = new_terminal e, progress_created_at = at\<rparr>
       in tx_bind (insert_progress ProgressDatabase row) (\<lambda>_. tx_return row)))))"

definition append_at :: "string \<Rightarrow> NewProgressEvent \<Rightarrow> int \<Rightarrow> queue_db \<Rightarrow> (ProgressRepositoryError + ProgressRow) \<times> queue_db" where
  "append_at fresh_id e at db = transaction (append_in_transaction fresh_id e at) db"

record ProgressReplayRequest =
  after :: "int option"
  limit :: nat

definition replay_request_new :: "int option \<Rightarrow> nat \<Rightarrow> ProgressRepositoryError + ProgressReplayRequest" where
  "replay_request_new a n = (if n = 0 \<or> n > 256 then Inl InvalidReplayRequest else Inr \<lparr>after = a, limit = n\<rparr>)"

record ProgressReplayPage =
  events :: "ProgressRow list"
  next_after :: "int option"

text \<open>The row checks of \<open>progress_event_from_row\<close>; \<open>uuid\<close> and \<open>uuid_v7\<close> decide the identifier
  formats.\<close>

definition progress_event_from_row ::
  "(string \<Rightarrow> bool) \<Rightarrow> (string \<Rightarrow> bool) \<Rightarrow> ProgressRow \<Rightarrow> ProgressRepositoryError + ProgressRow" where
  "progress_event_from_row uuid uuid_v7 row =
     (if \<not> uuid (progress_id row)
        \<or> (case progress_attempt_id row of None \<Rightarrow> False | Some a \<Rightarrow> \<not> uuid_v7 a)
        \<or> progress_sequence row \<le> 0 \<or> \<not> valid_code (event_type row)
      then Inl ProgressInvariant
      else res_bind (into_metadata row) (\<lambda>_. Inr row))"

definition replay ::
  "(string \<Rightarrow> bool) \<Rightarrow> (string \<Rightarrow> bool) \<Rightarrow> JobId \<Rightarrow> ProgressReplayRequest \<Rightarrow> queue_db \<Rightarrow>
   ProgressRepositoryError + ProgressReplayPage" where
  "replay uuid uuid_v7 j request db =
     (if j \<notin> job_id ` set (jobs db) then Inl ProgressJobNotFound
      else
        (let a = (case after request of None \<Rightarrow> 0 | Some x \<Rightarrow> x);
             rows = take (Suc (limit request))
               (sort_key progress_sequence (filter (\<lambda>p. a < progress_sequence p) (stream j db)))
         in res_bind (collect_results (progress_event_from_row uuid uuid_v7) (take (limit request) rows)) (\<lambda>es.
              Inr \<lparr>events = es,
                   next_after = (if length rows > limit request \<and> es \<noteq> [] then Some (progress_sequence (last es))
                                 else None)\<rparr>)))"

section \<open>The stream invariant\<close>

text \<open>Sequence numbers are 1, 2, 3 and so on without gaps, and only the last event is terminal.\<close>

definition stream_ok :: "ProgressRow list \<Rightarrow> bool" where
  "stream_ok ps \<longleftrightarrow> map progress_sequence ps = map int [1..<Suc (length ps)]
     \<and> list_all (\<lambda>p. terminal p = None) (butlast ps)"

lemma stream_ok_Nil [simp]: "stream_ok []"
  by (simp add: stream_ok_def)

lemma max_sequence_ok: "stream_ok ps \<Longrightarrow> max_sequence ps = int (length ps)"
proof -
  assume "stream_ok ps"
  then have "map progress_sequence ps = map int [1..<Suc (length ps)]" by (simp add: stream_ok_def)
  moreover have "iter_max (map int [1..<Suc n]) = (if n = 0 then None else Some (int n))" for n
    by (cases n) (auto simp: iter_max_Some)
  ultimately show ?thesis by (simp add: max_sequence_def)
qed

lemma last_event_ok:
  assumes "stream_ok ps"
  shows "last_event ps = (if ps = [] then None else Some (last ps))"
proof -
  have "sorted (map progress_sequence ps)"
    using assms by (simp add: stream_ok_def sorted_map del: upt_Suc)
  then have "sort_key progress_sequence ps = ps" by (rule sort_key_id_if_sorted)
  then show ?thesis by (cases ps) (auto simp: last_event_def split: list.splits)
qed

lemma stream_ok_snoc:
  assumes "stream_ok ps" and "progress_sequence p = int (length ps) + 1"
    and "ps = [] \<or> terminal (last ps) = None"
  shows "stream_ok (ps @ [p])"
proof -
  have "list_all (\<lambda>q. terminal q = None) ps"
    using assms(1,3) by (cases ps rule: rev_cases) (auto simp: stream_ok_def)
  then show ?thesis using assms(1,2) by (simp add: stream_ok_def)
qed

definition streams_ok :: "queue_db \<Rightarrow> bool" where
  "streams_ok db \<longleftrightarrow> (\<forall>j. stream_ok (stream j db))"

lemma append_raw:
  assumes "append_in_transaction fresh_id e at db = Inr (row, db')"
  shows "db' = db\<lparr>job_progress_events := job_progress_events db @ [row]\<rparr>
    \<and> progress_job_id row = new_job_id e \<and> terminal row = new_terminal e
    \<and> progress_sequence row = max_sequence (stream (new_job_id e) db) + 1
    \<and> (\<forall>r. last_event (stream (new_job_id e) db) = Some r \<longrightarrow> terminal r = None)"
  using assms
  by (auto simp: append_in_transaction_def tx_simps Let_def ensure_job_exists_def
      ensure_attempt_belongs_to_job_def ensure_stream_open_def allocate_sequence_def
      insert_progress_def i64_checked_add_def into_metadata_def
      split: if_splits option.splits sum.splits prod.splits)

lemma append_effect:
  assumes "append_in_transaction fresh_id e at db = Inr (row, db')" and "streams_ok db"
  shows "db' = db\<lparr>job_progress_events := job_progress_events db @ [row]\<rparr>"
    and "progress_job_id row = new_job_id e" and "terminal row = new_terminal e"
    and "progress_sequence row = int (length (stream (new_job_id e) db)) + 1"
    and "stream (new_job_id e) db = [] \<or> terminal (last (stream (new_job_id e) db)) = None"
proof -
  have ok: "stream_ok (stream (new_job_id e) db)" using assms(2) by (simp add: streams_ok_def)
  note raw = append_raw [OF assms(1)]
  show "db' = db\<lparr>job_progress_events := job_progress_events db @ [row]\<rparr>"
    "progress_job_id row = new_job_id e" "terminal row = new_terminal e"
    using raw by auto
  show "progress_sequence row = int (length (stream (new_job_id e) db)) + 1"
    using raw max_sequence_ok [OF ok] by simp
  show "stream (new_job_id e) db = [] \<or> terminal (last (stream (new_job_id e) db)) = None"
    using raw last_event_ok [OF ok] by (cases "stream (new_job_id e) db = []") auto
qed

lemma append_streams_ok:
  assumes "append_in_transaction fresh_id e at db = Inr (row, db')" and ok: "streams_ok db"
  shows "streams_ok db'"
proof -
  note eff = append_effect [OF assms]
  have "stream_ok (stream j db')" for j
  proof (cases "j = new_job_id e")
    case True
    have "stream j db' = stream j db @ [row]" using eff(1,2) True by (simp add: stream_def)
    with eff ok True show ?thesis by (simp add: streams_ok_def stream_ok_snoc)
  next
    case False
    then have "stream j db' = stream j db" using eff(1,2) by (simp add: stream_def)
    with ok show ?thesis by (simp add: streams_ok_def)
  qed
  then show ?thesis by (simp add: streams_ok_def)
qed

text \<open>A history of appends on a database without progress events.\<close>

fun append_all :: "(string \<times> NewProgressEvent \<times> int) list \<Rightarrow> queue_db \<Rightarrow> queue_db" where
  "append_all [] db = db"
| "append_all ((i, e, t) # es) db = append_all es (snd (append_at i e t db))"

lemma append_all_streams_ok: "streams_ok db \<Longrightarrow> streams_ok (append_all es db)"
proof (induction es db rule: append_all.induct)
  case (2 i e t es db)
  have "streams_ok (snd (append_at i e t db))"
    using 2(2) append_streams_ok by (auto simp: append_at_def transaction_def split: sum.splits)
  then show ?case using 2(1) by simp
qed simp

text \<open>
  C31. Whatever is appended, in any order and with any failures, every job's progress stream is
  numbered 1, 2, 3, ... without gaps, at most its last event is terminal, and an append to a
  stream that ended is refused without changing anything.
\<close>
theorem progress_streams_well_formed:
  "let db = append_all es (base\<lparr>job_progress_events := []\<rparr>) in
   map progress_sequence (stream j db) = map int [1..<Suc (length (stream j db))]
   \<and> list_all (\<lambda>p. terminal p = None) (butlast (stream j db))
   \<and> (stream j db \<noteq> [] \<and> terminal (last (stream j db)) \<noteq> None \<and> new_job_id e = j
        \<longrightarrow> (\<exists>err. append_at i e t db = (Inl err, db)))"
proof -
  let ?db = "append_all es (base\<lparr>job_progress_events := []\<rparr>)"
  have ok: "streams_ok ?db"
    by (rule append_all_streams_ok) (simp add: streams_ok_def stream_def)
  then have sj: "stream_ok (stream j ?db)" by (simp add: streams_ok_def)
  have "\<exists>err. append_at i e t ?db = (Inl err, ?db)"
    if "stream j ?db \<noteq> []" "terminal (last (stream j ?db)) \<noteq> None" "new_job_id e = j"
  proof (cases "append_in_transaction i e t ?db")
    case (Inl err)
    then show ?thesis by (simp add: append_at_def transaction_def)
  next
    case (Inr r)
    obtain row db' where r: "r = (row, db')" by (cases r)
    from append_effect(5) [OF Inr [unfolded r] ok] that show ?thesis by simp
  qed
  with sj show ?thesis by (auto simp: Let_def stream_ok_def)
qed

definition sample_job_row :: JobRow where
  "sample_job_row = \<lparr>job_id = ''j1'', kind = ''K'', priority = 0, state = JobQueued, parent_job_id = None,
     crawl_run_id = None, scheduled_at = 0, current_attempt = 0, max_attempts = 1, lease_generation = 0,
     lease_columns = None, failure_code = None, job_created_at = 0, job_updated_at = 0\<rparr>"

definition sample_progress_db :: queue_db where
  "sample_progress_db = empty_db\<lparr>jobs := [sample_job_row]\<rparr>"

definition sample_appends :: "(string \<times> NewProgressEvent \<times> int) list" where
  "sample_appends = [(''a'', \<lparr>new_job_id = ''j1'', new_attempt_id = None, new_key = ''LOADING'',
       new_metadata = [], new_terminal = None\<rparr>, 1), (''b'', terminal_event ''j1'' ProgressSucceeded, 2)]"

theorem progress_streams_well_formed_witness:
  "\<exists>err. append_at ''c'' (terminal_event ''j1'' ProgressFailed) 3
     (append_all sample_appends (sample_progress_db\<lparr>job_progress_events := []\<rparr>)) =
   (Inl err, append_all sample_appends (sample_progress_db\<lparr>job_progress_events := []\<rparr>))"
proof -
  let ?db = "append_all sample_appends (sample_progress_db\<lparr>job_progress_events := []\<rparr>)"
  have "stream ''j1'' ?db \<noteq> [] \<and> terminal (last (stream ''j1'' ?db)) \<noteq> None" by code_simp
  moreover have "new_job_id (terminal_event ''j1'' ProgressFailed) = ''j1''" by (simp add: terminal_event_def)
  ultimately show ?thesis
    using progress_streams_well_formed [of sample_appends sample_progress_db "''j1''"
        "terminal_event ''j1'' ProgressFailed" "''c''" 3]
    unfolding Let_def by blast
qed

section \<open>Replay\<close>

lemma stream_ok_nth:
  assumes "stream_ok ps" and "i < length ps"
  shows "progress_sequence (ps ! i) = int (Suc i)"
proof -
  have "map progress_sequence ps ! i = map int [1..<Suc (length ps)] ! i"
    using assms(1) by (simp add: stream_ok_def del: upt_Suc)
  with assms(2) show ?thesis by (simp del: upt_Suc)
qed

lemma stream_drop:
  assumes "stream_ok ps"
  shows "filter (\<lambda>p. int k < progress_sequence p) ps = drop k ps"
proof -
  note seq = stream_ok_nth [OF assms]
  have "filter (\<lambda>p. int k < progress_sequence p) ps =
      filter (\<lambda>p. int k < progress_sequence p) (take k ps) @ filter (\<lambda>p. int k < progress_sequence p) (drop k ps)"
    by (simp flip: filter_append)
  moreover have "filter (\<lambda>p. int k < progress_sequence p) (take k ps) = []"
    using seq by (auto simp: filter_empty_conv in_set_conv_nth)
  moreover have "filter (\<lambda>p. int k < progress_sequence p) (drop k ps) = drop k ps"
    using seq by (auto simp: filter_id_conv in_set_conv_nth)
  ultimately show ?thesis by simp
qed

lemma collect_identity:
  "list_all (\<lambda>x. f x = Inr x) xs \<Longrightarrow> collect_results f xs = Inr xs"
  by (induction xs) auto

lemma progress_event_from_row_Inr: "progress_event_from_row u v row = Inr r \<Longrightarrow> r = row"
  by (auto simp: progress_event_from_row_def result_simps split: if_splits)

text \<open>
  C30. Replay loses and repeats nothing: on any append history whose rows are readable, the page
  after position \<open>k\<close> is exactly the next \<open>n\<close> events of the stream in order, and a following
  cursor is given if and only if more events exist; it is the position of the last one returned.
\<close>
theorem replay_page_exact:
  assumes "db = append_all es (base\<lparr>job_progress_events := []\<rparr>)"
    and "j \<in> job_id ` set (jobs db)" and "0 < n" and "k \<le> length (stream j db)"
    and "list_all (\<lambda>row. progress_event_from_row uuid uuid_v7 row \<noteq> Inl ProgressInvariant) (stream j db)"
  shows "replay uuid uuid_v7 j \<lparr>after = Some (int k), limit = n\<rparr> db =
    Inr \<lparr>events = take n (drop k (stream j db)),
         next_after = (if k + n < length (stream j db) then Some (int (k + n)) else None)\<rparr>"
proof -
  let ?s = "stream j db"
  have "streams_ok db"
    unfolding assms(1) by (rule append_all_streams_ok) (simp add: streams_ok_def stream_def)
  then have ok: "stream_ok ?s" by (simp add: streams_ok_def)
  have sorted: "sorted (map progress_sequence ?s)"
    using ok by (simp add: stream_ok_def sorted_map del: upt_Suc)
  have rows: "sort_key progress_sequence (filter (\<lambda>p. int k < progress_sequence p) ?s) = drop k ?s"
    using sorted by (simp add: stream_drop [OF ok] sort_key_id_if_sorted sorted_wrt_drop drop_map flip: drop_map)
  have readable: "progress_event_from_row uuid uuid_v7 row = Inr row" if "row \<in> set ?s" for row
    using assms(5) that
    by (auto simp: list_all_iff progress_event_from_row_def into_metadata_def split: if_splits)
  have "collect_results (progress_event_from_row uuid uuid_v7) (take n (drop k ?s)) = Inr (take n (drop k ?s))"
    by (rule collect_identity) (auto simp: list_all_iff intro!: readable dest!: in_set_takeD in_set_dropD)
  moreover have "progress_sequence (last (take n (drop k ?s))) = int (k + n)" if "k + n < length ?s"
  proof -
    have "take n (drop k ?s) \<noteq> []" "length (take n (drop k ?s)) = n" using that assms(3) by auto
    then have "last (take n (drop k ?s)) = ?s ! (k + n - 1)"
      using assms(3) that by (simp add: last_conv_nth nth_take)
    with stream_ok_nth [OF ok, of "k + n - 1"] that assms(3) show ?thesis by simp
  qed
  ultimately show ?thesis
    using assms(2,3,4) rows stream_drop [OF ok, of k] by (auto simp: replay_def Let_def)
qed

theorem replay_page_exact_witness:
  "replay (\<lambda>_. True) (\<lambda>_. True) ''j1'' \<lparr>after = Some (int 0), limit = 1\<rparr>
     (append_all sample_appends (sample_progress_db\<lparr>job_progress_events := []\<rparr>)) =
   Inr \<lparr>events = take 1 (drop 0 (stream ''j1'' (append_all sample_appends (sample_progress_db\<lparr>job_progress_events := []\<rparr>)))),
        next_after = Some 1\<rparr>"
proof -
  let ?db = "append_all sample_appends (sample_progress_db\<lparr>job_progress_events := []\<rparr>)"
  have j: "''j1'' \<in> job_id ` set (jobs ?db)" by code_simp
  have l: "length (stream ''j1'' ?db) = 2" by code_simp
  have r: "list_all (\<lambda>row. progress_event_from_row (\<lambda>_. True) (\<lambda>_. True) row \<noteq> Inl ProgressInvariant)
      (stream ''j1'' ?db)" by code_simp
  from replay_page_exact [OF refl j _ _ r, of 1 0] l show ?thesis by simp
qed

end
