(* ===== verification/Checkpoint.thy ===== *)
theory Checkpoint
  imports Progress
begin

text \<open>
  Append-only checkpoint evidence (\<open>crates/erabi-db/src/repositories/checkpoint.rs\<close>): bounded
  envelopes, ownership of the running attempt, the sequence number of a new checkpoint, the order
  of the evidence, and the assessment of a job whose lease expired.  The JSON library is a record
  of functions; what the proofs need of it is stated where it is needed.
\<close>

section \<open>Envelopes\<close>

datatype CheckpointRepositoryError =
    CheckpointDatabase | UnsupportedFormatVersion | InvalidEnvelope | PayloadTooLarge
  | MalformedCheckpoint | CheckpointSerialization | CheckpointNotFound | CheckpointLeaseLost

definition CHECKPOINT_ENVELOPE_FORMAT_VERSION :: u16 where
  "CHECKPOINT_ENVELOPE_FORMAT_VERSION = 1"

definition MAX_CHECKPOINT_BYTES :: nat where
  "MAX_CHECKPOINT_BYTES = 64 * 1024"

record CheckpointIdentity =
  snapshot_id :: string
  identity_snapshot_hash :: string
  compatibility_hash :: string

record CheckpointEnvelope =
  format_version :: u16
  sequence :: nat
  identity :: CheckpointIdentity
  payload_kind :: string
  payload :: json

definition bounded_non_empty :: "string \<Rightarrow> nat \<Rightarrow> CheckpointRepositoryError + unit" where
  "bounded_non_empty v max_bytes = (if blank v \<or> length v > max_bytes then Inl InvalidEnvelope else Inr ())"

definition valid_hash :: "string \<Rightarrow> CheckpointRepositoryError + unit" where
  "valid_hash v = (if length v \<noteq> 64 \<or> \<not> list_all is_ascii_hexdigit v then Inl InvalidEnvelope else Inr ())"

definition validate_identity :: "CheckpointIdentity \<Rightarrow> CheckpointRepositoryError + unit" where
  "validate_identity i =
     res_bind (bounded_non_empty (snapshot_id i) 128) (\<lambda>_.
     res_bind (valid_hash (identity_snapshot_hash i)) (\<lambda>_. valid_hash (compatibility_hash i)))"

definition identity_new :: "string \<Rightarrow> string \<Rightarrow> string \<Rightarrow> CheckpointRepositoryError + CheckpointIdentity" where
  "identity_new sid sh ch =
     (let i = \<lparr>snapshot_id = sid, identity_snapshot_hash = sh, compatibility_hash = ch\<rparr>
      in res_bind (validate_identity i) (\<lambda>_. Inr i))"

definition validate_payload_kind :: "string \<Rightarrow> CheckpointRepositoryError + unit" where
  "validate_payload_kind k = (if valid_code k then Inr () else Inl InvalidEnvelope)"

definition is_object :: "json \<Rightarrow> bool" where
  "is_object v \<longleftrightarrow> (case v of JObject _ \<Rightarrow> True | _ \<Rightarrow> False)"

definition validate_envelope :: "CheckpointEnvelope \<Rightarrow> CheckpointRepositoryError + unit" where
  "validate_envelope e =
     (if format_version e \<noteq> CHECKPOINT_ENVELOPE_FORMAT_VERSION then Inl UnsupportedFormatVersion
      else res_bind (validate_identity (identity e)) (\<lambda>_.
           res_bind (validate_payload_kind (payload_kind e)) (\<lambda>_.
             if is_object (payload e) then Inr () else Inl InvalidEnvelope)))"

definition envelope_new ::
  "CheckpointIdentity \<Rightarrow> string \<Rightarrow> json \<Rightarrow> CheckpointRepositoryError + CheckpointEnvelope" where
  "envelope_new i k p =
     (let e = \<lparr>format_version = CHECKPOINT_ENVELOPE_FORMAT_VERSION, sequence = 0, identity = i,
               payload_kind = k, payload = p\<rparr>
      in res_bind (validate_envelope e) (\<lambda>_. Inr e))"

text \<open>The functions of \<open>serde_json\<close> the module calls.\<close>

record json_codec =
  from_str :: "string \<Rightarrow> json option"
  as_u64 :: "string \<Rightarrow> nat option"
  envelope_from_value :: "json \<Rightarrow> CheckpointEnvelope option"
  envelope_to_string :: "CheckpointEnvelope \<Rightarrow> string option"

definition encode :: "json_codec \<Rightarrow> CheckpointEnvelope \<Rightarrow> CheckpointRepositoryError + string" where
  "encode codec e =
     res_bind (validate_envelope e) (\<lambda>_.
     res_bind (ok_or (envelope_to_string codec e) CheckpointSerialization) (\<lambda>s.
       if length s > MAX_CHECKPOINT_BYTES then Inl PayloadTooLarge else Inr s))"

definition unsupported_version :: "json_codec \<Rightarrow> (string \<times> json) list \<Rightarrow> bool" where
  "unsupported_version codec kvs \<longleftrightarrow>
     (case map_of kvs ''format_version'' of
        Some (JNumber n) \<Rightarrow> as_u64 codec n \<noteq> Some 1
      | _ \<Rightarrow> False)"

definition decode :: "json_codec \<Rightarrow> string \<Rightarrow> nat \<Rightarrow> CheckpointRepositoryError + CheckpointEnvelope" where
  "decode codec v encoded_length =
     (if encoded_length > MAX_CHECKPOINT_BYTES then Inl PayloadTooLarge
      else res_bind (ok_or (from_str codec v) MalformedCheckpoint) (\<lambda>parsed.
        case parsed of
          JObject kvs \<Rightarrow>
            if ''schema_version'' \<in> fst ` set kvs then Inl UnsupportedFormatVersion
            else if unsupported_version codec kvs then Inl UnsupportedFormatVersion
            else res_bind (ok_or (envelope_from_value codec parsed) MalformedCheckpoint) (\<lambda>e.
                 res_bind (validate_envelope e) (\<lambda>_.
                   if sequence e = 0 then Inl InvalidEnvelope else Inr e))
        | _ \<Rightarrow> Inl MalformedCheckpoint))"

section \<open>Evidence of a job\<close>

record CheckpointRecord =
  record_id :: string
  record_job_id :: JobId
  record_attempt_id :: "string option"
  checkpoint :: CheckpointEnvelope
  record_created_at :: int

definition attempt_of :: "string \<Rightarrow> queue_db \<Rightarrow> AttemptRow option" where
  "attempt_of a db = find (\<lambda>r. attempt_id r = a) (job_attempts db)"

definition record_from_row :: "json_codec \<Rightarrow> queue_db \<Rightarrow> CheckpointRow \<Rightarrow> CheckpointRepositoryError + CheckpointRecord" where
  "record_from_row codec db row =
     (case checkpoint_attempt_id row of
        None \<Rightarrow> Inl InvalidEnvelope
      | Some a \<Rightarrow>
          if map_option attempt_job_id (attempt_of a db) \<noteq> Some (checkpoint_job_id row) then Inl InvalidEnvelope
          else res_bind (decode codec (checkpoint_json row) (length (checkpoint_json row))) (\<lambda>e.
            Inr \<lparr>record_id = checkpoint_id row, record_job_id = checkpoint_job_id row,
                 record_attempt_id = Some a, checkpoint = e, record_created_at = checkpoint_created_at row\<rparr>))"

definition checkpoints_of :: "JobId \<Rightarrow> queue_db \<Rightarrow> CheckpointRow list" where
  "checkpoints_of j db = filter (\<lambda>c. checkpoint_job_id c = j) (job_checkpoints db)"

definition encoded_or_default :: "json_codec \<Rightarrow> CheckpointEnvelope \<Rightarrow> string" where
  "encoded_or_default codec e = (case encode codec e of Inr s \<Rightarrow> s | Inl _ \<Rightarrow> [])"

definition records_from_connection ::
  "json_codec \<Rightarrow> JobId \<Rightarrow> queue_db \<Rightarrow> CheckpointRepositoryError + CheckpointRecord list" where
  "records_from_connection codec j db =
     res_bind (collect_results (record_from_row codec db) (checkpoints_of j db)) (\<lambda>rs.
       Inr (sort_key (\<lambda>r. (sequence (checkpoint r), record_created_at r, encoded_or_default codec (checkpoint r))) rs))"

definition latest :: "json_codec \<Rightarrow> JobId \<Rightarrow> queue_db \<Rightarrow> CheckpointRepositoryError + CheckpointRecord option" where
  "latest codec j db =
     res_bind (records_from_connection codec j db) (\<lambda>rs. Inr (if rs = [] then None else Some (last rs)))"

definition next_checkpoint_sequence ::
  "json_codec \<Rightarrow> JobId \<Rightarrow> queue_db \<Rightarrow> CheckpointRepositoryError + nat" where
  "next_checkpoint_sequence codec j db =
     res_bind (collect_results (\<lambda>c. decode codec (checkpoint_json c) (length (checkpoint_json c))) (checkpoints_of j db)) (\<lambda>es.
       case iter_max (map sequence es) of
         None \<Rightarrow> Inr 1
       | Some m \<Rightarrow> if m + 1 < 2 ^ 64 then Inr (m + 1) else Inl InvalidEnvelope)"

definition i64_of_u64 :: "int \<Rightarrow> int" where
  "i64_of_u64 g = (if g < 2 ^ 63 then g else - (2 ^ 63))"

definition ensure_owned_attempt ::
  "JobId \<Rightarrow> string \<Rightarrow> JobLease \<Rightarrow> int \<Rightarrow> queue_db \<Rightarrow> CheckpointRepositoryError + unit" where
  "ensure_owned_attempt j a lease now db =
     (case find (\<lambda>r. job_id r = j) (jobs db) of
        None \<Rightarrow> Inl CheckpointNotFound
      | Some r \<Rightarrow>
          if state r \<noteq> JobRunning
            \<or> (case lease_columns r of None \<Rightarrow> True
               | Some c \<Rightarrow> col_lease_id c \<noteq> lease_id lease \<or> col_lease_owner c \<noteq> lease_owner lease
                   \<or> col_expires_at c \<le> now)
            \<or> lease_generation r \<noteq> i64_of_u64 (generation lease)
          then Inl CheckpointLeaseLost
          else if list_ex (\<lambda>t. attempt_id t = a \<and> attempt_job_id t = j \<and> attempt_lease_id t = lease_id lease
                  \<and> attempt_lease_generation t = i64_of_u64 (generation lease)
                  \<and> worker_id t = lease_owner lease \<and> outcome t = AttemptRunning) (job_attempts db)
          then Inr () else Inl CheckpointLeaseLost)"

definition append_checkpoint_in_transaction ::
  "json_codec \<Rightarrow> string \<Rightarrow> JobId \<Rightarrow> string \<Rightarrow> JobLease \<Rightarrow> CheckpointEnvelope \<Rightarrow> int \<Rightarrow>
   (CheckpointRepositoryError, CheckpointRecord) tx" where
  "append_checkpoint_in_transaction codec fresh_id j a lease e now =
     tx_bind (tx_guard (a \<noteq> [] \<and> length a \<le> 128) InvalidEnvelope) (\<lambda>_.
     tx_bind (\<lambda>db. tx_result (ensure_owned_attempt j a lease now db) db) (\<lambda>_.
     tx_bind (\<lambda>db. tx_result (next_checkpoint_sequence codec j db) db) (\<lambda>n.
       let stored = e\<lparr>sequence := n\<rparr> in
     tx_bind (tx_result (encode codec stored)) (\<lambda>text.
     tx_bind (insert_checkpoint CheckpointDatabase
       \<lparr>checkpoint_id = fresh_id, checkpoint_job_id = j, checkpoint_attempt_id = Some a,
        checkpoint_json = text, checkpoint_created_at = now\<rparr>) (\<lambda>_.
     tx_return \<lparr>record_id = fresh_id, record_job_id = j, record_attempt_id = Some a,
        checkpoint = stored, record_created_at = now\<rparr>)))))"

section \<open>Assessment of a stale job\<close>

datatype CheckpointEnvelopeDisposition = ResumeCandidate | RestartRequired | InvalidDisposition

definition active_checkpoint_lineage_is_valid :: "JobId \<Rightarrow> string \<Rightarrow> queue_db \<Rightarrow> bool" where
  "active_checkpoint_lineage_is_valid j a db \<longleftrightarrow>
     list_ex (\<lambda>r. job_id r = j \<and> state r = JobRunning \<and>
       (case lease_columns r of None \<Rightarrow> False | Some c \<Rightarrow>
          list_ex (\<lambda>t. attempt_id t = a \<and> attempt_job_id t = job_id r \<and> attempt_number t = current_attempt r
            \<and> outcome t = AttemptRunning \<and> attempt_lease_id t = col_lease_id c
            \<and> attempt_lease_generation t = lease_generation r \<and> worker_id t = col_lease_owner c)
            (job_attempts db))) (jobs db)"

definition assess_one_stale_job ::
  "json_codec \<Rightarrow> JobId \<Rightarrow> string option \<Rightarrow> queue_db \<Rightarrow> CheckpointRepositoryError + CheckpointEnvelopeDisposition" where
  "assess_one_stale_job codec j run db =
     (case records_from_connection codec j db of
        Inl e \<Rightarrow>
          if e \<in> {UnsupportedFormatVersion, MalformedCheckpoint, InvalidEnvelope, PayloadTooLarge}
          then Inr InvalidDisposition else Inl e
      | Inr rs \<Rightarrow>
          if rs = [] then Inr RestartRequired
          else (case record_attempt_id (last rs) of
            None \<Rightarrow> Inr InvalidDisposition
          | Some a \<Rightarrow>
              if \<not> active_checkpoint_lineage_is_valid j a db then Inr InvalidDisposition
              else (case run of
                None \<Rightarrow> Inr RestartRequired
              | Some q \<Rightarrow>
                  (case find (\<lambda>r. run_id r = q) (crawl_runs db) of
                     None \<Rightarrow> Inr InvalidDisposition
                   | Some r \<Rightarrow>
                       (case identity_new q (run_snapshot_hash r) (run_compatibility_hash r) of
                          Inl _ \<Rightarrow> Inr InvalidDisposition
                        | Inr current \<Rightarrow>
                            Inr (if identity (checkpoint (last rs)) = current
                                 then ResumeCandidate else RestartRequired))))))"

section \<open>Correctness\<close>

text \<open>Documented behaviour of the JSON library: what was printed for an envelope is parsed back to
  an object without a \<open>schema_version\<close> key, of a supported version, that deserialises to the
  envelope.\<close>

definition codec_roundtrips :: "json_codec \<Rightarrow> bool" where
  "codec_roundtrips codec \<longleftrightarrow>
     (\<forall>e s. format_version e = 1 \<longrightarrow> envelope_to_string codec e = Some s \<longrightarrow>
       (\<exists>kvs. from_str codec s = Some (JObject kvs) \<and> ''schema_version'' \<notin> fst ` set kvs
          \<and> \<not> unsupported_version codec kvs \<and> envelope_from_value codec (JObject kvs) = Some e))"

lemma decode_encode:
  assumes "codec_roundtrips codec" and "encode codec e = Inr s" and "sequence e \<noteq> 0"
  shows "decode codec s (length s) = Inr e"
proof -
  from assms(2) have v: "validate_envelope e = Inr ()" and s: "envelope_to_string codec e = Some s"
    and len: "length s \<le> MAX_CHECKPOINT_BYTES"
    by (auto simp: encode_def result_simps split: if_splits)
  have "format_version e = 1"
    using v by (auto simp: validate_envelope_def CHECKPOINT_ENVELOPE_FORMAT_VERSION_def split: if_splits)
  then obtain kvs where "from_str codec s = Some (JObject kvs)" "''schema_version'' \<notin> fst ` set kvs"
    "\<not> unsupported_version codec kvs" "envelope_from_value codec (JObject kvs) = Some e"
    using assms(1) s unfolding codec_roundtrips_def by blast
  with v len assms(3) show ?thesis by (simp add: decode_def)
qed

lemma collect_results_append:
  "collect_results f (xs @ ys) = res_bind (collect_results f xs) (\<lambda>as. res_bind (collect_results f ys) (\<lambda>bs. Inr (as @ bs)))"
proof (induction xs)
  case Nil
  show ?case by (cases "collect_results f ys") auto
next
  case (Cons x xs)
  then show ?case
    by (cases "f x"; cases "collect_results f xs"; cases "collect_results f ys") auto
qed

lemma sort_key_snoc_not_Nil: "sort_key k (ys @ [x]) \<noteq> []"
  using set_sort [of k "ys @ [x]"] by fastforce

lemma last_sort_key_greatest:
  assumes "\<forall>y \<in> set ys. k y < k x"
  shows "last (sort_key k (ys @ [x])) = x"
proof -
  let ?zs = "sort_key k (ys @ [x])"
  have "?zs \<noteq> []" by (rule sort_key_snoc_not_Nil)
  then have split: "?zs = butlast ?zs @ [last ?zs]" by simp
  have "sorted (map k ?zs)" by simp
  then have "\<forall>z \<in> set (butlast ?zs). k z \<le> k (last ?zs)"
    by (subst (asm) split) (auto simp: sorted_append)
  moreover have "set (butlast ?zs @ [last ?zs]) = set (ys @ [x])" unfolding split [symmetric] by simp
  then have "x = last ?zs \<or> x \<in> set (butlast ?zs)" by auto
  ultimately have "k x \<le> k (last ?zs)" by (metis order_refl)
  moreover have "last ?zs \<in> set (ys @ [x])" using \<open>?zs \<noteq> []\<close> last_in_set by fastforce
  ultimately show ?thesis using assms by auto
qed

lemma append_checkpoint_effect:
  assumes "append_checkpoint_in_transaction codec fresh_id j a lease e now db = Inr (r, db')"
  obtains encoded where
    "db' = db\<lparr>job_checkpoints := job_checkpoints db @ [\<lparr>checkpoint_id = fresh_id, checkpoint_job_id = j,
        checkpoint_attempt_id = Some a, checkpoint_json = encoded, checkpoint_created_at = now\<rparr>]\<rparr>"
    and "encode codec (checkpoint r) = Inr encoded"
    and "next_checkpoint_sequence codec j db = Inr (sequence (checkpoint r))"
    and "ensure_owned_attempt j a lease now db = Inr ()"
    and "r = \<lparr>record_id = fresh_id, record_job_id = j, record_attempt_id = Some a,
        checkpoint = e\<lparr>sequence := sequence (checkpoint r)\<rparr>, record_created_at = now\<rparr>"
  using assms
  by (auto simp: append_checkpoint_in_transaction_def tx_simps Let_def insert_checkpoint_def split: if_splits)

lemma next_sequence_greater:
  assumes "next_checkpoint_sequence codec j db = Inr n"
    and "collect_results (record_from_row codec db) (checkpoints_of j db) = Inr rs"
  shows "0 < n" and "\<forall>q \<in> set rs. sequence (checkpoint q) < n"
proof -
  from assms(1) obtain es where
    es: "collect_results (\<lambda>c. decode codec (checkpoint_json c) (length (checkpoint_json c))) (checkpoints_of j db) = Inr es"
    and mx: "(case iter_max (map sequence es) of None \<Rightarrow> Inr 1
       | Some m \<Rightarrow> if m + 1 < 2 ^ 64 then Inr (m + 1) else Inl InvalidEnvelope) = Inr n"
    by (auto simp: next_checkpoint_sequence_def res_bind_eq_Inr)
  have n: "(\<forall>m \<in> set (map sequence es). m < n) \<and> 0 < n"
  proof (cases "iter_max (map sequence es)")
    case None
    then show ?thesis using mx by auto
  next
    case (Some m)
    then have "n = Suc m" using mx by (simp split: if_splits)
    with Some show ?thesis
      unfolding iter_max_Some by (auto simp: less_Suc_eq_le)
  qed
  then show "0 < n" by simp
  show "\<forall>q \<in> set rs. sequence (checkpoint q) < n"
  proof
    fix q assume "q \<in> set rs"
    then obtain c where c: "c \<in> set (checkpoints_of j db)" "record_from_row codec db c = Inr q"
      using collect_results_set [OF assms(2)] by blast
    then have "decode codec (checkpoint_json c) (length (checkpoint_json c)) = Inr (checkpoint q)"
      by (auto simp: record_from_row_def result_simps split: option.splits if_splits)
    with c(1) have "checkpoint q \<in> set es" using collect_results_set [OF es] by blast
    with n show "sequence (checkpoint q) < n" by auto
  qed
qed

lemma attempt_of_owned:
  assumes "distinct (map attempt_id (job_attempts db))" and "ensure_owned_attempt j a lease now db = Inr ()"
  shows "map_option attempt_job_id (attempt_of a db) = Some j"
proof -
  from assms(2) obtain t where t: "t \<in> set (job_attempts db)" "attempt_id t = a" "attempt_job_id t = j"
    by (auto simp: ensure_owned_attempt_def list_ex_iff split: option.splits if_splits)
  have "find (\<lambda>r. attempt_id r = a) xs = Some t" if "distinct (map attempt_id xs)" "t \<in> set xs" for xs
    using that t(2) by (induction xs) auto
  with assms(1) t show ?thesis by (simp add: attempt_of_def)
qed

text \<open>
  C30. The checkpoint just committed is the one recovery reads: an append is accepted only from the
  owner of the running attempt, its sequence number exceeds every earlier one of the job, and
  the latest checkpoint of the job is afterwards exactly the appended record.
\<close>
theorem append_checkpoint_is_latest:
  assumes "codec_roundtrips codec"
    and "append_checkpoint_in_transaction codec fresh_id j a lease e now db = Inr (r, db')"
    and "records_from_connection codec j db = Inr earlier"
    and "distinct (map attempt_id (job_attempts db))"
  shows "latest codec j db' = Inr (Some r)
    \<and> list_all (\<lambda>q. sequence (checkpoint q) < sequence (checkpoint r)) earlier
    \<and> ensure_owned_attempt j a lease now db = Inr ()"
proof -
  from append_checkpoint_effect [OF assms(2)] obtain encoded where
    db': "db' = db\<lparr>job_checkpoints := job_checkpoints db @ [\<lparr>checkpoint_id = fresh_id, checkpoint_job_id = j,
        checkpoint_attempt_id = Some a, checkpoint_json = encoded, checkpoint_created_at = now\<rparr>]\<rparr>"
    and enc: "encode codec (checkpoint r) = Inr encoded"
    and n: "next_checkpoint_sequence codec j db = Inr (sequence (checkpoint r))"
    and own: "ensure_owned_attempt j a lease now db = Inr ()"
    and r: "r = \<lparr>record_id = fresh_id, record_job_id = j, record_attempt_id = Some a,
        checkpoint = e\<lparr>sequence := sequence (checkpoint r)\<rparr>, record_created_at = now\<rparr>"
    by blast
  let ?row = "\<lparr>checkpoint_id = fresh_id, checkpoint_job_id = j, checkpoint_attempt_id = Some a,
    checkpoint_json = encoded, checkpoint_created_at = now\<rparr>"
  from assms(3) obtain rs where
    rs: "collect_results (record_from_row codec db) (checkpoints_of j db) = Inr rs"
    and earlier: "set earlier = set rs"
    by (auto simp: records_from_connection_def result_simps)
  note seq = next_sequence_greater [OF n rs]
  have "attempt_of t db' = attempt_of t db" for t by (simp add: attempt_of_def db')
  then have same: "record_from_row codec db' = record_from_row codec db"
    by (intro ext) (simp only: record_from_row_def)
  have att: "map_option attempt_job_id (attempt_of a db) = Some j"
    using own by (intro attempt_of_owned [OF assms(4)])
  have "decode codec encoded (length encoded) = Inr (checkpoint r)"
    using decode_encode [OF assms(1) enc] seq(1) by simp
  moreover have "record_id r = fresh_id" "record_job_id r = j" "record_attempt_id r = Some a"
    "record_created_at r = now" by (subst r, simp)+
  ultimately have "record_from_row codec db ?row = Inr r"
    using att by (cases r) (auto simp: record_from_row_def)
  then have all: "collect_results (record_from_row codec db') (checkpoints_of j db') = Inr (rs @ [r])"
    using rs by (simp add: same) (simp add: db' checkpoints_of_def collect_results_append)
  let ?k = "\<lambda>r. (sequence (checkpoint r), record_created_at r, encoded_or_default codec (checkpoint r))"
  have "last (sort_key ?k (rs @ [r])) = r"
    by (rule last_sort_key_greatest) (use seq(2) in \<open>simp add: less_prod_def\<close>)
  then have "latest codec j db' = Inr (Some r)"
    by (simp only: latest_def records_from_connection_def all res_bind_simps sort_key_snoc_not_Nil if_False)
  with seq(2) own earlier show ?thesis by (simp add: list_all_iff)
qed

text \<open>A small codec and database on which the hypotheses hold: the envelope of one crawl is printed
  as its sequence number in unary.\<close>

definition sample_identity :: CheckpointIdentity where
  "sample_identity = \<lparr>snapshot_id = ''run1'', identity_snapshot_hash = replicate 64 CHR ''a'',
     compatibility_hash = replicate 64 CHR ''b''\<rparr>"

definition sample_envelope :: CheckpointEnvelope where
  "sample_envelope = \<lparr>format_version = 1, sequence = 0, identity = sample_identity,
     payload_kind = ''FRONTIER'', payload = JObject []\<rparr>"

definition unary_codec :: json_codec where
  "unary_codec = \<lparr>from_str = (\<lambda>s. Some (JObject [(''n'', JString s)])),
     as_u64 = (\<lambda>_. Some 1),
     envelope_from_value = (\<lambda>v. case v of
         JObject ((_, JString s) # _) \<Rightarrow> Some (sample_envelope\<lparr>sequence := length s\<rparr>) | _ \<Rightarrow> None),
     envelope_to_string = (\<lambda>e. if e = sample_envelope\<lparr>sequence := sequence e\<rparr>
         then Some (replicate (sequence e) CHR ''i'') else None)\<rparr>"

lemma unary_codec_roundtrips: "codec_roundtrips unary_codec"
  by (auto simp: codec_roundtrips_def unary_codec_def unsupported_version_def split: if_splits)

definition sample_job_lease :: JobLease where
  "sample_job_lease = \<lparr>lease_id = ''l1'', lease_owner = ''w1'', generation = 1, acquired_at = 10,
     lease_expires_at = 70, heartbeat_at = 10\<rparr>"

definition sample_running_db :: queue_db where
  "sample_running_db = empty_db\<lparr>
     jobs := [\<lparr>job_id = ''j1'', kind = ''crawl'', priority = 0, state = JobRunning, parent_job_id = None,
       crawl_run_id = None, scheduled_at = 0, current_attempt = 1, max_attempts = 3, lease_generation = 1,
       lease_columns = Some \<lparr>col_lease_id = ''l1'', col_lease_owner = ''w1'', col_acquired_at = 10,
         col_expires_at = 70, col_heartbeat_at = 10\<rparr>,
       failure_code = None, job_created_at = 0, job_updated_at = 10\<rparr>],
     job_attempts := [\<lparr>attempt_id = ''a1'', attempt_job_id = ''j1'', attempt_number = 1,
       attempt_lease_id = ''l1'', attempt_lease_generation = 1, worker_id = ''w1'', started_at = 10,
       finished_at = None, outcome = AttemptRunning, attempt_failure_code = None\<rparr>],
     job_checkpoints := [\<lparr>checkpoint_id = ''c1'', checkpoint_job_id = ''j1'',
       checkpoint_attempt_id = Some ''a1'', checkpoint_json = ''i'', checkpoint_created_at = 11\<rparr>]\<rparr>"

lemma sample_texts_valid:
  "valid_code ''FRONTIER''" "\<not> blank ''run1''"
  "list_all is_ascii_hexdigit (replicate 64 CHR ''a'')" "list_all is_ascii_hexdigit (replicate 64 CHR ''b'')"
  by code_simp+

lemmas sample_defs = sample_texts_valid sample_running_db_def empty_db_def unary_codec_def sample_envelope_def
  sample_identity_def sample_job_lease_def checkpoints_of_def decode_def validate_envelope_def
  CHECKPOINT_ENVELOPE_FORMAT_VERSION_def MAX_CHECKPOINT_BYTES_def unsupported_version_def
  validate_identity_def bounded_non_empty_def valid_hash_def validate_payload_kind_def is_object_def

theorem append_checkpoint_is_latest_witness:
  "\<exists>r db'. append_checkpoint_in_transaction unary_codec ''c2'' ''j1'' ''a1'' sample_job_lease
       sample_envelope 20 sample_running_db = Inr (r, db')
     \<and> sequence (checkpoint r) = 2 \<and> latest unary_codec ''j1'' db' = Inr (Some r)"
proof -
  let ?m = "append_checkpoint_in_transaction unary_codec ''c2'' ''j1'' ''a1'' sample_job_lease
       sample_envelope 20 sample_running_db"
  have "case ?m of Inr (r, db') \<Rightarrow> sequence (checkpoint r) = 2 | Inl _ \<Rightarrow> False"
    by (simp add: sample_defs append_checkpoint_in_transaction_def tx_bind_def tx_guard_def tx_return_def
        tx_result_def ensure_owned_attempt_def i64_of_u64_def next_checkpoint_sequence_def encode_def
        insert_checkpoint_def Let_def)
  then obtain r db' where m: "?m = Inr (r, db')" and two: "sequence (checkpoint r) = 2"
    by (cases ?m) auto
  have "case records_from_connection unary_codec ''j1'' sample_running_db of Inr _ \<Rightarrow> True | Inl _ \<Rightarrow> False"
    by (simp add: sample_defs records_from_connection_def record_from_row_def attempt_of_def)
  then obtain earlier where e: "records_from_connection unary_codec ''j1'' sample_running_db = Inr earlier"
    by (cases "records_from_connection unary_codec ''j1'' sample_running_db") auto
  have "distinct (map attempt_id (job_attempts sample_running_db))" by (simp add: sample_running_db_def)
  from append_checkpoint_is_latest [OF unary_codec_roundtrips m e this] m two show ?thesis by blast
qed

end
