(* ===== verification/Job_Queue.thy ===== *)
theory Job_Queue
  imports Checkpoint
begin

text \<open>
  The durable job queue (\<open>crates/erabi-db/src/repositories/job.rs\<close>): every public operation of
  \<open>JobRepository\<close> with its transaction boundary, on the tables of \<open>Job_Store\<close>.  A \<open>JobRecord\<close> is
  a row whose columns passed \<open>job_from_row\<close>, with its lease read by \<open>record_lease\<close>; a
  \<open>JobAttempt\<close> is a row of \<open>job_attempts\<close>.  The identifiers the code draws from
  \<open>Uuid::now_v7\<close> are arguments.  \<open>job_env\<close> holds what the module calls outside these tables:
  the JSON library, the UUID parser, and whether the crawler rows and the audit payload a new run
  refers to can be written.
\<close>

section \<open>Errors, kinds and record conversion\<close>

datatype JobRepositoryError =
    JobDatabase | InvalidJobKind | InvalidMaxAttempts | JobNotFound | IllegalTransition
  | AttemptsExhausted | RemovalUnsafe | NotReprioritizable | ActionAlreadyActive
  | RetryAlreadyContinued | JobLeaseLost | StorageAdmissionBlocked | QueueInvariant
  | CheckpointFailure CheckpointRepositoryError

record 'u job_env =
  env_codec :: json_codec
  parse_run_id :: "string \<Rightarrow> string option"
  snapshot_to_string :: "'u CrawlRunSnapshot \<Rightarrow> string option"
  run_references_ok :: "'u CrawlRunSnapshot \<Rightarrow> bool"

definition job_kind_new :: "string \<Rightarrow> JobRepositoryError + string" where
  "job_kind_new v =
     (if v = [] \<or> length v > 64
       \<or> \<not> list_all (\<lambda>b. is_ascii_uppercase b \<or> is_ascii_digit b \<or> b = CHR ''_'') v
      then Inl InvalidJobKind else Inr v)"

datatype JobStorageClass = StorageLight | ArtifactHeavy

record NewJob =
  nj_id :: JobId
  nj_kind :: string
  nj_priority :: int
  nj_parent_job_id :: "JobId option"
  nj_crawl_run_id :: "string option"
  nj_scheduled_at :: int
  nj_max_attempts :: int

definition new_job :: "JobId \<Rightarrow> string \<Rightarrow> int \<Rightarrow> int \<Rightarrow> int \<Rightarrow> JobRepositoryError + NewJob" where
  "new_job fresh_id k prio at bound =
     (if bound = 0 then Inl InvalidMaxAttempts
      else Inr \<lparr>nj_id = fresh_id, nj_kind = k, nj_priority = prio, nj_parent_job_id = None,
        nj_crawl_run_id = None, nj_scheduled_at = at, nj_max_attempts = bound\<rparr>)"

type_synonym JobRecord = JobRow
type_synonym JobAttempt = AttemptRow

record AcquiredJob =
  acquired_job :: JobRecord
  acquired_attempt :: JobAttempt

record StaleJobRecovery =
  requeued :: int
  failed :: int
  resume_candidates :: int
  restart_required :: int
  invalid_checkpoints :: int

record TerminalJobReconciliation =
  reconciled_state :: JobState
  reconciled_progress :: ProgressTerminalState

datatype 'u ActionRunAssociation = NoRun | SameSourceRun | NewIndependentRun "'u CrawlRunSnapshot"

definition positive_u32 :: "int \<Rightarrow> JobRepositoryError + int" where
  "positive_u32 v = (if 0 < v \<and> v < 2 ^ 32 then Inr v else Inl QueueInvariant)"

definition positive_u32_or_zero :: "int \<Rightarrow> JobRepositoryError + int" where
  "positive_u32_or_zero v = (if 0 \<le> v \<and> v < 2 ^ 32 then Inr v else Inl QueueInvariant)"

definition positive_u64 :: "int \<Rightarrow> JobRepositoryError + int" where
  "positive_u64 v = (if 0 < v \<and> v < 2 ^ 64 then Inr v else Inl QueueInvariant)"

definition nonnegative_u64 :: "int \<Rightarrow> JobRepositoryError + int" where
  "nonnegative_u64 v = (if 0 \<le> v \<and> v < 2 ^ 64 then Inr v else Inl QueueInvariant)"

text \<open>\<open>i64::try_from\<close> on the \<open>u64\<close> generation of a lease, and saturating \<open>u32\<close> and \<open>u64\<close> counters.\<close>

definition generation_to_i64 :: "JobLease \<Rightarrow> JobRepositoryError + int" where
  "generation_to_i64 lease = (if generation lease < 2 ^ 63 then Inr (generation lease) else Inl QueueInvariant)"

definition saturating_inc :: "nat \<Rightarrow> int \<Rightarrow> int" where
  "saturating_inc bits n = min (2 ^ bits - 1) (n + 1)"

definition record_lease :: "JobRow \<Rightarrow> JobLease option" where
  "record_lease r = map_option (\<lambda>c. \<lparr>lease_id = col_lease_id c, lease_owner = col_lease_owner c,
     generation = lease_generation r, acquired_at = col_acquired_at c,
     lease_expires_at = col_expires_at c, heartbeat_at = col_heartbeat_at c\<rparr>) (lease_columns r)"

definition job_from_row :: "JobRow \<Rightarrow> JobRepositoryError + JobRecord" where
  "job_from_row r =
     res_bind (if lease_columns r = None then Inr 0 else positive_u64 (lease_generation r)) (\<lambda>_.
     res_bind (job_kind_new (kind r)) (\<lambda>_.
     res_bind (positive_u32_or_zero (current_attempt r)) (\<lambda>_.
     res_bind (positive_u32 (max_attempts r)) (\<lambda>_.
     res_bind (nonnegative_u64 (lease_generation r)) (\<lambda>_. Inr r)))))"

definition attempt_from_row :: "AttemptRow \<Rightarrow> JobRepositoryError + JobAttempt" where
  "attempt_from_row a =
     res_bind (positive_u32 (attempt_number a)) (\<lambda>_.
     res_bind (positive_u64 (attempt_lease_generation a)) (\<lambda>_. Inr a))"

definition storage_class :: "JobRecord \<Rightarrow> JobStorageClass" where
  "storage_class j = (if crawl_run_id j \<noteq> None then ArtifactHeavy else StorageLight)"

definition select_job :: "JobId \<Rightarrow> (JobRepositoryError, JobRecord) tx" where
  "select_job j = (\<lambda>db. tx_result
     (case find (\<lambda>r. job_id r = j) (jobs db) of None \<Rightarrow> Inl JobNotFound | Some r \<Rightarrow> job_from_row r) db)"

definition job :: "JobId \<Rightarrow> queue_db \<Rightarrow> JobRepositoryError + JobRecord" where
  "job j db = fst (transaction (select_job j) db)"

definition attempts :: "JobId \<Rightarrow> queue_db \<Rightarrow> JobRepositoryError + JobAttempt list" where
  "attempts j db = collect_results attempt_from_row
     (sort_key attempt_number (filter (\<lambda>a. attempt_job_id a = j) (job_attempts db)))"

definition valid_worker_id :: "string \<Rightarrow> bool" where
  "valid_worker_id v \<longleftrightarrow> v \<noteq> [] \<and> length v \<le> 128
     \<and> list_all (\<lambda>b. is_ascii_alphanumeric b \<or> b \<in> {CHR ''-'', CHR ''_'', CHR ''.''}) v"

section \<open>The invariants the queue checks before it works\<close>

definition max_attempt_number :: "JobId \<Rightarrow> queue_db \<Rightarrow> int" where
  "max_attempt_number j db =
     (case iter_max (map attempt_number (filter (\<lambda>a. attempt_job_id a = j) (job_attempts db))) of
        None \<Rightarrow> 0 | Some m \<Rightarrow> m)"

definition running_without_lease :: "JobRow \<Rightarrow> bool" where
  "running_without_lease r \<longleftrightarrow>
     (state r = JobRunning \<and> (current_attempt r = 0 \<or> lease_columns r = None \<or> lease_generation r = 0))
   \<or> (state r \<noteq> JobRunning \<and> lease_columns r \<noteq> None)"

text \<open>The left join yields one row with null columns when no running attempt matches.\<close>

definition running_without_attempt :: "queue_db \<Rightarrow> JobRow \<Rightarrow> bool" where
  "running_without_attempt db r \<longleftrightarrow> state r = JobRunning \<and>
     (let matching = filter (\<lambda>a. attempt_job_id a = job_id r \<and> attempt_number a = current_attempt r
            \<and> outcome a = AttemptRunning) (job_attempts db)
      in matching = [] \<or> list_ex (\<lambda>a. case lease_columns r of None \<Rightarrow> False
            | Some c \<Rightarrow> attempt_lease_id a \<noteq> col_lease_id c \<or> attempt_lease_generation a \<noteq> lease_generation r
                \<or> worker_id a \<noteq> col_lease_owner c) matching)"

definition attempt_without_running_job :: "queue_db \<Rightarrow> JobRow \<Rightarrow> bool" where
  "attempt_without_running_job db r \<longleftrightarrow> state r \<noteq> JobRunning
     \<and> list_ex (\<lambda>a. attempt_job_id a = job_id r \<and> outcome a = AttemptRunning) (job_attempts db)"

definition attempt_out_of_range :: "queue_db \<Rightarrow> AttemptRow \<Rightarrow> bool" where
  "attempt_out_of_range db a \<longleftrightarrow>
     (let owners = filter (\<lambda>r. job_id r = attempt_job_id a) (jobs db)
      in owners = [] \<or> list_ex (\<lambda>r. attempt_number a > max_attempts r) owners)"

definition ensure_queue_invariants :: "(JobRepositoryError, unit) tx" where
  "ensure_queue_invariants = (\<lambda>db.
     tx_guard (\<not> list_ex running_without_lease (jobs db)
       \<and> \<not> list_ex (running_without_attempt db) (jobs db)
       \<and> \<not> list_ex (attempt_without_running_job db) (jobs db)
       \<and> \<not> list_ex (\<lambda>r. current_attempt r \<noteq> max_attempt_number (job_id r) db) (jobs db)
       \<and> \<not> list_ex (attempt_out_of_range db) (job_attempts db)) QueueInvariant db)"

definition check_invariants :: "queue_db \<Rightarrow> JobRepositoryError + unit" where
  "check_invariants db = fst (transaction ensure_queue_invariants db)"

definition rebuild_concurrency_state :: "int \<Rightarrow> queue_db \<Rightarrow> JobRepositoryError + JobId list" where
  "rebuild_concurrency_state now db =
     res_bind (check_invariants db) (\<lambda>_.
       Inr (sort (map job_id (filter (\<lambda>r. state r = JobRunning
         \<and> (case lease_columns r of None \<Rightarrow> False | Some c \<Rightarrow> col_expires_at c > now)) (jobs db)))))"

section \<open>Creation\<close>

definition queued_row :: "JobId \<Rightarrow> string \<Rightarrow> int \<Rightarrow> JobId option \<Rightarrow> string option \<Rightarrow> int \<Rightarrow> int \<Rightarrow> int \<Rightarrow> JobRow" where
  "queued_row j k prio parent run at bound now =
     \<lparr>job_id = j, kind = k, priority = prio, state = JobQueued, parent_job_id = parent, crawl_run_id = run,
      scheduled_at = at, current_attempt = 0, max_attempts = bound, lease_generation = 0,
      lease_columns = None, failure_code = None, job_created_at = now, job_updated_at = now\<rparr>"

definition enqueue :: "NewJob \<Rightarrow> int \<Rightarrow> queue_db \<Rightarrow> (JobRepositoryError + unit) \<times> queue_db" where
  "enqueue n now = transaction (insert_job JobDatabase
     (queued_row (nj_id n) (nj_kind n) (nj_priority n) (nj_parent_job_id n) (nj_crawl_run_id n)
        (nj_scheduled_at n) (nj_max_attempts n) now))"

definition insert_run_in_transaction ::
  "'u job_env \<Rightarrow> string \<Rightarrow> CrawlRunStatus \<Rightarrow> 'u CrawlRunSnapshot \<Rightarrow> (JobRepositoryError, unit) tx" where
  "insert_run_in_transaction env run st snap =
     tx_bind (tx_guard (run_references_ok env snap) JobDatabase) (\<lambda>_.
     insert_run JobDatabase \<lparr>run_id = run, run_row_type = run_type (frozen snap), run_status = st,
       run_snapshot_hash = snapshot_hash snap,
       run_compatibility_hash = checkpoint_compatibility_hash snap\<rparr>)"

definition create_run_with_root_job ::
  "'u job_env \<Rightarrow> string \<Rightarrow> 'u CrawlRunSnapshot \<Rightarrow> NewJob \<Rightarrow> int \<Rightarrow> (JobRepositoryError, string \<times> JobId) tx" where
  "create_run_with_root_job env run snap n now =
     tx_bind (tx_guard (snapshot_to_string env snap \<noteq> None) JobDatabase) (\<lambda>_.
     tx_bind (insert_run_in_transaction env run RunQueued snap) (\<lambda>_.
     tx_bind (insert_job JobDatabase (queued_row (nj_id n) (nj_kind n) (nj_priority n) None (Some run)
        (nj_scheduled_at n) (nj_max_attempts n) now)) (\<lambda>_.
     tx_return (run, nj_id n))))"

definition create_quick_scrape_run_with_root_job ::
  "'u job_env \<Rightarrow> string \<Rightarrow> 'u CrawlRunSnapshot \<Rightarrow> NewJob \<Rightarrow> int \<Rightarrow> queue_db \<Rightarrow>
   (JobRepositoryError + string \<times> JobId) \<times> queue_db" where
  "create_quick_scrape_run_with_root_job env run snap n now = transaction (
     tx_bind (tx_guard ((case run_configuration (frozen snap) of QuickScrapeConfiguration _ _ \<Rightarrow> True | _ \<Rightarrow> False)
        \<and> nj_parent_job_id n = None \<and> nj_crawl_run_id n = None) QueueInvariant) (\<lambda>_.
     create_run_with_root_job env run snap n now))"

definition create_production_run_with_root_job ::
  "'u job_env \<Rightarrow> string \<Rightarrow> 'u CrawlRunSnapshot \<Rightarrow> NewJob \<Rightarrow> int \<Rightarrow> queue_db \<Rightarrow>
   (JobRepositoryError + string \<times> JobId) \<times> queue_db" where
  "create_production_run_with_root_job env run snap n now = transaction (
     tx_bind (tx_guard ((case run_configuration (frozen snap) of CrawlerVersionConfiguration _ _ _ \<Rightarrow> True | _ \<Rightarrow> False)
        \<and> run_type (frozen snap) = ProductionRun
        \<and> nj_parent_job_id n = None \<and> nj_crawl_run_id n = None) QueueInvariant) (\<lambda>_.
     create_run_with_root_job env run snap n now))"

section \<open>Ownership, attempts and release\<close>

definition select_owned_running_job :: "JobId \<Rightarrow> JobLease \<Rightarrow> int \<Rightarrow> (JobRepositoryError, JobRecord) tx" where
  "select_owned_running_job j lease now =
     tx_bind (select_job j) (\<lambda>r.
       if state r \<noteq> JobRunning then tx_fail IllegalTransition
       else if record_lease r \<noteq> Some lease \<or> lease_expires_at lease \<le> now then tx_fail JobLeaseLost
       else tx_return r)"

definition finish_attempt_in_transaction ::
  "JobId \<Rightarrow> JobLease \<Rightarrow> int \<Rightarrow> AttemptOutcome \<Rightarrow> JobFailureCode option \<Rightarrow> (JobRepositoryError, unit) tx" where
  "finish_attempt_in_transaction j lease now out failure =
     tx_bind (tx_result (generation_to_i64 lease)) (\<lambda>g.
     tx_bind (update_attempts JobDatabase
       (\<lambda>a. attempt_job_id a = j \<and> attempt_lease_id a = lease_id lease \<and> attempt_lease_generation a = g
          \<and> worker_id a = lease_owner lease \<and> outcome a = AttemptRunning)
       (\<lambda>a. a\<lparr>finished_at := Some now, outcome := out, attempt_failure_code := failure\<rparr>)) (\<lambda>changed.
     tx_guard (changed = 1) JobLeaseLost))"

text \<open>The \<open>UPDATE jobs\<close> statements that close a leased job: the predicate on the lease columns
  (\<open>due\<close> is the extra conjunct of the expiry sweep), the new state, schedule and failure code,
  and the check that exactly one row changed.\<close>

definition holds_lease :: "JobId \<Rightarrow> JobLease \<Rightarrow> JobRow \<Rightarrow> bool" where
  "holds_lease j lease r \<longleftrightarrow> job_id r = j \<and> state r = JobRunning
     \<and> (case lease_columns r of None \<Rightarrow> False
        | Some c \<Rightarrow> col_lease_id c = lease_id lease \<and> col_lease_owner c = lease_owner lease)
     \<and> lease_generation r = generation lease"

definition expired_at :: "int \<Rightarrow> JobRow \<Rightarrow> bool" where
  "expired_at now r \<longleftrightarrow> (case lease_columns r of None \<Rightarrow> False | Some c \<Rightarrow> col_expires_at c \<le> now)"

definition release_job ::
  "JobId \<Rightarrow> JobLease \<Rightarrow> (JobRow \<Rightarrow> bool) \<Rightarrow> JobState \<Rightarrow> int option \<Rightarrow> JobFailureCode option \<Rightarrow> int \<Rightarrow>
   (JobRepositoryError, unit) tx" where
  "release_job j lease due st at failure now =
     tx_bind (tx_result (generation_to_i64 lease)) (\<lambda>_.
     tx_bind (update_jobs JobDatabase True (\<lambda>r. holds_lease j lease r \<and> due r)
       (\<lambda>r. r\<lparr>state := st, scheduled_at := (case at of None \<Rightarrow> scheduled_at r | Some t \<Rightarrow> t),
          lease_columns := None, failure_code := failure, job_updated_at := now\<rparr>)) (\<lambda>changed.
     tx_guard (changed = 1) JobLeaseLost))"

definition finish_job_after_terminal_run ::
  "JobId \<Rightarrow> JobLease \<Rightarrow> int \<Rightarrow> JobState \<Rightarrow> JobFailureCode option \<Rightarrow> (JobRepositoryError, unit) tx" where
  "finish_job_after_terminal_run j lease now st failure =
     release_job j lease (\<lambda>_. True) st None failure now"

section \<open>Crawl runs\<close>

definition run_status_in :: "string \<Rightarrow> CrawlRunStatus list \<Rightarrow> RunRow \<Rightarrow> bool" where
  "run_status_in run sts r \<longleftrightarrow> run_id r = run \<and> run_status r \<in> set sts"

definition transition_sources :: "CrawlRunStatus \<Rightarrow> CrawlRunStatus list option" where
  "transition_sources st = (case st of
     RunRunning \<Rightarrow> Some [RunQueued, RunRunning]
   | RunSucceeded \<Rightarrow> Some [RunQueued, RunRunning, RunSucceeded]
   | RunPartialResult \<Rightarrow> Some [RunQueued, RunRunning, RunPartialResult]
   | RunFailed \<Rightarrow> Some [RunQueued, RunRunning, RunFailed]
   | _ \<Rightarrow> None)"

text \<open>Every caller in the queue replaces the error of this function by \<open>QueueInvariant\<close>.\<close>

definition transition_execution_status_in_transaction ::
  "string \<Rightarrow> CrawlRunStatus \<Rightarrow> (JobRepositoryError, unit) tx" where
  "transition_execution_status_in_transaction run st =
     (case transition_sources st of
        None \<Rightarrow> tx_fail QueueInvariant
      | Some sources \<Rightarrow>
          tx_bind (update_runs (run_status_in run sources) st) (\<lambda>changed.
          tx_guard (changed = 1) QueueInvariant))"

definition select_crawl_run_status :: "string \<Rightarrow> queue_db \<Rightarrow> CrawlRunStatus option" where
  "select_crawl_run_status run db = map_option run_status (find (\<lambda>r. run_id r = run) (crawl_runs db))"

definition finalize_crawl_failure_in_transaction ::
  "'u job_env \<Rightarrow> string \<Rightarrow> JobRecord \<Rightarrow> int \<Rightarrow> (JobRepositoryError, unit) tx" where
  "finalize_crawl_failure_in_transaction env event_id r now =
     tx_bind (tx_result (ok_or (Option.bind (crawl_run_id r) (parse_run_id env)) QueueInvariant)) (\<lambda>run.
     tx_bind (transition_execution_status_in_transaction run RunFailed) (\<lambda>_.
     tx_bind (tx_map_err (\<lambda>_. QueueInvariant)
       (append_in_transaction event_id (terminal_event (job_id r) ProgressFailed) now)) (\<lambda>_.
     tx_return ())))"

definition cancel_related_run :: "string option \<Rightarrow> (JobRepositoryError, unit) tx" where
  "cancel_related_run run =
     (case run of None \<Rightarrow> tx_return ()
      | Some q \<Rightarrow> tx_bind (update_runs (run_status_in q [RunQueued, RunRunning]) RunCancelled) (\<lambda>_. tx_return ()))"

definition terminal_outcome ::
  "CrawlRunStatus \<Rightarrow> (JobState \<times> AttemptOutcome \<times> JobFailureCode option \<times> ProgressTerminalState) option" where
  "terminal_outcome st = (case st of
     RunSucceeded \<Rightarrow> Some (JobSucceeded, AttemptSucceeded, None, ProgressSucceeded)
   | RunPartialResult \<Rightarrow> Some (JobSucceeded, AttemptSucceeded, None, ProgressSucceeded)
   | RunFailed \<Rightarrow> Some (JobFailed, AttemptFailed, Some HandlerFailed, ProgressFailed)
   | RunCancelled \<Rightarrow> Some (JobCancelled, AttemptFailed, Some CancelledFailure, ProgressCancelled)
   | _ \<Rightarrow> None)"

definition reconcile_terminal_job_in_transaction ::
  "JobId \<Rightarrow> CrawlRunStatus \<Rightarrow> int \<Rightarrow> (JobRepositoryError, TerminalJobReconciliation option) tx" where
  "reconcile_terminal_job_in_transaction j st now =
     (case terminal_outcome st of
        None \<Rightarrow> tx_return None
      | Some (new_state, out, failure, progress) \<Rightarrow>
          tx_bind (select_job j) (\<lambda>r.
          tx_bind
            (if state r = JobRunning then
               tx_bind (tx_result (ok_or (record_lease r) QueueInvariant)) (\<lambda>lease.
               tx_bind (finish_attempt_in_transaction j lease now out failure) (\<lambda>_.
               finish_job_after_terminal_run j lease now new_state failure))
             else tx_guard (state r \<noteq> JobQueued \<and> state r = new_state) QueueInvariant) (\<lambda>_.
          tx_return (Some \<lparr>reconciled_state = new_state, reconciled_progress = progress\<rparr>))))"

definition finish_after_terminal_crawl_run ::
  "JobId \<Rightarrow> string \<Rightarrow> int \<Rightarrow> (JobRepositoryError, TerminalJobReconciliation option) tx" where
  "finish_after_terminal_crawl_run j run now =
     tx_bind (tx_read (select_crawl_run_status run)) (\<lambda>st.
       case st of None \<Rightarrow> tx_return None | Some s \<Rightarrow> reconcile_terminal_job_in_transaction j s now)"

section \<open>Recovery of expired leases\<close>

text \<open>The counters are \<open>u32\<close> and saturate.\<close>

definition no_recovery :: StaleJobRecovery where
  "no_recovery = \<lparr>requeued = 0, failed = 0, resume_candidates = 0, restart_required = 0, invalid_checkpoints = 0\<rparr>"

definition has_any_checkpoint :: "JobId \<Rightarrow> queue_db \<Rightarrow> bool" where
  "has_any_checkpoint j db \<longleftrightarrow> list_ex (\<lambda>c. checkpoint_job_id c = j) (job_checkpoints db)"

definition stale_disposition ::
  "'u job_env \<Rightarrow> JobRecord \<Rightarrow> (JobRepositoryError, CheckpointEnvelopeDisposition option) tx" where
  "stale_disposition env r = (\<lambda>db.
     if crawl_run_id r \<noteq> None \<or> has_any_checkpoint (job_id r) db
     then tx_result (map_err CheckpointFailure
            (res_bind (assess_one_stale_job (env_codec env) (job_id r) (crawl_run_id r) db) (\<lambda>d. Inr (Some d)))) db
     else tx_return None db)"

definition count_disposition :: "CheckpointEnvelopeDisposition option \<Rightarrow> StaleJobRecovery \<Rightarrow> StaleJobRecovery" where
  "count_disposition d rec = (case d of
     None \<Rightarrow> rec
   | Some ResumeCandidate \<Rightarrow> rec\<lparr>resume_candidates := saturating_inc 32 (resume_candidates rec)\<rparr>
   | Some RestartRequired \<Rightarrow> rec\<lparr>restart_required := saturating_inc 32 (restart_required rec)\<rparr>
   | Some InvalidDisposition \<Rightarrow> rec\<lparr>invalid_checkpoints := saturating_inc 32 (invalid_checkpoints rec)\<rparr>)"

definition allows_recovery :: "CheckpointEnvelopeDisposition option \<Rightarrow> bool" where
  "allows_recovery d \<longleftrightarrow> d \<noteq> Some RestartRequired \<and> d \<noteq> Some InvalidDisposition"

text \<open>One iteration of the sweep; \<open>ids j\<close> is the identifier drawn for the progress event of \<open>j\<close>.\<close>

definition expire_job ::
  "'u job_env \<Rightarrow> (JobId \<Rightarrow> string) \<Rightarrow> int \<Rightarrow> JobRecord \<Rightarrow> JobLease \<Rightarrow> StaleJobRecovery \<Rightarrow>
   (JobRepositoryError, StaleJobRecovery) tx" where
  "expire_job env ids now r lease rec =
     tx_bind (stale_disposition env r) (\<lambda>d.
       let again = allows_recovery d \<and> current_attempt r < max_attempts r;
           st = (if again then JobQueued else JobFailed);
           counted = count_disposition d rec;
           rec' = (if again then counted\<lparr>requeued := saturating_inc 32 (requeued counted)\<rparr>
                   else counted\<lparr>failed := saturating_inc 32 (failed counted)\<rparr>)
       in
     tx_bind (finish_attempt_in_transaction (job_id r) lease now AttemptLeaseExpired (Some LeaseExpiredFailure)) (\<lambda>_.
     tx_bind (release_job (job_id r) lease (expired_at now) st (Some now) (Some LeaseExpiredFailure) now) (\<lambda>_.
     tx_bind (if st = JobFailed \<and> crawl_run_id r \<noteq> None
              then finalize_crawl_failure_in_transaction env (ids (job_id r)) r now else tx_return ()) (\<lambda>_.
     tx_return rec'))))"

definition recover_one ::
  "'u job_env \<Rightarrow> (JobId \<Rightarrow> string) \<Rightarrow> int \<Rightarrow> JobId \<Rightarrow> StaleJobRecovery \<Rightarrow> (JobRepositoryError, StaleJobRecovery) tx" where
  "recover_one env ids now j rec =
     tx_bind (select_job j) (\<lambda>r.
     tx_bind (tx_result (ok_or (record_lease r) QueueInvariant)) (\<lambda>lease.
       if lease_expires_at lease > now then tx_return rec else
     tx_bind (case crawl_run_id r of None \<Rightarrow> tx_return None
              | Some run \<Rightarrow> finish_after_terminal_crawl_run j run now) (\<lambda>settled.
       if settled \<noteq> None then tx_return rec else expire_job env ids now r lease rec)))"

fun recover_each ::
  "'u job_env \<Rightarrow> (JobId \<Rightarrow> string) \<Rightarrow> int \<Rightarrow> JobId list \<Rightarrow> StaleJobRecovery \<Rightarrow> (JobRepositoryError, StaleJobRecovery) tx" where
  "recover_each env ids now [] rec = tx_return rec"
| "recover_each env ids now (j # js) rec =
     tx_bind (recover_one env ids now j rec) (recover_each env ids now js)"

definition expired_jobs :: "int \<Rightarrow> queue_db \<Rightarrow> JobId list" where
  "expired_jobs now db = sort (map job_id (filter (\<lambda>r. state r = JobRunning \<and> expired_at now r) (jobs db)))"

definition recover_expired_in_transaction ::
  "'u job_env \<Rightarrow> (JobId \<Rightarrow> string) \<Rightarrow> int \<Rightarrow> (JobRepositoryError, StaleJobRecovery) tx" where
  "recover_expired_in_transaction env ids now =
     tx_bind (tx_read (expired_jobs now)) (\<lambda>js. recover_each env ids now js no_recovery)"

section \<open>Acquisition\<close>

definition eligible :: "int \<Rightarrow> bool \<Rightarrow> JobRow \<Rightarrow> bool" where
  "eligible now allow r \<longleftrightarrow> state r = JobQueued \<and> scheduled_at r \<le> now \<and> (allow \<or> crawl_run_id r = None)"

definition queue_order :: "JobRow \<Rightarrow> int \<times> int \<times> int \<times> string" where
  "queue_order r = (- priority r, scheduled_at r, job_created_at r, job_id r)"

definition select_eligible_job :: "int \<Rightarrow> bool \<Rightarrow> queue_db \<Rightarrow> JobId option" where
  "select_eligible_job now allow db =
     (case sort_key queue_order (filter (eligible now allow) (jobs db)) of
        [] \<Rightarrow> None | r # _ \<Rightarrow> Some (job_id r))"

definition leased_row :: "int \<Rightarrow> int \<Rightarrow> string \<Rightarrow> string \<Rightarrow> int \<Rightarrow> int \<Rightarrow> JobRow \<Rightarrow> JobRow" where
  "leased_row n gen lid worker now expires q = q\<lparr>state := JobRunning, current_attempt := n,
     lease_generation := gen,
     lease_columns := Some \<lparr>col_lease_id = lid, col_lease_owner = worker, col_acquired_at = now,
       col_expires_at = expires, col_heartbeat_at = now\<rparr>,
     failure_code := None, job_updated_at := now\<rparr>"

definition running_attempt :: "string \<Rightarrow> JobId \<Rightarrow> int \<Rightarrow> int \<Rightarrow> string \<Rightarrow> string \<Rightarrow> int \<Rightarrow> JobAttempt" where
  "running_attempt aid j n gen lid worker now =
     \<lparr>attempt_id = aid, attempt_job_id = j, attempt_number = n, attempt_lease_id = lid,
      attempt_lease_generation = gen, worker_id = worker, started_at = now, finished_at = None,
      outcome = AttemptRunning, attempt_failure_code = None\<rparr>"

definition lease_queued_job ::
  "string \<Rightarrow> string \<Rightarrow> JobId \<Rightarrow> string \<Rightarrow> int \<Rightarrow> int \<Rightarrow> bool \<Rightarrow> (JobRepositoryError, AcquiredJob) tx" where
  "lease_queued_job fresh_lease fresh_attempt j worker now duration allow =
     tx_bind (select_job j) (\<lambda>r.
       if state r \<noteq> JobQueued \<or> scheduled_at r > now \<or> current_attempt r \<ge> max_attempts r
       then tx_fail IllegalTransition
       else if \<not> allow \<and> storage_class r = ArtifactHeavy then tx_fail StorageAdmissionBlocked
       else
         let gen = saturating_inc 64 (lease_generation r); n = saturating_inc 32 (current_attempt r) in
     tx_bind (tx_result (ok_or (i64_checked_add now duration) QueueInvariant)) (\<lambda>expires.
     tx_bind (tx_guard (gen < 2 ^ 63) QueueInvariant) (\<lambda>_.
     tx_bind (update_jobs JobDatabase True
       (\<lambda>q. job_id q = j \<and> state q = JobQueued \<and> scheduled_at q \<le> now \<and> current_attempt q = current_attempt r)
       (leased_row n gen fresh_lease worker now expires)) (\<lambda>changed.
     tx_bind (tx_guard (changed = 1) IllegalTransition) (\<lambda>_.
       let attempt = running_attempt fresh_attempt j n gen fresh_lease worker now in
     tx_bind (insert_attempt JobDatabase attempt) (\<lambda>_.
     tx_bind (select_job j) (\<lambda>leased.
     tx_return \<lparr>acquired_job = leased, acquired_attempt = attempt\<rparr>)))))))"

definition acquire_next_with_storage_admission ::
  "'u job_env \<Rightarrow> (JobId \<Rightarrow> string) \<Rightarrow> string \<Rightarrow> string \<Rightarrow> string \<Rightarrow> int \<Rightarrow> int \<Rightarrow> bool \<Rightarrow> queue_db \<Rightarrow>
   (JobRepositoryError + AcquiredJob option) \<times> queue_db" where
  "acquire_next_with_storage_admission env ids fresh_lease fresh_attempt worker now duration allow = transaction (
     tx_bind (tx_guard (valid_worker_id worker \<and> duration > 0) QueueInvariant) (\<lambda>_.
     tx_bind ensure_queue_invariants (\<lambda>_.
     tx_bind (recover_expired_in_transaction env ids now) (\<lambda>_.
     tx_bind (tx_read (select_eligible_job now allow)) (\<lambda>selected.
       case selected of
         None \<Rightarrow> tx_return None
       | Some j \<Rightarrow>
     tx_bind (lease_queued_job fresh_lease fresh_attempt j worker now duration allow) (\<lambda>acquired.
     tx_return (Some acquired)))))))"

definition acquire_next ::
  "'u job_env \<Rightarrow> (JobId \<Rightarrow> string) \<Rightarrow> string \<Rightarrow> string \<Rightarrow> string \<Rightarrow> int \<Rightarrow> int \<Rightarrow> queue_db \<Rightarrow>
   (JobRepositoryError + AcquiredJob option) \<times> queue_db" where
  "acquire_next env ids fresh_lease fresh_attempt worker now duration =
     acquire_next_with_storage_admission env ids fresh_lease fresh_attempt worker now duration True"

section \<open>Heartbeat and completion\<close>

definition ownership_error :: "JobId \<Rightarrow> queue_db \<Rightarrow> JobRepositoryError" where
  "ownership_error j db = (case job j db of
     Inr r \<Rightarrow> if state r \<noteq> JobRunning then IllegalTransition else JobLeaseLost
   | Inl e \<Rightarrow> if e = JobNotFound then JobNotFound else JobLeaseLost)"

definition heartbeat ::
  "JobId \<Rightarrow> JobLease \<Rightarrow> int \<Rightarrow> int \<Rightarrow> queue_db \<Rightarrow> (JobRepositoryError + JobLease) \<times> queue_db" where
  "heartbeat j lease now duration = transaction (
     tx_bind (tx_guard (duration > 0) QueueInvariant) (\<lambda>_.
     tx_bind (tx_result (ok_or (i64_checked_add now duration) QueueInvariant)) (\<lambda>expires.
     tx_bind (tx_result (generation_to_i64 lease)) (\<lambda>_.
     tx_bind (update_jobs JobDatabase False
       (\<lambda>r. holds_lease j lease r \<and> (case lease_columns r of None \<Rightarrow> False | Some c \<Rightarrow>
          col_expires_at c = lease_expires_at lease \<and> col_heartbeat_at c = heartbeat_at lease
          \<and> col_expires_at c > now))
       (\<lambda>r. r\<lparr>lease_columns := map_option (\<lambda>c. c\<lparr>col_heartbeat_at := now, col_expires_at := expires\<rparr>)
            (lease_columns r), job_updated_at := now\<rparr>)) (\<lambda>changed db.
     if changed \<noteq> 1 then Inl (ownership_error j db)
     else Inr (lease\<lparr>heartbeat_at := now, lease_expires_at := expires\<rparr>, db))))))"

definition finish ::
  "JobId \<Rightarrow> JobLease \<Rightarrow> int \<Rightarrow> AttemptOutcome \<Rightarrow> JobFailureCode option \<Rightarrow> queue_db \<Rightarrow>
   (JobRepositoryError + unit) \<times> queue_db" where
  "finish j lease now out failure = transaction (
     tx_bind (select_owned_running_job j lease now) (\<lambda>_.
     tx_bind (finish_attempt_in_transaction j lease now out failure) (\<lambda>_.
     release_job j lease (\<lambda>_. True) JobSucceeded None None now)))"

definition succeed :: "JobId \<Rightarrow> JobLease \<Rightarrow> int \<Rightarrow> queue_db \<Rightarrow> (JobRepositoryError + unit) \<times> queue_db" where
  "succeed j lease now = finish j lease now AttemptSucceeded None"

definition fail_with_disposition ::
  "JobId \<Rightarrow> JobLease \<Rightarrow> int \<Rightarrow> JobFailureCode \<Rightarrow> int \<Rightarrow> bool \<Rightarrow> queue_db \<Rightarrow> (JobRepositoryError + JobState) \<times> queue_db" where
  "fail_with_disposition j lease now failure retry_at is_terminal = transaction (
     tx_bind (select_owned_running_job j lease now) (\<lambda>r.
       let st = (if \<not> is_terminal \<and> current_attempt r < max_attempts r then JobQueued else JobFailed) in
     tx_bind (finish_attempt_in_transaction j lease now AttemptFailed (Some failure)) (\<lambda>_.
     tx_bind (release_job j lease (\<lambda>_. True) st
       (Some (if st = JobQueued then retry_at else scheduled_at r)) (Some failure) now) (\<lambda>_.
     tx_return st))))"

definition fail ::
  "JobId \<Rightarrow> JobLease \<Rightarrow> int \<Rightarrow> JobFailureCode \<Rightarrow> int \<Rightarrow> queue_db \<Rightarrow> (JobRepositoryError + JobState) \<times> queue_db" where
  "fail j lease now failure retry_at = fail_with_disposition j lease now failure retry_at False"

definition fail_terminal ::
  "JobId \<Rightarrow> JobLease \<Rightarrow> int \<Rightarrow> JobFailureCode \<Rightarrow> queue_db \<Rightarrow> (JobRepositoryError + unit) \<times> queue_db" where
  "fail_terminal j lease now failure db =
     (case fail_with_disposition j lease now failure now True db of
        (Inl e, db') \<Rightarrow> (Inl e, db')
      | (Inr st, db') \<Rightarrow> (if st = JobFailed then Inr () else Inl QueueInvariant, db'))"

definition ensure_production_run :: "JobRecord \<Rightarrow> (JobRepositoryError, unit) tx" where
  "ensure_production_run r = (\<lambda>db.
     if kind r = ''PRODUCTION_CRAWL'' then Inr ((), db)
     else (case crawl_run_id r of
        None \<Rightarrow> Inl QueueInvariant
      | Some run \<Rightarrow>
          (case find (\<lambda>q. run_id q = run) (crawl_runs db) of
             None \<Rightarrow> Inl QueueInvariant
           | Some q \<Rightarrow> if run_row_type q = ProductionRun then Inr ((), db) else Inl QueueInvariant)))"

definition fail_terminal_production ::
  "'u job_env \<Rightarrow> string \<Rightarrow> JobId \<Rightarrow> JobLease \<Rightarrow> int \<Rightarrow> JobFailureCode \<Rightarrow> queue_db \<Rightarrow>
   (JobRepositoryError + unit) \<times> queue_db" where
  "fail_terminal_production env event_id j lease now failure = transaction (
     tx_bind (select_owned_running_job j lease now) (\<lambda>r.
     tx_bind (ensure_production_run r) (\<lambda>_.
     tx_bind (finish_attempt_in_transaction j lease now AttemptFailed (Some failure)) (\<lambda>_.
     tx_bind (release_job j lease (\<lambda>_. True) JobFailed (Some (scheduled_at r)) (Some failure) now) (\<lambda>_.
     finalize_crawl_failure_in_transaction env event_id r now)))))"

section \<open>Cancellation and queue management\<close>

definition cancel :: "JobId \<Rightarrow> JobLease \<Rightarrow> int \<Rightarrow> queue_db \<Rightarrow> (JobRepositoryError + unit) \<times> queue_db" where
  "cancel j lease now = transaction (
     tx_bind (select_owned_running_job j lease now) (\<lambda>r.
     tx_bind (tx_read (\<lambda>db. Option.bind (crawl_run_id r) (\<lambda>run. select_crawl_run_status run db))) (\<lambda>st.
       if st = Some RunSucceeded \<or> st = Some RunPartialResult then
         tx_bind (finish_attempt_in_transaction j lease now AttemptSucceeded None) (\<lambda>_.
         finish_job_after_terminal_run j lease now JobSucceeded None)
       else if st = Some RunFailed then
         tx_bind (finish_attempt_in_transaction j lease now AttemptFailed (Some HandlerFailed)) (\<lambda>_.
         finish_job_after_terminal_run j lease now JobFailed (Some HandlerFailed))
       else
         tx_bind (finish_attempt_in_transaction j lease now AttemptFailed (Some CancelledFailure)) (\<lambda>_.
         tx_bind (release_job j lease (\<lambda>_. True) JobCancelled None (Some CancelledFailure) now) (\<lambda>_.
         cancel_related_run (crawl_run_id r))))))"

definition cancel_queued :: "JobId \<Rightarrow> int \<Rightarrow> queue_db \<Rightarrow> (JobRepositoryError + JobState) \<times> queue_db" where
  "cancel_queued j now = transaction (
     tx_bind (select_job j) (\<lambda>r.
       if state r \<noteq> JobQueued then tx_return (state r) else
     tx_bind (update_jobs JobDatabase True (\<lambda>q. job_id q = j \<and> state q = JobQueued)
       (\<lambda>q. q\<lparr>state := JobCancelled, failure_code := Some CancelledFailure, job_updated_at := now\<rparr>)) (\<lambda>changed.
     tx_bind (tx_guard (changed = 1) IllegalTransition) (\<lambda>_.
     tx_bind (cancel_related_run (crawl_run_id r)) (\<lambda>_.
     tx_return JobCancelled)))))"

text \<open>The update commits on its own; the job is read again afterwards.\<close>

definition reprioritize ::
  "JobId \<Rightarrow> int \<Rightarrow> int \<Rightarrow> int \<Rightarrow> queue_db \<Rightarrow> (JobRepositoryError + JobRecord) \<times> queue_db" where
  "reprioritize j prio at now db =
     (case transaction (update_jobs JobDatabase False (\<lambda>q. job_id q = j \<and> state q = JobQueued)
         (\<lambda>q. q\<lparr>priority := prio, scheduled_at := at, job_updated_at := now\<rparr>)) db of
        (Inl e, db') \<Rightarrow> (Inl e, db')
      | (Inr changed, db') \<Rightarrow>
          if changed \<noteq> 1
          then (Inl (if job j db' = Inl JobNotFound then JobNotFound else NotReprioritizable), db')
          else (job j db', db'))"

definition remove_if_safe :: "JobId \<Rightarrow> queue_db \<Rightarrow> (JobRepositoryError + unit) \<times> queue_db" where
  "remove_if_safe j = transaction (
     tx_bind (select_job j) (\<lambda>r.
     tx_bind (tx_guard (state r = JobQueued \<and> current_attempt r = 0 \<and> crawl_run_id r = None
        \<and> parent_job_id r = None) RemovalUnsafe) (\<lambda>_.
     tx_bind (tx_read (\<lambda>db. list_ex (\<lambda>a. attempt_job_id a = j) (job_attempts db)
        \<or> list_ex (\<lambda>c. checkpoint_job_id c = j) (job_checkpoints db)
        \<or> list_ex (\<lambda>p. progress_job_id p = j) (job_progress_events db)
        \<or> list_ex (\<lambda>q. parent_job_id q = Some j) (jobs db))) (\<lambda>evidence.
     tx_bind (tx_guard (\<not> evidence) RemovalUnsafe) (\<lambda>_.
     tx_bind (delete_jobs JobDatabase (\<lambda>q. job_id q = j \<and> state q = JobQueued \<and> current_attempt q = 0
        \<and> crawl_run_id q = None \<and> parent_job_id q = None)) (\<lambda>changed.
     tx_guard (changed = 1) RemovalUnsafe))))))"

section \<open>Action children\<close>

definition is_recovery_continuation_kind :: "string \<Rightarrow> bool" where
  "is_recovery_continuation_kind k \<longleftrightarrow>
     k \<in> {''RETRY'', ''RETRY_FAILED_PARTS'', ''RESUME_CHECKPOINT'', ''RESTART_FROM_BEGINNING''}"

definition active_child :: "JobId \<Rightarrow> (string \<Rightarrow> bool) \<Rightarrow> queue_db \<Rightarrow> bool" where
  "active_child source K db \<longleftrightarrow>
     list_ex (\<lambda>r. parent_job_id r = Some source \<and> K (kind r) \<and> (state r = JobQueued \<or> state r = JobRunning)) (jobs db)"

definition validate_action_child_lineage :: "JobRecord \<Rightarrow> JobId \<Rightarrow> string \<Rightarrow> (JobRepositoryError, unit) tx" where
  "validate_action_child_lineage source source_id action_kind =
     (if state source = JobQueued \<or> state source = JobRunning then tx_fail IllegalTransition
      else tx_bind (tx_read (active_child source_id (\<lambda>k. k = action_kind))) (\<lambda>equivalent.
        if equivalent then tx_fail ActionAlreadyActive
        else tx_bind (tx_read (active_child source_id is_recovery_continuation_kind)) (\<lambda>recovering.
          tx_guard (\<not> (is_recovery_continuation_kind action_kind \<and> recovering)) ActionAlreadyActive)))"

definition action_child_crawl_run_id ::
  "'u job_env \<Rightarrow> string \<Rightarrow> JobRecord \<Rightarrow> 'u ActionRunAssociation \<Rightarrow> (JobRepositoryError, string option) tx" where
  "action_child_crawl_run_id env fresh_run source assoc =
     (case assoc of
        SameSourceRun \<Rightarrow>
          tx_bind (tx_result (ok_or (crawl_run_id source) QueueInvariant)) (\<lambda>run.
          tx_bind (update_runs (run_status_in run
            [RunQueued, RunSucceeded, RunPartialResult, RunFailed, RunCancelled]) RunQueued) (\<lambda>changed.
          tx_bind (tx_guard (changed = 1) QueueInvariant) (\<lambda>_. tx_return (Some run))))
      | NewIndependentRun snap \<Rightarrow>
          tx_bind (insert_run_in_transaction env fresh_run RunQueued snap) (\<lambda>_. tx_return (Some fresh_run))
      | NoRun \<Rightarrow> tx_return None)"

definition enqueue_action_child ::
  "'u job_env \<Rightarrow> JobId \<Rightarrow> string \<Rightarrow> JobId \<Rightarrow> string \<Rightarrow> int \<Rightarrow> 'u ActionRunAssociation \<Rightarrow> int option \<Rightarrow> queue_db \<Rightarrow>
   (JobRepositoryError + JobRecord) \<times> queue_db" where
  "enqueue_action_child env fresh_job fresh_run source_id action_kind now assoc bound = transaction (
     tx_bind (tx_guard (case assoc of NewIndependentRun snap \<Rightarrow> snapshot_to_string env snap \<noteq> None | _ \<Rightarrow> True)
       JobDatabase) (\<lambda>_.
     tx_bind (select_job source_id) (\<lambda>source.
     tx_bind (validate_action_child_lineage source source_id action_kind) (\<lambda>_.
     tx_bind (action_child_crawl_run_id env fresh_run source assoc) (\<lambda>run.
     tx_bind (insert_job JobDatabase (queued_row fresh_job action_kind (priority source) (Some source_id) run now
        (case bound of None \<Rightarrow> max_attempts source | Some m \<Rightarrow> m) now)) (\<lambda>_.
     select_job fresh_job))))))"

section \<open>Storage pressure and reconciliation\<close>

definition has_checkpoint_for_current_attempt :: "JobId \<Rightarrow> JobLease \<Rightarrow> (JobRepositoryError, bool) tx" where
  "has_checkpoint_for_current_attempt j lease =
     tx_bind (tx_result (generation_to_i64 lease)) (\<lambda>g.
     tx_read (\<lambda>db. list_ex (\<lambda>c. checkpoint_job_id c = j \<and>
       list_ex (\<lambda>a. checkpoint_attempt_id c = Some (attempt_id a) \<and> attempt_job_id a = j
          \<and> attempt_lease_id a = lease_id lease \<and> attempt_lease_generation a = g
          \<and> outcome a = AttemptRunning) (job_attempts db)) (job_checkpoints db)))"

text \<open>The saturating \<open>u8\<close> counter only distinguishes zero, one and more.\<close>

definition append_terminal_progress_if_missing_in_transaction ::
  "string \<Rightarrow> JobId \<Rightarrow> ProgressTerminalState \<Rightarrow> int \<Rightarrow> (JobRepositoryError, unit) tx" where
  "append_terminal_progress_if_missing_in_transaction event_id j t now =
     tx_bind (tx_read (\<lambda>db. filter (\<lambda>p. terminal p \<noteq> None) (stream j db))) (\<lambda>ended.
     tx_bind (tx_guard (list_all (\<lambda>p. terminal p = Some t) ended) QueueInvariant) (\<lambda>_.
     tx_bind (tx_guard (length ended \<le> 1) QueueInvariant) (\<lambda>_.
       if length ended = 1 then tx_return () else
     tx_bind (tx_map_err (\<lambda>_. QueueInvariant) (append_in_transaction event_id (terminal_event j t) now)) (\<lambda>_.
     tx_return ()))))"

definition append_terminal_progress_if_missing ::
  "string \<Rightarrow> JobId \<Rightarrow> ProgressTerminalState \<Rightarrow> int \<Rightarrow> queue_db \<Rightarrow> (JobRepositoryError + unit) \<times> queue_db" where
  "append_terminal_progress_if_missing event_id j t now =
     transaction (append_terminal_progress_if_missing_in_transaction event_id j t now)"

definition requeue_in_transaction ::
  "'u job_env \<Rightarrow> string \<Rightarrow> JobId \<Rightarrow> JobLease \<Rightarrow> int \<Rightarrow>
   (JobRepositoryError, TerminalJobReconciliation option \<times> JobState) tx" where
  "requeue_in_transaction env event_id j lease now =
     tx_bind (select_owned_running_job j lease now) (\<lambda>r.
     tx_bind (case crawl_run_id r of None \<Rightarrow> tx_return None
              | Some run \<Rightarrow> finish_after_terminal_crawl_run j run now) (\<lambda>done.
       case done of
         Some rc \<Rightarrow> tx_return (Some rc, reconciled_state rc)
       | None \<Rightarrow>
     tx_bind (has_checkpoint_for_current_attempt j lease) (\<lambda>evidence.
       let st = (if evidence \<and> current_attempt r < max_attempts r then JobQueued else JobFailed) in
     tx_bind (finish_attempt_in_transaction j lease now AttemptFailed (Some StoragePressureFailure)) (\<lambda>_.
     tx_bind (release_job j lease (\<lambda>_. True) st (Some now) (Some StoragePressureFailure) now) (\<lambda>_.
     tx_bind (if st = JobFailed \<and> crawl_run_id r \<noteq> None
              then finalize_crawl_failure_in_transaction env event_id r now else tx_return ()) (\<lambda>_.
     tx_return (None, st)))))))"

definition requeue_after_storage_pressure ::
  "'u job_env \<Rightarrow> string \<Rightarrow> JobId \<Rightarrow> JobLease \<Rightarrow> int \<Rightarrow> queue_db \<Rightarrow> (JobRepositoryError + JobState) \<times> queue_db" where
  "requeue_after_storage_pressure env event_id j lease now db =
     (case transaction (requeue_in_transaction env event_id j lease now) db of
        (Inl e, db') \<Rightarrow> (Inl e, db')
      | (Inr (None, st), db') \<Rightarrow> (Inr st, db')
      | (Inr (Some rc, _), db') \<Rightarrow>
          (case append_terminal_progress_if_missing event_id j (reconciled_progress rc) now db' of
             (Inl e, db'') \<Rightarrow> (Inl e, db'')
           | (Inr _, db'') \<Rightarrow> (Inr (reconciled_state rc), db'')))"

definition terminal_run_jobs :: "queue_db \<Rightarrow> (JobId \<times> CrawlRunStatus) list" where
  "terminal_run_jobs db = sort_key fst (concat (map (\<lambda>r. case crawl_run_id r of None \<Rightarrow> []
     | Some run \<Rightarrow> map (\<lambda>q. (job_id r, run_status q)) (filter (run_status_in run
         [RunSucceeded, RunPartialResult, RunFailed, RunCancelled]) (crawl_runs db))) (jobs db)))"

fun reconcile_each ::
  "int \<Rightarrow> (JobId \<times> CrawlRunStatus) list \<Rightarrow> (JobRepositoryError, (JobId \<times> ProgressTerminalState) list) tx" where
  "reconcile_each now [] = tx_return []"
| "reconcile_each now ((j, st) # rest) =
     tx_bind (reconcile_terminal_job_in_transaction j st now) (\<lambda>rc.
     tx_bind (reconcile_each now rest) (\<lambda>repairs.
     tx_return (case rc of None \<Rightarrow> repairs | Some c \<Rightarrow> (j, reconciled_progress c) # repairs)))"

fun repair_each ::
  "(JobId \<Rightarrow> string) \<Rightarrow> int \<Rightarrow> (JobId \<times> ProgressTerminalState) list \<Rightarrow> queue_db \<Rightarrow> (JobRepositoryError + unit) \<times> queue_db" where
  "repair_each ids now [] db = (Inr (), db)"
| "repair_each ids now ((j, t) # rest) db =
     (case append_terminal_progress_if_missing (ids j) j t now db of
        (Inl e, db') \<Rightarrow> (Inl e, db')
      | (Inr _, db') \<Rightarrow> repair_each ids now rest db')"

definition reconcile_terminal_crawl_runs ::
  "(JobId \<Rightarrow> string) \<Rightarrow> int \<Rightarrow> queue_db \<Rightarrow> (JobRepositoryError + unit) \<times> queue_db" where
  "reconcile_terminal_crawl_runs ids now db =
     (case transaction (tx_bind (tx_read terminal_run_jobs) (reconcile_each now)) db of
        (Inl e, db') \<Rightarrow> (Inl e, db')
      | (Inr repairs, db') \<Rightarrow> repair_each ids now repairs db')"

definition recover_stale_jobs ::
  "'u job_env \<Rightarrow> (JobId \<Rightarrow> string) \<Rightarrow> int \<Rightarrow> queue_db \<Rightarrow> (JobRepositoryError + StaleJobRecovery) \<times> queue_db" where
  "recover_stale_jobs env ids now db =
     (case transaction (tx_bind ensure_queue_invariants (\<lambda>_. recover_expired_in_transaction env ids now)) db of
        (Inl e, db') \<Rightarrow> (Inl e, db')
      | (Inr rec, db') \<Rightarrow>
          (case reconcile_terminal_crawl_runs ids now db' of
             (Inl e, db'') \<Rightarrow> (Inl e, db'')
           | (Inr _, db'') \<Rightarrow> (Inr rec, db'')))"

definition reconcile_terminal_crawl_run ::
  "JobId \<Rightarrow> JobLease \<Rightarrow> string \<Rightarrow> int \<Rightarrow> queue_db \<Rightarrow> (JobRepositoryError + TerminalJobReconciliation) \<times> queue_db" where
  "reconcile_terminal_crawl_run j lease run now = transaction (
     tx_bind (\<lambda>db. tx_result (ok_or (select_crawl_run_status run db) QueueInvariant) db) (\<lambda>st.
     tx_bind (select_job j) (\<lambda>r.
     tx_bind (tx_guard (crawl_run_id r = Some run) QueueInvariant) (\<lambda>_.
     tx_bind (tx_guard (\<not> (state r = JobRunning \<and> record_lease r \<noteq> Some lease)) JobLeaseLost) (\<lambda>_.
     tx_bind (reconcile_terminal_job_in_transaction j st now) (\<lambda>rc.
     tx_result (ok_or rc QueueInvariant)))))))"

definition append_checkpoint ::
  "'u job_env \<Rightarrow> string \<Rightarrow> JobId \<Rightarrow> string \<Rightarrow> JobLease \<Rightarrow> CheckpointEnvelope \<Rightarrow> int \<Rightarrow> queue_db \<Rightarrow>
   (JobRepositoryError + CheckpointRecord) \<times> queue_db" where
  "append_checkpoint env fresh_id j a lease e now = transaction
     (tx_map_err CheckpointFailure (append_checkpoint_in_transaction (env_codec env) fresh_id j a lease e now))"

text \<open>The parent chain of a job.  The loop ends only when the chain does, so not returning is
  \<open>None\<close>.\<close>

partial_function (option) lineage :: "queue_db \<Rightarrow> JobId \<Rightarrow> (JobRepositoryError + JobId list) option" where
  "lineage db j = (case job j db of
     Inl e \<Rightarrow> Some (Inl e)
   | Inr r \<Rightarrow> (case parent_job_id r of
       None \<Rightarrow> Some (Inr [j])
     | Some p \<Rightarrow> Option.bind (lineage db p) (\<lambda>rest. Some (res_bind rest (\<lambda>js. Inr (j # js))))))"

fun first_checkpoint :: "json_codec \<Rightarrow> queue_db \<Rightarrow> JobId list \<Rightarrow> JobRepositoryError + CheckpointRecord option" where
  "first_checkpoint cod db [] = Inr None"
| "first_checkpoint cod db (j # js) =
     res_bind (map_err CheckpointFailure (latest cod j db)) (\<lambda>found.
       case found of Some r \<Rightarrow> Inr (Some r) | None \<Rightarrow> first_checkpoint cod db js)"

definition latest_checkpoint_for_lineage ::
  "'u job_env \<Rightarrow> JobId \<Rightarrow> queue_db \<Rightarrow> (JobRepositoryError + CheckpointRecord option) option" where
  "latest_checkpoint_for_lineage env j db =
     map_option (\<lambda>js. res_bind js (first_checkpoint (env_codec env) db)) (lineage db j)"

end
