(* ===== verification/Tx_Calculus.thy ===== *)
theory Tx_Calculus
  imports Job_Store
begin

text \<open>
  How transaction bodies compose: a body refines a relation on databases when, started in a state
  that satisfies the invariant, it only commits states the relation allows.  The calculus is
  proved once for any preorder that keeps its invariant; the queue lifecycle and the progress
  streams are instances of it.
\<close>

definition tx_refines :: "(queue_db \<Rightarrow> bool) \<Rightarrow> (queue_db \<Rightarrow> queue_db \<Rightarrow> bool) \<Rightarrow> ('e, 'a) tx \<Rightarrow> bool" where
  "tx_refines I R m \<longleftrightarrow> (\<forall>db x db'. I db \<longrightarrow> m db = Inr (x, db') \<longrightarrow> R db db')"

lemma tx_refinesD: "\<lbrakk>tx_refines I R m; I db; m db = Inr (x, db')\<rbrakk> \<Longrightarrow> R db db'"
  by (auto simp: tx_refines_def)

lemma tx_refinesI: "(\<And>db x db'. I db \<Longrightarrow> m db = Inr (x, db') \<Longrightarrow> R db db') \<Longrightarrow> tx_refines I R m"
  by (auto simp: tx_refines_def)

lemma tx_bind_assoc: "tx_bind (tx_bind m f) g = tx_bind m (\<lambda>a. tx_bind (f a) g)"
  by (auto simp: tx_bind_def fun_eq_iff split: sum.splits)

locale tx_refinement =
  fixes I :: "queue_db \<Rightarrow> bool" and R :: "queue_db \<Rightarrow> queue_db \<Rightarrow> bool"
  assumes R_refl: "R db db"
    and R_trans: "\<lbrakk>R db db'; R db' db''\<rbrakk> \<Longrightarrow> R db db''"
    and R_keeps: "\<lbrakk>R db db'; I db\<rbrakk> \<Longrightarrow> I db'"
begin

lemma readonly: "(\<And>db x db'. m db = Inr (x, db') \<Longrightarrow> db' = db) \<Longrightarrow> tx_refines I R m"
  unfolding tx_refines_def using R_refl by blast

lemma basic:
  "tx_refines I R (tx_return a)" "tx_refines I R (tx_fail e)" "tx_refines I R (tx_guard b e)"
  "tx_refines I R (tx_read g)" "tx_refines I R (tx_result r)"
  by (auto intro!: readonly simp: tx_simps)

lemma bind: "\<lbrakk>tx_refines I R m; \<And>a. tx_refines I R (f a)\<rbrakk> \<Longrightarrow> tx_refines I R (tx_bind m f)"
  unfolding tx_refines_def tx_simps by (meson R_trans R_keeps)

lemma map_err: "tx_refines I R m \<Longrightarrow> tx_refines I R (tx_map_err h m)"
  by (simp add: tx_refines_def tx_simps)

lemma branch:
  "\<lbrakk>b \<Longrightarrow> tx_refines I R m; \<not> b \<Longrightarrow> tx_refines I R n\<rbrakk> \<Longrightarrow> tx_refines I R (if b then m else n)"
  "\<lbrakk>tx_refines I R m; \<And>a. tx_refines I R (f a)\<rbrakk> \<Longrightarrow> tx_refines I R (case_option m f x)"
  by (auto split: option.splits)

lemma branch_pair: "(\<And>a b. tx_refines I R (h a b)) \<Longrightarrow> tx_refines I R (case_prod h p)"
  by (cases p) simp

lemmas rules = bind basic map_err branch branch_pair

text \<open>Committing or rolling back.\<close>

lemma committed: "\<lbrakk>tx_refines I R m; I db\<rbrakk> \<Longrightarrow> R db (snd (transaction m db))"
  by (auto simp: transaction_def tx_refines_def R_refl split: sum.splits)

end

end
