(* ===== verification/Job_Invariants.thy ===== *)
theory Job_Invariants
  imports Job_Queue Tx_Calculus
begin

text \<open>
  The lifecycle of the durable queue as an abstract step relation on jobs and attempts, its
  invariant, and the refinement: every operation of \<open>Job_Queue\<close>, in whatever state it is called
  and whether it succeeds or fails, is a sequence of these steps.
\<close>

section \<open>Abstract lifecycle\<close>

definition attempts_of :: "JobId \<Rightarrow> queue_db \<Rightarrow> AttemptRow list" where
  "attempts_of j db = filter (\<lambda>a. attempt_job_id a = j) (job_attempts db)"

definition on_job :: "JobId \<Rightarrow> (JobRow \<Rightarrow> JobRow) \<Rightarrow> queue_db \<Rightarrow> JobRow list" where
  "on_job j f db = map (\<lambda>r. if job_id r = j then f r else r) (jobs db)"

definition close_attempts :: "JobId \<Rightarrow> int \<Rightarrow> AttemptOutcome \<Rightarrow> JobFailureCode option \<Rightarrow> queue_db \<Rightarrow> AttemptRow list" where
  "close_attempts j now out failure db =
     map (\<lambda>a. if attempt_job_id a = j \<and> outcome a = AttemptRunning
       then a\<lparr>finished_at := Some now, outcome := out, attempt_failure_code := failure\<rparr> else a) (job_attempts db)"

definition same_identity :: "JobRow \<Rightarrow> JobRow \<Rightarrow> bool" where
  "same_identity r q \<longleftrightarrow> job_id q = job_id r \<and> kind q = kind r \<and> max_attempts q = max_attempts r
     \<and> parent_job_id q = parent_job_id r \<and> crawl_run_id q = crawl_run_id r
     \<and> job_created_at q = job_created_at r"

inductive qstep :: "queue_db \<Rightarrow> queue_db \<Rightarrow> bool" where
  q_insert: "\<lbrakk>job_id r \<notin> job_id ` set (jobs db); state r = JobQueued; current_attempt r = 0;
      lease_generation r = 0; jobs_check r; jobs db' = jobs db @ [r]; job_attempts db' = job_attempts db\<rbrakk>
    \<Longrightarrow> qstep db db'"
| q_lease: "\<lbrakk>r \<in> set (jobs db); state r = JobQueued; jobs_check (f r); same_identity r (f r);
      state (f r) = JobRunning; current_attempt (f r) = current_attempt r + 1;
      lease_generation (f r) = lease_generation r + 1; lease_columns (f r) = Some c;
      attempt_job_id a = job_id r; attempt_number a = current_attempt (f r);
      attempt_lease_id a = col_lease_id c; attempt_lease_generation a = lease_generation (f r);
      worker_id a = col_lease_owner c; outcome a = AttemptRunning;
      attempt_id a \<notin> attempt_id ` set (job_attempts db);
      attempt_lease_id a \<notin> attempt_lease_id ` set (job_attempts db);
      jobs db' = on_job (job_id r) f db; job_attempts db' = job_attempts db @ [a]\<rbrakk>
    \<Longrightarrow> qstep db db'"
| q_close: "\<lbrakk>r \<in> set (jobs db); state r = JobRunning; jobs_check (f r); same_identity r (f r);
      legal_state_transition JobRunning (state (f r)); current_attempt (f r) = current_attempt r;
      lease_generation (f r) = lease_generation r; out \<noteq> AttemptRunning;
      jobs db' = on_job (job_id r) f db; job_attempts db' = close_attempts (job_id r) now out failure db\<rbrakk>
    \<Longrightarrow> qstep db db'"
| q_renew: "\<lbrakk>r \<in> set (jobs db); jobs_check (f r); same_identity r (f r); state (f r) = state r;
      current_attempt (f r) = current_attempt r; lease_generation (f r) = lease_generation r;
      map_option (\<lambda>c. (col_lease_id c, col_lease_owner c)) (lease_columns (f r))
        = map_option (\<lambda>c. (col_lease_id c, col_lease_owner c)) (lease_columns r);
      jobs db' = on_job (job_id r) f db; job_attempts db' = job_attempts db\<rbrakk>
    \<Longrightarrow> qstep db db'"
| q_cancel: "\<lbrakk>r \<in> set (jobs db); state r = JobQueued; jobs_check (f r); same_identity r (f r);
      state (f r) = JobCancelled; current_attempt (f r) = current_attempt r;
      lease_generation (f r) = lease_generation r;
      jobs db' = on_job (job_id r) f db; job_attempts db' = job_attempts db\<rbrakk>
    \<Longrightarrow> qstep db db'"
| q_remove: "\<lbrakk>r \<in> set (jobs db); state r = JobQueued; current_attempt r = 0;
      jobs db' = filter (\<lambda>q. job_id q \<noteq> job_id r) (jobs db); job_attempts db' = job_attempts db\<rbrakk>
    \<Longrightarrow> qstep db db'"
| q_other: "\<lbrakk>jobs db' = jobs db; job_attempts db' = job_attempts db\<rbrakk> \<Longrightarrow> qstep db db'"

text \<open>The invariant: a job's attempts are numbered 1, 2, 3, ..., their lease generations are
  their numbers, only the last may be running, and it runs exactly while the job holds the
  same lease.\<close>

definition numbers :: "nat \<Rightarrow> int list" where
  "numbers n = map int [1..<Suc n]"

lemma numbers_simps [simp]: "numbers 0 = []" "numbers (Suc n) = numbers n @ [int n + 1]"
  by (simp_all add: numbers_def)

lemma set_numbers: "set (numbers n) = {1..int n}"
  by (induction n) auto

lemma distinct_numbers: "distinct (numbers n)"
  by (induction n) (auto simp: set_numbers)

definition history_ok :: "JobRow \<Rightarrow> AttemptRow list \<Rightarrow> bool" where
  "history_ok r hist \<longleftrightarrow>
     map attempt_number hist = numbers (length hist)
   \<and> current_attempt r = int (length hist) \<and> lease_generation r = int (length hist)
   \<and> map attempt_lease_generation hist = numbers (length hist)
   \<and> list_all (\<lambda>a. outcome a \<noteq> AttemptRunning) (butlast hist)
   \<and> (case lease_columns r of
        None \<Rightarrow> hist = [] \<or> outcome (last hist) \<noteq> AttemptRunning
      | Some c \<Rightarrow> hist \<noteq> [] \<and> outcome (last hist) = AttemptRunning
          \<and> attempt_lease_id (last hist) = col_lease_id c \<and> worker_id (last hist) = col_lease_owner c)"

definition queue_ok :: "queue_db \<Rightarrow> bool" where
  "queue_ok db \<longleftrightarrow>
     distinct (map job_id (jobs db)) \<and> distinct (map attempt_id (job_attempts db))
   \<and> distinct (map attempt_lease_id (job_attempts db))
   \<and> (\<forall>r \<in> set (jobs db). jobs_check r \<and> history_ok r (attempts_of (job_id r) db))
   \<and> (\<forall>a \<in> set (job_attempts db). attempt_job_id a \<in> job_id ` set (jobs db))"

lemma queue_okD:
  assumes "queue_ok db" and "r \<in> set (jobs db)"
  shows "jobs_check r" and "history_ok r (attempts_of (job_id r) db)"
  using assms by (auto simp: queue_ok_def)

lemma job_unique: "\<lbrakk>queue_ok db; r \<in> set (jobs db); q \<in> set (jobs db); job_id q = job_id r\<rbrakk> \<Longrightarrow> q = r"
  unfolding queue_ok_def distinct_map by (meson inj_onD)

lemma queue_ok_fk: "queue_ok db \<Longrightarrow> attempt_job_id ` set (job_attempts db) \<subseteq> job_id ` set (jobs db)"
  by (simp add: queue_ok_def image_subset_iff)

lemma attempts_of_Nil: "attempts_of j db = [] \<longleftrightarrow> j \<notin> attempt_job_id ` set (job_attempts db)"
  by (auto simp: attempts_of_def filter_empty_conv)

lemma attempts_of_cong: "job_attempts db' = job_attempts db \<Longrightarrow> attempts_of j db' = attempts_of j db"
  by (simp add: attempts_of_def)

lemma attempts_of_map:
  assumes "job_attempts db' = map g (job_attempts db)" and "\<And>a. attempt_job_id (g a) = attempt_job_id a"
  shows "attempts_of j db' = map g (attempts_of j db)"
  using assms(2) unfolding attempts_of_def assms(1) by (induction "job_attempts db") (auto simp: filter_map comp_def)

lemma on_job_ids:
  assumes "jobs db' = on_job j f db" and "\<And>q. q \<in> set (jobs db) \<Longrightarrow> job_id q = j \<Longrightarrow> job_id (f q) = j"
  shows "map job_id (jobs db') = map job_id (jobs db)"
  using assms(2) by (auto simp: assms(1) on_job_def)

text \<open>A step that rewrites one row keeps the invariant if it does so for that row and leaves the
  attempts of every other job alone.\<close>

lemma queue_ok_on_job:
  assumes ok: "queue_ok db" and r: "r \<in> set (jobs db)" and js: "jobs db' = on_job (job_id r) f db"
    and same: "same_identity r (f r)" and chk: "jobs_check (f r)"
    and hist: "history_ok (f r) (attempts_of (job_id r) db')"
    and others: "\<And>j. j \<noteq> job_id r \<Longrightarrow> attempts_of j db' = attempts_of j db"
    and ids: "distinct (map attempt_id (job_attempts db'))"
      "distinct (map attempt_lease_id (job_attempts db'))"
      "attempt_job_id ` set (job_attempts db') \<subseteq> insert (job_id r) (attempt_job_id ` set (job_attempts db))"
  shows "queue_ok db'"
proof -
  have u: "q = r" if "q \<in> set (jobs db)" "job_id q = job_id r" for q using job_unique [OF ok r that] .
  have fid: "job_id (f r) = job_id r" using same by (simp add: same_identity_def)
  have m: "map job_id (jobs db') = map job_id (jobs db)"
    by (rule on_job_ids [OF js]) (use u fid in auto)
  have "jobs_check q' \<and> history_ok q' (attempts_of (job_id q') db')" if q': "q' \<in> set (jobs db')" for q'
  proof -
    obtain q where q: "q \<in> set (jobs db)" "q' = (if job_id q = job_id r then f q else q)"
      using q' by (auto simp: js on_job_def)
    then show ?thesis
      using u [of q] fid chk hist others [of "job_id q"] queue_okD [OF ok q(1)] by (cases "job_id q = job_id r") auto
  qed
  moreover have "attempt_job_id a \<in> job_id ` set (jobs db')" if "a \<in> set (job_attempts db')" for a
  proof -
    have "job_id ` set (jobs db') = job_id ` set (jobs db)" using arg_cong [OF m, of set] by simp
    moreover have "attempt_job_id a \<in> insert (job_id r) (attempt_job_id ` set (job_attempts db))"
      using that ids(3) by (simp add: image_subset_iff)
    then have "attempt_job_id a \<in> job_id ` set (jobs db)"
      using queue_ok_fk [OF ok] r by (metis imageI insertE subsetD)
    ultimately show ?thesis by simp
  qed
  moreover have "distinct (map job_id (jobs db'))" unfolding m using ok by (simp add: queue_ok_def)
  ultimately show ?thesis using ids(1,2) unfolding queue_ok_def by blast
qed

lemma history_ok_last:
  assumes "history_ok r hist" and "lease_columns r = Some c"
  shows "hist = butlast hist @ [last hist]" and "outcome (last hist) = AttemptRunning"
    and "list_all (\<lambda>a. outcome a \<noteq> AttemptRunning) (butlast hist)"
  using assms by (auto simp: history_ok_def)

lemma history_ok_closed:
  assumes h: "history_ok r hist" and c: "lease_columns r = Some c"
    and out: "out \<noteq> AttemptRunning"
    and g: "g = (\<lambda>a. if attempt_job_id a = j \<and> outcome a = AttemptRunning
       then a\<lparr>finished_at := t, outcome := out, attempt_failure_code := failure\<rparr> else a)"
    and hj: "\<forall>a \<in> set hist. attempt_job_id a = j"
    and r': "lease_columns r' = None" "current_attempt r' = current_attempt r" "lease_generation r' = lease_generation r"
  shows "history_ok r' (map g hist)"
proof -
  note l = history_ok_last [OF h c]
  have keep: "attempt_number (g a) = attempt_number a" "attempt_lease_generation (g a) = attempt_lease_generation a" for a
    by (auto simp: g)
  have "map g hist \<noteq> [] \<longrightarrow> outcome (last (map g hist)) \<noteq> AttemptRunning"
    using out hj by (auto simp: g last_map)
  moreover have "list_all (\<lambda>a. outcome a \<noteq> AttemptRunning) (butlast (map g hist))"
    using l(3) out by (auto simp: map_butlast [symmetric] list_all_iff g)
  moreover have "map attempt_number (map g hist) = map attempt_number hist"
    "map attempt_lease_generation (map g hist) = map attempt_lease_generation hist"
    by (simp_all add: keep)
  ultimately show ?thesis using h r' by (auto simp: history_ok_def simp del: map_map)
qed

lemma history_ok_leased:
  assumes h: "history_ok r hist" and "lease_columns r = None"
    and "current_attempt r' = current_attempt r + 1" "lease_generation r' = lease_generation r + 1"
    and "lease_columns r' = Some c" "attempt_number a = current_attempt r'"
    and "attempt_lease_id a = col_lease_id c" "attempt_lease_generation a = lease_generation r'"
    and "worker_id a = col_lease_owner c" "outcome a = AttemptRunning"
  shows "history_ok r' (hist @ [a])"
proof -
  have "list_all (\<lambda>a. outcome a \<noteq> AttemptRunning) hist"
    using h assms(2) by (cases hist rule: rev_cases) (auto simp: history_ok_def)
  then show ?thesis using assms by (simp add: history_ok_def)
qed

lemma attempts_of_snoc:
  "job_attempts db' = job_attempts db @ [a] \<Longrightarrow>
   attempts_of j db' = (if attempt_job_id a = j then attempts_of j db @ [a] else attempts_of j db)"
  by (simp add: attempts_of_def)

lemma attempts_of_closed:
  assumes "job_attempts db' = close_attempts j t out failure db"
  shows "attempts_of i db' = map (\<lambda>a. if attempt_job_id a = j \<and> outcome a = AttemptRunning
       then a\<lparr>finished_at := Some t, outcome := out, attempt_failure_code := failure\<rparr> else a) (attempts_of i db)"
  by (rule attempts_of_map) (simp_all add: assms close_attempts_def)

lemma attempts_of_job [dest]: "a \<in> set (attempts_of j db) \<Longrightarrow> attempt_job_id a = j"
  by (simp add: attempts_of_def)

lemma jobs_check_lease: "jobs_check r \<Longrightarrow> lease_columns r = None \<longleftrightarrow> state r \<noteq> JobRunning"
  by (auto simp: jobs_check_def)

lemma queue_ok_same_attempts:
  assumes ok: "queue_ok db" and r: "r \<in> set (jobs db)" and js: "jobs db' = on_job (job_id r) f db"
    and same: "same_identity r (f r)" and chk: "jobs_check (f r)"
    and keep: "current_attempt (f r) = current_attempt r" "lease_generation (f r) = lease_generation r"
      "map_option (\<lambda>c. (col_lease_id c, col_lease_owner c)) (lease_columns (f r))
        = map_option (\<lambda>c. (col_lease_id c, col_lease_owner c)) (lease_columns r)"
    and as: "job_attempts db' = job_attempts db"
  shows "queue_ok db'"
proof (rule queue_ok_on_job [OF ok r js same chk])
  have "history_ok r (attempts_of (job_id r) db)" using queue_okD [OF ok r] by simp
  with keep show "history_ok (f r) (attempts_of (job_id r) db')"
    by (auto simp: history_ok_def attempts_of_cong [OF as] split: option.splits)
qed (use ok as in \<open>auto simp: queue_ok_def attempts_of_cong [OF as]\<close>)

lemma qstep_queue_ok:
  assumes "qstep db db'" and "queue_ok db"
  shows "queue_ok db'"
  using assms
proof cases
  case (q_insert r)
  have no: "attempts_of (job_id r) db = []"
    unfolding attempts_of_Nil using q_insert(1) queue_ok_fk [OF assms(2)] by (metis subsetD)
  have "lease_columns r = None" using jobs_check_lease [OF q_insert(5)] q_insert(2) by simp
  then have "history_ok r (attempts_of (job_id r) db')"
    using q_insert(3,4) no by (simp add: history_ok_def attempts_of_cong [OF q_insert(7)])
  then show ?thesis
    using assms(2) q_insert by (auto simp: queue_ok_def attempts_of_cong [OF q_insert(7)])
next
  case (q_lease r f c a)
  have "lease_columns r = None"
    using jobs_check_lease [OF queue_okD(1) [OF assms(2) q_lease(1)]] q_lease(2) by simp
  then have "history_ok (f r) (attempts_of (job_id r) db @ [a])"
    using history_ok_leased [OF queue_okD(2) [OF assms(2) q_lease(1)]] q_lease by simp
  then show ?thesis
    using assms(2) q_lease
    by (intro queue_ok_on_job [OF assms(2) q_lease(1) q_lease(17) q_lease(4) q_lease(3)])
      (auto simp: queue_ok_def attempts_of_snoc)
next
  case (q_close r f out now failure)
  let ?g = "\<lambda>a. if attempt_job_id a = job_id r \<and> outcome a = AttemptRunning
       then a\<lparr>finished_at := Some now, outcome := out, attempt_failure_code := failure\<rparr> else a"
  have "state (f r) \<noteq> JobRunning" using q_close(5) by (auto simp: legal_state_transition_def)
  then have none: "lease_columns (f r) = None" using jobs_check_lease [OF q_close(3)] by simp
  obtain c where c: "lease_columns r = Some c"
    using jobs_check_lease [OF queue_okD(1) [OF assms(2) q_close(1)]] q_close(2) by auto
  have "history_ok (f r) (map ?g (attempts_of (job_id r) db))"
    by (rule history_ok_closed [OF queue_okD(2) [OF assms(2) q_close(1)] c]) (use q_close none in auto)
  moreover have "map ?g (attempts_of j db) = attempts_of j db" if "j \<noteq> job_id r" for j
    using that by (intro map_idI) auto
  moreover have "map attempt_id (job_attempts db') = map attempt_id (job_attempts db)"
    "map attempt_lease_id (job_attempts db') = map attempt_lease_id (job_attempts db)"
    "map attempt_job_id (job_attempts db') = map attempt_job_id (job_attempts db)"
    by (auto simp: q_close(10) close_attempts_def)
  moreover from this(3) have "attempt_job_id ` set (job_attempts db') = attempt_job_id ` set (job_attempts db)"
    by (metis list.set_map)
  ultimately show ?thesis
    using assms(2)
    by (intro queue_ok_on_job [OF assms(2) q_close(1) q_close(9) q_close(4) q_close(3)])
      (auto simp: queue_ok_def attempts_of_closed [OF q_close(10)])
next
  case (q_renew r f)
  then show ?thesis by (intro queue_ok_same_attempts [OF assms(2) q_renew(1) q_renew(8) q_renew(3) q_renew(2)]) auto
next
  case (q_cancel r f)
  have "lease_columns r = None" "lease_columns (f r) = None"
    using jobs_check_lease [OF queue_okD(1) [OF assms(2) q_cancel(1)]] jobs_check_lease [OF q_cancel(3)]
      q_cancel(2,5) by auto
  then show ?thesis
    using q_cancel by (intro queue_ok_same_attempts [OF assms(2) q_cancel(1) q_cancel(8) q_cancel(4) q_cancel(3)]) auto
next
  case (q_remove r)
  have "attempts_of (job_id r) db = []"
    using queue_okD(2) [OF assms(2) q_remove(1)] q_remove(3) by (simp add: history_ok_def)
  then have none: "attempt_job_id a \<noteq> job_id r" if "a \<in> set (job_attempts db)" for a
    using that unfolding attempts_of_Nil by (metis imageI)
  have "attempt_job_id a \<in> job_id ` set (jobs db')" if a: "a \<in> set (job_attempts db')" for a
  proof -
    have "a \<in> set (job_attempts db)" using a q_remove(5) by simp
    moreover from this have "attempt_job_id a \<in> job_id ` set (jobs db)"
      using queue_ok_fk [OF assms(2)] by (simp add: image_subset_iff)
    then obtain q where "q \<in> set (jobs db)" "job_id q = attempt_job_id a" by (metis imageE)
    ultimately show ?thesis using none [of a] unfolding q_remove(4) by (intro image_eqI [of _ _ q]) auto
  qed
  moreover have "jobs_check q \<and> history_ok q (attempts_of (job_id q) db')" if "q \<in> set (jobs db')" for q
    using that queue_okD [OF assms(2), of q] by (simp add: q_remove(4) attempts_of_cong [OF q_remove(5)])
  moreover have "distinct (map job_id (jobs db'))"
    using assms(2) by (simp add: queue_ok_def q_remove(4) distinct_map_filter)
  ultimately show ?thesis using assms(2) by (simp add: queue_ok_def q_remove(5))
next
  case q_other
  then show ?thesis using assms(2) by (simp add: queue_ok_def attempts_of_cong [OF q_other(2)])
qed

section \<open>Refinement of the operations\<close>

lemma qsteps_queue_ok: "\<lbrakk>qstep\<^sup>*\<^sup>* db db'; queue_ok db\<rbrakk> \<Longrightarrow> queue_ok db'"
  by (induction rule: rtranclp_induct) (auto intro: qstep_queue_ok)

interpretation life: tx_refinement queue_ok "qstep\<^sup>*\<^sup>*"
  by unfold_locales (auto intro: qsteps_queue_ok)

lemma job_from_row_Inr: "job_from_row r = Inr q \<longleftrightarrow> q = r \<and> (\<exists>q. job_from_row r = Inr q)"
  by (auto simp: job_from_row_def result_simps)

lemma select_job_Inr:
  "select_job j db = Inr (r, db') \<longleftrightarrow> db' = db \<and> find (\<lambda>r. job_id r = j) (jobs db) = Some r \<and> job_from_row r = Inr r"
  by (auto simp: select_job_def tx_simps split: option.splits) (metis job_from_row_Inr)+

lemma select_job_member: "select_job j db = Inr (r, db') \<Longrightarrow> db' = db \<and> r \<in> set (jobs db) \<and> job_id r = j \<and> job_from_row r = Inr r"
  unfolding select_job_Inr by (auto simp: find_Some_iff)

lemma filter_length_one:
  assumes "length (filter P xs) = 1"
  obtains x where "x \<in> set xs" and "P x"
proof -
  from assms obtain x where "filter P xs = [x]" by (auto simp: length_Suc_conv)
  then have "x \<in> set (filter P xs)" by simp
  then show ?thesis using that by auto
qed

lemma set_butlast_last: "xs \<noteq> [] \<Longrightarrow> set xs = insert (last xs) (set (butlast xs))"
  by (cases xs rule: rev_cases) auto

lemma release_effect:
  assumes ok: "queue_ok db" and "release_job j lease due st at failure now db = Inr (u, db')"
  obtains r f where "r \<in> set (jobs db)" and "holds_lease j lease r" and "jobs_check (f r)"
    and "legal_state_transition JobRunning (state (f r))" and "same_identity r (f r)"
    and "state (f r) = st" and "current_attempt (f r) = current_attempt r"
    and "lease_generation (f r) = lease_generation r" and "db' = db\<lparr>jobs := on_job j f db\<rparr>"
proof -
  let ?f = "\<lambda>r. r\<lparr>state := st, scheduled_at := (case at of None \<Rightarrow> scheduled_at r | Some t \<Rightarrow> t),
          lease_columns := None, failure_code := failure, job_updated_at := now\<rparr>"
  let ?P = "\<lambda>r. holds_lease j lease r \<and> due r"
  from assms(2) have one: "length (filter ?P (jobs db)) = 1"
    and chk: "list_all (\<lambda>r. ?P r \<longrightarrow> jobs_check (?f r) \<and> legal_state_transition (state r) st) (jobs db)"
    and db': "db' = db\<lparr>jobs := map (\<lambda>r. if ?P r then ?f r else r) (jobs db)\<rparr>"
    by (auto simp: release_job_def tx_simps update_jobs_def split: if_splits)
  from one obtain r where r: "r \<in> set (jobs db)" "?P r" by (rule filter_length_one)
  have "?P q \<longleftrightarrow> job_id q = j" if "q \<in> set (jobs db)" for q
  proof
    show "?P q \<Longrightarrow> job_id q = j" by (simp add: holds_lease_def)
    have "job_id r = j" using r by (simp add: holds_lease_def)
    then show "job_id q = j \<Longrightarrow> ?P q" using job_unique [OF ok r(1) that] r by simp
  qed
  then have "map (\<lambda>r. if ?P r then ?f r else r) (jobs db) = on_job j ?f db" unfolding on_job_def by simp
  moreover have "state r = JobRunning" using r by (simp add: holds_lease_def)
  ultimately show ?thesis
    using that [of r ?f] r chk db' by (auto simp: list_all_iff same_identity_def)
qed

lemma finish_attempt_effect:
  assumes ok: "queue_ok db" and fin: "finish_attempt_in_transaction j lease now out failure db = Inr (u, db')"
    and r: "r \<in> set (jobs db)" "job_id r = j"
  shows "db' = db\<lparr>job_attempts := close_attempts j now out failure db\<rparr>" and "out \<noteq> AttemptRunning"
proof -
  let ?g = "\<lambda>a. a\<lparr>finished_at := Some now, outcome := out, attempt_failure_code := failure\<rparr>"
  let ?P = "\<lambda>a. attempt_job_id a = j \<and> attempt_lease_id a = lease_id lease
     \<and> attempt_lease_generation a = generation lease \<and> worker_id a = lease_owner lease \<and> outcome a = AttemptRunning"
  from fin have one: "length (filter ?P (job_attempts db)) = 1"
    and chk: "list_all (\<lambda>a. ?P a \<longrightarrow> attempts_check (?g a) \<and> attempt_update_allowed a (?g a)) (job_attempts db)"
    and db': "db' = db\<lparr>job_attempts := map (\<lambda>a. if ?P a then ?g a else a) (job_attempts db)\<rparr>"
    by (auto simp: finish_attempt_in_transaction_def tx_simps update_attempts_def generation_to_i64_def split: if_splits)
  from one obtain b where b: "b \<in> set (job_attempts db)" "?P b" by (rule filter_length_one)
  then show "out \<noteq> AttemptRunning" using chk by (auto simp: list_all_iff attempt_update_allowed_def)
  have running_last: "a = last (attempts_of j db)"
    if "a \<in> set (job_attempts db)" "attempt_job_id a = j" "outcome a = AttemptRunning" for a
  proof -
    have a: "a \<in> set (attempts_of j db)" using that by (simp add: attempts_of_def)
    then have "attempts_of j db \<noteq> []" by auto
    then have "set (attempts_of j db) = insert (last (attempts_of j db)) (set (butlast (attempts_of j db)))"
      by (rule set_butlast_last)
    moreover have "list_all (\<lambda>a. outcome a \<noteq> AttemptRunning) (butlast (attempts_of j db))"
      using queue_okD(2) [OF ok r(1)] r(2) by (simp add: history_ok_def)
    ultimately show ?thesis using a that(3) by (auto simp: list_all_iff)
  qed
  have "?P a \<longleftrightarrow> attempt_job_id a = j \<and> outcome a = AttemptRunning" if "a \<in> set (job_attempts db)" for a
    using running_last [of a] running_last [of b] that b by auto
  then show "db' = db\<lparr>job_attempts := close_attempts j now out failure db\<rparr>"
    unfolding db' close_attempts_def by simp
qed

text \<open>Closing an attempt and releasing its job is one lifecycle step.\<close>

lemma close_refines:
  "tx_refines queue_ok qstep\<^sup>*\<^sup>* (tx_bind (finish_attempt_in_transaction j lease now out failure)
     (\<lambda>_. release_job j lease due st at failure' now'))"
proof (rule tx_refinesI)
  fix db u db2
  assume ok: "queue_ok db" and "tx_bind (finish_attempt_in_transaction j lease now out failure)
     (\<lambda>_. release_job j lease due st at failure' now') db = Inr (u, db2)"
  then obtain v db1 where fin: "finish_attempt_in_transaction j lease now out failure db = Inr (v, db1)"
    and rel: "release_job j lease due st at failure' now' db1 = Inr (u, db2)"
    by (auto simp: tx_simps)
  have "jobs db1 = jobs db"
    using fin by (auto simp: finish_attempt_in_transaction_def tx_simps update_attempts_def split: if_splits)
  moreover have "length (filter (\<lambda>r. holds_lease j lease r \<and> due r) (jobs db1)) = 1"
    using rel by (auto simp: release_job_def tx_simps update_jobs_def split: if_splits)
  ultimately have "length (filter (\<lambda>r. holds_lease j lease r \<and> due r) (jobs db)) = 1" by simp
  then obtain r where r: "r \<in> set (jobs db)" "holds_lease j lease r" by (rule filter_length_one) auto
  then have id: "job_id r = j" and run: "state r = JobRunning" by (simp_all add: holds_lease_def)
  note fe = finish_attempt_effect [OF ok fin r(1) id]
  have "release_job j lease due st at failure' now' db = Inr (u, db\<lparr>jobs := jobs db2\<rparr>)"
    using rel by (auto simp: fe(1) release_job_def tx_simps update_jobs_def split: if_splits)
  from release_effect [OF ok this] obtain q f where
    q: "q \<in> set (jobs db)" "holds_lease j lease q" "jobs_check (f q)"
      "legal_state_transition JobRunning (state (f q))" "same_identity q (f q)"
      "current_attempt (f q) = current_attempt q" "lease_generation (f q) = lease_generation q"
    and js: "db\<lparr>jobs := jobs db2\<rparr> = db\<lparr>jobs := on_job j f db\<rparr>" by metis
  have "q = r" using job_unique [OF ok r(1) q(1)] q(2) id by (simp add: holds_lease_def)
  moreover have "jobs db2 = on_job j f db" using arg_cong [OF js, of jobs] by simp
  moreover have "job_attempts db2 = close_attempts j now out failure db"
    using rel by (auto simp: fe(1) release_job_def tx_simps update_jobs_def split: if_splits)
  ultimately have "qstep db db2" using q r id run fe(2) by (intro q_close [of r]) auto
  then show "qstep\<^sup>*\<^sup>* db db2" by blast
qed

lemma close_then_refines:
  assumes "\<And>u. tx_refines queue_ok qstep\<^sup>*\<^sup>* (f u)"
  shows "tx_refines queue_ok qstep\<^sup>*\<^sup>* (tx_bind (finish_attempt_in_transaction j lease now out failure)
     (\<lambda>_. tx_bind (release_job j lease due st at failure' now') f))"
  using life.bind [OF close_refines assms] by (simp add: tx_bind_assoc)

lemmas closing = close_refines close_then_refines

text \<open>Statements that leave jobs and attempts alone.\<close>

lemma other_refines:
  assumes "\<And>db x db'. m db = Inr (x, db') \<Longrightarrow> jobs db' = jobs db \<and> job_attempts db' = job_attempts db"
  shows "tx_refines queue_ok qstep\<^sup>*\<^sup>* m"
  using assms by (auto intro!: tx_refinesI r_into_rtranclp q_other)

lemma aside_refines:
  "tx_refines queue_ok qstep\<^sup>*\<^sup>* (update_runs P st)" "tx_refines queue_ok qstep\<^sup>*\<^sup>* (insert_run e run)"
  "tx_refines queue_ok qstep\<^sup>*\<^sup>* (append_in_transaction i ev t)"
  "tx_refines queue_ok qstep\<^sup>*\<^sup>* (append_checkpoint_in_transaction cod i j a lease env t)"
  "tx_refines queue_ok qstep\<^sup>*\<^sup>* (select_job j)" "tx_refines queue_ok qstep\<^sup>*\<^sup>* ensure_queue_invariants"
  by (rule other_refines, auto simp: update_runs_def insert_run_def select_job_Inr ensure_queue_invariants_def tx_simps
        dest!: append_raw elim!: append_checkpoint_effect split: if_splits)+

lemma update_one_refines:
  assumes "\<And>r. jobs_check (f r) \<Longrightarrow> same_identity r (f r) \<and> current_attempt (f r) = current_attempt r
      \<and> lease_generation (f r) = lease_generation r"
    and "\<And>r. P r \<Longrightarrow> job_id r = j"
    and "\<And>r. P r \<Longrightarrow> jobs_check (f r) \<Longrightarrow> (state r = JobQueued \<and> state (f r) = JobCancelled)
      \<or> (state (f r) = state r \<and> map_option (\<lambda>c. (col_lease_id c, col_lease_owner c)) (lease_columns (f r))
        = map_option (\<lambda>c. (col_lease_id c, col_lease_owner c)) (lease_columns r))"
  shows "tx_refines queue_ok qstep\<^sup>*\<^sup>* (update_jobs e b P f)"
proof (rule tx_refinesI)
  fix db n db' assume ok: "queue_ok db" and up: "update_jobs e b P f db = Inr (n, db')"
  have db': "db' = db\<lparr>jobs := map (\<lambda>r. if P r then f r else r) (jobs db)\<rparr>"
    and chk: "\<forall>r \<in> set (jobs db). P r \<longrightarrow> jobs_check (f r)"
    using up by (auto simp: update_jobs_def list_all_iff split: if_splits)
  have "qstep db db'"
  proof (cases "\<exists>r \<in> set (jobs db). P r")
    case False
    then have "map (\<lambda>r. if P r then f r else r) (jobs db) = jobs db" by (intro map_idI) auto
    then show ?thesis by (intro q_other) (simp_all add: db')
  next
    case True
    then obtain r where r: "r \<in> set (jobs db)" "P r" by blast
    then have id: "job_id r = j" using assms(2) by blast
    have "P q \<longleftrightarrow> job_id q = j" if "q \<in> set (jobs db)" for q
      using assms(2) [of q] job_unique [OF ok r(1) that] r(2) id by auto
    then have js: "jobs db' = on_job (job_id r) f db" by (simp add: db' on_job_def id)
    have "jobs_check (f r)" using chk r by blast
    then show ?thesis
      using assms(1,3) [of r] r js by (auto simp: db' intro: q_renew [of r] q_cancel [of r])
  qed
  then show "qstep\<^sup>*\<^sup>* db db'" by blast
qed

lemma insert_attempt_effect:
  assumes "insert_attempt e a db = Inr (u, db')"
  shows "job_attempts db' = job_attempts db @ [a]" and "jobs db' = jobs db"
    and "attempt_id a \<notin> attempt_id ` set (job_attempts db)"
    and "attempt_lease_id a \<notin> attempt_lease_id ` set (job_attempts db)"
  using assms by (auto simp: insert_attempt_def list_all_iff split: if_splits)

lemma lease_effect:
  assumes "lease_queued_job fresh_lease fresh_attempt j worker now duration allow db = Inr (x, db')"
  obtains r expires n gen where "select_job j db = Inr (r, db)" and "state r = JobQueued" and "scheduled_at r \<le> now"
    and "current_attempt r < max_attempts r" and "allow \<or> storage_class r = StorageLight"
    and "n = saturating_inc 32 (current_attempt r)"
    and "gen = saturating_inc 64 (lease_generation r)" and "gen < 2 ^ 63"
    and "i64_checked_add now duration = Some expires"
    and "update_jobs JobDatabase True
       (\<lambda>q. job_id q = j \<and> state q = JobQueued \<and> scheduled_at q \<le> now \<and> current_attempt q = current_attempt r)
       (leased_row n gen fresh_lease worker now expires) db = Inr (1, db\<lparr>jobs := jobs db'\<rparr>)"
    and "insert_attempt JobDatabase (running_attempt fresh_attempt j n gen fresh_lease worker now)
       (db\<lparr>jobs := jobs db'\<rparr>) = Inr ((), db')"
    and "select_job j db' = Inr (acquired_job x, db')"
    and "acquired_attempt x = running_attempt fresh_attempt j n gen fresh_lease worker now"
proof -
  from assms obtain r db0 where sel: "select_job j db = Inr (r, db0)" and rest:
    "(if state r \<noteq> JobQueued \<or> scheduled_at r > now \<or> current_attempt r \<ge> max_attempts r
       then tx_fail IllegalTransition
       else if \<not> allow \<and> storage_class r = ArtifactHeavy then tx_fail StorageAdmissionBlocked
       else
         let gen = saturating_inc 64 (lease_generation r); n = saturating_inc 32 (current_attempt r) in
     tx_bind (tx_result (ok_or (i64_checked_add now duration) QueueInvariant)) (\<lambda>expires.
     tx_bind (tx_guard (gen < 2 ^ 63) QueueInvariant) (\<lambda>_.
     tx_bind (update_jobs JobDatabase True
       (\<lambda>q. job_id q = j \<and> state q = JobQueued \<and> scheduled_at q \<le> now \<and> current_attempt q = current_attempt r)
       (leased_row n gen fresh_lease worker now expires)) (\<lambda>changed.
     tx_bind (tx_guard (changed = 1) IllegalTransition) (\<lambda>_.
       let attempt = running_attempt fresh_attempt j n gen fresh_lease worker now in
     tx_bind (insert_attempt JobDatabase attempt) (\<lambda>_.
     tx_bind (select_job j) (\<lambda>leased.
     tx_return \<lparr>acquired_job = leased, acquired_attempt = attempt\<rparr>))))))) db0 = Inr (x, db')"
    unfolding lease_queued_job_def tx_basic(3) by blast
  have db0: "db0 = db" using sel by (simp add: select_job_Inr)
  define gen where "gen = saturating_inc 64 (lease_generation r)"
  define n where "n = saturating_inc 32 (current_attempt r)"
  from rest obtain expires db1 db2 leased where
    pre: "state r = JobQueued" "scheduled_at r \<le> now" "current_attempt r < max_attempts r"
      "allow \<or> storage_class r \<noteq> ArtifactHeavy" "gen < 2 ^ 63" "i64_checked_add now duration = Some expires"
    and up: "update_jobs JobDatabase True
       (\<lambda>q. job_id q = j \<and> state q = JobQueued \<and> scheduled_at q \<le> now \<and> current_attempt q = current_attempt r)
       (leased_row n gen fresh_lease worker now expires) db = Inr (1, db1)"
    and ins: "insert_attempt JobDatabase (running_attempt fresh_attempt j n gen fresh_lease worker now) db1 = Inr ((), db2)"
    and sel2: "select_job j db2 = Inr (leased, db')"
    and x: "x = \<lparr>acquired_job = leased, acquired_attempt = running_attempt fresh_attempt j n gen fresh_lease worker now\<rparr>"
    unfolding db0 gen_def [symmetric] n_def [symmetric]
    by (auto simp: tx_simps Let_def ok_or_eq_Inr split: if_splits)
  have "db2 = db'" using sel2 by (simp add: select_job_Inr)
  moreover have "jobs db2 = jobs db1" using ins by (auto simp: insert_attempt_def split: if_splits)
  moreover have "db1 = db\<lparr>jobs := jobs db1\<rparr>" using up by (auto simp: update_jobs_def split: if_splits)
  moreover have "storage_class r \<noteq> ArtifactHeavy \<longleftrightarrow> storage_class r = StorageLight"
    by (cases "storage_class r") auto
  ultimately show ?thesis using that [of r n gen expires] sel db0 pre up ins sel2 x gen_def n_def by auto
qed

lemma lease_increments:
  assumes "select_job j db = Inr (r, db)" and "current_attempt r < max_attempts r"
    and "saturating_inc 64 (lease_generation r) < 2 ^ 63"
  shows "saturating_inc 32 (current_attempt r) = current_attempt r + 1"
    and "saturating_inc 64 (lease_generation r) = lease_generation r + 1"
proof -
  have "job_from_row r = Inr r" using assms(1) by (simp add: select_job_Inr)
  then have "max_attempts r < 2 ^ 32" "current_attempt r \<ge> 0" "lease_generation r \<ge> 0"
    by (auto simp: job_from_row_def result_simps positive_u32_def positive_u32_or_zero_def
        nonnegative_u64_def split: if_splits)
  then show "saturating_inc 32 (current_attempt r) = current_attempt r + 1"
    "saturating_inc 64 (lease_generation r) = lease_generation r + 1"
    using assms(2,3) by (auto simp: saturating_inc_def)
qed

lemma lease_refines:
  "tx_refines queue_ok qstep\<^sup>*\<^sup>* (lease_queued_job fresh_lease fresh_attempt j worker now duration allow)"
proof (rule tx_refinesI)
  fix db x db'
  assume ok: "queue_ok db"
    and "lease_queued_job fresh_lease fresh_attempt j worker now duration allow db = Inr (x, db')"
  from this(2) obtain r expires n gen where r: "select_job j db = Inr (r, db)" "state r = JobQueued"
      "scheduled_at r \<le> now" "current_attempt r < max_attempts r"
    and inc: "n = saturating_inc 32 (current_attempt r)" "gen = saturating_inc 64 (lease_generation r)" "gen < 2 ^ 63"
    and up: "update_jobs JobDatabase True
       (\<lambda>q. job_id q = j \<and> state q = JobQueued \<and> scheduled_at q \<le> now \<and> current_attempt q = current_attempt r)
       (leased_row n gen fresh_lease worker now expires) db = Inr (1, db\<lparr>jobs := jobs db'\<rparr>)"
    and ins: "insert_attempt JobDatabase (running_attempt fresh_attempt j n gen fresh_lease worker now)
       (db\<lparr>jobs := jobs db'\<rparr>) = Inr ((), db')"
    by (rule lease_effect)
  let ?f = "leased_row n gen fresh_lease worker now expires"
  let ?P = "\<lambda>q. job_id q = j \<and> state q = JobQueued \<and> scheduled_at q \<le> now \<and> current_attempt q = current_attempt r"
  have inc1: "n = current_attempt r + 1" "gen = lease_generation r + 1"
    using lease_increments [OF r(1,4)] inc by auto
  note mem = select_job_member [OF r(1)]
  have chk: "jobs_check (?f r)" and "db\<lparr>jobs := jobs db'\<rparr> = db\<lparr>jobs := map (\<lambda>q. if ?P q then ?f q else q) (jobs db)\<rparr>"
    using up mem r by (auto simp: update_jobs_def list_all_iff split: if_splits)
  from arg_cong [OF this(2), of jobs] have "jobs db' = map (\<lambda>q. if ?P q then ?f q else q) (jobs db)" by simp
  moreover have "?P q \<longleftrightarrow> job_id q = job_id r" if "q \<in> set (jobs db)" for q
    using mem r(2,3) job_unique [OF ok _ that, of r] by auto
  ultimately have js: "jobs db' = on_job (job_id r) ?f db" unfolding on_job_def by simp
  have at: "fresh_attempt \<notin> attempt_id ` set (job_attempts db)" "fresh_lease \<notin> attempt_lease_id ` set (job_attempts db)"
    "job_attempts db' = job_attempts db @ [running_attempt fresh_attempt j n gen fresh_lease worker now]"
    using insert_attempt_effect [OF ins] by (auto simp: running_attempt_def)
  have "qstep db db'"
    by (rule q_lease [OF _ r(2) chk _ _ _ _ _ _ _ _ _ _ _ _ _ js at(3)])
      (use mem at(1,2) inc1 in \<open>auto simp: leased_row_def running_attempt_def same_identity_def\<close>)
  then show "qstep\<^sup>*\<^sup>* db db'" by blast
qed

lemma insert_job_refines:
  assumes "current_attempt r = 0" and "lease_generation r = 0"
  shows "tx_refines queue_ok qstep\<^sup>*\<^sup>* (insert_job e r)"
  using assms by (auto intro!: tx_refinesI r_into_rtranclp q_insert [of r] simp: insert_job_def split: if_splits)

lemma delete_refines:
  assumes "\<And>q. P q \<Longrightarrow> job_id q = j \<and> state q = JobQueued \<and> current_attempt q = 0"
  shows "tx_refines queue_ok qstep\<^sup>*\<^sup>* (delete_jobs e P)"
proof (rule tx_refinesI)
  fix db n db' assume ok: "queue_ok db" and "delete_jobs e P db = Inr (n, db')"
  then have db': "db' = db\<lparr>jobs := filter (\<lambda>r. \<not> P r) (jobs db)\<rparr>"
    by (auto simp: delete_jobs_def Let_def split: if_splits)
  have "qstep db db'"
  proof (cases "\<exists>r \<in> set (jobs db). P r")
    case False
    then show ?thesis by (intro q_other) (auto simp: db' filter_id_conv)
  next
    case True
    then obtain r where r: "r \<in> set (jobs db)" "P r" by blast
    have "\<not> P q \<longleftrightarrow> job_id q \<noteq> job_id r" if "q \<in> set (jobs db)" for q
      using assms [of q] assms [of r] r job_unique [OF ok r(1) that] by auto
    then have "filter (\<lambda>r. \<not> P r) (jobs db) = filter (\<lambda>q. job_id q \<noteq> job_id r) (jobs db)"
      by (intro filter_cong) auto
    then show ?thesis using assms [of r] r by (intro q_remove [of r]) (auto simp: db')
  qed
  then show "qstep\<^sup>*\<^sup>* db db'" by blast
qed

named_theorems lifecycle \<open>transaction bodies that refine the lifecycle\<close>

lemmas [lifecycle] = closing life.rules aside_refines lease_refines insert_job_refines

lemma run_helpers_refine [lifecycle]:
  "tx_refines queue_ok qstep\<^sup>*\<^sup>* (select_owned_running_job j lease now)"
  "tx_refines queue_ok qstep\<^sup>*\<^sup>* (transition_execution_status_in_transaction run st)"
  "tx_refines queue_ok qstep\<^sup>*\<^sup>* (cancel_related_run ro)"
  "tx_refines queue_ok qstep\<^sup>*\<^sup>* (insert_run_in_transaction env run st snap)"
  "tx_refines queue_ok qstep\<^sup>*\<^sup>* (ensure_production_run r)"
  "tx_refines queue_ok qstep\<^sup>*\<^sup>* (stale_disposition env r)"
  "tx_refines queue_ok qstep\<^sup>*\<^sup>* (has_checkpoint_for_current_attempt j lease)"
  unfolding select_owned_running_job_def transition_execution_status_in_transaction_def cancel_related_run_def
    insert_run_in_transaction_def has_checkpoint_for_current_attempt_def
  by (intro lifecycle)+ (auto intro!: life.readonly simp: ensure_production_run_def stale_disposition_def tx_simps
      split: if_splits option.splits)

lemma reconcile_refines [lifecycle]:
  "tx_refines queue_ok qstep\<^sup>*\<^sup>* (finalize_crawl_failure_in_transaction env i r now)"
  "tx_refines queue_ok qstep\<^sup>*\<^sup>* (reconcile_terminal_job_in_transaction j st now)"
  "tx_refines queue_ok qstep\<^sup>*\<^sup>* (finish_after_terminal_crawl_run j run now)"
  "tx_refines queue_ok qstep\<^sup>*\<^sup>* (append_terminal_progress_if_missing_in_transaction i j t now)"
  "tx_refines queue_ok qstep\<^sup>*\<^sup>* (recover_one env ids now j rec)"
  unfolding finalize_crawl_failure_in_transaction_def reconcile_terminal_job_in_transaction_def
    finish_after_terminal_crawl_run_def append_terminal_progress_if_missing_in_transaction_def recover_one_def expire_job_def
    finish_job_after_terminal_run_def Let_def
  by (intro lifecycle)+

lemma loops_refine [lifecycle]:
  "tx_refines queue_ok qstep\<^sup>*\<^sup>* (recover_each env ids now js rec)"
  "tx_refines queue_ok qstep\<^sup>*\<^sup>* (reconcile_each now pairs)"
proof -
  show "tx_refines queue_ok qstep\<^sup>*\<^sup>* (recover_each env ids now js rec)"
    by (induction js arbitrary: rec) (auto intro: lifecycle)
  show "tx_refines queue_ok qstep\<^sup>*\<^sup>* (reconcile_each now pairs)"
    by (induction now pairs rule: reconcile_each.induct) (auto intro!: lifecycle)
qed

section \<open>Operations as one interface\<close>

datatype 'u queue_op =
    Enqueue NewJob int
  | CreateQuickScrapeRun string "'u CrawlRunSnapshot" NewJob int
  | CreateProductionRun string "'u CrawlRunSnapshot" NewJob int
  | Acquire "JobId \<Rightarrow> string" string string string int int bool
  | Heartbeat JobId JobLease int int
  | Succeed JobId JobLease int
  | Fail JobId JobLease int JobFailureCode int
  | FailTerminal JobId JobLease int JobFailureCode
  | FailTerminalProduction string JobId JobLease int JobFailureCode
  | Cancel JobId JobLease int
  | CancelQueued JobId int
  | Reprioritize JobId int int int
  | RemoveIfSafe JobId
  | EnqueueActionChild JobId string JobId string int "'u ActionRunAssociation" "int option"
  | AppendCheckpoint string JobId string JobLease CheckpointEnvelope int
  | RequeueAfterStoragePressure string JobId JobLease int
  | RecoverStaleJobs "JobId \<Rightarrow> string" int
  | ReconcileTerminalCrawlRuns "JobId \<Rightarrow> string" int
  | ReconcileTerminalCrawlRun JobId JobLease string int
  | AppendTerminalProgress string JobId ProgressTerminalState int
  | AppendProgress string NewProgressEvent int
  | TransitionRun string CrawlRunStatus

fun perform_op :: "'u job_env \<Rightarrow> 'u queue_op \<Rightarrow> queue_db \<Rightarrow> queue_db" where
  "perform_op env (Enqueue n now) db = snd (enqueue n now db)"
| "perform_op env (CreateQuickScrapeRun run snap n now) db = snd (create_quick_scrape_run_with_root_job env run snap n now db)"
| "perform_op env (CreateProductionRun run snap n now) db = snd (create_production_run_with_root_job env run snap n now db)"
| "perform_op env (Acquire ids l a w now dur allow) db = snd (acquire_next_with_storage_admission env ids l a w now dur allow db)"
| "perform_op env (Heartbeat j lease now dur) db = snd (heartbeat j lease now dur db)"
| "perform_op env (Succeed j lease now) db = snd (succeed j lease now db)"
| "perform_op env (Fail j lease now failure at) db = snd (fail j lease now failure at db)"
| "perform_op env (FailTerminal j lease now failure) db = snd (fail_terminal j lease now failure db)"
| "perform_op env (FailTerminalProduction i j lease now failure) db = snd (fail_terminal_production env i j lease now failure db)"
| "perform_op env (Cancel j lease now) db = snd (cancel j lease now db)"
| "perform_op env (CancelQueued j now) db = snd (cancel_queued j now db)"
| "perform_op env (Reprioritize j prio at now) db = snd (reprioritize j prio at now db)"
| "perform_op env (RemoveIfSafe j) db = snd (remove_if_safe j db)"
| "perform_op env (EnqueueActionChild i run src k now assoc bound) db = snd (enqueue_action_child env i run src k now assoc bound db)"
| "perform_op env (AppendCheckpoint i j a lease e now) db = snd (append_checkpoint env i j a lease e now db)"
| "perform_op env (RequeueAfterStoragePressure i j lease now) db = snd (requeue_after_storage_pressure env i j lease now db)"
| "perform_op env (RecoverStaleJobs ids now) db = snd (recover_stale_jobs env ids now db)"
| "perform_op env (ReconcileTerminalCrawlRuns ids now) db = snd (reconcile_terminal_crawl_runs ids now db)"
| "perform_op env (ReconcileTerminalCrawlRun j lease run now) db = snd (reconcile_terminal_crawl_run j lease run now db)"
| "perform_op env (AppendTerminalProgress i j t now) db = snd (append_terminal_progress_if_missing i j t now db)"
| "perform_op env (AppendProgress i e now) db = snd (append_at i e now db)"
| "perform_op env (TransitionRun run st) db = snd (transaction (transition_execution_status_in_transaction run st) db)"

definition run_ops :: "'u job_env \<Rightarrow> 'u queue_op list \<Rightarrow> queue_db \<Rightarrow> queue_db" where
  "run_ops env ops db = fold (perform_op env) ops db"

lemma committed_via:
  assumes "f = transaction m" and "tx_refines queue_ok qstep\<^sup>*\<^sup>* m" and "queue_ok db"
  shows "qstep\<^sup>*\<^sup>* db (snd (f db))"
  unfolding assms(1) by (rule life.committed [OF assms(2,3)])

lemmas op_defs = enqueue_def create_quick_scrape_run_with_root_job_def create_production_run_with_root_job_def
  acquire_next_with_storage_admission_def succeed_def finish_def fail_def fail_with_disposition_def
  fail_terminal_production_def cancel_def cancel_queued_def remove_if_safe_def enqueue_action_child_def
  append_checkpoint_def reconcile_terminal_crawl_run_def append_terminal_progress_if_missing_def append_at_def

lemma tx_bodies_refine [lifecycle]:
  "tx_refines queue_ok qstep\<^sup>*\<^sup>* (create_run_with_root_job env run snap n now)"
  "tx_refines queue_ok qstep\<^sup>*\<^sup>* (recover_expired_in_transaction env ids now)"
  "tx_refines queue_ok qstep\<^sup>*\<^sup>* (validate_action_child_lineage source j k)"
  "tx_refines queue_ok qstep\<^sup>*\<^sup>* (action_child_crawl_run_id env run source assoc)"
  "tx_refines queue_ok qstep\<^sup>*\<^sup>* (requeue_in_transaction env i j lease now)"
  unfolding create_run_with_root_job_def recover_expired_in_transaction_def validate_action_child_lineage_def
    action_child_crawl_run_id_def requeue_in_transaction_def Let_def
  by (cases assoc; (simp only: ActionRunAssociation.case)?; intro lifecycle; simp add: queued_row_def)+

end
