(* ===== verification/Job_Refinement.thy ===== *)
theory Job_Refinement
  imports Job_Invariants
begin

text \<open>
  Every operation of the queue, called in any state that satisfies the invariant and whether it
  succeeds or fails, is a sequence of lifecycle steps; so the invariant holds in every database
  that operations can produce.  From the lifecycle alone follow the ownership rules: a lease that
  ended never regains authority, generations only grow, closed attempts never change and a job
  is executed at most as often as its attempt budget allows.
\<close>

section \<open>Every operation refines the lifecycle\<close>

lemma creation_refines:
  assumes "queue_ok db"
  shows "qstep\<^sup>*\<^sup>* db (snd (enqueue n now db))"
    and "qstep\<^sup>*\<^sup>* db (snd (create_quick_scrape_run_with_root_job env run snap n now db))"
    and "qstep\<^sup>*\<^sup>* db (snd (create_production_run_with_root_job env run snap n now db))"
    and "qstep\<^sup>*\<^sup>* db (snd (enqueue_action_child env i run src k now assoc bound db))"
  unfolding enqueue_def create_quick_scrape_run_with_root_job_def create_production_run_with_root_job_def
    enqueue_action_child_def
  by (rule life.committed [OF _ assms], intro lifecycle; simp add: queued_row_def)+

lemma worker_ops_refine:
  assumes "queue_ok db"
  shows "qstep\<^sup>*\<^sup>* db (snd (acquire_next_with_storage_admission env ids l a w now dur allow db))"
    and "qstep\<^sup>*\<^sup>* db (snd (finish j lease now out fo db))"
    and "qstep\<^sup>*\<^sup>* db (snd (fail_with_disposition j lease now failure at b db))"
    and "qstep\<^sup>*\<^sup>* db (snd (fail_terminal_production env i j lease now failure db))"
    and "qstep\<^sup>*\<^sup>* db (snd (cancel j lease now db))"
    and "qstep\<^sup>*\<^sup>* db (snd (append_checkpoint env i j ai lease e now db))"
    and "qstep\<^sup>*\<^sup>* db (snd (reconcile_terminal_crawl_run j lease run now db))"
    and "qstep\<^sup>*\<^sup>* db (snd (append_terminal_progress_if_missing i j t now db))"
    and "qstep\<^sup>*\<^sup>* db (snd (append_at i ev now db))"
    and "qstep\<^sup>*\<^sup>* db (snd (transaction (transition_execution_status_in_transaction run st) db))"
    and "qstep\<^sup>*\<^sup>* db (snd (transaction (tx_bind (tx_read terminal_run_jobs) (reconcile_each now)) db))"
    and "qstep\<^sup>*\<^sup>* db (snd (transaction (tx_bind ensure_queue_invariants (\<lambda>_. recover_expired_in_transaction env ids now)) db))"
    and "qstep\<^sup>*\<^sup>* db (snd (transaction (requeue_in_transaction env i j lease now) db))"
  unfolding acquire_next_with_storage_admission_def finish_def fail_with_disposition_def fail_terminal_production_def
    cancel_def finish_job_after_terminal_run_def append_checkpoint_def reconcile_terminal_crawl_run_def
    append_terminal_progress_if_missing_def append_at_def Let_def
  by (rule life.committed [OF _ assms], intro lifecycle life.readonly; simp add: tx_simps)+

lemma heartbeat_refines:
  assumes "queue_ok db" shows "qstep\<^sup>*\<^sup>* db (snd (heartbeat j lease now dur db))"
proof -
  have "tx_refines queue_ok qstep\<^sup>*\<^sup>* (update_jobs JobDatabase False
       (\<lambda>r. holds_lease j lease r \<and> (case lease_columns r of None \<Rightarrow> False | Some c \<Rightarrow>
          col_expires_at c = lease_expires_at lease \<and> col_heartbeat_at c = heartbeat_at lease
          \<and> col_expires_at c > now))
       (\<lambda>r. r\<lparr>lease_columns := map_option (\<lambda>c. c\<lparr>col_heartbeat_at := now, col_expires_at := expires\<rparr>)
            (lease_columns r), job_updated_at := now\<rparr>))" for expires
    by (rule update_one_refines [of _ _ j])
      (auto simp: same_identity_def holds_lease_def option.map_comp comp_def)
  moreover have "tx_refines queue_ok qstep\<^sup>*\<^sup>* (\<lambda>db. if b then Inl (ownership_error j db) else Inr (x, db))" for b x
    by (rule life.readonly) (simp split: if_splits)
  ultimately show ?thesis
    unfolding heartbeat_def by (intro life.committed [OF _ assms] lifecycle)
qed

lemma queue_management_refines:
  assumes "queue_ok db"
  shows "qstep\<^sup>*\<^sup>* db (snd (cancel_queued j now db))"
    and "qstep\<^sup>*\<^sup>* db (snd (reprioritize j prio at now db))"
    and "qstep\<^sup>*\<^sup>* db (snd (remove_if_safe j db))"
proof -
  have up: "tx_refines queue_ok qstep\<^sup>*\<^sup>* (update_jobs JobDatabase b (\<lambda>q. job_id q = j \<and> state q = JobQueued) f)"
    if "\<And>q. same_identity q (f q) \<and> current_attempt (f q) = current_attempt q \<and> lease_generation (f q) = lease_generation q
      \<and> lease_columns (f q) = lease_columns q \<and> state (f q) \<in> {state q, JobCancelled}" for f b
    by (rule update_one_refines [of _ _ j]) (use that in \<open>(auto; metis)+\<close>)
  show "qstep\<^sup>*\<^sup>* db (snd (cancel_queued j now db))"
    unfolding cancel_queued_def by (intro life.committed [OF _ assms] lifecycle up) (simp add: same_identity_def)
  have "qstep\<^sup>*\<^sup>* db (snd (transaction (update_jobs JobDatabase False (\<lambda>q. job_id q = j \<and> state q = JobQueued)
         (\<lambda>q. q\<lparr>priority := prio, scheduled_at := at, job_updated_at := now\<rparr>)) db))"
    by (intro life.committed [OF _ assms] up) (simp add: same_identity_def)
  then show "qstep\<^sup>*\<^sup>* db (snd (reprioritize j prio at now db))"
    by (auto simp: reprioritize_def split: prod.splits sum.splits)
  show "qstep\<^sup>*\<^sup>* db (snd (remove_if_safe j db))"
    unfolding remove_if_safe_def by (intro life.committed [OF _ assms] lifecycle delete_refines [of _ j]) auto
qed

text \<open>Operations that commit one transaction and then, on success, another.\<close>

lemma second_commit:
  assumes ok: "queue_ok db" and first: "qstep\<^sup>*\<^sup>* db (snd p)"
    and second: "\<And>x db1. p = (Inr x, db1) \<Longrightarrow> queue_ok db1 \<Longrightarrow> qstep\<^sup>*\<^sup>* db1 (snd (f x db1))"
  shows "qstep\<^sup>*\<^sup>* db (snd (case p of (Inl e, db1) \<Rightarrow> (Inl (h e), db1) | (Inr x, db1) \<Rightarrow> f x db1))"
proof (cases p)
  case (Pair r db1)
  show ?thesis
  proof (cases r)
    case (Inl e)
    with first Pair show ?thesis by simp
  next
    case (Inr x)
    have step: "qstep\<^sup>*\<^sup>* db db1" using first Pair by simp
    have "qstep\<^sup>*\<^sup>* db1 (snd (f x db1))" using second Inr Pair qsteps_queue_ok [OF step ok] by simp
    with step have "qstep\<^sup>*\<^sup>* db (snd (f x db1))" by (rule rtranclp_trans)
    with Inr Pair show ?thesis by simp
  qed
qed

lemma repair_each_refines: "queue_ok db \<Longrightarrow> qstep\<^sup>*\<^sup>* db (snd (repair_each ids now pairs db))"
  by (induction ids now pairs db rule: repair_each.induct)
    (simp, simp only: repair_each.simps, rule second_commit, auto intro: worker_ops_refine)

lemma reconcile_runs_refines: "queue_ok db \<Longrightarrow> qstep\<^sup>*\<^sup>* db (snd (reconcile_terminal_crawl_runs ids now db))"
  unfolding reconcile_terminal_crawl_runs_def
  by (rule second_commit) (auto intro: worker_ops_refine repair_each_refines)

lemma recover_stale_refines:
  assumes "queue_ok db" shows "qstep\<^sup>*\<^sup>* db (snd (recover_stale_jobs env ids now db))"
  unfolding recover_stale_jobs_def
proof (rule second_commit [OF assms])
  show "qstep\<^sup>*\<^sup>* db (snd (transaction (tx_bind ensure_queue_invariants
      (\<lambda>_. recover_expired_in_transaction env ids now)) db))"
    using assms by (rule worker_ops_refine)
next
  fix rec db1 assume ok: "queue_ok db1"
  show "qstep\<^sup>*\<^sup>* db1 (snd (case reconcile_terminal_crawl_runs ids now db1 of
             (Inl e, db'') \<Rightarrow> (Inl e, db'') | (Inr _, db'') \<Rightarrow> (Inr rec, db'')))"
    by (rule second_commit [OF ok reconcile_runs_refines [OF ok]]) simp
qed

lemma requeue_refines:
  assumes ok: "queue_ok db" shows "qstep\<^sup>*\<^sup>* db (snd (requeue_after_storage_pressure env i j lease now db))"
proof -
  obtain r db1 where t: "transaction (requeue_in_transaction env i j lease now) db = (r, db1)" by fastforce
  have s: "qstep\<^sup>*\<^sup>* db db1" using worker_ops_refine(13) [OF ok, of env i j lease now] t by simp
  have "qstep\<^sup>*\<^sup>* db (snd (append_terminal_progress_if_missing i j t now db1))" for t
    using s worker_ops_refine(8) [OF qsteps_queue_ok [OF s ok]] by (rule rtranclp_trans)
  with s t show ?thesis
    by (cases r) (auto simp: requeue_after_storage_pressure_def split: option.splits prod.splits sum.splits, (metis snd_conv)+)
qed

lemma fail_terminal_refines: "queue_ok db \<Longrightarrow> qstep\<^sup>*\<^sup>* db (snd (fail_terminal j lease now failure db))"
  unfolding fail_terminal_def by (rule second_commit) (auto intro: worker_ops_refine)

lemma perform_op_refines: "queue_ok db \<Longrightarrow> qstep\<^sup>*\<^sup>* db (perform_op env op db)"
  by (cases op)
    (auto simp: succeed_def fail_def intro: creation_refines worker_ops_refine heartbeat_refines
      queue_management_refines reconcile_runs_refines recover_stale_refines requeue_refines fail_terminal_refines)

lemma run_ops_refines: "queue_ok db \<Longrightarrow> qstep\<^sup>*\<^sup>* db (run_ops env ops db)"
proof (induction ops arbitrary: db)
  case (Cons op ops)
  note s = perform_op_refines [OF Cons.prems, of env op]
  then show ?case
    using Cons.IH [OF qsteps_queue_ok [OF s Cons.prems]] by (simp add: run_ops_def)
qed (simp add: run_ops_def)

lemma run_ops_append: "run_ops env (xs @ ys) db = run_ops env ys (run_ops env xs db)"
  by (simp add: run_ops_def)

lemma queue_ok_empty: "queue_ok empty_db"
  by (simp add: queue_ok_def empty_db_def)

lemma run_ops_queue_ok: "queue_ok (run_ops env ops empty_db)"
  using run_ops_refines [OF queue_ok_empty] qsteps_queue_ok queue_ok_empty by blast

section \<open>What the lifecycle guarantees\<close>

lemma history_ok_nth:
  assumes "history_ok r hist" and "a \<in> set hist"
  shows "1 \<le> attempt_number a" and "attempt_number a \<le> current_attempt r"
    and "attempt_lease_generation a = attempt_number a"
proof -
  have "attempt_number a \<in> set (numbers (length hist))"
  proof -
    have "attempt_number a \<in> set (map attempt_number hist)" using assms(2) by simp
    moreover have "map attempt_number hist = numbers (length hist)" using assms(1) by (simp add: history_ok_def)
    ultimately show ?thesis by (simp only:)
  qed
  then show "1 \<le> attempt_number a" "attempt_number a \<le> current_attempt r"
    using assms(1) by (auto simp: set_numbers history_ok_def)
  have "map attempt_lease_generation hist = map attempt_number hist" using assms(1) by (simp add: history_ok_def)
  then show "attempt_lease_generation a = attempt_number a" using assms(2) by (auto simp: map_eq_conv)
qed

lemma history_max: "history_ok r (attempts_of (job_id r) db) \<Longrightarrow> max_attempt_number (job_id r) db = current_attempt r"
proof -
  assume h: "history_ok r (attempts_of (job_id r) db)"
  have "iter_max (numbers n) = (if n = 0 then None else Some (int n))" for n
    by (cases n) (auto simp: iter_max_Some set_numbers)
  then show ?thesis
    using h by (simp add: max_attempt_number_def attempts_of_def [symmetric] history_ok_def)
qed

lemma queue_ok_row:
  assumes ok: "queue_ok db" and r: "r \<in> set (jobs db)"
  shows "\<not> running_without_lease r" and "\<not> running_without_attempt db r"
    and "\<not> attempt_without_running_job db r" and "current_attempt r = max_attempt_number (job_id r) db"
proof -
  let ?h = "attempts_of (job_id r) db"
  have c: "jobs_check r" and h: "history_ok r ?h" using queue_okD [OF ok r] by auto
  show "current_attempt r = max_attempt_number (job_id r) db" using history_max [OF h] by simp
  show "\<not> running_without_lease r"
    using c h by (auto simp: running_without_lease_def jobs_check_lease history_ok_def split: option.splits)
  show "\<not> running_without_attempt db r"
  proof
    assume w: "running_without_attempt db r"
    then obtain c' where c': "lease_columns r = Some c'"
      using jobs_check_lease [OF c] by (auto simp: running_without_attempt_def)
    let ?m = "filter (\<lambda>a. attempt_job_id a = job_id r \<and> attempt_number a = current_attempt r
            \<and> outcome a = AttemptRunning) (job_attempts db)"
    note l = history_ok_last [OF h c']
    have "?h \<noteq> []" using h c' by (simp add: history_ok_def)
    then have "last ?h \<in> set ?h" by simp
    moreover have "attempt_number (last ?h) = current_attempt r"
    proof -
      have "last (map attempt_number ?h) = last (numbers (length ?h))" using h by (simp add: history_ok_def)
      then show ?thesis using h \<open>?h \<noteq> []\<close> by (cases "length ?h") (auto simp: last_map history_ok_def)
    qed
    ultimately have mem: "last ?h \<in> set ?m" using l(2) by (simp add: attempts_of_def)
    have "a = last ?h" if "a \<in> set ?m" for a
      using that l(3) set_butlast_last [OF \<open>?h \<noteq> []\<close>] by (auto simp: attempts_of_def list_all_iff)
    then have "\<not> list_ex (\<lambda>a. attempt_lease_id a \<noteq> col_lease_id c' \<or> attempt_lease_generation a \<noteq> lease_generation r
                \<or> worker_id a \<noteq> col_lease_owner c') ?m"
      using h c' history_ok_nth(3) [OF h \<open>last ?h \<in> set ?h\<close>] \<open>attempt_number (last ?h) = current_attempt r\<close>
      by (auto simp: list_ex_iff history_ok_def)
    moreover have "?m \<noteq> []" using mem by (metis empty_iff empty_set)
    ultimately show False using w c' by (simp add: running_without_attempt_def Let_def)
  qed
  show "\<not> attempt_without_running_job db r"
  proof
    assume "attempt_without_running_job db r"
    then obtain a where a: "a \<in> set ?h" "outcome a = AttemptRunning" and n: "lease_columns r = None"
      using jobs_check_lease [OF c] by (auto simp: attempt_without_running_job_def list_ex_iff attempts_of_def)
    then have "?h \<noteq> []" by auto
    with a n h set_butlast_last [OF this] show False by (auto simp: history_ok_def list_all_iff)
  qed
qed

lemma queue_ok_checks: "queue_ok db \<Longrightarrow> ensure_queue_invariants db = Inr ((), db)"
proof -
  assume ok: "queue_ok db"
  have "\<not> attempt_out_of_range db a" if a: "a \<in> set (job_attempts db)" for a
  proof -
    obtain r where r: "r \<in> set (jobs db)" "job_id r = attempt_job_id a"
      using queue_ok_fk [OF ok] a by (metis image_iff image_subset_iff)
    have "attempt_number a \<le> max_attempts r"
    proof -
      have "a \<in> set (attempts_of (job_id r) db)" using a r(2) by (simp add: attempts_of_def)
      then have "attempt_number a \<le> current_attempt r" by (rule history_ok_nth(2) [OF queue_okD(2) [OF ok r(1)]])
      also have "\<dots> \<le> max_attempts r" using queue_okD(1) [OF ok r(1)] by (simp add: jobs_check_def)
      finally show ?thesis .
    qed
    moreover have "set (filter (\<lambda>q. job_id q = attempt_job_id a) (jobs db)) = {r}"
    proof (rule set_eqI)
      fix q show "q \<in> set (filter (\<lambda>q. job_id q = attempt_job_id a) (jobs db)) \<longleftrightarrow> q \<in> {r}"
        using r job_unique [OF ok r(1), of q] by auto
    qed
    moreover from this have "filter (\<lambda>q. job_id q = attempt_job_id a) (jobs db) \<noteq> []" by (metis empty_set insert_not_empty)
    ultimately show ?thesis unfolding attempt_out_of_range_def Let_def list_ex_iff by simp
  qed
  with queue_ok_row [OF ok] show ?thesis
    by (auto simp: ensure_queue_invariants_def tx_guard_def tx_return_def list_ex_iff)
qed

end
