(* ===== verification/Job_Properties.thy ===== *)
theory Job_Properties
  imports Job_Refinement
begin

text \<open>
  The promises of the durable queue, stated over databases that any sequence of queue operations
  produces from an empty one.
\<close>

section \<open>Invariant and refinement\<close>

text \<open>
  C1. Whatever operations ran, with whatever arguments and failures, the five consistency queries
  the queue runs before it hands out work find nothing.
\<close>
theorem queue_invariants_always_hold:
  "check_invariants (run_ops env ops empty_db) = Inr ()"
  using queue_ok_checks [OF run_ops_queue_ok [of env ops]] by (simp add: check_invariants_def transaction_def)

text \<open>
  C2. Every repository operation refines the abstract job lifecycle: the database it leaves is
  reached by lifecycle steps from the one it found.
\<close>
theorem queue_operations_refine_lifecycle:
  "qstep\<^sup>*\<^sup>* (run_ops env ops empty_db) (perform_op env op (run_ops env ops empty_db))"
  by (rule perform_op_refines [OF run_ops_queue_ok])

lemma queue_ok_budget:
  assumes "queue_ok db" and "r \<in> set (jobs db)"
  shows "map attempt_number (attempts_of (job_id r) db) = map int [1..<Suc (length (attempts_of (job_id r) db))]
     \<and> map attempt_lease_generation (attempts_of (job_id r) db) = map attempt_number (attempts_of (job_id r) db)
     \<and> int (length (attempts_of (job_id r) db)) = current_attempt r \<and> current_attempt r \<le> max_attempts r"
  unfolding numbers_def [symmetric] using queue_okD [OF assms] unfolding history_ok_def jobs_check_def by auto

text \<open>
  C7. A job is executed at most \<open>max_attempts\<close> times: its attempts are numbered 1, 2, 3, ... up to
  its current attempt, which never exceeds its budget, and each carries the lease generation of
  its number, so no two attempts of a job ever share a generation.
\<close>
theorem attempts_within_budget:
  "list_all (\<lambda>r. let hist = attempts_of (job_id r) (run_ops env ops empty_db) in
       map attempt_number hist = map int [1..<Suc (length hist)]
     \<and> map attempt_lease_generation hist = map attempt_number hist
     \<and> int (length hist) = current_attempt r \<and> current_attempt r \<le> max_attempts r)
   (jobs (run_ops env ops empty_db))"
  unfolding list_all_iff Let_def using queue_ok_budget [OF run_ops_queue_ok [of env ops]] by blast

section \<open>Permanence\<close>

lemma qstep_closed_attempts:
  "\<lbrakk>qstep db db'; a \<in> set (job_attempts db); outcome a \<noteq> AttemptRunning\<rbrakk> \<Longrightarrow> a \<in> set (job_attempts db')"
  by (cases rule: qstep.cases) (auto simp: close_attempts_def image_iff)

lemma qsteps_closed_attempts:
  "\<lbrakk>qstep\<^sup>*\<^sup>* db db'; a \<in> set (job_attempts db); outcome a \<noteq> AttemptRunning\<rbrakk> \<Longrightarrow> a \<in> set (job_attempts db')"
  by (induction rule: rtranclp_induct) (auto intro: qstep_closed_attempts)

text \<open>
  Attempt history is immutable: every attempt that has finished is still there, unchanged,
  after any further operations.
\<close>
theorem attempt_history_immutable:
  "set (filter (\<lambda>a. outcome a \<noteq> AttemptRunning) (job_attempts (run_ops env ops empty_db)))
     \<subseteq> set (job_attempts (run_ops env later (run_ops env ops empty_db)))"
  using qsteps_closed_attempts [OF run_ops_refines [OF run_ops_queue_ok]] by auto

text \<open>A lease generation of a job that has been superseded or released.\<close>

definition lease_dead :: "JobId \<Rightarrow> int \<Rightarrow> queue_db \<Rightarrow> bool" where
  "lease_dead j g db \<longleftrightarrow> 1 \<le> g \<and> list_ex (\<lambda>r. job_id r = j \<and>
     (g < lease_generation r \<or> g = lease_generation r \<and> state r \<noteq> JobRunning)) (jobs db)"

definition superseded :: "int \<Rightarrow> JobRow \<Rightarrow> bool" where
  "superseded g r \<longleftrightarrow> g < lease_generation r \<or> g = lease_generation r \<and> state r \<noteq> JobRunning"

lemma superseded_on_job:
  assumes ok: "queue_ok db" and r: "r \<in> set (jobs db)" "superseded g r"
    and q: "q \<in> set (jobs db)" "jobs db' = on_job (job_id q) f db" "same_identity q (f q)"
    and keeps: "superseded g q \<Longrightarrow> superseded g (f q)"
  shows "\<exists>r' \<in> set (jobs db'). job_id r' = job_id r \<and> superseded g r'"
proof (cases "job_id r = job_id q")
  case True
  then have "q = r" using job_unique [OF ok r(1) q(1)] by simp
  moreover have "f r \<in> set (jobs db')" using r(1) True by (auto simp: q(2) on_job_def)
  ultimately show ?thesis using q(3) keeps r(2) by (auto simp: same_identity_def)
next
  case False
  then have "r \<in> set (jobs db')" using r(1) by (auto simp: q(2) on_job_def image_iff intro: bexI [of _ r])
  then show ?thesis using r(2) by auto
qed

lemma lease_dead_iff: "lease_dead j g db \<longleftrightarrow> 1 \<le> g \<and> (\<exists>r \<in> set (jobs db). job_id r = j \<and> superseded g r)"
  by (auto simp: lease_dead_def list_ex_iff superseded_def)

lemma qstep_lease_dead:
  assumes "qstep db db'" and ok: "queue_ok db" and "lease_dead j g db"
  shows "lease_dead j g db'"
proof -
  from assms(3) obtain r where r: "r \<in> set (jobs db)" "superseded g r" and j: "job_id r = j" and g: "1 \<le> g"
    unfolding lease_dead_iff by blast
  from assms(1) have "\<exists>r' \<in> set (jobs db'). job_id r' = job_id r \<and> superseded g r'"
  proof cases
    case (q_insert q)
    then show ?thesis using r by auto
  next
    case (q_lease q f c a)
    show ?thesis by (rule superseded_on_job [OF ok r q_lease(1,17,4)]) (use q_lease(7) in \<open>auto simp: superseded_def\<close>)
  next
    case (q_close q f out now failure)
    show ?thesis by (rule superseded_on_job [OF ok r q_close(1,9,4)]) (use q_close(2,7) in \<open>auto simp: superseded_def\<close>)
  next
    case (q_renew q f)
    show ?thesis by (rule superseded_on_job [OF ok r q_renew(1,8,3)]) (use q_renew(4,6) in \<open>auto simp: superseded_def\<close>)
  next
    case (q_cancel q f)
    show ?thesis by (rule superseded_on_job [OF ok r q_cancel(1,8,4)]) (use q_cancel(5,7) in \<open>auto simp: superseded_def\<close>)
  next
    case (q_remove q)
    have "current_attempt r = lease_generation r" using queue_okD(2) [OF ok r(1)] by (simp add: history_ok_def)
    then have "q \<noteq> r" using q_remove(3) g r(2) by (auto simp: superseded_def)
    then have "job_id r \<noteq> job_id q" using job_unique [OF ok r(1) q_remove(1)] by auto
    then show ?thesis using r by (auto simp: q_remove(4))
  next
    case q_other
    then show ?thesis using r by auto
  qed
  with g j show ?thesis unfolding lease_dead_iff by blast
qed

lemma qsteps_lease_dead:
  "\<lbrakk>qstep\<^sup>*\<^sup>* db db'; queue_ok db; lease_dead j g db\<rbrakk> \<Longrightarrow> lease_dead j g db'"
  by (induction rule: rtranclp_induct) (auto intro: qstep_lease_dead qsteps_queue_ok)

lemma dead_lease_not_owned:
  assumes ok: "queue_ok db" and dead: "lease_dead j (generation lease) db"
  obtains e where "select_owned_running_job j lease now db = Inl e"
proof (cases "select_owned_running_job j lease now db")
  case (Inr p)
  obtain q db' where p: "p = (q, db')" by (cases p)
  have q: "select_job j db = Inr (q, db)" "state q = JobRunning" "record_lease q = Some lease"
    using Inr p by (auto simp: select_owned_running_job_def tx_simps select_job_Inr split: if_splits)
  have "q \<in> set (jobs db)" "job_id q = j" using select_job_member [OF q(1)] by auto
  moreover obtain r where r: "r \<in> set (jobs db)" "job_id r = j"
    "generation lease < lease_generation r \<or> generation lease = lease_generation r \<and> state r \<noteq> JobRunning"
    using dead by (auto simp: lease_dead_def list_ex_iff)
  ultimately have "q = r" using job_unique [OF ok r(1)] by simp
  moreover have "generation lease = lease_generation q" using q(3) by (auto simp: record_lease_def)
  ultimately show ?thesis using r(3) q(2) by simp
qed (rule that)

text \<open>An operation that returns an error and changes nothing.\<close>

definition rejected :: "('e + 'a) \<times> queue_db \<Rightarrow> queue_db \<Rightarrow> bool" where
  "rejected p db \<longleftrightarrow> (case fst p of Inl _ \<Rightarrow> True | Inr _ \<Rightarrow> False) \<and> snd p = db"

lemma rejected_first:
  "m db = Inl e \<Longrightarrow> rejected (transaction (tx_bind m f) db) db"
  by (simp add: rejected_def transaction_def tx_bind_def)

lemma dead_lease_ops_rejected:
  assumes "queue_ok db" and "lease_dead j (generation lease) db"
  shows "rejected (finish j lease now out fo db) db"
    and "rejected (fail_with_disposition j lease now failure at b db) db"
    and "rejected (fail_terminal_production env i j lease now failure db) db"
    and "rejected (cancel j lease now db) db"
    and "rejected (requeue_after_storage_pressure env i j lease now db) db"
proof -
  obtain e where e: "select_owned_running_job j lease now db = Inl e" by (rule dead_lease_not_owned [OF assms])
  note r = rejected_first [where m = "select_owned_running_job j lease now" and db = db, OF e]
  show "rejected (finish j lease now out fo db) db" unfolding finish_def by (rule r)
  show "rejected (fail_with_disposition j lease now failure at b db) db" unfolding fail_with_disposition_def by (rule r)
  show "rejected (fail_terminal_production env i j lease now failure db) db"
    unfolding fail_terminal_production_def by (rule r)
  show "rejected (cancel j lease now db) db" unfolding cancel_def by (rule r)
  show "rejected (requeue_after_storage_pressure env i j lease now db) db"
    by (simp add: rejected_def requeue_after_storage_pressure_def requeue_in_transaction_def transaction_def tx_bind_def e)
qed

lemma dead_lease_not_held:
  assumes ok: "queue_ok db" and dead: "lease_dead j (generation lease) db" and r: "r \<in> set (jobs db)"
  shows "\<not> holds_lease j lease r"
proof
  assume h: "holds_lease j lease r"
  obtain q where q: "q \<in> set (jobs db)" "job_id q = j" "superseded (generation lease) q"
    using dead unfolding lease_dead_iff by blast
  have "r = q" using job_unique [OF ok q(1) r] q(2) h by (simp add: holds_lease_def)
  with q(3) h show False by (simp add: superseded_def holds_lease_def)
qed

lemma dead_lease_heartbeat_rejected:
  assumes "queue_ok db" and "lease_dead j (generation lease) db"
  shows "rejected (heartbeat j lease now dur db) db"
proof -
  have "filter (\<lambda>r. holds_lease j lease r \<and> P r) (jobs db) = []" for P
    using dead_lease_not_held [OF assms] by (simp add: filter_empty_conv)
  moreover have "heartbeat j lease now dur db = (Inr l, db') \<Longrightarrow> \<exists>P. length (filter (\<lambda>r. holds_lease j lease r \<and> P r) (jobs db)) = 1" for l db'
    by (auto simp: heartbeat_def transaction_def tx_simps update_jobs_def split: sum.splits if_splits)
  ultimately have "\<nexists>l db'. heartbeat j lease now dur db = (Inr l, db')" by force
  moreover have "heartbeat j lease now dur db = (Inl e, db') \<Longrightarrow> db' = db" for e db'
    by (auto simp: heartbeat_def transaction_def split: sum.splits)
  ultimately show ?thesis
    by (cases "heartbeat j lease now dur db"; cases "fst (heartbeat j lease now dur db)") (auto simp: rejected_def)
qed

lemma dead_lease_checkpoint_rejected:
  assumes ok: "queue_ok db" and dead: "lease_dead j (generation lease) db"
  shows "rejected (append_checkpoint env i j a lease e now db) db"
proof -
  obtain q where q: "q \<in> set (jobs db)" "job_id q = j" "superseded (generation lease) q" "1 \<le> generation lease"
    using dead unfolding lease_dead_iff by blast
  have u: "r = q" if "find (\<lambda>r. job_id r = j) (jobs db) = Some r" for r
    using that job_unique [OF ok q(1), of r] q(2) by (auto simp: find_Some_iff)
  have "0 \<le> lease_generation q" using queue_okD(1) [OF ok q(1)] by (simp add: jobs_check_def)
  then have "ensure_owned_attempt j a lease now db \<noteq> Inr ()"
    using q(3) u by (auto simp: ensure_owned_attempt_def superseded_def i64_of_u64_def split: option.splits if_splits)
  then have "append_checkpoint_in_transaction (env_codec env) i j a lease e now db \<noteq> Inr p" for p
    using append_checkpoint_effect [of "env_codec env" i j a lease e now db "fst p" "snd p"] by (cases p) auto
  then show ?thesis
    by (cases "append_checkpoint_in_transaction (env_codec env) i j a lease e now db")
      (auto simp: rejected_def append_checkpoint_def transaction_def tx_map_err_def)
qed

text \<open>
  C3. A superseded owner never regains authority. Once a lease generation of a job was released,
  expired or handed to another attempt, every later attempt to renew, complete, fail, cancel,
  requeue or checkpoint with that lease, after any further operations, is refused with an error
  and changes nothing.
\<close>
theorem superseded_lease_rejected_forever:
  assumes "lease_dead j (generation lease) (run_ops env ops empty_db)"
  shows "let db = run_ops env later (run_ops env ops empty_db) in
     rejected (heartbeat j lease now dur db) db
   \<and> rejected (succeed j lease now db) db
   \<and> rejected (fail j lease now failure at db) db
   \<and> rejected (fail_terminal j lease now failure db) db
   \<and> rejected (fail_terminal_production env i j lease now failure db) db
   \<and> rejected (cancel j lease now db) db
   \<and> rejected (requeue_after_storage_pressure env i j lease now db) db
   \<and> rejected (append_checkpoint env i j a lease e now db) db"
proof -
  let ?db0 = "run_ops env ops empty_db"
  let ?db = "run_ops env later ?db0"
  have ok: "queue_ok ?db" using run_ops_queue_ok [of env "ops @ later"] by (simp add: run_ops_append)
  have dead: "lease_dead j (generation lease) ?db"
    by (rule qsteps_lease_dead [OF run_ops_refines [OF run_ops_queue_ok] run_ops_queue_ok assms])
  note rules = dead_lease_ops_rejected [OF ok dead]
  have "rejected (fail_terminal j lease now failure ?db) ?db"
    using rules(2) [of now failure now True]
    by (auto simp: fail_terminal_def rejected_def split: prod.splits sum.splits)
  then show ?thesis
    unfolding Let_def succeed_def fail_def
    by (intro conjI rules dead_lease_heartbeat_rejected [OF ok dead] dead_lease_checkpoint_rejected [OF ok dead])
qed

text \<open>A concrete history: a job is leased by one worker, whose lease expires, and then by another.\<close>

definition plain_env :: "string job_env" where
  "plain_env = \<lparr>env_codec = unary_codec, parse_run_id = Some, snapshot_to_string = (\<lambda>_. Some []),
     run_references_ok = (\<lambda>_. True)\<rparr>"

definition sample_job :: NewJob where
  "sample_job = \<lparr>nj_id = ''j1'', nj_kind = ''MAINTENANCE'', nj_priority = 0, nj_parent_job_id = None,
     nj_crawl_run_id = None, nj_scheduled_at = 0, nj_max_attempts = 3\<rparr>"

definition takeover :: "string queue_op list" where
  "takeover = [Enqueue sample_job 0,
     Acquire (\<lambda>j. j) ''l1'' ''a1'' ''w1'' 10 60 True,
     Acquire (\<lambda>j. j) ''l2'' ''a2'' ''w2'' 100 60 True]"

theorem superseded_lease_rejected_forever_witness:
  "rejected (succeed ''j1'' sample_job_lease 30 (run_ops plain_env takeover empty_db))
     (run_ops plain_env takeover empty_db)"
proof -
  have "lease_dead ''j1'' (generation sample_job_lease) (run_ops plain_env takeover empty_db)" by code_simp
  from superseded_lease_rejected_forever [OF this, of "[]" 30 60 HandlerFailed 40 "''e1''" "''a1''" sample_envelope]
  show ?thesis by (simp add: Let_def run_ops_def)
qed

end
