(* ===== verification/Job_Scheduling.thy ===== *)
theory Job_Scheduling
  imports Job_Properties
begin

text \<open>
  Acquisition and completion: which job is handed out, that live leases are never taken over,
  that no expired lease survives an acquisition, and that the current owner can always complete
  its attempt.
\<close>

section \<open>Operations on one job leave the others alone\<close>

definition frame_job :: "JobId \<Rightarrow> queue_db \<Rightarrow> queue_db \<Rightarrow> bool" where
  "frame_job j db db' \<longleftrightarrow> filter (\<lambda>r. job_id r \<noteq> j) (jobs db') = filter (\<lambda>r. job_id r \<noteq> j) (jobs db)"

interpretation fr: tx_refinement "\<lambda>_. True" "frame_job j" for j
  by unfold_locales (auto simp: frame_job_def)

lemma frame_same_jobs: "(\<And>db x db'. m db = Inr (x, db') \<Longrightarrow> jobs db' = jobs db) \<Longrightarrow> tx_refines (\<lambda>_. True) (frame_job j) m"
  by (rule tx_refinesI) (simp add: frame_job_def)

lemma frame_update_jobs:
  assumes "\<And>r. P r \<Longrightarrow> job_id r = j" and "\<And>r. job_id (f r) = job_id r"
  shows "tx_refines (\<lambda>_. True) (frame_job j) (update_jobs e b P f)"
proof (rule tx_refinesI)
  fix db n db' assume "update_jobs e b P f db = Inr (n, db')"
  then have "jobs db' = map (\<lambda>r. if P r then f r else r) (jobs db)"
    by (auto simp: update_jobs_def split: if_splits)
  moreover have "filter (\<lambda>r. job_id r \<noteq> j) (map (\<lambda>r. if P r then f r else r) rs) = filter (\<lambda>r. job_id r \<noteq> j) rs" for rs
    using assms by (induction rs) auto
  ultimately show "frame_job j db db'" by (simp add: frame_job_def)
qed

named_theorems framing \<open>transaction bodies that touch one job only\<close>

lemmas [framing] = fr.rules

lemma frame_statements [framing]:
  "tx_refines (\<lambda>_. True) (frame_job j) (update_runs P st)"
  "tx_refines (\<lambda>_. True) (frame_job j) (append_in_transaction i ev t)"
  "tx_refines (\<lambda>_. True) (frame_job j) (select_job k)"
  "tx_refines (\<lambda>_. True) (frame_job j) (stale_disposition env r)"
  "tx_refines (\<lambda>_. True) (frame_job j) (finish_attempt_in_transaction k lease now out failure)"
  "tx_refines (\<lambda>_. True) (frame_job j) (insert_attempt e a)"
  by (rule frame_same_jobs, auto simp: update_runs_def select_job_Inr stale_disposition_def tx_simps
      finish_attempt_in_transaction_def update_attempts_def insert_attempt_def dest!: append_raw split: if_splits)+

lemma frame_release [framing]:
  "tx_refines (\<lambda>_. True) (frame_job j) (release_job j lease due st at failure now)"
  unfolding release_job_def by (intro framing frame_update_jobs) (auto simp: holds_lease_def)

lemma frame_recover_one: "tx_refines (\<lambda>_. True) (frame_job j) (recover_one env ids now j rec)"
proof (rule tx_refinesI)
  have helpers [framing]:
    "tx_refines (\<lambda>_. True) (frame_job j) (finish_after_terminal_crawl_run j run now)"
    "tx_refines (\<lambda>_. True) (frame_job j) (finalize_crawl_failure_in_transaction env i r now)" for run i r
    unfolding finish_after_terminal_crawl_run_def reconcile_terminal_job_in_transaction_def
      finish_job_after_terminal_run_def finalize_crawl_failure_in_transaction_def
      transition_execution_status_in_transaction_def Let_def
    by (intro framing)+
  fix db x db' assume "recover_one env ids now j rec db = Inr (x, db')"
  then obtain q where q: "select_job j db = Inr (q, db)" and run: "tx_bind (tx_result (ok_or (record_lease q) QueueInvariant)) (\<lambda>lease.
       if lease_expires_at lease > now then tx_return rec else
     tx_bind (case crawl_run_id q of None \<Rightarrow> tx_return None
              | Some run \<Rightarrow> finish_after_terminal_crawl_run j run now) (\<lambda>settled.
       if settled \<noteq> None then tx_return rec else expire_job env ids now q lease rec)) db = Inr (x, db')"
    unfolding recover_one_def tx_basic(3) [of "select_job j"] by (auto simp: select_job_Inr)
  have "job_id q = j" using select_job_member [OF q] by simp
  then have "tx_refines (\<lambda>_. True) (frame_job j) (expire_job env ids now q lease rec)" for lease
    unfolding expire_job_def Let_def by (simp only:) (intro framing)
  then have "tx_refines (\<lambda>_. True) (frame_job j) (tx_bind (tx_result (ok_or (record_lease q) QueueInvariant)) (\<lambda>lease.
       if lease_expires_at lease > now then tx_return rec else
     tx_bind (case crawl_run_id q of None \<Rightarrow> tx_return None
              | Some run \<Rightarrow> finish_after_terminal_crawl_run j run now) (\<lambda>settled.
       if settled \<noteq> None then tx_return rec else expire_job env ids now q lease rec)))"
    by (intro framing)
  from tx_refinesD [OF this TrueI run] show "frame_job j db db'" .
qed

lemma frame_lease: "tx_refines (\<lambda>_. True) (frame_job j) (lease_queued_job l a j w now dur allow)"
  unfolding lease_queued_job_def Let_def by (intro framing frame_update_jobs) (auto simp: leased_row_def)

lemma frame_jobD:
  assumes "frame_job j db db'" and "job_id r \<noteq> j"
  shows "r \<in> set (jobs db') \<longleftrightarrow> r \<in> set (jobs db)"
proof -
  have "r \<in> set (filter (\<lambda>r. job_id r \<noteq> j) (jobs db')) \<longleftrightarrow> r \<in> set (filter (\<lambda>r. job_id r \<noteq> j) (jobs db))"
    using assms(1) by (simp only: frame_job_def)
  then show ?thesis using assms(2) by simp
qed

section \<open>Recovery of expired leases\<close>

definition overdue :: "int \<Rightarrow> JobRow \<Rightarrow> bool" where
  "overdue now r \<longleftrightarrow> state r = JobRunning \<and> expired_at now r"

lemma recover_each_keeps:
  assumes "recover_each env ids now js rec db = Inr (rec', db')" and "job_id r \<notin> set js"
  shows "r \<in> set (jobs db') \<longleftrightarrow> r \<in> set (jobs db)"
  using assms
proof (induction js arbitrary: rec db)
  case (Cons j js)
  then obtain rec1 db1 where one: "recover_one env ids now j rec db = Inr (rec1, db1)"
    and rest: "recover_each env ids now js rec1 db1 = Inr (rec', db')"
    by (auto simp: tx_simps)
  have "frame_job j db db1" using tx_refinesD [OF frame_recover_one TrueI one] .
  then show ?case using Cons.IH [OF rest] Cons.prems(2) frame_jobD [of j db db1 r] by simp
qed (simp add: tx_simps)

text \<open>After its iteration the job is no longer overdue.\<close>

lemma close_pair_state:
  assumes "queue_ok db" and "tx_bind (finish_attempt_in_transaction j lease now out failure)
     (\<lambda>_. release_job j lease due st at failure' now') db = Inr (u, db')"
    and "r \<in> set (jobs db')" and "job_id r = j"
  shows "state r = st \<and> st \<noteq> JobRunning"
proof -
  from assms(2) obtain db1 where fin: "finish_attempt_in_transaction j lease now out failure db = Inr ((), db1)"
    and rel: "release_job j lease due st at failure' now' db1 = Inr (u, db')"
    by (auto simp: tx_simps)
  have js: "jobs db1 = jobs db"
    using fin by (auto simp: finish_attempt_in_transaction_def tx_simps update_attempts_def split: if_splits)
  then have "release_job j lease due st at failure' now' db = Inr (u, db\<lparr>jobs := jobs db'\<rparr>)"
    using rel by (auto simp: release_job_def tx_simps update_jobs_def split: if_splits)
  from release_effect [OF assms(1) this] obtain q f where q: "q \<in> set (jobs db)" "holds_lease j lease q"
      "legal_state_transition JobRunning (state (f q))" "state (f q) = st"
    and eq: "db\<lparr>jobs := jobs db'\<rparr> = db\<lparr>jobs := on_job j f db\<rparr>" by metis
  have "jobs db' = on_job j f db" using arg_cong [OF eq, of jobs] by simp
  then obtain p where p: "p \<in> set (jobs db)" "r = (if job_id p = j then f p else p)"
    using assms(3) by (auto simp: on_job_def)
  show ?thesis
  proof (cases "job_id p = j")
    case True
    then have "p = q" using job_unique [OF assms(1) q(1) p(1)] q(2) by (simp add: holds_lease_def)
    then show ?thesis using p True q(3,4) by (auto simp: legal_state_transition_def)
  next
    case False
    then show ?thesis using p assms(4) by simp
  qed
qed

lemma select_job_row: "\<lbrakk>queue_ok db; select_job j db = Inr (q, db'); r \<in> set (jobs db); job_id r = j\<rbrakk> \<Longrightarrow> r = q"
  using job_unique [of db q r] select_job_member [of j db q db'] by auto

lemma reconcile_state:
  assumes ok: "queue_ok db" and "reconcile_terminal_job_in_transaction j st now db = Inr (Some rc, db')"
    and r: "r \<in> set (jobs db')" "job_id r = j"
  shows "state r \<noteq> JobRunning"
proof -
  from assms(2) obtain new_state out failure progress q where t: "terminal_outcome st = Some (new_state, out, failure, progress)"
    and q: "select_job j db = Inr (q, db)"
    and m: "(if state q = JobRunning then
               tx_bind (tx_result (ok_or (record_lease q) QueueInvariant)) (\<lambda>lease.
               tx_bind (finish_attempt_in_transaction j lease now out failure) (\<lambda>_.
               finish_job_after_terminal_run j lease now new_state failure))
             else tx_guard (state q \<noteq> JobQueued \<and> state q = new_state) QueueInvariant) db = Inr ((), db')"
    by (auto simp: reconcile_terminal_job_in_transaction_def tx_simps select_job_Inr split: option.splits prod.splits)
  show ?thesis
  proof (cases "state q = JobRunning")
    case True
    then obtain lease where "tx_bind (finish_attempt_in_transaction j lease now out failure) (\<lambda>_.
               release_job j lease (\<lambda>_. True) new_state None failure now) db = Inr ((), db')"
      using m by (auto simp: tx_basic(6) tx_basic(3) [of "tx_result _"] finish_job_after_terminal_run_def)
    from close_pair_state [OF ok this r] show ?thesis by simp
  next
    case False
    then have "db' = db" using m by (simp add: tx_simps)
    then show ?thesis using select_job_row [OF ok q] r False by auto
  qed
qed

lemma finish_after_terminal_cases:
  assumes ok: "queue_ok db" and "finish_after_terminal_crawl_run j run now db = Inr (done, db')"
    and r: "r \<in> set (jobs db')" "job_id r = j"
  shows "if done = None then db' = db else state r \<noteq> JobRunning"
proof (cases "select_crawl_run_status run db")
  case None
  then show ?thesis using assms(2) by (simp add: finish_after_terminal_crawl_run_def tx_simps)
next
  case (Some st)
  then have rec: "reconcile_terminal_job_in_transaction j st now db = Inr (done, db')"
    using assms(2) by (simp add: finish_after_terminal_crawl_run_def tx_simps)
  show ?thesis
  proof (cases "done")
    case None
    with rec show ?thesis
      by (auto simp: reconcile_terminal_job_in_transaction_def tx_simps split: option.splits)
  next
    case (Some rc)
    with reconcile_state [OF ok _ r] rec show ?thesis by auto
  qed
qed

lemma finalize_keeps_jobs: "finalize_crawl_failure_in_transaction env i q now db = Inr (u, db') \<Longrightarrow> jobs db' = jobs db"
  by (auto simp: finalize_crawl_failure_in_transaction_def transition_execution_status_in_transaction_def
      transition_sources_def tx_simps update_runs_def dest!: append_raw)

lemma expire_job_effect:
  assumes "expire_job env ids now q lease rec db = Inr (rec', db')"
  obtains st db1 where
    "tx_bind (finish_attempt_in_transaction (job_id q) lease now AttemptLeaseExpired (Some LeaseExpiredFailure)) (\<lambda>_.
       release_job (job_id q) lease (expired_at now) st (Some now) (Some LeaseExpiredFailure) now) db = Inr ((), db1)"
    and "jobs db' = jobs db1"
proof -
  from assms obtain st db0 db1 where
    "finish_attempt_in_transaction (job_id q) lease now AttemptLeaseExpired (Some LeaseExpiredFailure) db = Inr ((), db0)"
    "release_job (job_id q) lease (expired_at now) st (Some now) (Some LeaseExpiredFailure) now db0 = Inr ((), db1)"
    "jobs db' = jobs db1"
    by (auto simp: expire_job_def tx_simps Let_def stale_disposition_def finalize_keeps_jobs split: if_splits)
  then show ?thesis using that [of st db1] by (auto simp: tx_basic(3))
qed

lemma recover_one_not_overdue:
  assumes ok: "queue_ok db" and "recover_one env ids now j rec db = Inr (rec', db')"
    and r: "r \<in> set (jobs db')" "job_id r = j"
  shows "\<not> overdue now r"
proof -
  from assms(2) obtain q lease where q: "select_job j db = Inr (q, db)" and lease: "record_lease q = Some lease"
    and rest: "(if lease_expires_at lease > now then tx_return rec else
     tx_bind (case crawl_run_id q of None \<Rightarrow> tx_return None
              | Some run \<Rightarrow> finish_after_terminal_crawl_run j run now) (\<lambda>settled.
       if settled \<noteq> None then tx_return rec else expire_job env ids now q lease rec)) db = Inr (rec', db')"
    unfolding recover_one_def tx_basic(3) [of "select_job j"] tx_basic(3) [of "tx_result _"] tx_basic(6)
    by (auto simp: select_job_Inr ok_or_eq_Inr)
  have id: "job_id q = j" using select_job_member [OF q] by simp
  show ?thesis
  proof (cases "lease_expires_at lease > now")
    case True
    then have "r = q" using rest select_job_row [OF ok q] r by (simp add: tx_simps)
    then show ?thesis using True lease by (auto simp: overdue_def expired_at_def record_lease_def)
  next
    case False
    then obtain d db0 where d: "(case crawl_run_id q of None \<Rightarrow> tx_return None
              | Some run \<Rightarrow> finish_after_terminal_crawl_run j run now) db = Inr (d, db0)"
      and more: "(if d \<noteq> None then tx_return rec else expire_job env ids now q lease rec) db0 = Inr (rec', db')"
      using rest by (auto simp: tx_basic(3))
    show ?thesis
    proof (cases d)
      case (Some rc)
      then have "db' = db0" using more by (simp add: tx_simps)
      with d Some r finish_after_terminal_cases [OF ok] show ?thesis
        by (cases "crawl_run_id q") (fastforce simp: tx_simps overdue_def)+
    next
      case None
      have "db0 = db"
        using d None by (auto simp: finish_after_terminal_crawl_run_def reconcile_terminal_job_in_transaction_def
            tx_simps split: option.splits)
      with more None have "expire_job env ids now q lease rec db = Inr (rec', db')" by simp
      then obtain st db1 where "tx_bind (finish_attempt_in_transaction (job_id q) lease now AttemptLeaseExpired (Some LeaseExpiredFailure)) (\<lambda>_.
          release_job (job_id q) lease (expired_at now) st (Some now) (Some LeaseExpiredFailure) now) db = Inr ((), db1)"
        "jobs db' = jobs db1" by (rule expire_job_effect)
      with close_pair_state [OF ok this(1)] r id show ?thesis by (simp add: overdue_def)
    qed
  qed
qed

lemma recover_each_clears:
  assumes "queue_ok db" and "recover_each env ids now js rec db = Inr (rec', db')"
    and "r \<in> set (jobs db')" and "job_id r \<in> set js"
  shows "\<not> overdue now r"
  using assms
proof (induction js arbitrary: rec db)
  case (Cons j js)
  then obtain rec1 db1 where one: "recover_one env ids now j rec db = Inr (rec1, db1)"
    and rest: "recover_each env ids now js rec1 db1 = Inr (rec', db')"
    by (auto simp: tx_simps)
  have ok: "queue_ok db1" using life.R_keeps [OF tx_refinesD [OF reconcile_refines(5) Cons.prems(1) one] Cons.prems(1)] .
  show ?case
  proof (cases "job_id r \<in> set js")
    case True
    then show ?thesis using Cons.IH [OF ok rest Cons.prems(3)] by simp
  next
    case False
    then have "r \<in> set (jobs db1)" using recover_each_keeps [OF rest] Cons.prems(3) by simp
    then show ?thesis using recover_one_not_overdue [OF Cons.prems(1) one] Cons.prems(4) False by simp
  qed
qed simp

lemma recover_expired_effect:
  assumes ok: "queue_ok db" and rec: "recover_expired_in_transaction env ids now db = Inr (rec', db')"
  shows "\<forall>r \<in> set (jobs db'). \<not> overdue now r"
    and "\<lbrakk>r \<in> set (jobs db); \<not> overdue now r\<rbrakk> \<Longrightarrow> r \<in> set (jobs db')"
    and "queue_ok db'"
proof -
  have each: "recover_each env ids now (expired_jobs now db) no_recovery db = Inr (rec', db')"
    using rec by (simp add: recover_expired_in_transaction_def tx_simps)
  have ids: "job_id r \<in> set (expired_jobs now db) \<longleftrightarrow> overdue now r" if "r \<in> set (jobs db)" for r
  proof
    assume "job_id r \<in> set (expired_jobs now db)"
    then obtain q where q: "q \<in> set (jobs db)" "overdue now q" "job_id q = job_id r"
      by (auto simp: expired_jobs_def overdue_def)
    then show "overdue now r" using job_unique [OF ok that q(1)] by simp
  qed (use that in \<open>auto simp: expired_jobs_def overdue_def\<close>)
  show "\<forall>r \<in> set (jobs db'). \<not> overdue now r"
    using recover_each_clears [OF ok each] recover_each_keeps [OF each] ids by blast
  show "\<lbrakk>r \<in> set (jobs db); \<not> overdue now r\<rbrakk> \<Longrightarrow> r \<in> set (jobs db')"
    using recover_each_keeps [OF each, of r] ids [of r] by blast
  show "queue_ok db'" using life.R_keeps [OF tx_refinesD [OF tx_bodies_refine(2) ok rec] ok] .
qed

section \<open>Acquisition\<close>

lemma acquire_cases:
  assumes "acquire_next_with_storage_admission env ids l a w now dur allow db = (Inr res, db')"
  obtains (idle) rec where "recover_expired_in_transaction env ids now db = Inr (rec, db')"
      "select_eligible_job now allow db' = None" "res = None" "0 < dur"
  | (leased) rec db1 j x where "recover_expired_in_transaction env ids now db = Inr (rec, db1)"
      "select_eligible_job now allow db1 = Some j" "0 < dur"
      "lease_queued_job l a j w now dur allow db1 = Inr (x, db')" "res = Some x"
  using assms
  by (auto simp: acquire_next_with_storage_admission_def transaction_def tx_simps ensure_queue_invariants_def
      split: sum.splits option.splits)

lemma acquire_error: "acquire_next_with_storage_admission env ids l a w now dur allow db = (Inl e, db') \<Longrightarrow> db' = db"
  by (auto simp: acquire_next_with_storage_admission_def transaction_def split: sum.splits)

lemma hd_sort_key_least:
  assumes "sort_key k xs = y # ys" shows "y \<in> set xs" and "\<forall>x \<in> set xs. k y \<le> k x"
proof -
  have s: "set (y # ys) = set xs" using assms by (metis set_sort)
  then show "y \<in> set xs" by auto
  have "sorted (map k (y # ys))" unfolding assms [symmetric] by (rule sorted_sort_key)
  then have "\<forall>x \<in> set (y # ys). k y \<le> k x" by auto
  with s show "\<forall>x \<in> set xs. k y \<le> k x" by simp
qed

lemma select_eligible_Some:
  assumes "select_eligible_job now allow db = Some j"
  obtains r where "r \<in> set (jobs db)" "job_id r = j" "eligible now allow r"
    "\<forall>q \<in> set (filter (eligible now allow) (jobs db)). queue_order r \<le> queue_order q"
proof -
  obtain r rs where s: "sort_key queue_order (filter (eligible now allow) (jobs db)) = r # rs" "job_id r = j"
    using assms by (auto simp: select_eligible_job_def split: list.splits)
  show ?thesis using hd_sort_key_least [OF s(1)] s(2) that [of r] by auto
qed

lemma select_eligible_None: "select_eligible_job now allow db = None \<Longrightarrow> list_all (\<lambda>r. \<not> eligible now allow r) (jobs db)"
  by (auto simp: select_eligible_job_def list_all_iff filter_empty_conv split: list.splits)
    (metis filter_empty_conv set_empty set_sort)

lemma update_jobs_effect:
  "update_jobs e b P f db = Inr (n, db') \<Longrightarrow> jobs db' = map (\<lambda>r. if P r then f r else r) (jobs db)"
  by (auto simp: update_jobs_def split: if_splits)

lemma lease_row_effect:
  assumes ok: "queue_ok db" and "lease_queued_job l a j w now dur allow db = Inr (x, db')"
    and r: "r \<in> set (jobs db)" "job_id r = j"
  shows "acquired_job x \<in> set (jobs db')" and "job_id (acquired_job x) = j"
    and "acquired_job x = leased_row (current_attempt r + 1) (lease_generation r + 1) l w now (now + dur) r"
    and "acquired_attempt x = running_attempt a j (current_attempt r + 1) (lease_generation r + 1) l w now"
    and "acquired_attempt x \<in> set (job_attempts db')"
proof -
  from assms(2) obtain q expires n gen where q: "select_job j db = Inr (q, db)" "state q = JobQueued"
      "scheduled_at q \<le> now" "current_attempt q < max_attempts q"
    and inc: "n = saturating_inc 32 (current_attempt q)" "gen = saturating_inc 64 (lease_generation q)" "gen < 2 ^ 63"
    and e: "i64_checked_add now dur = Some expires"
    and up: "update_jobs JobDatabase True
       (\<lambda>q'. job_id q' = j \<and> state q' = JobQueued \<and> scheduled_at q' \<le> now \<and> current_attempt q' = current_attempt q)
       (leased_row n gen l w now expires) db = Inr (1, db\<lparr>jobs := jobs db'\<rparr>)"
    and ins: "insert_attempt JobDatabase (running_attempt a j n gen l w now) (db\<lparr>jobs := jobs db'\<rparr>) = Inr ((), db')"
    and sel: "select_job j db' = Inr (acquired_job x, db')"
    and at: "acquired_attempt x = running_attempt a j n gen l w now"
    by (rule lease_effect)
  show "acquired_attempt x \<in> set (job_attempts db')" using insert_attempt_effect(1) [OF ins] at by simp
  have qr: "q = r" using select_job_row [OF ok q(1) r] by simp
  have num: "n = current_attempt r + 1" "gen = lease_generation r + 1" "expires = now + dur"
    using lease_increments [OF q(1,4)] inc e by (auto simp: qr i64_checked_add_def split: if_splits)
  show mem: "acquired_job x \<in> set (jobs db')" and id: "job_id (acquired_job x) = j"
    using select_job_member [OF sel] by auto
  show "acquired_attempt x = running_attempt a j (current_attempt r + 1) (lease_generation r + 1) l w now"
    using at num by simp
  have "jobs db' = map (\<lambda>q'. if job_id q' = j \<and> state q' = JobQueued \<and> scheduled_at q' \<le> now
      \<and> current_attempt q' = current_attempt q then leased_row n gen l w now expires q' else q') (jobs db)"
    using update_jobs_effect [OF up] by simp
  then obtain p where p: "p \<in> set (jobs db)" "acquired_job x = (if job_id p = j \<and> state p = JobQueued \<and> scheduled_at p \<le> now
      \<and> current_attempt p = current_attempt q then leased_row n gen l w now expires p else p)"
    using mem by auto
  then have "job_id p = j" using id by (auto simp: leased_row_def split: if_splits)
  then have "p = r" using job_unique [OF ok r(1) p(1)] r(2) by simp
  then show "acquired_job x = leased_row (current_attempt r + 1) (lease_generation r + 1) l w now (now + dur) r"
    using p(2) q(2,3) r(2) num by (simp add: qr)
qed

text \<open>
  C4. Acquisition hands out the right job: after expired leases were recovered, the job leased is
  an eligible one that precedes every eligible job in queue order (priority, then schedule, then
  creation, then identifier), in its next attempt, under a fresh generation that expires
  after the requested duration; nothing is handed out only when nothing is eligible; artifact
  heavy work is never handed out while it is not admitted; and an error changes nothing.
\<close>
theorem acquire_hands_out_first_eligible:
  "let db = run_ops env ops empty_db in
   case acquire_next_with_storage_admission env ids l a w now dur allow db of
     (Inl _, db') \<Rightarrow> db' = db
   | (Inr None, db') \<Rightarrow> list_all (\<lambda>r. \<not> eligible now allow r) (jobs db')
   | (Inr (Some x), db') \<Rightarrow> \<exists>rec db1 r. recover_expired_in_transaction env ids now db = Inr (rec, db1)
        \<and> r \<in> set (jobs db1) \<and> eligible now allow r
        \<and> list_all (\<lambda>q. queue_order r \<le> queue_order q) (filter (eligible now allow) (jobs db1))
        \<and> acquired_job x = leased_row (current_attempt r + 1) (lease_generation r + 1) l w now (now + dur) r
        \<and> acquired_attempt x = running_attempt a (job_id r) (current_attempt r + 1) (lease_generation r + 1) l w now
        \<and> acquired_job x \<in> set (jobs db') \<and> acquired_attempt x \<in> set (job_attempts db')"
proof -
  let ?db = "run_ops env ops empty_db"
  have ok: "queue_ok ?db" by (rule run_ops_queue_ok)
  obtain res db' where run: "acquire_next_with_storage_admission env ids l a w now dur allow ?db = (res, db')" by fastforce
  show ?thesis
  proof (cases res)
    case (Inl e)
    then show ?thesis using run acquire_error [of env ids l a w now dur allow ?db e db'] by (simp add: Let_def)
  next
    case (Inr v)
    from run [unfolded Inr] show ?thesis
    proof (cases rule: acquire_cases)
      case (idle rec)
      then show ?thesis using run Inr select_eligible_None by (simp add: Let_def)
    next
      case (leased rec db1 j x)
      have ok1: "queue_ok db1" by (rule recover_expired_effect(3) [OF ok leased(1)])
      obtain r where r: "r \<in> set (jobs db1)" "job_id r = j" "eligible now allow r"
        "\<forall>q \<in> set (filter (eligible now allow) (jobs db1)). queue_order r \<le> queue_order q"
        using select_eligible_Some [OF leased(2)] by metis
      note eff = lease_row_effect [OF ok1 leased(4) r(1,2)]
      have "list_all (\<lambda>q. queue_order r \<le> queue_order q) (filter (eligible now allow) (jobs db1))"
        using r(4) by (simp only: list_all_iff)
      then show ?thesis
        unfolding Let_def run Inr leased(5) prod.case sum.case option.case
        by (intro exI [of _ rec] exI [of _ db1] exI [of _ r] conjI) (use eff leased(1) r(1-3) in simp_all)
    qed
  qed
qed

text \<open>
  C5. Live leases are exclusive: whoever acquires work, every running job whose lease has not
  expired keeps its row, lease included, and is not handed out again; and no running job is left
  with an expired lease.
\<close>
theorem live_leases_are_exclusive:
  "let db = run_ops env ops empty_db in
   case acquire_next_with_storage_admission env ids l a w now dur allow db of
     (Inl _, db') \<Rightarrow> db' = db
   | (Inr res, db') \<Rightarrow>
       list_all (\<lambda>q. q \<in> set (jobs db') \<and> (case res of None \<Rightarrow> True | Some x \<Rightarrow> job_id (acquired_job x) \<noteq> job_id q))
         (filter (\<lambda>q. state q = JobRunning \<and> \<not> expired_at now q) (jobs db))
     \<and> list_all (\<lambda>q. \<not> (state q = JobRunning \<and> expired_at now q)) (jobs db')"
proof -
  let ?db = "run_ops env ops empty_db"
  have ok: "queue_ok ?db" by (rule run_ops_queue_ok)
  obtain res db' where run: "acquire_next_with_storage_admission env ids l a w now dur allow ?db = (res, db')" by fastforce
  show ?thesis
  proof (cases res)
    case (Inl e)
    then show ?thesis using run acquire_error [of env ids l a w now dur allow ?db e db'] by (simp add: Let_def)
  next
    case (Inr v)
    from run [unfolded Inr] show ?thesis
    proof (cases rule: acquire_cases)
      case (idle rec)
      note eff = recover_expired_effect [OF ok idle(1)]
      show ?thesis unfolding Let_def run Inr idle(3) prod.case sum.case option.case
        using eff(1) eff(2) [unfolded overdue_def] unfolding list_all_iff set_filter overdue_def by blast
    next
      case (leased rec db1 j x)
      note eff = recover_expired_effect [OF ok leased(1)]
      obtain r where r: "r \<in> set (jobs db1)" "job_id r = j" "eligible now allow r"
        by (rule select_eligible_Some [OF leased(2)])
      note row = lease_row_effect [OF eff(3) leased(4) r(1,2)]
      have fr: "frame_job j db1 db'" by (rule tx_refinesD [OF frame_lease TrueI leased(4)])
      have "q \<in> set (jobs db') \<and> job_id (acquired_job x) \<noteq> job_id q"
        if q: "q \<in> set (jobs ?db)" "state q = JobRunning" "\<not> expired_at now q" for q
      proof -
        have q1: "q \<in> set (jobs db1)" using eff(2) [OF q(1)] q(2,3) by (simp add: overdue_def)
        have "q \<noteq> r" using r(3) q(2) by (auto simp: eligible_def)
        then have "job_id q \<noteq> j" using job_unique [OF eff(3) r(1) q1] r(2) by auto
        then show ?thesis using frame_jobD [OF fr, of q] q1 row(2) by auto
      qed
      moreover have "\<not> overdue now q" if q: "q \<in> set (jobs db')" for q
      proof (cases "job_id q = j")
        case True
        have "queue_ok db'" using life.R_keeps [OF tx_refinesD [OF lease_refines eff(3) leased(4)] eff(3)] .
        then have "q = acquired_job x" using job_unique [OF _ row(1) q] row(2) True by simp
        then show ?thesis using row(3) leased(3) by (simp add: overdue_def expired_at_def leased_row_def)
      next
        case False
        then show ?thesis using frame_jobD [OF fr, of q] q eff(1) by simp
      qed
      ultimately show ?thesis unfolding Let_def run Inr leased(5) prod.case sum.case option.case
        list_all_iff set_filter overdue_def by blast
    qed
  qed
qed

section \<open>Completion by the current owner\<close>

lemma length_filter_one:
  assumes "distinct xs" and "x \<in> set xs" and "\<And>y. y \<in> set xs \<Longrightarrow> P y \<longleftrightarrow> y = x"
  shows "length (filter P xs) = 1"
proof -
  have "set (filter P xs) = {x}" using assms(2,3) by auto
  then have "card (set (filter P xs)) = 1" by simp
  then show ?thesis using distinct_card [of "filter P xs"] assms(1) by simp
qed

definition consistent_outcome :: "AttemptOutcome \<Rightarrow> JobFailureCode option \<Rightarrow> bool" where
  "consistent_outcome out failure \<longleftrightarrow> (case out of AttemptRunning \<Rightarrow> False
     | AttemptSucceeded \<Rightarrow> failure = None | _ \<Rightarrow> failure \<noteq> None)"

text \<open>The situation of the worker that holds the current, unexpired lease.\<close>

definition owns :: "JobLease \<Rightarrow> int \<Rightarrow> JobRow \<Rightarrow> bool" where
  "owns lease now r \<longleftrightarrow> state r = JobRunning \<and> record_lease r = Some lease \<and> lease_expires_at lease > now
     \<and> job_from_row r = Inr r"

lemma owns_lease:
  assumes "queue_ok db" and "r \<in> set (jobs db)" and "owns lease now r"
  obtains c where "lease_columns r = Some c" and "lease_id lease = col_lease_id c"
    and "lease_owner lease = col_lease_owner c" and "generation lease = lease_generation r"
    and "generation_to_i64 lease = Inr (generation lease)"
proof -
  obtain c where c: "lease_columns r = Some c" "lease_id lease = col_lease_id c"
      "lease_owner lease = col_lease_owner c" "generation lease = lease_generation r"
    using assms(3) by (auto simp: owns_def record_lease_def)
  have "lease_generation r = current_attempt r" using queue_okD(2) [OF assms(1,2)] by (simp add: history_ok_def)
  moreover have "current_attempt r < 2 ^ 32"
    using assms(3) by (auto simp: owns_def job_from_row_def result_simps positive_u32_or_zero_def split: if_splits)
  ultimately have "generation lease < 2 ^ 63" using c(4) by simp
  then show ?thesis using that [OF c] by (simp add: generation_to_i64_def)
qed

lemma select_owned_ok:
  assumes ok: "queue_ok db" and r: "r \<in> set (jobs db)" "owns lease now r"
  shows "select_owned_running_job (job_id r) lease now db = Inr (r, db)"
proof -
  have "find (\<lambda>q. job_id q = job_id r) rs = Some r" if "distinct (map job_id rs)" "r \<in> set rs" for rs
    using that by (induction rs) auto
  then have "select_job (job_id r) db = Inr (r, db)"
    unfolding select_job_Inr using ok r by (simp add: queue_ok_def owns_def)
  with r(2) show ?thesis by (simp add: select_owned_running_job_def tx_simps owns_def)
qed

lemma finish_attempt_ok:
  assumes ok: "queue_ok db" and r: "r \<in> set (jobs db)" "owns lease now r" and con: "consistent_outcome out failure"
  shows "finish_attempt_in_transaction (job_id r) lease t out failure db =
     Inr ((), db\<lparr>job_attempts := close_attempts (job_id r) t out failure db\<rparr>)"
proof -
  let ?h = "attempts_of (job_id r) db"
  let ?g = "\<lambda>a. a\<lparr>finished_at := Some t, outcome := out, attempt_failure_code := failure\<rparr>"
  let ?P = "\<lambda>a. attempt_job_id a = job_id r \<and> attempt_lease_id a = lease_id lease
     \<and> attempt_lease_generation a = generation lease \<and> worker_id a = lease_owner lease \<and> outcome a = AttemptRunning"
  from owns_lease [OF ok r] obtain c where c: "lease_columns r = Some c" "lease_id lease = col_lease_id c"
    "lease_owner lease = col_lease_owner c" "generation lease = lease_generation r"
    and g: "generation_to_i64 lease = Inr (generation lease)" by metis
  have h: "history_ok r ?h" using queue_okD(2) [OF ok r(1)] .
  note l = history_ok_last [OF h c(1)]
  have ne: "?h \<noteq> []" using h c(1) by (simp add: history_ok_def)
  then have lin: "last ?h \<in> set ?h" by simp
  have num: "attempt_number (last ?h) = lease_generation r"
  proof -
    have "last (map attempt_number ?h) = last (numbers (length ?h))" using h by (simp add: history_ok_def)
    then show ?thesis using h ne by (cases "length ?h") (auto simp: last_map history_ok_def)
  qed
  have Pl: "?P (last ?h)"
    using h c attempts_of_job [OF lin] l(2) num history_ok_nth(3) [OF h lin] by (auto simp: history_ok_def)
  have P: "?P a \<longleftrightarrow> a = last ?h" if "a \<in> set (job_attempts db)" for a
    using Pl that l(3) set_butlast_last [OF ne] by (auto simp: attempts_of_def list_all_iff)
  have run: "?P a \<longleftrightarrow> attempt_job_id a = job_id r \<and> outcome a = AttemptRunning" if "a \<in> set (job_attempts db)" for a
    using P [OF that] Pl that l(3) set_butlast_last [OF ne] by (auto simp: attempts_of_def list_all_iff)
  have "distinct (job_attempts db)" using ok by (simp add: queue_ok_def distinct_map)
  moreover have "last ?h \<in> set (job_attempts db)" using lin by (simp add: attempts_of_def)
  ultimately have one: "length (filter ?P (job_attempts db)) = 1" using P by (rule length_filter_one)
  have "attempts_check (?g (last ?h))" "attempt_update_allowed (last ?h) (?g (last ?h))"
    using con l(2) history_ok_nth [OF h lin]
    by (auto simp: attempts_check_def attempt_update_allowed_def consistent_outcome_def split: AttemptOutcome.splits)
  then have "list_all (\<lambda>a. ?P a \<longrightarrow> attempts_check (?g a) \<and> attempt_update_allowed a (?g a)) (job_attempts db)"
    unfolding list_all_iff using P by blast
  moreover have "map (\<lambda>a. if ?P a then ?g a else a) (job_attempts db) = close_attempts (job_id r) t out failure db"
    unfolding close_attempts_def using run by (intro map_cong) simp_all
  ultimately show ?thesis
    using one by (simp add: finish_attempt_in_transaction_def tx_bind_def tx_result_def tx_return_def tx_guard_def
        update_attempts_def g)
qed

definition released_row :: "JobState \<Rightarrow> int option \<Rightarrow> JobFailureCode option \<Rightarrow> int \<Rightarrow> JobRow \<Rightarrow> JobRow" where
  "released_row st at failure now r = r\<lparr>state := st, scheduled_at := (case at of None \<Rightarrow> scheduled_at r | Some t \<Rightarrow> t),
     lease_columns := None, failure_code := failure, job_updated_at := now\<rparr>"

lemma release_ok:
  assumes ok: "queue_ok db" and r: "r \<in> set (jobs db)" "owns lease now r" and st: "legal_state_transition JobRunning st"
    and js: "jobs db1 = jobs db"
  shows "release_job (job_id r) lease (\<lambda>_. True) st at failure t db1 =
     Inr ((), db1\<lparr>jobs := on_job (job_id r) (released_row st at failure t) db\<rparr>)"
proof -
  from owns_lease [OF ok r] obtain c where c: "lease_columns r = Some c" "lease_id lease = col_lease_id c"
    "lease_owner lease = col_lease_owner c" "generation lease = lease_generation r"
    and g: "generation_to_i64 lease = Inr (generation lease)" by metis
  have run: "state r = JobRunning" using r(2) by (simp add: owns_def)
  have h: "holds_lease (job_id r) lease q \<longleftrightarrow> q = r" if "q \<in> set (jobs db)" for q
    using job_unique [OF ok r(1) that] c run by (auto simp: holds_lease_def)
  have i: "job_id q = job_id r \<longleftrightarrow> q = r" if "q \<in> set (jobs db)" for q using job_unique [OF ok r(1) that] by auto
  have "distinct (jobs db)" using ok by (simp add: queue_ok_def distinct_map)
  then have "length (filter (holds_lease (job_id r) lease) (jobs db)) = 1"
    by (rule length_filter_one [OF _ r(1) h])
  moreover have "jobs_check (released_row st at failure t r)"
    using queue_okD(1) [OF ok r(1)] st by (auto simp: jobs_check_def released_row_def legal_state_transition_def)
  then have "list_all (\<lambda>q. holds_lease (job_id r) lease q \<longrightarrow> jobs_check (released_row st at failure t q)
      \<and> legal_state_transition (state q) st) (jobs db)"
    using h st run by (auto simp: list_all_iff)
  moreover have "map (\<lambda>q. if holds_lease (job_id r) lease q then released_row st at failure t q else q) (jobs db)
      = on_job (job_id r) (released_row st at failure t) db"
    unfolding on_job_def using h i by (intro map_cong) simp_all
  moreover have "state (released_row st at failure t q) = st" for q by (simp add: released_row_def)
  ultimately show ?thesis
    unfolding release_job_def released_row_def [symmetric]
    by (simp add: tx_bind_def tx_result_def tx_return_def tx_guard_def update_jobs_def g js)
qed

text \<open>
  C6. The current owner can always complete its attempt: with the lease a running job holds, not
  yet expired, \<open>succeed\<close> closes the attempt and the job as succeeded, and \<open>fail\<close> closes the attempt
  and requeues the job at the retry time exactly when attempts remain, failing it otherwise;
  nothing else in the database changes.
\<close>
theorem current_owner_completes:
  assumes "r \<in> set (jobs (run_ops env ops empty_db))" and "owns lease now r"
  shows "let db = run_ops env ops empty_db; st = (if current_attempt r < max_attempts r then JobQueued else JobFailed);
       at = (if current_attempt r < max_attempts r then retry_at else scheduled_at r) in
     succeed (job_id r) lease now db = (Inr (),
       db\<lparr>job_attempts := close_attempts (job_id r) now AttemptSucceeded None db,
          jobs := on_job (job_id r) (released_row JobSucceeded None None now) db\<rparr>)
   \<and> fail (job_id r) lease now failure retry_at db = (Inr st,
       db\<lparr>job_attempts := close_attempts (job_id r) now AttemptFailed (Some failure) db,
          jobs := on_job (job_id r) (released_row st (Some at) (Some failure) now) db\<rparr>)"
proof -
  note ok = run_ops_queue_ok [of env ops]
  note steps = select_owned_ok [OF ok assms] finish_attempt_ok [OF ok assms] release_ok [OF ok assms]
  show ?thesis
    by (simp add: Let_def succeed_def finish_def fail_def fail_with_disposition_def transaction_def tx_bind_def
        tx_return_def steps consistent_outcome_def legal_state_transition_def)
qed

theorem current_owner_completes_witness:
  "fst (succeed ''j1'' sample_job_lease 30 (run_ops plain_env (take 2 takeover) empty_db)) = Inr ()"
proof -
  let ?db = "run_ops plain_env (take 2 takeover) empty_db"
  have "list_ex (\<lambda>r. job_id r = ''j1'' \<and> owns sample_job_lease 30 r) (jobs ?db)" by code_simp
  then obtain r where r: "r \<in> set (jobs ?db)" "job_id r = ''j1''" "owns sample_job_lease 30 r"
    by (auto simp: list_ex_iff)
  from current_owner_completes [OF r(1,3)] r(2) show ?thesis by (simp add: Let_def)
qed

end
