(* ===== verification/Job_Reconciliation.thy ===== *)
theory Job_Reconciliation
  imports Job_Scheduling
begin

text \<open>
  Start-up reconciliation of jobs with their crawl runs (\<open>recover_stale_jobs\<close>): a job that is not running has
  to be in the state its terminal run asks for.  A run that failed, was resumed through a recovery child
  and then succeeded leaves its original job failed, which the reconciliation treats as corruption.
\<close>

section \<open>Terminal runs are kept\<close>

definition terminal_kept :: "queue_db \<Rightarrow> queue_db \<Rightarrow> bool" where
  "terminal_kept db db' \<longleftrightarrow>
     (\<forall>q \<in> set (crawl_runs db). terminal_outcome (run_status q) \<noteq> None \<longrightarrow> q \<in> set (crawl_runs db'))"

interpretation kept: tx_refinement "\<lambda>_. True" terminal_kept
  by unfold_locales (auto simp: terminal_kept_def)

lemma kept_same_runs:
  "(\<And>db x db'. m db = Inr (x, db') \<Longrightarrow> crawl_runs db' = crawl_runs db) \<Longrightarrow> tx_refines (\<lambda>_. True) terminal_kept m"
  by (rule tx_refinesI) (simp add: terminal_kept_def)

named_theorems keeping \<open>transaction bodies that leave terminal runs alone\<close>

lemmas [keeping] = kept.rules

lemma keeping_statements [keeping]:
  "tx_refines (\<lambda>_. True) terminal_kept (append_in_transaction i ev t)"
  "tx_refines (\<lambda>_. True) terminal_kept (select_job k)"
  "tx_refines (\<lambda>_. True) terminal_kept (stale_disposition env r)"
  "tx_refines (\<lambda>_. True) terminal_kept (finish_attempt_in_transaction k lease now out failure)"
  "tx_refines (\<lambda>_. True) terminal_kept (release_job k lease due st at failure now)"
proof -
  show "tx_refines (\<lambda>_. True) terminal_kept (append_in_transaction i ev t)"
    by (rule kept_same_runs) (auto dest!: append_raw)
  show "tx_refines (\<lambda>_. True) terminal_kept (select_job k)"
    by (rule kept_same_runs) (simp add: select_job_Inr)
  show "tx_refines (\<lambda>_. True) terminal_kept (stale_disposition env r)"
    by (rule kept_same_runs) (auto simp: stale_disposition_def tx_simps split: if_splits)
  show "tx_refines (\<lambda>_. True) terminal_kept (finish_attempt_in_transaction k lease now out failure)"
    by (rule kept_same_runs) (auto simp: finish_attempt_in_transaction_def tx_simps update_attempts_def split: if_splits)
  show "tx_refines (\<lambda>_. True) terminal_kept (release_job k lease due st at failure now)"
    unfolding release_job_def tx_bind_def
    by (rule kept_same_runs) (auto simp: tx_simps update_jobs_def split: if_splits sum.splits)
qed

text \<open>A crawl run is only failed by the queue when it has not ended, or has failed.\<close>

lemma keeping_failure [keeping]:
  "tx_refines (\<lambda>_. True) terminal_kept (update_runs (run_status_in run [RunQueued, RunRunning, RunFailed]) RunFailed)"
proof (rule tx_refinesI)
  fix db n db'
  let ?fail = "\<lambda>r. if run_status_in run [RunQueued, RunRunning, RunFailed] r then r\<lparr>run_status := RunFailed\<rparr> else r"
  assume "update_runs (run_status_in run [RunQueued, RunRunning, RunFailed]) RunFailed db = Inr (n, db')"
  then have runs: "crawl_runs db' = map ?fail (crawl_runs db)" by (auto simp: update_runs_def)
  have "?fail q = q" if "terminal_outcome (run_status q) \<noteq> None" for q
    using that by (cases "run_status q") (auto simp: run_status_in_def terminal_outcome_def)
  then have "q \<in> ?fail ` set (crawl_runs db)" if "q \<in> set (crawl_runs db)" "terminal_outcome (run_status q) \<noteq> None" for q
    using that by (intro image_eqI [of q ?fail q]) simp_all
  then show "terminal_kept db db'" by (simp add: terminal_kept_def runs)
qed

lemma keeping_recovery: "tx_refines (\<lambda>_. True) terminal_kept (recover_expired_in_transaction env ids now)"
proof -
  have failure [keeping]: "tx_refines (\<lambda>_. True) terminal_kept (finalize_crawl_failure_in_transaction env i r now)" for i r
    unfolding finalize_crawl_failure_in_transaction_def transition_execution_status_in_transaction_def transition_sources_def
      CrawlRunStatus.case option.case
    by (intro keeping)
  have [keeping]: "tx_refines (\<lambda>_. True) terminal_kept (finish_after_terminal_crawl_run j run now)" for j run
    unfolding finish_after_terminal_crawl_run_def reconcile_terminal_job_in_transaction_def finish_job_after_terminal_run_def Let_def
    by (intro keeping)
  have one [keeping]: "tx_refines (\<lambda>_. True) terminal_kept (recover_one env ids now j rec)" for j rec
    unfolding recover_one_def expire_job_def Let_def by (intro keeping)
  have [keeping]: "tx_refines (\<lambda>_. True) terminal_kept (recover_each env ids now js rec)" for js rec
    by (induction js arbitrary: rec) (auto intro!: keeping)
  show ?thesis unfolding recover_expired_in_transaction_def by (intro keeping)
qed

section \<open>Reconciliation accepts a settled job only in the state of its run\<close>

lemma reconcile_one_settled:
  assumes ok: "queue_ok db" and run: "reconcile_terminal_job_in_transaction j st now db = Inr (rc, db')"
    and r: "r \<in> set (jobs db)" "state r \<noteq> JobRunning"
  shows "r \<in> set (jobs db')"
    and "job_id r = j \<Longrightarrow> terminal_outcome st = Some (new_state, out, failure, progress) \<Longrightarrow> state r = new_state"
proof -
  have frame: "tx_refines (\<lambda>_. True) (frame_job j) (reconcile_terminal_job_in_transaction j st now)"
    unfolding reconcile_terminal_job_in_transaction_def finish_job_after_terminal_run_def by (intro framing)
  have own: "db' = db \<and> (\<forall>new_state out failure progress.
      terminal_outcome st = Some (new_state, out, failure, progress) \<longrightarrow> state r = new_state)" if "job_id r = j"
  proof (cases "terminal_outcome st")
    case None
    with run show ?thesis by (simp add: reconcile_terminal_job_in_transaction_def tx_simps)
  next
    case (Some t)
    obtain new_state out failure progress where t: "t = (new_state, out, failure, progress)" by (cases t)
    from run Some t obtain q where q: "select_job j db = Inr (q, db)"
      and m: "(if state q = JobRunning then
               tx_bind (tx_result (ok_or (record_lease q) QueueInvariant)) (\<lambda>lease.
               tx_bind (finish_attempt_in_transaction j lease now out failure) (\<lambda>_.
               finish_job_after_terminal_run j lease now new_state failure))
             else tx_guard (state q \<noteq> JobQueued \<and> state q = new_state) QueueInvariant) db = Inr ((), db')"
      by (auto simp: reconcile_terminal_job_in_transaction_def tx_simps select_job_Inr)
    have "q = r" using select_job_row [OF ok q r(1) that] by simp
    with m r(2) show ?thesis by (auto simp: tx_simps Some t)
  qed
  show "r \<in> set (jobs db')"
  proof (cases "job_id r = j")
    case True
    with own r(1) show ?thesis by simp
  next
    case False
    with frame_jobD [OF tx_refinesD [OF frame TrueI run]] r(1) show ?thesis by simp
  qed
  show "state r = new_state" if "job_id r = j" "terminal_outcome st = Some (new_state, out, failure, progress)"
    using own [OF that(1)] that(2) by blast
qed

lemma reconcile_each_settled:
  assumes "queue_ok db" and "reconcile_each now pairs db = Inr (repairs, db')"
    and "r \<in> set (jobs db)" "state r \<noteq> JobRunning" and "(job_id r, st) \<in> set pairs"
    and "terminal_outcome st = Some (new_state, out, failure, progress)"
  shows "state r = new_state"
  using assms
proof (induction pairs arbitrary: db repairs)
  case (Cons p pairs)
  obtain j s where p: "p = (j, s)" by force
  with Cons.prems(2) obtain rc db1 rest where one: "reconcile_terminal_job_in_transaction j s now db = Inr (rc, db1)"
    and more: "reconcile_each now pairs db1 = Inr (rest, db')"
    by (auto simp: tx_simps)
  show ?case
  proof (cases "p = (job_id r, st)")
    case True
    with one p have "reconcile_terminal_job_in_transaction (job_id r) st now db = Inr (rc, db1)" by simp
    from reconcile_one_settled(2) [OF Cons.prems(1) this Cons.prems(3,4) refl Cons.prems(6)] show ?thesis .
  next
    case False
    have "queue_ok db1"
      using life.R_keeps [OF tx_refinesD [OF reconcile_refines(2) Cons.prems(1) one] Cons.prems(1)] .
    with Cons.IH [OF _ more reconcile_one_settled(1) [OF Cons.prems(1) one Cons.prems(3,4)] Cons.prems(4)]
      Cons.prems(5,6) False show ?thesis by auto
  qed
qed simp

text \<open>After the sweep of expired leases, a settled job that disagrees with its run stops the reconciliation.\<close>

lemma disagreement_stops:
  assumes ok: "queue_ok db" and first: "recover_expired_in_transaction env ids now db = Inr (rec, db1)"
    and r: "r \<in> set (jobs db)" "state r \<noteq> JobRunning"
    and q: "q \<in> set (crawl_runs db)" "crawl_run_id r = Some (run_id q)"
    and t: "terminal_outcome (run_status q) = Some (new_state, out, failure, progress)" and disagree: "state r \<noteq> new_state"
  shows "\<exists>e. tx_bind (tx_read terminal_run_jobs) (reconcile_each now) db1 = Inl e"
proof (rule ccontr)
  assume "\<not> ?thesis"
  then obtain repairs db2 where each: "reconcile_each now (terminal_run_jobs db1) db1 = Inr (repairs, db2)"
    by (cases "reconcile_each now (terminal_run_jobs db1) db1") (auto simp: tx_bind_def tx_read_def)
  note effect = recover_expired_effect [OF ok first]
  have r1: "r \<in> set (jobs db1)" using effect(2) r by (simp add: overdue_def)
  have q1: "q \<in> set (crawl_runs db1)"
    using tx_refinesD [OF keeping_recovery TrueI first] q(1) t by (auto simp: terminal_kept_def)
  have "run_status q \<in> {RunSucceeded, RunPartialResult, RunFailed, RunCancelled}"
    using t by (cases "run_status q") (simp_all add: terminal_outcome_def)
  then have "(job_id r, run_status q) \<in> set (terminal_run_jobs db1)"
    using r1 q1 q(2) by (force simp: terminal_run_jobs_def run_status_in_def)
  from reconcile_each_settled [OF effect(3) each r1 r(2) this t] disagree show False by simp
qed

section \<open>A resumed run blocks recovery\<close>

definition any_setting :: "'a \<Rightarrow> 'a ResolvedValue" where
  "any_setting v = \<lparr>resolved = v, origin = BuiltInDefault\<rparr>"

definition crawl_settings :: SnapshotOperationalSettings where
  "crawl_settings = \<lparr>max_pages_setting = any_setting 10, max_depth_setting = any_setting 1,
     max_duration_seconds_setting = any_setting 60, concurrency_setting = any_setting 1,
     request_delay_ms_setting = any_setting 0, timeout_ms_setting = any_setting 1000,
     screenshot_setting = any_setting False, asset_download_limit_bytes_setting = any_setting 0,
     retain_artifacts_setting = any_setting False, user_agent_setting = any_setting ''Erabi''\<rparr>"

definition crawl_snapshot :: "string CrawlRunSnapshot" where
  "crawl_snapshot = \<lparr>frozen = \<lparr>run_type = ProductionRun,
       run_configuration = CrawlerVersionConfiguration ''c1'' ''v1'' ''h1'', selected_seed_ids = [],
       run_profile_id = None, settings = crawl_settings,
       robots = audit_respect ''me'' ''now'' ''site'' ''Erabi'' (Some ''v1''), run_actor = ''me'', created_at = ''now''\<rparr>,
     snapshot_hash = replicate 64 CHR ''a'', checkpoint_compatibility_hash = replicate 64 CHR ''b''\<rparr>"

definition crawl_job :: NewJob where
  "crawl_job = sample_job\<lparr>nj_kind := ''PRODUCTION_CRAWL''\<rparr>"

definition lease_of :: "string \<Rightarrow> string \<Rightarrow> int \<Rightarrow> JobLease" where
  "lease_of lid worker t = \<lparr>lease_id = lid, lease_owner = worker, generation = 1, acquired_at = t,
     lease_expires_at = t + 60, heartbeat_at = t\<rparr>"

text \<open>A production run fails, is resumed by a recovery child on the same run, and the child finishes
  the run.\<close>

definition resumed_run :: "string queue_op list" where
  "resumed_run = [
     CreateProductionRun ''r1'' crawl_snapshot crawl_job 0,
     Acquire (\<lambda>j. j) ''l1'' ''a1'' ''w1'' 10 60 True,
     FailTerminalProduction ''e1'' ''j1'' (lease_of ''l1'' ''w1'' 10) 20 HandlerFailed,
     EnqueueActionChild ''j2'' '''' ''j1'' ''RESUME_CHECKPOINT'' 30 SameSourceRun None,
     Acquire (\<lambda>j. j) ''l2'' ''a2'' ''w1'' 40 60 True,
     TransitionRun ''r1'' RunRunning,
     TransitionRun ''r1'' RunSucceeded,
     Succeed ''j2'' (lease_of ''l2'' ''w1'' 40) 50]"

text \<open>
  C28. Start-up recovery is blocked by a single job that disagrees with its run.  After any history, when a
  job is not running and not in the state its terminal run asks for (a failed, cancelled or queued job
  of a run that succeeded, say), \<open>recover_stale_jobs\<close> fails at every time and for every choice of event
  identifiers, and reconciles no job at all: only its first transaction, the sweep of expired leases, is
  kept.  Resuming a failed run leaves such a job behind: the recovery child completes the run, and
  the original job stays failed.
\<close>
theorem resumed_run_blocks_recovery:
  assumes "r \<in> set (jobs (run_ops env ops empty_db))" and "q \<in> set (crawl_runs (run_ops env ops empty_db))"
    and "crawl_run_id r = Some (run_id q)"
    and "terminal_outcome (run_status q) = Some (new_state, out, failure, progress)"
    and "state r \<noteq> JobRunning" and "state r \<noteq> new_state"
  shows "\<exists>e. recover_stale_jobs env' ids now (run_ops env ops empty_db) =
    (Inl e, snd (transaction (tx_bind ensure_queue_invariants (\<lambda>_. recover_expired_in_transaction env' ids now))
              (run_ops env ops empty_db)))"
proof -
  let ?db = "run_ops env ops empty_db"
  let ?sweep = "transaction (tx_bind ensure_queue_invariants (\<lambda>_. recover_expired_in_transaction env' ids now)) ?db"
  obtain x db1 where sweep: "?sweep = (x, db1)" by force
  show ?thesis
  proof (cases x)
    case (Inl e)
    then show ?thesis by (simp add: recover_stale_jobs_def sweep)
  next
    case (Inr rec)
    with sweep have "recover_expired_in_transaction env' ids now ?db = Inr (rec, db1)"
      by (auto simp: transaction_def tx_simps ensure_queue_invariants_def split: sum.splits)
    from disagreement_stops [OF run_ops_queue_ok this assms(1,5,2,3,4,6)] obtain e
      where "tx_bind (tx_read terminal_run_jobs) (reconcile_each now) db1 = Inl e" ..
    then have "reconcile_terminal_crawl_runs ids now db1 = (Inl e, db1)"
      by (simp add: reconcile_terminal_crawl_runs_def transaction_def)
    then show ?thesis by (simp add: recover_stale_jobs_def sweep Inr)
  qed
qed

lemma resumed_run_history:
  "let db = run_ops plain_env resumed_run empty_db in
     map (\<lambda>r. (job_id r, state r, crawl_run_id r)) (jobs db)
       = [(''j1'', JobFailed, Some ''r1''), (''j2'', JobSucceeded, Some ''r1'')]
   \<and> map (\<lambda>q. (run_id q, run_status q)) (crawl_runs db) = [(''r1'', RunSucceeded)]
   \<and> check_invariants db = Inr ()"
  by code_simp

theorem resumed_run_blocks_recovery_witness:
  "\<exists>e db'. recover_stale_jobs plain_env (\<lambda>j. j) 1000 (run_ops plain_env resumed_run empty_db) = (Inl e, db')"
proof -
  let ?db = "run_ops plain_env resumed_run empty_db"
  obtain r rs q where r: "jobs ?db = r # rs" "state r = JobFailed" "crawl_run_id r = Some ''r1''"
    and q: "crawl_runs ?db = [q]" "run_id q = ''r1''" "run_status q = RunSucceeded"
    using resumed_run_history by (auto simp: Let_def map_eq_Cons_conv)
  have "terminal_outcome (run_status q) = Some (JobSucceeded, AttemptSucceeded, None, ProgressSucceeded)"
    by (simp add: q(3) terminal_outcome_def)
  from resumed_run_blocks_recovery [OF _ _ _ this, of r plain_env resumed_run plain_env "\<lambda>j. j" 1000] r q show ?thesis
    by auto
qed

end
