(* ===== verification/Url_Text.thy ===== *)
theory Url_Text
  imports Url_Api Ordered_Map Domain_Base
begin

text \<open>
  Standard-library text functions the URL components call beside those of \<open>Rust_Text\<close>: parsing of
  IP address literals (\<open>str::parse::<IpAddr>\<close>), of 16-bit port numbers, searching for one of several
  bytes and splitting at a multi-byte separator; and \<open>BTreeSet\<close> as a sorted list without
  repetitions, in iteration order.
\<close>

section \<open>Ordered sets\<close>

type_synonym 'a bset = "'a list"

text \<open>\<open>collect::<BTreeSet<_>>()\<close>.\<close>

definition bs_collect :: "'a::linorder list \<Rightarrow> 'a bset" where
  "bs_collect xs = dedup (sort xs)"

lemma set_bs_collect [simp]: "set (bs_collect xs) = set xs"
  by (simp add: bs_collect_def)

lemma bs_collect_Nil_iff [simp]: "bs_collect xs = [] \<longleftrightarrow> xs = []"
  by (metis set_bs_collect set_empty)

lemma bs_collect_canonical: "set xs = set ys \<Longrightarrow> bs_collect xs = bs_collect ys"
  unfolding bs_collect_def by (rule dedup_sort_unique)

section \<open>IP address literals\<close>

text \<open>The parser of \<open>core::net\<close>: each reader returns what it read and the remaining input, or nothing
  when it fails, in which case the caller continues at the position before the attempt.\<close>

type_synonym 'a reader = "string \<Rightarrow> ('a \<times> string) option"

definition to_digit :: "int \<Rightarrow> char \<Rightarrow> int option" where
  "to_digit radix c =
     (let n = (of_char c :: int);
          d = (if is_ascii_digit c then Some (n - 48)
               else if is_ascii_lowercase c then Some (n - 87)
               else if is_ascii_uppercase c then Some (n - 55) else None)
      in case d of None \<Rightarrow> None | Some v \<Rightarrow> if v < radix then Some v else None)"

fun read_digits :: "int \<Rightarrow> nat \<Rightarrow> nat \<Rightarrow> int \<Rightarrow> string \<Rightarrow> (nat \<times> int \<times> string) option" where
  "read_digits radix max_digits cnt acc [] = Some (cnt, acc, [])"
| "read_digits radix max_digits cnt acc (c # s) =
     (case to_digit radix c of
        None \<Rightarrow> Some (cnt, acc, c # s)
      | Some d \<Rightarrow> if Suc cnt > max_digits then None
                 else read_digits radix max_digits (Suc cnt) (acc * radix + d) s)"

definition read_number :: "int \<Rightarrow> nat \<Rightarrow> bool \<Rightarrow> int \<Rightarrow> int reader" where
  "read_number radix max_digits allow_zero_prefix limit s =
     (case read_digits radix max_digits 0 0 s of
        None \<Rightarrow> None
      | Some (cnt, v, rest) \<Rightarrow>
          if cnt = 0 then None
          else if \<not> allow_zero_prefix \<and> hd s = CHR ''0'' \<and> cnt > 1 then None
          else if v < limit then Some (v, rest) else None)"

definition read_separator :: "char \<Rightarrow> nat \<Rightarrow> 'a reader \<Rightarrow> 'a reader" where
  "read_separator sep index inner s =
     (if index > 0 then (case s of c # t \<Rightarrow> if c = sep then inner t else None | [] \<Rightarrow> None) else inner s)"

fun read_octets :: "nat \<Rightarrow> nat \<Rightarrow> int list reader" where
  "read_octets 0 i s = Some ([], s)"
| "read_octets (Suc k) i s =
     (case read_separator (CHR ''.'') i (read_number 10 3 False 256) s of
        None \<Rightarrow> None
      | Some (v, t) \<Rightarrow> map_option (\<lambda>(vs, u). (v # vs, u)) (read_octets k (Suc i) t))"

definition read_ipv4_addr :: "int list reader" where
  "read_ipv4_addr s = read_octets 4 0 s"

text \<open>The first argument of \<open>read_groups\<close> is the number of slots left, the second the index.\<close>

fun read_groups :: "nat \<Rightarrow> nat \<Rightarrow> string \<Rightarrow> int list \<times> bool \<times> string" where
  "read_groups 0 i s = ([], False, s)"
| "read_groups (Suc r) i s =
     (case (if r > 0 then read_separator (CHR '':'') i read_ipv4_addr s else None) of
        Some (o4, t) \<Rightarrow> ([o4 ! 0 * 256 + o4 ! 1, o4 ! 2 * 256 + o4 ! 3], True, t)
      | None \<Rightarrow>
          (case read_separator (CHR '':'') i (read_number 16 4 True 65536) s of
             None \<Rightarrow> ([], False, s)
           | Some (g, t) \<Rightarrow> (case read_groups r (Suc i) t of (gs, v4, u) \<Rightarrow> (g # gs, v4, u))))"

definition read_ipv6_addr :: "int list reader" where
  "read_ipv6_addr s =
     (case read_groups 8 0 s of (head, head_ipv4, t) \<Rightarrow>
        if length head = 8 then Some (head, t)
        else if head_ipv4 then None
        else (case strip_prefix '':'' t of
            None \<Rightarrow> None
          | Some t1 \<Rightarrow> (case strip_prefix '':'' t1 of
              None \<Rightarrow> None
            | Some t2 \<Rightarrow>
                (case read_groups (8 - (length head + 1)) 0 t2 of (tail, _, u) \<Rightarrow>
                   Some (head @ replicate (8 - length head - length tail) 0 @ tail, u)))))"

text \<open>An address is the list of its four octets or eight groups; all of the input must be read.\<close>

definition parse_ip_addr :: "string \<Rightarrow> int list option" where
  "parse_ip_addr s =
     (case (case read_ipv4_addr s of Some r \<Rightarrow> Some r | None \<Rightarrow> read_ipv6_addr s) of
        Some (g, rest) \<Rightarrow> if rest = [] then Some g else None
      | None \<Rightarrow> None)"

lemma read_number_hd:
  "read_number radix m z l s = Some r \<Longrightarrow> s \<noteq> [] \<and> to_digit radix (hd s) \<noteq> None"
  by (cases s) (auto simp: read_number_def split: option.splits)

lemma read_octets_hd:
  assumes "read_octets (Suc k) 0 s = Some r" shows "s \<noteq> [] \<and> to_digit 10 (hd s) \<noteq> None"
  using assms read_number_hd [of 10 3 False 256 s]
  by (auto simp: read_separator_def split: option.splits)

lemma read_ipv4_addr_hd: "read_ipv4_addr s = Some r \<Longrightarrow> s \<noteq> [] \<and> to_digit 10 (hd s) \<noteq> None"
  using read_octets_hd [of 3 s] by (simp add: read_ipv4_addr_def numeral_eq_Suc)

lemma read_groups_hd:
  assumes "read_groups (Suc n) 0 s = (g, v, t)"
  shows "g = [] \<and> t = s \<or> s \<noteq> [] \<and> to_digit 16 (hd s) \<noteq> None"
proof (cases "n > 0 \<and> read_ipv4_addr s \<noteq> None")
  case True
  then have "s \<noteq> []" "to_digit 10 (hd s) \<noteq> None" using read_ipv4_addr_hd by blast+
  then show ?thesis by (auto simp: to_digit_def Let_def split: option.splits if_splits)
next
  case False
  then have "(if n > 0 then read_separator (CHR '':'') 0 read_ipv4_addr s else None) = None"
    by (cases "read_ipv4_addr s") (auto simp: read_separator_def)
  with assms show ?thesis
    using read_number_hd [of 16 4 True 65536 s] by (auto simp: read_separator_def split: option.splits prod.splits)
qed

text \<open>A literal accepted by the parser starts with a digit or a colon, so never with a bracket.\<close>

lemma parse_ip_addr_hd:
  assumes "parse_ip_addr s = Some g" shows "s \<noteq> [] \<and> hd s \<noteq> CHR ''[''"
proof -
  have br: "to_digit radix (CHR ''['') = None" for radix by (simp add: to_digit_def is_ascii_digit_def
      is_ascii_lowercase_def is_ascii_uppercase_def less_eq_char_def)
  show ?thesis
  proof (cases "read_ipv4_addr s")
    case (Some r)
    with read_ipv4_addr_hd [OF this] br show ?thesis by auto
  next
    case None
    with assms obtain r where r: "read_ipv6_addr s = Some r"
      by (auto simp: parse_ip_addr_def split: option.splits)
    obtain h v t where g: "read_groups 8 0 s = (h, v, t)" by (cases "read_groups 8 0 s")
    show ?thesis
    proof (cases "s \<noteq> [] \<and> to_digit 16 (hd s) \<noteq> None")
      case True
      then show ?thesis using br by auto
    next
      case False
      with g read_groups_hd [of 7 s h v t] have "h = []" "t = s" by (auto simp: numeral_eq_Suc)
      with r g show ?thesis
        by (auto simp: read_ipv6_addr_def strip_prefix_Some split: option.splits if_splits)
    qed
  qed
qed

section \<open>Ports, searches and splits\<close>

text \<open>\<open>str::parse::<u16>\<close>.\<close>

definition parse_u16 :: "string \<Rightarrow> u16 option" where
  "parse_u16 s =
     (let digits = (case s of c # t \<Rightarrow> if c = CHR ''+'' then t else s | [] \<Rightarrow> []) in
      if digits = [] \<or> \<not> list_all is_ascii_digit digits then None
      else if int (digits_value 0 digits) < 65536 then Some (of_nat (digits_value 0 digits)) else None)"

text \<open>\<open>str::find\<close> with a set of ASCII characters: the index of the first of them.\<close>

fun find_any :: "char list \<Rightarrow> string \<Rightarrow> nat option" where
  "find_any cs [] = None"
| "find_any cs (x # xs) = (if x \<in> set cs then Some 0 else map_option Suc (find_any cs xs))"

lemma find_any_None: "find_any cs s = None \<longleftrightarrow> set s \<inter> set cs = {}"
  by (induction s) auto

lemma find_any_Some:
  "find_any cs s = Some i \<longleftrightarrow> i < length s \<and> s ! i \<in> set cs \<and> set (take i s) \<inter> set cs = {}"
proof (induction s arbitrary: i)
  case (Cons x s)
  then show ?case by (cases i) auto
qed simp

definition split_once_str :: "string \<Rightarrow> string \<Rightarrow> (string \<times> string) option" where
  "split_once_str p s = map_option (\<lambda>i. (take i s, drop (i + length p) s)) (find_str p s)"

lemma split_once_str_Some: "split_once_str p s = Some (a, b) \<Longrightarrow> s = a @ p @ b"
  by (auto simp: split_once_str_def dest: find_str_Some_split)

end
