(* ===== verification/Domain_Scope.thy ===== *)
theory Domain_Scope
  imports Url_Text
begin

text \<open>
  The Domain Scope policy of a crawler version (\<open>domain_scope.rs\<close>) and the seeds it is evaluated
  against (\<open>seed.rs\<close>): validation of host rules, and classification of a candidate URL as in scope,
  external or blocked.  The URL library and the public suffix list are parameters, gathered in
  \<open>scope_env\<close>; \<open>psl_domain\<close> is the text of \<open>psl::domain\<close>.  The classification is proved equal to a
  statement about host names that mentions neither rule order nor evaluation order.
\<close>

section \<open>Policies\<close>

record 'u Seed =
  seed_id :: SeedId
  original_url :: 'u
  canonical_url :: 'u
  seed_enabled :: bool
  seed_label :: "string option"
  entry_page_type_hint :: "PageTypeId option"

definition new_seed :: "SeedId \<Rightarrow> 'u \<Rightarrow> 'u \<Rightarrow> 'u Seed" where
  "new_seed fresh original canonical =
     \<lparr>seed_id = fresh, original_url = original, canonical_url = canonical, seed_enabled = True,
      seed_label = None, entry_page_type_hint = None\<rparr>"

definition DOMAIN_SCOPE_POLICY_VERSION :: u16 where
  "DOMAIN_SCOPE_POLICY_VERSION = 1"

datatype DomainScopeHostRule = Exact (rule_host: string) | Subdomains (rule_host: string)

text \<open>The derived order: variants in declaration order, then the host.\<close>

fun host_rule_key :: "DomainScopeHostRule \<Rightarrow> nat \<times> string" where
  "host_rule_key (Exact h) = (0, h)"
| "host_rule_key (Subdomains h) = (1, h)"

lemma host_rule_key_inject: "host_rule_key a = host_rule_key b \<longleftrightarrow> a = b"
  by (cases a; cases b) simp_all

instantiation DomainScopeHostRule :: linorder
begin

definition less_eq_DomainScopeHostRule :: "DomainScopeHostRule \<Rightarrow> DomainScopeHostRule \<Rightarrow> bool" where
  "less_eq_DomainScopeHostRule a b \<longleftrightarrow> host_rule_key a \<le> host_rule_key b"

definition less_DomainScopeHostRule :: "DomainScopeHostRule \<Rightarrow> DomainScopeHostRule \<Rightarrow> bool" where
  "less_DomainScopeHostRule a b \<longleftrightarrow> host_rule_key a < host_rule_key b"

instance
  by standard (auto simp: less_eq_DomainScopeHostRule_def less_DomainScopeHostRule_def
      less_le_not_le host_rule_key_inject dest: order.antisym)

end

datatype DomainScopeKind =
    SeedDomainsOnly
  | SameRegistrableDomain "string bset"
  | ExplicitAllowlist "string bset"
  | CustomScope "DomainScopeHostRule bset" "DomainScopeHostRule bset"

record DomainScopePolicy =
  ds_version :: u16
  ds_policy :: DomainScopeKind

definition default_scope :: DomainScopePolicy where
  "default_scope = \<lparr>ds_version = DOMAIN_SCOPE_POLICY_VERSION, ds_policy = SeedDomainsOnly\<rparr>"

datatype DomainScopeRationale =
    SeedHost | RegistrableDomain | ExplicitSubdomain | UnselectedSubdomain
  | ExplicitAllowlistHost | OutsideSeedDomains | OutsideAllowlist | ExplicitBlock
  | CustomAllow | OutsideCustomAllow

datatype DomainScopeClassification =
    InScope string DomainScopeRationale
  | External string DomainScopeRationale
  | Blocked string DomainScopeRationale

record 'u scope_env =
  scope_api :: "'u url_api"
  psl_domain :: "string \<Rightarrow> string option"

section \<open>Hosts\<close>

definition invalid_scope :: "string \<Rightarrow> ProductError" where
  "invalid_scope message = with_code InvalidDomainScope message"

definition invalid_scope_rule :: "string \<Rightarrow> ProductError" where
  "invalid_scope_rule message = with_code InvalidDomainScopeRule message"

definition validate_normalized_host :: "'u scope_env \<Rightarrow> string \<Rightarrow> unit product_result" where
  "validate_normalized_host env host =
     (let invalid = Inl (invalid_scope_rule ''Domain Scope host is invalid''); api = scope_api env in
      if host = [] \<or> any_char is_whitespace host \<or> CHR ''/'' \<in> set host then invalid
      else if parse_ip_addr host \<noteq> None then Inr ()
      else (case url_parse api (''https://'' @ host @ ''/'') of
          None \<Rightarrow> invalid
        | Some parsed \<Rightarrow>
            if url_host_str api parsed = None \<or> url_port api parsed \<noteq> None
               \<or> url_host_str api parsed \<noteq> Some host
            then invalid else Inr ()))"

definition normalize_rule_host :: "'u scope_env \<Rightarrow> string \<Rightarrow> string product_result" where
  "normalize_rule_host env h =
     (let host = to_ascii_lowercase (trim h) in
      res_bind (validate_normalized_host env host) (\<lambda>_. Inr host))"

definition exact_rule :: "'u scope_env \<Rightarrow> string \<Rightarrow> DomainScopeHostRule product_result" where
  "exact_rule env h = res_bind (normalize_rule_host env h) (\<lambda>host. Inr (Exact host))"

definition subdomains_rule :: "'u scope_env \<Rightarrow> string \<Rightarrow> DomainScopeHostRule product_result" where
  "subdomains_rule env h = res_bind (normalize_rule_host env h) (\<lambda>host. Inr (Subdomains host))"

definition host_is_within_root :: "string \<Rightarrow> string \<Rightarrow> bool" where
  "host_is_within_root candidate root \<longleftrightarrow>
     candidate = root \<or>
     (case strip_suffix root candidate of None \<Rightarrow> False | Some rest \<Rightarrow> suffix ''.'' rest)"

fun rule_matches_host :: "DomainScopeHostRule \<Rightarrow> string \<Rightarrow> bool" where
  "rule_matches_host (Exact host) candidate \<longleftrightarrow> candidate = host"
| "rule_matches_host (Subdomains host) candidate \<longleftrightarrow>
     candidate = host \<or>
     (case strip_suffix host candidate of None \<Rightarrow> False | Some rest \<Rightarrow> suffix ''.'' rest)"

definition validate_host_rule :: "'u scope_env \<Rightarrow> DomainScopeHostRule \<Rightarrow> unit product_result" where
  "validate_host_rule env r =
     res_bind (normalize_rule_host env (rule_host r)) (\<lambda>normalized.
       if normalized \<noteq> rule_host r then Inl (invalid_scope_rule ''Domain Scope hosts must be normalized'')
       else Inr ())"

definition registrable_domain :: "'u scope_env \<Rightarrow> string \<Rightarrow> string product_result" where
  "registrable_domain env host =
     (if parse_ip_addr host \<noteq> None \<or> CHR ''.'' \<notin> set host then Inr host
      else ok_or (psl_domain env host)
             (with_code RegistrableDomainUnavailable ''registrable-domain data is unavailable for this host''))"

definition validate_crawl_url :: "'u url_api \<Rightarrow> 'u \<Rightarrow> unit product_result" where
  "validate_crawl_url api u =
     (if \<not> is_http_scheme (url_scheme api u) \<or> url_host_str api u = None \<or> url_username api u \<noteq> []
         \<or> url_password api u \<noteq> None \<or> url_fragment api u \<noteq> None
      then Inl (with_code InvalidUrl ''the URL is not a valid HTTP(S) crawl target'')
      else Inr ())"

definition normalized_url_host :: "'u url_api \<Rightarrow> 'u \<Rightarrow> string product_result" where
  "normalized_url_host api u =
     ok_or (map_option to_ascii_lowercase (url_host_str api u)) (invalid_scope ''the URL host is missing'')"

section \<open>Validation and classification\<close>

definition validate_scope :: "'u scope_env \<Rightarrow> DomainScopePolicy \<Rightarrow> unit product_result" where
  "validate_scope env p =
     (if ds_version p \<noteq> DOMAIN_SCOPE_POLICY_VERSION then
        Inl (invalid_scope ''unsupported Domain Scope policy version'')
      else (case ds_policy p of
          SeedDomainsOnly \<Rightarrow> Inr ()
        | SameRegistrableDomain explicit_subdomains \<Rightarrow>
            for_each (validate_normalized_host env) explicit_subdomains
        | ExplicitAllowlist hosts \<Rightarrow>
            if hosts = [] then Inl (invalid_scope ''Domain Scope allowlist must not be empty'')
            else for_each (validate_normalized_host env) hosts
        | CustomScope allow block \<Rightarrow>
            if allow = [] then Inl (invalid_scope ''custom Domain Scope allow rules must not be empty'')
            else for_each (validate_host_rule env) (allow @ block)))"

definition seed_host :: "'u url_api \<Rightarrow> 'u Seed \<Rightarrow> string product_result" where
  "seed_host api seed =
     res_bind (validate_crawl_url api (canonical_url seed)) (\<lambda>_.
       normalized_url_host api (canonical_url seed))"

definition seed_hosts_of :: "'u url_api \<Rightarrow> 'u Seed list \<Rightarrow> string bset product_result" where
  "seed_hosts_of api seeds =
     res_bind (collect_results (seed_host api) (filter seed_enabled seeds)) (\<lambda>hs. Inr (bs_collect hs))"

definition classify_registrable ::
  "'u scope_env \<Rightarrow> string bset \<Rightarrow> string bset \<Rightarrow> string \<Rightarrow> DomainScopeClassification product_result" where
  "classify_registrable env explicit_subdomains seed_hosts candidate_host =
     (if seed_hosts = [] then Inl (invalid_scope ''Domain Scope requires an enabled seed'')
      else
        res_bind (collect_results (registrable_domain env) seed_hosts) (\<lambda>rs.
        let roots = bs_collect rs in
        res_bind (registrable_domain env candidate_host) (\<lambda>candidate_root.
          Inr (if candidate_host \<in> set explicit_subdomains
                  \<and> list_ex (host_is_within_root candidate_host) roots
               then InScope candidate_host ExplicitSubdomain
               else if candidate_root \<in> set roots \<and> candidate_host = candidate_root
               then InScope candidate_host RegistrableDomain
               else if candidate_host \<in> set seed_hosts then InScope candidate_host SeedHost
               else External candidate_host UnselectedSubdomain))))"

definition classify ::
  "'u scope_env \<Rightarrow> DomainScopePolicy \<Rightarrow> 'u \<Rightarrow> 'u Seed list \<Rightarrow> DomainScopeClassification product_result" where
  "classify env p candidate seeds =
     (let api = scope_api env in
      res_bind (validate_scope env p) (\<lambda>_.
      res_bind (validate_crawl_url api candidate) (\<lambda>_.
      res_bind (normalized_url_host api candidate) (\<lambda>candidate_host.
      res_bind (seed_hosts_of api seeds) (\<lambda>seed_hosts.
        case ds_policy p of
          SeedDomainsOnly \<Rightarrow>
            if seed_hosts = [] then Inl (invalid_scope ''Domain Scope requires an enabled seed'')
            else if candidate_host \<in> set seed_hosts then Inr (InScope candidate_host SeedHost)
            else Inr (External candidate_host OutsideSeedDomains)
        | SameRegistrableDomain explicit_subdomains \<Rightarrow>
            classify_registrable env explicit_subdomains seed_hosts candidate_host
        | ExplicitAllowlist hosts \<Rightarrow>
            if candidate_host \<in> set hosts then Inr (InScope candidate_host ExplicitAllowlistHost)
            else Inr (External candidate_host OutsideAllowlist)
        | CustomScope allow block \<Rightarrow>
            if list_ex (\<lambda>r. rule_matches_host r candidate_host) block
            then Inr (Blocked candidate_host ExplicitBlock)
            else if list_ex (\<lambda>r. rule_matches_host r candidate_host) allow
            then Inr (InScope candidate_host CustomAllow)
            else Inr (External candidate_host OutsideCustomAllow))))))"

section \<open>The contract of a policy\<close>

text \<open>A host lies under a root when it is the root or a name below it, label by label.\<close>

definition under_root :: "string \<Rightarrow> string \<Rightarrow> bool" where
  "under_root root h \<longleftrightarrow> h = root \<or> (\<exists>labels. h = labels @ ''.'' @ root)"

lemma suffix_dot_strip:
  "(case strip_suffix root h of None \<Rightarrow> False | Some rest \<Rightarrow> suffix ''.'' rest)
     \<longleftrightarrow> (\<exists>labels. h = labels @ ''.'' @ root)"
proof (cases "strip_suffix root h")
  case None
  then have "\<not> suffix root h" by (simp add: strip_suffix_def split: if_splits)
  with None show ?thesis by (auto simp: suffix_def)
next
  case (Some rest)
  then have h: "h = rest @ root" by (simp only: strip_suffix_Some)
  show ?thesis unfolding Some option.case by (auto simp: h suffix_def)
qed

lemma host_is_within_root_iff: "host_is_within_root h root \<longleftrightarrow> under_root root h"
  unfolding host_is_within_root_def under_root_def suffix_dot_strip ..

fun rule_covers :: "DomainScopeHostRule \<Rightarrow> string \<Rightarrow> bool" where
  "rule_covers (Exact host) h \<longleftrightarrow> h = host"
| "rule_covers (Subdomains host) h \<longleftrightarrow> under_root host h"

lemma rule_matches_host_iff: "rule_matches_host r h \<longleftrightarrow> rule_covers r h"
  by (cases r) (simp_all only: rule_matches_host.simps rule_covers.simps suffix_dot_strip under_root_def)

text \<open>A URL the crawler may visit, and its host name.\<close>

definition crawlable :: "'u url_api \<Rightarrow> 'u \<Rightarrow> string \<Rightarrow> bool" where
  "crawlable api u h \<longleftrightarrow>
     is_http_scheme (url_scheme api u) \<and> url_username api u = [] \<and> url_password api u = None
     \<and> url_fragment api u = None \<and> map_option to_ascii_lowercase (url_host_str api u) = Some h"

lemma crawl_host_iff:
  "res_bind (validate_crawl_url api u) (\<lambda>_. normalized_url_host api u) = Inr h \<longleftrightarrow> crawlable api u h"
  by (auto simp: validate_crawl_url_def normalized_url_host_def crawlable_def result_simps)

definition enabled_hosts :: "'u url_api \<Rightarrow> 'u Seed list \<Rightarrow> string set" where
  "enabled_hosts api seeds = {h. \<exists>s \<in> set seeds. seed_enabled s \<and> crawlable api (canonical_url s) h}"

definition seeds_crawlable :: "'u url_api \<Rightarrow> 'u Seed list \<Rightarrow> bool" where
  "seeds_crawlable api seeds \<longleftrightarrow> (\<forall>s \<in> set seeds. seed_enabled s \<longrightarrow> (\<exists>h. crawlable api (canonical_url s) h))"

lemma seed_host_iff: "seed_host api s = Inr h \<longleftrightarrow> crawlable api (canonical_url s) h"
  unfolding seed_host_def by (rule crawl_host_iff)

lemma seed_hosts_of_Inr:
  "seed_hosts_of api seeds = Inr hs \<Longrightarrow> seeds_crawlable api seeds \<and> set hs = enabled_hosts api seeds"
proof -
  assume "seed_hosts_of api seeds = Inr hs"
  then obtain ys where ys: "collect_results (seed_host api) (filter seed_enabled seeds) = Inr ys"
    and hs: "hs = bs_collect ys" by (auto simp: seed_hosts_of_def result_simps)
  from ys have "\<forall>s \<in> set (filter seed_enabled seeds). \<exists>h. seed_host api s = Inr h"
    by (intro collect_results_Inr_iff [THEN iffD1] exI)
  moreover from collect_results_set [OF ys] hs have "set hs = enabled_hosts api seeds"
    by (auto simp: enabled_hosts_def seed_host_iff)
  ultimately show ?thesis by (auto simp: seeds_crawlable_def seed_host_iff)
qed

lemma seed_hosts_of_total: "seeds_crawlable api seeds \<Longrightarrow> \<exists>hs. seed_hosts_of api seeds = Inr hs"
proof -
  assume "seeds_crawlable api seeds"
  then have "\<forall>s \<in> set (filter seed_enabled seeds). \<exists>h. seed_host api s = Inr h"
    by (auto simp: seeds_crawlable_def seed_host_iff)
  then obtain ys where "collect_results (seed_host api) (filter seed_enabled seeds) = Inr ys"
    by (auto simp only: collect_results_Inr_iff [symmetric])
  then show ?thesis by (simp add: seed_hosts_of_def)
qed

text \<open>The hosts a policy admits, given the hosts of the enabled seeds.\<close>

fun scope_admits :: "'u scope_env \<Rightarrow> DomainScopeKind \<Rightarrow> string set \<Rightarrow> string \<Rightarrow> bool" where
  "scope_admits env SeedDomainsOnly sh h \<longleftrightarrow> h \<in> sh"
| "scope_admits env (SameRegistrableDomain ex) sh h \<longleftrightarrow>
     sh \<noteq> {} \<and> (\<forall>s \<in> sh. \<exists>r. registrable_domain env s = Inr r) \<and> (\<exists>r. registrable_domain env h = Inr r)
     \<and> (h \<in> sh
        \<or> (\<exists>s \<in> sh. \<exists>r. registrable_domain env s = Inr r
             \<and> (h = r \<and> registrable_domain env h = Inr h \<or> h \<in> set ex \<and> under_root r h)))"
| "scope_admits env (ExplicitAllowlist hosts) sh h \<longleftrightarrow> h \<in> set hosts"
| "scope_admits env (CustomScope allow block) sh h \<longleftrightarrow>
     (\<exists>r \<in> set allow. rule_covers r h) \<and> \<not> (\<exists>r \<in> set block. rule_covers r h)"

text \<open>Whether a policy can decide about a host at all, and the hosts it blocks.\<close>

fun scope_decides :: "'u scope_env \<Rightarrow> DomainScopeKind \<Rightarrow> string set \<Rightarrow> string \<Rightarrow> bool" where
  "scope_decides env SeedDomainsOnly sh h \<longleftrightarrow> sh \<noteq> {}"
| "scope_decides env (SameRegistrableDomain ex) sh h \<longleftrightarrow>
     sh \<noteq> {} \<and> (\<forall>s \<in> sh. \<exists>r. registrable_domain env s = Inr r) \<and> (\<exists>r. registrable_domain env h = Inr r)"
| "scope_decides env (ExplicitAllowlist hosts) sh h \<longleftrightarrow> True"
| "scope_decides env (CustomScope allow block) sh h \<longleftrightarrow> True"

fun scope_blocks :: "DomainScopeKind \<Rightarrow> string \<Rightarrow> bool" where
  "scope_blocks (CustomScope allow block) h \<longleftrightarrow> (\<exists>r \<in> set block. rule_covers r h)"
| "scope_blocks _ h \<longleftrightarrow> False"

text \<open>What a classification says, without its rationale.\<close>

fun verdict :: "'u scope_env \<Rightarrow> DomainScopeKind \<Rightarrow> string set \<Rightarrow> string \<Rightarrow> DomainScopeClassification \<Rightarrow> bool" where
  "verdict env k sh h (InScope h' r) \<longleftrightarrow> h' = h \<and> scope_admits env k sh h"
| "verdict env k sh h (Blocked h' r) \<longleftrightarrow> h' = h \<and> scope_blocks k h"
| "verdict env k sh h (External h' r) \<longleftrightarrow> h' = h \<and> \<not> scope_admits env k sh h \<and> \<not> scope_blocks k h"

lemma classify_registrable_verdict:
  "case classify_registrable env ex hs h of
     Inl e \<Rightarrow> \<not> scope_decides env (SameRegistrableDomain ex) (set hs) h
   | Inr c \<Rightarrow> scope_decides env (SameRegistrableDomain ex) (set hs) h
       \<and> verdict env (SameRegistrableDomain ex) (set hs) h c"
proof (cases "hs = [] \<or> (\<exists>s \<in> set hs. \<forall>r. registrable_domain env s \<noteq> Inr r) \<or> (\<forall>r. registrable_domain env h \<noteq> Inr r)")
  case True
  then consider "hs = []" | s where "s \<in> set hs" "\<forall>r. registrable_domain env s \<noteq> Inr r"
    | "\<forall>r. registrable_domain env h \<noteq> Inr r" by blast
  then show ?thesis
  proof cases
    case 2
    then have "\<nexists>ys. collect_results (registrable_domain env) hs = Inr ys"
      unfolding collect_results_Inr_iff by blast
    with 2 show ?thesis by (auto simp: classify_registrable_def result_simps split: sum.splits)
  qed (auto simp: classify_registrable_def result_simps Let_def split: sum.splits)
next
  case False
  then obtain ys root where ys: "collect_results (registrable_domain env) hs = Inr ys"
    and root: "registrable_domain env h = Inr root"
    by (auto simp only: de_Morgan_disj not_all not_ex not_not bex_simps ball_simps
        collect_results_Inr_iff [symmetric])
  from collect_results_set [OF ys]
  have mem: "r \<in> set ys \<longleftrightarrow> (\<exists>s \<in> set hs. registrable_domain env s = Inr r)" for r by auto
  show ?thesis
    using False root
    by (auto simp: classify_registrable_def ys Let_def mem host_is_within_root_iff list_ex_iff Bex_def)
qed

lemma classify_verdict:
  assumes "validate_scope env p = Inr ()" "crawlable (scope_api env) u h" "seeds_crawlable (scope_api env) seeds"
  shows "case classify env p u seeds of
     Inl e \<Rightarrow> \<not> scope_decides env (ds_policy p) (enabled_hosts (scope_api env) seeds) h
   | Inr c \<Rightarrow> scope_decides env (ds_policy p) (enabled_hosts (scope_api env) seeds) h
       \<and> verdict env (ds_policy p) (enabled_hosts (scope_api env) seeds) h c"
proof -
  from seed_hosts_of_total [OF assms(3)] obtain hs where hs: "seed_hosts_of (scope_api env) seeds = Inr hs" ..
  with seed_hosts_of_Inr have sh: "enabled_hosts (scope_api env) seeds = set hs" by metis
  from assms(2) have c: "validate_crawl_url (scope_api env) u = Inr ()" "normalized_url_host (scope_api env) u = Inr h"
    unfolding crawl_host_iff [symmetric] by (auto simp: result_simps)
  show ?thesis
  proof (cases "ds_policy p")
    case (SameRegistrableDomain ex)
    have "classify env p u seeds = classify_registrable env ex hs h"
      by (simp add: classify_def Let_def assms(1) c hs SameRegistrableDomain)
    with classify_registrable_verdict [of env ex hs h] show ?thesis unfolding SameRegistrableDomain sh by simp
  qed (auto simp: classify_def Let_def assms(1) c hs sh list_ex_iff rule_matches_host_iff)
qed

lemma classify_requires:
  assumes "classify env p u seeds = Inr c"
  shows "validate_scope env p = Inr ()" "\<exists>h. crawlable (scope_api env) u h" "seeds_crawlable (scope_api env) seeds"
proof -
  from assms obtain hs h where "validate_scope env p = Inr ()" "validate_crawl_url (scope_api env) u = Inr ()"
    "normalized_url_host (scope_api env) u = Inr h" "seed_hosts_of (scope_api env) seeds = Inr hs"
    by (auto simp: classify_def Let_def result_simps)
  then show "validate_scope env p = Inr ()" "\<exists>h. crawlable (scope_api env) u h" "seeds_crawlable (scope_api env) seeds"
    using seed_hosts_of_Inr [of "scope_api env" seeds hs] crawl_host_iff [of "scope_api env" u h] by auto
qed

text \<open>The policy is valid, the candidate and the enabled seeds are crawlable, and the policy can decide.\<close>

definition scope_applies :: "'u scope_env \<Rightarrow> DomainScopePolicy \<Rightarrow> 'u \<Rightarrow> 'u Seed list \<Rightarrow> string \<Rightarrow> bool" where
  "scope_applies env p u seeds h \<longleftrightarrow>
     validate_scope env p = Inr () \<and> crawlable (scope_api env) u h \<and> seeds_crawlable (scope_api env) seeds
     \<and> scope_decides env (ds_policy p) (enabled_hosts (scope_api env) seeds) h"

lemma classify_cases:
  "case classify env p u seeds of
     Inl e \<Rightarrow> \<forall>h. \<not> scope_applies env p u seeds h
   | Inr c \<Rightarrow> \<exists>h. scope_applies env p u seeds h
       \<and> verdict env (ds_policy p) (enabled_hosts (scope_api env) seeds) h c"
proof (cases "classify env p u seeds")
  case (Inl e)
  then show ?thesis using classify_verdict [of env p u _ seeds] by (auto simp: scope_applies_def split: sum.splits)
next
  case (Inr c)
  from classify_requires [OF this] Inr classify_verdict [of env p u _ seeds] show ?thesis
    by (fastforce simp: scope_applies_def)
qed

lemma scope_applies_host: "scope_applies env p u seeds h \<Longrightarrow> scope_applies env p u seeds h' \<Longrightarrow> h' = h"
  by (auto simp: scope_applies_def crawlable_def)

lemma admitted_not_blocked: "scope_admits env k sh h \<Longrightarrow> \<not> scope_blocks k h"
  by (cases k) auto

text \<open>
  C36. A candidate URL is classified exactly by its host.  The policy applies to it when the policy is
  valid, the candidate and every enabled seed are HTTP(S) URLs without credentials and fragment, and the
  policy can decide: seeds-only and registrable-domain policies need an enabled seed, the latter also the
  registrable domain of every seed and of the candidate.  Where it applies, the candidate is blocked when a
  block rule covers its host, whatever the allow rules say; in scope when the policy admits its host (a seed
  host; the registrable domain of a seed or a listed host below one; a listed host; or a host covered by
  an allow rule and by no block rule); and external otherwise.  Where it does not apply the
  classification is an error.  A subdomain rule covers its root and the names below it label by label,
  never a name that only ends in the same letters.
\<close>
theorem classify_admits_exactly:
  "let applies = scope_applies env p u seeds;
       admits = scope_admits env (ds_policy p) (enabled_hosts (scope_api env) seeds);
       blocks = scope_blocks (ds_policy p) in
     ((\<exists>r. classify env p u seeds = Inr (InScope h r)) \<longleftrightarrow> applies h \<and> admits h)
   \<and> ((\<exists>r. classify env p u seeds = Inr (Blocked h r)) \<longleftrightarrow> applies h \<and> blocks h)
   \<and> ((\<exists>r. classify env p u seeds = Inr (External h r)) \<longleftrightarrow> applies h \<and> \<not> admits h \<and> \<not> blocks h)
   \<and> ((\<exists>e. classify env p u seeds = Inl e) \<longleftrightarrow> (\<nexists>h. applies h))"
proof (cases "classify env p u seeds")
  case (Inl e)
  then show ?thesis using classify_cases [of env p u seeds] by (simp add: Let_def)
next
  case (Inr c)
  with classify_cases [of env p u seeds] obtain h' where h': "scope_applies env p u seeds h'"
    "verdict env (ds_policy p) (enabled_hosts (scope_api env) seeds) h' c" by auto
  then have only: "scope_applies env p u seeds h \<longleftrightarrow> h = h'" by (blast dest: scope_applies_host)
  show ?thesis using Inr h' admitted_not_blocked [of env "ds_policy p" _ h']
    by (cases c) (auto simp: Let_def only)
qed

section \<open>Host rules\<close>

lemma trim_no_whitespace: "\<not> any_char is_whitespace s \<Longrightarrow> trim s = s"
proof -
  assume "\<not> any_char is_whitespace s"
  then have a: "\<forall>c \<in> set (chars_of s). \<not> is_whitespace c" by (simp add: any_char_def list_ex_iff)
  have d: "dropWhile is_whitespace cs = cs" if "\<forall>c \<in> set cs. \<not> is_whitespace c" for cs
    using that by (cases cs) auto
  show ?thesis using a by (simp add: trim_def d)
qed

lemma validate_normalized_host_trim:
  "validate_normalized_host env h = Inr () \<Longrightarrow> trim h = h"
  by (rule trim_no_whitespace) (auto simp: validate_normalized_host_def Let_def split: if_splits)

text \<open>A rule built by a constructor passes the validation of stored rules.\<close>

lemma constructed_rule_valid:
  "exact_rule env h = Inr r \<or> subdomains_rule env h = Inr r \<Longrightarrow> validate_host_rule env r = Inr ()"
  using validate_normalized_host_trim [of env "to_ascii_lowercase (trim h)"]
  by (auto simp: exact_rule_def subdomains_rule_def validate_host_rule_def normalize_rule_host_def
      result_simps Let_def)

lemma lower_colon: "CHR '':'' \<in> set (to_ascii_lowercase s) \<longleftrightarrow> CHR '':'' \<in> set s"
proof -
  have colon: "CHR '':'' = ascii_lower c \<longleftrightarrow> c = CHR '':''" for c
  proof (cases "is_ascii_uppercase c")
    case True
    then have "65 \<le> (of_char c :: nat)" "of_char c \<le> (90 :: nat)"
      by (auto simp: is_ascii_uppercase_def less_eq_char_def)
    moreover from this have "(of_char (ascii_lower c) :: nat) = of_char c + 32"
      using True by (simp add: ascii_lower_def of_char_of take_bit_eq_mod)
    ultimately have "of_char (ascii_lower c) \<noteq> (of_char (CHR '':'') :: nat)" "of_char c \<noteq> (of_char (CHR '':'') :: nat)"
      by simp_all
    then show ?thesis by metis
  qed (auto simp: ascii_lower_def)
  show ?thesis unfolding to_ascii_lowercase_def set_map image_iff colon by simp
qed

lemma lower_bracket: "s \<noteq> [] \<Longrightarrow> hd s = CHR ''['' \<Longrightarrow> hd (to_ascii_lowercase s) = CHR ''[''"
  by (cases s) (auto simp: to_ascii_lowercase_def ascii_lower_def is_ascii_uppercase_def less_eq_char_def)

text \<open>
  A bare IPv6 literal is accepted as an allowlist host but can never be in scope: the URL library
  reports an IPv6 host between brackets, so no candidate host equals the listed literal.  The
  hypothesis is that documented form of \<open>host_str\<close>.
\<close>
theorem bare_ipv6_allowlist_never_matches:
  assumes brackets: "\<And>u h. url_host_str (scope_api env) u = Some h \<Longrightarrow> CHR '':'' \<in> set h \<Longrightarrow> hd h = CHR ''[''"
    and literal: "parse_ip_addr host \<noteq> None" "CHR '':'' \<in> set host"
      "\<not> any_char is_whitespace host" "CHR ''/'' \<notin> set host"
  shows "validate_scope env \<lparr>ds_version = DOMAIN_SCOPE_POLICY_VERSION, ds_policy = ExplicitAllowlist [host]\<rparr> = Inr ()
    \<and> classify env \<lparr>ds_version = DOMAIN_SCOPE_POLICY_VERSION, ds_policy = ExplicitAllowlist [host]\<rparr> u seeds
        \<noteq> Inr (InScope h r)"
proof
  from literal obtain g where g: "parse_ip_addr host = Some g" by blast
  note hd_ok = parse_ip_addr_hd [OF g]
  show "validate_scope env \<lparr>ds_version = DOMAIN_SCOPE_POLICY_VERSION, ds_policy = ExplicitAllowlist [host]\<rparr> = Inr ()"
    using hd_ok literal by (simp add: validate_scope_def validate_normalized_host_def)
  have "to_ascii_lowercase x \<noteq> host" if x: "url_host_str (scope_api env) u = Some x" for x
  proof
    assume e: "to_ascii_lowercase x = host"
    then have "CHR '':'' \<in> set x" using literal(2) lower_colon [of x] by simp
    with brackets [OF x] have "x \<noteq> []" "hd x = CHR ''[''" by auto
    with lower_bracket [of x] e hd_ok show False by simp
  qed
  then show "classify env \<lparr>ds_version = DOMAIN_SCOPE_POLICY_VERSION, ds_policy = ExplicitAllowlist [host]\<rparr> u seeds
        \<noteq> Inr (InScope h r)"
    by (auto simp: classify_def Let_def result_simps normalized_url_host_def split: if_splits)
qed

text \<open>An instance of the URL library that reports IPv6 hosts between brackets.\<close>

definition bracket_env :: "plain_url scope_env" where
  "bracket_env = \<lparr>scope_api = plain_api\<lparr>url_host_str := (\<lambda>u. case pu_host u of
       Some (HostDomain d) \<Rightarrow> if CHR '':'' \<in> set d then None else Some d
     | Some (HostIpv6 a) \<Rightarrow> Some ''[::1]'' | _ \<Rightarrow> None)\<rparr>, psl_domain = Some\<rparr>"

theorem bare_ipv6_allowlist_never_matches_witness:
  "classify bracket_env \<lparr>ds_version = DOMAIN_SCOPE_POLICY_VERSION, ds_policy = ExplicitAllowlist [''::1'']\<rparr>
     ((plain_https ''a'' ''/'')\<lparr>pu_host := Some (HostIpv6 (Ipv6Addr 0 0 0 0 0 0 0 1))\<rparr>) []
     \<noteq> Inr (InScope ''[::1]'' ExplicitAllowlistHost)"
proof (rule bare_ipv6_allowlist_never_matches [THEN conjunct2])
  show "parse_ip_addr ''::1'' \<noteq> None" by code_simp
  show "\<not> any_char is_whitespace ''::1''" by code_simp
qed (auto simp: bracket_env_def split: option.splits url_host.splits if_splits)

end
