(* ===== verification/Canonicalization.thy ===== *)
theory Canonicalization
  imports Url_Text
begin

text \<open>
  URL canonicalisation (\<open>canonicalization.rs\<close>): the policy and its validation, the helpers that
  read the original text, the query rewriting, and \<open>canonicalize\<close> with its recorded decisions.
  The URL library is the record of \<open>Url_Api\<close>; \<open>form_first_key\<close> is the decoded key of the first
  pair \<open>form_urlencoded::parse\<close> yields.  Each phase of \<open>canonicalize\<close> is a definition on the URL and
  the decisions so far, in the order of the code.
\<close>

section \<open>Policies\<close>

definition CANONICALIZATION_POLICY_VERSION :: u16 where
  "CANONICALIZATION_POLICY_VERSION = 1"

record CanonicalizationPolicy =
  cp_version :: u16
  explicit_keep_parameters :: "string bset"
  explicit_drop_parameters :: "string bset"

definition default_canonicalization :: CanonicalizationPolicy where
  "default_canonicalization = \<lparr>cp_version = CANONICALIZATION_POLICY_VERSION,
     explicit_keep_parameters = [], explicit_drop_parameters = []\<rparr>"

datatype CanonicalizationDecision =
    SchemeNormalized | HostNormalized | DefaultPortRemoved | FragmentRemoved | PathNormalized
  | QuerySorted
  | TrackingParameterRemoved string
  | CustomParameterDropped string
  | ExplicitParameterKept string

record 'u CanonicalizationResult =
  res_original_url :: string
  res_canonical_url :: 'u
  decisions :: "CanonicalizationDecision list"

definition invalid_policy :: "string \<Rightarrow> ProductError" where
  "invalid_policy message = with_code InvalidCanonicalizationPolicy message"

definition valid_parameter_name :: "string \<Rightarrow> bool" where
  "valid_parameter_name parameter \<longleftrightarrow>
     parameter \<noteq> [] \<and>
     list_all (\<lambda>c. \<not> is_control c \<and> c \<notin> {''&'', ''='', ''#''}) (chars_of parameter)"

definition validate_canonicalization :: "CanonicalizationPolicy \<Rightarrow> unit product_result" where
  "validate_canonicalization p =
     (if cp_version p \<noteq> CANONICALIZATION_POLICY_VERSION then
        Inl (invalid_policy ''unsupported canonicalization policy version'')
      else res_bind
        (for_each (\<lambda>parameter. if \<not> valid_parameter_name parameter
                               then Inl (invalid_policy ''canonicalization parameter rule is invalid'')
                               else Inr ())
           (explicit_keep_parameters p @ explicit_drop_parameters p)) (\<lambda>_.
        if list_ex (\<lambda>k. k \<in> set (explicit_drop_parameters p)) (explicit_keep_parameters p)
        then Inl (invalid_policy ''canonicalization KEEP and DROP rules overlap'')
        else Inr ()))"

definition new_canonicalization ::
  "string bset \<Rightarrow> string bset \<Rightarrow> CanonicalizationPolicy product_result" where
  "new_canonicalization keep drops =
     (let policy = \<lparr>cp_version = CANONICALIZATION_POLICY_VERSION,
        explicit_keep_parameters = keep, explicit_drop_parameters = drops\<rparr> in
      res_bind (validate_canonicalization policy) (\<lambda>_. Inr policy))"

definition is_default_tracking_parameter :: "string \<Rightarrow> bool" where
  "is_default_tracking_parameter parameter \<longleftrightarrow>
     prefix ''utm_'' parameter \<or> parameter = ''fbclid'' \<or> parameter = ''gclid''"

section \<open>Reading the original text\<close>

definition original_scheme :: "string \<Rightarrow> string option" where
  "original_scheme original = map_option fst (split_once_str ''://'' original)"

definition original_authority :: "string \<Rightarrow> string option" where
  "original_authority original =
     map_option (\<lambda>(_, authority). case find_any ''/?#'' authority of
        None \<Rightarrow> authority | Some end_index \<Rightarrow> take end_index authority) (split_once_str ''://'' original)"

definition original_path_is_empty :: "string \<Rightarrow> bool" where
  "original_path_is_empty original =
     (case split_once_str ''://'' original of
        None \<Rightarrow> False
      | Some (_, authority_and_path) \<Rightarrow>
          (case find_any ''/?#'' authority_and_path of
             None \<Rightarrow> True
           | Some path_start \<Rightarrow> \<not> prefix ''/'' (drop path_start authority_and_path)))"

definition without_userinfo :: "string \<Rightarrow> string" where
  "without_userinfo authority =
     (case rsplit_once (CHR ''@'') authority of None \<Rightarrow> authority | Some (_, host) \<Rightarrow> host)"

text \<open>\<open>str::get(a..b)\<close> is nothing when the range is out of bounds or cuts a character.\<close>

definition char_boundary :: "string \<Rightarrow> nat \<Rightarrow> bool" where
  "char_boundary s i \<longleftrightarrow> i = length s \<or> i < length s \<and> \<not> is_cont_byte (s ! i)"

definition str_get :: "nat \<Rightarrow> nat \<Rightarrow> string \<Rightarrow> string option" where
  "str_get a b s =
     (if a \<le> b \<and> char_boundary s a \<and> char_boundary s b then Some (take (b - a) (drop a s)) else None)"

definition original_host :: "string \<Rightarrow> string option" where
  "original_host original =
     (case original_authority original of
        None \<Rightarrow> None
      | Some a \<Rightarrow>
          (let authority = without_userinfo a in
           case find_any '']'' authority of
             Some end_index \<Rightarrow> str_get 1 end_index authority
           | None \<Rightarrow>
               (case rsplit_once (CHR '':'') authority of
                  None \<Rightarrow> Some authority
                | Some (host, port) \<Rightarrow> map_option (\<lambda>_. host) (parse_u16 port))))"

definition original_default_port :: "string \<Rightarrow> string \<Rightarrow> bool" where
  "original_default_port original scheme =
     (case original_authority original of
        None \<Rightarrow> False
      | Some a \<Rightarrow>
          (let authority = without_userinfo a;
               port = (case find_any '']'' authority of
                    Some end_index \<Rightarrow>
                      Option.bind (str_get (end_index + 1) (length authority) authority) (strip_prefix '':'')
                  | None \<Rightarrow> map_option snd (rsplit_once (CHR '':'') authority));
               number = Option.bind port parse_u16
           in scheme = ''http'' \<and> number = Some 80 \<or> scheme = ''https'' \<and> number = Some 443))"

section \<open>The query\<close>

record RawQueryPair =
  raw :: string
  parameter :: string

definition new_pair :: "'u url_api \<Rightarrow> string \<Rightarrow> RawQueryPair" where
  "new_pair api text =
     \<lparr>raw = text,
      parameter = (case form_first_key api text of
         None \<Rightarrow> hd (split_char (CHR ''='') text) | Some key \<Rightarrow> key)\<rparr>"

definition pair_sort_key :: "RawQueryPair \<Rightarrow> string \<times> string" where
  "pair_sort_key p = (parameter p, raw p)"

fun retain_pairs ::
  "CanonicalizationPolicy \<Rightarrow> RawQueryPair list \<Rightarrow> CanonicalizationDecision list \<times> string list" where
  "retain_pairs policy [] = ([], [])"
| "retain_pairs policy (p # ps) =
     (case retain_pairs policy ps of (ds, retained) \<Rightarrow>
        if parameter p \<in> set (explicit_keep_parameters policy)
        then (ExplicitParameterKept (parameter p) # ds, raw p # retained)
        else if parameter p \<in> set (explicit_drop_parameters policy)
        then (CustomParameterDropped (parameter p) # ds, retained)
        else if is_default_tracking_parameter (parameter p)
        then (TrackingParameterRemoved (parameter p) # ds, retained)
        else (ds, raw p # retained))"

definition canonical_query ::
  "'u url_api \<Rightarrow> CanonicalizationPolicy \<Rightarrow> string option
    \<Rightarrow> string option \<times> CanonicalizationDecision list" where
  "canonical_query api policy query =
     (let raw_query = (case query of None \<Rightarrow> [] | Some q \<Rightarrow> q);
          original_pairs = map (new_pair api) (split_char (CHR ''&'') raw_query);
          sorted_pairs = sort_key pair_sort_key original_pairs;
          sorting = (if sorted_pairs \<noteq> original_pairs then [QuerySorted] else []);
          (ds, retained) = retain_pairs policy sorted_pairs;
          result = (if query = None \<or> raw_query = [] \<and> retained = [] then None
                    else if retained = [] then None
                    else Some (join_char (CHR ''&'') retained))
      in (result, sorting @ ds))"

section \<open>Canonicalisation\<close>

definition normalize_scheme ::
  "'u url_api \<Rightarrow> string \<Rightarrow> 'u \<Rightarrow> ('u \<times> CanonicalizationDecision list) product_result" where
  "normalize_scheme api original url =
     (let scheme = to_ascii_lowercase (url_scheme api url) in
      if (case original_scheme original of None \<Rightarrow> False | Some s \<Rightarrow> s \<noteq> scheme)
      then res_bind (ok_or (url_set_scheme api scheme url) (with_code InvalidUrl ''the URL scheme is invalid''))
             (\<lambda>u. Inr (u, [SchemeNormalized]))
      else Inr (url, []))"

definition normalize_host ::
  "'u url_api \<Rightarrow> string \<Rightarrow> 'u \<Rightarrow> ('u \<times> CanonicalizationDecision list) product_result" where
  "normalize_host api original url =
     res_bind (ok_or (url_host_str api url) (with_code InvalidUrl ''the URL host is missing'')) (\<lambda>host.
       let normalized_host = to_ascii_lowercase host in
       if normalized_host \<noteq> host
          \<or> (case original_host original of None \<Rightarrow> False | Some h \<Rightarrow> list_ex is_ascii_uppercase h)
       then res_bind (ok_or (url_set_host api normalized_host url) (with_code InvalidUrl ''the URL host is invalid''))
              (\<lambda>u. Inr (u, [HostNormalized]))
       else Inr (url, []))"

definition remove_default_port ::
  "'u url_api \<Rightarrow> string \<Rightarrow> string \<Rightarrow> 'u \<Rightarrow> ('u \<times> CanonicalizationDecision list) product_result" where
  "remove_default_port api original scheme url =
     (if original_default_port original scheme
         \<or> url_scheme api url = ''http'' \<and> url_port api url = Some 80
         \<or> url_scheme api url = ''https'' \<and> url_port api url = Some 443
      then res_bind
             (if url_port api url \<noteq> None
              then ok_or (url_clear_port api url) (with_code InvalidUrl ''the URL port is invalid'')
              else Inr url)
             (\<lambda>u. Inr (u, [DefaultPortRemoved]))
      else Inr (url, []))"

definition remove_fragment :: "'u url_api \<Rightarrow> 'u \<Rightarrow> 'u \<times> CanonicalizationDecision list" where
  "remove_fragment api url =
     (if url_fragment api url \<noteq> None then (url_clear_fragment api url, [FragmentRemoved]) else (url, []))"

definition normalize_root_path :: "'u url_api \<Rightarrow> string \<Rightarrow> 'u \<Rightarrow> 'u \<times> CanonicalizationDecision list" where
  "normalize_root_path api original url =
     (if url_path api url = [] \<or> original_path_is_empty original
      then ((if url_path api url = [] then url_set_path api ''/'' url else url), [PathNormalized])
      else (url, []))"

definition canonicalize ::
  "'u url_api \<Rightarrow> CanonicalizationPolicy \<Rightarrow> string \<Rightarrow> 'u CanonicalizationResult product_result" where
  "canonicalize api policy original =
     res_bind (validate_canonicalization policy) (\<lambda>_.
     res_bind (ok_or (url_parse api original) (with_code InvalidUrl ''the URL is invalid'')) (\<lambda>u0.
     if \<not> is_http_scheme (url_scheme api u0) then
       Inl (with_code UnsupportedUrlScheme ''only HTTP and HTTPS URLs are supported'')
     else if url_host_str api u0 = None \<or> url_username api u0 \<noteq> [] \<or> url_password api u0 \<noteq> None then
       Inl (with_code InvalidUrl ''the URL is not a valid crawl target'')
     else
       let scheme = to_ascii_lowercase (url_scheme api u0) in
       res_bind (normalize_scheme api original u0) (\<lambda>(u1, d1).
       res_bind (normalize_host api original u1) (\<lambda>(u2, d2).
       res_bind (remove_default_port api original scheme u2) (\<lambda>(u3, d3).
       let (u4, d4) = remove_fragment api u3;
           (u5, d5) = normalize_root_path api original u4;
           (query, d6) = canonical_query api policy (url_query api u5)
       in Inr \<lparr>res_original_url = original, res_canonical_url = url_set_query api query u5,
               decisions = d1 @ d2 @ d3 @ d4 @ d5 @ d6\<rparr>)))))"

section \<open>What the query rewriting does\<close>

text \<open>A parameter survives when it is explicitly kept, or neither dropped nor a tracking parameter.\<close>

definition retained_parameter :: "CanonicalizationPolicy \<Rightarrow> string \<Rightarrow> bool" where
  "retained_parameter policy k \<longleftrightarrow>
     k \<in> set (explicit_keep_parameters policy)
     \<or> k \<notin> set (explicit_drop_parameters policy) \<and> \<not> is_default_tracking_parameter k"

definition piece_key :: "'u url_api \<Rightarrow> string \<Rightarrow> string \<times> string" where
  "piece_key api s = (parameter (new_pair api s), s)"

lemma retain_pairs_snd:
  "snd (retain_pairs policy ps) = map raw (filter (\<lambda>p. retained_parameter policy (parameter p)) ps)"
  by (induction ps) (auto simp: retained_parameter_def split: prod.splits)

lemma raw_new_pair [simp]: "raw (new_pair api s) = s"
  by (simp add: new_pair_def)

lemma raw_sorted_pairs:
  "map raw (filter (\<lambda>p. P (parameter p)) (sort_key pair_sort_key (map (new_pair api) xs)))
     = sort_key (piece_key api) (filter (\<lambda>s. P (parameter (new_pair api s))) xs)"
proof -
  have ins: "insort_key pair_sort_key (new_pair api x) (map (new_pair api) ys)
      = map (new_pair api) (insort_key (piece_key api) x ys)" for x ys
    by (induction ys) (auto simp: pair_sort_key_def piece_key_def)
  have srt: "sort_key pair_sort_key (map (new_pair api) ys) = map (new_pair api) (sort_key (piece_key api) ys)" for ys
    by (induction ys) (simp_all add: ins)
  show ?thesis by (simp add: srt filter_map o_def filter_sort)
qed

definition canonical_pieces :: "'u url_api \<Rightarrow> CanonicalizationPolicy \<Rightarrow> string \<Rightarrow> string list" where
  "canonical_pieces api policy q =
     sort_key (piece_key api)
       (filter (\<lambda>s. retained_parameter policy (parameter (new_pair api s))) (split_char (CHR ''&'') q))"

lemma canonical_query_pieces:
  "fst (canonical_query api policy query) =
     (case query of None \<Rightarrow> None
      | Some q \<Rightarrow> if canonical_pieces api policy q = [] then None
                 else Some (join_char (CHR ''&'') (canonical_pieces api policy q)))"
proof (cases query)
  case None
  then show ?thesis by (simp add: canonical_query_def case_prod_beta Let_def)
next
  case (Some q)
  have "snd (retain_pairs policy (sort_key pair_sort_key (map (new_pair api) (split_char (CHR ''&'') q))))
      = canonical_pieces api policy q"
    unfolding retain_pairs_snd canonical_pieces_def by (rule raw_sorted_pairs)
  then show ?thesis by (simp add: Some canonical_query_def case_prod_beta Let_def)
qed

lemma inj_piece_key: "inj_on (piece_key api) A"
  by (simp add: inj_on_def piece_key_def)

lemma canonical_pieces_no_sep: "s \<in> set (canonical_pieces api policy q) \<Longrightarrow> CHR ''&'' \<notin> set s"
  by (auto simp: canonical_pieces_def dest: split_char_no_sep)

lemma canonical_query_idem:
  assumes "fst (canonical_query api policy query) = Some q"
  shows "fst (canonical_query api policy (Some q)) = Some q"
proof -
  from assms obtain q0 where ne: "canonical_pieces api policy q0 \<noteq> []"
    and q: "q = join_char (CHR ''&'') (canonical_pieces api policy q0)"
    by (auto simp: canonical_query_pieces split: option.splits if_splits)
  let ?ps = "canonical_pieces api policy q0"
  have "split_char (CHR ''&'') q = ?ps"
    unfolding q using ne by (rule split_join) (rule canonical_pieces_no_sep)
  moreover have "filter (\<lambda>s. retained_parameter policy (parameter (new_pair api s))) ?ps = ?ps"
    by (auto simp: canonical_pieces_def filter_id_conv)
  moreover have "sort_key (piece_key api) ?ps = ?ps"
    by (simp add: canonical_pieces_def sort_key_id_if_sorted)
  ultimately have "canonical_pieces api policy q = ?ps" by (simp add: canonical_pieces_def)
  with ne q show ?thesis by (simp add: canonical_query_pieces)
qed

lemma canonical_query_order:
  assumes "mset (split_char (CHR ''&'') q) = mset (split_char (CHR ''&'') q')"
  shows "canonical_pieces api policy q = canonical_pieces api policy q'"
  unfolding canonical_pieces_def using assms
  by (intro sort_key_perm_eq inj_piece_key) simp

text \<open>
  C38. The canonical query holds exactly the pairs the policy retains, with their multiplicity, in
  the order of decoded parameter name and then raw text; it disappears exactly when no pair is
  retained.  It is a fixed point of the rewriting, and two queries that carry the same pairs in a
  different order have the same canonical query.
\<close>
theorem canonical_query_normal_form:
  "(case fst (canonical_query api policy (Some q)) of
      None \<Rightarrow> filter (\<lambda>s. retained_parameter policy (parameter (new_pair api s))) (split_char (CHR ''&'') q) = []
    | Some r \<Rightarrow>
        mset (split_char (CHR ''&'') r)
          = {#s \<in># mset (split_char (CHR ''&'') q). retained_parameter policy (parameter (new_pair api s))#}
        \<and> sorted (map (piece_key api) (split_char (CHR ''&'') r))
        \<and> fst (canonical_query api policy (Some r)) = Some r)
   \<and> (mset (split_char (CHR ''&'') q) = mset (split_char (CHR ''&'') q')
       \<longrightarrow> fst (canonical_query api policy (Some q)) = fst (canonical_query api policy (Some q')))"
proof (intro conjI impI)
  show "case fst (canonical_query api policy (Some q)) of
      None \<Rightarrow> filter (\<lambda>s. retained_parameter policy (parameter (new_pair api s))) (split_char (CHR ''&'') q) = []
    | Some r \<Rightarrow>
        mset (split_char (CHR ''&'') r)
          = {#s \<in># mset (split_char (CHR ''&'') q). retained_parameter policy (parameter (new_pair api s))#}
        \<and> sorted (map (piece_key api) (split_char (CHR ''&'') r))
        \<and> fst (canonical_query api policy (Some r)) = Some r"
  proof (cases "fst (canonical_query api policy (Some q))")
    case None
    then have "set (canonical_pieces api policy q) = {}"
      by (simp add: canonical_query_pieces split: if_splits)
    then have "filter (\<lambda>s. retained_parameter policy (parameter (new_pair api s))) (split_char (CHR ''&'') q) = []"
      by (simp add: canonical_pieces_def flip: set_empty)
    with None show ?thesis by simp
  next
    case (Some r)
    then have ne: "canonical_pieces api policy q \<noteq> []"
      and r: "r = join_char (CHR ''&'') (canonical_pieces api policy q)"
      by (auto simp: canonical_query_pieces split: if_splits)
    have "split_char (CHR ''&'') r = canonical_pieces api policy q"
      unfolding r using ne by (rule split_join) (rule canonical_pieces_no_sep)
    with Some canonical_query_idem [OF Some] show ?thesis by (simp add: canonical_pieces_def)
  qed
next
  assume "mset (split_char (CHR ''&'') q) = mset (split_char (CHR ''&'') q')"
  from canonical_query_order [OF this, of api policy]
  show "fst (canonical_query api policy (Some q)) = fst (canonical_query api policy (Some q'))"
    by (simp add: canonical_query_pieces)
qed

theorem canonical_query_normal_form_witness:
  "fst (canonical_query plain_api default_canonicalization (Some ''b=2&utm_x=1&a=1''))
     = fst (canonical_query plain_api default_canonicalization (Some ''a=1&b=2&utm_x=1''))"
  using canonical_query_normal_form [where api = plain_api and policy = default_canonicalization
      and q = "''b=2&utm_x=1&a=1''" and q' = "''a=1&b=2&utm_x=1''", THEN conjunct2]
  by simp

section \<open>Canonical URLs\<close>

text \<open>
  What canonicalisation relies on of the URL library, for HTTP(S) URLs: schemes are reported in lower
  case; setting a component to the value it has changes nothing; a setter changes its component
  and no other; a query assembled from the bytes of a query the library reported is kept as it is
  (nothing in it needs percent-encoding).
\<close>

definition url_view :: "'u url_api \<Rightarrow> 'u
    \<Rightarrow> string \<times> string \<times> string option \<times> string option \<times> u16 option \<times> string \<times> string option \<times> string option" where
  "url_view api u = (url_scheme api u, url_username api u, url_password api u, url_host_str api u,
     url_port api u, url_path api u, url_query api u, url_fragment api u)"

definition url_editing_laws :: "'u url_api \<Rightarrow> bool" where
  "url_editing_laws api \<longleftrightarrow>
     (\<forall>s u. url_parse api s = Some u \<longrightarrow> to_ascii_lowercase (url_scheme api u) = url_scheme api u)
   \<and> (\<forall>u. is_http_scheme (url_scheme api u) \<longrightarrow>
        url_set_scheme api (url_scheme api u) u = Some u
      \<and> (\<forall>h v. url_host_str api u = Some h \<and> url_set_host api (to_ascii_lowercase h) u = Some v \<longrightarrow>
           url_view api v = (url_scheme api u, url_username api u, url_password api u,
             Some (to_ascii_lowercase h), url_port api u, url_path api u, url_query api u, url_fragment api u))
      \<and> (\<forall>h. url_host_str api u = Some h \<and> to_ascii_lowercase h = h \<longrightarrow> url_set_host api h u = Some u)
      \<and> (\<forall>v. url_clear_port api u = Some v \<longrightarrow>
           url_view api v = (url_scheme api u, url_username api u, url_password api u,
             url_host_str api u, None, url_path api u, url_query api u, url_fragment api u))
      \<and> url_view api (url_clear_fragment api u) = (url_scheme api u, url_username api u, url_password api u,
             url_host_str api u, url_port api u, url_path api u, url_query api u, None)
      \<and> url_view api (url_set_path api ''/'' u) = (url_scheme api u, url_username api u, url_password api u,
             url_host_str api u, url_port api u, ''/'', url_query api u, url_fragment api u)
      \<and> url_set_query api (url_query api u) u = u
      \<and> (\<forall>q. (\<forall>t. q = Some t \<longrightarrow> (\<exists>t'. url_query api u = Some t' \<and> set t \<subseteq> set t')) \<longrightarrow>
           url_view api (url_set_query api q u) = (url_scheme api u, url_username api u, url_password api u,
             url_host_str api u, url_port api u, url_path api u, q, url_fragment api u)))"

definition default_port :: "'u url_api \<Rightarrow> 'u \<Rightarrow> bool" where
  "default_port api u \<longleftrightarrow>
     url_scheme api u = ''http'' \<and> url_port api u = Some 80
     \<or> url_scheme api u = ''https'' \<and> url_port api u = Some 443"

text \<open>The normal form, stated on the components of the URL.\<close>

definition canonical_form :: "'u url_api \<Rightarrow> CanonicalizationPolicy \<Rightarrow> 'u \<Rightarrow> bool" where
  "canonical_form api policy u \<longleftrightarrow>
     is_http_scheme (url_scheme api u) \<and> url_username api u = [] \<and> url_password api u = None
     \<and> (\<exists>h. url_host_str api u = Some h \<and> to_ascii_lowercase h = h)
     \<and> \<not> default_port api u \<and> url_fragment api u = None \<and> url_path api u \<noteq> []
     \<and> fst (canonical_query api policy (url_query api u)) = url_query api u"

lemma set_split_char: "p \<in> set (split_char c s) \<Longrightarrow> set p \<subseteq> set s"
proof (induction s arbitrary: p)
  case (Cons x s)
  obtain q qs where q: "split_char c s = q # qs" by (cases "split_char c s") auto
  with Cons.prems consider "p = []" | "p = x # q" | "p \<in> set (split_char c s)"
    by (auto split: if_splits)
  then show ?case
  proof cases
    case 2
    have "set q \<subseteq> set s" using Cons.IH [of q] q by simp
    with 2 show ?thesis by auto
  next
    case 3
    with Cons.IH show ?thesis by auto
  qed simp
qed simp

lemma set_join_char: "set (join_char c ps) \<subseteq> (\<Union>p \<in> set ps. set p) \<union> (if length ps < 2 then {} else {c})"
  by (induction c ps rule: join_char.induct) (auto split: if_splits)

lemma split_char_sep: "2 \<le> length (split_char c s) \<Longrightarrow> c \<in> set s"
  using split_char_single [of c s] by fastforce

lemma canonical_query_bytes:
  assumes "fst (canonical_query api policy query) = Some t"
  shows "\<exists>t'. query = Some t' \<and> set t \<subseteq> set t'"
proof -
  from assms obtain q where q: "query = Some q" and t: "t = join_char (CHR ''&'') (canonical_pieces api policy q)"
    by (auto simp: canonical_query_pieces split: option.splits if_splits)
  have "length (canonical_pieces api policy q) \<le> length (split_char (CHR ''&'') q)"
    by (simp add: canonical_pieces_def)
  then have sep: "CHR ''&'' \<in> set q" if "\<not> length (canonical_pieces api policy q) < 2"
    using that by (intro split_char_sep) simp
  have "(\<Union>p \<in> set (canonical_pieces api policy q). set p) \<subseteq> set q"
    by (auto simp: canonical_pieces_def dest: set_split_char)
  then have "set t \<subseteq> set q"
    unfolding t by (intro subset_trans [OF set_join_char]) (use sep in auto)
  with q show ?thesis by blast
qed

text \<open>Each phase, read through the view.\<close>

lemma normalize_scheme_id:
  assumes "url_editing_laws api" and "is_http_scheme (url_scheme api u)"
    and "to_ascii_lowercase (url_scheme api u) = url_scheme api u"
  shows "\<exists>d. normalize_scheme api original u = Inr (u, d)"
proof -
  from assms(1,2) have "url_set_scheme api (url_scheme api u) u = Some u"
    by (simp add: url_editing_laws_def)
  with assms(3) show ?thesis by (auto simp: normalize_scheme_def Let_def)
qed

lemma normalize_host_view:
  assumes "url_editing_laws api" and "is_http_scheme (url_scheme api u)"
    and "normalize_host api original u = Inr (v, d)"
  shows "\<exists>h. url_host_str api u = Some h
    \<and> url_view api v = (url_scheme api u, url_username api u, url_password api u,
             Some (to_ascii_lowercase h), url_port api u, url_path api u, url_query api u, url_fragment api u)"
proof -
  from assms(3) obtain h where h: "url_host_str api u = Some h"
    by (auto simp: normalize_host_def result_simps)
  from assms(1,2) h have law: "url_set_host api (to_ascii_lowercase h) u = Some w \<Longrightarrow>
      url_view api w = (url_scheme api u, url_username api u, url_password api u,
             Some (to_ascii_lowercase h), url_port api u, url_path api u, url_query api u, url_fragment api u)" for w
    by (simp add: url_editing_laws_def)
  from assms(3) h have "url_set_host api (to_ascii_lowercase h) u = Some v \<or> v = u \<and> to_ascii_lowercase h = h"
    by (auto simp: normalize_host_def Let_def result_simps split: if_splits)
  with law h show ?thesis by (auto simp: url_view_def)
qed

lemma remove_default_port_view:
  assumes "url_editing_laws api" and "is_http_scheme (url_scheme api u)"
    and "remove_default_port api original scheme u = Inr (v, d)"
  shows "\<not> default_port api v \<and> (\<exists>p. url_view api v = (url_scheme api u, url_username api u, url_password api u,
             url_host_str api u, p, url_path api u, url_query api u, url_fragment api u))"
proof -
  from assms(3) consider "v = u" "\<not> default_port api u" | "v = u" "url_port api u = None"
    | "url_clear_port api u = Some v"
    by (auto simp: remove_default_port_def default_port_def result_simps split: if_splits)
  then show ?thesis
  proof cases
    case 3
    with assms(1,2) have "url_view api v = (url_scheme api u, url_username api u, url_password api u,
             url_host_str api u, None, url_path api u, url_query api u, url_fragment api u)"
      by (simp add: url_editing_laws_def)
    then show ?thesis by (auto simp: url_view_def default_port_def)
  qed (auto simp: url_view_def default_port_def)
qed

lemma remove_fragment_view:
  assumes "url_editing_laws api" and "is_http_scheme (url_scheme api u)"
  shows "url_view api (fst (remove_fragment api u)) = (url_scheme api u, url_username api u, url_password api u,
             url_host_str api u, url_port api u, url_path api u, url_query api u, None)"
proof -
  from assms have "url_view api (url_clear_fragment api u) = (url_scheme api u, url_username api u,
      url_password api u, url_host_str api u, url_port api u, url_path api u, url_query api u, None)"
    by (simp add: url_editing_laws_def)
  then show ?thesis by (simp add: remove_fragment_def url_view_def)
qed

lemma normalize_root_path_view:
  assumes "url_editing_laws api" and "is_http_scheme (url_scheme api u)"
  shows "\<exists>path. path \<noteq> [] \<and> url_view api (fst (normalize_root_path api original u))
      = (url_scheme api u, url_username api u, url_password api u,
             url_host_str api u, url_port api u, path, url_query api u, url_fragment api u)"
proof -
  from assms have "url_view api (url_set_path api ''/'' u) = (url_scheme api u, url_username api u,
      url_password api u, url_host_str api u, url_port api u, ''/'', url_query api u, url_fragment api u)"
    by (simp add: url_editing_laws_def)
  then show ?thesis by (cases "url_path api u = []") (auto simp: normalize_root_path_def url_view_def)
qed

lemma set_canonical_query_view:
  assumes "url_editing_laws api" and "is_http_scheme (url_scheme api u)"
  shows "url_view api (url_set_query api (fst (canonical_query api policy (url_query api u))) u)
      = (url_scheme api u, url_username api u, url_password api u, url_host_str api u, url_port api u,
         url_path api u, fst (canonical_query api policy (url_query api u)), url_fragment api u)"
  using assms canonical_query_bytes [of api policy "url_query api u"]
  by (simp add: url_editing_laws_def)

lemma canonical_query_fixed:
  "fst (canonical_query api policy (fst (canonical_query api policy query)))
     = fst (canonical_query api policy query)"
proof (cases "fst (canonical_query api policy query)")
  case None
  then show ?thesis by (simp add: canonical_query_pieces)
qed (simp add: canonical_query_idem)

lemma canonicalize_phases:
  assumes "canonicalize api policy original = Inr r"
  obtains u0 u1 d1 u2 d2 u3 d3 u4 u5 where
    "validate_canonicalization policy = Inr ()" "url_parse api original = Some u0"
    "is_http_scheme (url_scheme api u0)" "url_username api u0 = []" "url_password api u0 = None"
    "normalize_scheme api original u0 = Inr (u1, d1)" "normalize_host api original u1 = Inr (u2, d2)"
    "remove_default_port api original (to_ascii_lowercase (url_scheme api u0)) u2 = Inr (u3, d3)"
    "u4 = fst (remove_fragment api u3)" "u5 = fst (normalize_root_path api original u4)"
    "res_canonical_url r = url_set_query api (fst (canonical_query api policy (url_query api u5))) u5"
  using assms
  by (auto simp: canonicalize_def Let_def result_simps case_prod_beta split: if_splits)

lemma canonicalize_canonical_form:
  assumes laws: "url_editing_laws api" and c: "canonicalize api policy original = Inr r"
  shows "canonical_form api policy (res_canonical_url r)"
  using c
proof (rule canonicalize_phases)
  fix u0 u1 d1 u2 d2 u3 d3 u4 u5
  assume http: "is_http_scheme (url_scheme api u0)" and parse: "url_parse api original = Some u0"
    and cred: "url_username api u0 = []" "url_password api u0 = None"
    and p1: "normalize_scheme api original u0 = Inr (u1, d1)" and p2: "normalize_host api original u1 = Inr (u2, d2)"
    and p3: "remove_default_port api original (to_ascii_lowercase (url_scheme api u0)) u2 = Inr (u3, d3)"
    and p4: "u4 = fst (remove_fragment api u3)" and p5: "u5 = fst (normalize_root_path api original u4)"
    and p6: "res_canonical_url r = url_set_query api (fst (canonical_query api policy (url_query api u5))) u5"
  from laws parse have "to_ascii_lowercase (url_scheme api u0) = url_scheme api u0"
    by (simp add: url_editing_laws_def)
  from normalize_scheme_id [OF laws http this, of original] p1 have u1: "u1 = u0" by auto
  from normalize_host_view [OF laws _ p2] u1 http obtain h where v2: "url_view api u2
      = (url_scheme api u0, url_username api u0, url_password api u0, Some (to_ascii_lowercase h),
         url_port api u0, url_path api u0, url_query api u0, url_fragment api u0)" by blast
  then have h2: "is_http_scheme (url_scheme api u2)" using http by (simp add: url_view_def)
  note v3 = remove_default_port_view [OF laws h2 p3]
  then have h3: "is_http_scheme (url_scheme api u3)" using h2 by (auto simp: url_view_def)
  note v4 = remove_fragment_view [OF laws h3, folded p4]
  then have h4: "is_http_scheme (url_scheme api u4)" using h3 by (simp add: url_view_def)
  note v5 = normalize_root_path_view [OF laws h4, of original, folded p5]
  then have h5: "is_http_scheme (url_scheme api u5)" using h4 by (auto simp: url_view_def)
  note v6 = set_canonical_query_view [OF laws h5, of policy, folded p6]
  from v2 v3 v4 v5 v6 h2 cred show ?thesis
    by (auto simp: url_view_def canonical_form_def default_port_def canonical_query_fixed)
qed

lemma canonicalize_fixed_point:
  assumes laws: "url_editing_laws api" and cf: "canonical_form api policy u"
    and policy: "validate_canonicalization policy = Inr ()"
    and parse: "url_parse api (url_as_str api u) = Some u"
    and port: "url_port api u \<noteq> None \<Longrightarrow> \<not> original_default_port (url_as_str api u) (url_scheme api u)"
  shows "\<exists>r. canonicalize api policy (url_as_str api u) = Inr r \<and> res_canonical_url r = u"
proof -
  let ?s = "url_as_str api u"
  from cf have http: "is_http_scheme (url_scheme api u)" by (simp add: canonical_form_def)
  from cf obtain h where h: "url_host_str api u = Some h" "to_ascii_lowercase h = h"
    by (auto simp: canonical_form_def)
  from laws parse have low: "to_ascii_lowercase (url_scheme api u) = url_scheme api u"
    by (simp add: url_editing_laws_def)
  from normalize_scheme_id [OF laws http low] obtain d1 where p1: "normalize_scheme api ?s u = Inr (u, d1)"
    by blast
  from laws http h have "url_set_host api h u = Some u" by (simp add: url_editing_laws_def)
  with h have "\<exists>d. normalize_host api ?s u = Inr (u, d)"
    by (simp add: normalize_host_def Let_def)
  then obtain d2 where p2: "normalize_host api ?s u = Inr (u, d2)" ..
  from cf port have "\<exists>d. remove_default_port api ?s (url_scheme api u) u = Inr (u, d)"
    by (cases "url_port api u") (auto simp: remove_default_port_def canonical_form_def default_port_def)
  then obtain d3 where p3: "remove_default_port api ?s (url_scheme api u) u = Inr (u, d3)" ..
  from cf have p4: "remove_fragment api u = (u, [])"
    by (simp add: remove_fragment_def canonical_form_def)
  from cf have "\<exists>d. normalize_root_path api ?s u = (u, d)"
    by (simp add: normalize_root_path_def canonical_form_def)
  then obtain d5 where p5: "normalize_root_path api ?s u = (u, d5)" ..
  from laws http cf have p6: "url_set_query api (fst (canonical_query api policy (url_query api u))) u = u"
    by (simp add: url_editing_laws_def canonical_form_def)
  from cf have "url_host_str api u \<noteq> None" "url_username api u = []" "url_password api u = None"
    by (auto simp: canonical_form_def)
  with policy parse http low p1 p2 p3 p4 p5 p6 show ?thesis
    by (simp add: canonicalize_def Let_def case_prod_beta)
qed

text \<open>What canonicalisation makes of the components of the parsed URL, and what it records.\<close>

definition canonical_view :: "'u url_api \<Rightarrow> CanonicalizationPolicy \<Rightarrow> string \<Rightarrow> 'u
    \<Rightarrow> string \<times> string \<times> string option \<times> string option \<times> u16 option \<times> string \<times> string option \<times> string option" where
  "canonical_view api policy original u =
     (url_scheme api u, [], None, map_option to_ascii_lowercase (url_host_str api u),
      if original_default_port original (url_scheme api u) \<or> default_port api u then None else url_port api u,
      if url_path api u = [] then ''/'' else url_path api u,
      fst (canonical_query api policy (url_query api u)), None)"

definition recorded_steps :: "'u url_api \<Rightarrow> CanonicalizationPolicy \<Rightarrow> string \<Rightarrow> 'u \<Rightarrow> CanonicalizationDecision list" where
  "recorded_steps api policy original u =
     (if original_scheme original \<in> {None, Some (url_scheme api u)} then [] else [SchemeNormalized])
     @ (if map_option to_ascii_lowercase (url_host_str api u) = url_host_str api u
           \<and> \<not> (\<exists>h. original_host original = Some h \<and> list_ex is_ascii_uppercase h) then [] else [HostNormalized])
     @ (if original_default_port original (url_scheme api u) \<or> default_port api u then [DefaultPortRemoved] else [])
     @ (if url_fragment api u = None then [] else [FragmentRemoved])
     @ (if url_path api u = [] \<or> original_path_is_empty original then [PathNormalized] else [])
     @ snd (canonical_query api policy (url_query api u))"

lemma canonicalize_effect:
  assumes laws: "url_editing_laws api" and c: "canonicalize api policy original = Inr r"
  shows "\<exists>u. url_parse api original = Some u \<and> url_view api (res_canonical_url r) = canonical_view api policy original u
    \<and> decisions r = recorded_steps api policy original u \<and> res_original_url r = original"
proof -
  from c obtain u0 u1 d1 u2 d2 u3 d3 where parse: "url_parse api original = Some u0"
    and http: "is_http_scheme (url_scheme api u0)" and cred: "url_username api u0 = []" "url_password api u0 = None"
    and p1: "normalize_scheme api original u0 = Inr (u1, d1)" and p2: "normalize_host api original u1 = Inr (u2, d2)"
    and p3: "remove_default_port api original (to_ascii_lowercase (url_scheme api u0)) u2 = Inr (u3, d3)"
    and r: "r = (let (u4, d4) = remove_fragment api u3; (u5, d5) = normalize_root_path api original u4;
        (query, d6) = canonical_query api policy (url_query api u5)
       in \<lparr>res_original_url = original, res_canonical_url = url_set_query api query u5,
               decisions = d1 @ d2 @ d3 @ d4 @ d5 @ d6\<rparr>)"
    by (auto simp: canonicalize_def Let_def result_simps case_prod_beta split: if_splits)
  from laws parse have low: "to_ascii_lowercase (url_scheme api u0) = url_scheme api u0"
    by (simp add: url_editing_laws_def)
  from normalize_scheme_id [OF laws http low, of original] p1 have u1: "u1 = u0" by auto
  from p1 have d1: "d1 = (if original_scheme original \<in> {None, Some (url_scheme api u0)} then [] else [SchemeNormalized])"
    by (auto simp: normalize_scheme_def Let_def low result_simps split: option.splits if_splits)
  from p2 have d2: "d2 = (if map_option to_ascii_lowercase (url_host_str api u0) = url_host_str api u0
           \<and> \<not> (\<exists>h. original_host original = Some h \<and> list_ex is_ascii_uppercase h) then [] else [HostNormalized])"
    by (auto simp: normalize_host_def Let_def u1 result_simps split: option.splits if_splits)
  from normalize_host_view [OF laws _ p2] u1 http obtain h where h: "url_host_str api u0 = Some h" and v2: "url_view api u2
      = (url_scheme api u0, url_username api u0, url_password api u0, Some (to_ascii_lowercase h),
         url_port api u0, url_path api u0, url_query api u0, url_fragment api u0)" by blast
  then have h2: "is_http_scheme (url_scheme api u2)" using http by (simp add: url_view_def)
  let ?drop = "original_default_port original (url_scheme api u0) \<or> default_port api u0"
  have same: "url_scheme api u2 = url_scheme api u0" "url_port api u2 = url_port api u0" "default_port api u2 = default_port api u0"
    using v2 by (simp_all add: url_view_def default_port_def)
  have "d3 = (if ?drop then [DefaultPortRemoved] else []) \<and> url_view api u3
      = (url_scheme api u0, url_username api u0, url_password api u0, Some (to_ascii_lowercase h),
         if ?drop then None else url_port api u0, url_path api u0, url_query api u0, url_fragment api u0)"
  proof (cases "?drop \<and> url_port api u0 \<noteq> None")
    case True
    with p3 have step: "url_clear_port api u2 = Some u3" "d3 = [DefaultPortRemoved]"
      by (auto simp: remove_default_port_def default_port_def low same result_simps split: if_splits)
    from laws h2 step(1) have "url_view api u3 = (url_scheme api u2, url_username api u2, url_password api u2,
         url_host_str api u2, None, url_path api u2, url_query api u2, url_fragment api u2)"
      by (simp add: url_editing_laws_def)
    with v2 step(2) True show ?thesis by (simp add: url_view_def)
  next
    case False
    with p3 have "u3 = u2 \<and> d3 = (if ?drop then [DefaultPortRemoved] else [])"
      by (auto simp: remove_default_port_def default_port_def low same result_simps split: if_splits)
    with v2 False show ?thesis by auto
  qed
  then have d3: "d3 = (if ?drop then [DefaultPortRemoved] else [])" and v3: "url_view api u3
      = (url_scheme api u0, url_username api u0, url_password api u0, Some (to_ascii_lowercase h),
         if ?drop then None else url_port api u0, url_path api u0, url_query api u0, url_fragment api u0)" by simp_all
  then have h3: "is_http_scheme (url_scheme api u3)" using http by (simp add: url_view_def)
  define u4 where "u4 = fst (remove_fragment api u3)"
  have d4: "snd (remove_fragment api u3) = (if url_fragment api u0 = None then [] else [FragmentRemoved])"
    using v3 by (simp add: remove_fragment_def url_view_def)
  note v4 = remove_fragment_view [OF laws h3, folded u4_def]
  then have h4: "is_http_scheme (url_scheme api u4)" using h3 by (simp add: url_view_def)
  have path: "url_path api u4 = url_path api u0" using v3 v4 by (simp add: url_view_def)
  define u5 where "u5 = fst (normalize_root_path api original u4)"
  have d5: "snd (normalize_root_path api original u4)
      = (if url_path api u0 = [] \<or> original_path_is_empty original then [PathNormalized] else [])"
    using path by (simp add: normalize_root_path_def)
  have "url_view api (url_set_path api ''/'' u4) = (url_scheme api u4, url_username api u4, url_password api u4,
      url_host_str api u4, url_port api u4, ''/'', url_query api u4, url_fragment api u4)"
    using laws h4 by (simp add: url_editing_laws_def)
  then have v5: "url_view api u5 = (url_scheme api u4, url_username api u4, url_password api u4, url_host_str api u4,
      url_port api u4, if url_path api u4 = [] then ''/'' else url_path api u4, url_query api u4, url_fragment api u4)"
    by (simp add: u5_def normalize_root_path_def url_view_def)
  then have h5: "is_http_scheme (url_scheme api u5)" using h4 by (simp add: url_view_def)
  have query: "url_query api u5 = url_query api u0" using v3 v4 v5 by (simp add: url_view_def)
  note v6 = set_canonical_query_view [OF laws h5, of policy]
  have result: "res_canonical_url r = url_set_query api (fst (canonical_query api policy (url_query api u5))) u5"
    "decisions r = d1 @ d2 @ d3 @ snd (remove_fragment api u3) @ snd (normalize_root_path api original u4)
       @ snd (canonical_query api policy (url_query api u5))" "res_original_url r = original"
    by (simp_all add: r u4_def u5_def case_prod_beta Let_def)
  have "url_view api (res_canonical_url r) = canonical_view api policy original u0"
    unfolding result(1) using v3 v4 v5 v6 cred h by (simp add: canonical_view_def url_view_def)
  moreover have "decisions r = recorded_steps api policy original u0"
    unfolding result(2) recorded_steps_def d1 d2 d3 d4 d5 query ..
  ultimately show ?thesis using parse result(3) by blast
qed


text \<open>A concrete library that satisfies the laws, on URLs of one host with a query.\<close>

definition sample_url :: "string \<Rightarrow> plain_url" where
  "sample_url q = (plain_https ''a.test'' ''/'')\<lparr>pu_query := Some q\<rparr>"

definition sample_api :: "plain_url url_api" where
  "sample_api = plain_api\<lparr>
     url_parse := (\<lambda>s. map_option sample_url (strip_prefix ''https://a.test/?'' s)),
     url_as_str := (\<lambda>u. ''https://a.test/?'' @ (case pu_query u of None \<Rightarrow> [] | Some q \<Rightarrow> q)),
     url_set_host := (\<lambda>h u. Some (u\<lparr>pu_host_str := Some h\<rparr>))\<rparr>"

lemma sample_api_laws: "url_editing_laws sample_api"
proof -
  have "to_ascii_lowercase ''https'' = ''https''"
    by code_simp
  then show ?thesis
    by (auto simp: url_editing_laws_def sample_api_def plain_api_def url_view_def sample_url_def plain_https_def)
qed


end
