(* ===== verification/Url_Matcher.thy ===== *)
theory Url_Matcher
  imports Url_Text
begin

text \<open>
  URL matchers (\<open>url_matcher.rs\<close>), page types (\<open>page_type.rs\<close>) and the resolution of a URL to a page
  type (\<open>matching.rs\<close>).  The regular-expression library is a parameter: \<open>regex_new\<close> compiles a
  pattern to its match predicate or fails, \<open>regex_escape\<close> is \<open>regex::escape\<close>.  A query
  constraint is a \<open>BTreeMap\<close>, here the key-sorted association list of \<open>Ordered_Map\<close>.
\<close>

section \<open>Matchers\<close>

record 'u matcher_env =
  matcher_api :: "'u url_api"
  regex_new :: "string \<Rightarrow> (string \<Rightarrow> bool) option"
  regex_escape :: "string \<Rightarrow> string"

datatype UrlMatcherKind = ExactUrlKind | ExactHostPathTemplateKind | PathPrefixOrGlobKind | RegexKind

fun kind_rank :: "UrlMatcherKind \<Rightarrow> u8" where
  "kind_rank ExactUrlKind = 4"
| "kind_rank ExactHostPathTemplateKind = 3"
| "kind_rank PathPrefixOrGlobKind = 2"
| "kind_rank RegexKind = 1"

datatype 'u UrlMatcher =
    ExactUrl 'u
  | ExactHostPathTemplate string string "(string, string) bmap"
  | PathPrefix "string option" string
  | PathGlob "string option" string
  | RegexMatcher string

fun matcher_kind_of :: "'u UrlMatcher \<Rightarrow> UrlMatcherKind" where
  "matcher_kind_of (ExactUrl _) = ExactUrlKind"
| "matcher_kind_of (ExactHostPathTemplate _ _ _) = ExactHostPathTemplateKind"
| "matcher_kind_of (PathPrefix _ _) = PathPrefixOrGlobKind"
| "matcher_kind_of (PathGlob _ _) = PathPrefixOrGlobKind"
| "matcher_kind_of (RegexMatcher _) = RegexKind"

definition valid_host :: "'u url_api \<Rightarrow> string \<Rightarrow> bool" where
  "valid_host api host \<longleftrightarrow>
     \<not> (blank host \<or> any_char is_whitespace host) \<and>
     (case url_parse api (''https://'' @ host @ ''/'') of
        None \<Rightarrow> False
      | Some parsed \<Rightarrow>
          url_port api parsed = None \<and>
          (case url_host_str api parsed of None \<Rightarrow> False | Some v \<Rightarrow> eq_ignore_ascii_case v host))"

definition valid_optional_host :: "'u url_api \<Rightarrow> string option \<Rightarrow> bool" where
  "valid_optional_host api host \<longleftrightarrow> (case host of None \<Rightarrow> True | Some h \<Rightarrow> valid_host api h)"

definition valid_template_segment :: "string \<Rightarrow> bool" where
  "valid_template_segment segment \<longleftrightarrow>
     (if prefix ''{'' segment \<or> suffix ''}'' segment
      then length segment > 2 \<and> prefix ''{'' segment \<and> suffix ''}'' segment
           \<and> \<not> list_ex (\<lambda>c. c \<in> set ''{}/*'') (take (length segment - 2) (drop 1 segment))
      else \<not> list_ex (\<lambda>c. c \<in> set ''{}*'') segment)"

definition valid_path_template :: "string \<Rightarrow> bool" where
  "valid_path_template path \<longleftrightarrow>
     path \<noteq> [] \<and> prefix ''/'' path \<and> list_all valid_template_segment (drop 1 (split_char (CHR ''/'') path))"

definition valid_path_prefix :: "string \<Rightarrow> bool" where
  "valid_path_prefix path \<longleftrightarrow>
     path \<noteq> [] \<and> prefix ''/'' path \<and> \<not> list_ex (\<lambda>c. c \<in> set ''*{}'') path"

definition valid_path_glob :: "string \<Rightarrow> bool" where
  "valid_path_glob path \<longleftrightarrow> path \<noteq> [] \<and> prefix ''/'' path"

definition valid_query :: "(string, string) bmap \<Rightarrow> bool" where
  "valid_query query \<longleftrightarrow> list_all (\<lambda>k. k \<noteq> [] \<and> \<not> any_char is_whitespace k) (bm_keys query)"

fun validate_definition :: "'u matcher_env \<Rightarrow> 'u UrlMatcher \<Rightarrow> unit product_result" where
  "validate_definition env (ExactUrl _) = Inr ()"
| "validate_definition env (ExactHostPathTemplate host path_template query) =
     (if valid_host (matcher_api env) host \<and> valid_path_template path_template \<and> valid_query query
      then Inr () else Inl (conflict ''invalid exact host/path template matcher''))"
| "validate_definition env (PathPrefix host path_prefix) =
     (if valid_optional_host (matcher_api env) host \<and> valid_path_prefix path_prefix
      then Inr () else Inl (conflict ''invalid URL path prefix matcher''))"
| "validate_definition env (PathGlob host pattern) =
     (if valid_optional_host (matcher_api env) host \<and> valid_path_glob pattern
      then Inr () else Inl (conflict ''invalid URL path glob matcher''))"
| "validate_definition env (RegexMatcher pattern) =
     (case regex_new env pattern of Some _ \<Rightarrow> Inr () | None \<Rightarrow> Inl (conflict ''invalid URL matcher regex''))"

definition validated :: "'u matcher_env \<Rightarrow> 'u UrlMatcher \<Rightarrow> 'u UrlMatcher product_result" where
  "validated env matcher = res_bind (validate_definition env matcher) (\<lambda>_. Inr matcher)"

fun matcher_pattern :: "'u matcher_env \<Rightarrow> 'u UrlMatcher \<Rightarrow> string" where
  "matcher_pattern env (ExactUrl u) = url_as_str (matcher_api env) u"
| "matcher_pattern env (ExactHostPathTemplate host path_template _) = host @ path_template"
| "matcher_pattern env (PathPrefix _ path_prefix) = path_prefix"
| "matcher_pattern env (PathGlob _ pattern) = pattern"
| "matcher_pattern env (RegexMatcher pattern) = pattern"

section \<open>Specificity\<close>

text \<open>\<open>u32::try_from(value).unwrap_or(u32::MAX)\<close>.\<close>

definition count_u32 :: "nat \<Rightarrow> u32" where
  "count_u32 n = (if int n < 4294967296 then of_nat n else - 1)"

datatype SpecificityKey = SpecificityKey
  (matcher_kind_rank: u8) (literal_path_segments: u32) (explicit_query_constraints: u32)
  (literal_characters: u32) (inverse_wildcards: u32)

text \<open>The derived order compares the fields in turn; the wildcard count is wrapped in \<open>Reverse\<close>.\<close>

fun specificity_rank :: "SpecificityKey \<Rightarrow> u8 \<times> u32 \<times> u32 \<times> u32 \<times> int" where
  "specificity_rank (SpecificityKey k s q c w) = (k, s, q, c, - uint w)"

lemma specificity_rank_inject: "specificity_rank a = specificity_rank b \<longleftrightarrow> a = b"
  by (cases a; cases b) (simp add: word_uint_eq_iff)

instantiation SpecificityKey :: linorder
begin

definition less_eq_SpecificityKey :: "SpecificityKey \<Rightarrow> SpecificityKey \<Rightarrow> bool" where
  "less_eq_SpecificityKey a b \<longleftrightarrow> specificity_rank a \<le> specificity_rank b"

definition less_SpecificityKey :: "SpecificityKey \<Rightarrow> SpecificityKey \<Rightarrow> bool" where
  "less_SpecificityKey a b \<longleftrightarrow> specificity_rank a < specificity_rank b"

instance
  by standard (auto simp: less_eq_SpecificityKey_def less_SpecificityKey_def less_le_not_le
      specificity_rank_inject dest: order.antisym)

end

fun matcher_path :: "'u matcher_env \<Rightarrow> 'u UrlMatcher \<Rightarrow> string" where
  "matcher_path env (ExactUrl u) = url_path (matcher_api env) u"
| "matcher_path env (ExactHostPathTemplate _ path_template _) = path_template"
| "matcher_path env (PathPrefix _ path_prefix) = path_prefix"
| "matcher_path env (PathGlob _ pattern) = pattern"
| "matcher_path env (RegexMatcher pattern) = pattern"

fun query_constraints :: "'u matcher_env \<Rightarrow> 'u UrlMatcher \<Rightarrow> u32" where
  "query_constraints env (ExactUrl u) = count_u32 (length (url_query_pairs (matcher_api env) u))"
| "query_constraints env (ExactHostPathTemplate _ _ query) = count_u32 (length query)"
| "query_constraints env _ = 0"

definition specificity :: "'u matcher_env \<Rightarrow> 'u UrlMatcher \<Rightarrow> SpecificityKey" where
  "specificity env matcher =
     (let path = matcher_path env matcher;
          wildcards = count_list path (CHR ''*'') + count_list path (CHR ''{'') + count_list path (CHR ''('')
      in SpecificityKey
           (kind_rank (matcher_kind_of matcher))
           (count_u32 (length (filter (\<lambda>part. part \<noteq> [] \<and> CHR ''*'' \<notin> set part \<and> CHR ''{'' \<notin> set part
                                          \<and> CHR ''('' \<notin> set part) (split_char (CHR ''/'') path))))
           (query_constraints env matcher)
           (count_u32 (length (filter is_ascii_alphanumeric path)))
           (count_u32 wildcards))"

section \<open>Matching\<close>

definition segments :: "string \<Rightarrow> string list" where
  "segments path = filter (\<lambda>part. part \<noteq> []) (split_char (CHR ''/'') path)"

definition is_variable :: "string \<Rightarrow> bool" where
  "is_variable part \<longleftrightarrow> prefix ''{'' part \<and> suffix ''}'' part"

definition template_matches :: "string \<Rightarrow> string \<Rightarrow> bool" where
  "template_matches template actual \<longleftrightarrow>
     (let expected = segments template; parts = segments actual in
      length expected = length parts
      \<and> list_all (\<lambda>(left, right). is_variable left \<or> left = right) (zip expected parts))"

text \<open>\<open>str::replace\<close>: non-overlapping occurrences, left to right; the pattern is not empty.\<close>

function replace_str :: "string \<Rightarrow> string \<Rightarrow> string \<Rightarrow> string" where
  "replace_str p r s =
     (if p = [] \<or> s = [] then s
      else if prefix p s then r @ replace_str p r (drop (length p) s)
      else hd s # replace_str p r (tl s))"
  by pat_completeness auto
termination
  by (relation "measure (\<lambda>(p, r, s). length s)") (auto simp: neq_Nil_conv)

declare replace_str.simps [simp del]

definition glob_matches :: "'u matcher_env \<Rightarrow> string \<Rightarrow> string \<Rightarrow> bool" where
  "glob_matches env pattern actual =
     (let escaped = replace_str [CHR 0x5C, CHR ''*''] ''.*'' (regex_escape env pattern) in
      case regex_new env (''^'' @ escaped @ ''$'') of None \<Rightarrow> False | Some is_match \<Rightarrow> is_match actual)"

definition host_is :: "'u url_api \<Rightarrow> 'u \<Rightarrow> string \<Rightarrow> bool" where
  "host_is api u expected \<longleftrightarrow>
     (case url_host_str api u of None \<Rightarrow> False | Some actual \<Rightarrow> eq_ignore_ascii_case actual expected)"

fun matches_url :: "'u matcher_env \<Rightarrow> 'u UrlMatcher \<Rightarrow> 'u \<Rightarrow> bool" where
  "matches_url env (ExactUrl expected) u \<longleftrightarrow> expected = u"
| "matches_url env (ExactHostPathTemplate host path_template query) u \<longleftrightarrow>
     host_is (matcher_api env) u host
     \<and> template_matches path_template (url_path (matcher_api env) u)
     \<and> list_all (\<lambda>(k, v). list_ex (\<lambda>(ak, av). ak = k \<and> av = v) (url_query_pairs (matcher_api env) u)) query"
| "matches_url env (PathPrefix host path_prefix) u \<longleftrightarrow>
     (case host of None \<Rightarrow> True | Some expected \<Rightarrow> host_is (matcher_api env) u expected)
     \<and> prefix path_prefix (url_path (matcher_api env) u)"
| "matches_url env (PathGlob host pattern) u \<longleftrightarrow>
     (case host of None \<Rightarrow> True | Some expected \<Rightarrow> host_is (matcher_api env) u expected)
     \<and> glob_matches env pattern (url_path (matcher_api env) u)"
| "matches_url env (RegexMatcher pattern) u \<longleftrightarrow>
     (case regex_new env pattern of None \<Rightarrow> False | Some is_match \<Rightarrow> is_match (url_as_str (matcher_api env) u))"

section \<open>Resolution to a page type\<close>

record 'u PageType =
  pt_id :: PageTypeId
  pt_name :: string
  pt_priority :: int
  pt_matchers :: "'u UrlMatcher list"

record PageTypeCandidate =
  cand_page_type_id :: PageTypeId
  cand_page_type_name :: string
  cand_priority :: int
  cand_matcher_kind :: UrlMatcherKind
  cand_specificity :: SpecificityKey
  matched_patterns :: "string list"

datatype PageTypeMatchDecision =
    Matched PageTypeCandidate
  | Ambiguous "PageTypeCandidate list"
  | Unmatched

definition page_type_candidate :: "'u matcher_env \<Rightarrow> 'u \<Rightarrow> 'u PageType \<Rightarrow> PageTypeCandidate option" where
  "page_type_candidate env u pt =
     map_option (\<lambda>spec.
       \<lparr>cand_page_type_id = pt_id pt, cand_page_type_name = pt_name pt, cand_priority = pt_priority pt,
        cand_matcher_kind =
          (case find (\<lambda>m. matches_url env m u \<and> specificity env m = spec) (pt_matchers pt) of
             None \<Rightarrow> RegexKind | Some m \<Rightarrow> matcher_kind_of m),
        cand_specificity = spec,
        matched_patterns =
          dedup (sort (map (matcher_pattern env)
            (filter (\<lambda>m. matches_url env m u \<and> specificity env m = spec) (pt_matchers pt))))\<rparr>)
       (iter_max (map (specificity env) (filter (\<lambda>m. matches_url env m u) (pt_matchers pt))))"

definition cand_key :: "PageTypeCandidate \<Rightarrow> int \<times> SpecificityKey" where
  "cand_key c = (cand_priority c, cand_specificity c)"

definition resolve_page_type :: "'u matcher_env \<Rightarrow> 'u \<Rightarrow> 'u PageType list \<Rightarrow> PageTypeMatchDecision" where
  "resolve_page_type env u page_types =
     (let candidates = List.map_filter (page_type_candidate env u) page_types in
      if candidates = [] then Unmatched
      else
        let best = iter_max (map cand_key candidates);
            retained = filter (\<lambda>c. Some (cand_key c) = best) candidates;
            ordered = sort_key (\<lambda>c. (cand_page_type_name c, matched_patterns c)) retained
        in if length ordered = 1 then Matched (hd ordered) else Ambiguous ordered)"

section \<open>What resolution decides\<close>

lemma page_type_candidate_None:
  "page_type_candidate env u pt = None \<longleftrightarrow> (\<forall>m \<in> set (pt_matchers pt). \<not> matches_url env m u)"
  by (auto simp: page_type_candidate_def filter_empty_conv)

text \<open>A candidate carries the greatest specificity among the matchers that match, and the patterns of
  the matchers that attain it.\<close>

lemma page_type_candidate_Some:
  assumes "page_type_candidate env u pt = Some c"
  shows "cand_priority c = pt_priority pt \<and> cand_page_type_name c = pt_name pt \<and> cand_page_type_id c = pt_id pt"
    and "\<forall>m \<in> set (pt_matchers pt). matches_url env m u \<longrightarrow> specificity env m \<le> cand_specificity c"
    and "\<exists>m \<in> set (pt_matchers pt). matches_url env m u \<and> specificity env m = cand_specificity c
           \<and> cand_matcher_kind c = matcher_kind_of m"
    and "set (matched_patterns c) = matcher_pattern env `
           {m \<in> set (pt_matchers pt). matches_url env m u \<and> specificity env m = cand_specificity c}"
proof -
  let ?ms = "filter (\<lambda>m. matches_url env m u) (pt_matchers pt)"
  from assms obtain spec where spec: "iter_max (map (specificity env) ?ms) = Some spec"
    and c: "cand_specificity c = spec"
      "cand_priority c = pt_priority pt \<and> cand_page_type_name c = pt_name pt \<and> cand_page_type_id c = pt_id pt"
      "cand_matcher_kind c = (case find (\<lambda>m. matches_url env m u \<and> specificity env m = spec) (pt_matchers pt) of
             None \<Rightarrow> RegexKind | Some m \<Rightarrow> matcher_kind_of m)"
      "set (matched_patterns c) = matcher_pattern env `
           {m \<in> set (pt_matchers pt). matches_url env m u \<and> specificity env m = spec}"
    by (auto simp: page_type_candidate_def)
  show "cand_priority c = pt_priority pt \<and> cand_page_type_name c = pt_name pt \<and> cand_page_type_id c = pt_id pt"
    by (rule c(2))
  show "set (matched_patterns c) = matcher_pattern env `
           {m \<in> set (pt_matchers pt). matches_url env m u \<and> specificity env m = cand_specificity c}"
    unfolding c(1) by (rule c(4))
  from spec have mx: "spec \<in> specificity env ` set ?ms" "\<forall>m \<in> set ?ms. specificity env m \<le> spec"
    by (auto simp: iter_max_Some)
  then show "\<forall>m \<in> set (pt_matchers pt). matches_url env m u \<longrightarrow> specificity env m \<le> cand_specificity c"
    by (auto simp: c(1))
  from mx(1) have "find (\<lambda>m. matches_url env m u \<and> specificity env m = spec) (pt_matchers pt) \<noteq> None"
    by (auto simp: find_None_iff)
  then obtain m where m: "find (\<lambda>m. matches_url env m u \<and> specificity env m = spec) (pt_matchers pt) = Some m"
    by blast
  then have "m \<in> set (pt_matchers pt)" "matches_url env m u" "specificity env m = spec"
    by (auto simp: find_Some_iff)
  with m c(1,3) show "\<exists>m \<in> set (pt_matchers pt). matches_url env m u \<and> specificity env m = cand_specificity c
           \<and> cand_matcher_kind c = matcher_kind_of m" by auto
qed

definition top_ranked :: "PageTypeCandidate list \<Rightarrow> PageTypeCandidate \<Rightarrow> bool" where
  "top_ranked cs c \<longleftrightarrow> (\<forall>d \<in> set cs. cand_key d \<le> cand_key c)"

abbreviation candidates_of :: "'u matcher_env \<Rightarrow> 'u \<Rightarrow> 'u PageType list \<Rightarrow> PageTypeCandidate list" where
  "candidates_of env u pts \<equiv> List.map_filter (page_type_candidate env u) pts"

definition candidate_order :: "PageTypeCandidate \<Rightarrow> string \<times> string list" where
  "candidate_order c = (cand_page_type_name c, matched_patterns c)"

lemma best_iff_top:
  "c \<in> set cs \<Longrightarrow> Some (cand_key c) = iter_max (map cand_key cs) \<longleftrightarrow> top_ranked cs c"
  unfolding eq_commute [of "Some (cand_key c)"] iter_max_Some by (auto simp: top_ranked_def)

lemma resolve_page_type_eq:
  "resolve_page_type env u pts =
     (let cs = candidates_of env u pts; tops = sort_key candidate_order (filter (top_ranked cs) cs) in
      if cs = [] then Unmatched else if length tops = 1 then Matched (hd tops) else Ambiguous tops)"
proof -
  have f: "filter (\<lambda>c. Some (cand_key c) = iter_max (map cand_key cs)) cs = filter (top_ranked cs) cs" for cs
    by (rule filter_cong [OF refl]) (rule best_iff_top)
  show ?thesis unfolding resolve_page_type_def Let_def f candidate_order_def [abs_def] by simp
qed

lemma top_exists: "cs \<noteq> [] \<Longrightarrow> filter (top_ranked cs) cs \<noteq> []"
proof -
  assume ne: "cs \<noteq> []"
  then obtain m where "iter_max (map cand_key cs) = Some m" by (metis iter_max_None map_is_Nil_conv not_None_eq)
  then have "m \<in> cand_key ` set cs" "\<forall>d \<in> set cs. cand_key d \<le> m" by (auto simp: iter_max_Some)
  then show ?thesis by (auto simp: filter_empty_conv top_ranked_def)
qed

lemma resolve_Unmatched: "resolve_page_type env u pts = Unmatched \<longleftrightarrow> candidates_of env u pts = []"
  by (simp add: resolve_page_type_eq Let_def)

lemma resolve_Matched:
  "resolve_page_type env u pts = Matched c \<longleftrightarrow>
     filter (top_ranked (candidates_of env u pts)) (candidates_of env u pts) = [c]"
proof -
  let ?cs = "candidates_of env u pts"
  let ?f = "filter (top_ranked ?cs) ?cs"
  have "length ?f = 1 \<and> hd (sort_key candidate_order ?f) = c \<longleftrightarrow> ?f = [c]"
    by (auto simp: length_Suc_conv)
  then show ?thesis by (cases "?cs = []") (auto simp: resolve_page_type_eq Let_def)
qed

lemma resolve_Ambiguous:
  "resolve_page_type env u pts = Ambiguous ds \<longleftrightarrow>
     (let tops = filter (top_ranked (candidates_of env u pts)) (candidates_of env u pts) in
      2 \<le> length tops \<and> ds = sort_key candidate_order tops)"
proof (cases "candidates_of env u pts = []")
  case False
  let ?tops = "filter (top_ranked (candidates_of env u pts)) (candidates_of env u pts)"
  from top_exists [OF False] have "length ?tops \<noteq> 0" unfolding length_0_conv .
  then have "length ?tops \<noteq> 1 \<longleftrightarrow> 2 \<le> length ?tops" by linarith
  with False show ?thesis by (auto simp: resolve_page_type_eq Let_def)
qed (simp add: resolve_page_type_eq)

lemma map_filter_split:
  "List.map_filter f xs = as @ c # bs \<longleftrightarrow>
     (\<exists>ys x zs. xs = ys @ x # zs \<and> List.map_filter f ys = as \<and> f x = Some c \<and> List.map_filter f zs = bs)"
proof
  show "List.map_filter f xs = as @ c # bs \<Longrightarrow>
     \<exists>ys x zs. xs = ys @ x # zs \<and> List.map_filter f ys = as \<and> f x = Some c \<and> List.map_filter f zs = bs"
  proof (induction xs arbitrary: as)
    case (Cons x xs)
    show ?case
    proof (cases "f x")
      case None
      with Cons.prems have "List.map_filter f xs = as @ c # bs" by (simp add: map_filter_simps)
      from Cons.IH [OF this] obtain ys y zs where "xs = ys @ y # zs" "List.map_filter f ys = as"
        "f y = Some c" "List.map_filter f zs = bs" by blast
      with None have "x # xs = (x # ys) @ y # zs" "List.map_filter f (x # ys) = as"
        by (simp_all add: map_filter_simps)
      with \<open>f y = Some c\<close> \<open>List.map_filter f zs = bs\<close> show ?thesis by blast
    next
      case (Some d)
      show ?thesis
      proof (cases as)
        case Nil
        with Some Cons.prems show ?thesis by (intro exI [of _ "[]"]) (auto simp: map_filter_simps)
      next
        case (Cons a as')
        with Some Cons.prems have "List.map_filter f xs = as' @ c # bs" "a = d" by (simp_all add: map_filter_simps)
        from Cons.IH [OF this(1)] obtain ys y zs where "xs = ys @ y # zs" "List.map_filter f ys = as'"
          "f y = Some c" "List.map_filter f zs = bs" by blast
        with Some Cons \<open>a = d\<close> have "x # xs = (x # ys) @ y # zs" "List.map_filter f (x # ys) = as"
          by (simp_all add: map_filter_simps)
        with \<open>f y = Some c\<close> \<open>List.map_filter f zs = bs\<close> show ?thesis by blast
      qed
    qed
  qed (simp add: map_filter_simps)
qed (auto simp: List.map_filter_def)

lemma unique_top_iff:
  "filter (top_ranked cs) cs = [c] \<longleftrightarrow>
     (\<exists>as bs. cs = as @ c # bs \<and> (\<forall>d \<in> set as \<union> set bs. cand_key d < cand_key c))"
proof
  assume "filter (top_ranked cs) cs = [c]"
  then obtain as bs where cs: "cs = as @ c # bs" and as: "\<forall>d \<in> set as. \<not> top_ranked cs d"
    and top: "top_ranked cs c" and "filter (top_ranked cs) bs = []"
    unfolding filter_eq_Cons_iff by auto
  then have bs: "\<forall>d \<in> set bs. \<not> top_ranked cs d" by (simp add: filter_empty_conv)
  have "cand_key d < cand_key c" if d: "d \<in> set as \<union> set bs" for d
  proof -
    from as bs d have "\<not> top_ranked cs d" by blast
    then obtain e where "e \<in> set cs" "\<not> cand_key e \<le> cand_key d" by (auto simp: top_ranked_def)
    moreover from this top have "cand_key e \<le> cand_key c" by (simp add: top_ranked_def)
    ultimately show ?thesis by (meson not_le order.strict_trans2)
  qed
  with cs show "\<exists>as bs. cs = as @ c # bs \<and> (\<forall>d \<in> set as \<union> set bs. cand_key d < cand_key c)" by blast
next
  assume "\<exists>as bs. cs = as @ c # bs \<and> (\<forall>d \<in> set as \<union> set bs. cand_key d < cand_key c)"
  then obtain as bs where cs: "cs = as @ c # bs" and lt: "\<forall>d \<in> set as \<union> set bs. cand_key d < cand_key c"
    by blast
  then have "\<not> top_ranked cs d" if "d \<in> set as \<union> set bs" for d
    using that by (auto simp: top_ranked_def not_le)
  moreover have "top_ranked cs c" using cs lt by (auto simp: top_ranked_def less_imp_le)
  ultimately show "filter (top_ranked cs) cs = [c]"
    by (subst (2) cs) (auto simp: filter_empty_conv)
qed

text \<open>Reordering the page types reorders the candidates.\<close>

lemma map_sort_key_perm:
  assumes "mset xs = mset ys" shows "map k (sort_key k xs) = map k (sort_key k ys)"
proof -
  have "mset (map k (sort_key k xs)) = mset (map k (sort_key k ys))" using assms by simp
  then show ?thesis by (metis properties_for_sort sorted_sort_key)
qed

lemma mset_map_filter:
  "mset xs = mset ys \<Longrightarrow> mset (List.map_filter f xs) = mset (List.map_filter f ys)"
  by (simp add: List.map_filter_def)

lemma mset_tops:
  assumes "mset cs = mset ds"
  shows "mset (filter (top_ranked cs) cs) = mset (filter (top_ranked ds) ds)"
proof -
  from assms have "set cs = set ds" by (metis set_mset_mset)
  then have "top_ranked cs = top_ranked ds" by (simp add: top_ranked_def fun_eq_iff)
  with assms show ?thesis by simp
qed

fun same_decision :: "PageTypeMatchDecision \<Rightarrow> PageTypeMatchDecision \<Rightarrow> bool" where
  "same_decision (Ambiguous cs) (Ambiguous ds) \<longleftrightarrow> mset cs = mset ds \<and> map candidate_order cs = map candidate_order ds"
| "same_decision a b \<longleftrightarrow> a = b"

lemma same_decision_perm:
  assumes "mset pts = mset pts'"
  shows "same_decision (resolve_page_type env u pts) (resolve_page_type env u pts')"
proof -
  let ?cs = "candidates_of env u pts" and ?ds = "candidates_of env u pts'"
  let ?a = "filter (top_ranked ?cs) ?cs" and ?b = "filter (top_ranked ?ds) ?ds"
  have m: "mset ?cs = mset ?ds" using assms by (rule mset_map_filter)
  then have ne: "?cs = [] \<longleftrightarrow> ?ds = []" by (metis mset_zero_iff)
  have t: "mset ?a = mset ?b" using m by (rule mset_tops)
  then have l: "length ?a = length ?b" by (metis size_mset)
  have ord: "map candidate_order (sort_key candidate_order ?a) = map candidate_order (sort_key candidate_order ?b)"
    using t by (rule map_sort_key_perm)
  show ?thesis
  proof (cases "length ?a = 1")
    case True
    then obtain x y where "?a = [x]" "?b = [y]" using l by (auto simp: length_Suc_conv)
    with t have "?a = ?b" by simp
    with ne l True show ?thesis by (simp add: resolve_page_type_eq Let_def)
  next
    case False
    with ne l t ord show ?thesis by (simp add: resolve_page_type_eq Let_def)
  qed
qed

text \<open>
  C39. Resolution decides by priority and then specificity, whatever the order of the page types.
  A URL is unmatched exactly when no matcher of any page type matches it; it is matched to a page
  type exactly when that page type's best matcher is strictly ahead of every other candidate in
  (priority, specificity); otherwise all candidates of the highest rank, at least two, are reported
  in the order of name and patterns.  Reordering the page types never changes the decision.
\<close>
theorem resolve_page_type_decides:
  "(resolve_page_type env u pts = Unmatched \<longleftrightarrow>
      list_all (\<lambda>pt. list_all (\<lambda>m. \<not> matches_url env m u) (pt_matchers pt)) pts)
   \<and> (resolve_page_type env u pts = Matched c \<longleftrightarrow>
      (\<exists>before pt after. pts = before @ pt # after \<and> page_type_candidate env u pt = Some c
         \<and> list_all (\<lambda>other. case page_type_candidate env u other of
              None \<Rightarrow> True | Some d \<Rightarrow> cand_key d < cand_key c) (before @ after)))
   \<and> (resolve_page_type env u pts = Ambiguous ds \<longleftrightarrow>
      (let tops = filter (top_ranked (candidates_of env u pts)) (candidates_of env u pts) in
       2 \<le> length tops \<and> ds = sort_key candidate_order tops))
   \<and> (mset pts = mset pts' \<longrightarrow> same_decision (resolve_page_type env u pts) (resolve_page_type env u pts'))"
proof (intro conjI impI)
  have "candidates_of env u pts = [] \<longleftrightarrow> (\<forall>pt \<in> set pts. page_type_candidate env u pt = None)"
    by (auto simp: List.map_filter_def filter_empty_conv)
  then show "resolve_page_type env u pts = Unmatched \<longleftrightarrow>
      list_all (\<lambda>pt. list_all (\<lambda>m. \<not> matches_url env m u) (pt_matchers pt)) pts"
    by (simp add: resolve_Unmatched page_type_candidate_None list_all_iff)
  have app: "candidates_of env u (xs @ ys) = candidates_of env u xs @ candidates_of env u ys" for xs ys
    by (simp add: List.map_filter_def)
  have lt: "(\<forall>d \<in> set (candidates_of env u xs). cand_key d < cand_key c) \<longleftrightarrow>
      list_all (\<lambda>other. case page_type_candidate env u other of
              None \<Rightarrow> True | Some d \<Rightarrow> cand_key d < cand_key c) xs" for xs
    by (induction xs) (auto simp: map_filter_simps split: option.splits)
  show "resolve_page_type env u pts = Matched c \<longleftrightarrow>
      (\<exists>before pt after. pts = before @ pt # after \<and> page_type_candidate env u pt = Some c
         \<and> list_all (\<lambda>other. case page_type_candidate env u other of
              None \<Rightarrow> True | Some d \<Rightarrow> cand_key d < cand_key c) (before @ after))"
    unfolding resolve_Matched unique_top_iff map_filter_split lt [symmetric] app set_append ball_Un
    by (simp only: ex_simps [symmetric] conj_assoc) blast
qed (simp_all only: resolve_Ambiguous same_decision_perm)

definition sample_matcher_env :: "plain_url matcher_env" where
  "sample_matcher_env = \<lparr>matcher_api = plain_api, regex_new = (\<lambda>_. None), regex_escape = (\<lambda>s. s)\<rparr>"

definition sample_page_type :: "string \<Rightarrow> string \<Rightarrow> plain_url PageType" where
  "sample_page_type name path = \<lparr>pt_id = name, pt_name = name, pt_priority = 0, pt_matchers = [PathPrefix None path]\<rparr>"

theorem resolve_page_type_decides_witness:
  "same_decision
     (resolve_page_type sample_matcher_env (plain_https ''a'' ''/p/1'') [sample_page_type ''x'' ''/p'', sample_page_type ''y'' ''/p/'']) 
     (resolve_page_type sample_matcher_env (plain_https ''a'' ''/p/1'') [sample_page_type ''y'' ''/p/'', sample_page_type ''x'' ''/p''])"
  using resolve_page_type_decides [where env = sample_matcher_env and u = "plain_https ''a'' ''/p/1''"
      and pts = "[sample_page_type ''x'' ''/p'', sample_page_type ''y'' ''/p/'']"
      and pts' = "[sample_page_type ''y'' ''/p/'', sample_page_type ''x'' ''/p'']"]
  by simp

section \<open>Templates\<close>

text \<open>
  A template matches a path exactly when some assignment of one non-empty segment to each variable
  segment turns the template's segments into those of the path.
\<close>

definition instance_of :: "(nat \<Rightarrow> string) \<Rightarrow> string list \<Rightarrow> string list" where
  "instance_of f ts = map (\<lambda>i. if is_variable (ts ! i) then f i else ts ! i) [0..<length ts]"

lemma template_matches_iff_instance:
  "template_matches template actual \<longleftrightarrow> (\<exists>f. segments actual = instance_of f (segments template))"
proof
  assume "template_matches template actual"
  then have len: "length (segments template) = length (segments actual)"
    and all: "\<forall>i < length (segments actual). \<not> is_variable (segments template ! i) \<longrightarrow>
      segments actual ! i = segments template ! i"
    by (auto simp: template_matches_def Let_def list_all_length)
  have "segments actual = instance_of (\<lambda>i. segments actual ! i) (segments template)"
    by (rule nth_equalityI) (use len all in \<open>auto simp: instance_of_def\<close>)
  then show "\<exists>f. segments actual = instance_of f (segments template)"
    by (rule exI [of _ "(!) (segments actual)"])
next
  assume "\<exists>f. segments actual = instance_of f (segments template)"
  then obtain f where f: "segments actual = instance_of f (segments template)" by blast
  have "is_variable (segments template ! i) \<or> segments template ! i = segments actual ! i"
    if "i < length (segments template)" for i
    using that by (simp add: f instance_of_def)
  moreover have "length (segments actual) = length (segments template)" by (simp add: f instance_of_def)
  ultimately show "template_matches template actual"
    by (simp add: template_matches_def Let_def list_all_length)
qed

end
