(* ===== verification/Test_Evidence.thy ===== *)
theory Test_Evidence
  imports Domain_Scope Canonicalization Url_Matcher
begin

text \<open>
  Historical Test Lab evidence (\<open>test_evidence.rs\<close>): the stable copies of canonicalisation, page-type
  and scope decisions, their behavioural comparison, and the validation every stored record passes.
  The UUID library is a parameter (\<open>uuid_version\<close>), as is the URL library.
\<close>

section \<open>Records\<close>

definition TEST_EVIDENCE_SCHEMA_VERSION :: u16 where "TEST_EVIDENCE_SCHEMA_VERSION = 1"
definition MAX_TEST_EVIDENCE_INPUT_URLS :: nat where "MAX_TEST_EVIDENCE_INPUT_URLS = 8"
definition MAX_TEST_EVIDENCE_DISCOVERED_URLS :: nat where "MAX_TEST_EVIDENCE_DISCOVERED_URLS = 64"
definition MAX_TEST_EVIDENCE_ARTIFACTS :: nat where "MAX_TEST_EVIDENCE_ARTIFACTS = 16"
definition MAX_TEST_EVIDENCE_DIAGNOSTICS :: nat where "MAX_TEST_EVIDENCE_DIAGNOSTICS = 32"
definition MAX_TEST_EVIDENCE_URL_CHARS :: nat where "MAX_TEST_EVIDENCE_URL_CHARS = 4096"
definition MAX_TEST_EVIDENCE_DIAGNOSTIC_CODE_CHARS :: nat where
  "MAX_TEST_EVIDENCE_DIAGNOSTIC_CODE_CHARS = 128"
definition MAX_TEST_EVIDENCE_DIAGNOSTIC_MESSAGE_CHARS :: nat where
  "MAX_TEST_EVIDENCE_DIAGNOSTIC_MESSAGE_CHARS = 1024"

record 'u evidence_env =
  evidence_api :: "'u url_api"
  uuid_version :: "string \<Rightarrow> nat"

datatype TestKind =
    UrlCanonicalization | PageTypeMatching | Extraction | SelectorCoverage | Pagination
  | DiscoveryTransitionTest | DiscoveredUrlPreview | CombinedUrlEvaluation

datatype CanonicalizationOutcome = Canonicalized | InvalidUrlOutcome

datatype CanonicalizationDecisionCode =
    SchemeNormalizedCode | HostNormalizedCode | DefaultPortRemovedCode | FragmentRemovedCode
  | PathNormalizedCode | QuerySortedCode | TrackingParameterRemovedCode
  | CustomParameterDroppedCode | ExplicitParameterKeptCode

record CanonicalizationDecisionEvidence =
  ev_code :: CanonicalizationDecisionCode
  ev_parameter :: "string option"

record CanonicalizationEvidence =
  ev_original_url :: string
  ev_canonical_url :: "string option"
  ev_outcome :: CanonicalizationOutcome
  ev_decisions :: "CanonicalizationDecisionEvidence list"

datatype MatcherKindEvidence = ExactUrlEv | ExactHostPathTemplateEv | PathPrefixOrGlobEv | RegexEv

record MatcherSpecificityEvidence =
  ev_matcher_kind_rank :: u8
  ev_literal_path_segments :: u32
  ev_explicit_query_constraints :: u32
  ev_literal_characters :: u32
  ev_wildcard_capture_count :: u32

record PageTypeCandidateEvidence =
  ev_page_type_id :: PageTypeId
  ev_page_type_name :: string
  ev_priority :: int
  ev_matcher_kind :: MatcherKindEvidence
  ev_specificity :: MatcherSpecificityEvidence
  ev_matched_patterns :: "string list"

datatype PageTypeMatchStatus = MatchedStatus | AmbiguousStatus | UnmatchedStatus

record PageTypeMatchEvidence =
  ev_decision :: PageTypeMatchStatus
  ev_winner :: "PageTypeCandidateEvidence option"
  ev_candidates :: "PageTypeCandidateEvidence list"

datatype DomainScopeStatus = InScopeStatus | ExternalStatus | BlockedStatus

text \<open>\<open>DomainScopeRationaleEvidence\<close> has the variants of \<open>DomainScopeRationale\<close> one to one.\<close>

record DomainScopeEvidence =
  ev_classification :: DomainScopeStatus
  ev_host :: string
  ev_rationale :: DomainScopeRationale

datatype SelectorCoverageStatus = Observed | NoMatches | SelectorUnavailable

record SelectorCoverageEvidence =
  ev_selector :: string
  ev_matches_found :: u32
  ev_status :: SelectorCoverageStatus

record TestDiagnostic =
  diag_code :: string
  diag_message :: string

record ExtractionFieldEvidence =
  field_name :: string
  field_observed :: bool

datatype ExtractionObservation =
    ExtractionAvailable "ExtractionFieldEvidence list"
  | ExtractionUnavailable string
  | ExtractionError TestDiagnostic

datatype PaginationKind = RelNext | NextOlderMoreLink | NumberedPagination | UrlPageNumber

record PaginationEvidence =
  pag_kind :: PaginationKind
  pag_selector :: "string option"
  pag_target_url :: "string option"

datatype TransitionBudgetExclusionEvidence =
    MaxPagesEv | MaxDurationEv | MaxDepthEv | MaxDownloadedBytesEv | PageTypePageBudgetEv
  | TransitionPerPageLinkLimitEv | TransitionTotalBudgetEv

record TransitionBudgetEvidence =
  budget_allowed :: bool
  budget_exclusion :: "TransitionBudgetExclusionEvidence option"

record DiscoveredUrlEvidence =
  raw_href :: string
  resolved_original_url :: "string option"
  disc_canonical_url :: "string option"
  disc_canonicalization :: "CanonicalizationEvidence option"
  disc_scope :: "DomainScopeEvidence option"
  duplicate :: bool
  duplicate_of_canonical_url :: "string option"
  disc_page_type_match :: "PageTypeMatchEvidence option"
  transition_eligible :: bool
  disc_budget :: "TransitionBudgetEvidence option"

record DiscoveryTransitionEvidence =
  dte_transition_id :: "DiscoveryTransitionId option"
  dte_transition_name :: "string option"
  dte_source_page_type_id :: "PageTypeId option"
  dte_target_page_type_id :: "PageTypeId option"
  dte_source_match :: "PageTypeMatchEvidence option"
  dte_selector :: SelectorCoverageEvidence
  dte_discovered_urls :: "DiscoveredUrlEvidence list"
  dte_eligible_link_count :: u32
  dte_per_page_limit :: u32
  dte_per_page_limit_reached :: bool

datatype PublishedComparisonStatus = Compared | NoActivePublishedVersion

record TestLabComparison =
  cmp_status :: PublishedComparisonStatus
  cmp_draft_version_id :: CrawlerVersionId
  cmp_draft_config_hash :: string
  cmp_published_version_id :: "CrawlerVersionId option"
  cmp_published_config_hash :: "string option"
  cmp_canonicalization_difference :: bool
  cmp_draft_canonicalization :: "CanonicalizationEvidence list"
  cmp_published_canonicalization :: "CanonicalizationEvidence list"
  cmp_page_type_match_difference :: bool
  cmp_draft_page_type_match :: "PageTypeMatchEvidence list"
  cmp_published_page_type_match :: "PageTypeMatchEvidence list"
  cmp_discovery_difference :: "bool option"
  cmp_extraction_difference :: "bool option"
  cmp_warnings :: "TestDiagnostic list"

record TestEvidence =
  te_schema_version :: u16
  te_id :: TestEvidenceId
  te_crawler_version_id :: CrawlerVersionId
  te_test_kind :: TestKind
  te_input_urls :: "string list"
  te_evaluated_page_type_id :: "PageTypeId option"
  te_tested_transition_id :: "DiscoveryTransitionId option"
  te_canonicalization :: "CanonicalizationEvidence list"
  te_page_type_match :: "PageTypeMatchEvidence list"
  te_extraction :: "ExtractionObservation option"
  te_selector_coverage :: "SelectorCoverageEvidence list"
  te_pagination :: "PaginationEvidence option"
  te_discovery :: "DiscoveryTransitionEvidence option"
  te_warnings :: "TestDiagnostic list"
  te_errors :: "TestDiagnostic list"
  te_artifact_ids :: "string list"
  te_config_hash :: string
  te_executed_at :: string
  te_published_comparison :: "TestLabComparison option"

section \<open>Copies of decisions\<close>

fun from_kind :: "UrlMatcherKind \<Rightarrow> MatcherKindEvidence" where
  "from_kind ExactUrlKind = ExactUrlEv"
| "from_kind ExactHostPathTemplateKind = ExactHostPathTemplateEv"
| "from_kind PathPrefixOrGlobKind = PathPrefixOrGlobEv"
| "from_kind RegexKind = RegexEv"

definition from_key :: "SpecificityKey \<Rightarrow> MatcherSpecificityEvidence" where
  "from_key key = \<lparr>ev_matcher_kind_rank = matcher_kind_rank key,
     ev_literal_path_segments = literal_path_segments key,
     ev_explicit_query_constraints = explicit_query_constraints key,
     ev_literal_characters = literal_characters key,
     ev_wildcard_capture_count = inverse_wildcards key\<rparr>"

definition from_candidate :: "PageTypeCandidate \<Rightarrow> PageTypeCandidateEvidence" where
  "from_candidate c = \<lparr>ev_page_type_id = cand_page_type_id c, ev_page_type_name = cand_page_type_name c,
     ev_priority = cand_priority c, ev_matcher_kind = from_kind (cand_matcher_kind c),
     ev_specificity = from_key (cand_specificity c), ev_matched_patterns = matched_patterns c\<rparr>"

fun from_decision :: "PageTypeMatchDecision \<Rightarrow> PageTypeMatchEvidence" where
  "from_decision (Matched c) =
     \<lparr>ev_decision = MatchedStatus, ev_winner = Some (from_candidate c), ev_candidates = [from_candidate c]\<rparr>"
| "from_decision (Ambiguous cs) =
     \<lparr>ev_decision = AmbiguousStatus, ev_winner = None, ev_candidates = map from_candidate cs\<rparr>"
| "from_decision Unmatched = \<lparr>ev_decision = UnmatchedStatus, ev_winner = None, ev_candidates = []\<rparr>"

fun from_classification :: "DomainScopeClassification \<Rightarrow> DomainScopeEvidence" where
  "from_classification (InScope h r) = \<lparr>ev_classification = InScopeStatus, ev_host = h, ev_rationale = r\<rparr>"
| "from_classification (External h r) = \<lparr>ev_classification = ExternalStatus, ev_host = h, ev_rationale = r\<rparr>"
| "from_classification (Blocked h r) = \<lparr>ev_classification = BlockedStatus, ev_host = h, ev_rationale = r\<rparr>"

section \<open>Behavioural comparison\<close>

fun evidence_kind_rank :: "MatcherKindEvidence \<Rightarrow> u8" where
  "evidence_kind_rank ExactUrlEv = 4"
| "evidence_kind_rank ExactHostPathTemplateEv = 3"
| "evidence_kind_rank PathPrefixOrGlobEv = 2"
| "evidence_kind_rank RegexEv = 1"

text \<open>\<open>SemanticPageTypeCandidate\<close> is the tuple of its fields, compared field by field.\<close>

type_synonym SemanticPageTypeCandidate =
  "string \<times> int \<times> u8 \<times> (u8 \<times> u32 \<times> u32 \<times> u32 \<times> u32) \<times> string list"

definition from_evidence :: "PageTypeCandidateEvidence \<Rightarrow> SemanticPageTypeCandidate" where
  "from_evidence c =
     (ev_page_type_name c, ev_priority c, evidence_kind_rank (ev_matcher_kind c),
      (ev_matcher_kind_rank (ev_specificity c), ev_literal_path_segments (ev_specificity c),
       ev_explicit_query_constraints (ev_specificity c), ev_literal_characters (ev_specificity c),
       ev_wildcard_capture_count (ev_specificity c)),
      sort (ev_matched_patterns c))"

definition semantic_candidate_multiset :: "PageTypeCandidateEvidence list \<Rightarrow> SemanticPageTypeCandidate list" where
  "semantic_candidate_multiset cs = sort (map from_evidence cs)"

definition semantic_winner :: "PageTypeCandidateEvidence option \<Rightarrow> SemanticPageTypeCandidate option" where
  "semantic_winner w = map_option from_evidence w"

definition behaviorally_equivalent :: "PageTypeMatchEvidence \<Rightarrow> PageTypeMatchEvidence \<Rightarrow> bool" where
  "behaviorally_equivalent a b \<longleftrightarrow>
     ev_decision a = ev_decision b
     \<and> semantic_candidate_multiset (ev_candidates a) = semantic_candidate_multiset (ev_candidates b)
     \<and> semantic_winner (ev_winner a) = semantic_winner (ev_winner b)"

definition page_type_match_sequences_behaviorally_equivalent ::
  "PageTypeMatchEvidence list \<Rightarrow> PageTypeMatchEvidence list \<Rightarrow> bool" where
  "page_type_match_sequences_behaviorally_equivalent left right \<longleftrightarrow>
     length left = length right \<and> list_all (\<lambda>(l, r). behaviorally_equivalent l r) (zip left right)"

section \<open>Validation\<close>

type_synonym evidence_result = "string + unit"

text \<open>The bound the checks repeat: not empty, at most so many characters, no control character.\<close>

definition bad_text :: "nat \<Rightarrow> string \<Rightarrow> bool" where
  "bad_text limit s \<longleftrightarrow> s = [] \<or> char_count s > limit \<or> any_char is_control s"

definition is_some_and :: "('a \<Rightarrow> bool) \<Rightarrow> 'a option \<Rightarrow> bool" where
  "is_some_and P x \<longleftrightarrow> (case x of None \<Rightarrow> False | Some a \<Rightarrow> P a)"

definition if_some :: "('a \<Rightarrow> evidence_result) \<Rightarrow> 'a option \<Rightarrow> evidence_result" where
  "if_some f x = (case x of None \<Rightarrow> Inr () | Some a \<Rightarrow> f a)"

definition reject_if :: "bool \<Rightarrow> string \<Rightarrow> evidence_result" where
  "reject_if b message = (if b then Inl message else Inr ())"

definition validate_url_string :: "'u evidence_env \<Rightarrow> string \<Rightarrow> evidence_result" where
  "validate_url_string env s =
     reject_if (char_count s > MAX_TEST_EVIDENCE_URL_CHARS \<or> any_char is_control s
                \<or> url_parse (evidence_api env) s = None)
       ''TestEvidence contains an invalid URL''"

definition validate_canonicalization_evidence ::
  "'u evidence_env \<Rightarrow> CanonicalizationEvidence \<Rightarrow> evidence_result" where
  "validate_canonicalization_evidence env e =
     (if bad_text MAX_TEST_EVIDENCE_URL_CHARS (ev_original_url e) then
        Inl ''canonicalization evidence contains an invalid original URL''
      else res_bind
        (case (ev_outcome e, ev_canonical_url e) of
           (Canonicalized, Some u) \<Rightarrow> validate_url_string env u
         | (InvalidUrlOutcome, None) \<Rightarrow> Inr ()
         | _ \<Rightarrow> Inl ''canonicalization evidence outcome is inconsistent'') (\<lambda>_.
        for_each (\<lambda>d. reject_if (is_some_and (bad_text MAX_TEST_EVIDENCE_URL_CHARS) (ev_parameter d))
                       ''canonicalization evidence contains an invalid parameter'')
          (ev_decisions e)))"

definition validate_page_type_candidate :: "'u evidence_env \<Rightarrow> PageTypeCandidateEvidence \<Rightarrow> evidence_result" where
  "validate_page_type_candidate env c =
     reject_if
       (uuid_version env (ev_page_type_id c) \<noteq> 7
        \<or> bad_text MAX_TEST_EVIDENCE_DIAGNOSTIC_MESSAGE_CHARS (ev_page_type_name c)
        \<or> length (ev_matched_patterns c) > MAX_TEST_EVIDENCE_INPUT_URLS
        \<or> list_ex (bad_text MAX_TEST_EVIDENCE_URL_CHARS) (ev_matched_patterns c))
       ''PageType candidate evidence is invalid''"

definition validate_page_type_match :: "'u evidence_env \<Rightarrow> PageTypeMatchEvidence \<Rightarrow> evidence_result" where
  "validate_page_type_match env e =
     res_bind (for_each (validate_page_type_candidate env) (ev_candidates e)) (\<lambda>_.
     res_bind (if_some (validate_page_type_candidate env) (ev_winner e)) (\<lambda>_.
       case ev_decision e of
         MatchedStatus \<Rightarrow>
           (case ev_winner e of
              None \<Rightarrow> Inl ''matched PageType evidence has no winner''
            | Some winner \<Rightarrow>
                reject_if (length (ev_candidates e) \<noteq> 1 \<or> ev_candidates e ! 0 \<noteq> winner)
                  ''matched PageType evidence has inconsistent candidates'')
       | AmbiguousStatus \<Rightarrow>
           reject_if (ev_winner e \<noteq> None \<or> length (ev_candidates e) < 2)
             ''ambiguous PageType evidence is incomplete''
       | UnmatchedStatus \<Rightarrow>
           reject_if (ev_winner e \<noteq> None \<or> ev_candidates e \<noteq> [])
             ''unmatched PageType evidence has candidates''))"

definition validate_selector_coverage :: "SelectorCoverageEvidence \<Rightarrow> evidence_result" where
  "validate_selector_coverage e =
     reject_if
       (bad_text MAX_TEST_EVIDENCE_URL_CHARS (ev_selector e)
        \<or> ev_matches_found e = 0 \<and> ev_status e = Observed
        \<or> ev_matches_found e > 0 \<and> ev_status e \<noteq> Observed)
       ''selector coverage evidence is invalid''"

definition validate_pagination :: "'u evidence_env \<Rightarrow> PaginationEvidence \<Rightarrow> evidence_result" where
  "validate_pagination env e =
     res_bind (reject_if (is_some_and (bad_text MAX_TEST_EVIDENCE_URL_CHARS) (pag_selector e))
                 ''pagination selector evidence is invalid'') (\<lambda>_.
     if_some (validate_url_string env) (pag_target_url e))"

definition validate_diagnostic :: "TestDiagnostic \<Rightarrow> evidence_result" where
  "validate_diagnostic d =
     reject_if (bad_text MAX_TEST_EVIDENCE_DIAGNOSTIC_CODE_CHARS (diag_code d)
                \<or> bad_text MAX_TEST_EVIDENCE_DIAGNOSTIC_MESSAGE_CHARS (diag_message d))
       ''TestEvidence diagnostic is invalid''"

fun validate_extraction :: "ExtractionObservation \<Rightarrow> evidence_result" where
  "validate_extraction (ExtractionAvailable fs) =
     (if length fs > MAX_TEST_EVIDENCE_DISCOVERED_URLS then
        Inl ''extraction observation is outside its bounded range''
      else for_each (\<lambda>f. reject_if (bad_text MAX_TEST_EVIDENCE_URL_CHARS (field_name f))
                          ''extraction field evidence is invalid'') fs)"
| "validate_extraction (ExtractionUnavailable reason) =
     reject_if (bad_text MAX_TEST_EVIDENCE_DIAGNOSTIC_MESSAGE_CHARS reason)
       ''extraction unavailable observation is invalid''"
| "validate_extraction (ExtractionError diagnostic) = validate_diagnostic diagnostic"

definition validate_discovered_url :: "'u evidence_env \<Rightarrow> DiscoveredUrlEvidence \<Rightarrow> evidence_result" where
  "validate_discovered_url env d =
     (if bad_text MAX_TEST_EVIDENCE_URL_CHARS (raw_href d)
         \<or> is_some_and (\<lambda>u. validate_url_string env u \<noteq> Inr ()) (duplicate_of_canonical_url d)
         \<or> duplicate d \<and> duplicate_of_canonical_url d = None
         \<or> \<not> duplicate d \<and> duplicate_of_canonical_url d \<noteq> None
      then Inl ''discovered URL evidence is invalid''
      else
        res_bind (if_some (validate_url_string env) (resolved_original_url d)) (\<lambda>_.
        res_bind (if_some (validate_url_string env) (disc_canonical_url d)) (\<lambda>_.
        res_bind (if_some (validate_canonicalization_evidence env) (disc_canonicalization d)) (\<lambda>_.
        res_bind (if_some (validate_page_type_match env) (disc_page_type_match d)) (\<lambda>_.
        if transition_eligible d
           \<and> (case disc_budget d of None \<Rightarrow> True | Some b \<Rightarrow> \<not> budget_allowed b)
        then Inl ''eligible discovered URL has no allowed budget evidence''
        else reject_if
          (is_some_and (\<lambda>b. budget_allowed b \<noteq> transition_eligible d
              \<or> \<not> budget_allowed b \<and> budget_exclusion b = None
              \<or> budget_allowed b \<and> budget_exclusion b \<noteq> None) (disc_budget d))
          ''discovered URL budget evidence is invalid'')))))"

definition validate_discovery :: "'u evidence_env \<Rightarrow> DiscoveryTransitionEvidence \<Rightarrow> evidence_result" where
  "validate_discovery env e =
     (let has_transition = (dte_transition_id e \<noteq> None) in
      if is_some_and (\<lambda>i. uuid_version env i \<noteq> 7) (dte_transition_id e)
         \<or> has_transition \<noteq> (dte_transition_name e \<noteq> None)
         \<or> has_transition \<noteq> (dte_source_page_type_id e \<noteq> None)
         \<or> has_transition \<noteq> (dte_target_page_type_id e \<noteq> None)
         \<or> is_some_and (bad_text MAX_TEST_EVIDENCE_DIAGNOSTIC_MESSAGE_CHARS) (dte_transition_name e)
         \<or> is_some_and (\<lambda>i. uuid_version env i \<noteq> 7) (dte_source_page_type_id e)
         \<or> is_some_and (\<lambda>i. uuid_version env i \<noteq> 7) (dte_target_page_type_id e)
         \<or> length (dte_discovered_urls e) > MAX_TEST_EVIDENCE_DISCOVERED_URLS
         \<or> unat (dte_eligible_link_count e) > length (dte_discovered_urls e)
         \<or> \<not> has_transition \<and> (dte_per_page_limit e \<noteq> 0 \<or> dte_per_page_limit_reached e)
         \<or> has_transition \<and> dte_per_page_limit e = 0
      then Inl ''discovery transition evidence is invalid''
      else
        res_bind (if_some (validate_page_type_match env) (dte_source_match e)) (\<lambda>_.
        res_bind (validate_selector_coverage (dte_selector e)) (\<lambda>_.
        for_each (validate_discovered_url env) (dte_discovered_urls e))))"

definition bad_hash :: "string \<Rightarrow> bool" where
  "bad_hash h \<longleftrightarrow> length h \<noteq> 64 \<or> \<not> list_all is_ascii_hexdigit h"

definition validate_comparison ::
  "'u evidence_env \<Rightarrow> TestLabComparison \<Rightarrow> TestEvidence \<Rightarrow> evidence_result" where
  "validate_comparison env c e =
     (if cmp_draft_version_id c \<noteq> te_crawler_version_id e
         \<or> cmp_draft_config_hash c \<noteq> te_config_hash e
         \<or> cmp_draft_canonicalization c \<noteq> te_canonicalization e
         \<or> cmp_draft_page_type_match c \<noteq> te_page_type_match e
         \<or> bad_hash (cmp_draft_config_hash c)
         \<or> length (cmp_draft_canonicalization c) > MAX_TEST_EVIDENCE_INPUT_URLS
         \<or> length (cmp_published_canonicalization c) > MAX_TEST_EVIDENCE_INPUT_URLS
         \<or> length (cmp_draft_page_type_match c) > MAX_TEST_EVIDENCE_INPUT_URLS
         \<or> length (cmp_published_page_type_match c) > MAX_TEST_EVIDENCE_INPUT_URLS
         \<or> length (cmp_warnings c) > MAX_TEST_EVIDENCE_DIAGNOSTICS
      then Inl ''Published comparison does not match evidence identity''
      else
        res_bind (for_each (validate_canonicalization_evidence env)
          (cmp_draft_canonicalization c @ cmp_published_canonicalization c)) (\<lambda>_.
        res_bind (for_each (validate_page_type_match env)
          (cmp_draft_page_type_match c @ cmp_published_page_type_match c)) (\<lambda>_.
        res_bind (for_each validate_diagnostic (cmp_warnings c)) (\<lambda>_.
        case cmp_status c of
          Compared \<Rightarrow>
            if (case cmp_published_version_id c of None \<Rightarrow> True | Some i \<Rightarrow> uuid_version env i \<noteq> 7)
               \<or> (case cmp_published_config_hash c of None \<Rightarrow> True | Some h \<Rightarrow> bad_hash h)
            then Inl ''Published comparison identity is incomplete''
            else reject_if
              (cmp_canonicalization_difference c
                 \<noteq> (cmp_draft_canonicalization c \<noteq> cmp_published_canonicalization c)
               \<or> cmp_page_type_match_difference c
                 = page_type_match_sequences_behaviorally_equivalent
                     (cmp_draft_page_type_match c) (cmp_published_page_type_match c))
              ''Published comparison differences are inconsistent''
        | NoActivePublishedVersion \<Rightarrow>
            reject_if
              (cmp_published_version_id c \<noteq> None \<or> cmp_published_config_hash c \<noteq> None
               \<or> cmp_published_canonicalization c \<noteq> [] \<or> cmp_published_page_type_match c \<noteq> []
               \<or> cmp_canonicalization_difference c \<or> cmp_page_type_match_difference c
               \<or> cmp_discovery_difference c \<noteq> None \<or> cmp_extraction_difference c \<noteq> None)
              ''no-Published comparison has Published identity''))))"

definition is_sorted_unique :: "string list \<Rightarrow> bool" where
  "is_sorted_unique xs \<longleftrightarrow>
     list_all (\<lambda>(a, b). a < b) (zip xs (drop 1 xs)) \<and> length (bs_collect xs) = length xs"

definition page_type_is_required :: "TestKind \<Rightarrow> bool" where
  "page_type_is_required k \<longleftrightarrow> k = Extraction \<or> k = SelectorCoverage"

definition page_type_is_allowed :: "TestKind \<Rightarrow> bool" where
  "page_type_is_allowed k \<longleftrightarrow> k \<in> {PageTypeMatching, Extraction, SelectorCoverage, CombinedUrlEvaluation}"

text \<open>The checks of one record that need no other function, in the order of the code.\<close>

definition validate_identity_and_bounds :: "'u evidence_env \<Rightarrow> TestEvidence \<Rightarrow> evidence_result" where
  "validate_identity_and_bounds env e =
     (if te_schema_version e \<noteq> TEST_EVIDENCE_SCHEMA_VERSION then
        Inl ''unsupported TestEvidence schema version''
      else if uuid_version env (te_id e) \<noteq> 7 \<or> uuid_version env (te_crawler_version_id e) \<noteq> 7
         \<or> is_some_and (\<lambda>i. uuid_version env i \<noteq> 7) (te_evaluated_page_type_id e)
         \<or> is_some_and (\<lambda>i. uuid_version env i \<noteq> 7) (te_tested_transition_id e)
         \<or> list_ex (\<lambda>i. uuid_version env i \<noteq> 7) (te_artifact_ids e) then
        Inl ''TestEvidence contains an invalid UUIDv7 identity''
      else if te_input_urls e = [] \<or> length (te_input_urls e) > MAX_TEST_EVIDENCE_INPUT_URLS then
        Inl ''TestEvidence input URL count is outside its bounded range''
      else if list_ex (bad_text MAX_TEST_EVIDENCE_URL_CHARS) (te_input_urls e) then
        Inl ''TestEvidence contains an invalid input URL''
      else if bad_hash (te_config_hash e) then
        Inl ''TestEvidence config hash is not a SHA-256 hex value''
      else if blank (te_executed_at e) \<or> any_char is_control (te_executed_at e) then
        Inl ''TestEvidence execution timestamp is invalid''
      else if length (te_artifact_ids e) > MAX_TEST_EVIDENCE_ARTIFACTS \<or> \<not> is_sorted_unique (te_artifact_ids e) then
        Inl ''TestEvidence artifact references are not deterministic''
      else if page_type_is_required (te_test_kind e) \<and> te_evaluated_page_type_id e = None
         \<or> \<not> page_type_is_allowed (te_test_kind e) \<and> te_evaluated_page_type_id e \<noteq> None then
        Inl ''TestEvidence PageType reference is inconsistent with its test kind''
      else if (te_test_kind e = DiscoveryTransitionTest) \<noteq> (te_tested_transition_id e \<noteq> None) then
        Inl ''TestEvidence transition reference is inconsistent with its test kind''
      else if te_test_kind e = Extraction \<and> te_extraction e = None then
        Inl ''extraction evidence is incomplete''
      else if te_test_kind e = DiscoveryTransitionTest
         \<and> (case te_discovery e of None \<Rightarrow> True | Some d \<Rightarrow> dte_transition_id d \<noteq> te_tested_transition_id e) then
        Inl ''transition evidence is incomplete''
      else if te_test_kind e = DiscoveredUrlPreview
         \<and> (case te_discovery e of None \<Rightarrow> True
            | Some d \<Rightarrow> dte_transition_id d \<noteq> None \<or> dte_transition_name d \<noteq> None
                \<or> dte_source_page_type_id d \<noteq> None \<or> dte_target_page_type_id d \<noteq> None) then
        Inl ''discovered URL preview evidence is incomplete''
      else if length (te_canonicalization e) > MAX_TEST_EVIDENCE_INPUT_URLS
         \<or> length (te_page_type_match e) > MAX_TEST_EVIDENCE_INPUT_URLS
         \<or> length (te_selector_coverage e) > MAX_TEST_EVIDENCE_INPUT_URLS then
        Inl ''TestEvidence observation count is outside its bounded range''
      else reject_if (length (te_warnings e) > MAX_TEST_EVIDENCE_DIAGNOSTICS
                      \<or> length (te_errors e) > MAX_TEST_EVIDENCE_DIAGNOSTICS)
        ''TestEvidence diagnostic count is outside its bounded range'')"

definition validate_evidence :: "'u evidence_env \<Rightarrow> TestEvidence \<Rightarrow> evidence_result" where
  "validate_evidence env e =
     res_bind (validate_identity_and_bounds env e) (\<lambda>_.
     res_bind (for_each validate_diagnostic (te_warnings e @ te_errors e)) (\<lambda>_.
     res_bind (for_each (validate_canonicalization_evidence env) (te_canonicalization e)) (\<lambda>_.
     res_bind (for_each (validate_page_type_match env) (te_page_type_match e)) (\<lambda>_.
     res_bind (for_each validate_selector_coverage (te_selector_coverage e)) (\<lambda>_.
     res_bind (if_some (validate_pagination env) (te_pagination e)) (\<lambda>_.
     res_bind (if_some (validate_discovery env) (te_discovery e)) (\<lambda>_.
     res_bind (if_some validate_extraction (te_extraction e)) (\<lambda>_.
     if_some (\<lambda>c. validate_comparison env c e) (te_published_comparison e)))))))))"

section \<open>Behaviour is what remains when identities are forgotten\<close>

lemma sort_key_map: "sort_key k (map g xs) = map g (sort_key (k \<circ> g) xs)"
proof -
  have "insort_key k (g x) (map g ys) = map g (insort_key (k \<circ> g) x ys)" for x ys
    by (induction ys) auto
  then show ?thesis by (induction xs) simp_all
qed

definition forget_id :: "'u PageType \<Rightarrow> 'u PageType" where
  "forget_id pt = pt\<lparr>pt_id := []\<rparr>"

definition forget_candidate_id :: "PageTypeCandidate \<Rightarrow> PageTypeCandidate" where
  "forget_candidate_id c = c\<lparr>cand_page_type_id := []\<rparr>"

fun forget_decision_ids :: "PageTypeMatchDecision \<Rightarrow> PageTypeMatchDecision" where
  "forget_decision_ids (Matched c) = Matched (forget_candidate_id c)"
| "forget_decision_ids (Ambiguous cs) = Ambiguous (map forget_candidate_id cs)"
| "forget_decision_ids Unmatched = Unmatched"

lemma page_type_candidate_forget:
  "page_type_candidate env u (forget_id pt) = map_option forget_candidate_id (page_type_candidate env u pt)"
  by (simp add: page_type_candidate_def forget_id_def forget_candidate_id_def option.map_comp o_def)

lemma candidates_of_forget:
  "candidates_of env u (map forget_id pts) = map forget_candidate_id (candidates_of env u pts)"
  by (induction pts) (auto simp: map_filter_simps page_type_candidate_forget split: option.splits)

lemma forget_candidate_keys [simp]:
  "cand_key (forget_candidate_id c) = cand_key c"
  "candidate_order (forget_candidate_id c) = candidate_order c"
  "top_ranked (map forget_candidate_id cs) (forget_candidate_id c) \<longleftrightarrow> top_ranked cs c"
  by (simp_all add: cand_key_def candidate_order_def forget_candidate_id_def top_ranked_def)

lemma resolve_forget:
  "resolve_page_type env u (map forget_id pts) = forget_decision_ids (resolve_page_type env u pts)"
proof -
  let ?cs = "candidates_of env u pts"
  have f: "filter (top_ranked (map forget_candidate_id ?cs)) (map forget_candidate_id ?cs)
      = map forget_candidate_id (filter (top_ranked ?cs) ?cs)"
    by (simp add: filter_map o_def)
  have o: "candidate_order \<circ> forget_candidate_id = candidate_order" by (simp add: fun_eq_iff)
  show ?thesis
  proof (cases "?cs = []")
    case True
    then show ?thesis by (simp add: resolve_page_type_eq candidates_of_forget)
  next
    case False
    have "sort_key candidate_order (filter (top_ranked ?cs) ?cs) \<noteq> []"
      using top_exists [OF False] by (metis set_empty set_sort)
    with False show ?thesis
      by (simp add: resolve_page_type_eq candidates_of_forget f sort_key_map o Let_def hd_map)
  qed
qed

lemma from_evidence_forget [simp]:
  "from_evidence (from_candidate (forget_candidate_id c)) = from_evidence (from_candidate c)"
  by (simp add: from_evidence_def from_candidate_def forget_candidate_id_def)

lemma sort_eq_iff: "sort xs = sort ys \<longleftrightarrow> mset xs = mset (ys :: 'a::linorder list)"
proof
  assume "sort xs = sort ys"
  then have "mset (sort xs) = mset (sort ys)" by (rule arg_cong)
  then show "mset xs = mset ys" by simp
next
  assume "mset xs = mset ys"
  then have "mset (sort xs) = mset ys" by simp
  then show "sort xs = sort ys" using properties_for_sort [of "sort xs" ys] by simp
qed

lemma behaviorally_equivalent_iff:
  "behaviorally_equivalent a b \<longleftrightarrow>
     ev_decision a = ev_decision b
     \<and> image_mset from_evidence (mset (ev_candidates a)) = image_mset from_evidence (mset (ev_candidates b))
     \<and> map_option from_evidence (ev_winner a) = map_option from_evidence (ev_winner b)"
  by (simp add: behaviorally_equivalent_def semantic_candidate_multiset_def semantic_winner_def sort_eq_iff)

lemma behaviorally_equivalent_forget:
  "behaviorally_equivalent (from_decision d) (from_decision (forget_decision_ids d))"
  by (cases d) (simp_all add: behaviorally_equivalent_iff multiset.map_comp o_def)

lemma behaviorally_equivalent_same:
  "same_decision d e \<Longrightarrow> behaviorally_equivalent (from_decision d) (from_decision e)"
  by (cases "(d, e)" rule: same_decision.cases) (auto simp: behaviorally_equivalent_iff)

lemma behaviorally_equivalent_trans:
  "behaviorally_equivalent a b \<Longrightarrow> behaviorally_equivalent b c \<Longrightarrow> behaviorally_equivalent a c"
  by (simp add: behaviorally_equivalent_def)

lemma behaviorally_equivalent_sym: "behaviorally_equivalent a b \<Longrightarrow> behaviorally_equivalent b a"
  by (simp add: behaviorally_equivalent_def)

text \<open>
  Behavioural comparison of page-type evidence ignores identities and candidate order and nothing
  else: two records are equivalent exactly when they have the same status, the same multiset of
  candidates up to page-type identity, and the same winner up to identity.  Versions whose page types
  agree up to identity and order, such as a published version and the draft cloned from it, therefore
  produce equivalent evidence for every URL.
\<close>
theorem clone_behaves_the_same:
  "(behaviorally_equivalent a b \<longleftrightarrow>
     ev_decision a = ev_decision b
     \<and> image_mset from_evidence (mset (ev_candidates a)) = image_mset from_evidence (mset (ev_candidates b))
     \<and> map_option from_evidence (ev_winner a) = map_option from_evidence (ev_winner b))
   \<and> (mset (map forget_id pts) = mset (map forget_id pts') \<longrightarrow>
     behaviorally_equivalent (from_decision (resolve_page_type env u pts))
       (from_decision (resolve_page_type env u pts')))"
proof (intro conjI impI)
  show "behaviorally_equivalent a b \<longleftrightarrow>
     ev_decision a = ev_decision b
     \<and> image_mset from_evidence (mset (ev_candidates a)) = image_mset from_evidence (mset (ev_candidates b))
     \<and> map_option from_evidence (ev_winner a) = map_option from_evidence (ev_winner b)"
    by (rule behaviorally_equivalent_iff)
  assume "mset (map forget_id pts) = mset (map forget_id pts')"
  then have "same_decision (forget_decision_ids (resolve_page_type env u pts))
      (forget_decision_ids (resolve_page_type env u pts'))"
    unfolding resolve_forget [symmetric] by (rule same_decision_perm)
  from behaviorally_equivalent_same [OF this]
  show "behaviorally_equivalent (from_decision (resolve_page_type env u pts))
       (from_decision (resolve_page_type env u pts'))"
    by (meson behaviorally_equivalent_forget behaviorally_equivalent_sym behaviorally_equivalent_trans)
qed

theorem clone_behaves_the_same_witness:
  "behaviorally_equivalent
     (from_decision (resolve_page_type sample_matcher_env (plain_https ''a'' ''/p/1'') [sample_page_type ''x'' ''/p'']))
     (from_decision (resolve_page_type sample_matcher_env (plain_https ''a'' ''/p/1'')
        [(sample_page_type ''x'' ''/p'')\<lparr>pt_id := ''fresh''\<rparr>]))"
  using clone_behaves_the_same [where pts = "[sample_page_type ''x'' ''/p'']"
      and pts' = "[(sample_page_type ''x'' ''/p'')\<lparr>pt_id := ''fresh''\<rparr>]"
      and env = sample_matcher_env and u = "plain_https ''a'' ''/p/1''", THEN conjunct2]
  by (simp add: forget_id_def)

text \<open>The evidence of a decision is structurally consistent; only its texts can be refused.\<close>

lemma reject_if_Inr [simp]: "reject_if b m = Inr u \<longleftrightarrow> \<not> b"
  by (simp add: reject_if_def)

lemma decision_evidence_valid:
  "validate_page_type_match ev (from_decision (resolve_page_type env u pts)) = Inr () \<longleftrightarrow>
     (\<forall>c \<in> set (ev_candidates (from_decision (resolve_page_type env u pts))).
        validate_page_type_candidate ev c = Inr ())"
proof (cases "resolve_page_type env u pts")
  case (Ambiguous cs)
  then have "2 \<le> length cs" by (auto simp: resolve_Ambiguous Let_def)
  with Ambiguous show ?thesis by (auto simp: validate_page_type_match_def result_simps if_some_def)
qed (auto simp: validate_page_type_match_def result_simps if_some_def)

end
