(* ===== verification/Crawler_Version.thy ===== *)
theory Crawler_Version
  imports Guardrails Domain_Scope Canonicalization
begin

text \<open>
  Crawler versions (\<open>crawler_version.rs\<close>) and crawlers (\<open>crawler.rs\<close>): a version is an editable draft
  until it is published, and immutable afterwards; a published version can be cloned to a new draft
  whose references are renamed to fresh identifiers.  Operations return the changed version; an
  error leaves the version as it was.  Identifiers drawn from UUIDs are arguments.
\<close>

section \<open>State\<close>

datatype CrawlerVersionState = Draft | Published

type_synonym CanonicalizationPolicyId = string
type_synonym DomainScopeId = string
type_synonym CollectionId = string

record 'u CrawlerVersion =
  cv_id :: CrawlerVersionId
  cv_crawler_id :: CrawlerId
  cv_state :: CrawlerVersionState
  cv_seeds :: "'u Seed list"
  cv_page_type_ids :: "PageTypeId list"
  cv_transition_ids :: "DiscoveryTransitionId list"
  cv_canonicalization_policy_id :: "CanonicalizationPolicyId option"
  cv_domain_scope_id :: "DomainScopeId option"
  cv_canonicalization :: CanonicalizationPolicy
  cv_domain_scope :: DomainScopePolicy
  cv_guardrails :: CrawlerVersionGuardrails

definition draft :: "CrawlerVersionId \<Rightarrow> CrawlerId \<Rightarrow> 'u CrawlerVersion" where
  "draft fresh crawler_id =
     \<lparr>cv_id = fresh, cv_crawler_id = crawler_id, cv_state = Draft, cv_seeds = [], cv_page_type_ids = [],
      cv_transition_ids = [], cv_canonicalization_policy_id = None, cv_domain_scope_id = None,
      cv_canonicalization = default_canonicalization, cv_domain_scope = default_scope,
      cv_guardrails = default_guardrails\<rparr>"

section \<open>Editing\<close>

definition ensure_draft :: "'u CrawlerVersion \<Rightarrow> unit product_result" where
  "ensure_draft v =
     (if cv_state v = Published then Inl (conflict ''published crawler versions are immutable'') else Inr ())"

definition add_seed :: "'u Seed \<Rightarrow> 'u CrawlerVersion \<Rightarrow> 'u CrawlerVersion product_result" where
  "add_seed seed v = res_bind (ensure_draft v) (\<lambda>_. Inr (v\<lparr>cv_seeds := cv_seeds v @ [seed]\<rparr>))"

definition outside_version :: ProductError where
  "outside_version = with_code InvalidPageTypeBudget ''PageType guardrail references a PageType outside the version''"

definition set_page_type_ids :: "PageTypeId list \<Rightarrow> 'u CrawlerVersion \<Rightarrow> 'u CrawlerVersion product_result" where
  "set_page_type_ids ids v =
     res_bind (ensure_draft v) (\<lambda>_.
       if list_ex (\<lambda>budget. page_type_id budget \<notin> set ids) (gr_page_types (cv_guardrails v))
       then Inl outside_version
       else Inr (v\<lparr>cv_page_type_ids := ids\<rparr>))"

definition set_transition_ids :: "DiscoveryTransitionId list \<Rightarrow> 'u CrawlerVersion \<Rightarrow> 'u CrawlerVersion product_result" where
  "set_transition_ids ids v = res_bind (ensure_draft v) (\<lambda>_. Inr (v\<lparr>cv_transition_ids := ids\<rparr>))"

definition set_canonicalization_policy_id ::
  "CanonicalizationPolicyId option \<Rightarrow> 'u CrawlerVersion \<Rightarrow> 'u CrawlerVersion product_result" where
  "set_canonicalization_policy_id i v =
     res_bind (ensure_draft v) (\<lambda>_. Inr (v\<lparr>cv_canonicalization_policy_id := i\<rparr>))"

definition set_domain_scope_id :: "DomainScopeId option \<Rightarrow> 'u CrawlerVersion \<Rightarrow> 'u CrawlerVersion product_result" where
  "set_domain_scope_id i v = res_bind (ensure_draft v) (\<lambda>_. Inr (v\<lparr>cv_domain_scope_id := i\<rparr>))"

definition set_canonicalization_policy ::
  "CanonicalizationPolicy \<Rightarrow> 'u CrawlerVersion \<Rightarrow> 'u CrawlerVersion product_result" where
  "set_canonicalization_policy policy v =
     res_bind (ensure_draft v) (\<lambda>_.
     res_bind (validate_canonicalization policy) (\<lambda>_. Inr (v\<lparr>cv_canonicalization := policy\<rparr>)))"

definition set_domain_scope ::
  "'u scope_env \<Rightarrow> DomainScopePolicy \<Rightarrow> 'u CrawlerVersion \<Rightarrow> 'u CrawlerVersion product_result" where
  "set_domain_scope env policy v =
     res_bind (ensure_draft v) (\<lambda>_.
     res_bind (validate_scope env policy) (\<lambda>_. Inr (v\<lparr>cv_domain_scope := policy\<rparr>)))"

definition set_guardrails :: "CrawlerVersionGuardrails \<Rightarrow> 'u CrawlerVersion \<Rightarrow> 'u CrawlerVersion product_result" where
  "set_guardrails guardrails v =
     res_bind (ensure_draft v) (\<lambda>_.
     res_bind (validate_guardrails guardrails) (\<lambda>_.
       if list_ex (\<lambda>budget. page_type_id budget \<notin> set (cv_page_type_ids v)) (gr_page_types guardrails)
       then Inl outside_version
       else Inr (v\<lparr>cv_guardrails := guardrails\<rparr>)))"

definition validate_semantic_contract :: "'u scope_env \<Rightarrow> 'u CrawlerVersion \<Rightarrow> unit product_result" where
  "validate_semantic_contract env v =
     res_bind (validate_canonicalization (cv_canonicalization v)) (\<lambda>_.
     res_bind (validate_scope env (cv_domain_scope v)) (\<lambda>_.
     res_bind (validate_guardrails (cv_guardrails v)) (\<lambda>_.
       if list_ex (\<lambda>budget. page_type_id budget \<notin> set (cv_page_type_ids v)) (gr_page_types (cv_guardrails v))
       then Inl outside_version else Inr ())))"

definition publish :: "'u CrawlerVersion \<Rightarrow> 'u CrawlerVersion product_result" where
  "publish v = res_bind (ensure_draft v) (\<lambda>_. Inr (v\<lparr>cv_state := Published\<rparr>))"

section \<open>Cloning a published version\<close>

text \<open>The identifiers a clone draws: \<open>fresh_seed i\<close> is the one given to the seed at position \<open>i\<close>.\<close>

record fresh_ids =
  fresh_version :: CrawlerVersionId
  fresh_seed :: "nat \<Rightarrow> SeedId"
  fresh_page_type :: "nat \<Rightarrow> PageTypeId"
  fresh_transition :: "nat \<Rightarrow> DiscoveryTransitionId"

fun position :: "'a \<Rightarrow> 'a list \<Rightarrow> nat option" where
  "position x [] = None"
| "position x (y # ys) = (if y = x then Some 0 else map_option Suc (position x ys))"

definition renamed_budget ::
  "PageTypeId list \<Rightarrow> PageTypeId list \<Rightarrow> PageTypeDiscoveryGuardrails \<Rightarrow> PageTypeDiscoveryGuardrails product_result" where
  "renamed_budget source_ids clone_ids budget =
     res_bind (ok_or (position (page_type_id budget) source_ids)
        (with_code InvalidPageTypeBudget ''published PageType guardrail references a missing PageType'')) (\<lambda>index.
     Inr (budget\<lparr>page_type_id := clone_ids ! index\<rparr>))"

definition draft_from_published ::
  "'u scope_env \<Rightarrow> fresh_ids \<Rightarrow> 'u CrawlerVersion \<Rightarrow> 'u CrawlerVersion product_result" where
  "draft_from_published env fresh v =
     res_bind (validate_semantic_contract env v) (\<lambda>_.
       if cv_state v \<noteq> Published then
         Inl (conflict ''only published crawler versions can create drafts'')
       else
         let source_ids = cv_page_type_ids v in
         if list_ex (\<lambda>seed. case entry_page_type_hint seed of None \<Rightarrow> False | Some hint \<Rightarrow> hint \<notin> set source_ids)
              (cv_seeds v)
         then Inl (conflict ''published seed references a missing Page Type'')
         else
           let seeds = map (\<lambda>(i, seed). seed\<lparr>seed_id := fresh_seed fresh i\<rparr>) (enumerate 0 (cv_seeds v));
               seed_hint_indexes = map (\<lambda>seed. Option.bind (entry_page_type_hint seed) (\<lambda>hint. position hint source_ids)) seeds;
               clone_ids = map (\<lambda>(i, _). fresh_page_type fresh i) (enumerate 0 source_ids)
           in res_bind (collect_results (renamed_budget source_ids clone_ids) (gr_page_types (cv_guardrails v))) (\<lambda>budgets.
              Inr (v\<lparr>cv_id := fresh_version fresh, cv_state := Draft,
                     cv_seeds := map (\<lambda>(seed, hint_index).
                        seed\<lparr>entry_page_type_hint := map_option (\<lambda>index. clone_ids ! index) hint_index\<rparr>)
                        (zip seeds seed_hint_indexes),
                     cv_page_type_ids := clone_ids,
                     cv_transition_ids := map (\<lambda>(i, _). fresh_transition fresh i) (enumerate 0 (cv_transition_ids v)),
                     cv_guardrails := (cv_guardrails v)\<lparr>gr_page_types := budgets\<rparr>\<rparr>)))"

section \<open>Crawlers\<close>

record OperationalOverrides =
  ov_max_pages :: "u64 LayerValue"
  ov_max_depth :: "u32 LayerValue"
  ov_max_duration_seconds :: "u64 LayerValue"
  ov_concurrency :: "u32 LayerValue"
  ov_request_delay_ms :: "u64 LayerValue"
  ov_timeout_ms :: "u64 LayerValue"
  ov_screenshot :: "bool LayerValue"
  ov_asset_download_limit_bytes :: "u64 LayerValue"

definition default_overrides :: OperationalOverrides where
  "default_overrides = \<lparr>ov_max_pages = Inherit, ov_max_depth = Inherit, ov_max_duration_seconds = Inherit,
     ov_concurrency = Inherit, ov_request_delay_ms = Inherit, ov_timeout_ms = Inherit,
     ov_screenshot = Inherit, ov_asset_download_limit_bytes = Inherit\<rparr>"

record Crawler =
  crawler_id :: CrawlerId
  crawler_name :: string
  crawler_collection_id :: "CollectionId option"
  operational_defaults :: OperationalOverrides
  active_published_version_id :: "CrawlerVersionId option"
  active_draft_version_id :: "CrawlerVersionId option"

definition new_crawler :: "CrawlerId \<Rightarrow> string \<Rightarrow> Crawler" where
  "new_crawler fresh name = \<lparr>crawler_id = fresh, crawler_name = name, crawler_collection_id = None,
     operational_defaults = default_overrides, active_published_version_id = None,
     active_draft_version_id = None\<rparr>"

definition set_operational_defaults :: "OperationalOverrides \<Rightarrow> Crawler \<Rightarrow> Crawler" where
  "set_operational_defaults defaults c = c\<lparr>operational_defaults := defaults\<rparr>"

definition activate_draft :: "'u CrawlerVersion \<Rightarrow> Crawler \<Rightarrow> Crawler product_result" where
  "activate_draft v c =
     (if cv_crawler_id v \<noteq> crawler_id c \<or> cv_state v \<noteq> Draft then
        Inl (conflict ''draft version does not belong to this crawler'')
      else if (case active_draft_version_id c of None \<Rightarrow> False | Some i \<Rightarrow> i \<noteq> cv_id v) then
        Inl (conflict ''crawler already has an active draft'')
      else Inr (c\<lparr>active_draft_version_id := Some (cv_id v)\<rparr>))"

definition reactivate_published :: "'u CrawlerVersion \<Rightarrow> Crawler \<Rightarrow> Crawler product_result" where
  "reactivate_published v c =
     (if cv_crawler_id v \<noteq> crawler_id c \<or> cv_state v \<noteq> Published then
        Inl (conflict ''published version does not belong to this crawler'')
      else
        let c' = (if active_draft_version_id c = Some (cv_id v) then c\<lparr>active_draft_version_id := None\<rparr> else c)
        in Inr (c'\<lparr>active_published_version_id := Some (cv_id v)\<rparr>))"

section \<open>Immutability and the semantic contract\<close>

text \<open>
  The interface between a versioned object and its editors: editing is refused on a frozen object,
  keeps its identity and preserves the contract.  Over any such interface a history of edits, each
  of which may fail, keeps identity and contract and stops at the first frozen state.
\<close>

locale frozen_object =
  fixes edit :: "'e \<Rightarrow> 'v \<Rightarrow> 'r + 'v"
    and frozen :: "'v \<Rightarrow> bool"
    and contract :: "'v \<Rightarrow> bool"
    and ident :: "'v \<Rightarrow> 'i"
  assumes frozen_refused: "frozen v \<Longrightarrow> \<exists>err. edit e v = Inl err"
    and edit_contract: "contract v \<Longrightarrow> edit e v = Inr w \<Longrightarrow> contract w"
    and edit_ident: "edit e v = Inr w \<Longrightarrow> ident w = ident v"
begin

definition attempt_edit :: "'e \<Rightarrow> 'v \<Rightarrow> 'v" where
  "attempt_edit e v = (case edit e v of Inl _ \<Rightarrow> v | Inr w \<Rightarrow> w)"

lemma fold_frozen: "frozen v \<Longrightarrow> fold attempt_edit es v = v"
proof (induction es)
  case (Cons e es)
  from frozen_refused [OF Cons.prems, of e] have "attempt_edit e v = v"
    by (auto simp: attempt_edit_def)
  with Cons show ?case by simp
qed simp

lemma fold_contract: "contract v \<Longrightarrow> contract (fold attempt_edit es v)"
  by (induction es arbitrary: v) (auto simp: attempt_edit_def dest: edit_contract split: sum.splits)

lemma fold_ident: "ident (fold attempt_edit es v) = ident v"
  by (induction es arbitrary: v) (auto simp: attempt_edit_def dest: edit_ident split: sum.splits)

end

datatype 'u version_edit =
    AddSeed "'u Seed"
  | SetPageTypeIds "PageTypeId list"
  | SetTransitionIds "DiscoveryTransitionId list"
  | SetCanonicalizationPolicyId "CanonicalizationPolicyId option"
  | SetDomainScopeId "DomainScopeId option"
  | SetCanonicalizationPolicy CanonicalizationPolicy
  | SetDomainScope DomainScopePolicy
  | SetGuardrails CrawlerVersionGuardrails
  | Publish

fun apply_edit :: "'u scope_env \<Rightarrow> 'u version_edit \<Rightarrow> 'u CrawlerVersion \<Rightarrow> 'u CrawlerVersion product_result" where
  "apply_edit env (AddSeed s) v = add_seed s v"
| "apply_edit env (SetPageTypeIds ids) v = set_page_type_ids ids v"
| "apply_edit env (SetTransitionIds ids) v = set_transition_ids ids v"
| "apply_edit env (SetCanonicalizationPolicyId i) v = set_canonicalization_policy_id i v"
| "apply_edit env (SetDomainScopeId i) v = set_domain_scope_id i v"
| "apply_edit env (SetCanonicalizationPolicy p) v = set_canonicalization_policy p v"
| "apply_edit env (SetDomainScope p) v = set_domain_scope env p v"
| "apply_edit env (SetGuardrails g) v = set_guardrails g v"
| "apply_edit env Publish v = publish v"

text \<open>A caller that keeps the version it has when an edit is refused.\<close>

definition run_edits :: "'u scope_env \<Rightarrow> 'u version_edit list \<Rightarrow> 'u CrawlerVersion \<Rightarrow> 'u CrawlerVersion" where
  "run_edits env es v = fold (\<lambda>e v. case apply_edit env e v of Inl _ \<Rightarrow> v | Inr w \<Rightarrow> w) es v"

lemmas edit_defs = add_seed_def set_page_type_ids_def set_transition_ids_def
  set_canonicalization_policy_id_def set_domain_scope_id_def set_canonicalization_policy_def
  set_domain_scope_def set_guardrails_def publish_def

lemma contract_iff:
  "validate_semantic_contract env v = Inr () \<longleftrightarrow>
     validate_canonicalization (cv_canonicalization v) = Inr ()
     \<and> validate_scope env (cv_domain_scope v) = Inr ()
     \<and> guardrails_ok (cv_guardrails v)
     \<and> page_type_id ` set (gr_page_types (cv_guardrails v)) \<subseteq> set (cv_page_type_ids v)"
  by (auto simp: validate_semantic_contract_def result_simps validate_guardrails_ok list_ex_iff)

lemma ensure_draft_Inr [simp]: "ensure_draft v = Inr u \<longleftrightarrow> cv_state v = Draft"
  by (cases "cv_state v") (auto simp: ensure_draft_def)

lemma apply_edit_frozen: "cv_state v = Published \<Longrightarrow> \<exists>err. apply_edit env e v = Inl err"
  by (cases e) (auto simp: edit_defs ensure_draft_def)

lemma apply_edit_contract:
  "validate_semantic_contract env v = Inr () \<Longrightarrow> apply_edit env e v = Inr w
     \<Longrightarrow> validate_semantic_contract env w = Inr ()"
  by (cases e) (auto simp: contract_iff edit_defs result_simps list_ex_iff validate_guardrails_ok
      image_subset_iff split: if_splits)

lemma apply_edit_ident:
  "apply_edit env e v = Inr w \<Longrightarrow> (cv_id w, cv_crawler_id w) = (cv_id v, cv_crawler_id v)"
  by (cases e) (auto simp: edit_defs result_simps split: if_splits)

interpretation version: frozen_object "apply_edit env" "\<lambda>v. cv_state v = Published"
  "\<lambda>v. validate_semantic_contract env v = Inr ()" "\<lambda>v. (cv_id v, cv_crawler_id v)"
  by unfold_locales (auto simp: apply_edit_frozen intro: apply_edit_contract dest: apply_edit_ident)

lemma run_edits_fold: "run_edits env es v = fold (version.attempt_edit env) es v"
  by (simp add: run_edits_def version.attempt_edit_def [abs_def])

lemma draft_contract: "validate_semantic_contract env (draft i c) = Inr ()"
  by (simp add: contract_iff draft_def default_guardrails_ok default_canonicalization_def default_scope_def
      validate_canonicalization_def validate_scope_def) (simp add: default_guardrails_def)

lemma publish_freezes: "cv_state (run_edits env (es @ [Publish]) v) = Published"
proof -
  have "cv_state (version.attempt_edit env Publish w) = Published" for w
    by (cases "cv_state w") (simp_all add: version.attempt_edit_def publish_def ensure_draft_def)
  then show ?thesis by (simp add: run_edits_fold)
qed

text \<open>
  Published crawler versions are immutable and always satisfy their semantic contract.  Whatever
  edits are attempted on a new draft, in whatever order and however many of them are refused, the
  version keeps its identity and its crawler, its policies and guardrails validate, and every
  page-type budget refers to a page type of the version; once it has been published, no further
  edits change anything about it.
\<close>
theorem published_versions_immutable:
  "validate_semantic_contract env (run_edits env es (draft i c)) = Inr ()
   \<and> cv_id (run_edits env es (draft i c)) = i \<and> cv_crawler_id (run_edits env es (draft i c)) = c
   \<and> cv_state (run_edits env (es @ [Publish]) (draft i c)) = Published
   \<and> run_edits env (es @ Publish # later) (draft i c) = run_edits env (es @ [Publish]) (draft i c)"
proof (intro conjI)
  let ?v = "draft i c"
  show "validate_semantic_contract env (run_edits env es ?v) = Inr ()"
    unfolding run_edits_fold using draft_contract by (rule version.fold_contract)
  from version.fold_ident [of env es ?v] show "cv_id (run_edits env es ?v) = i"
    "cv_crawler_id (run_edits env es ?v) = c" by (simp_all add: run_edits_fold draft_def)
  show pub: "cv_state (run_edits env (es @ [Publish]) ?v) = Published" by (rule publish_freezes)
  have "run_edits env (es @ Publish # later) ?v = run_edits env later (run_edits env (es @ [Publish]) ?v)"
    by (simp add: run_edits_def)
  also have "\<dots> = run_edits env (es @ [Publish]) ?v"
    unfolding run_edits_fold [of env later] using pub by (rule version.fold_frozen)
  finally show "run_edits env (es @ Publish # later) ?v = run_edits env (es @ [Publish]) ?v" .
qed

section \<open>What a clone is\<close>

lemma position_None [simp]: "position x xs = None \<longleftrightarrow> x \<notin> set xs"
  by (induction xs) auto

lemma position_Some: "position x xs = Some i \<Longrightarrow> i < length xs \<and> xs ! i = x"
  by (induction xs arbitrary: i) (auto split: if_splits)

text \<open>The renaming of page types a clone applies to every reference.\<close>

definition renamed :: "fresh_ids \<Rightarrow> PageTypeId list \<Rightarrow> PageTypeId \<Rightarrow> PageTypeId" where
  "renamed fresh source_ids i = fresh_page_type fresh (the (position i source_ids))"

definition clone_of :: "fresh_ids \<Rightarrow> 'u CrawlerVersion \<Rightarrow> 'u CrawlerVersion" where
  "clone_of fresh v =
     (let \<rho> = renamed fresh (cv_page_type_ids v) in
      v\<lparr>cv_id := fresh_version fresh, cv_state := Draft,
        cv_seeds := map (\<lambda>(i, seed). seed\<lparr>seed_id := fresh_seed fresh i,
           entry_page_type_hint := map_option \<rho> (entry_page_type_hint seed)\<rparr>) (enumerate 0 (cv_seeds v)),
        cv_page_type_ids := map (fresh_page_type fresh) [0..<length (cv_page_type_ids v)],
        cv_transition_ids := map (fresh_transition fresh) [0..<length (cv_transition_ids v)],
        cv_guardrails := (cv_guardrails v)\<lparr>gr_page_types :=
           map (\<lambda>b. b\<lparr>page_type_id := \<rho> (page_type_id b)\<rparr>) (gr_page_types (cv_guardrails v))\<rparr>\<rparr>)"

definition hints_owned :: "'u CrawlerVersion \<Rightarrow> bool" where
  "hints_owned v \<longleftrightarrow> (\<forall>seed \<in> set (cv_seeds v). \<forall>hint. entry_page_type_hint seed = Some hint
     \<longrightarrow> hint \<in> set (cv_page_type_ids v))"

lemma clone_ids_eq: "map (\<lambda>(i, _). f i) (enumerate 0 xs) = map f [0..<length xs]"
  by (rule nth_equalityI) (simp_all add: nth_enumerate_eq case_prod_beta)

lemma collect_results_total:
  "(\<And>x. x \<in> set xs \<Longrightarrow> f x = Inr (g x)) \<Longrightarrow> collect_results f xs = Inr (map g xs)"
  by (induction xs) auto

lemma renamed_budget_owned:
  assumes "page_type_id b \<in> set ids"
  shows "renamed_budget ids (map (fresh_page_type fresh) [0..<length ids]) b
      = Inr (b\<lparr>page_type_id := renamed fresh ids (page_type_id b)\<rparr>)"
proof -
  from assms obtain i where "position (page_type_id b) ids = Some i" by (metis not_None_eq position_None)
  with position_Some [OF this] show ?thesis by (simp add: renamed_budget_def renamed_def)
qed

lemma hint_renamed:
  assumes "\<And>h. hint = Some h \<Longrightarrow> h \<in> set ids"
  shows "map_option (\<lambda>i. map (fresh_page_type fresh) [0..<length ids] ! i) (Option.bind hint (\<lambda>h. position h ids))
     = map_option (renamed fresh ids) hint"
proof (cases hint)
  case (Some h)
  with assms obtain i where "position h ids = Some i" by (metis not_None_eq position_None)
  with Some position_Some [OF this] show ?thesis by (simp add: renamed_def)
qed simp

lemma zip_map_self: "zip xs (map f xs) = map (\<lambda>x. (x, f x)) xs"
  by (induction xs) auto

lemma draft_from_published_clone:
  assumes contract: "validate_semantic_contract env v = Inr ()" and pub: "cv_state v = Published"
    and hints: "hints_owned v"
  shows "draft_from_published env fresh v = Inr (clone_of fresh v)"
proof -
  let ?ids = "cv_page_type_ids v"
  let ?clone = "map (fresh_page_type fresh) [0..<length ?ids]"
  have h: "\<not> list_ex (\<lambda>seed. case entry_page_type_hint seed of None \<Rightarrow> False | Some hint \<Rightarrow> hint \<notin> set ?ids) (cv_seeds v)"
    using hints by (auto simp: list_ex_iff hints_owned_def split: option.splits)
  from contract have "\<And>b. b \<in> set (gr_page_types (cv_guardrails v)) \<Longrightarrow> page_type_id b \<in> set ?ids"
    by (auto simp: contract_iff)
  then have b: "collect_results (renamed_budget ?ids ?clone) (gr_page_types (cv_guardrails v))
      = Inr (map (\<lambda>b. b\<lparr>page_type_id := renamed fresh ?ids (page_type_id b)\<rparr>) (gr_page_types (cv_guardrails v)))"
    by (intro collect_results_total renamed_budget_owned)
  have "map_option (\<lambda>i. ?clone ! i) (Option.bind (entry_page_type_hint seed) (\<lambda>h. position h ?ids))
      = map_option (renamed fresh ?ids) (entry_page_type_hint seed)" if "seed \<in> set (cv_seeds v)" for seed
    using hints that by (intro hint_renamed) (auto simp: hints_owned_def)
  then have s: "map (\<lambda>(seed, hint_index). seed\<lparr>entry_page_type_hint := map_option (\<lambda>index. ?clone ! index) hint_index\<rparr>)
       (zip seeds (map (\<lambda>seed. Option.bind (entry_page_type_hint seed) (\<lambda>hint. position hint ?ids)) seeds))
     = map (\<lambda>(i, seed). seed\<lparr>seed_id := fresh_seed fresh i,
           entry_page_type_hint := map_option (renamed fresh ?ids) (entry_page_type_hint seed)\<rparr>) (enumerate 0 (cv_seeds v))"
    if "seeds = map (\<lambda>(i, seed). seed\<lparr>seed_id := fresh_seed fresh i\<rparr>) (enumerate 0 (cv_seeds v))" for seeds
    unfolding zip_map_self that by (auto simp: in_set_enumerate_eq)
  show ?thesis
    unfolding draft_from_published_def contract res_bind_simps Let_def clone_ids_eq b s [OF refl]
    using pub h by (simp add: clone_of_def Let_def)
qed

lemma renamed_inj:
  assumes "inj (fresh_page_type fresh)" shows "inj_on (renamed fresh ids) (set ids)"
proof (rule inj_onI)
  fix x y
  assume "x \<in> set ids" "y \<in> set ids" and e: "renamed fresh ids x = renamed fresh ids y"
  then obtain i j where i: "position x ids = Some i" and j: "position y ids = Some j"
    by (metis not_None_eq position_None)
  with e assms have "i = j" by (simp add: renamed_def inj_eq)
  with position_Some [OF i] position_Some [OF j] show "x = y" by simp
qed

lemma clone_contract:
  assumes fresh: "inj (fresh_page_type fresh)" and contract: "validate_semantic_contract env v = Inr ()"
  shows "validate_semantic_contract env (clone_of fresh v) = Inr ()"
proof -
  let ?ids = "cv_page_type_ids v" and ?ps = "gr_page_types (cv_guardrails v)"
  from contract have sub: "page_type_id ` set ?ps \<subseteq> set ?ids" and g: "guardrails_ok (cv_guardrails v)"
    by (auto simp: contract_iff)
  then have d: "distinct (map page_type_id ?ps)" by (simp add: guardrails_ok_def page_type_budgets_ok_def)
  have "distinct (map (renamed fresh ?ids) (map page_type_id ?ps))"
    using d inj_on_subset [OF renamed_inj [OF fresh] sub] by (simp add: distinct_map comp_inj_on)
  then have g': "guardrails_ok (cv_guardrails (clone_of fresh v))"
    using g by (auto simp: guardrails_ok_def page_type_budgets_ok_def clone_of_def Let_def o_def)
  have "renamed fresh ?ids i \<in> fresh_page_type fresh ` {0..<length ?ids}" if "i \<in> set ?ids" for i
  proof -
    from that obtain k where "position i ?ids = Some k" by (metis not_None_eq position_None)
    with position_Some [OF this] show ?thesis by (simp add: renamed_def)
  qed
  with sub have "page_type_id ` set (gr_page_types (cv_guardrails (clone_of fresh v)))
      \<subseteq> set (cv_page_type_ids (clone_of fresh v))"
    by (auto simp: clone_of_def Let_def image_subset_iff)
  with contract g' show ?thesis by (simp add: contract_iff) (simp add: clone_of_def Let_def)
qed

text \<open>
  A draft is created from a version exactly when that version is published, satisfies its semantic
  contract and every entry hint of its seeds names one of its page types.  The draft is then the
  version with one consistent renaming of page types applied to seed hints and budgets, with fresh
  identifiers for itself, its seeds, page types and transitions, and everything else kept.  When the
  fresh page-type identifiers are distinct the draft satisfies the semantic contract.
\<close>
theorem draft_from_published_renames:
  "((\<exists>w. draft_from_published env fresh v = Inr w) \<longleftrightarrow>
      validate_semantic_contract env v = Inr () \<and> cv_state v = Published \<and> hints_owned v)
   \<and> (draft_from_published env fresh v = Inr w \<longrightarrow>
      w = clone_of fresh v \<and> (inj (fresh_page_type fresh) \<longrightarrow> validate_semantic_contract env w = Inr ()))"
proof -
  have need: "validate_semantic_contract env v = Inr () \<and> cv_state v = Published \<and> hints_owned v"
    if "draft_from_published env fresh v = Inr w" for w
    using that by (auto simp: draft_from_published_def result_simps Let_def list_ex_iff hints_owned_def split: if_splits)
  show ?thesis
  proof (cases "validate_semantic_contract env v = Inr () \<and> cv_state v = Published \<and> hints_owned v")
    case True
    then have "draft_from_published env fresh v = Inr (clone_of fresh v)"
      by (simp add: draft_from_published_clone)
    with True show ?thesis by (auto intro: clone_contract)
  next
    case False
    with need show ?thesis by blast
  qed
qed

definition sample_version :: "plain_url CrawlerVersion" where
  "sample_version = (draft ''v1'' ''c1'')\<lparr>cv_state := Published, cv_page_type_ids := [''p'', ''q''],
     cv_seeds := [(new_seed ''s'' (plain_https ''a'' ''/'') (plain_https ''a'' ''/''))\<lparr>entry_page_type_hint := Some ''q''\<rparr>]\<rparr>"

definition sample_fresh :: fresh_ids where
  "sample_fresh = \<lparr>fresh_version = ''v2'', fresh_seed = (\<lambda>i. replicate i (CHR ''s'')),
     fresh_page_type = (\<lambda>i. replicate i (CHR ''t'')), fresh_transition = (\<lambda>i. replicate i (CHR ''u''))\<rparr>"

theorem draft_from_published_renames_witness:
  "\<exists>w. draft_from_published bracket_env sample_fresh sample_version = Inr w
     \<and> validate_semantic_contract bracket_env w = Inr ()
     \<and> map entry_page_type_hint (cv_seeds w) = [Some ''t'']"
proof -
  have c: "validate_semantic_contract bracket_env sample_version = Inr ()"
    using draft_contract [of bracket_env "''v1''" "''c1''"]
    by (simp add: contract_iff sample_version_def draft_def default_guardrails_def)
  have p: "cv_state sample_version = Published" and h: "hints_owned sample_version"
    by (simp_all add: sample_version_def hints_owned_def)
  have i: "inj (fresh_page_type sample_fresh)"
    by (auto simp: sample_fresh_def inj_def dest: arg_cong [where f = length])
  from draft_from_published_renames [of bracket_env sample_fresh sample_version] c p h
  obtain w where w: "draft_from_published bracket_env sample_fresh sample_version = Inr w" by blast
  moreover from draft_from_published_renames [of bracket_env sample_fresh sample_version w, THEN conjunct2] w i
  have "w = clone_of sample_fresh sample_version" "validate_semantic_contract bracket_env w = Inr ()" by blast+
  moreover have "map entry_page_type_hint (cv_seeds (clone_of sample_fresh sample_version)) = [Some ''t'']"
    by (simp add: clone_of_def sample_version_def sample_fresh_def renamed_def enumerate_simps)
  ultimately show ?thesis by auto
qed

end
