(* ===== verification/Test_Lab.thy ===== *)
theory Test_Lab
  imports Test_Evidence Crawler_Version Budget
begin

text \<open>
  The Test Lab evaluator (\<open>erabi-crawler/src/test_lab/service.rs\<close>): canonicalisation and page-type
  evidence of the input URLs, the discovery evidence of one observed page, and the comparison of a
  draft with the active published version.  It composes canonicalisation, domain scope, matching and
  the discovery budget.  Observations come from a provider and are arguments; joining a relative
  reference to a URL is the library function \<open>url_join\<close>.  Diagnostics are collected up to a bound,
  so every function that reports takes and returns the list so far.
\<close>

section \<open>Requests and observations\<close>

definition MAX_OBSERVED_LINKS :: nat where "MAX_OBSERVED_LINKS = 64"

record 'u lab_env =
  lab_api :: "'u url_api"
  lab_psl_domain :: "string \<Rightarrow> string option"
  lab_regex_new :: "string \<Rightarrow> (string \<Rightarrow> bool) option"
  lab_regex_escape :: "string \<Rightarrow> string"
  lab_uuid_version :: "string \<Rightarrow> nat"
  url_join :: "'u \<Rightarrow> string \<Rightarrow> 'u option"

definition lab_scope :: "'u lab_env \<Rightarrow> 'u scope_env" where
  "lab_scope env = \<lparr>scope_api = lab_api env, psl_domain = lab_psl_domain env\<rparr>"

definition lab_matcher :: "'u lab_env \<Rightarrow> 'u matcher_env" where
  "lab_matcher env = \<lparr>matcher_api = lab_api env, regex_new = lab_regex_new env, regex_escape = lab_regex_escape env\<rparr>"

definition lab_evidence :: "'u lab_env \<Rightarrow> 'u evidence_env" where
  "lab_evidence env = \<lparr>evidence_api = lab_api env, uuid_version = lab_uuid_version env\<rparr>"

datatype TestLabError =
    CrawlerNotFound | CrawlerVersionNotFound | VersionNotOwnedByCrawler | VersionNotDraft
  | VersionNotActiveDraft | PageTypeNotFound | PageTypeNotOwnedByVersion | DiscoveryTransitionNotFound
  | TransitionNotOwnedByVersion | InvalidRequest | TooManyUrls | ProviderUnavailable
  | ProviderObservationRequestMismatch | ProviderObservationInvalid | ArtifactNotFound
  | ArtifactNotReusable | TestEvidenceNotFound | TestEvidenceNotOwnedByVersion
  | ConfigurationChanged | PersistedStateInvalid | PersistenceFailed

record TestLabRequest =
  rq_test_kind :: TestKind
  rq_input_urls :: "string list"
  rq_page_type_id :: "PageTypeId option"
  rq_transition_id :: "DiscoveryTransitionId option"
  rq_compare_with_active_published :: bool
  rq_reuse_artifact_ids :: "string list"

record ObservedLink =
  link_href :: string
  link_selector_of :: "string option"

record SelectorObservation =
  so_selector :: string
  so_matches_found :: u32

record PaginationObservation =
  po_kind :: PaginationKind
  po_selector :: "string option"
  po_target_url :: "string option"

record PageObservation =
  requested_url :: string
  final_url :: "string option"
  obs_artifact_ids :: "string list"
  discovered_links :: "ObservedLink list"
  selector_observations :: "SelectorObservation list"
  pagination_observations :: "PaginationObservation list"

text \<open>A semantic snapshot, with each stored page type and transition read as its domain value.\<close>

record 'u CrawlerSemanticSnapshot =
  snap_version :: "'u CrawlerVersion"
  snap_page_types :: "'u PageType list"
  snap_transitions :: "DiscoveryTransition list"
  snap_config_hash :: string

record 'u CrawlerEvaluationSnapshot =
  snap_draft :: "'u CrawlerSemanticSnapshot"
  snap_published :: "'u CrawlerSemanticSnapshot option"

definition requires_provider :: "TestKind \<Rightarrow> bool" where
  "requires_provider k \<longleftrightarrow>
     k \<in> {Extraction, SelectorCoverage, Pagination, DiscoveredUrlPreview, DiscoveryTransitionTest}"

definition validate_request :: "TestLabRequest \<Rightarrow> TestLabError + unit" where
  "validate_request r =
     (if rq_input_urls r = [] then Inl InvalidRequest
      else if length (rq_input_urls r) > MAX_TEST_EVIDENCE_INPUT_URLS then Inl TooManyUrls
      else if list_ex (\<lambda>u. u = [] \<or> char_count u > MAX_TEST_EVIDENCE_URL_CHARS) (rq_input_urls r) then
        Inl InvalidRequest
      else if length (rq_reuse_artifact_ids r) > MAX_TEST_EVIDENCE_ARTIFACTS then Inl InvalidRequest
      else if page_type_is_required (rq_test_kind r) \<and> rq_page_type_id r = None
         \<or> \<not> page_type_is_allowed (rq_test_kind r) \<and> rq_page_type_id r \<noteq> None
         \<or> (rq_test_kind r = DiscoveryTransitionTest) \<noteq> (rq_transition_id r \<noteq> None) then
        Inl InvalidRequest
      else if rq_test_kind r \<in> {Extraction, SelectorCoverage, Pagination, DiscoveredUrlPreview,
                DiscoveryTransitionTest} \<and> length (rq_input_urls r) \<noteq> 1 then
        Inl InvalidRequest
      else Inr ())"

definition validate_page_type_request ::
  "'u CrawlerEvaluationSnapshot \<Rightarrow> PageTypeId option \<Rightarrow> TestLabError + unit" where
  "validate_page_type_request snapshot page_type =
     (case page_type of
        None \<Rightarrow> Inr ()
      | Some i \<Rightarrow> if list_ex (\<lambda>pt. pt_id pt = i) (snap_page_types (snap_draft snapshot)) then Inr ()
                 else Inl PageTypeNotOwnedByVersion)"

definition selected_transition ::
  "'u CrawlerEvaluationSnapshot \<Rightarrow> DiscoveryTransitionId option \<Rightarrow> TestLabError + DiscoveryTransition option" where
  "selected_transition snapshot transition =
     (case transition of
        None \<Rightarrow> Inr None
      | Some i \<Rightarrow> ok_or (map_option Some (find (\<lambda>t. tr_id t = i) (snap_transitions (snap_draft snapshot))))
                   TransitionNotOwnedByVersion)"

section \<open>Diagnostics and copies\<close>

definition diagnostic :: "string \<Rightarrow> string \<Rightarrow> TestDiagnostic" where
  "diagnostic c m = \<lparr>diag_code = c, diag_message = m\<rparr>"

definition push_diagnostic :: "TestDiagnostic \<Rightarrow> TestDiagnostic list \<Rightarrow> TestDiagnostic list" where
  "push_diagnostic d ds = (if length ds < MAX_TEST_EVIDENCE_DIAGNOSTICS then ds @ [d] else ds)"

fun decision_evidence :: "CanonicalizationDecision \<Rightarrow> CanonicalizationDecisionEvidence" where
  "decision_evidence SchemeNormalized = \<lparr>ev_code = SchemeNormalizedCode, ev_parameter = None\<rparr>"
| "decision_evidence HostNormalized = \<lparr>ev_code = HostNormalizedCode, ev_parameter = None\<rparr>"
| "decision_evidence DefaultPortRemoved = \<lparr>ev_code = DefaultPortRemovedCode, ev_parameter = None\<rparr>"
| "decision_evidence FragmentRemoved = \<lparr>ev_code = FragmentRemovedCode, ev_parameter = None\<rparr>"
| "decision_evidence PathNormalized = \<lparr>ev_code = PathNormalizedCode, ev_parameter = None\<rparr>"
| "decision_evidence QuerySorted = \<lparr>ev_code = QuerySortedCode, ev_parameter = None\<rparr>"
| "decision_evidence (TrackingParameterRemoved p) = \<lparr>ev_code = TrackingParameterRemovedCode, ev_parameter = Some p\<rparr>"
| "decision_evidence (CustomParameterDropped p) = \<lparr>ev_code = CustomParameterDroppedCode, ev_parameter = Some p\<rparr>"
| "decision_evidence (ExplicitParameterKept p) = \<lparr>ev_code = ExplicitParameterKeptCode, ev_parameter = Some p\<rparr>"

definition canonicalization_from_result ::
  "'u url_api \<Rightarrow> 'u CanonicalizationResult \<Rightarrow> CanonicalizationEvidence" where
  "canonicalization_from_result api r =
     \<lparr>ev_original_url = res_original_url r, ev_canonical_url = Some (url_as_str api (res_canonical_url r)),
      ev_outcome = Canonicalized, ev_decisions = map decision_evidence (decisions r)\<rparr>"

definition invalid_canonicalization :: "string \<Rightarrow> CanonicalizationEvidence" where
  "invalid_canonicalization text =
     \<lparr>ev_original_url = text, ev_canonical_url = None, ev_outcome = InvalidUrlOutcome, ev_decisions = []\<rparr>"

definition evaluate_url_without_diagnostics ::
  "'u lab_env \<Rightarrow> string \<Rightarrow> 'u CrawlerSemanticSnapshot
    \<Rightarrow> CanonicalizationEvidence \<times> PageTypeMatchEvidence option \<times> 'u option" where
  "evaluate_url_without_diagnostics env input_url snapshot =
     (case canonicalize (lab_api env) (cv_canonicalization (snap_version snapshot)) input_url of
        Inr r \<Rightarrow>
          (canonicalization_from_result (lab_api env) r,
           Some (from_decision (resolve_page_type (lab_matcher env) (res_canonical_url r) (snap_page_types snapshot))),
           Some (res_canonical_url r))
      | Inl _ \<Rightarrow> (invalid_canonicalization input_url, None, None))"

definition evaluate_url ::
  "'u lab_env \<Rightarrow> string \<Rightarrow> 'u CrawlerSemanticSnapshot \<Rightarrow> TestDiagnostic list \<Rightarrow> TestDiagnostic list
    \<Rightarrow> (CanonicalizationEvidence \<times> PageTypeMatchEvidence option \<times> 'u option) \<times> TestDiagnostic list \<times> TestDiagnostic list" where
  "evaluate_url env input_url snapshot warnings errors =
     (case evaluate_url_without_diagnostics env input_url snapshot of (canonical, page_match, url) \<Rightarrow>
      let errors' = (if ev_outcome canonical = InvalidUrlOutcome
                     then push_diagnostic (diagnostic ''INVALID_URL'' ''The input URL could not be canonicalized.'') errors
                     else errors);
          warnings' = (case page_match of
             None \<Rightarrow> warnings
           | Some m \<Rightarrow> (case ev_decision m of
               AmbiguousStatus \<Rightarrow> push_diagnostic (diagnostic ''AMBIGUOUS_PAGE_TYPE''
                 ''Tied PageType candidates were retained without choosing a winner.'') warnings
             | UnmatchedStatus \<Rightarrow> push_diagnostic (diagnostic ''UNMATCHED_PAGE_TYPE''
                 ''The URL matched no PageType.'') warnings
             | MatchedStatus \<Rightarrow> warnings))
      in ((canonical, page_match, url), warnings', errors'))"

definition selector_evidence :: "SelectorObservation list \<Rightarrow> SelectorCoverageEvidence list" where
  "selector_evidence obs =
     map (\<lambda>x. \<lparr>ev_selector = so_selector x, ev_matches_found = so_matches_found x,
               ev_status = (if so_matches_found x = 0 then NoMatches else Observed)\<rparr>)
       (take MAX_TEST_EVIDENCE_INPUT_URLS (sort_key so_selector obs))"

fun pagination_rank :: "PaginationKind \<Rightarrow> u8" where
  "pagination_rank RelNext = 0"
| "pagination_rank NextOlderMoreLink = 1"
| "pagination_rank NumberedPagination = 2"
| "pagination_rank UrlPageNumber = 3"

definition pagination_evidence :: "PaginationObservation list \<Rightarrow> PaginationEvidence option" where
  "pagination_evidence obs =
     (case sort_key (\<lambda>p. (pagination_rank (po_kind p), po_selector p, po_target_url p)) obs of
        [] \<Rightarrow> None
      | p # _ \<Rightarrow> Some \<lparr>pag_kind = po_kind p, pag_selector = po_selector p, pag_target_url = po_target_url p\<rparr>)"

definition selector_for_transition :: "PageObservation \<Rightarrow> DiscoveryTransition \<Rightarrow> SelectorCoverageEvidence" where
  "selector_for_transition observation transition =
     (let matching_links = length (filter (\<lambda>l. link_selector_of l = Some (link_selector transition)) (discovered_links observation));
          has_attributed_link = list_ex (\<lambda>l. link_selector_of l \<noteq> None) (discovered_links observation)
      in \<lparr>ev_selector = link_selector transition, ev_matches_found = count_u32 matching_links,
          ev_status = (if matching_links > 0 then Observed
                       else if has_attributed_link then NoMatches else SelectorUnavailable)\<rparr>)"

fun budget_exclusion_evidence :: "DiscoveryBudgetExclusion \<Rightarrow> TransitionBudgetExclusionEvidence" where
  "budget_exclusion_evidence MaxPages = MaxPagesEv"
| "budget_exclusion_evidence MaxDuration = MaxDurationEv"
| "budget_exclusion_evidence MaxDepth = MaxDepthEv"
| "budget_exclusion_evidence MaxDownloadedBytes = MaxDownloadedBytesEv"
| "budget_exclusion_evidence PageTypePageBudget = PageTypePageBudgetEv"
| "budget_exclusion_evidence TransitionPerPageLinkLimit = TransitionPerPageLinkLimitEv"
| "budget_exclusion_evidence TransitionTotalBudget = TransitionTotalBudgetEv"

section \<open>Discovery evidence of one page\<close>

text \<open>What the loop over the observed links reads, and the variables it updates.\<close>

record 'u discovery_context =
  dc_snapshot :: "'u CrawlerSemanticSnapshot"
  dc_transition :: "DiscoveryTransition option"
  dc_base_url :: 'u
  dc_source_is_applicable :: bool

record discovery_state =
  ds_canonical_urls :: "string set"
  ds_discovered_urls :: "DiscoveredUrlEvidence list"
  ds_eligible_link_count :: u32
  ds_transition_links_on_source_page :: u32
  ds_transition_total_links :: u64
  ds_reported_missing_selector :: bool
  ds_warnings :: "TestDiagnostic list"

definition start_state :: "TestDiagnostic list \<Rightarrow> discovery_state" where
  "start_state warnings = \<lparr>ds_canonical_urls = {}, ds_discovered_urls = [], ds_eligible_link_count = 0,
     ds_transition_links_on_source_page = 0, ds_transition_total_links = 0,
     ds_reported_missing_selector = False, ds_warnings = warnings\<rparr>"

definition push_item :: "DiscoveredUrlEvidence \<Rightarrow> discovery_state \<Rightarrow> discovery_state" where
  "push_item item st = st\<lparr>ds_discovered_urls := ds_discovered_urls st @ [item]\<rparr>"

definition warn :: "string \<Rightarrow> string \<Rightarrow> discovery_state \<Rightarrow> discovery_state" where
  "warn c m st = st\<lparr>ds_warnings := push_diagnostic (diagnostic c m) (ds_warnings st)\<rparr>"

definition blank_item :: "string \<Rightarrow> DiscoveredUrlEvidence" where
  "blank_item href = \<lparr>raw_href = href, resolved_original_url = None, disc_canonical_url = None,
     disc_canonicalization = None, disc_scope = None, duplicate = False, duplicate_of_canonical_url = None,
     disc_page_type_match = None, transition_eligible = False, disc_budget = None\<rparr>"

definition focused_candidate :: "discovery_state \<Rightarrow> DiscoveryBudgetCandidate" where
  "focused_candidate st = \<lparr>pages_already_scheduled = 0, current_depth = 0, elapsed_duration_seconds = 0,
     downloaded_bytes = 0, page_type_pages = 0,
     transition_links_on_source_page = ds_transition_links_on_source_page st,
     transition_total_links = ds_transition_total_links st, prospective_download_bytes = 0\<rparr>"

definition focused_evaluator :: "'u CrawlerSemanticSnapshot \<Rightarrow> DiscoveryTransition \<Rightarrow> DiscoveryBudgetEvaluator" where
  "focused_evaluator snapshot selected =
     \<lparr>ev_guardrails = cv_guardrails (snap_version snapshot),
      ev_page_type = find (\<lambda>g. page_type_id g = target_page_type_id selected)
                       (gr_page_types (cv_guardrails (snap_version snapshot))),
      ev_transition = Some (tr_budget selected)\<rparr>"

definition budget_stage ::
  "'u CrawlerSemanticSnapshot \<Rightarrow> DiscoveryTransition \<Rightarrow> DiscoveredUrlEvidence \<Rightarrow> discovery_state
    \<Rightarrow> TestLabError + discovery_state" where
  "budget_stage snapshot selected item st =
     res_bind (map_err (\<lambda>_. PersistedStateInvalid)
        (evaluate_budget (focused_evaluator snapshot selected) (focused_candidate st))) (\<lambda>decision.
     Inr (case decision of
        Allowed \<Rightarrow>
          push_item (item\<lparr>transition_eligible := True,
              disc_budget := Some \<lparr>budget_allowed = True, budget_exclusion = None\<rparr>\<rparr>)
            (st\<lparr>ds_eligible_link_count := saturating_add (ds_eligible_link_count st) 1,
                ds_transition_links_on_source_page := saturating_add (ds_transition_links_on_source_page st) 1,
                ds_transition_total_links := saturating_add (ds_transition_total_links st) 1\<rparr>)
      | Excluded e \<Rightarrow>
          push_item (item\<lparr>transition_eligible := False,
              disc_budget := Some \<lparr>budget_allowed = False, budget_exclusion = Some (budget_exclusion_evidence e)\<rparr>\<rparr>) st))"

definition transition_stage ::
  "'u discovery_context \<Rightarrow> ObservedLink \<Rightarrow> bool \<Rightarrow> DiscoveredUrlEvidence \<Rightarrow> discovery_state
    \<Rightarrow> TestLabError + discovery_state" where
  "transition_stage ctx link matched_target item st =
     (case dc_transition ctx of
        None \<Rightarrow> Inr (push_item item st)
      | Some selected \<Rightarrow>
          if \<not> tr_enabled selected \<or> \<not> dc_source_is_applicable ctx \<or> url_constraints selected \<noteq> None then
            Inr (push_item item st)
          else (case link_selector_of link of
             None \<Rightarrow>
               Inr (push_item item
                 (if ds_reported_missing_selector st then st
                  else (warn ''TRANSITION_SELECTOR_PROVENANCE_UNAVAILABLE''
                     ''A discovered link has no selector provenance and is not eligible for the selected transition.'' st)
                     \<lparr>ds_reported_missing_selector := True\<rparr>))
           | Some selector \<Rightarrow>
               if selector \<noteq> link_selector selected \<or> \<not> matched_target then Inr (push_item item st)
               else budget_stage (dc_snapshot ctx) selected item st))"

definition match_warning :: "PageTypeMatchDecision \<Rightarrow> discovery_state \<Rightarrow> discovery_state" where
  "match_warning d st =
     (case d of
        Ambiguous _ \<Rightarrow> warn ''AMBIGUOUS_PAGE_TYPE''
          ''The discovered URL has tied PageType candidates; no winner was selected.'' st
      | Unmatched \<Rightarrow> warn ''UNMATCHED_PAGE_TYPE'' ''The discovered URL matched no PageType.'' st
      | Matched _ \<Rightarrow> st)"

definition matched_target_of :: "DiscoveryTransition option \<Rightarrow> PageTypeMatchDecision \<Rightarrow> bool" where
  "matched_target_of transition d \<longleftrightarrow>
     (case (transition, d) of
        (Some selected, Matched c) \<Rightarrow> cand_page_type_id c = target_page_type_id selected
      | _ \<Rightarrow> False)"

definition is_in_scope :: "DomainScopeClassification \<Rightarrow> bool" where
  "is_in_scope c \<longleftrightarrow> (case c of InScope _ _ \<Rightarrow> True | _ \<Rightarrow> False)"

definition canonical_stage ::
  "'u lab_env \<Rightarrow> 'u discovery_context \<Rightarrow> ObservedLink \<Rightarrow> 'u CanonicalizationResult \<Rightarrow> DiscoveredUrlEvidence
    \<Rightarrow> discovery_state \<Rightarrow> TestLabError + discovery_state" where
  "canonical_stage env ctx link canonical item0 st =
     (let api = lab_api env; snapshot = dc_snapshot ctx; u = res_canonical_url canonical; text = url_as_str api u;
          item1 = item0\<lparr>disc_canonical_url := Some text,
                        disc_canonicalization := Some (canonicalization_from_result api canonical)\<rparr>
      in res_bind (map_err (\<lambda>_. PersistedStateInvalid)
           (classify (lab_scope env) (cv_domain_scope (snap_version snapshot)) u (cv_seeds (snap_version snapshot)))) (\<lambda>scope.
         let item2 = item1\<lparr>disc_scope := Some (from_classification scope)\<rparr> in
         if text \<in> ds_canonical_urls st then
           Inr (push_item (item2\<lparr>duplicate := True, duplicate_of_canonical_url := Some text\<rparr>) st)
         else
           let st1 = st\<lparr>ds_canonical_urls := insert text (ds_canonical_urls st)\<rparr> in
           if \<not> is_in_scope scope then
             Inr (push_item item2 (warn ''OUT_OF_SCOPE_DISCOVERED_URL''
               ''The discovered URL was preserved but is not eligible for this transition.'' st1))
           else
             let d = resolve_page_type (lab_matcher env) u (snap_page_types snapshot) in
             transition_stage ctx link (matched_target_of (dc_transition ctx) d)
               (item2\<lparr>disc_page_type_match := Some (from_decision d)\<rparr>) (match_warning d st1)))"

definition discover_link ::
  "'u lab_env \<Rightarrow> 'u discovery_context \<Rightarrow> ObservedLink \<Rightarrow> discovery_state \<Rightarrow> TestLabError + discovery_state" where
  "discover_link env ctx link st =
     (let api = lab_api env; item = blank_item (link_href link) in
      case url_join env (dc_base_url ctx) (link_href link) of
        None \<Rightarrow>
          Inr (push_item item (warn ''INVALID_DISCOVERED_URL''
            ''A discovered href could not be resolved against the page URL.'' st))
      | Some joined \<Rightarrow>
          let text = url_as_str api joined; item1 = item\<lparr>resolved_original_url := Some text\<rparr> in
          (case canonicalize api (cv_canonicalization (snap_version (dc_snapshot ctx))) text of
             Inl _ \<Rightarrow>
               Inr (push_item (item1\<lparr>disc_canonicalization := Some (invalid_canonicalization text)\<rparr>)
                 (warn ''INVALID_DISCOVERED_URL'' ''A discovered href is not a valid crawl URL.'' st))
           | Inr canonical \<Rightarrow> canonical_stage env ctx link canonical item1 st))"

fun discover_links ::
  "'u lab_env \<Rightarrow> 'u discovery_context \<Rightarrow> ObservedLink list \<Rightarrow> discovery_state \<Rightarrow> TestLabError + discovery_state" where
  "discover_links env ctx [] st = Inr st"
| "discover_links env ctx (l # ls) st = res_bind (discover_link env ctx l st) (discover_links env ctx ls)"

definition observed_links :: "PageObservation \<Rightarrow> ObservedLink list" where
  "observed_links observation =
     take MAX_OBSERVED_LINKS (sort_key (\<lambda>l. (link_href l, link_selector_of l)) (discovered_links observation))"

definition source_applicability ::
  "DiscoveryTransition option \<Rightarrow> PageTypeMatchEvidence option \<Rightarrow> TestDiagnostic list \<Rightarrow> bool \<times> TestDiagnostic list" where
  "source_applicability transition source_match warnings =
     (case transition of
        None \<Rightarrow> (True, warnings)
      | Some selected \<Rightarrow>
          let applicable = (case source_match of None \<Rightarrow> False
                | Some m \<Rightarrow> ev_decision m = MatchedStatus
                    \<and> (case ev_winner m of None \<Rightarrow> False | Some w \<Rightarrow> ev_page_type_id w = source_page_type_id selected))
          in if applicable then (True, warnings)
             else (False, push_diagnostic
               (case map_option ev_decision source_match of
                  Some AmbiguousStatus \<Rightarrow> diagnostic ''AMBIGUOUS_TRANSITION_SOURCE_PAGE_TYPE''
                    ''The source URL has tied PageType candidates, so the selected transition is ineligible.''
                | Some MatchedStatus \<Rightarrow> diagnostic ''TRANSITION_SOURCE_PAGE_TYPE_MISMATCH''
                    ''The source URL matched a different PageType than the selected transition source.''
                | _ \<Rightarrow> diagnostic ''UNMATCHED_TRANSITION_SOURCE_PAGE_TYPE''
                    ''The source URL did not resolve to the selected transition source PageType.'') warnings))"

definition transition_notes :: "DiscoveryTransition option \<Rightarrow> TestDiagnostic list \<Rightarrow> TestDiagnostic list" where
  "transition_notes transition warnings =
     (let w1 = (if (case transition of None \<Rightarrow> False | Some t \<Rightarrow> total_budget (tr_budget t) \<noteq> None)
                then push_diagnostic (diagnostic ''FOCUSED_TRANSITION_TOTAL_BASELINE''
                  ''Focused Test Lab evaluates the selected transition total budget from zero for this observed page.'') warnings
                else warnings)
      in if (case transition of None \<Rightarrow> False | Some t \<Rightarrow> url_constraints t \<noteq> None)
         then push_diagnostic (diagnostic ''TRANSITION_URL_CONSTRAINT_UNEVALUATED''
           ''The selected transition has URL constraints that this focused Test Lab evaluator cannot execute yet.'') w1
         else w1)"

definition per_page_limit_hit :: "DiscoveryTransition option \<Rightarrow> discovery_state \<Rightarrow> bool" where
  "per_page_limit_hit transition st =
     (case transition of
        None \<Rightarrow> False
      | Some selected \<Rightarrow>
          ds_transition_links_on_source_page st \<ge> max_links_per_source_page (tr_budget selected)
          \<or> list_ex (\<lambda>item. Option.bind (disc_budget item) budget_exclusion = Some TransitionPerPageLinkLimitEv)
               (ds_discovered_urls st))"

definition discovery_evidence ::
  "'u lab_env \<Rightarrow> 'u CrawlerSemanticSnapshot \<Rightarrow> DiscoveryTransition option \<Rightarrow> string \<Rightarrow> PageObservation
    \<Rightarrow> TestDiagnostic list \<Rightarrow> TestLabError + DiscoveryTransitionEvidence \<times> TestDiagnostic list" where
  "discovery_evidence env snapshot transition input_url observation warnings =
     res_bind (map_err (\<lambda>_. ProviderObservationInvalid)
        (canonicalize (lab_api env) (cv_canonicalization (snap_version snapshot))
           (case final_url observation of None \<Rightarrow> input_url | Some u \<Rightarrow> u))) (\<lambda>base.
     let base_url = res_canonical_url base;
         source_match = map_option (\<lambda>_. from_decision (resolve_page_type (lab_matcher env) base_url (snap_page_types snapshot))) transition;
         (source_is_applicable, w1) = source_applicability transition source_match warnings;
         w2 = transition_notes transition w1;
         ctx = \<lparr>dc_snapshot = snapshot, dc_transition = transition, dc_base_url = base_url,
                dc_source_is_applicable = source_is_applicable\<rparr>
     in res_bind (discover_links env ctx (observed_links observation) (start_state w2)) (\<lambda>st.
        Inr (\<lparr>dte_transition_id = map_option tr_id transition, dte_transition_name = map_option tr_name transition,
              dte_source_page_type_id = map_option source_page_type_id transition,
              dte_target_page_type_id = map_option target_page_type_id transition,
              dte_source_match = source_match,
              dte_selector = (case transition of
                 None \<Rightarrow> \<lparr>ev_selector = ''discovered_links'',
                          ev_matches_found = count_u32 (length (discovered_links observation)),
                          ev_status = (if discovered_links observation = [] then NoMatches else Observed)\<rparr>
               | Some selected \<Rightarrow> selector_for_transition observation selected),
              dte_discovered_urls = ds_discovered_urls st,
              dte_eligible_link_count = ds_eligible_link_count st,
              dte_per_page_limit = (case transition of None \<Rightarrow> 0 | Some t \<Rightarrow> max_links_per_source_page (tr_budget t)),
              dte_per_page_limit_reached = per_page_limit_hit transition st\<rparr>, ds_warnings st)))"

section \<open>Which links are eligible\<close>

text \<open>The conditions a link must meet to be eligible for the selected transition.\<close>

definition eligible_link ::
  "'u lab_env \<Rightarrow> 'u discovery_context \<Rightarrow> ObservedLink \<Rightarrow> DiscoveredUrlEvidence \<Rightarrow> bool" where
  "eligible_link env ctx link item \<longleftrightarrow>
     (\<exists>selected joined canonical h r c.
        dc_transition ctx = Some selected \<and> tr_enabled selected \<and> dc_source_is_applicable ctx
        \<and> url_constraints selected = None
        \<and> link_selector_of link = Some (link_selector selected) \<and> raw_href item = link_href link
        \<and> url_join env (dc_base_url ctx) (link_href link) = Some joined
        \<and> canonicalize (lab_api env) (cv_canonicalization (snap_version (dc_snapshot ctx)))
            (url_as_str (lab_api env) joined) = Inr canonical
        \<and> disc_canonical_url item = Some (url_as_str (lab_api env) (res_canonical_url canonical))
        \<and> classify (lab_scope env) (cv_domain_scope (snap_version (dc_snapshot ctx))) (res_canonical_url canonical)
            (cv_seeds (snap_version (dc_snapshot ctx))) = Inr (InScope h r)
        \<and> resolve_page_type (lab_matcher env) (res_canonical_url canonical) (snap_page_types (dc_snapshot ctx)) = Matched c
        \<and> cand_page_type_id c = target_page_type_id selected
        \<and> \<not> duplicate item
        \<and> disc_budget item = Some \<lparr>budget_allowed = True, budget_exclusion = None\<rparr>)"

definition counters :: "discovery_state \<Rightarrow> u32 \<times> u32 \<times> u64" where
  "counters st = (ds_eligible_link_count st, ds_transition_links_on_source_page st, ds_transition_total_links st)"

definition bumped :: "discovery_state \<Rightarrow> u32 \<times> u32 \<times> u64" where
  "bumped st = (saturating_add (ds_eligible_link_count st) 1,
     saturating_add (ds_transition_links_on_source_page st) 1, saturating_add (ds_transition_total_links st) 1)"

text \<open>What processing one link does to the state.\<close>

definition link_effect ::
  "'u lab_env \<Rightarrow> 'u discovery_context \<Rightarrow> ObservedLink \<Rightarrow> discovery_state \<Rightarrow> discovery_state \<Rightarrow> DiscoveredUrlEvidence \<Rightarrow> bool" where
  "link_effect env ctx link st st' item \<longleftrightarrow>
     ds_discovered_urls st' = ds_discovered_urls st @ [item] \<and> raw_href item = link_href link
     \<and> ds_canonical_urls st \<subseteq> ds_canonical_urls st'
     \<and> (if transition_eligible item
        then eligible_link env ctx link item \<and> counters st' = bumped st
          \<and> (\<exists>text. disc_canonical_url item = Some text \<and> text \<notin> ds_canonical_urls st \<and> text \<in> ds_canonical_urls st')
          \<and> (\<exists>selected. dc_transition ctx = Some selected
               \<and> transition_checks (Some (tr_budget selected)) (focused_candidate st) = Inr None)
        else counters st' = counters st)"

lemma evaluate_budget_transition:
  "evaluate_budget ev c = Inr Allowed \<Longrightarrow> transition_checks (ev_transition ev) c = Inr None"
  by (auto simp: evaluate_budget_def Let_def result_simps split: if_splits option.splits)

lemma match_warning_simps [simp]:
  "ds_discovered_urls (match_warning d st) = ds_discovered_urls st"
  "ds_canonical_urls (match_warning d st) = ds_canonical_urls st"
  "counters (match_warning d st) = counters st"
  "bumped (match_warning d st) = bumped st"
  "focused_candidate (match_warning d st) = focused_candidate st"
  by (cases d; simp add: match_warning_def warn_def counters_def bumped_def focused_candidate_def)+

lemma budget_stage_effect:
  assumes "budget_stage snapshot selected item st = Inr st'"
  obtains (allowed) "ds_discovered_urls st' = ds_discovered_urls st @ [item\<lparr>transition_eligible := True,
        disc_budget := Some \<lparr>budget_allowed = True, budget_exclusion = None\<rparr>\<rparr>]"
      "ds_canonical_urls st' = ds_canonical_urls st" "counters st' = bumped st"
      "transition_checks (Some (tr_budget selected)) (focused_candidate st) = Inr None"
    | (excluded) item' where "ds_discovered_urls st' = ds_discovered_urls st @ [item']"
      "\<not> transition_eligible item'" "raw_href item' = raw_href item"
      "ds_canonical_urls st' = ds_canonical_urls st" "counters st' = counters st"
proof -
  from assms obtain d where d: "evaluate_budget (focused_evaluator snapshot selected) (focused_candidate st) = Inr d"
    by (auto simp: budget_stage_def result_simps)
  show thesis
  proof (cases d)
    case Allowed
    from evaluate_budget_transition [OF d [unfolded Allowed]] assms d Allowed show thesis
      by (intro allowed)
        (auto simp: budget_stage_def push_item_def counters_def bumped_def focused_evaluator_def)
  next
    case (Excluded e)
    with assms d show thesis
      by (intro excluded [of "item\<lparr>transition_eligible := False, disc_budget := Some \<lparr>budget_allowed = False,
            budget_exclusion = Some (budget_exclusion_evidence e)\<rparr>\<rparr>"])
        (auto simp: budget_stage_def push_item_def counters_def)
  qed
qed

text \<open>Once a canonical, in-scope, new URL has been resolved, the transition stage decides.\<close>

definition transition_effect ::
  "'u discovery_context \<Rightarrow> ObservedLink \<Rightarrow> PageTypeMatchDecision \<Rightarrow> DiscoveredUrlEvidence \<Rightarrow> discovery_state
    \<Rightarrow> discovery_state \<Rightarrow> DiscoveredUrlEvidence \<Rightarrow> bool" where
  "transition_effect ctx link d item st st' item' \<longleftrightarrow>
     ds_discovered_urls st' = ds_discovered_urls st @ [item'] \<and> raw_href item' = raw_href item
     \<and> ds_canonical_urls st' = ds_canonical_urls st
     \<and> (if transition_eligible item'
        then counters st' = bumped st
         \<and> item' = item\<lparr>transition_eligible := True, disc_budget := Some \<lparr>budget_allowed = True, budget_exclusion = None\<rparr>\<rparr>
         \<and> (\<exists>selected c. dc_transition ctx = Some selected \<and> tr_enabled selected \<and> dc_source_is_applicable ctx
              \<and> url_constraints selected = None \<and> link_selector_of link = Some (link_selector selected)
              \<and> d = Matched c \<and> cand_page_type_id c = target_page_type_id selected
              \<and> transition_checks (Some (tr_budget selected)) (focused_candidate st) = Inr None)
        else counters st' = counters st)"

lemma transition_stage_effect:
  assumes stage: "transition_stage ctx link (matched_target_of (dc_transition ctx) d) item st = Inr st'"
    and item: "\<not> transition_eligible item"
  shows "\<exists>item'. transition_effect ctx link d item st st' item'"
proof (cases "\<exists>selected. dc_transition ctx = Some selected \<and> tr_enabled selected \<and> dc_source_is_applicable ctx
    \<and> url_constraints selected = None \<and> link_selector_of link = Some (link_selector selected)
    \<and> matched_target_of (dc_transition ctx) d")
  case True
  then obtain selected where sel: "dc_transition ctx = Some selected" "tr_enabled selected" "dc_source_is_applicable ctx"
    "url_constraints selected = None" "link_selector_of link = Some (link_selector selected)"
    and mt: "matched_target_of (dc_transition ctx) d" by blast
  with stage have b: "budget_stage (dc_snapshot ctx) selected item st = Inr st'"
    by (simp add: transition_stage_def)
  from mt sel(1) obtain c where c: "d = Matched c" "cand_page_type_id c = target_page_type_id selected"
    by (auto simp: matched_target_of_def split: PageTypeMatchDecision.splits)
  from b show ?thesis
  proof (cases rule: budget_stage_effect)
    case allowed
    with sel c show ?thesis
      by (intro exI [of _ "item\<lparr>transition_eligible := True,
            disc_budget := Some \<lparr>budget_allowed = True, budget_exclusion = None\<rparr>\<rparr>"])
        (simp add: transition_effect_def)
  next
    case (excluded item')
    then show ?thesis by (intro exI [of _ item']) (simp add: transition_effect_def)
  qed
next
  case False
  with stage have "ds_discovered_urls st' = ds_discovered_urls st @ [item]"
    "ds_canonical_urls st' = ds_canonical_urls st" "counters st' = counters st"
    by (auto simp: transition_stage_def push_item_def warn_def counters_def split: option.splits if_splits)
  with item show ?thesis by (intro exI [of _ item]) (simp add: transition_effect_def)
qed

lemma canonical_stage_effect:
  assumes stage: "canonical_stage env ctx link canonical item st = Inr st'"
    and item: "\<not> transition_eligible item" "\<not> duplicate item" "raw_href item = link_href link"
    and joined: "url_join env (dc_base_url ctx) (link_href link) = Some joined"
    and canonical: "canonicalize (lab_api env) (cv_canonicalization (snap_version (dc_snapshot ctx)))
            (url_as_str (lab_api env) joined) = Inr canonical"
  shows "\<exists>item'. link_effect env ctx link st st' item'"
proof -
  let ?api = "lab_api env" and ?v = "snap_version (dc_snapshot ctx)" and ?u = "res_canonical_url canonical"
  let ?text = "url_as_str ?api ?u"
  from stage obtain scope where scope: "classify (lab_scope env) (cv_domain_scope ?v) ?u (cv_seeds ?v) = Inr scope"
    by (auto simp: canonical_stage_def Let_def result_simps)
  let ?item = "item\<lparr>disc_canonical_url := Some ?text, disc_canonicalization := Some (canonicalization_from_result ?api canonical),
       disc_scope := Some (from_classification scope)\<rparr>"
  let ?st1 = "st\<lparr>ds_canonical_urls := insert ?text (ds_canonical_urls st)\<rparr>"
  consider (seen) "?text \<in> ds_canonical_urls st" | (outside) "?text \<notin> ds_canonical_urls st" "\<not> is_in_scope scope"
    | (inside) "?text \<notin> ds_canonical_urls st" "is_in_scope scope" by blast
  then show ?thesis
  proof cases
    case seen
    with stage scope item show ?thesis
      by (intro exI [of _ "?item\<lparr>duplicate := True, duplicate_of_canonical_url := Some ?text\<rparr>"])
        (auto simp: canonical_stage_def Let_def link_effect_def push_item_def counters_def)
  next
    case outside
    with stage scope item show ?thesis
      by (intro exI [of _ ?item])
        (auto simp: canonical_stage_def Let_def link_effect_def push_item_def warn_def counters_def)
  next
    case inside
    let ?d = "resolve_page_type (lab_matcher env) ?u (snap_page_types (dc_snapshot ctx))"
    let ?i = "?item\<lparr>disc_page_type_match := Some (from_decision ?d)\<rparr>"
    from stage scope inside
    have "transition_stage ctx link (matched_target_of (dc_transition ctx) ?d) ?i (match_warning ?d ?st1) = Inr st'"
      by (simp add: canonical_stage_def Let_def)
    from transition_stage_effect [OF this] item(1) obtain item' where
      eff: "transition_effect ctx link ?d ?i (match_warning ?d ?st1) st' item'" by auto
    have same: "counters ?st1 = counters st" "bumped ?st1 = bumped st" "focused_candidate ?st1 = focused_candidate st"
      by (simp_all add: counters_def bumped_def focused_candidate_def)
    from eff have e: "ds_discovered_urls st' = ds_discovered_urls st @ [item']" "raw_href item' = raw_href item"
      "ds_canonical_urls st' = insert ?text (ds_canonical_urls st)"
      by (simp_all add: transition_effect_def)
    from inside(2) obtain h r where in_scope: "scope = InScope h r"
      by (auto simp: is_in_scope_def split: DomainScopeClassification.splits)
    show ?thesis
    proof (intro exI [of _ item'])
      show "link_effect env ctx link st st' item'"
      proof (cases "transition_eligible item'")
        case True
        with eff same have i: "item' = ?i\<lparr>transition_eligible := True,
              disc_budget := Some \<lparr>budget_allowed = True, budget_exclusion = None\<rparr>\<rparr>"
          and c: "counters st' = bumped st"
          and sel: "\<exists>selected c. dc_transition ctx = Some selected \<and> tr_enabled selected \<and> dc_source_is_applicable ctx
              \<and> url_constraints selected = None \<and> link_selector_of link = Some (link_selector selected)
              \<and> ?d = Matched c \<and> cand_page_type_id c = target_page_type_id selected
              \<and> transition_checks (Some (tr_budget selected)) (focused_candidate st) = Inr None"
          by (simp_all add: transition_effect_def)
        from sel have "eligible_link env ctx link item'"
          unfolding eligible_link_def using item joined canonical scope in_scope by (auto simp: i)
        with e inside(1) item c sel show ?thesis by (auto simp: link_effect_def i)
      qed (use e eff item same in \<open>auto simp: link_effect_def transition_effect_def\<close>)
    qed
  qed
qed

lemma discover_link_effect:
  assumes "discover_link env ctx link st = Inr st'"
  shows "\<exists>item. link_effect env ctx link st st' item"
proof (cases "url_join env (dc_base_url ctx) (link_href link)")
  case None
  with assms show ?thesis
    by (intro exI [of _ "blank_item (link_href link)"])
      (auto simp: discover_link_def Let_def link_effect_def push_item_def warn_def counters_def blank_item_def)
next
  case (Some joined)
  let ?text = "url_as_str (lab_api env) joined"
  show ?thesis
  proof (cases "canonicalize (lab_api env) (cv_canonicalization (snap_version (dc_snapshot ctx))) ?text")
    case (Inl e)
    with Some assms show ?thesis
      by (intro exI [of _ "(blank_item (link_href link))\<lparr>resolved_original_url := Some ?text,
            disc_canonicalization := Some (invalid_canonicalization ?text)\<rparr>"])
        (auto simp: discover_link_def Let_def link_effect_def push_item_def warn_def counters_def blank_item_def)
  next
    case (Inr canonical)
    with Some assms have stage: "canonical_stage env ctx link canonical
        ((blank_item (link_href link))\<lparr>resolved_original_url := Some ?text\<rparr>) st = Inr st'"
      by (simp add: discover_link_def Let_def)
    show ?thesis
      by (rule canonical_stage_effect [OF stage _ _ _ Some Inr]) (simp_all add: blank_item_def)
  qed
qed

text \<open>The loop invariant: the counters count the eligible items, which are distinct and within budget.\<close>

definition eligible_items :: "DiscoveredUrlEvidence list \<Rightarrow> DiscoveredUrlEvidence list" where
  "eligible_items items = filter transition_eligible items"

definition within_transition_budget :: "DiscoveryTransition option \<Rightarrow> nat \<Rightarrow> bool" where
  "within_transition_budget transition n \<longleftrightarrow>
     (case transition of
        None \<Rightarrow> n = 0
      | Some t \<Rightarrow> n \<le> unat (max_links_per_source_page (tr_budget t))
          \<and> (case total_budget (tr_budget t) of None \<Rightarrow> True | Some b \<Rightarrow> n \<le> unat b))"

definition discovery_inv ::
  "'u lab_env \<Rightarrow> 'u discovery_context \<Rightarrow> ObservedLink set \<Rightarrow> discovery_state \<Rightarrow> bool" where
  "discovery_inv env ctx links st \<longleftrightarrow>
     (let E = eligible_items (ds_discovered_urls st) in
      (\<forall>item \<in> set E. \<exists>l \<in> links. eligible_link env ctx l item)
      \<and> distinct (map disc_canonical_url E)
      \<and> (\<forall>item \<in> set E. \<exists>t \<in> ds_canonical_urls st. disc_canonical_url item = Some t)
      \<and> unat (ds_eligible_link_count st) = length E
      \<and> unat (ds_transition_links_on_source_page st) = length E
      \<and> unat (ds_transition_total_links st) = length E
      \<and> within_transition_budget (dc_transition ctx) (length E))"

lemma bump_word:
  "unat (a :: 'a::len word) + 1 < 2 ^ LENGTH('a) \<Longrightarrow> unat (saturating_add a 1) = unat a + 1"
  by (simp add: unat_saturating_add)

lemma focused_candidate_counts:
  "transition_links_on_source_page (focused_candidate st) = ds_transition_links_on_source_page st"
  "transition_total_links (focused_candidate st) = ds_transition_total_links st"
  by (simp_all add: focused_candidate_def)

lemma discovery_inv_step:
  assumes inv: "discovery_inv env ctx links st" and eff: "link_effect env ctx l st st' item" and l: "l \<in> links"
  shows "discovery_inv env ctx links st'"
proof (cases "transition_eligible item")
  case False
  with eff have "eligible_items (ds_discovered_urls st') = eligible_items (ds_discovered_urls st)"
    "counters st' = counters st" "ds_canonical_urls st \<subseteq> ds_canonical_urls st'"
    by (simp_all add: link_effect_def eligible_items_def)
  with inv show ?thesis unfolding discovery_inv_def Let_def counters_def by (auto 4 3)
next
  case True
  let ?E = "eligible_items (ds_discovered_urls st)"
  from True eff have E': "eligible_items (ds_discovered_urls st') = ?E @ [item]"
    and el: "eligible_link env ctx l item" and cnt: "counters st' = bumped st"
    and sub: "ds_canonical_urls st \<subseteq> ds_canonical_urls st'"
    by (simp_all add: link_effect_def eligible_items_def)
  from True eff obtain x where x: "disc_canonical_url item = Some x" "x \<notin> ds_canonical_urls st"
    "x \<in> ds_canonical_urls st'" by (auto simp: link_effect_def)
  from True eff obtain t where t: "dc_transition ctx = Some t"
    and chk: "transition_checks (Some (tr_budget t)) (focused_candidate st) = Inr None"
    by (auto simp: link_effect_def)
  from chk have room: "unat (ds_transition_links_on_source_page st) + 1 \<le> unat (max_links_per_source_page (tr_budget t))"
    "unat (ds_transition_total_links st) + 1 < 2 ^ 64"
    "case total_budget (tr_budget t) of None \<Rightarrow> True | Some b \<Rightarrow> unat (ds_transition_total_links st) + 1 \<le> unat b"
    by (simp_all only: transition_checks_pass option.case focused_candidate_counts)
  have "unat (max_links_per_source_page (tr_budget t)) < 2 ^ LENGTH(32)" by (rule unsigned_less)
  with room(1) have small: "unat (ds_transition_links_on_source_page st) + 1 < 2 ^ LENGTH(32)" by linarith
  from inv have n: "unat (ds_eligible_link_count st) = length ?E"
    "unat (ds_transition_links_on_source_page st) = length ?E" "unat (ds_transition_total_links st) = length ?E"
    by (simp_all add: discovery_inv_def Let_def)
  from cnt small n room(2) have "unat (ds_eligible_link_count st') = length ?E + 1"
    "unat (ds_transition_links_on_source_page st') = length ?E + 1"
    "unat (ds_transition_total_links st') = length ?E + 1"
    by (simp_all add: counters_def bumped_def bump_word)
  moreover have "within_transition_budget (dc_transition ctx) (length ?E + 1)"
    using room n by (simp add: t within_transition_budget_def split: option.splits)
  moreover from inv x(2) have "Some x \<notin> disc_canonical_url ` set ?E"
    by (auto simp: discovery_inv_def Let_def)
  moreover from inv sub have "\<forall>item \<in> set ?E. \<exists>t \<in> ds_canonical_urls st'. disc_canonical_url item = Some t"
    unfolding discovery_inv_def Let_def by blast
  ultimately show ?thesis
    using inv el l x unfolding discovery_inv_def Let_def E' by auto
qed

lemma discover_links_inv:
  assumes "discover_links env ctx ls st = Inr st'" and "discovery_inv env ctx links st" and "set ls \<subseteq> links"
  shows "discovery_inv env ctx links st'
    \<and> map raw_href (ds_discovered_urls st') = map raw_href (ds_discovered_urls st) @ map link_href ls"
  using assms
proof (induction ls arbitrary: st)
  case (Cons l ls)
  from Cons.prems(1) obtain st1 where s: "discover_link env ctx l st = Inr st1"
    and rest: "discover_links env ctx ls st1 = Inr st'" by (auto simp: result_simps)
  from discover_link_effect [OF s] obtain item where eff: "link_effect env ctx l st st1 item" ..
  from Cons.prems(3) have "l \<in> links" "set ls \<subseteq> links" by simp_all
  with Cons.IH [OF rest] discovery_inv_step [OF Cons.prems(2) eff] eff show ?case
    by (simp add: link_effect_def)
qed simp

lemma start_state_inv: "discovery_inv env ctx links (start_state w)"
  by (simp add: discovery_inv_def start_state_def eligible_items_def within_transition_budget_def split: option.splits)

lemma source_applicability_matched:
  assumes "source_applicability (Some t) (Some (from_decision d)) w = (True, w')"
  shows "\<exists>c. d = Matched c \<and> cand_page_type_id c = source_page_type_id t"
  using assms by (cases d) (auto simp: source_applicability_def Let_def from_candidate_def split: if_splits)

lemma discovery_evidence_run:
  assumes "discovery_evidence env snapshot transition input_url observation w = Inr (e, w')"
  obtains base applicable w1 st where
    "canonicalize (lab_api env) (cv_canonicalization (snap_version snapshot))
       (case final_url observation of None \<Rightarrow> input_url | Some u \<Rightarrow> u) = Inr base"
    "source_applicability transition (map_option (\<lambda>_. from_decision
       (resolve_page_type (lab_matcher env) (res_canonical_url base) (snap_page_types snapshot))) transition) w = (applicable, w1)"
    "discovery_inv env \<lparr>dc_snapshot = snapshot, dc_transition = transition, dc_base_url = res_canonical_url base,
      dc_source_is_applicable = applicable\<rparr> (set (discovered_links observation)) st"
    "map raw_href (dte_discovered_urls e) = map link_href (observed_links observation)"
    "dte_discovered_urls e = ds_discovered_urls st" "dte_eligible_link_count e = ds_eligible_link_count st"
proof -
  let ?text = "case final_url observation of None \<Rightarrow> input_url | Some u \<Rightarrow> u"
  from assms obtain base where base: "canonicalize (lab_api env) (cv_canonicalization (snap_version snapshot)) ?text = Inr base"
    by (auto simp: discovery_evidence_def result_simps)
  let ?m = "map_option (\<lambda>_. from_decision
       (resolve_page_type (lab_matcher env) (res_canonical_url base) (snap_page_types snapshot))) transition"
  obtain applicable w1 where app: "source_applicability transition ?m w = (applicable, w1)" by fastforce
  let ?ctx = "\<lparr>dc_snapshot = snapshot, dc_transition = transition, dc_base_url = res_canonical_url base,
      dc_source_is_applicable = applicable\<rparr>"
  from assms base app obtain st where
    st: "discover_links env ?ctx (observed_links observation) (start_state (transition_notes transition w1)) = Inr st"
    and e: "dte_discovered_urls e = ds_discovered_urls st" "dte_eligible_link_count e = ds_eligible_link_count st"
    by (auto simp: discovery_evidence_def result_simps Let_def)
  have links: "set (observed_links observation) \<subseteq> set (discovered_links observation)"
    unfolding observed_links_def by (rule subset_trans [OF set_take_subset]) simp
  note res = discover_links_inv [OF st start_state_inv links]
  then have "discovery_inv env ?ctx (set (discovered_links observation)) st"
    and "map raw_href (dte_discovered_urls e) = map link_href (observed_links observation)"
    by (simp_all add: start_state_def e)
  from that [OF base app this e] show thesis .
qed

text \<open>
  In the discovery evidence of a page, every link marked eligible has earned it: the selected
  transition is enabled, has no unevaluated constraints, and starts at the page type the page itself
  resolves to; the link carries the transition's selector, canonicalises, is in the domain scope and
  resolves unambiguously to the target page type.  No canonical URL is eligible twice, the reported
  count is the number of eligible links, and it respects the per-page and the total budget of the
  transition.  Every one of the first 64 links in sorted order is reported, in that order.
\<close>
theorem discovery_evidence_eligibility:
  assumes "discovery_evidence env snapshot transition input_url observation w = Inr (e, w')"
  shows "map raw_href (dte_discovered_urls e) = map link_href (observed_links observation)
    \<and> unat (dte_eligible_link_count e) = length (eligible_items (dte_discovered_urls e))
    \<and> within_transition_budget transition (length (eligible_items (dte_discovered_urls e)))
    \<and> distinct (map disc_canonical_url (eligible_items (dte_discovered_urls e)))
    \<and> (\<forall>item \<in> set (eligible_items (dte_discovered_urls e)). \<exists>selected base c l.
         transition = Some selected
         \<and> canonicalize (lab_api env) (cv_canonicalization (snap_version snapshot))
             (case final_url observation of None \<Rightarrow> input_url | Some u \<Rightarrow> u) = Inr base
         \<and> resolve_page_type (lab_matcher env) (res_canonical_url base) (snap_page_types snapshot) = Matched c
         \<and> cand_page_type_id c = source_page_type_id selected
         \<and> l \<in> set (discovered_links observation)
         \<and> eligible_link env \<lparr>dc_snapshot = snapshot, dc_transition = Some selected,
              dc_base_url = res_canonical_url base, dc_source_is_applicable = True\<rparr> l item)"
proof -
  let ?text = "case final_url observation of None \<Rightarrow> input_url | Some u \<Rightarrow> u"
  from discovery_evidence_run [OF assms] obtain base applicable w1 st where
    base: "canonicalize (lab_api env) (cv_canonicalization (snap_version snapshot)) ?text = Inr base"
    and app: "source_applicability transition (map_option (\<lambda>_. from_decision
       (resolve_page_type (lab_matcher env) (res_canonical_url base) (snap_page_types snapshot))) transition) w = (applicable, w1)"
    and inv: "discovery_inv env \<lparr>dc_snapshot = snapshot, dc_transition = transition, dc_base_url = res_canonical_url base,
      dc_source_is_applicable = applicable\<rparr> (set (discovered_links observation)) st"
    and hrefs: "map raw_href (dte_discovered_urls e) = map link_href (observed_links observation)"
    and e: "dte_discovered_urls e = ds_discovered_urls st" "dte_eligible_link_count e = ds_eligible_link_count st" .
  have "\<exists>selected base c l.
         transition = Some selected
         \<and> canonicalize (lab_api env) (cv_canonicalization (snap_version snapshot)) ?text = Inr base
         \<and> resolve_page_type (lab_matcher env) (res_canonical_url base) (snap_page_types snapshot) = Matched c
         \<and> cand_page_type_id c = source_page_type_id selected
         \<and> l \<in> set (discovered_links observation)
         \<and> eligible_link env \<lparr>dc_snapshot = snapshot, dc_transition = Some selected,
              dc_base_url = res_canonical_url base, dc_source_is_applicable = True\<rparr> l item"
    if "item \<in> set (eligible_items (ds_discovered_urls st))" for item
  proof -
    from inv that obtain l where l: "l \<in> set (discovered_links observation)"
      "eligible_link env \<lparr>dc_snapshot = snapshot, dc_transition = transition, dc_base_url = res_canonical_url base,
        dc_source_is_applicable = applicable\<rparr> l item"
      by (auto simp: discovery_inv_def Let_def)
    then obtain selected where sel: "transition = Some selected" and yes: "applicable"
      by (auto simp: eligible_link_def)
    with app have "source_applicability (Some selected) (Some (from_decision
       (resolve_page_type (lab_matcher env) (res_canonical_url base) (snap_page_types snapshot)))) w = (True, w1)" by simp
    from source_applicability_matched [OF this] base l sel yes show ?thesis by auto
  qed
  with inv hrefs e show ?thesis by (auto simp: discovery_inv_def Let_def)
qed

section \<open>Empty references\<close>

lemma empty_href_first:
  assumes "\<exists>l \<in> set ls. link_href l = []"
  shows "\<exists>l \<in> set (take MAX_OBSERVED_LINKS (sort_key (\<lambda>l. (link_href l, link_selector_of l)) ls)). link_href l = []"
proof -
  let ?k = "\<lambda>l. (link_href l, link_selector_of l)"
  from assms obtain l where l: "l \<in> set ls" "link_href l = []" by blast
  then obtain x xs where x: "sort_key ?k ls = x # xs" by (cases "sort_key ?k ls") (metis set_empty2 set_sort empty_iff, blast)
  have "sorted (map ?k (x # xs))" unfolding x [symmetric] by (rule sorted_sort_key)
  moreover from l(1) have "l \<in> set (x # xs)" unfolding x [symmetric] by simp
  ultimately have "?k x \<le> ?k l" by auto
  then have "link_href x = []" using l(2) by (auto simp: less_eq_prod_def)
  then show ?thesis by (intro bexI [of _ x]) (simp_all add: x MAX_OBSERVED_LINKS_def)
qed

text \<open>
  An observed link without a reference makes the whole evidence unusable.  The observation
  contract admits an empty \<open>href\<close>, which sorts before every other link and is recorded as it is, but
  evidence validation refuses an empty \<open>raw_href\<close>; so the discovery evidence of such a page never
  validates.
\<close>
theorem empty_href_rejects_evidence:
  assumes "discovery_evidence env snapshot transition input_url observation w = Inr (e, w')"
    and "\<exists>l \<in> set (discovered_links observation). link_href l = []"
  shows "validate_discovery (lab_evidence env) e \<noteq> Inr ()"
proof
  assume ok: "validate_discovery (lab_evidence env) e = Inr ()"
  from discovery_evidence_run [OF assms(1)]
  have hrefs: "map raw_href (dte_discovered_urls e) = map link_href (observed_links observation)" .
  from empty_href_first [OF assms(2)] have "[] \<in> set (map link_href (observed_links observation))"
    by (force simp: observed_links_def)
  then obtain item where "item \<in> set (dte_discovered_urls e)" "raw_href item = []"
    unfolding hrefs [symmetric] by auto
  moreover from ok have "\<forall>d \<in> set (dte_discovered_urls e). validate_discovered_url (lab_evidence env) d = Inr ()"
    by (auto simp: validate_discovery_def Let_def result_simps split: if_splits)
  ultimately show False by (auto simp: validate_discovered_url_def bad_text_def)
qed

section \<open>Examples\<close>

definition lab_sample :: "plain_url lab_env" where
  "lab_sample = \<lparr>lab_api = sample_api, lab_psl_domain = Some, lab_regex_new = (\<lambda>_. None),
     lab_regex_escape = (\<lambda>s. s), lab_uuid_version = (\<lambda>_. 7), url_join = (\<lambda>_ s. Some (sample_url s))\<rparr>"

definition lab_snapshot :: "plain_url CrawlerSemanticSnapshot" where
  "lab_snapshot = \<lparr>snap_version = (draft ''v'' ''c'')\<lparr>cv_page_type_ids := [''pt''],
       cv_seeds := [new_seed ''s'' (sample_url ''p'') (sample_url ''p'')]\<rparr>,
     snap_page_types = [sample_page_type ''pt'' ''/'' ], snap_transitions = [], snap_config_hash = []\<rparr>"

definition lab_transition :: DiscoveryTransition where
  "lab_transition = \<lparr>tr_id = ''t'', source_page_type_id = ''pt'', target_page_type_id = ''pt'', tr_name = ''t'',
     tr_enabled = True, link_selector = ''a'', url_constraints = None, tr_priority = 0,
     tr_budget = \<lparr>max_links_per_source_page = 1, total_budget = None, depth_contribution = 1\<rparr>,
     deduplicate = True, latest_test_evidence_id = None\<rparr>"

definition lab_observation :: "string list \<Rightarrow> PageObservation" where
  "lab_observation hrefs = \<lparr>requested_url = ''https://a.test/?p'', final_url = None, obs_artifact_ids = [],
     discovered_links = map (\<lambda>h. \<lparr>link_href = h, link_selector_of = Some ''a''\<rparr>) hrefs,
     selector_observations = [], pagination_observations = []\<rparr>"

definition lab_run :: "string list \<Rightarrow> TestLabError + DiscoveryTransitionEvidence \<times> TestDiagnostic list" where
  "lab_run hrefs = discovery_evidence lab_sample lab_snapshot (Some lab_transition) ''https://a.test/?p''
     (lab_observation hrefs) []"

theorem discovery_evidence_eligibility_witness:
  "\<exists>e w. lab_run [''x'', ''y''] = Inr (e, w) \<and> length (eligible_items (dte_discovered_urls e)) = 1
     \<and> unat (dte_eligible_link_count e) = 1"
proof -
  have "case lab_run [''x'', ''y''] of Inl _ \<Rightarrow> False
      | Inr (e, w) \<Rightarrow> map transition_eligible (dte_discovered_urls e) = [True, False]"
    by code_simp
  then obtain e w where r: "lab_run [''x'', ''y''] = Inr (e, w)"
    and "map transition_eligible (dte_discovered_urls e) = [True, False]"
    by (auto split: sum.splits)
  then have "length (eligible_items (dte_discovered_urls e)) = 1"
    by (auto simp: eligible_items_def map_eq_Cons_conv)
  with discovery_evidence_eligibility [OF r [unfolded lab_run_def]] r show ?thesis by auto
qed

theorem empty_href_rejects_evidence_witness:
  "\<exists>e w. lab_run [''x'', []] = Inr (e, w) \<and> validate_discovery (lab_evidence lab_sample) e \<noteq> Inr ()"
proof -
  have "case lab_run [''x'', []] of Inl _ \<Rightarrow> False | Inr (e, w) \<Rightarrow> True" by code_simp
  then obtain e w where r: "lab_run [''x'', []] = Inr (e, w)" by (auto split: sum.splits)
  have "\<exists>l \<in> set (discovered_links (lab_observation [''x'', []])). link_href l = []"
    by (simp add: lab_observation_def)
  from empty_href_rejects_evidence [OF r [unfolded lab_run_def] this] r show ?thesis by blast
qed

end
