(* ===== verification/Test_Comparison.thy ===== *)
theory Test_Comparison
  imports Test_Lab
begin

text \<open>
  The rest of the Test Lab service (\<open>test_lab/service.rs\<close>): the correspondence between the page types
  and transitions of a draft and of the published version, the comparison of their outcomes, and
  the execution of a request up to the validated evidence record.  The observation provider, the
  extraction hook and the artifact lookup are parameters (\<open>lab_services\<close>); the snapshot, the new
  identifier and the timestamp are arguments.  Storing the record is not part of this theory.
\<close>

section \<open>Semantic correspondence\<close>

definition first_unused :: "'a \<Rightarrow> bool list \<Rightarrow> 'a list \<Rightarrow> nat option" where
  "first_unused l used right = find (\<lambda>i. \<not> used ! i \<and> l = right ! i) [0..<length right]"

fun consume_matchers :: "'a list \<Rightarrow> bool list \<Rightarrow> 'a list \<Rightarrow> bool" where
  "consume_matchers [] used right \<longleftrightarrow> True"
| "consume_matchers (l # left) used right \<longleftrightarrow>
     (case first_unused l used right of
        None \<Rightarrow> False
      | Some i \<Rightarrow> consume_matchers left (used[i := True]) right)"

definition matcher_multisets_equal :: "'u UrlMatcher list \<Rightarrow> 'u UrlMatcher list \<Rightarrow> bool" where
  "matcher_multisets_equal left right \<longleftrightarrow>
     length left = length right \<and> consume_matchers left (replicate (length right) False) right"

definition page_type_records_semantically_equivalent :: "'u PageType \<Rightarrow> 'u PageType \<Rightarrow> bool" where
  "page_type_records_semantically_equivalent left right \<longleftrightarrow>
     pt_name left = pt_name right \<and> pt_priority left = pt_priority right
     \<and> matcher_multisets_equal (pt_matchers left) (pt_matchers right)"

text \<open>
  The search functions end in \<open>(matches.len() == 1).then_some(matches[0])\<close>.  The argument of
  \<open>then_some\<close> is evaluated before the call, so indexing an empty vector panics.  A panic is an error
  value that nothing in the service catches.
\<close>

datatype panic = Panicked

definition only_element :: "'a list \<Rightarrow> panic + 'a option" where
  "only_element xs =
     (case xs of [] \<Rightarrow> Inl Panicked | x # _ \<Rightarrow> Inr (if length xs = 1 then Some x else None))"

definition unique_corresponding_page_type ::
  "'u CrawlerSemanticSnapshot \<Rightarrow> 'u CrawlerSemanticSnapshot \<Rightarrow> PageTypeId \<Rightarrow> panic + 'u PageType option" where
  "unique_corresponding_page_type draft_snapshot published draft_page_type =
     (case find (\<lambda>pt. pt_id pt = draft_page_type) (snap_page_types draft_snapshot) of
        None \<Rightarrow> Inr None
      | Some pt \<Rightarrow>
          only_element (filter (page_type_records_semantically_equivalent pt) (snap_page_types published)))"

definition transitions_semantically_equivalent ::
  "'u CrawlerSemanticSnapshot \<Rightarrow> 'u CrawlerSemanticSnapshot \<Rightarrow> DiscoveryTransition \<Rightarrow> DiscoveryTransition \<Rightarrow> panic + bool" where
  "transitions_semantically_equivalent draft_snapshot published d p =
     res_bind (unique_corresponding_page_type draft_snapshot published (source_page_type_id d)) (\<lambda>source_match.
     case source_match of
       None \<Rightarrow> Inr False
     | Some source \<Rightarrow>
         res_bind (unique_corresponding_page_type draft_snapshot published (target_page_type_id d)) (\<lambda>target_match.
         case target_match of
           None \<Rightarrow> Inr False
         | Some target \<Rightarrow>
             Inr (source_page_type_id p = pt_id source \<and> target_page_type_id p = pt_id target
               \<and> tr_name d = tr_name p \<and> tr_enabled d = tr_enabled p \<and> link_selector d = link_selector p
               \<and> url_constraints d = url_constraints p \<and> tr_priority d = tr_priority p
               \<and> tr_budget d = tr_budget p \<and> deduplicate d = deduplicate p)))"

definition unique_corresponding_transition ::
  "'u CrawlerSemanticSnapshot \<Rightarrow> 'u CrawlerSemanticSnapshot \<Rightarrow> DiscoveryTransition
    \<Rightarrow> panic + DiscoveryTransition option" where
  "unique_corresponding_transition draft_snapshot published d =
     res_bind (collect_results (transitions_semantically_equivalent draft_snapshot published d) (snap_transitions published)) (\<lambda>equal.
     only_element (map fst (filter snd (zip (snap_transitions published) equal))))"

section \<open>Comparison of outcomes\<close>

definition optional_page_type_match_evidence_equal ::
  "PageTypeMatchEvidence option \<Rightarrow> PageTypeMatchEvidence option \<Rightarrow> bool" where
  "optional_page_type_match_evidence_equal left right \<longleftrightarrow>
     (case (left, right) of
        (Some l, Some r) \<Rightarrow> behaviorally_equivalent l r
      | (None, None) \<Rightarrow> True
      | _ \<Rightarrow> False)"

definition discovered_url_outcomes_equal :: "DiscoveredUrlEvidence \<Rightarrow> DiscoveredUrlEvidence \<Rightarrow> bool" where
  "discovered_url_outcomes_equal d p \<longleftrightarrow>
     raw_href d = raw_href p \<and> resolved_original_url d = resolved_original_url p
     \<and> disc_canonical_url d = disc_canonical_url p \<and> disc_canonicalization d = disc_canonicalization p
     \<and> disc_scope d = disc_scope p \<and> duplicate d = duplicate p
     \<and> duplicate_of_canonical_url d = duplicate_of_canonical_url p
     \<and> optional_page_type_match_evidence_equal (disc_page_type_match d) (disc_page_type_match p)
     \<and> transition_eligible d = transition_eligible p \<and> disc_budget d = disc_budget p"

definition discovery_outcomes_equal :: "DiscoveryTransitionEvidence \<Rightarrow> DiscoveryTransitionEvidence \<Rightarrow> bool" where
  "discovery_outcomes_equal d p \<longleftrightarrow>
     dte_selector d = dte_selector p
     \<and> optional_page_type_match_evidence_equal (dte_source_match d) (dte_source_match p)
     \<and> dte_eligible_link_count d = dte_eligible_link_count p
     \<and> dte_per_page_limit d = dte_per_page_limit p
     \<and> dte_per_page_limit_reached d = dte_per_page_limit_reached p
     \<and> length (dte_discovered_urls d) = length (dte_discovered_urls p)
     \<and> list_all (\<lambda>(a, b). discovered_url_outcomes_equal a b) (zip (dte_discovered_urls d) (dte_discovered_urls p))"

fun extraction_observations_equal :: "ExtractionObservation \<Rightarrow> ExtractionObservation \<Rightarrow> bool" where
  "extraction_observations_equal (ExtractionAvailable left) (ExtractionAvailable right) \<longleftrightarrow>
     sort_key (\<lambda>f. (field_name f, field_observed f)) left = sort_key (\<lambda>f. (field_name f, field_observed f)) right"
| "extraction_observations_equal left right \<longleftrightarrow> left = right"

definition comparison_discovery_difference ::
  "'u lab_env \<Rightarrow> 'u CrawlerEvaluationSnapshot \<Rightarrow> 'u CrawlerSemanticSnapshot \<Rightarrow> string
    \<Rightarrow> DiscoveryTransitionEvidence option \<Rightarrow> PageObservation option \<Rightarrow> DiscoveryTransition option
    \<Rightarrow> panic + bool option \<times> TestDiagnostic list" where
  "comparison_discovery_difference env snapshot published input_url draft_discovery observation draft_transition =
     (case draft_discovery of
        None \<Rightarrow> Inr (None, [])
      | Some dd \<Rightarrow>
     (case observation of
        None \<Rightarrow> Inr (None, [])
      | Some obs \<Rightarrow>
        if (case draft_transition of None \<Rightarrow> False | Some t \<Rightarrow> url_constraints t \<noteq> None) then
          Inr (None, [diagnostic ''TRANSITION_URL_CONSTRAINT_COMPARISON_UNAVAILABLE''
             ''Discovery comparison is unavailable because the selected transition has URL constraints that focused Test Lab cannot execute yet.''])
        else
          res_bind (case draft_transition of
                      None \<Rightarrow> Inr (Some None)
                    | Some t \<Rightarrow> res_bind (unique_corresponding_transition (snap_draft snapshot) published t)
                                (\<lambda>found. Inr (map_option Some found))) (\<lambda>corresponding.
          Inr (case corresponding of
             None \<Rightarrow> (None, [diagnostic ''PUBLISHED_TRANSITION_CORRESPONDENCE_UNAVAILABLE''
               ''No unique semantic Published transition corresponds to the selected Draft transition.''])
           | Some published_transition \<Rightarrow>
               (case discovery_evidence env published published_transition input_url obs [] of
                  Inr (pd, warnings) \<Rightarrow> (Some (\<not> discovery_outcomes_equal dd pd), warnings)
                | Inl _ \<Rightarrow> (None, [diagnostic ''PUBLISHED_DISCOVERY_COMPARISON_UNAVAILABLE''
                    ''Published discovery behavior could not be evaluated from the captured observation.'']))))))"

section \<open>Execution\<close>

datatype TestLabProviderError = Unavailable | ReuseRefused | ProviderFailed

record lab_services =
  provider_observe :: "(string \<Rightarrow> string list \<Rightarrow> TestLabProviderError + PageObservation) option"
  provider_validate_reuse :: "string \<Rightarrow> TestLabProviderError + unit"
  extraction_hook :: "(PageTypeId \<Rightarrow> string \<Rightarrow> PageObservation \<Rightarrow> ExtractionObservation) option"
  artifact_path_exists :: "string \<Rightarrow> bool"

fun map_provider_error :: "TestLabProviderError \<Rightarrow> TestLabError" where
  "map_provider_error Unavailable = ProviderUnavailable"
| "map_provider_error ReuseRefused = ArtifactNotReusable"
| "map_provider_error ProviderFailed = ProviderUnavailable"

definition extraction_observation ::
  "lab_services \<Rightarrow> PageTypeId \<Rightarrow> string \<Rightarrow> PageObservation \<Rightarrow> ExtractionObservation" where
  "extraction_observation services page_type input_url observation =
     (case extraction_hook services of
        None \<Rightarrow> ExtractionUnavailable ''No extraction Test Lab hook is configured.''
      | Some hook \<Rightarrow> hook page_type input_url observation)"

definition comparison_extraction_difference ::
  "lab_services \<Rightarrow> 'u CrawlerEvaluationSnapshot \<Rightarrow> 'u CrawlerSemanticSnapshot \<Rightarrow> string
    \<Rightarrow> ExtractionObservation option \<Rightarrow> PageObservation option \<Rightarrow> PageTypeId option
    \<Rightarrow> panic + bool option \<times> TestDiagnostic list" where
  "comparison_extraction_difference services snapshot published input_url draft_extraction observation page_type =
     (case (draft_extraction, observation, page_type) of
        (Some de, Some obs, Some pt) \<Rightarrow>
          if extraction_hook services = None then Inr (None, [])
          else res_bind (unique_corresponding_page_type (snap_draft snapshot) published pt) (\<lambda>found.
            Inr (case found of
               None \<Rightarrow> (None, [diagnostic ''PUBLISHED_PAGE_TYPE_CORRESPONDENCE_UNAVAILABLE''
                 ''No unique semantic Published PageType corresponds to the selected Draft PageType.''])
             | Some p \<Rightarrow>
                 (Some (\<not> extraction_observations_equal de (extraction_observation services (pt_id p) input_url obs)), [])))
      | _ \<Rightarrow> Inr (None, []))"

definition no_published_comparison ::
  "'u CrawlerEvaluationSnapshot \<Rightarrow> CanonicalizationEvidence list \<Rightarrow> PageTypeMatchEvidence list
    \<Rightarrow> TestDiagnostic \<Rightarrow> TestLabComparison" where
  "no_published_comparison snapshot canonicalization page_match warning =
     \<lparr>cmp_status = NoActivePublishedVersion, cmp_draft_version_id = cv_id (snap_version (snap_draft snapshot)),
      cmp_draft_config_hash = snap_config_hash (snap_draft snapshot), cmp_published_version_id = None,
      cmp_published_config_hash = None, cmp_canonicalization_difference = False,
      cmp_draft_canonicalization = canonicalization, cmp_published_canonicalization = [],
      cmp_page_type_match_difference = False, cmp_draft_page_type_match = page_match,
      cmp_published_page_type_match = [], cmp_discovery_difference = None, cmp_extraction_difference = None,
      cmp_warnings = [warning]\<rparr>"

definition comparison ::
  "'u lab_env \<Rightarrow> lab_services \<Rightarrow> 'u CrawlerEvaluationSnapshot \<Rightarrow> TestKind \<Rightarrow> string list
    \<Rightarrow> CanonicalizationEvidence list \<Rightarrow> PageTypeMatchEvidence list \<Rightarrow> ExtractionObservation option
    \<Rightarrow> DiscoveryTransitionEvidence option \<Rightarrow> PageObservation option \<Rightarrow> DiscoveryTransition option
    \<Rightarrow> PageTypeId option \<Rightarrow> TestDiagnostic list \<Rightarrow> panic + TestLabComparison \<times> TestDiagnostic list" where
  "comparison env services snapshot kind input_urls canonicalization page_match extraction discovery observation
     transition page_type warnings =
     (case snap_published snapshot of
        None \<Rightarrow>
          (let warning = diagnostic ''NO_ACTIVE_PUBLISHED_VERSION''
                 ''No active Published version was available for comparison.''
           in Inr (no_published_comparison snapshot canonicalization page_match warning, push_diagnostic warning warnings))
      | Some published \<Rightarrow>
          (let evaluated = map (\<lambda>u. evaluate_url_without_diagnostics env u published) input_urls;
               published_canonicalization = map fst evaluated;
               published_page_match = List.map_filter (\<lambda>(_, m, _). m) evaluated
           in
           res_bind (comparison_discovery_difference env snapshot published (hd input_urls) discovery observation transition)
             (\<lambda>(discovery_difference, discovery_warnings).
           res_bind (if kind = Extraction
                     then comparison_extraction_difference services snapshot published (hd input_urls) extraction observation page_type
                     else Inr (None, []))
             (\<lambda>(extraction_difference, extraction_warnings).
           let comparison_warnings = discovery_warnings @ extraction_warnings in
           Inr (\<lparr>cmp_status = Compared, cmp_draft_version_id = cv_id (snap_version (snap_draft snapshot)),
                cmp_draft_config_hash = snap_config_hash (snap_draft snapshot),
                cmp_published_version_id = Some (cv_id (snap_version published)),
                cmp_published_config_hash = Some (snap_config_hash published),
                cmp_canonicalization_difference = (canonicalization \<noteq> published_canonicalization),
                cmp_draft_canonicalization = canonicalization,
                cmp_published_canonicalization = published_canonicalization,
                cmp_page_type_match_difference =
                  (\<not> page_type_match_sequences_behaviorally_equivalent page_match published_page_match),
                cmp_draft_page_type_match = page_match, cmp_published_page_type_match = published_page_match,
                cmp_discovery_difference = discovery_difference, cmp_extraction_difference = extraction_difference,
                cmp_warnings = comparison_warnings\<rparr>,
               fold push_diagnostic comparison_warnings warnings)))))"

text \<open>The loop over the input URLs.\<close>

record lab_progress =
  lp_warnings :: "TestDiagnostic list"
  lp_errors :: "TestDiagnostic list"
  lp_canonicalization :: "CanonicalizationEvidence list"
  lp_page_type_match :: "PageTypeMatchEvidence list"
  lp_observations :: "PageObservation list"

definition observe_input ::
  "'u lab_env \<Rightarrow> lab_services \<Rightarrow> 'u CrawlerSemanticSnapshot \<Rightarrow> TestLabRequest \<Rightarrow> string \<Rightarrow> lab_progress
    \<Rightarrow> TestLabError + lab_progress" where
  "observe_input env services draft_snapshot request input_url lp =
     (case evaluate_url env input_url draft_snapshot (lp_warnings lp) (lp_errors lp) of
        ((canonical, page_match, curl), warnings, errors) \<Rightarrow>
          let lp1 = lp\<lparr>lp_warnings := warnings, lp_errors := errors,
                       lp_canonicalization := lp_canonicalization lp @ [canonical],
                       lp_page_type_match := lp_page_type_match lp @ (case page_match of None \<Rightarrow> [] | Some m \<Rightarrow> [m])\<rparr>
          in if \<not> requires_provider (rq_test_kind request) then Inr lp1
             else
               res_bind (ok_or (provider_observe services) ProviderUnavailable) (\<lambda>observe.
               res_bind (map_err map_provider_error (observe input_url (rq_reuse_artifact_ids request))) (\<lambda>observation.
               if requested_url observation \<noteq> input_url then Inl ProviderObservationRequestMismatch
               else if is_some_and (\<lambda>u. isl (canonicalize (lab_api env) (cv_canonicalization (snap_version draft_snapshot)) u))
                         (final_url observation) then
                 Inl ProviderObservationInvalid
               else if curl = None then Inl InvalidRequest
               else Inr (lp1\<lparr>lp_observations := lp_observations lp1 @ [observation]\<rparr>))))"

fun observe_inputs ::
  "'u lab_env \<Rightarrow> lab_services \<Rightarrow> 'u CrawlerSemanticSnapshot \<Rightarrow> TestLabRequest \<Rightarrow> string list \<Rightarrow> lab_progress
    \<Rightarrow> TestLabError + lab_progress" where
  "observe_inputs env services draft_snapshot request [] lp = Inr lp"
| "observe_inputs env services draft_snapshot request (u # us) lp =
     res_bind (observe_input env services draft_snapshot request u lp) (observe_inputs env services draft_snapshot request us)"

definition sort_unique_ids :: "string list \<Rightarrow> string list" where
  "sort_unique_ids ids = dedup (sort ids)"

text \<open>The observations a test kind turns into evidence.\<close>

record kind_evidence =
  ke_extraction :: "ExtractionObservation option"
  ke_selector_coverage :: "SelectorCoverageEvidence list"
  ke_pagination :: "PaginationEvidence option"
  ke_discovery :: "DiscoveryTransitionEvidence option"
  ke_warnings :: "TestDiagnostic list"

definition no_kind_evidence :: "TestDiagnostic list \<Rightarrow> kind_evidence" where
  "no_kind_evidence w = \<lparr>ke_extraction = None, ke_selector_coverage = [], ke_pagination = None,
     ke_discovery = None, ke_warnings = w\<rparr>"

definition first_observation :: "lab_progress \<Rightarrow> TestLabError + PageObservation" where
  "first_observation lp = (case lp_observations lp of [] \<Rightarrow> Inl ProviderUnavailable | o1 # _ \<Rightarrow> Inr o1)"

definition evaluate_kind ::
  "'u lab_env \<Rightarrow> lab_services \<Rightarrow> 'u CrawlerSemanticSnapshot \<Rightarrow> TestLabRequest \<Rightarrow> DiscoveryTransition option
    \<Rightarrow> lab_progress \<Rightarrow> TestLabError + kind_evidence" where
  "evaluate_kind env services draft_snapshot request transition lp =
     (let base = no_kind_evidence (lp_warnings lp); input_url = hd (rq_input_urls request) in
      case rq_test_kind request of
        Extraction \<Rightarrow>
          res_bind (ok_or (rq_page_type_id request) InvalidRequest) (\<lambda>pt.
          res_bind (first_observation lp) (\<lambda>obs.
          Inr (base\<lparr>ke_extraction := Some (extraction_observation services pt input_url obs)\<rparr>)))
      | SelectorCoverage \<Rightarrow>
          res_bind (first_observation lp) (\<lambda>obs.
          let coverage = selector_evidence (selector_observations obs) in
          Inr (base\<lparr>ke_selector_coverage := coverage,
             ke_warnings := (if list_ex (\<lambda>c. ev_status c = NoMatches) coverage
                then push_diagnostic (diagnostic ''SELECTOR_NO_MATCHES''
                       ''A tested selector matched no observed elements.'') (lp_warnings lp)
                else lp_warnings lp)\<rparr>))
      | Pagination \<Rightarrow>
          res_bind (first_observation lp) (\<lambda>obs.
          Inr (base\<lparr>ke_pagination := pagination_evidence (pagination_observations obs)\<rparr>))
      | DiscoveredUrlPreview \<Rightarrow>
          res_bind (first_observation lp) (\<lambda>obs.
          res_bind (discovery_evidence env draft_snapshot None input_url obs (lp_warnings lp)) (\<lambda>(d, w).
          Inr (base\<lparr>ke_discovery := Some d, ke_warnings := w\<rparr>)))
      | DiscoveryTransitionTest \<Rightarrow>
          res_bind (ok_or transition InvalidRequest) (\<lambda>t.
          res_bind (first_observation lp) (\<lambda>obs.
          res_bind (discovery_evidence env draft_snapshot (Some t) input_url obs (lp_warnings lp)) (\<lambda>(d, w).
          Inr (base\<lparr>ke_discovery := Some d, ke_warnings := w\<rparr>))))
      | _ \<Rightarrow> Inr base)"

text \<open>\<open>execute\<close>, from the snapshot to the validated record; a panic is the outer error.\<close>

definition validate_reuse :: "lab_services \<Rightarrow> string list \<Rightarrow> TestLabError + unit" where
  "validate_reuse services ids =
     res_bind (for_each (\<lambda>i. if artifact_path_exists services i then Inr () else Inl ArtifactNotFound) ids) (\<lambda>_.
     if ids = [] then Inr ()
     else res_bind (ok_or (provider_observe services) ProviderUnavailable) (\<lambda>_.
       for_each (\<lambda>i. map_err map_provider_error (provider_validate_reuse services i)) ids))"

definition prepare_evidence ::
  "'u lab_env \<Rightarrow> lab_services \<Rightarrow> 'u CrawlerEvaluationSnapshot \<Rightarrow> TestLabRequest
    \<Rightarrow> TestLabError + DiscoveryTransition option \<times> lab_progress \<times> string list \<times> kind_evidence" where
  "prepare_evidence env services snapshot request =
     res_bind (validate_request request) (\<lambda>_.
     res_bind (validate_page_type_request snapshot (rq_page_type_id request)) (\<lambda>_.
     res_bind (selected_transition snapshot (rq_transition_id request)) (\<lambda>transition.
     if requires_provider (rq_test_kind request) \<and> provider_observe services = None then Inl ProviderUnavailable
     else
       res_bind (validate_reuse services (rq_reuse_artifact_ids request)) (\<lambda>_.
       res_bind (observe_inputs env services (snap_draft snapshot) request (rq_input_urls request)
         \<lparr>lp_warnings = [], lp_errors = [], lp_canonicalization = [], lp_page_type_match = [], lp_observations = []\<rparr>) (\<lambda>lp.
       let artifact_ids = sort_unique_ids (rq_reuse_artifact_ids request @ concat (map obs_artifact_ids (lp_observations lp))) in
       if length artifact_ids > MAX_TEST_EVIDENCE_ARTIFACTS then Inl InvalidRequest
       else res_bind (evaluate_kind env services (snap_draft snapshot) request transition lp) (\<lambda>ke.
         Inr (transition, lp, artifact_ids, ke)))))))"

definition execute_evidence ::
  "'u lab_env \<Rightarrow> lab_services \<Rightarrow> 'u CrawlerEvaluationSnapshot \<Rightarrow> CrawlerVersionId \<Rightarrow> TestEvidenceId \<Rightarrow> string
    \<Rightarrow> TestLabRequest \<Rightarrow> panic + (TestLabError + TestEvidence)" where
  "execute_evidence env services snapshot version_id fresh timestamp request =
     (case prepare_evidence env services snapshot request of
        Inl err \<Rightarrow> Inr (Inl err)
      | Inr (transition, lp, artifact_ids, ke) \<Rightarrow>
          res_bind (if rq_compare_with_active_published request
             then res_bind (comparison env services snapshot (rq_test_kind request) (rq_input_urls request)
                    (lp_canonicalization lp) (lp_page_type_match lp) (ke_extraction ke) (ke_discovery ke)
                    (case lp_observations lp of [] \<Rightarrow> None | o1 # _ \<Rightarrow> Some o1) transition (rq_page_type_id request)
                    (ke_warnings ke)) (\<lambda>(c, w). Inr (Some c, w))
             else Inr (None, ke_warnings ke)) (\<lambda>(published_comparison, warnings).
          let evidence = \<lparr>te_schema_version = TEST_EVIDENCE_SCHEMA_VERSION, te_id = fresh,
                te_crawler_version_id = version_id, te_test_kind = rq_test_kind request,
                te_input_urls = rq_input_urls request, te_evaluated_page_type_id = rq_page_type_id request,
                te_tested_transition_id = rq_transition_id request, te_canonicalization = lp_canonicalization lp,
                te_page_type_match = lp_page_type_match lp, te_extraction = ke_extraction ke,
                te_selector_coverage = ke_selector_coverage ke, te_pagination = ke_pagination ke,
                te_discovery = ke_discovery ke, te_warnings = warnings, te_errors = lp_errors lp,
                te_artifact_ids = artifact_ids, te_config_hash = snap_config_hash (snap_draft snapshot),
                te_executed_at = timestamp, te_published_comparison = published_comparison\<rparr>
          in Inr (map_err (\<lambda>_. InvalidRequest)
               (res_bind (validate_evidence (lab_evidence env) evidence) (\<lambda>_. Inr evidence)))))"

section \<open>Matchers as multisets\<close>

definition unused_matchers :: "bool list \<Rightarrow> 'a list \<Rightarrow> 'a multiset" where
  "unused_matchers used right = image_mset (\<lambda>i. right ! i) (mset_set {i. i < length right \<and> \<not> used ! i})"

lemma first_unused_None: "first_unused l used right = None \<longleftrightarrow> l \<notin># unused_matchers used right"
  by (auto simp: first_unused_def find_None_iff unused_matchers_def)

lemma first_unused_Some:
  assumes "first_unused l used right = Some i" and "length used = length right"
  shows "unused_matchers used right = add_mset l (unused_matchers (used[i := True]) right)"
proof -
  from assms(1) have i: "i < length right" "\<not> used ! i" "l = right ! i"
    by (auto simp: first_unused_def find_Some_iff)
  have "{j. j < length right \<and> \<not> used ! j} = insert i {j. j < length right \<and> \<not> used[i := True] ! j}"
    using i assms(2) by (auto simp: nth_list_update)
  moreover have "i \<notin> {j. j < length right \<and> \<not> used[i := True] ! j}" using i assms(2) by simp
  ultimately have "mset_set {j. j < length right \<and> \<not> used ! j}
      = add_mset i (mset_set {j. j < length right \<and> \<not> used[i := True] ! j})"
    by simp
  with i(3) show ?thesis by (simp add: unused_matchers_def)
qed

lemma consume_matchers_iff:
  "length used = length right \<Longrightarrow> consume_matchers left used right \<longleftrightarrow> mset left \<subseteq># unused_matchers used right"
proof (induction left arbitrary: used)
  case (Cons l left)
  show ?case
  proof (cases "first_unused l used right")
    case None
    then have "l \<notin># unused_matchers used right" by (simp add: first_unused_None)
    then have "\<not> mset (l # left) \<subseteq># unused_matchers used right"
      by (metis list.set_intros(1) mset_subset_eqD set_mset_mset)
    with None show ?thesis by simp
  next
    case (Some i)
    with Cons.prems Cons.IH [of "used[i := True]"] first_unused_Some [OF Some] show ?thesis by simp
  qed
qed simp

lemma unused_all: "unused_matchers (replicate (length right) False) right = mset right"
proof -
  have "{i. i < length right \<and> \<not> replicate (length right) False ! i} = {0..<length right}" by auto
  then have "unused_matchers (replicate (length right) False) right = mset (map (\<lambda>i. right ! i) [0..<length right])"
    by (simp add: unused_matchers_def)
  then show ?thesis by (simp only: map_nth)
qed

lemma matcher_multisets_equal_iff: "matcher_multisets_equal left right \<longleftrightarrow> mset left = mset right"
proof -
  have "mset left \<subseteq># mset right \<and> length left = length right \<longleftrightarrow> mset left = mset right"
    by (metis mset_subset_eq_exists_conv order_refl size_mset subset_mset.antisym_conv1 mset_subset_size less_irrefl)
  then show ?thesis
    by (auto simp: matcher_multisets_equal_def consume_matchers_iff unused_all)
qed

section \<open>Missing counterparts\<close>

lemma page_type_counterpart_panics:
  assumes "find (\<lambda>pt. pt_id pt = i) (snap_page_types d) = Some pt"
    and "\<forall>q \<in> set (snap_page_types published). \<not> page_type_records_semantically_equivalent pt q"
  shows "unique_corresponding_page_type d published i = Inl Panicked"
proof -
  from assms(2) have "filter (page_type_records_semantically_equivalent pt) (snap_page_types published) = []"
    by (simp add: filter_empty_conv)
  with assms(1) show ?thesis by (simp add: unique_corresponding_page_type_def only_element_def)
qed

lemma transition_counterpart_panics:
  assumes "\<forall>p \<in> set (snap_transitions published). transitions_semantically_equivalent d published t p \<noteq> Inr True"
  shows "unique_corresponding_transition d published t = Inl Panicked"
proof (cases "collect_results (transitions_semantically_equivalent d published t) (snap_transitions published)")
  case (Inl e)
  then show ?thesis by (cases e) (simp add: unique_corresponding_transition_def)
next
  case (Inr bs)
  then have "list_all2 (\<lambda>p b. transitions_semantically_equivalent d published t p = Inr b) (snap_transitions published) bs"
    by (simp add: collect_results_Inr)
  with assms have "filter snd (zip (snap_transitions published) bs) = []"
    by (fastforce simp: filter_empty_conv in_set_zip list_all2_conv_all_nth dest: nth_mem)
  with Inr show ?thesis by (simp add: unique_corresponding_transition_def only_element_def)
qed

text \<open>
  C40. Comparing a draft with the published version does not report a missing counterpart, as the warnings
  \<open>PUBLISHED_TRANSITION_CORRESPONDENCE_UNAVAILABLE\<close> and \<open>PUBLISHED_PAGE_TYPE_CORRESPONDENCE_UNAVAILABLE\<close> and
  the test for several counterparts intend: the comparison panics.  It does so for a tested transition without
  URL constraints that is semantically equal to no published one, and, independently, for an extraction
  test of a page type whose name, priority or matchers, as a multiset, differ from every published page type.
\<close>
theorem missing_counterpart_panics:
  assumes "snap_published snapshot = Some published"
  shows "(discovery \<noteq> None \<and> observation \<noteq> None \<and> transition = Some t \<and> url_constraints t = None
      \<and> (\<forall>p \<in> set (snap_transitions published).
           transitions_semantically_equivalent (snap_draft snapshot) published t p \<noteq> Inr True)
      \<longrightarrow> comparison env services snapshot kind urls canonicalization page_match extraction discovery observation
            transition page_type warnings = Inl Panicked)
    \<and> (kind = Extraction \<and> extraction_hook services \<noteq> None \<and> extraction \<noteq> None \<and> observation \<noteq> None
      \<and> page_type = Some i \<and> find (\<lambda>pt. pt_id pt = i) (snap_page_types (snap_draft snapshot)) = Some pt
      \<and> (\<forall>q \<in> set (snap_page_types published).
           pt_name pt \<noteq> pt_name q \<or> pt_priority pt \<noteq> pt_priority q \<or> mset (pt_matchers pt) \<noteq> mset (pt_matchers q))
      \<longrightarrow> comparison env services snapshot kind urls canonicalization page_match extraction discovery observation
            transition page_type warnings = Inl Panicked)"
proof (intro conjI impI)
  assume "discovery \<noteq> None \<and> observation \<noteq> None \<and> transition = Some t \<and> url_constraints t = None
      \<and> (\<forall>p \<in> set (snap_transitions published).
           transitions_semantically_equivalent (snap_draft snapshot) published t p \<noteq> Inr True)"
  then have "comparison_discovery_difference env snapshot published (hd urls) discovery observation transition = Inl Panicked"
    using transition_counterpart_panics [of published "snap_draft snapshot" t] by (auto simp: comparison_discovery_difference_def)
  then show "comparison env services snapshot kind urls canonicalization page_match extraction discovery observation
            transition page_type warnings = Inl Panicked"
    using assms by (simp add: comparison_def Let_def)
next
  assume missing: "kind = Extraction \<and> extraction_hook services \<noteq> None \<and> extraction \<noteq> None \<and> observation \<noteq> None
      \<and> page_type = Some i \<and> find (\<lambda>pt. pt_id pt = i) (snap_page_types (snap_draft snapshot)) = Some pt
      \<and> (\<forall>q \<in> set (snap_page_types published).
           pt_name pt \<noteq> pt_name q \<or> pt_priority pt \<noteq> pt_priority q \<or> mset (pt_matchers pt) \<noteq> mset (pt_matchers q))"
  then have "\<forall>q \<in> set (snap_page_types published). \<not> page_type_records_semantically_equivalent pt q"
    by (auto simp: page_type_records_semantically_equivalent_def matcher_multisets_equal_iff)
  with missing have "comparison_extraction_difference services snapshot published (hd urls) extraction observation page_type
      = Inl Panicked"
    using page_type_counterpart_panics [of i "snap_draft snapshot" pt published]
    by (auto simp: comparison_extraction_difference_def)
  with missing assms show "comparison env services snapshot kind urls canonicalization page_match extraction discovery observation
            transition page_type warnings = Inl Panicked"
    by (cases "comparison_discovery_difference env snapshot published (hd urls) discovery observation transition")
      (auto simp: comparison_def Let_def intro: panic.exhaust)
qed

text \<open>A draft whose page type was renamed since publication.\<close>

definition renamed_published :: "plain_url CrawlerSemanticSnapshot" where
  "renamed_published = lab_snapshot\<lparr>snap_page_types := [sample_page_type ''old'' ''/''], snap_transitions := [lab_transition]\<rparr>"

definition renamed_snapshot :: "plain_url CrawlerEvaluationSnapshot" where
  "renamed_snapshot = \<lparr>snap_draft = lab_snapshot\<lparr>snap_transitions := [lab_transition]\<rparr>,
     snap_published = Some renamed_published\<rparr>"

definition extracting_services :: lab_services where
  "extracting_services = \<lparr>provider_observe = None, provider_validate_reuse = (\<lambda>_. Inr ()),
     extraction_hook = Some (\<lambda>_ _ _. ExtractionAvailable []), artifact_path_exists = (\<lambda>_. True)\<rparr>"

theorem missing_counterpart_panics_witness:
  "(\<exists>e w. lab_run [''x''] = Inr (e, w)
     \<and> comparison lab_sample extracting_services renamed_snapshot DiscoveryTransitionTest [''https://a.test/?p''] [] []
         None (Some e) (Some (lab_observation [''x''])) (Some lab_transition) None w = Inl Panicked)
   \<and> comparison lab_sample extracting_services renamed_snapshot Extraction [''https://a.test/?p''] [] []
       (Some (ExtractionAvailable [])) None (Some (lab_observation [''x''])) None (Some ''pt'') [] = Inl Panicked"
proof
  note [simp] = renamed_snapshot_def renamed_published_def lab_snapshot_def sample_page_type_def lab_transition_def
  have published: "snap_published renamed_snapshot = Some renamed_published" by simp
  have "case lab_run [''x''] of Inl _ \<Rightarrow> False | Inr (e, w) \<Rightarrow> True" by code_simp
  then obtain e w where r: "lab_run [''x''] = Inr (e, w)" by (auto split: sum.splits)
  have "unique_corresponding_page_type (snap_draft renamed_snapshot) renamed_published ''pt'' = Inl Panicked"
    by (rule page_type_counterpart_panics [of _ _ "sample_page_type ''pt'' ''/''"])
      (simp_all add: page_type_records_semantically_equivalent_def)
  then have "\<forall>q \<in> set (snap_transitions renamed_published).
        transitions_semantically_equivalent (snap_draft renamed_snapshot) renamed_published lab_transition q \<noteq> Inr True"
    by (simp add: transitions_semantically_equivalent_def)
  with r missing_counterpart_panics [OF published, of "Some e" "Some (lab_observation [''x''])" "Some lab_transition" lab_transition]
  show "\<exists>e w. lab_run [''x''] = Inr (e, w)
     \<and> comparison lab_sample extracting_services renamed_snapshot DiscoveryTransitionTest [''https://a.test/?p''] [] []
         None (Some e) (Some (lab_observation [''x''])) (Some lab_transition) None w = Inl Panicked" by auto
  show "comparison lab_sample extracting_services renamed_snapshot Extraction [''https://a.test/?p''] [] []
       (Some (ExtractionAvailable [])) None (Some (lab_observation [''x''])) None (Some ''pt'') [] = Inl Panicked"
    by (rule missing_counterpart_panics [OF published, THEN conjunct2, THEN mp, of _ _ _ _ _ "''pt''" "sample_page_type ''pt'' ''/''"])
      (simp add: extracting_services_def)
qed

text \<open>A comparison that was built never contradicts itself in the way evidence validation checks.\<close>

lemma comparison_self_consistent:
  assumes "comparison env services snapshot kind urls can pm ex disc obs tr pt w = Inr (c, w')"
  shows "case cmp_status c of
      Compared \<Rightarrow> cmp_canonicalization_difference c = (cmp_draft_canonicalization c \<noteq> cmp_published_canonicalization c)
        \<and> cmp_page_type_match_difference c
            = (\<not> page_type_match_sequences_behaviorally_equivalent (cmp_draft_page_type_match c) (cmp_published_page_type_match c))
    | NoActivePublishedVersion \<Rightarrow> cmp_published_version_id c = None \<and> cmp_published_config_hash c = None
        \<and> cmp_published_canonicalization c = [] \<and> cmp_published_page_type_match c = []
        \<and> cmp_discovery_difference c = None \<and> cmp_extraction_difference c = None"
proof (cases "snap_published snapshot")
  case None
  with assms show ?thesis by (auto simp: comparison_def no_published_comparison_def Let_def)
next
  case (Some published)
  with assms show ?thesis by (auto simp: comparison_def Let_def result_simps)
qed

end
