(* ===== verification/Version_Validation.thy ===== *)
theory Version_Validation
  imports Crawler_Version Test_Evidence Snapshot
begin

text \<open>
  The publication gate (\<open>version_validation.rs\<close>): bounded issues, contributors registered under unique
  keys, the aggregation of their contributions into one ordered report, and the core contributor
  with its search for page types no URL can be resolved between.  A contributor other than the core
  one is an arbitrary function of the context.
\<close>

section \<open>Issues\<close>

definition MAX_VALIDATION_IDENTIFIER_CHARS :: nat where "MAX_VALIDATION_IDENTIFIER_CHARS = 64"
definition MAX_VALIDATION_MESSAGE_CHARS :: nat where "MAX_VALIDATION_MESSAGE_CHARS = 512"
definition MAX_VALIDATION_ISSUES_PER_CONTRIBUTOR :: nat where "MAX_VALIDATION_ISSUES_PER_CONTRIBUTOR = 256"
definition MAX_VALIDATION_ISSUES :: nat where "MAX_VALIDATION_ISSUES = 512"
definition MAX_VALIDATION_DETAILS :: nat where "MAX_VALIDATION_DETAILS = 16"
definition MAX_VALIDATION_DETAIL_CHARS :: nat where "MAX_VALIDATION_DETAIL_CHARS = 256"

datatype InvalidValidationIdentifier = InvalidValidationIdentifier

definition validate_identifier :: "string \<Rightarrow> InvalidValidationIdentifier + unit" where
  "validate_identifier v =
     (if v = [] \<or> char_count v > MAX_VALIDATION_IDENTIFIER_CHARS
         \<or> \<not> list_all (\<lambda>(index, byte).
               (is_ascii_alphanumeric byte \<or> byte = CHR ''_'' \<or> byte = CHR ''-'')
               \<and> (index \<noteq> 0 \<or> is_ascii_alphabetic byte)) (enumerate 0 v)
      then Inl InvalidValidationIdentifier else Inr ())"

text \<open>A validated key, code or subject kind is its text.\<close>

definition identifier_new :: "string \<Rightarrow> InvalidValidationIdentifier + string" where
  "identifier_new v = res_bind (validate_identifier v) (\<lambda>_. Inr v)"

datatype VersionValidationSeverity = Blocker | Warning

record VersionValidationSubject =
  subject_kind :: string
  subject_id :: "string option"

datatype VersionValidationIssue = VersionValidationIssue
  (issue_code: string) (severity: VersionValidationSeverity) (issue_contributor: "string option")
  (message: string) (issue_subject: "VersionValidationSubject option") (details: "(string, string) bmap")

text \<open>The derived order compares the fields in declaration order.\<close>

fun severity_rank :: "VersionValidationSeverity \<Rightarrow> nat" where
  "severity_rank Blocker = 0"
| "severity_rank Warning = 1"

fun issue_key where
  "issue_key (VersionValidationIssue c s k m u d) =
     (c, severity_rank s, k, m, map_option (\<lambda>x. (subject_kind x, subject_id x)) u, d)"

lemma severity_rank_inject: "severity_rank a = severity_rank b \<longleftrightarrow> a = b"
  by (cases a; cases b) simp_all

lemma issue_key_inject: "issue_key a = issue_key b \<longleftrightarrow> a = b"
proof -
  have u: "map_option (\<lambda>x. (subject_kind x, subject_id x)) p = map_option (\<lambda>x. (subject_kind x, subject_id x)) q
      \<longleftrightarrow> p = q" for p q :: "VersionValidationSubject option"
    by (cases p; cases q) (auto intro: VersionValidationSubject.equality)
  show ?thesis by (cases a; cases b) (auto simp: severity_rank_inject u)
qed

instantiation VersionValidationIssue :: linorder
begin

definition less_eq_VersionValidationIssue :: "VersionValidationIssue \<Rightarrow> VersionValidationIssue \<Rightarrow> bool" where
  "less_eq_VersionValidationIssue a b \<longleftrightarrow> issue_key a \<le> issue_key b"

definition less_VersionValidationIssue :: "VersionValidationIssue \<Rightarrow> VersionValidationIssue \<Rightarrow> bool" where
  "less_VersionValidationIssue a b \<longleftrightarrow> issue_key a < issue_key b"

instance
  by standard (auto simp: less_eq_VersionValidationIssue_def less_VersionValidationIssue_def
      less_le_not_le issue_key_inject dest: order.antisym)

end

definition issue_new :: "string \<Rightarrow> VersionValidationSeverity \<Rightarrow> string \<Rightarrow> VersionValidationIssue" where
  "issue_new c sev msg = VersionValidationIssue c sev None msg None []"

fun with_subject :: "VersionValidationSubject \<Rightarrow> VersionValidationIssue \<Rightarrow> VersionValidationIssue" where
  "with_subject s (VersionValidationIssue c v k m u d) = VersionValidationIssue c v k m (Some s) d"

fun with_detail :: "string \<Rightarrow> string \<Rightarrow> VersionValidationIssue \<Rightarrow> VersionValidationIssue" where
  "with_detail key val (VersionValidationIssue c v k m u d) =
     VersionValidationIssue c v k m u (bm_insert key val d)"

fun attributed :: "string \<Rightarrow> VersionValidationIssue \<Rightarrow> VersionValidationIssue" where
  "attributed key (VersionValidationIssue c v k m u d) = VersionValidationIssue c v (Some key) m u d"

datatype VersionValidationContributorError = InvalidContributionIssue | InternalFailure

definition validate_bounds :: "VersionValidationIssue \<Rightarrow> VersionValidationContributorError + unit" where
  "validate_bounds i =
     (if message i = [] \<or> char_count (message i) > MAX_VALIDATION_MESSAGE_CHARS
         \<or> any_char is_control (message i)
         \<or> length (details i) > MAX_VALIDATION_DETAILS
         \<or> list_ex (\<lambda>(key, val). key = [] \<or> char_count key > MAX_VALIDATION_DETAIL_CHARS
               \<or> char_count val > MAX_VALIDATION_DETAIL_CHARS
               \<or> any_char is_control key \<or> any_char is_control val) (details i)
         \<or> (case Option.bind (issue_subject i) subject_id of None \<Rightarrow> False
            | Some d \<Rightarrow> d = [] \<or> char_count d > MAX_VALIDATION_DETAIL_CHARS \<or> any_char is_control d)
      then Inl InvalidContributionIssue else Inr ())"

definition audit_summary :: "VersionValidationIssue \<Rightarrow> string" where
  "audit_summary i =
     (let subject = (case issue_subject i of None \<Rightarrow> []
                     | Some s \<Rightarrow> (case subject_id s of None \<Rightarrow> subject_kind s
                                 | Some d \<Rightarrow> subject_kind s @ '':'' @ d))
      in if subject = [] then issue_code i else issue_code i @ '':'' @ subject)"

section \<open>The registry\<close>

record 'u VersionValidationContext =
  ctx_version :: "'u CrawlerVersion"
  ctx_page_types :: "'u PageType list"
  ctx_transitions :: "DiscoveryTransition list"
  ctx_test_evidence :: "TestEvidence list"
  ctx_config_hash :: string

record 'u VersionValidationContributor =
  contributor_key :: string
  contribute :: "'u VersionValidationContext \<Rightarrow> VersionValidationContributorError + VersionValidationIssue list"

datatype VersionValidationError =
    InvalidContributorKey | DuplicateContributorKey string | TooManyIssues string
  | ContributorFailed string | InvalidContribution string

record VersionValidationReport =
  report_version_id :: CrawlerVersionId
  report_config_hash :: string
  blockers :: "VersionValidationIssue list"
  report_warnings :: "VersionValidationIssue list"
  publishable :: bool

definition report_new ::
  "CrawlerVersionId \<Rightarrow> string \<Rightarrow> VersionValidationIssue list \<Rightarrow> VersionValidationIssue list \<Rightarrow> VersionValidationReport" where
  "report_new version_id config_hash bs ws =
     \<lparr>report_version_id = version_id, report_config_hash = config_hash, blockers = bs,
      report_warnings = ws, publishable = (bs = [])\<rparr>"

definition warning_summary :: "VersionValidationReport \<Rightarrow> string list" where
  "warning_summary report = dedup (sort (map audit_summary (report_warnings report)))"

definition register ::
  "'u VersionValidationContributor \<Rightarrow> 'u VersionValidationContributor list
     \<Rightarrow> VersionValidationError + 'u VersionValidationContributor list" where
  "register contributor registry =
     res_bind (map_err (\<lambda>_. InvalidContributorKey) (identifier_new (contributor_key contributor))) (\<lambda>key.
       if list_ex (\<lambda>registered. contributor_key registered = key) registry
       then Inl (DuplicateContributorKey key) else Inr (registry @ [contributor]))"

definition registry_keys :: "'u VersionValidationContributor list \<Rightarrow> string list" where
  "registry_keys registry = sort (map contributor_key registry)"

definition contributor_error :: "string \<Rightarrow> VersionValidationContributorError \<Rightarrow> VersionValidationError" where
  "contributor_error key err =
     (case err of InvalidContributionIssue \<Rightarrow> InvalidContribution key | InternalFailure \<Rightarrow> ContributorFailed key)"

fun collect_issues ::
  "string \<Rightarrow> VersionValidationIssue list \<Rightarrow> VersionValidationIssue list
     \<Rightarrow> VersionValidationError + VersionValidationIssue list" where
  "collect_issues key [] issues = Inr issues"
| "collect_issues key (i # rest) issues =
     res_bind (map_err (\<lambda>_. InvalidContribution key) (validate_bounds i)) (\<lambda>_.
       let extended = issues @ [attributed key i] in
       if length extended > MAX_VALIDATION_ISSUES then Inl (TooManyIssues key)
       else collect_issues key rest extended)"

fun run_contributors ::
  "'u VersionValidationContext \<Rightarrow> (string \<times> 'u VersionValidationContributor) list \<Rightarrow> string set
     \<Rightarrow> VersionValidationIssue list \<Rightarrow> VersionValidationError + VersionValidationIssue list" where
  "run_contributors ctx [] seen issues = Inr issues"
| "run_contributors ctx ((key, contributor) # rest) seen issues =
     (if key \<in> seen then Inl (DuplicateContributorKey key)
      else res_bind (map_err (contributor_error key) (contribute contributor ctx)) (\<lambda>contribution.
        if length contribution > MAX_VALIDATION_ISSUES_PER_CONTRIBUTOR then Inl (TooManyIssues key)
        else res_bind (collect_issues key contribution issues) (\<lambda>extended.
          run_contributors ctx rest (insert key seen) extended)))"

definition keyed_contributor ::
  "'u VersionValidationContributor \<Rightarrow> VersionValidationError + string \<times> 'u VersionValidationContributor" where
  "keyed_contributor c =
     res_bind (map_err (\<lambda>_. InvalidContributorKey) (identifier_new (contributor_key c))) (\<lambda>key. Inr (key, c))"

definition validate_registry ::
  "'u VersionValidationContributor list \<Rightarrow> 'u VersionValidationContext
     \<Rightarrow> VersionValidationError + VersionValidationReport" where
  "validate_registry registry ctx =
     res_bind (collect_results keyed_contributor registry) (\<lambda>contributors.
     res_bind (run_contributors ctx (sort_key fst contributors) {} []) (\<lambda>collected.
       let issues = dedup (sort collected) in
       Inr (report_new (cv_id (ctx_version ctx)) (ctx_config_hash ctx)
         (filter (\<lambda>i. severity i = Blocker) issues) (filter (\<lambda>i. severity i = Warning) issues))))"

section \<open>The core contributor\<close>

text \<open>\<open>ve_append_pair\<close> is \<open>query_pairs_mut().append_pair\<close>, \<open>ve_debug_query\<close> the \<open>{:?}\<close> rendering of a
  query constraint, \<open>ve_sha256\<close> the digest of the bytes of a text.\<close>

record 'u validation_env =
  ve_scope :: "'u scope_env"
  ve_matcher :: "'u matcher_env"
  ve_append_pair :: "string \<Rightarrow> string \<Rightarrow> 'u \<Rightarrow> 'u"
  ve_debug_query :: "(string, string) bmap \<Rightarrow> string"
  ve_sha256 :: "string \<Rightarrow> u8 list"

abbreviation ve_api :: "'u validation_env \<Rightarrow> 'u url_api" where
  "ve_api env \<equiv> matcher_api (ve_matcher env)"

definition issue_subject_of :: "string \<Rightarrow> string option \<Rightarrow> VersionValidationSubject" where
  "issue_subject_of kind i = \<lparr>subject_kind = kind, subject_id = i\<rparr>"

definition core_issue_with_severity ::
  "string \<Rightarrow> VersionValidationSeverity \<Rightarrow> string \<Rightarrow> VersionValidationSubject option \<Rightarrow> VersionValidationIssue" where
  "core_issue_with_severity c sev msg subject =
     (let i = issue_new c sev msg in case subject of Some s \<Rightarrow> with_subject s i | None \<Rightarrow> i)"

definition core_issue :: "string \<Rightarrow> string \<Rightarrow> VersionValidationSubject option \<Rightarrow> VersionValidationIssue" where
  "core_issue c msg subject = core_issue_with_severity c Blocker msg subject"

definition core_warning_issue :: "string \<Rightarrow> string \<Rightarrow> VersionValidationSubject option \<Rightarrow> VersionValidationIssue" where
  "core_warning_issue c msg subject = core_issue_with_severity c Warning msg subject"

definition core_guardrail_issue :: "ErrorCode \<Rightarrow> VersionValidationIssue" where
  "core_guardrail_issue c =
     (case c of
        InvalidPageTypeBudget \<Rightarrow> core_issue ''INVALID_PAGE_TYPE_BUDGET'' ''A PageType budget is invalid.'' None
      | InvalidTransitionBudget \<Rightarrow> core_issue ''INVALID_TRANSITION_BUDGET'' ''A transition budget is invalid.'' None
      | _ \<Rightarrow> core_issue ''INVALID_CRAWLER_GUARDRAILS'' ''Crawler guardrails are invalid.'' None)"

definition sha256_hex :: "'u validation_env \<Rightarrow> string \<Rightarrow> string" where
  "sha256_hex env v = hex_encode (ve_sha256 env v)"

definition core_ambiguity_issue :: "'u validation_env \<Rightarrow> CrawlerVersionId \<Rightarrow> string \<Rightarrow> VersionValidationIssue" where
  "core_ambiguity_issue env version_id canonical_witness =
     (let i = core_issue ''UNRESOLVED_PAGE_TYPE_AMBIGUITY''
                ''The canonical PageType resolver has an unresolved ambiguity for a known URL.''
                (Some (issue_subject_of ''CRAWLER_VERSION'' (Some version_id)))
      in if char_count canonical_witness \<le> MAX_VALIDATION_DETAIL_CHARS
         then with_detail ''witness_url'' canonical_witness i
         else with_detail ''witness_url_sha256'' (sha256_hex env canonical_witness)
                (with_detail ''witness_url_prefix''
                  (concat (take (MAX_VALIDATION_DETAIL_CHARS - 64) (chars_of canonical_witness))) i))"

definition page_type_evidence_kind :: "TestKind \<Rightarrow> bool" where
  "page_type_evidence_kind kind \<longleftrightarrow> kind \<in> {PageTypeMatching, Extraction, SelectorCoverage, CombinedUrlEvaluation}"

subsection \<open>Witnesses of ambiguity\<close>

definition rewrite_template :: "string \<Rightarrow> string \<Rightarrow> string" where
  "rewrite_template filler template =
     join_char (CHR ''/'') (map (\<lambda>segment. if is_variable segment then filler else segment)
       (split_char (CHR ''/'') template))"

definition normalize_template :: "string \<Rightarrow> string" where
  "normalize_template template = rewrite_template ''{}'' template"

definition normalize_template_witness :: "string \<Rightarrow> string" where
  "normalize_template_witness template = rewrite_template ''witness'' template"

fun matcher_fingerprint :: "'u validation_env \<Rightarrow> 'u UrlMatcher \<Rightarrow> string" where
  "matcher_fingerprint env (ExactUrl u) = ''EXACT_URL|'' @ url_as_str (ve_api env) u"
| "matcher_fingerprint env (ExactHostPathTemplate host path_template query) =
     ''EXACT_HOST_PATH_TEMPLATE|'' @ to_ascii_lowercase host @ ''|'' @ normalize_template path_template
       @ ''|'' @ ve_debug_query env query"
| "matcher_fingerprint env (PathPrefix host path_prefix) =
     ''PATH_PREFIX|'' @ to_ascii_lowercase (case host of None \<Rightarrow> [] | Some h \<Rightarrow> h) @ ''|'' @ path_prefix"
| "matcher_fingerprint env (PathGlob host pattern) =
     ''PATH_GLOB|'' @ to_ascii_lowercase (case host of None \<Rightarrow> [] | Some h \<Rightarrow> h) @ ''|'' @ pattern"
| "matcher_fingerprint env (RegexMatcher pattern) = ''REGEX|'' @ pattern"

definition path_witness :: "'u validation_env \<Rightarrow> string option \<Rightarrow> string \<Rightarrow> 'u option" where
  "path_witness env host path =
     url_parse (ve_api env) (''https://'' @ (case host of None \<Rightarrow> ''example.test'' | Some h \<Rightarrow> h)
       @ (if path = [] then ''/'' else path))"

fun matcher_witness :: "'u validation_env \<Rightarrow> 'u UrlMatcher \<Rightarrow> 'u option" where
  "matcher_witness env (ExactUrl u) = Some u"
| "matcher_witness env (ExactHostPathTemplate host path_template query) =
     map_option (\<lambda>u. fold (\<lambda>(key, v). ve_append_pair env key v) query u)
       (url_parse (ve_api env) (''https://'' @ host @ normalize_template_witness path_template))"
| "matcher_witness env (PathPrefix host path_prefix) = path_witness env host path_prefix"
| "matcher_witness env (PathGlob host pattern) =
     path_witness env host (replace_str ''*'' ''witness'' pattern)"
| "matcher_witness env (RegexMatcher pattern) = None"

definition is_ambiguous :: "PageTypeMatchDecision \<Rightarrow> bool" where
  "is_ambiguous d \<longleftrightarrow> (case d of Ambiguous _ \<Rightarrow> True | _ \<Rightarrow> False)"

text \<open>The canonical form of a URL that two page types of the version tie on.\<close>

definition tied_witness :: "'u validation_env \<Rightarrow> 'u VersionValidationContext \<Rightarrow> 'u \<Rightarrow> string option" where
  "tied_witness env ctx u =
     (case canonicalize (ve_api env) (cv_canonicalization (ctx_version ctx)) (url_as_str (ve_api env) u) of
        Inl _ \<Rightarrow> None
      | Inr canonical \<Rightarrow>
          if is_ambiguous (resolve_page_type (ve_matcher env) (res_canonical_url canonical) (ctx_page_types ctx))
          then Some (url_as_str (ve_api env) (res_canonical_url canonical)) else None)"

definition enabled_seeds_of :: "'u VersionValidationContext \<Rightarrow> 'u Seed list" where
  "enabled_seeds_of ctx = filter seed_enabled (cv_seeds (ctx_version ctx))"

fun later_pairs :: "'a list \<Rightarrow> ('a \<times> 'a) list" where
  "later_pairs [] = []"
| "later_pairs (x # xs) = map (Pair x) xs @ later_pairs xs"

definition comparable_matchers :: "'u validation_env \<Rightarrow> 'u UrlMatcher \<Rightarrow> 'u UrlMatcher \<Rightarrow> bool" where
  "comparable_matchers env l r \<longleftrightarrow>
     \<not> (matcher_kind_of l = RegexKind \<or> matcher_kind_of r = RegexKind
        \<or> specificity (ve_matcher env) l \<noteq> specificity (ve_matcher env) r
        \<or> matcher_fingerprint env l \<noteq> matcher_fingerprint env r)"

definition pair_witnesses ::
  "'u validation_env \<Rightarrow> 'u VersionValidationContext \<Rightarrow> 'u PageType \<Rightarrow> 'u PageType \<Rightarrow> string list" where
  "pair_witnesses env ctx l r =
     (if pt_priority l \<noteq> pt_priority r then []
      else List.map_filter (\<lambda>(lm, rm).
             if comparable_matchers env lm rm then Option.bind (matcher_witness env lm) (tied_witness env ctx)
             else None)
           (List.product (pt_matchers l) (pt_matchers r)))"

definition design_time_ambiguity_witnesses :: "'u validation_env \<Rightarrow> 'u VersionValidationContext \<Rightarrow> string bset" where
  "design_time_ambiguity_witnesses env ctx =
     bs_collect (List.map_filter (\<lambda>seed. tied_witness env ctx (original_url seed)) (enabled_seeds_of ctx)
       @ concat (map (\<lambda>(l, r). pair_witnesses env ctx l r) (later_pairs (ctx_page_types ctx))))"

subsection \<open>The checks, in the order of the code\<close>

definition page_type_subject :: "PageTypeId \<Rightarrow> VersionValidationSubject option" where
  "page_type_subject i = Some (issue_subject_of ''PAGETYPE'' (Some i))"

definition seed_subject :: "SeedId \<Rightarrow> VersionValidationSubject option" where
  "seed_subject i = Some (issue_subject_of ''SEED'' (Some i))"

definition transition_subject :: "DiscoveryTransitionId \<Rightarrow> VersionValidationSubject option" where
  "transition_subject i = Some (issue_subject_of ''TRANSITION'' (Some i))"

definition owned_ids :: "'u VersionValidationContext \<Rightarrow> PageTypeId set" where
  "owned_ids ctx = set (map pt_id (ctx_page_types ctx))"

definition seed_canonical_issue :: "'u validation_env \<Rightarrow> 'u CrawlerVersion \<Rightarrow> 'u Seed \<Rightarrow> VersionValidationIssue list" where
  "seed_canonical_issue env v seed =
     (case canonicalize (ve_api env) (cv_canonicalization v) (url_as_str (ve_api env) (original_url seed)) of
        Inl _ \<Rightarrow> [core_issue ''INVALID_SEED_CANONICALIZATION''
                    ''An enabled Seed cannot be canonicalized by the version policy.'' (seed_subject (seed_id seed))]
      | Inr r \<Rightarrow>
          if res_canonical_url r \<noteq> canonical_url seed
          then [core_issue ''INVALID_SEED_CANONICALIZATION''
                  ''An enabled Seed canonical URL does not match the version policy.'' (seed_subject (seed_id seed))]
          else [])"

definition seed_issues :: "'u validation_env \<Rightarrow> 'u VersionValidationContext \<Rightarrow> VersionValidationIssue list" where
  "seed_issues env ctx =
     (let v = ctx_version ctx; enabled = enabled_seeds_of ctx in
      (if enabled = [] then [core_issue ''NO_ENABLED_SEED''
          ''CrawlerVersion must contain at least one enabled Seed.'' None] else [])
      @ (case validate_canonicalization (cv_canonicalization v) of
           Inl _ \<Rightarrow> [core_issue ''INVALID_CANONICALIZATION'' ''The canonicalization policy is invalid.'' None]
         | Inr _ \<Rightarrow> concat (map (seed_canonical_issue env v) enabled)))"

definition hint_issues :: "'u VersionValidationContext \<Rightarrow> VersionValidationIssue list" where
  "hint_issues ctx =
     List.map_filter (\<lambda>seed.
       case entry_page_type_hint seed of
         None \<Rightarrow> None
       | Some hint \<Rightarrow> if hint \<notin> owned_ids ctx
           then Some (core_issue ''MISSING_SEED_PAGE_TYPE''
                  ''A Seed PageType hint must reference a PageType owned by the version.'' (seed_subject (seed_id seed)))
           else None) (cv_seeds (ctx_version ctx))"

definition matcher_issues :: "'u validation_env \<Rightarrow> 'u VersionValidationContext \<Rightarrow> VersionValidationIssue list" where
  "matcher_issues env ctx =
     concat (map (\<lambda>pt. List.map_filter (\<lambda>matcher.
         case validate_definition (ve_matcher env) matcher of
           Inl _ \<Rightarrow> Some (core_issue ''INVALID_MATCHER_SYNTAX''
                     ''A PageType contains an invalid URL matcher definition.'' (page_type_subject (pt_id pt)))
         | Inr _ \<Rightarrow> None) (pt_matchers pt)) (ctx_page_types ctx))"

definition scope_issues :: "'u validation_env \<Rightarrow> 'u VersionValidationContext \<Rightarrow> VersionValidationIssue list" where
  "scope_issues env ctx =
     (case validate_scope (ve_scope env) (cv_domain_scope (ctx_version ctx)) of
        Inl _ \<Rightarrow> [core_issue ''INVALID_DOMAIN_SCOPE'' ''The Domain Scope policy is invalid.'' None]
      | Inr _ \<Rightarrow> [])"

definition guardrail_issues :: "'u VersionValidationContext \<Rightarrow> VersionValidationIssue list" where
  "guardrail_issues ctx =
     (let g = cv_guardrails (ctx_version ctx) in
      case validate_guardrails g of
        Inl err \<Rightarrow> [core_guardrail_issue (code err)]
      | Inr _ \<Rightarrow> List.map_filter (\<lambda>budget.
            if page_type_id budget \<notin> owned_ids ctx
            then Some (core_issue ''INVALID_PAGE_TYPE_BUDGET''
                   ''A PageType budget references a PageType outside the version.'' (page_type_subject (page_type_id budget)))
            else None) (gr_page_types g))"

definition transition_issues_of :: "'u VersionValidationContext \<Rightarrow> DiscoveryTransition \<Rightarrow> VersionValidationIssue list" where
  "transition_issues_of ctx t =
     (if source_page_type_id t \<notin> owned_ids ctx then [core_issue ''MISSING_TRANSITION_SOURCE_PAGETYPE''
        ''A DiscoveryTransition source PageType is missing from the version.'' (transition_subject (tr_id t))] else [])
     @ (if target_page_type_id t \<notin> owned_ids ctx then [core_issue ''MISSING_TRANSITION_TARGET_PAGETYPE''
        ''A DiscoveryTransition target PageType is missing from the version.'' (transition_subject (tr_id t))] else [])
     @ (case validate_transition t of
          Inr _ \<Rightarrow> []
        | Inl err \<Rightarrow> [core_issue
            (if code err = InvalidTransitionBudget then ''INVALID_TRANSITION_BUDGET'' else ''INVALID_DISCOVERY_TRANSITION'')
            ''A DiscoveryTransition or its budget is invalid.'' (transition_subject (tr_id t))])"

definition ambiguity_issues :: "'u validation_env \<Rightarrow> 'u VersionValidationContext \<Rightarrow> VersionValidationIssue list" where
  "ambiguity_issues env ctx =
     map (core_ambiguity_issue env (cv_id (ctx_version ctx))) (design_time_ambiguity_witnesses env ctx)"

definition current_evidence :: "'u VersionValidationContext \<Rightarrow> TestEvidence \<Rightarrow> bool" where
  "current_evidence ctx evidence \<longleftrightarrow>
     te_crawler_version_id evidence = cv_id (ctx_version ctx) \<and> te_config_hash evidence = ctx_config_hash ctx"

definition page_type_warnings :: "'u VersionValidationContext \<Rightarrow> 'u PageType \<Rightarrow> VersionValidationIssue list" where
  "page_type_warnings ctx pt =
     (let current = filter (\<lambda>evidence. current_evidence ctx evidence
            \<and> page_type_evidence_kind (te_test_kind evidence)
            \<and> te_evaluated_page_type_id evidence = Some (pt_id pt)) (ctx_test_evidence ctx);
          observations = concat (map te_selector_coverage current)
      in (if current = [] then [core_warning_issue ''PAGE_TYPE_TEST_EVIDENCE_MISSING''
            ''No current TestEvidence evaluates this PageType configuration.'' (page_type_subject (pt_id pt))] else [])
         @ (if list_ex (\<lambda>ob. ev_status ob = NoMatches) observations
               \<and> \<not> list_ex (\<lambda>ob. ev_status ob = Observed) observations
            then [core_warning_issue ''SELECTOR_COVERAGE_UNUSABLE''
                    ''Current selector observations report no usable matches.'' (page_type_subject (pt_id pt))] else []))"

definition transition_warnings :: "'u VersionValidationContext \<Rightarrow> DiscoveryTransition \<Rightarrow> VersionValidationIssue list" where
  "transition_warnings ctx t =
     (if list_ex (\<lambda>evidence. current_evidence ctx evidence
            \<and> te_test_kind evidence = DiscoveryTransitionTest
            \<and> te_tested_transition_id evidence = Some (tr_id t)
            \<and> (case te_discovery evidence of None \<Rightarrow> False
               | Some discovery \<Rightarrow> dte_transition_id discovery = Some (tr_id t))) (ctx_test_evidence ctx)
      then []
      else [core_warning_issue ''TRANSITION_TEST_EVIDENCE_MISSING''
              ''No current TestEvidence evaluates this DiscoveryTransition configuration.'' (transition_subject (tr_id t))])"

definition core_issues :: "'u validation_env \<Rightarrow> 'u VersionValidationContext \<Rightarrow> VersionValidationIssue list" where
  "core_issues env ctx =
     seed_issues env ctx @ hint_issues ctx @ matcher_issues env ctx @ scope_issues env ctx
     @ guardrail_issues ctx @ concat (map (transition_issues_of ctx) (ctx_transitions ctx))
     @ ambiguity_issues env ctx @ concat (map (page_type_warnings ctx) (ctx_page_types ctx))
     @ concat (map (transition_warnings ctx) (ctx_transitions ctx))"

definition core_contributor :: "'u validation_env \<Rightarrow> 'u VersionValidationContributor" where
  "core_contributor env = \<lparr>contributor_key = ''core'', contribute = (\<lambda>ctx. Inr (core_issues env ctx))\<rparr>"

definition registry_new :: "'u validation_env \<Rightarrow> 'u VersionValidationContributor list" where
  "registry_new env = [core_contributor env]"

section \<open>The report of a registry\<close>

lemma attributed_fields [simp]:
  "severity (attributed key i) = severity i" "issue_code (attributed key i) = issue_code i"
  by (cases i; simp)+

lemma collect_issues_Inr:
  "length issues \<le> MAX_VALIDATION_ISSUES \<Longrightarrow>
   collect_issues key is issues = Inr out \<longleftrightarrow>
     (\<forall>i \<in> set is. validate_bounds i = Inr ()) \<and> out = issues @ map (attributed key) is
     \<and> length out \<le> MAX_VALIDATION_ISSUES"
  by (induction key "is" issues rule: collect_issues.induct) (auto simp: result_simps Let_def)

definition well_formed_contribution ::
  "'u VersionValidationContext \<Rightarrow> 'u VersionValidationContributor \<Rightarrow> VersionValidationIssue list \<Rightarrow> bool" where
  "well_formed_contribution ctx c is \<longleftrightarrow>
     contribute c ctx = Inr is \<and> length is \<le> MAX_VALIDATION_ISSUES_PER_CONTRIBUTOR
     \<and> (\<forall>i \<in> set is. validate_bounds i = Inr ())"

lemma run_contributors_Inr:
  "length issues \<le> MAX_VALIDATION_ISSUES \<Longrightarrow> run_contributors ctx cs seen issues = Inr out \<Longrightarrow>
     distinct (map fst cs) \<and> fst ` set cs \<inter> seen = {} \<and> length out \<le> MAX_VALIDATION_ISSUES
     \<and> (\<forall>(key, c) \<in> set cs. \<exists>is. well_formed_contribution ctx c is)
     \<and> set out = set issues \<union> {attributed key i | key c is i. (key, c) \<in> set cs
           \<and> contribute c ctx = Inr is \<and> i \<in> set is}"
proof (induction ctx cs seen issues rule: run_contributors.induct)
  case (2 ctx key c rest seen issues)
  from "2.prems" obtain "is" where fresh: "key \<notin> seen" and c: "contribute c ctx = Inr is"
    and len: "length is \<le> MAX_VALIDATION_ISSUES_PER_CONTRIBUTOR"
    and col: "\<And>i. i \<in> set is \<Longrightarrow> validate_bounds i = Inr ()"
      "length (issues @ map (attributed key) is) \<le> MAX_VALIDATION_ISSUES"
    and rest: "run_contributors ctx rest (insert key seen) (issues @ map (attributed key) is) = Inr out"
    by (auto simp: result_simps collect_issues_Inr split: if_splits)
  from len have "\<not> MAX_VALIDATION_ISSUES_PER_CONTRIBUTOR < length is" by simp
  note "2.IH" [OF fresh this col(2) rest]
  then have "distinct (map fst rest) \<and> fst ` set rest \<inter> insert key seen = {}
      \<and> length out \<le> MAX_VALIDATION_ISSUES \<and> (\<forall>(key, c) \<in> set rest. \<exists>is. well_formed_contribution ctx c is)
      \<and> set out = set (issues @ map (attributed key) is) \<union> {attributed key i | key c is i. (key, c) \<in> set rest
           \<and> contribute c ctx = Inr is \<and> i \<in> set is}"
    .
  moreover have "well_formed_contribution ctx c is"
    using c len col(1) by (simp add: well_formed_contribution_def)
  ultimately show ?case using fresh c by auto
qed auto

lemma keyed_contributors_Inr:
  "collect_results keyed_contributor registry = Inr cs \<Longrightarrow>
     cs = map (\<lambda>c. (contributor_key c, c)) registry"
  unfolding collect_results_Inr
  by (induction registry arbitrary: cs)
    (auto simp: list_all2_Cons1 keyed_contributor_def identifier_new_def result_simps)

lemma keyed_contributors_Inl:
  "collect_results keyed_contributor registry = Inl err \<Longrightarrow> err = InvalidContributorKey"
  by (induction registry) (auto simp: keyed_contributor_def result_simps)

lemma keyed_contributors_total:
  "(\<exists>cs. collect_results keyed_contributor registry = Inr cs) \<longleftrightarrow>
     (\<forall>c \<in> set registry. validate_identifier (contributor_key c) = Inr ())"
  unfolding collect_results_Inr_iff by (auto simp: keyed_contributor_def identifier_new_def result_simps)

lemma validate_registry_order:
  assumes "distinct (map contributor_key registry)" and "mset registry' = mset registry"
  shows "validate_registry registry' ctx = validate_registry registry ctx"
proof (cases "\<exists>cs. collect_results keyed_contributor registry = Inr cs")
  case True
  then obtain cs where cs: "collect_results keyed_contributor registry = Inr cs" by blast
  have "set registry' = set registry" using assms(2) by (metis set_mset_mset)
  with True obtain cs' where cs': "collect_results keyed_contributor registry' = Inr cs'"
    unfolding keyed_contributors_total by (metis keyed_contributors_total)
  have "mset cs' = mset cs"
    using assms(2) keyed_contributors_Inr [OF cs] keyed_contributors_Inr [OF cs'] by (simp add: mset_map)
  moreover have "inj_on fst (set cs')"
    using assms(1) \<open>set registry' = set registry\<close> keyed_contributors_Inr [OF cs']
    by (auto simp: inj_on_def distinct_map)
  ultimately have "sort_key fst cs' = sort_key fst cs" by (rule sort_key_perm_eq)
  with cs cs' show ?thesis by (simp add: validate_registry_def)
next
  case False
  have "set registry' = set registry" using assms(2) by (metis set_mset_mset)
  with False have "\<not> (\<exists>cs. collect_results keyed_contributor registry' = Inr cs)"
    by (simp add: keyed_contributors_total)
  with False have "collect_results keyed_contributor registry = Inl InvalidContributorKey"
    "collect_results keyed_contributor registry' = Inl InvalidContributorKey"
    by (metis keyed_contributors_Inl sum.exhaust)+
  then show ?thesis by (simp add: validate_registry_def)
qed

definition contributed ::
  "'u VersionValidationContributor list \<Rightarrow> 'u VersionValidationContext \<Rightarrow> VersionValidationIssue set" where
  "contributed registry ctx = {attributed (contributor_key c) i | c is i. c \<in> set registry
      \<and> contribute c ctx = Inr is \<and> i \<in> set is}"

lemma severity_cases: "severity i = Warning \<longleftrightarrow> severity i \<noteq> Blocker"
  by (cases "severity i") auto

lemma sorted_dedup_filter:
  "sorted (filter P (dedup (sort xs))) \<and> distinct (filter P (dedup (sort xs)))"
  for xs :: "'a::linorder list"
  by (simp add: sorted_dedup distinct_dedup_sorted sorted_filter [of id, simplified])

lemma length_dedup: "length (dedup xs) \<le> length xs"
  by (induction xs rule: dedup.induct) auto

lemma validate_registry_Inr:
  assumes "validate_registry registry ctx = Inr report"
  obtains issues where
    "set issues = contributed registry ctx" "sorted issues" "distinct issues"
    "length issues \<le> MAX_VALIDATION_ISSUES"
    "\<forall>c \<in> set registry. \<exists>is. well_formed_contribution ctx c is"
    "report = report_new (cv_id (ctx_version ctx)) (ctx_config_hash ctx)
       (filter (\<lambda>i. severity i = Blocker) issues) (filter (\<lambda>i. severity i = Warning) issues)"
proof -
  from assms obtain cs collected where cs: "collect_results keyed_contributor registry = Inr cs"
    and run: "run_contributors ctx (sort_key fst cs) {} [] = Inr collected"
    and report: "report = report_new (cv_id (ctx_version ctx)) (ctx_config_hash ctx)
       (filter (\<lambda>i. severity i = Blocker) (dedup (sort collected)))
       (filter (\<lambda>i. severity i = Warning) (dedup (sort collected)))"
    by (auto simp: validate_registry_def result_simps Let_def)
  have "length ([] :: VersionValidationIssue list) \<le> MAX_VALIDATION_ISSUES" by simp
  note r = run_contributors_Inr [OF this run]
  have cs_set: "set (sort_key fst cs) = (\<lambda>c. (contributor_key c, c)) ` set registry"
    using keyed_contributors_Inr [OF cs] by simp
  have out: "set collected = contributed registry ctx"
    using r unfolding contributed_def cs_set by (simp add: image_iff)
  show thesis
  proof (rule that [OF _ _ _ _ _ report])
    show "set (dedup (sort collected)) = contributed registry ctx" by (simp add: out)
    show "length (dedup (sort collected)) \<le> MAX_VALIDATION_ISSUES"
      using r length_dedup [of "sort collected"] by simp
    show "\<forall>c \<in> set registry. \<exists>is. well_formed_contribution ctx c is"
      using r cs_set by auto
  qed (simp_all add: sorted_dedup distinct_dedup_sorted)
qed

lemma report_exact:
  assumes "validate_registry registry ctx = Inr report"
  shows "set (blockers report) = {i \<in> contributed registry ctx. severity i = Blocker}
     \<and> set (report_warnings report) = {i \<in> contributed registry ctx. severity i = Warning}
     \<and> sorted (blockers report) \<and> distinct (blockers report)
     \<and> sorted (report_warnings report) \<and> distinct (report_warnings report)
     \<and> length (blockers report) + length (report_warnings report) \<le> MAX_VALIDATION_ISSUES
     \<and> (\<forall>c \<in> set registry. \<exists>is. well_formed_contribution ctx c is)
     \<and> (publishable report \<longleftrightarrow> (\<forall>c \<in> set registry. \<forall>is. contribute c ctx = Inr is \<longrightarrow>
           (\<forall>i \<in> set is. severity i = Warning)))"
proof -
  from assms obtain issues where i: "set issues = contributed registry ctx" "sorted issues" "distinct issues"
      "length issues \<le> MAX_VALIDATION_ISSUES"
      "\<forall>c \<in> set registry. \<exists>is. well_formed_contribution ctx c is"
    and report: "report = report_new (cv_id (ctx_version ctx)) (ctx_config_hash ctx)
       (filter (\<lambda>i. severity i = Blocker) issues) (filter (\<lambda>i. severity i = Warning) issues)"
    by (rule validate_registry_Inr)
  have l: "length (filter (\<lambda>i. severity i = Blocker) issues) + length (filter (\<lambda>i. severity i = Warning) issues)
      = length issues"
    unfolding severity_cases by (rule sum_length_filter_compl)
  have b: "filter (\<lambda>i. severity i = Blocker) issues = [] \<longleftrightarrow>
      (\<forall>c \<in> set registry. \<forall>is. contribute c ctx = Inr is \<longrightarrow> (\<forall>i \<in> set is. severity i = Warning))"
    unfolding filter_empty_conv i(1) contributed_def severity_cases by fastforce
  show ?thesis
    using i l b by (simp add: report report_new_def sorted_filter [of id, simplified])
qed

text \<open>
  A report does not depend on the order in which contributors were registered, errors included.
  It holds exactly the issues the contributors raised, each under the key of its contributor, sorted
  and without repetition, split by severity and at most 512 in all; every contributor has answered
  within its own bound, and the version is publishable exactly when none of them raised a blocker.
\<close>
theorem report_aggregates_contributions:
  assumes "distinct (map contributor_key registry)" and "mset registry' = mset registry"
  shows "validate_registry registry' ctx = validate_registry registry ctx
   \<and> (\<forall>report. validate_registry registry ctx = Inr report \<longrightarrow>
       set (blockers report) = {i \<in> contributed registry ctx. severity i = Blocker}
     \<and> set (report_warnings report) = {i \<in> contributed registry ctx. severity i = Warning}
     \<and> sorted (blockers report) \<and> distinct (blockers report)
     \<and> sorted (report_warnings report) \<and> distinct (report_warnings report)
     \<and> length (blockers report) + length (report_warnings report) \<le> MAX_VALIDATION_ISSUES
     \<and> (\<forall>c \<in> set registry. \<exists>is. well_formed_contribution ctx c is)
     \<and> (publishable report \<longleftrightarrow> (\<forall>c \<in> set registry. \<forall>is. contribute c ctx = Inr is \<longrightarrow>
           (\<forall>i \<in> set is. severity i = Warning))))"
  using validate_registry_order [OF assms] report_exact by blast

section \<open>What the core contributor requires\<close>

lemma map_filter_empty_conv: "List.map_filter f xs = [] \<longleftrightarrow> (\<forall>x \<in> set xs. f x = None)"
  by (induction xs) (auto simp: List.map_filter_simps split: option.splits)

lemma severity_core_issue [simp]:
  "severity (core_issue c m s) = Blocker" "severity (core_warning_issue c m s) = Warning"
  by (simp_all add: core_issue_def core_warning_issue_def core_issue_with_severity_def issue_new_def Let_def
      split: option.splits)

lemma severity_with_detail [simp]: "severity (with_detail k v i) = severity i"
  by (cases i) simp

lemma severity_core_guardrail [simp]: "severity (core_guardrail_issue c) = Blocker"
  by (cases c) (simp_all add: core_guardrail_issue_def)

lemma severity_core_ambiguity [simp]: "severity (core_ambiguity_issue env v w) = Blocker"
  by (simp add: core_ambiguity_issue_def Let_def)

text \<open>A version is ready when it has an enabled seed, its policies are valid, every reference stays
  inside it, every enabled seed is canonical and tied by no two page types, and no witness of two
  comparable matchers is tied.\<close>

definition seed_ready :: "'u validation_env \<Rightarrow> 'u VersionValidationContext \<Rightarrow> 'u Seed \<Rightarrow> bool" where
  "seed_ready env ctx seed \<longleftrightarrow>
     (\<exists>r. canonicalize (ve_api env) (cv_canonicalization (ctx_version ctx))
            (url_as_str (ve_api env) (original_url seed)) = Inr r
        \<and> res_canonical_url r = canonical_url seed
        \<and> \<not> is_ambiguous (resolve_page_type (ve_matcher env) (canonical_url seed) (ctx_page_types ctx)))"

definition matchers_separated :: "'u validation_env \<Rightarrow> 'u VersionValidationContext \<Rightarrow> bool" where
  "matchers_separated env ctx \<longleftrightarrow>
     (\<forall>(l, r) \<in> set (later_pairs (ctx_page_types ctx)). pt_priority l = pt_priority r \<longrightarrow>
        (\<forall>lm \<in> set (pt_matchers l). \<forall>rm \<in> set (pt_matchers r). comparable_matchers env lm rm \<longrightarrow>
          (\<forall>u. matcher_witness env lm = Some u \<longrightarrow> tied_witness env ctx u = None)))"

definition references_owned :: "'u VersionValidationContext \<Rightarrow> bool" where
  "references_owned ctx \<longleftrightarrow>
     (\<forall>seed \<in> set (cv_seeds (ctx_version ctx)). \<forall>hint. entry_page_type_hint seed = Some hint \<longrightarrow> hint \<in> owned_ids ctx)
   \<and> (\<forall>budget \<in> set (gr_page_types (cv_guardrails (ctx_version ctx))). page_type_id budget \<in> owned_ids ctx)
   \<and> (\<forall>t \<in> set (ctx_transitions ctx). source_page_type_id t \<in> owned_ids ctx \<and> target_page_type_id t \<in> owned_ids ctx)"

definition ready :: "'u validation_env \<Rightarrow> 'u VersionValidationContext \<Rightarrow> bool" where
  "ready env ctx \<longleftrightarrow>
     enabled_seeds_of ctx \<noteq> []
   \<and> validate_canonicalization (cv_canonicalization (ctx_version ctx)) = Inr ()
   \<and> validate_scope (ve_scope env) (cv_domain_scope (ctx_version ctx)) = Inr ()
   \<and> validate_guardrails (cv_guardrails (ctx_version ctx)) = Inr ()
   \<and> (\<forall>pt \<in> set (ctx_page_types ctx). \<forall>m \<in> set (pt_matchers pt). validate_definition (ve_matcher env) m = Inr ())
   \<and> (\<forall>t \<in> set (ctx_transitions ctx). validate_transition t = Inr ())
   \<and> references_owned ctx
   \<and> (\<forall>seed \<in> set (enabled_seeds_of ctx). seed_ready env ctx seed)
   \<and> matchers_separated env ctx"

lemma warnings_only:
  "i \<in> set (page_type_warnings ctx pt) \<Longrightarrow> severity i = Warning"
  "i \<in> set (transition_warnings ctx t) \<Longrightarrow> severity i = Warning"
  by (auto simp: page_type_warnings_def transition_warnings_def Let_def split: if_splits)

definition core_blockers :: "'u validation_env \<Rightarrow> 'u VersionValidationContext \<Rightarrow> VersionValidationIssue list" where
  "core_blockers env ctx =
     seed_issues env ctx @ hint_issues ctx @ matcher_issues env ctx @ scope_issues env ctx
     @ guardrail_issues ctx @ concat (map (transition_issues_of ctx) (ctx_transitions ctx)) @ ambiguity_issues env ctx"

lemma set_map_filter: "set (List.map_filter f xs) = {y. \<exists>x \<in> set xs. f x = Some y}"
  by (induction xs) (auto simp: List.map_filter_simps split: option.splits)

lemma unit_result_iff:
  "(case r of Inl _ \<Rightarrow> Some i | Inr _ \<Rightarrow> None) = None \<longleftrightarrow> r = Inr ()"
  "(case r of Inl err \<Rightarrow> [f err] | Inr _ \<Rightarrow> []) = [] \<longleftrightarrow> r = Inr ()"
  for r :: "'e + unit"
  by (cases r; simp)+

lemma unit_not_Inl: "(\<forall>err. r \<noteq> Inl err) \<longleftrightarrow> r = Inr ()" for r :: "'e + unit"
  by (cases r) auto

lemma blockers_only:
  "i \<in> set (seed_canonical_issue env v seed) \<Longrightarrow> severity i = Blocker"
  "i \<in> set (seed_issues env ctx) \<Longrightarrow> severity i = Blocker"
  "i \<in> set (hint_issues ctx) \<Longrightarrow> severity i = Blocker"
  "i \<in> set (matcher_issues env ctx) \<Longrightarrow> severity i = Blocker"
  "i \<in> set (scope_issues env ctx) \<Longrightarrow> severity i = Blocker"
  "i \<in> set (guardrail_issues ctx) \<Longrightarrow> severity i = Blocker"
  "i \<in> set (transition_issues_of ctx t) \<Longrightarrow> severity i = Blocker"
  "i \<in> set (ambiguity_issues env ctx) \<Longrightarrow> severity i = Blocker"
proof -
  show c: "i \<in> set (seed_canonical_issue env v seed) \<Longrightarrow> severity i = Blocker" for v seed
    by (auto simp: seed_canonical_issue_def split: sum.splits if_splits)
  show "i \<in> set (seed_issues env ctx) \<Longrightarrow> severity i = Blocker"
    using c by (auto simp: seed_issues_def Let_def split: sum.splits if_splits)
  show "i \<in> set (hint_issues ctx) \<Longrightarrow> severity i = Blocker"
    by (auto simp: hint_issues_def set_map_filter split: option.splits if_splits)
  show "i \<in> set (matcher_issues env ctx) \<Longrightarrow> severity i = Blocker"
    by (auto simp: matcher_issues_def set_map_filter unit_not_Inl split: sum.splits)
  show "i \<in> set (guardrail_issues ctx) \<Longrightarrow> severity i = Blocker"
    by (auto simp: guardrail_issues_def set_map_filter Let_def split: sum.splits if_splits)
qed (auto simp: scope_issues_def transition_issues_of_def ambiguity_issues_def split: sum.splits if_splits)

lemma core_blockers_severity: "i \<in> set (core_blockers env ctx) \<Longrightarrow> severity i = Blocker"
  unfolding core_blockers_def by (auto dest: blockers_only)

lemma all_in_three:
  "S = A \<union> B \<union> C \<Longrightarrow> (\<And>i. i \<in> A \<Longrightarrow> \<not> Q i) \<Longrightarrow> (\<And>i. i \<in> B \<Longrightarrow> Q i) \<Longrightarrow> (\<And>i. i \<in> C \<Longrightarrow> Q i) \<Longrightarrow>
     (\<forall>i \<in> S. Q i) \<longleftrightarrow> A = {}"
  by blast

lemma core_warnings_iff:
  "(\<forall>i \<in> set (core_issues env ctx). severity i = Warning) \<longleftrightarrow> core_blockers env ctx = []"
proof -
  have "set (core_issues env ctx) = set (core_blockers env ctx)
      \<union> set (concat (map (page_type_warnings ctx) (ctx_page_types ctx)))
      \<union> set (concat (map (transition_warnings ctx) (ctx_transitions ctx)))"
    unfolding core_issues_def core_blockers_def by auto
  then have "(\<forall>i \<in> set (core_issues env ctx). severity i = Warning) \<longleftrightarrow> set (core_blockers env ctx) = {}"
    by (rule all_in_three) (auto dest: warnings_only core_blockers_severity)
  then show ?thesis by simp
qed

lemma seed_issues_empty:
  "seed_issues env ctx = [] \<and> List.map_filter (\<lambda>seed. tied_witness env ctx (original_url seed)) (enabled_seeds_of ctx) = []
   \<longleftrightarrow> enabled_seeds_of ctx \<noteq> []
     \<and> validate_canonicalization (cv_canonicalization (ctx_version ctx)) = Inr ()
     \<and> (\<forall>seed \<in> set (enabled_seeds_of ctx). seed_ready env ctx seed)"
proof -
  have s: "seed_canonical_issue env (ctx_version ctx) seed = [] \<and> tied_witness env ctx (original_url seed) = None
      \<longleftrightarrow> seed_ready env ctx seed" for seed
    by (auto simp: seed_canonical_issue_def tied_witness_def seed_ready_def split: sum.splits if_splits)
  show ?thesis
    unfolding seed_issues_def map_filter_empty_conv Let_def
    by (cases "validate_canonicalization (cv_canonicalization (ctx_version ctx))")
      (auto simp: s [symmetric])
qed

lemma pair_witnesses_empty:
  "pair_witnesses env ctx l r = [] \<longleftrightarrow> (pt_priority l = pt_priority r \<longrightarrow>
     (\<forall>lm \<in> set (pt_matchers l). \<forall>rm \<in> set (pt_matchers r). comparable_matchers env lm rm \<longrightarrow>
        (\<forall>u. matcher_witness env lm = Some u \<longrightarrow> tied_witness env ctx u = None)))"
proof -
  have "Option.bind (matcher_witness env lm) (tied_witness env ctx) = None \<longleftrightarrow>
      (\<forall>u. matcher_witness env lm = Some u \<longrightarrow> tied_witness env ctx u = None)" for lm
    by (cases "matcher_witness env lm") simp_all
  then show ?thesis
    unfolding pair_witnesses_def by (auto simp: map_filter_empty_conv simp del: not_None_eq bind_eq_None_conv)
qed

lemma pairs_empty:
  "concat (map (\<lambda>(l, r). pair_witnesses env ctx l r) (later_pairs (ctx_page_types ctx))) = []
   \<longleftrightarrow> matchers_separated env ctx"
  unfolding concat_eq_Nil_conv matchers_separated_def by (simp add: pair_witnesses_empty case_prod_beta)

lemma core_blockers_empty_iff: "core_blockers env ctx = [] \<longleftrightarrow> ready env ctx"
proof -
  have h: "hint_issues ctx = [] \<longleftrightarrow> (\<forall>seed \<in> set (cv_seeds (ctx_version ctx)).
      \<forall>hint. entry_page_type_hint seed = Some hint \<longrightarrow> hint \<in> owned_ids ctx)"
    unfolding hint_issues_def map_filter_empty_conv by (auto split: option.splits)
  have m: "matcher_issues env ctx = [] \<longleftrightarrow> (\<forall>pt \<in> set (ctx_page_types ctx). \<forall>m \<in> set (pt_matchers pt).
      validate_definition (ve_matcher env) m = Inr ())"
    unfolding matcher_issues_def concat_eq_Nil_conv by (simp add: map_filter_empty_conv unit_result_iff)
  have sc: "scope_issues env ctx = [] \<longleftrightarrow> validate_scope (ve_scope env) (cv_domain_scope (ctx_version ctx)) = Inr ()"
    unfolding scope_issues_def by (rule unit_result_iff)
  have g: "guardrail_issues ctx = [] \<longleftrightarrow> validate_guardrails (cv_guardrails (ctx_version ctx)) = Inr ()
      \<and> (\<forall>budget \<in> set (gr_page_types (cv_guardrails (ctx_version ctx))). page_type_id budget \<in> owned_ids ctx)"
    unfolding guardrail_issues_def Let_def by (auto simp: map_filter_empty_conv split: sum.splits if_splits)
  have t: "concat (map (transition_issues_of ctx) (ctx_transitions ctx)) = [] \<longleftrightarrow>
      (\<forall>t \<in> set (ctx_transitions ctx). validate_transition t = Inr ()
         \<and> source_page_type_id t \<in> owned_ids ctx \<and> target_page_type_id t \<in> owned_ids ctx)"
    unfolding concat_eq_Nil_conv transition_issues_of_def by (auto simp: unit_result_iff)
  have a: "ambiguity_issues env ctx = [] \<longleftrightarrow>
      List.map_filter (\<lambda>seed. tied_witness env ctx (original_url seed)) (enabled_seeds_of ctx) = []
      \<and> matchers_separated env ctx"
    unfolding ambiguity_issues_def design_time_ambiguity_witnesses_def pairs_empty [symmetric]
    by (simp add: bs_collect_Nil_iff del: concat_eq_Nil_conv)
  show ?thesis
    unfolding core_blockers_def append_is_Nil_conv ready_def references_owned_def h m sc g t a
    using seed_issues_empty [of env ctx] by blast
qed

text \<open>
  C16. With the core contributor alone, a version whose validation returns a report is publishable
  exactly when it is ready: it has an enabled seed, valid policies, matchers and transitions, no
  reference leaves it, every enabled seed has its stored canonical form and resolves without a tie,
  and so does every witness of two comparable matchers of page types of equal priority.
\<close>
theorem core_publishable_iff_ready:
  assumes "validate_registry (registry_new env) ctx = Inr report"
  shows "publishable report \<longleftrightarrow> ready env ctx"
proof -
  have "publishable report \<longleftrightarrow> (\<forall>i \<in> set (core_issues env ctx). severity i = Warning)"
    using report_exact [OF assms] by (simp add: registry_new_def core_contributor_def)
  then show ?thesis by (simp only: core_warnings_iff core_blockers_empty_iff)
qed

lemma core_registered_ready:
  assumes "validate_registry registry ctx = Inr report" and "publishable report"
    and "core_contributor env \<in> set registry"
  shows "ready env ctx"
proof -
  have "\<forall>i \<in> set (core_issues env ctx). severity i = Warning"
    using report_exact [OF assms(1)] assms(2,3) by (force simp: core_contributor_def)
  then show ?thesis by (simp only: core_warnings_iff core_blockers_empty_iff)
qed

text \<open>
  C17. Whatever contributors are registered beside the core one, a version that passes the publication
  gate and is published satisfies its semantic contract and can be cloned to a new draft: no
  published version is a dead end.
\<close>
theorem published_version_can_be_edited_again:
  assumes "core_contributor env \<in> set registry"
    and "validate_registry registry ctx = Inr report" and "publishable report"
    and "set (cv_page_type_ids (ctx_version ctx)) = set (map pt_id (ctx_page_types ctx))"
    and "publish (ctx_version ctx) = Inr v"
  shows "validate_semantic_contract (ve_scope env) v = Inr ()
     \<and> draft_from_published (ve_scope env) fresh v = Inr (clone_of fresh v)"
proof -
  from assms(5) have v: "v = (ctx_version ctx)\<lparr>cv_state := Published\<rparr>"
    by (auto simp: publish_def result_simps)
  have r: "ready env ctx" by (rule core_registered_ready [OF assms(2,3,1)])
  have owned: "owned_ids ctx = set (cv_page_type_ids v)" using assms(4) by (simp add: owned_ids_def v)
  from r have "\<not> list_ex (\<lambda>budget. page_type_id budget \<notin> set (cv_page_type_ids v)) (gr_page_types (cv_guardrails v))"
    unfolding owned [symmetric] by (auto simp: list_ex_iff ready_def references_owned_def v)
  with r have c: "validate_semantic_contract (ve_scope env) v = Inr ()"
    by (simp add: validate_semantic_contract_def ready_def v)
  moreover have "hints_owned v"
    using r unfolding hints_owned_def owned [symmetric] by (auto simp: ready_def references_owned_def v)
  ultimately show ?thesis using draft_from_published_clone [OF c, of fresh] by (simp add: v)
qed

section \<open>Warnings that block publication\<close>

lemma missing_evidence_warnings:
  assumes "ctx_test_evidence ctx = []"
  shows "page_type_warnings ctx pt = [core_warning_issue ''PAGE_TYPE_TEST_EVIDENCE_MISSING''
            ''No current TestEvidence evaluates this PageType configuration.'' (page_type_subject (pt_id pt))]"
    and "length (transition_warnings ctx t) = 1"
  using assms by (simp_all add: page_type_warnings_def transition_warnings_def)

lemma core_issues_untested:
  assumes "ctx_test_evidence ctx = []"
  shows "length (ctx_page_types ctx) + length (ctx_transitions ctx) \<le> length (core_issues env ctx)"
proof -
  have "length (concat (map (page_type_warnings ctx) (ctx_page_types ctx))) = length (ctx_page_types ctx)"
    by (induction "ctx_page_types ctx") (simp_all add: length_concat missing_evidence_warnings(1) [OF assms] o_def sum_list_triv)
  moreover have "length (concat (map (transition_warnings ctx) (ctx_transitions ctx))) = length (ctx_transitions ctx)"
    by (simp add: length_concat missing_evidence_warnings(2) [OF assms] o_def sum_list_triv)
  ultimately show ?thesis by (simp add: core_issues_def)
qed

text \<open>
  C18. A ready version with more than 256 page types and transitions that have not been tested yet
  cannot be validated: the core contributor raises one warning for each, which is more than a
  contributor may raise, so the gate fails although nothing blocks publication.
\<close>
theorem untested_version_cannot_publish:
  assumes "ready env ctx" and "ctx_test_evidence ctx = []"
    and "MAX_VALIDATION_ISSUES_PER_CONTRIBUTOR < length (ctx_page_types ctx) + length (ctx_transitions ctx)"
  shows "(\<forall>i \<in> set (core_issues env ctx). severity i = Warning)
     \<and> validate_registry (registry_new env) ctx = Inl (TooManyIssues ''core'')"
proof -
  have "validate_identifier ''core'' = Inr ()" by code_simp
  then have k: "collect_results keyed_contributor (registry_new env) = Inr [(''core'', core_contributor env)]"
    by (simp add: registry_new_def keyed_contributor_def identifier_new_def core_contributor_def)
  have "MAX_VALIDATION_ISSUES_PER_CONTRIBUTOR < length (core_issues env ctx)"
    using core_issues_untested [OF assms(2), of env] assms(3) by linarith
  then have "run_contributors ctx (sort_key fst [(''core'', core_contributor env)]) {} [] = Inl (TooManyIssues ''core'')"
    by (simp add: core_contributor_def)
  then have "validate_registry (registry_new env) ctx = Inl (TooManyIssues ''core'')"
    by (simp add: validate_registry_def k)
  moreover have "\<forall>i \<in> set (core_issues env ctx). severity i = Warning"
    using assms(1) by (simp only: core_warnings_iff core_blockers_empty_iff)
  ultimately show ?thesis by blast
qed

section \<open>Examples\<close>

definition gate_env :: "plain_url validation_env" where
  "gate_env = \<lparr>ve_scope = \<lparr>scope_api = sample_api, psl_domain = (\<lambda>_. None)\<rparr>,
     ve_matcher = \<lparr>matcher_api = sample_api, regex_new = (\<lambda>_. None), regex_escape = (\<lambda>s. s)\<rparr>,
     ve_append_pair = (\<lambda>_ _ u. u), ve_debug_query = (\<lambda>_. []), ve_sha256 = (\<lambda>_. [])\<rparr>"

definition gate_page_type :: "plain_url PageType" where
  "gate_page_type = \<lparr>pt_id = ''p'', pt_name = ''p'', pt_priority = 0, pt_matchers = []\<rparr>"

definition gate_context :: "nat \<Rightarrow> plain_url VersionValidationContext" where
  "gate_context n =
     \<lparr>ctx_version = (draft ''v1'' ''c1'')\<lparr>cv_page_type_ids := replicate n ''p'',
        cv_seeds := [new_seed ''s'' (sample_url ''b&a'') (sample_url ''a&b'')]\<rparr>,
      ctx_page_types = replicate n gate_page_type, ctx_transitions = [], ctx_test_evidence = [],
      ctx_config_hash = ''h''\<rparr>"

lemma gate_ready: "ready gate_env (gate_context n)"
proof -
  let ?ctx = "gate_context n"
  have canon: "canonicalize sample_api default_canonicalization (url_as_str sample_api (sample_url ''b&a''))
      = Inr \<lparr>res_original_url = ''https://a.test/?b&a'', res_canonical_url = sample_url ''a&b'', decisions = [QuerySorted]\<rparr>"
    by code_simp
  have "candidates_of env u (replicate n gate_page_type) = []" for env u
    unfolding map_filter_empty_conv by (simp add: page_type_candidate_None gate_page_type_def)
  then have res: "resolve_page_type env u (replicate n gate_page_type) = Unmatched" for env u
    by (simp add: resolve_page_type_def Let_def)
  have pairs: "set (later_pairs xs) \<subseteq> set xs \<times> set xs" for xs :: "plain_url PageType list"
    by (induction xs) auto
  have sep: "matchers_separated gate_env ?ctx"
    using pairs [of "replicate n gate_page_type"]
    by (auto simp: matchers_separated_def gate_context_def gate_page_type_def)
  have contract: "validate_canonicalization default_canonicalization = Inr ()"
    "validate_scope (ve_scope gate_env) default_scope = Inr ()"
    using draft_contract [of "ve_scope gate_env" "''v1''" "''c1''"]
    by (simp_all add: contract_iff draft_def)
  have guard: "validate_guardrails default_guardrails = Inr ()" by code_simp
  show ?thesis
    unfolding ready_def references_owned_def seed_ready_def
    using sep contract guard
    by (simp add: gate_context_def draft_def new_seed_def enabled_seeds_of_def res [unfolded gate_page_type_def] is_ambiguous_def
        gate_env_def canon gate_page_type_def default_guardrails_def)
qed

theorem untested_version_cannot_publish_witness:
  "validate_registry (registry_new gate_env) (gate_context 257) = Inl (TooManyIssues ''core'')"
  using untested_version_cannot_publish [OF gate_ready, of 257]
  by (simp add: gate_context_def MAX_VALIDATION_ISSUES_PER_CONTRIBUTOR_def)

text \<open>A contributor beside the core one, and the reports of the small version without page types.\<close>

definition blocking_contributor :: "string \<Rightarrow> plain_url VersionValidationContributor" where
  "blocking_contributor key =
     \<lparr>contributor_key = key, contribute = (\<lambda>_. Inr [issue_new ''BLOCKED'' Blocker ''blocked''])\<rparr>"

lemma gate_core_issues: "core_issues gate_env (gate_context 0) = []"
proof -
  have "core_blockers gate_env (gate_context 0) = []"
    using gate_ready by (simp only: core_blockers_empty_iff)
  then show ?thesis
    by (simp add: core_issues_def core_blockers_def gate_context_def)
qed

lemma gate_report:
  "validate_registry (registry_new gate_env) (gate_context 0) = Inr (report_new ''v1'' ''h'' [] [])"
proof -
  have "validate_identifier ''core'' = Inr ()" by code_simp
  then have "collect_results keyed_contributor (registry_new gate_env) = Inr [(''core'', core_contributor gate_env)]"
    by (simp add: registry_new_def keyed_contributor_def identifier_new_def core_contributor_def)
  moreover have "run_contributors (gate_context 0) (sort_key fst [(''core'', core_contributor gate_env)]) {} [] = Inr []"
    using gate_core_issues by (simp add: core_contributor_def)
  moreover have "cv_id (ctx_version (gate_context 0)) = ''v1''" "ctx_config_hash (gate_context 0) = ''h''"
    by (simp_all add: gate_context_def draft_def)
  ultimately show ?thesis by (simp add: validate_registry_def)
qed

theorem core_publishable_iff_ready_witness: "ready gate_env (gate_context 0)"
  using core_publishable_iff_ready [OF gate_report] by (simp add: report_new_def)

theorem published_version_can_be_edited_again_witness:
  "\<exists>v. publish (ctx_version (gate_context 0)) = Inr v
     \<and> draft_from_published (ve_scope gate_env) sample_fresh v = Inr (clone_of sample_fresh v)"
proof -
  have "core_contributor gate_env \<in> set (registry_new gate_env)" by (simp add: registry_new_def)
  moreover obtain v where v: "publish (ctx_version (gate_context 0)) = Inr v"
    by (simp add: publish_def ensure_draft_def gate_context_def draft_def)
  ultimately show ?thesis
    using published_version_can_be_edited_again [OF _ gate_report _ _ v, of gate_env sample_fresh]
    by (simp add: report_new_def gate_context_def)
qed

theorem report_aggregates_contributions_witness:
  "validate_registry [blocking_contributor ''b'', blocking_contributor ''a''] (gate_context 0)
     = validate_registry [blocking_contributor ''a'', blocking_contributor ''b''] (gate_context 0)
   \<and> (\<exists>report. validate_registry [blocking_contributor ''a'', blocking_contributor ''b''] (gate_context 0) = Inr report
        \<and> \<not> publishable report \<and> length (blockers report) \<le> 512)"
proof -
  let ?r = "[blocking_contributor ''a'', blocking_contributor ''b'']"
  have d: "distinct (map contributor_key ?r)" by (simp add: blocking_contributor_def)
  have m: "mset [blocking_contributor ''b'', blocking_contributor ''a''] = mset ?r" by simp
  have bound: "validate_bounds (issue_new ''BLOCKED'' Blocker ''blocked'') = Inr ()" by code_simp
  have keys: "validate_identifier ''a'' = Inr ()" "validate_identifier ''b'' = Inr ()" by code_simp+
  from bound keys have "\<exists>report. validate_registry ?r (gate_context 0) = Inr report"
    by (simp add: validate_registry_def keyed_contributor_def identifier_new_def blocking_contributor_def
        MAX_VALIDATION_ISSUES_def MAX_VALIDATION_ISSUES_PER_CONTRIBUTOR_def)
  then obtain report where report: "validate_registry ?r (gate_context 0) = Inr report" ..
  from report_aggregates_contributions [OF d m, of "gate_context 0"] report
  have "length (blockers report) + length (report_warnings report) \<le> MAX_VALIDATION_ISSUES"
    "publishable report \<longleftrightarrow> (\<forall>c \<in> set ?r. \<forall>is. contribute c (gate_context 0) = Inr is \<longrightarrow> (\<forall>i \<in> set is. severity i = Warning))"
    "validate_registry [blocking_contributor ''b'', blocking_contributor ''a''] (gate_context 0)
     = validate_registry ?r (gate_context 0)" by blast+
  with report show ?thesis
    by (simp add: blocking_contributor_def issue_new_def MAX_VALIDATION_ISSUES_def)
qed

end
