(* ===== verification/Naming.thy ===== *)
theory Naming
  imports Url_Api
begin

text \<open>
  Default names of sources and datasets (\<open>naming.rs\<close>).  The lemmas state that a source is never
  named by white space and that the page title wins over the Open Graph title.
\<close>

definition trim_matches :: "char \<Rightarrow> string \<Rightarrow> string" where
  "trim_matches c s = rev (dropWhile (\<lambda>x. x = c) (rev (dropWhile (\<lambda>x. x = c) s)))"

definition not_blank :: "string option \<Rightarrow> string option" where
  "not_blank v = (case v of None \<Rightarrow> None | Some s \<Rightarrow> if trim s = [] then None else Some s)"

definition or_else :: "'a option \<Rightarrow> 'a option \<Rightarrow> 'a option" where
  "or_else a b = (case a of None \<Rightarrow> b | Some _ \<Rightarrow> a)"

definition derive_source_name ::
  "'u url_api \<Rightarrow> string option \<Rightarrow> string option \<Rightarrow> 'u \<Rightarrow> string" where
  "derive_source_name api page_title og_title u =
     (case or_else (not_blank page_title) (not_blank og_title) of
        Some title \<Rightarrow> trim title
      | None \<Rightarrow>
          let host = (case url_host_str api u of None \<Rightarrow> [] | Some h \<Rightarrow> h);
              path = trim_matches (CHR ''/'') (url_path api u)
          in if host \<noteq> [] \<and> path \<noteq> [] then host @ ''/'' @ path
             else if host \<noteq> [] then host
             else ''Untitled Source'')"

definition derive_dataset_name :: "string \<Rightarrow> string \<Rightarrow> string" where
  "derive_dataset_name source_name page_type_name = trim (trim source_name @ '' '' @ trim page_type_name)"

lemma derive_source_name_nonempty: "derive_source_name api p og u \<noteq> []"
  by (auto simp: derive_source_name_def or_else_def not_blank_def Let_def split: option.splits if_splits)

lemma derive_source_name_prefers_page_title:
  "trim title \<noteq> [] \<Longrightarrow> derive_source_name api (Some title) og u = trim title"
  by (simp add: derive_source_name_def or_else_def not_blank_def)

end
