(* ===== verification/Discovery_Preview.thy ===== *)
theory Discovery_Preview
  imports Test_Lab
begin

text \<open>
  The vocabulary of the bounded discovery traversal (\<open>erabi-domain/src/discovery_preview.rs\<close>) and the
  frozen context it runs in (\<open>PreviewContext\<close> and \<open>select_seeds\<close> of
  \<open>erabi-crawler/src/discovery_preview/service.rs\<close>): request limits and their tightening against the
  semantic guardrails, the records of roots, pages and discovery edges, and the outcomes of the
  provider.  The traversal itself is in \<open>Traversal\<close>.
\<close>

section \<open>Limits\<close>

definition MAX_PREVIEW_SELECTED_SEEDS :: nat where "MAX_PREVIEW_SELECTED_SEEDS = 32"
definition MAX_PREVIEW_LINKS_PER_OBSERVATION :: nat where "MAX_PREVIEW_LINKS_PER_OBSERVATION = 256"
definition MAX_PREVIEW_PROVENANCE_EDGES :: nat where "MAX_PREVIEW_PROVENANCE_EDGES = 4096"
definition MAX_PREVIEW_DIAGNOSTICS :: nat where "MAX_PREVIEW_DIAGNOSTICS = 256"
definition MAX_PREVIEW_TRANSITION_LIMITS :: nat where "MAX_PREVIEW_TRANSITION_LIMITS = 128"
definition MAX_PREVIEW_URL_CHARS :: nat where "MAX_PREVIEW_URL_CHARS = 4096"

definition DOMINANT_TRANSITION_MIN_EDGES :: u64 where "DOMINANT_TRANSITION_MIN_EDGES = 8"
definition DOMINANT_TRANSITION_SHARE_PERCENT :: u64 where "DOMINANT_TRANSITION_SHARE_PERCENT = 70"
definition QUERY_EXPLOSION_MIN_VARIANTS :: u64 where "QUERY_EXPLOSION_MIN_VARIANTS = 8"
definition QUERY_EXPLOSION_QUERY_BEARING_PERCENT :: u64 where "QUERY_EXPLOSION_QUERY_BEARING_PERCENT = 75"
definition HIGH_UNMATCHED_MIN_DENOMINATOR :: u64 where "HIGH_UNMATCHED_MIN_DENOMINATOR = 8"
definition HIGH_UNMATCHED_SHARE_PERCENT :: u64 where "HIGH_UNMATCHED_SHARE_PERCENT = 50"
definition WIDESPREAD_AMBIGUITY_MIN_DENOMINATOR :: u64 where "WIDESPREAD_AMBIGUITY_MIN_DENOMINATOR = 4"
definition WIDESPREAD_AMBIGUITY_SHARE_PERCENT :: u64 where "WIDESPREAD_AMBIGUITY_SHARE_PERCENT = 40"
definition BUDGET_PRESSURE_PERCENT :: u64 where "BUDGET_PRESSURE_PERCENT = 80"

record TransitionPreviewTotalLimit =
  tl_transition_id :: DiscoveryTransitionId
  max_total_links :: u64

record DiscoveryPreviewLimits =
  pl_max_pages :: u64
  pl_max_depth :: u32
  pl_max_duration_ms :: u64
  default_transition_total_limit :: u64
  pl_transition_total_limits :: "TransitionPreviewTotalLimit list"

record DiscoveryPreviewRequest =
  pr_seed_ids :: "SeedId list"
  pr_limits :: DiscoveryPreviewLimits

datatype DiscoveryPreviewLimitError =
    MaxPagesMustBePositive | MaxDurationMustBePositive | DefaultTransitionTotalLimitMustBePositive
  | TransitionTotalLimitMustBePositive | DuplicateTransitionLimit | TooManyTransitionLimits

fun check_total_limits ::
  "TransitionPreviewTotalLimit list \<Rightarrow> DiscoveryTransitionId set \<Rightarrow> DiscoveryPreviewLimitError + unit" where
  "check_total_limits [] ids = Inr ()"
| "check_total_limits (l # ls) ids =
     (if max_total_links l = 0 then Inl TransitionTotalLimitMustBePositive
      else if tl_transition_id l \<in> ids then Inl DuplicateTransitionLimit
      else check_total_limits ls (insert (tl_transition_id l) ids))"

definition validate_limits :: "DiscoveryPreviewLimits \<Rightarrow> DiscoveryPreviewLimitError + unit" where
  "validate_limits l =
     (if pl_max_pages l = 0 then Inl MaxPagesMustBePositive
      else if pl_max_duration_ms l = 0 then Inl MaxDurationMustBePositive
      else if default_transition_total_limit l = 0 then Inl DefaultTransitionTotalLimitMustBePositive
      else if length (pl_transition_total_limits l) > MAX_PREVIEW_TRANSITION_LIMITS then Inl TooManyTransitionLimits
      else check_total_limits (pl_transition_total_limits l) {})"

record EffectiveTransitionPreviewTotalLimit =
  etl_transition_id :: DiscoveryTransitionId
  effective_total_limit :: u64

record EffectiveDiscoveryPreviewLimits =
  el_max_pages :: u64
  el_max_depth :: u32
  el_max_duration_ms :: u64
  el_max_downloaded_bytes :: u64
  el_transition_total_limits :: "EffectiveTransitionPreviewTotalLimit list"

section \<open>Evidence records\<close>

datatype PreviewUrlState =
    Sampled | InScopeMatched | AmbiguousPageTypeState | UnmatchedState | ExternalState | BlockedState
  | CanonicalDuplicate | RobotsExcludedState | BudgetExcluded | ProviderErrorState | InvalidUrlState

datatype PreviewBudgetKind =
    PagesBudget | DepthBudget | DurationBudget | DownloadedBytesBudget | PageTypeBudget
  | TransitionPerSourcePageBudget | TransitionTotalBudgetKind | ProvenanceRetention | DiagnosticRetention

record PreviewBudgetHit =
  hit_kind :: PreviewBudgetKind
  hit_transition_id :: "DiscoveryTransitionId option"
  hit_page_type_id :: "PageTypeId option"
  hit_observed :: u64
  hit_limit :: u64

record PreviewDiagnostic =
  pd_code :: string
  pd_message :: string
  pd_observed :: "u64 option"
  pd_threshold :: "u64 option"

definition preview_diagnostic :: "string \<Rightarrow> string \<Rightarrow> PreviewDiagnostic" where
  "preview_diagnostic c m = \<lparr>pd_code = c, pd_message = m, pd_observed = None, pd_threshold = None\<rparr>"

record DiscoveryPreviewSeed =
  ps_seed_id :: SeedId
  ps_requested_url :: string
  ps_canonical_url :: string
  ps_entry_page_type_hint :: "PageTypeId option"
  ps_state :: PreviewUrlState
  ps_duplicate_of :: "string option"
  ps_scope :: "DomainScopeEvidence option"
  ps_page_type_match :: "PageTypeMatchEvidence option"
  ps_budget_hits :: "PreviewBudgetHit list"

record DiscoveryPreviewPage =
  pp_requested_url :: string
  pp_requested_canonical_url :: string
  pp_final_url :: "string option"
  pp_canonical_url :: "string option"
  pp_depth :: u32
  pp_state :: PreviewUrlState
  pp_seed_ids :: "SeedId list"
  pp_scope :: "DomainScopeEvidence option"
  pp_page_type_match :: "PageTypeMatchEvidence option"
  pp_downloaded_bytes :: "u64 option"
  pp_robots_reason :: "string option"
  pp_diagnostic :: "TestDiagnostic option"
  pp_budget_hits :: "PreviewBudgetHit list"

record PreviewTransitionEvaluation =
  pe_transition_id :: DiscoveryTransitionId
  pe_transition_name :: string
  pe_source_page_type_id :: PageTypeId
  pe_target_page_type_id :: PageTypeId
  pe_priority :: int
  selector_eligible :: bool
  target_page_type_eligible :: bool
  constraints_eligible :: bool
  pe_eligible :: bool
  pe_budget_hits :: "PreviewBudgetHit list"
  pe_diagnostic :: "PreviewDiagnostic option"

record DiscoveryPath =
  dp_seed_id :: SeedId
  dp_seed_ids :: "SeedId list"
  source_requested_url :: string
  source_final_url :: "string option"
  source_canonical_url :: string
  source_page_type_match :: PageTypeMatchEvidence
  dp_selector :: "string option"
  dp_raw_href :: string
  dp_resolved_original_url :: "string option"
  dp_canonical_url :: "string option"
  dp_canonicalization :: "CanonicalizationEvidence option"
  dp_scope :: "DomainScopeEvidence option"
  dp_state :: PreviewUrlState
  dp_duplicate_of :: "string option"
  target_page_type_match :: "PageTypeMatchEvidence option"
  source_depth :: u32
  dp_prospective_depth :: "u32 option"
  transition_evaluations :: "PreviewTransitionEvaluation list"
  dp_budget_hits :: "PreviewBudgetHit list"

section \<open>Provider outcomes and errors\<close>

record DiscoveryPreviewObservationRequest =
  or_requested_url :: string
  remaining_download_bytes :: u64

datatype DiscoveryPreviewInterruption = InterruptedByCancel | InterruptedByStoragePressure

datatype DiscoveryPreviewProviderOutcome =
    OutcomeObserved PageObservation u64
  | OutcomeRobotsExcluded string
  | OutcomePageFailed TestDiagnostic
  | OutcomeInterrupted DiscoveryPreviewInterruption

datatype DiscoveryPreviewProviderError = PreviewProviderUnavailable

text \<open>The variants of \<open>DiscoveryPreviewError\<close>; the ones a repository read maps to are included.\<close>

datatype DiscoveryPreviewError =
    DpCrawlerNotFound | DpCrawlerVersionNotFound | DpVersionNotOwnedByCrawler | DpVersionNotDraft
  | DpVersionNotActiveDraft | DpInvalidRequest | NoSelectedSeeds | DuplicateSeedSelection
  | SeedNotOwnedByVersion | SeedDisabled | InvalidPreviewLimits | InvalidTransitionPreviewLimit
  | DpTransitionNotOwnedByVersion | DpProviderUnavailable | DpObservationRequestMismatch
  | DpObservationInvalid | DpPersistedStateInvalid | QueueEntryMissingSeedProvenance | DpBudgetOverflow

fun dp_map_provider_error :: "DiscoveryPreviewProviderError \<Rightarrow> DiscoveryPreviewError" where
  "dp_map_provider_error PreviewProviderUnavailable = DpProviderUnavailable"

section \<open>The frozen context\<close>

text \<open>The transition graph is the accepted list of transitions.\<close>

record 'u PreviewContext =
  pc_snapshot :: "'u CrawlerSemanticSnapshot"
  pc_page_types :: "'u PageType list"
  pc_transitions :: "DiscoveryTransition list"
  pc_graph :: "DiscoveryTransition list"
  pc_limits :: EffectiveDiscoveryPreviewLimits

definition context_from_snapshot ::
  "'u lab_env \<Rightarrow> 'u CrawlerSemanticSnapshot \<Rightarrow> EffectiveDiscoveryPreviewLimits
    \<Rightarrow> DiscoveryPreviewError + 'u PreviewContext" where
  "context_from_snapshot env snapshot limits =
     (let v = snap_version snapshot; transitions = snap_transitions snapshot in
      res_bind (map_err (\<lambda>_. DpPersistedStateInvalid) (validate_semantic_contract (lab_scope env) v)) (\<lambda>_.
      if pt_id ` set (snap_page_types snapshot) \<noteq> set (cv_page_type_ids v) then Inl DpPersistedStateInvalid
      else if tr_id ` set transitions \<noteq> set (cv_transition_ids v) then Inl DpPersistedStateInvalid
      else res_bind (map_err (\<lambda>_. DpPersistedStateInvalid)
             (new_transition_graph (cv_page_type_ids v) transitions)) (\<lambda>graph.
        Inr \<lparr>pc_snapshot = snapshot, pc_page_types = snap_page_types snapshot,
             pc_transitions = transitions, pc_graph = graph, pc_limits = limits\<rparr>)))"

text \<open>Checked subtraction and multiplication; \<open>Vec<(String, u64)>\<close> collected into a map keeps the last value of a key.\<close>

definition checked_sub :: "'a::len word \<Rightarrow> 'a word \<Rightarrow> 'a word option" where
  "checked_sub a b = (if b \<le> a then Some (a - b) else None)"

definition checked_mul :: "'a::len word \<Rightarrow> 'a word \<Rightarrow> 'a word option" where
  "checked_mul a b = (if uint a * uint b < 2 ^ LENGTH('a) then Some (a * b) else None)"

definition override_limit ::
  "DiscoveryTransition list \<Rightarrow> TransitionPreviewTotalLimit \<Rightarrow> DiscoveryPreviewError + DiscoveryTransitionId \<times> u64" where
  "override_limit transitions l =
     (if \<not> list_ex (\<lambda>t. tr_id t = tl_transition_id l) transitions then Inl DpTransitionNotOwnedByVersion
      else Inr (tl_transition_id l, max_total_links l))"

definition effective_transition_limit ::
  "(DiscoveryTransitionId \<rightharpoonup> u64) \<Rightarrow> u64 \<Rightarrow> DiscoveryTransition \<Rightarrow> EffectiveTransitionPreviewTotalLimit" where
  "effective_transition_limit overrides default_limit t =
     (let preview_cap = (case overrides (tr_id t) of None \<Rightarrow> default_limit | Some l \<Rightarrow> l) in
      \<lparr>etl_transition_id = tr_id t,
       effective_total_limit = (case total_budget (tr_budget t) of
          None \<Rightarrow> preview_cap | Some configured_cap \<Rightarrow> min preview_cap configured_cap)\<rparr>)"

definition context_new ::
  "'u lab_env \<Rightarrow> 'u CrawlerEvaluationSnapshot \<Rightarrow> DiscoveryPreviewLimits \<Rightarrow> DiscoveryPreviewError + 'u PreviewContext" where
  "context_new env evaluation limits =
     (let snapshot = snap_draft evaluation; transitions = snap_transitions snapshot;
          g = cv_guardrails (snap_version snapshot) in
      res_bind (ok_or (checked_mul (max_duration_seconds g) 1000) DpBudgetOverflow) (\<lambda>semantic_duration_ms.
      res_bind (collect_results (override_limit transitions) (pl_transition_total_limits limits)) (\<lambda>overrides.
      let effective =
        \<lparr>el_max_pages = min (pl_max_pages limits) (max_pages g),
         el_max_depth = min (pl_max_depth limits) (max_depth g),
         el_max_duration_ms = min (pl_max_duration_ms limits) semantic_duration_ms,
         el_max_downloaded_bytes = max_downloaded_bytes g,
         el_transition_total_limits = sort_key etl_transition_id
           (map (effective_transition_limit (map_of (rev overrides)) (default_transition_total_limit limits)) transitions)\<rparr>
      in context_from_snapshot env snapshot effective)))"

definition transition_total_limit :: "'u PreviewContext \<Rightarrow> DiscoveryTransitionId \<Rightarrow> u64 option" where
  "transition_total_limit ctx i =
     map_option effective_total_limit (find (\<lambda>l. etl_transition_id l = i) (el_transition_total_limits (pc_limits ctx)))"

definition context_seed :: "'u PreviewContext \<Rightarrow> SeedId \<Rightarrow> 'u Seed option" where
  "context_seed ctx i = find (\<lambda>s. seed_id s = i) (cv_seeds (snap_version (pc_snapshot ctx)))"

definition select_seed :: "'u lab_env \<Rightarrow> 'u PreviewContext \<Rightarrow> SeedId \<Rightarrow> DiscoveryPreviewError + 'u Seed" where
  "select_seed env ctx i =
     (let api = lab_api env; v = snap_version (pc_snapshot ctx) in
      res_bind (ok_or (context_seed ctx i) SeedNotOwnedByVersion) (\<lambda>seed.
      if \<not> seed_enabled seed then Inl SeedDisabled
      else res_bind (map_err (\<lambda>_. DpPersistedStateInvalid)
             (canonicalize api (cv_canonicalization v) (url_as_str api (original_url seed)))) (\<lambda>canonical.
        if res_canonical_url canonical \<noteq> canonical_url seed then Inl DpPersistedStateInvalid
        else if (case entry_page_type_hint seed of None \<Rightarrow> False | Some hint \<Rightarrow> hint \<notin> set (cv_page_type_ids v))
        then Inl DpPersistedStateInvalid
        else Inr seed)))"

definition select_seeds :: "'u lab_env \<Rightarrow> 'u PreviewContext \<Rightarrow> SeedId list \<Rightarrow> DiscoveryPreviewError + 'u Seed list" where
  "select_seeds env ctx ids = collect_results (select_seed env ctx) ids"

definition fragment_free_url :: "'u url_api \<Rightarrow> 'u \<Rightarrow> string" where
  "fragment_free_url api u = url_as_str api (url_clear_fragment api u)"

section \<open>Checks on observations\<close>

definition MAX_PROVIDER_DIAGNOSTIC_CHARS :: nat where "MAX_PROVIDER_DIAGNOSTIC_CHARS = 1024"
definition MAX_ROBOTS_REASON_CHARS :: nat where "MAX_ROBOTS_REASON_CHARS = 512"

definition validate_safe_text :: "string \<Rightarrow> nat \<Rightarrow> DiscoveryPreviewError + unit" where
  "validate_safe_text v mx =
     (if v = [] \<or> char_count v > mx \<or> any_char is_control v then Inl DpObservationInvalid else Inr ())"

definition validate_observed_link :: "ObservedLink \<Rightarrow> DiscoveryPreviewError + unit" where
  "validate_observed_link l =
     res_bind (validate_safe_text (link_href l) MAX_PREVIEW_URL_CHARS) (\<lambda>_.
     case link_selector_of l of None \<Rightarrow> Inr () | Some s \<Rightarrow> validate_safe_text s 1024)"

definition validate_observation :: "PageObservation \<Rightarrow> DiscoveryPreviewError + unit" where
  "validate_observation ob =
     res_bind (validate_safe_text (requested_url ob) MAX_PREVIEW_URL_CHARS) (\<lambda>_.
     res_bind (case final_url ob of None \<Rightarrow> Inr () | Some u \<Rightarrow> validate_safe_text u MAX_PREVIEW_URL_CHARS) (\<lambda>_.
     for_each validate_observed_link (discovered_links ob)))"

definition dp_validate_diagnostic :: "TestDiagnostic \<Rightarrow> DiscoveryPreviewError + unit" where
  "dp_validate_diagnostic d =
     res_bind (validate_safe_text (diag_code d) 128) (\<lambda>_.
     validate_safe_text (diag_message d) MAX_PROVIDER_DIAGNOSTIC_CHARS)"

definition dp_is_in_scope :: "DomainScopeEvidence option \<Rightarrow> bool" where
  "dp_is_in_scope scope \<longleftrightarrow> (case scope of None \<Rightarrow> False | Some s \<Rightarrow> ev_classification s = InScopeStatus)"

definition scope_state :: "DomainScopeEvidence option \<Rightarrow> PreviewUrlState" where
  "scope_state scope =
     (case map_option ev_classification scope of
        Some ExternalStatus \<Rightarrow> ExternalState | Some BlockedStatus \<Rightarrow> BlockedState | _ \<Rightarrow> InScopeMatched)"

section \<open>Limits never widen the version\<close>

lemma min_le_word: "min a b \<le> b" for a b :: "'a::len word"
  by simp

text \<open>A context built for a preview never allows more than the request or the version.\<close>

lemma context_new_limits:
  assumes "context_new env evaluation limits = Inr ctx"
  defines "g \<equiv> cv_guardrails (snap_version (snap_draft evaluation))"
  shows "el_max_pages (pc_limits ctx) = min (pl_max_pages limits) (max_pages g)"
    and "el_max_depth (pc_limits ctx) = min (pl_max_depth limits) (max_depth g)"
    and "el_max_duration_ms (pc_limits ctx) \<le> pl_max_duration_ms limits"
    and "el_max_downloaded_bytes (pc_limits ctx) = max_downloaded_bytes g"
  using assms by (auto simp: context_new_def context_from_snapshot_def result_simps Let_def split: if_splits)

lemma context_from_snapshot_ok:
  assumes "context_from_snapshot env snapshot limits = Inr ctx"
  shows "pc_snapshot ctx = snapshot" "pc_limits ctx = limits" "pc_transitions ctx = snap_transitions snapshot"
    "pc_page_types ctx = snap_page_types snapshot" "distinct (map tr_id (pc_transitions ctx))"
    "pc_graph ctx = pc_transitions ctx"
  using assms by (auto simp: context_from_snapshot_def new_transition_graph_def check_transitions_ok
      result_simps Let_def split: if_splits)

end
