(* ===== verification/Traversal.thy ===== *)
theory Traversal
  imports Discovery_Preview
begin

text \<open>
  The semantic traversal shared by Discovery Preview and Production runs
  (\<open>SemanticTraversal\<close> of \<open>erabi-crawler/src/discovery_preview/service.rs\<close>): one bounded step takes the
  first entry of the frontier, observes it through the provider, and expands the observed page.  The
  clock and the provider are outside the program: \<open>io_clock n\<close> is the n-th reading of the clock and
  \<open>io_observe n\<close> the n-th answer of the provider, so that every behaviour of both is covered.  A call
  that fails leaves no traversal behind, as its caller discards it.
\<close>

section \<open>State\<close>

record traversal_io =
  io_clock :: "nat \<Rightarrow> u64"
  io_observe :: "nat \<Rightarrow> DiscoveryPreviewObservationRequest
                  \<Rightarrow> DiscoveryPreviewProviderError + DiscoveryPreviewProviderOutcome"

record QueueEntry =
  qe_requested_url :: string
  qe_canonical_url :: string
  qe_depth :: u32
  qe_seed_ids :: "SeedId list"
  qe_target_page_type_id :: "PageTypeId option"
  qe_transition_id :: "DiscoveryTransitionId option"
  qe_parent_canonical_url :: "string option"
  qe_pagination :: bool
  qe_order :: u64

record TransitionRuntimeCount =
  rc_transition_id :: DiscoveryTransitionId
  rc_name :: string
  eligible_edges :: u64
  source_pages :: "string set"

text \<open>\<open>clock_reads\<close> and \<open>observe_calls\<close> number the uses of the outside world so far.\<close>

record 'u SemanticTraversal =
  tv_context :: "'u PreviewContext"
  selected_seed_ids :: "SeedId list"
  start_millis :: u64
  tv_queue :: "QueueEntry list"
  queued :: "(string, QueueEntry) bmap"
  admitted :: "string set"
  seen :: "string set"
  sampled :: "string set"
  expanded :: "string set"
  tv_pages :: "DiscoveryPreviewPage list"
  tv_seeds :: "DiscoveryPreviewSeed list"
  tv_paths :: "DiscoveryPath list"
  tv_diagnostics :: "PreviewDiagnostic list"
  budget_hits :: "PreviewBudgetKind \<rightharpoonup> u64"
  transition_counts :: "(DiscoveryTransitionId, TransitionRuntimeCount) bmap"
  transition_page_counts :: "(DiscoveryTransitionId \<times> string, u32) bmap"
  page_type_sampled :: "(PageTypeId, u64) bmap"
  page_type_discovered :: "(PageTypeId, u64) bmap"
  page_type_scheduled :: "(PageTypeId, u64) bmap"
  matching_urls :: "string set"
  unmatched_urls :: "string set"
  ambiguous_urls :: "string set"
  in_scope_urls :: "string set"
  consumed_bytes :: u64
  pages_sampled :: u64
  urls_discovered :: u64
  duplicates_prevented :: u64
  robots_excluded :: u64
  provider_errors :: u64
  external_urls :: u64
  blocked_urls :: u64
  newly_enqueued_urls :: u64
  peak_new_from_page :: u64
  time_budget_hit :: bool
  pagination_truncation_count :: u64
  duration_work_not_expanded :: bool
  clock_reads :: nat
  observe_calls :: nat

definition set_len :: "'a set \<Rightarrow> u64" where
  "set_len s = of_nat (card s)"

definition bump :: "'k::linorder \<Rightarrow> ('k, 'a::len word) bmap \<Rightarrow> ('k, 'a word) bmap" where
  "bump k m = bm_insert k ((case bm_lookup m k of None \<Rightarrow> 0 | Some n \<Rightarrow> n) + 1) m"

definition lookup_or_zero :: "('k, 'a::len word) bmap \<Rightarrow> 'k \<Rightarrow> 'a word" where
  "lookup_or_zero m k = (case bm_lookup m k of None \<Rightarrow> 0 | Some n \<Rightarrow> n)"

definition bm_collect :: "('k::linorder \<times> 'v) list \<Rightarrow> ('k, 'v) bmap" where
  "bm_collect kvs = fold (\<lambda>(k, v). bm_insert k v) kvs []"

definition traversal_new :: "'u PreviewContext \<Rightarrow> SeedId list \<Rightarrow> u64 \<Rightarrow> nat \<Rightarrow> 'u SemanticTraversal" where
  "traversal_new ctx seed_ids start reads =
     \<lparr>tv_context = ctx, selected_seed_ids = seed_ids, start_millis = start, tv_queue = [], queued = [],
      admitted = {}, seen = {}, sampled = {}, expanded = {}, tv_pages = [], tv_seeds = [], tv_paths = [],
      tv_diagnostics = [], budget_hits = Map.empty,
      transition_counts = bm_collect (map (\<lambda>t. (tr_id t,
         \<lparr>rc_transition_id = tr_id t, rc_name = tr_name t, eligible_edges = 0, source_pages = {}\<rparr>)) (pc_transitions ctx)),
      transition_page_counts = [], page_type_sampled = [], page_type_discovered = [], page_type_scheduled = [],
      matching_urls = {}, unmatched_urls = {}, ambiguous_urls = {}, in_scope_urls = {}, consumed_bytes = 0,
      pages_sampled = 0, urls_discovered = 0, duplicates_prevented = 0, robots_excluded = 0, provider_errors = 0,
      external_urls = 0, blocked_urls = 0, newly_enqueued_urls = 0, peak_new_from_page = 0,
      time_budget_hit = False, pagination_truncation_count = 0, duration_work_not_expanded = False,
      clock_reads = reads, observe_calls = 0\<rparr>"

abbreviation tv_limits :: "'u SemanticTraversal \<Rightarrow> EffectiveDiscoveryPreviewLimits" where
  "tv_limits st \<equiv> pc_limits (tv_context st)"

abbreviation tv_version :: "'u SemanticTraversal \<Rightarrow> 'u CrawlerVersion" where
  "tv_version st \<equiv> snap_version (pc_snapshot (tv_context st))"

section \<open>Counters, clock and scope\<close>

definition record_budget :: "PreviewBudgetHit \<Rightarrow> 'u SemanticTraversal \<Rightarrow> 'u SemanticTraversal" where
  "record_budget hit st =
     st\<lparr>budget_hits := (budget_hits st)(hit_kind hit \<mapsto>
        (case budget_hits st (hit_kind hit) of None \<Rightarrow> 0 | Some n \<Rightarrow> n) + 1)\<rparr>"

definition tv_push_diagnostic :: "PreviewDiagnostic \<Rightarrow> 'u SemanticTraversal \<Rightarrow> 'u SemanticTraversal" where
  "tv_push_diagnostic d st =
     (if length (tv_diagnostics st) < MAX_PREVIEW_DIAGNOSTICS
      then st\<lparr>tv_diagnostics := tv_diagnostics st @ [d]\<rparr>
      else st\<lparr>budget_hits := (budget_hits st)(DiagnosticRetention \<mapsto>
             (case budget_hits st DiagnosticRetention of None \<Rightarrow> 0 | Some n \<Rightarrow> n) + 1)\<rparr>)"

definition record_pagination_truncation :: "u64 \<Rightarrow> string \<Rightarrow> string \<Rightarrow> 'u SemanticTraversal \<Rightarrow> 'u SemanticTraversal" where
  "record_pagination_truncation n m c st =
     (if n = 0 then st
      else tv_push_diagnostic \<lparr>pd_code = c, pd_message = m, pd_observed = Some n, pd_threshold = Some 0\<rparr>
        (st\<lparr>pagination_truncation_count := saturating_add (pagination_truncation_count st) n\<rparr>))"

definition elapsed_millis :: "traversal_io \<Rightarrow> 'u SemanticTraversal \<Rightarrow> u64 \<times> 'u SemanticTraversal" where
  "elapsed_millis io st =
     (saturating_sub (io_clock io (clock_reads st)) (start_millis st), st\<lparr>clock_reads := Suc (clock_reads st)\<rparr>)"

definition hit_time_budget :: "traversal_io \<Rightarrow> 'u SemanticTraversal \<Rightarrow> 'u SemanticTraversal" where
  "hit_time_budget io st =
     (if time_budget_hit st then st
      else let (observed, st1) = elapsed_millis io (st\<lparr>time_budget_hit := True\<rparr>) in
        record_budget \<lparr>hit_kind = DurationBudget, hit_transition_id = None, hit_page_type_id = None,
          hit_observed = observed, hit_limit = el_max_duration_ms (tv_limits st)\<rparr> st1)"

definition budget_hit ::
  "PreviewBudgetKind \<Rightarrow> DiscoveryTransitionId option \<Rightarrow> PageTypeId option \<Rightarrow> u64 \<Rightarrow> u64
    \<Rightarrow> 'u SemanticTraversal \<Rightarrow> PreviewBudgetHit \<times> 'u SemanticTraversal" where
  "budget_hit kind t p observed limit st =
     (let hit = \<lparr>hit_kind = kind, hit_transition_id = t, hit_page_type_id = p, hit_observed = observed, hit_limit = limit\<rparr>
      in (hit, record_budget hit st))"

definition count_scope :: "PreviewUrlState \<Rightarrow> 'u SemanticTraversal \<Rightarrow> 'u SemanticTraversal" where
  "count_scope s st =
     (case s of
        ExternalState \<Rightarrow> st\<lparr>external_urls := saturating_add (external_urls st) 1\<rparr>
      | BlockedState \<Rightarrow> st\<lparr>blocked_urls := saturating_add (blocked_urls st) 1\<rparr>
      | _ \<Rightarrow> st)"

definition traversal_scope ::
  "'u lab_env \<Rightarrow> 'u SemanticTraversal \<Rightarrow> 'u \<Rightarrow> DiscoveryPreviewError + DomainScopeEvidence option" where
  "traversal_scope env st u =
     map_err (\<lambda>_. DpPersistedStateInvalid)
       (res_bind (classify (lab_scope env) (cv_domain_scope (tv_version st)) u (cv_seeds (tv_version st)))
          (\<lambda>classification. Inr (Some (from_classification classification))))"

section \<open>The frontier\<close>

definition queue_key :: "QueueEntry \<Rightarrow> u32 \<times> u64 \<times> string \<times> string" where
  "queue_key e = (qe_depth e, qe_order e, qe_canonical_url e, qe_requested_url e)"

definition frontier_order :: "(string, QueueEntry) bmap \<Rightarrow> QueueEntry list" where
  "frontier_order m = sort_key queue_key (bm_values m)"

definition rebuild_queue :: "'u SemanticTraversal \<Rightarrow> 'u SemanticTraversal" where
  "rebuild_queue st = st\<lparr>tv_queue := frontier_order (queued st)\<rparr>"

definition primary_seed_id :: "QueueEntry \<Rightarrow> DiscoveryPreviewError + SeedId" where
  "primary_seed_id e = (case qe_seed_ids e of [] \<Rightarrow> Inl QueueEntryMissingSeedProvenance | s # _ \<Rightarrow> Inr s)"

definition merge_root_provenance :: "string \<Rightarrow> SeedId \<Rightarrow> 'u SemanticTraversal \<Rightarrow> 'u SemanticTraversal" where
  "merge_root_provenance canonical seed st =
     (case bm_lookup (queued st) canonical of
        None \<Rightarrow> st
      | Some existing \<Rightarrow>
          if seed \<in> set (qe_seed_ids existing) then st
          else rebuild_queue (st\<lparr>queued := bm_insert canonical
                 (existing\<lparr>qe_seed_ids := qe_seed_ids existing @ [seed]\<rparr>) (queued st)\<rparr>))"

definition push_seed ::
  "'u lab_env \<Rightarrow> 'u Seed \<Rightarrow> PreviewUrlState \<Rightarrow> string option \<Rightarrow> DomainScopeEvidence option
    \<Rightarrow> 'u SemanticTraversal \<Rightarrow> 'u SemanticTraversal" where
  "push_seed env seed s dup scope st =
     st\<lparr>tv_seeds := tv_seeds st @
        [\<lparr>ps_seed_id = seed_id seed, ps_requested_url = url_as_str (lab_api env) (original_url seed),
          ps_canonical_url = url_as_str (lab_api env) (canonical_url seed),
          ps_entry_page_type_hint = entry_page_type_hint seed, ps_state = s, ps_duplicate_of = dup,
          ps_scope = scope, ps_page_type_match = None, ps_budget_hits = []\<rparr>]\<rparr>"

definition pages_hit :: "'u SemanticTraversal \<Rightarrow> PreviewBudgetHit" where
  "pages_hit st = \<lparr>hit_kind = PagesBudget, hit_transition_id = None, hit_page_type_id = None,
     hit_observed = set_len (admitted st), hit_limit = el_max_pages (tv_limits st)\<rparr>"

definition enqueue_root :: "'u lab_env \<Rightarrow> nat \<Rightarrow> 'u Seed \<Rightarrow> 'u SemanticTraversal \<Rightarrow> 'u SemanticTraversal" where
  "enqueue_root env order seed st =
     (let canonical = url_as_str (lab_api env) (canonical_url seed);
          st1 = rebuild_queue (st\<lparr>admitted := insert canonical (admitted st),
            queued := bm_insert canonical
              \<lparr>qe_requested_url = fragment_free_url (lab_api env) (original_url seed), qe_canonical_url = canonical,
               qe_depth = 0, qe_seed_ids = [seed_id seed], qe_target_page_type_id = None, qe_transition_id = None,
               qe_parent_canonical_url = None, qe_pagination = False, qe_order = of_nat order\<rparr> (queued st)\<rparr>)
      in st1\<lparr>newly_enqueued_urls := saturating_add (newly_enqueued_urls st1) 1\<rparr>)"

definition admit_root ::
  "'u lab_env \<Rightarrow> nat \<Rightarrow> 'u Seed \<Rightarrow> 'u SemanticTraversal \<Rightarrow> DiscoveryPreviewError + 'u SemanticTraversal" where
  "admit_root env order seed st =
     (let canonical = url_as_str (lab_api env) (canonical_url seed) in
      res_bind (traversal_scope env st (canonical_url seed)) (\<lambda>scope.
      Inr (if canonical \<in> seen st then
             push_seed env seed CanonicalDuplicate (Some canonical) scope
               (merge_root_provenance canonical (seed_id seed)
                 (st\<lparr>duplicates_prevented := saturating_add (duplicates_prevented st) 1\<rparr>))
           else
             let st1 = st\<lparr>seen := insert canonical (seen st)\<rparr> in
             if dp_is_in_scope scope then
               if set_len (admitted st1) \<ge> el_max_pages (tv_limits st1)
               then push_seed env seed BudgetExcluded None scope (record_budget (pages_hit st1) st1)
               else push_seed env seed InScopeMatched None scope (enqueue_root env order seed st1)
             else push_seed env seed (scope_state scope) None scope (count_scope (scope_state scope) st1))))"

fun admit_roots ::
  "'u lab_env \<Rightarrow> nat \<Rightarrow> 'u Seed list \<Rightarrow> 'u SemanticTraversal \<Rightarrow> DiscoveryPreviewError + 'u SemanticTraversal" where
  "admit_roots env order [] st = Inr st"
| "admit_roots env order (seed # seeds) st =
     res_bind (admit_root env order seed st) (admit_roots env (Suc order) seeds)"

section \<open>Budgets of one transition\<close>

definition budget_hit_from_exclusion ::
  "DiscoveryBudgetExclusion \<Rightarrow> DiscoveryTransition \<Rightarrow> DiscoveryBudgetCandidate
    \<Rightarrow> 'u SemanticTraversal \<Rightarrow> PreviewBudgetHit \<times> 'u SemanticTraversal" where
  "budget_hit_from_exclusion exclusion t c st =
     (let g = cv_guardrails (tv_version st); limits = tv_limits st;
          (kind, observed, limit) = (case exclusion of
             MaxPages \<Rightarrow> (PagesBudget, pages_already_scheduled c, el_max_pages limits)
           | MaxDuration \<Rightarrow> (DurationBudget, elapsed_duration_seconds c, max_duration_seconds g)
           | MaxDepth \<Rightarrow> (DepthBudget, ucast (saturating_add (current_depth c) (depth_contribution (tr_budget t))),
                          ucast (el_max_depth limits))
           | MaxDownloadedBytes \<Rightarrow> (DownloadedBytesBudget, downloaded_bytes c, el_max_downloaded_bytes limits)
           | PageTypePageBudget \<Rightarrow> (PageTypeBudget, page_type_pages c,
               (case Option.bind (guardrail_page_type g (target_page_type_id t)) page_budget of
                  None \<Rightarrow> page_type_pages c | Some l \<Rightarrow> l))
           | TransitionPerPageLinkLimit \<Rightarrow> (TransitionPerSourcePageBudget, ucast (transition_links_on_source_page c),
               ucast (max_links_per_source_page (tr_budget t)))
           | TransitionTotalBudget \<Rightarrow> (TransitionTotalBudgetKind, transition_total_links c,
               (case total_budget (tr_budget t) of None \<Rightarrow> transition_total_links c | Some l \<Rightarrow> l)))
      in budget_hit kind (Some (tr_id t)) (Some (target_page_type_id t)) observed limit st)"

definition winner_id :: "PageTypeMatchEvidence \<Rightarrow> PageTypeId option" where
  "winner_id m = map_option ev_page_type_id (ev_winner m)"

definition transition_candidate ::
  "QueueEntry \<Rightarrow> string \<Rightarrow> DiscoveryTransition \<Rightarrow> PageTypeMatchEvidence \<Rightarrow> u64 \<Rightarrow> 'u SemanticTraversal
    \<Rightarrow> DiscoveryBudgetCandidate" where
  "transition_candidate entry source t target_match elapsed st =
     \<lparr>pages_already_scheduled = set_len (admitted st), current_depth = qe_depth entry,
      elapsed_duration_seconds = elapsed div 1000, downloaded_bytes = consumed_bytes st,
      page_type_pages = (case winner_id target_match of None \<Rightarrow> 0
                         | Some p \<Rightarrow> lookup_or_zero (page_type_scheduled st) p),
      transition_links_on_source_page = lookup_or_zero (transition_page_counts st) (tr_id t, source),
      transition_total_links = (case bm_lookup (transition_counts st) (tr_id t) of
         None \<Rightarrow> 0 | Some n \<Rightarrow> eligible_edges n),
      prospective_download_bytes = 0\<rparr>"

definition semantic_evaluator :: "'u SemanticTraversal \<Rightarrow> DiscoveryTransition \<Rightarrow> DiscoveryBudgetEvaluator" where
  "semantic_evaluator st t =
     \<lparr>ev_guardrails = cv_guardrails (tv_version st),
      ev_page_type = guardrail_page_type (cv_guardrails (tv_version st)) (target_page_type_id t),
      ev_transition = Some (tr_budget t)\<rparr>"

definition budget_error :: "DiscoveryBudgetError \<Rightarrow> DiscoveryPreviewError" where
  "budget_error err = (case err of Overflow \<Rightarrow> DpBudgetOverflow | _ \<Rightarrow> DpPersistedStateInvalid)"

definition check_transition_budget ::
  "traversal_io \<Rightarrow> QueueEntry \<Rightarrow> string \<Rightarrow> DiscoveryTransition \<Rightarrow> PageTypeMatchEvidence \<Rightarrow> 'u SemanticTraversal
    \<Rightarrow> DiscoveryPreviewError + PreviewBudgetHit option \<times> 'u SemanticTraversal" where
  "check_transition_budget io entry source t target_match st =
     (if set_len (admitted st) \<ge> el_max_pages (tv_limits st) then
        (let (hit, st1) = budget_hit PagesBudget (Some (tr_id t)) (Some (target_page_type_id t))
               (set_len (admitted st)) (el_max_pages (tv_limits st)) st
         in Inr (Some hit, st1))
      else
        let (elapsed, st1) = elapsed_millis io st;
            candidate = transition_candidate entry source t target_match elapsed st1
        in res_bind (map_err budget_error (evaluate_budget (semantic_evaluator st1 t) candidate)) (\<lambda>semantic.
           case semantic of
             Excluded exclusion \<Rightarrow>
               (let (hit, st2) = budget_hit_from_exclusion exclusion t candidate st1 in Inr (Some hit, st2))
           | Allowed \<Rightarrow>
               res_bind (ok_or (transition_total_limit (tv_context st1) (tr_id t)) DpPersistedStateInvalid) (\<lambda>limit.
               if transition_total_links candidate \<ge> limit then
                 (let (hit, st2) = budget_hit TransitionTotalBudgetKind (Some (tr_id t)) None
                        (transition_total_links candidate) limit st1
                  in Inr (Some hit, st2))
               else Inr (None, st1))))"

definition actual_final_page_type_budget_hit ::
  "QueueEntry \<Rightarrow> PageTypeId \<Rightarrow> 'u SemanticTraversal \<Rightarrow> PreviewBudgetHit option \<times> 'u SemanticTraversal" where
  "actual_final_page_type_budget_hit entry actual st =
     (if qe_target_page_type_id entry = Some actual then (None, st)
      else (case Option.bind (guardrail_page_type (cv_guardrails (tv_version st)) actual) page_budget of
          None \<Rightarrow> (None, st)
        | Some limit \<Rightarrow>
            let scheduled = lookup_or_zero (page_type_scheduled st) actual in
            if scheduled \<ge> limit then
              (let (hit, st1) = budget_hit PageTypeBudget None (Some actual) scheduled limit st in (Some hit, st1))
            else (None, st)))"

definition consume_transition :: "DiscoveryTransition \<Rightarrow> string \<Rightarrow> 'u SemanticTraversal \<Rightarrow> 'u SemanticTraversal" where
  "consume_transition t source st =
     (let st1 = st\<lparr>transition_page_counts := bump (tr_id t, source) (transition_page_counts st)\<rparr> in
      case bm_lookup (transition_counts st1) (tr_id t) of
        None \<Rightarrow> st1
      | Some n \<Rightarrow> st1\<lparr>transition_counts := bm_insert (tr_id t)
          (n\<lparr>eligible_edges := saturating_add (eligible_edges n) 1, source_pages := insert source (source_pages n)\<rparr>)
          (transition_counts st1)\<rparr>)"

definition register_match :: "string \<Rightarrow> PageTypeMatchEvidence \<Rightarrow> bool \<Rightarrow> 'u SemanticTraversal \<Rightarrow> 'u SemanticTraversal" where
  "register_match u evidence discovered_from_href st =
     (if u \<in> in_scope_urls st then st
      else
        let st1 = st\<lparr>in_scope_urls := insert u (in_scope_urls st), matching_urls := insert u (matching_urls st)\<rparr> in
        case ev_decision evidence of
          MatchedStatus \<Rightarrow>
            (case winner_id evidence of
               Some p \<Rightarrow> if discovered_from_href
                  then st1\<lparr>page_type_discovered := bump p (page_type_discovered st1)\<rparr> else st1
             | None \<Rightarrow> st1)
        | AmbiguousStatus \<Rightarrow> st1\<lparr>ambiguous_urls := insert u (ambiguous_urls st1)\<rparr>
        | UnmatchedStatus \<Rightarrow> st1\<lparr>unmatched_urls := insert u (unmatched_urls st1)\<rparr>)"

definition update_seed_outcome ::
  "SeedId list \<Rightarrow> PreviewUrlState \<Rightarrow> DomainScopeEvidence option \<Rightarrow> PreviewBudgetHit list
    \<Rightarrow> 'u SemanticTraversal \<Rightarrow> 'u SemanticTraversal" where
  "update_seed_outcome ids s scope hits st =
     st\<lparr>tv_seeds := map (\<lambda>seed. if ps_seed_id seed \<in> set ids
        then seed\<lparr>ps_state := s, ps_scope := scope, ps_budget_hits := hits\<rparr> else seed) (tv_seeds st)\<rparr>"

section \<open>Expanding a page\<close>

record ObservedSource =
  src_requested :: string
  src_final_url :: "string option"
  src_canonical :: string

record TraversalObservedLink =
  tl_link :: ObservedLink
  is_pagination :: bool

definition path_base ::
  "'u lab_env \<Rightarrow> QueueEntry \<Rightarrow> ObservedSource \<Rightarrow> PageTypeMatchEvidence \<Rightarrow> ObservedLink \<Rightarrow> string option
    \<Rightarrow> string option \<Rightarrow> 'u CanonicalizationResult option \<Rightarrow> DomainScopeEvidence option \<Rightarrow> PreviewUrlState
    \<Rightarrow> PageTypeMatchEvidence option \<Rightarrow> string option \<Rightarrow> PreviewTransitionEvaluation list
    \<Rightarrow> PreviewBudgetHit list \<Rightarrow> DiscoveryPreviewError + DiscoveryPath" where
  "path_base env entry source source_match link original canonical canonicalization scope s target dup evaluations hits =
     res_bind (primary_seed_id entry) (\<lambda>primary.
     Inr \<lparr>dp_seed_id = primary, dp_seed_ids = qe_seed_ids entry, source_requested_url = src_requested source,
          source_final_url = src_final_url source, source_canonical_url = src_canonical source,
          source_page_type_match = source_match, dp_selector = link_selector_of link, dp_raw_href = link_href link,
          dp_resolved_original_url = original, dp_canonical_url = canonical,
          dp_canonicalization = map_option (canonicalization_from_result (lab_api env)) canonicalization,
          dp_scope = scope, dp_state = s, dp_duplicate_of = dup, target_page_type_match = target,
          source_depth = qe_depth entry, dp_prospective_depth = None, transition_evaluations = evaluations,
          dp_budget_hits = hits\<rparr>)"

definition invalid_path ::
  "'u lab_env \<Rightarrow> QueueEntry \<Rightarrow> ObservedSource \<Rightarrow> PageTypeMatchEvidence \<Rightarrow> ObservedLink
    \<Rightarrow> DiscoveryPreviewError + DiscoveryPath" where
  "invalid_path env entry source source_match link =
     path_base env entry source source_match link None None None None InvalidUrlState None None [] []"

definition push_path :: "DiscoveryPath \<Rightarrow> 'u SemanticTraversal \<Rightarrow> 'u SemanticTraversal" where
  "push_path p st = st\<lparr>tv_paths := tv_paths st @ [p]\<rparr>"

definition sorted_transitions_for :: "'u SemanticTraversal \<Rightarrow> PageTypeId \<Rightarrow> DiscoveryTransition list" where
  "sorted_transitions_for st source =
     sort_key (\<lambda>t. (- tr_priority t, tr_name t, tr_id t))
       (filter (\<lambda>t. tr_enabled t \<and> source_page_type_id t = source) (pc_transitions (tv_context st)))"

text \<open>The links of a page in semantic order.  \<open>dedup_by\<close> hands its closure the later element first and
  removes it, so the pagination flag the closure joins is written to the link that is dropped.\<close>

definition link_key :: "TraversalObservedLink \<Rightarrow> string \<times> string option" where
  "link_key l = (link_href (tl_link l), link_selector_of (tl_link l))"

fun dedup_links :: "TraversalObservedLink list \<Rightarrow> TraversalObservedLink list" where
  "dedup_links (kept # later # ls) =
     (if link_key later = link_key kept
      then dedup_links (kept # ls)
      else kept # dedup_links (later # ls))"
| "dedup_links ls = ls"

definition page_links :: "PageObservation \<Rightarrow> TraversalObservedLink list" where
  "page_links ob =
     dedup_links (sort_key link_key
       (map (\<lambda>l. \<lparr>tl_link = l, is_pagination = False\<rparr>) (discovered_links ob)
        @ List.map_filter (\<lambda>p. map_option (\<lambda>u.
              \<lparr>tl_link = \<lparr>link_href = u, link_selector_of = po_selector p\<rparr>, is_pagination = True\<rparr>) (po_target_url p))
            (pagination_observations ob)))"

subsection \<open>Transitions out of the source page\<close>

definition unevaluated_constraint :: PreviewDiagnostic where
  "unevaluated_constraint = preview_diagnostic ''TRANSITION_URL_CONSTRAINT_UNEVALUATED''
     ''The transition URL constraint has no executable DSL in this Preview.''"

definition targets :: "PageTypeMatchEvidence \<Rightarrow> DiscoveryTransition \<Rightarrow> bool" where
  "targets target_match t \<longleftrightarrow>
     ev_decision target_match = MatchedStatus \<and> winner_id target_match = Some (target_page_type_id t)"

text \<open>The depth check after a passed budget, and the use of the transition.\<close>

definition admit_depth ::
  "QueueEntry \<Rightarrow> string \<Rightarrow> DiscoveryTransition \<Rightarrow> 'u SemanticTraversal
    \<Rightarrow> DiscoveryPreviewError + PreviewBudgetHit option \<times> u32 option \<times> 'u SemanticTraversal" where
  "admit_depth entry source t st =
     res_bind (ok_or (checked_add (qe_depth entry) (depth_contribution (tr_budget t))) DpBudgetOverflow) (\<lambda>depth.
     if depth > el_max_depth (tv_limits st) then
       (let hit = \<lparr>hit_kind = DepthBudget, hit_transition_id = Some (tr_id t),
              hit_page_type_id = Some (target_page_type_id t), hit_observed = ucast depth,
              hit_limit = ucast (el_max_depth (tv_limits st))\<rparr>
        in Inr (Some hit, None, record_budget hit st))
     else Inr (None, Some depth, consume_transition t source st))"

definition evaluate_transition ::
  "traversal_io \<Rightarrow> QueueEntry \<Rightarrow> string \<Rightarrow> ObservedLink \<Rightarrow> PageTypeMatchEvidence \<Rightarrow> DiscoveryTransition
    \<Rightarrow> 'u SemanticTraversal
    \<Rightarrow> DiscoveryPreviewError + PreviewTransitionEvaluation \<times> u32 option \<times> 'u SemanticTraversal" where
  "evaluate_transition io entry source link target_match t st =
     (let by_selector = link_selector_of link = Some (link_selector t);
          by_target = targets target_match t;
          by_constraints = url_constraints t = None;
          evaluation = (\<lambda>depth hits.
            \<lparr>pe_transition_id = tr_id t, pe_transition_name = tr_name t,
             pe_source_page_type_id = source_page_type_id t, pe_target_page_type_id = target_page_type_id t,
             pe_priority = tr_priority t, selector_eligible = by_selector, target_page_type_eligible = by_target,
             constraints_eligible = by_constraints, pe_eligible = (depth \<noteq> None), pe_budget_hits = hits,
             pe_diagnostic = (if by_constraints then None else Some unevaluated_constraint)\<rparr>)
      in if by_selector \<and> by_target \<and> by_constraints then
           res_bind (check_transition_budget io entry source t target_match st) (\<lambda>(hit, st1).
           case hit of
             Some h \<Rightarrow> Inr (evaluation None [h], None, st1)
           | None \<Rightarrow> res_bind (admit_depth entry source t st1) (\<lambda>(depth_hit, depth, st2).
               Inr (evaluation depth (case depth_hit of None \<Rightarrow> [] | Some h \<Rightarrow> [h]), depth, st2)))
         else Inr (evaluation (None :: u32 option) [], None, st))"

fun evaluate_transitions ::
  "traversal_io \<Rightarrow> QueueEntry \<Rightarrow> string \<Rightarrow> ObservedLink \<Rightarrow> PageTypeMatchEvidence \<Rightarrow> DiscoveryTransition list
    \<Rightarrow> 'u SemanticTraversal
    \<Rightarrow> DiscoveryPreviewError
        + PreviewTransitionEvaluation list \<times> (DiscoveryTransition \<times> u32) list \<times> 'u SemanticTraversal" where
  "evaluate_transitions io entry source link target_match [] st = Inr ([], [], st)"
| "evaluate_transitions io entry source link target_match (t # ts) st =
     res_bind (evaluate_transition io entry source link target_match t st) (\<lambda>(evaluation, depth, st1).
     res_bind (evaluate_transitions io entry source link target_match ts st1) (\<lambda>(evaluations, eligible, st2).
       Inr (evaluation # evaluations, (case depth of None \<Rightarrow> eligible | Some d \<Rightarrow> (t, d) # eligible), st2)))"

subsection \<open>Admission of a target\<close>

record Admission =
  adm_depth :: u32
  adm_page_type_id :: PageTypeId
  adm_transition_id :: "DiscoveryTransitionId option"

definition admission_transition :: "(DiscoveryTransition \<times> u32) list \<Rightarrow> u32 \<Rightarrow> DiscoveryTransitionId option" where
  "admission_transition eligible depth = iter_min (map (\<lambda>(t, _). tr_id t) (filter (\<lambda>(_, d). d = depth) eligible))"

definition decide_admission ::
  "PageTypeMatchEvidence \<Rightarrow> (DiscoveryTransition \<times> u32) list \<Rightarrow> 'u SemanticTraversal
    \<Rightarrow> PreviewBudgetHit option \<times> Admission option \<times> 'u SemanticTraversal" where
  "decide_admission target_match eligible st =
     (case (iter_min (map snd eligible), winner_id target_match) of
        (Some depth, Some winner) \<Rightarrow>
          let page_count = lookup_or_zero (page_type_scheduled st) winner;
              configured = Option.bind (guardrail_page_type (cv_guardrails (tv_version st)) winner) page_budget
          in if \<not> (case configured of None \<Rightarrow> True | Some limit \<Rightarrow> page_count < limit) then
               (let (hit, st1) = budget_hit PageTypeBudget None (Some winner) page_count
                      (case configured of None \<Rightarrow> page_count | Some limit \<Rightarrow> limit) st
                in (Some hit, None, st1))
             else if set_len (admitted st) \<ge> el_max_pages (tv_limits st) then
               (Some (pages_hit st), None, record_budget (pages_hit st) st)
             else (None, Some \<lparr>adm_depth = depth, adm_page_type_id = winner,
                    adm_transition_id = admission_transition eligible depth\<rparr>, st)
      | _ \<Rightarrow> (None, None, st))"

definition target_state ::
  "PageTypeMatchEvidence \<Rightarrow> (DiscoveryTransition \<times> u32) list \<Rightarrow> PreviewTransitionEvaluation list
    \<Rightarrow> PreviewBudgetHit option \<Rightarrow> PreviewUrlState" where
  "target_state target_match eligible evaluations admission_hit =
     (if admission_hit \<noteq> None then BudgetExcluded
      else case ev_decision target_match of
          AmbiguousStatus \<Rightarrow> AmbiguousPageTypeState
        | UnmatchedStatus \<Rightarrow> UnmatchedState
        | MatchedStatus \<Rightarrow>
            if eligible = [] \<and> list_ex (\<lambda>v. pe_budget_hits v \<noteq> []) evaluations
            then BudgetExcluded else InScopeMatched)"

definition enqueue_target ::
  "QueueEntry \<Rightarrow> string \<Rightarrow> string \<Rightarrow> bool \<Rightarrow> Admission \<Rightarrow> 'u SemanticTraversal \<Rightarrow> 'u SemanticTraversal" where
  "enqueue_target entry source canonical pagination adm st =
     (let order = newly_enqueued_urls st + of_nat (length (selected_seed_ids st)) in
      st\<lparr>admitted := insert canonical (admitted st),
         page_type_scheduled := bump (adm_page_type_id adm) (page_type_scheduled st),
         queued := bm_insert canonical
           \<lparr>qe_requested_url = canonical, qe_canonical_url = canonical, qe_depth = adm_depth adm,
            qe_seed_ids = qe_seed_ids entry, qe_target_page_type_id = Some (adm_page_type_id adm),
            qe_transition_id = adm_transition_id adm, qe_parent_canonical_url = Some source,
            qe_pagination = pagination, qe_order = order\<rparr> (queued st),
         newly_enqueued_urls := saturating_add (newly_enqueued_urls st) 1\<rparr>)"

subsection \<open>Duplicates\<close>

definition queued_duplicate_prospective_depth ::
  "QueueEntry \<Rightarrow> PageTypeMatchEvidence \<Rightarrow> ObservedLink \<Rightarrow> string \<Rightarrow> 'u SemanticTraversal
    \<Rightarrow> DiscoveryPreviewError + u32 option" where
  "queued_duplicate_prospective_depth entry source_match link canonical st =
     (case (Option.bind (bm_lookup (queued st) canonical) qe_target_page_type_id, winner_id source_match) of
        (Some target, Some source) \<Rightarrow>
          res_bind (collect_results (\<lambda>t. ok_or (checked_add (qe_depth entry) (depth_contribution (tr_budget t))) DpBudgetOverflow)
             (filter (\<lambda>t. tr_enabled t \<and> source_page_type_id t = source \<and> target_page_type_id t = target
                        \<and> url_constraints t = None \<and> link_selector_of link = Some (link_selector t))
               (pc_transitions (tv_context st)))) (\<lambda>depths. Inr (iter_min depths))
      | _ \<Rightarrow> Inr None)"

fun add_seed_ids :: "SeedId list \<Rightarrow> SeedId list \<Rightarrow> SeedId list" where
  "add_seed_ids held [] = held"
| "add_seed_ids held (i # is) = add_seed_ids (if i \<in> set held then held else held @ [i]) is"

definition merge_queued_duplicate_provenance ::
  "string \<Rightarrow> SeedId list \<Rightarrow> u32 option \<Rightarrow> 'u SemanticTraversal \<Rightarrow> 'u SemanticTraversal" where
  "merge_queued_duplicate_provenance canonical ids depth st =
     (case bm_lookup (queued st) canonical of
        None \<Rightarrow> st
      | Some e \<Rightarrow>
          let merged = e\<lparr>qe_seed_ids := add_seed_ids (qe_seed_ids e) ids,
                         qe_depth := (case depth of None \<Rightarrow> qe_depth e | Some d \<Rightarrow> min d (qe_depth e))\<rparr>
          in if merged = e then st
             else rebuild_queue (st\<lparr>queued := bm_insert canonical merged (queued st)\<rparr>))"

subsection \<open>One link\<close>

text \<open>A link out of scope: its identity is recorded, nothing is scheduled.\<close>

definition expand_out_of_scope ::
  "'u lab_env \<Rightarrow> QueueEntry \<Rightarrow> ObservedSource \<Rightarrow> PageTypeMatchEvidence \<Rightarrow> ObservedLink \<Rightarrow> string
    \<Rightarrow> 'u CanonicalizationResult \<Rightarrow> DomainScopeEvidence option \<Rightarrow> bool \<Rightarrow> 'u SemanticTraversal
    \<Rightarrow> DiscoveryPreviewError + 'u SemanticTraversal" where
  "expand_out_of_scope env entry source source_match link original result scope unique st =
     (let s = (if unique then scope_state scope else CanonicalDuplicate);
          st1 = (if unique then count_scope s st
                 else st\<lparr>duplicates_prevented := saturating_add (duplicates_prevented st) 1\<rparr>)
      in res_bind (path_base env entry source source_match link (Some original)
             (Some (url_as_str (lab_api env) (res_canonical_url result))) (Some result) scope s None None [] []) (\<lambda>p.
         Inr (push_path p st1)))"

text \<open>A link to an identity seen before: only the placement of a queued entry may improve.\<close>

definition expand_duplicate ::
  "'u lab_env \<Rightarrow> QueueEntry \<Rightarrow> ObservedSource \<Rightarrow> PageTypeMatchEvidence \<Rightarrow> ObservedLink \<Rightarrow> string
    \<Rightarrow> 'u CanonicalizationResult \<Rightarrow> DomainScopeEvidence option \<Rightarrow> 'u SemanticTraversal
    \<Rightarrow> DiscoveryPreviewError + 'u SemanticTraversal" where
  "expand_duplicate env entry source source_match link original result scope st =
     (let canonical = url_as_str (lab_api env) (res_canonical_url result);
          st1 = st\<lparr>duplicates_prevented := saturating_add (duplicates_prevented st) 1\<rparr>
      in res_bind (if canonical \<in> sampled st1 then Inr (None, st1)
           else res_bind (queued_duplicate_prospective_depth entry source_match link canonical st1) (\<lambda>depth.
             Inr (depth, merge_queued_duplicate_provenance canonical (qe_seed_ids entry) depth st1))) (\<lambda>(depth, st2).
         res_bind (path_base env entry source source_match link (Some original) (Some canonical) (Some result)
             scope CanonicalDuplicate None (Some canonical) [] []) (\<lambda>p.
         Inr (push_path (p\<lparr>dp_prospective_depth := depth\<rparr>) st2))))"

text \<open>The first discovery of an identity in scope: match, evaluate the transitions, admit.\<close>

definition expand_unique ::
  "'u lab_env \<Rightarrow> traversal_io \<Rightarrow> QueueEntry \<Rightarrow> ObservedSource \<Rightarrow> PageTypeMatchEvidence \<Rightarrow> PageTypeId
    \<Rightarrow> TraversalObservedLink \<Rightarrow> string \<Rightarrow> 'u CanonicalizationResult \<Rightarrow> DomainScopeEvidence option
    \<Rightarrow> 'u SemanticTraversal \<Rightarrow> DiscoveryPreviewError + bool \<times> 'u SemanticTraversal" where
  "expand_unique env io entry source source_match source_page_type link original result scope st =
     (let canonical = url_as_str (lab_api env) (res_canonical_url result);
          target_match = from_decision (resolve_page_type (lab_matcher env) (res_canonical_url result)
            (pc_page_types (tv_context st)));
          st1 = register_match canonical target_match True st
      in res_bind (evaluate_transitions io entry (src_canonical source) (tl_link link) target_match
             (sorted_transitions_for st1 source_page_type) st1) (\<lambda>(evaluations, eligible, st2).
         let (admission_hit, admission, st3) = decide_admission target_match eligible st2;
             s = target_state target_match eligible evaluations admission_hit;
             st4 = (if is_pagination link \<and> s = BudgetExcluded
                    then record_pagination_truncation 1
                      ''Observed pagination was rejected by a bounded admission limit.''
                      ''PREVIEW_PAGINATION_NOT_EXPANDED'' st3
                    else st3)
         in res_bind (path_base env entry source source_match (tl_link link) (Some original) (Some canonical)
              (Some result) scope s (Some target_match) None evaluations
              (concat (map pe_budget_hits evaluations) @ (case admission_hit of None \<Rightarrow> [] | Some h \<Rightarrow> [h]))) (\<lambda>p.
           let st5 = push_path (p\<lparr>dp_prospective_depth := iter_min (map snd eligible)\<rparr>) st4 in
           Inr (case admission of
                  None \<Rightarrow> (False, st5)
                | Some adm \<Rightarrow> (True, enqueue_target entry (src_canonical source) canonical (is_pagination link) adm st5)))))"

definition expand_canonical ::
  "'u lab_env \<Rightarrow> traversal_io \<Rightarrow> QueueEntry \<Rightarrow> ObservedSource \<Rightarrow> PageTypeMatchEvidence \<Rightarrow> PageTypeId
    \<Rightarrow> TraversalObservedLink \<Rightarrow> string \<Rightarrow> 'u CanonicalizationResult \<Rightarrow> 'u SemanticTraversal
    \<Rightarrow> DiscoveryPreviewError + bool \<times> 'u SemanticTraversal" where
  "expand_canonical env io entry source source_match source_page_type link original result st =
     (let canonical = url_as_str (lab_api env) (res_canonical_url result) in
      res_bind (traversal_scope env st (res_canonical_url result)) (\<lambda>scope.
      let unique = (canonical \<notin> seen st); st1 = st\<lparr>seen := insert canonical (seen st)\<rparr> in
      if \<not> dp_is_in_scope scope then
        res_bind (expand_out_of_scope env entry source source_match (tl_link link) original result scope unique st1)
          (\<lambda>st2. Inr (False, st2))
      else if \<not> unique then
        res_bind (expand_duplicate env entry source source_match (tl_link link) original result scope st1)
          (\<lambda>st2. Inr (False, st2))
      else expand_unique env io entry source source_match source_page_type link original result scope st1))"

text \<open>Beyond the provenance bound an edge is counted and dropped.\<close>

definition drop_edge :: "TraversalObservedLink \<Rightarrow> bool \<Rightarrow> 'u SemanticTraversal \<Rightarrow> 'u SemanticTraversal" where
  "drop_edge link already st =
     (let st1 = (if is_pagination link then record_pagination_truncation 1
                   ''Observed pagination exceeded the bounded provenance retention limit.''
                   ''PREVIEW_PAGINATION_NOT_EXPANDED'' st else st);
          retained = of_nat (length (tv_paths st1))
      in if already then st1
         else tv_push_diagnostic \<lparr>pd_code = ''PREVIEW_PROVENANCE_TRUNCATED'',
                pd_message = ''The bounded provenance retention cap was reached; raw href counts continue to include omitted edges.'',
                pd_observed = Some retained, pd_threshold = Some (of_nat MAX_PREVIEW_PROVENANCE_EDGES)\<rparr>
              (record_budget \<lparr>hit_kind = ProvenanceRetention, hit_transition_id = None, hit_page_type_id = None,
                hit_observed = retained, hit_limit = of_nat MAX_PREVIEW_PROVENANCE_EDGES\<rparr> st1))"

definition expand_retained ::
  "'u lab_env \<Rightarrow> traversal_io \<Rightarrow> QueueEntry \<Rightarrow> ObservedSource \<Rightarrow> PageTypeMatchEvidence \<Rightarrow> PageTypeId \<Rightarrow> 'u
    \<Rightarrow> TraversalObservedLink \<Rightarrow> 'u SemanticTraversal \<Rightarrow> DiscoveryPreviewError + bool \<times> 'u SemanticTraversal" where
  "expand_retained env io entry source source_match source_page_type base link st =
     (let api = lab_api env;
          invalid = res_bind (invalid_path env entry source source_match (tl_link link))
                      (\<lambda>p. Inr (False, push_path p st))
      in case url_join env base (link_href (tl_link link)) of
           None \<Rightarrow> invalid
         | Some joined \<Rightarrow>
             let original = url_as_str api joined in
             if char_count original > MAX_PREVIEW_URL_CHARS then invalid
             else (case canonicalize api (cv_canonicalization (tv_version st)) original of
                 Inl _ \<Rightarrow> invalid
               | Inr result \<Rightarrow>
                   expand_canonical env io entry source source_match source_page_type link original result st))"

text \<open>\<open>fresh\<close> counts the targets admitted from this page, \<open>truncated\<close> whether the provenance bound
  has been reported.\<close>

fun expand_links ::
  "'u lab_env \<Rightarrow> traversal_io \<Rightarrow> QueueEntry \<Rightarrow> ObservedSource \<Rightarrow> PageTypeMatchEvidence \<Rightarrow> PageTypeId \<Rightarrow> 'u
    \<Rightarrow> TraversalObservedLink list \<Rightarrow> u64 \<Rightarrow> bool \<Rightarrow> 'u SemanticTraversal
    \<Rightarrow> DiscoveryPreviewError + u64 \<times> 'u SemanticTraversal" where
  "expand_links env io entry source source_match pt base [] fresh truncated st = Inr (fresh, st)"
| "expand_links env io entry source source_match pt base (link # links) fresh truncated st =
     (let st1 = st\<lparr>urls_discovered := saturating_add (urls_discovered st) 1\<rparr> in
      if length (tv_paths st1) \<ge> MAX_PREVIEW_PROVENANCE_EDGES
      then expand_links env io entry source source_match pt base links fresh True (drop_edge link truncated st1)
      else res_bind (expand_retained env io entry source source_match pt base link st1) (\<lambda>(new, st2).
        expand_links env io entry source source_match pt base links
          (if new then saturating_add fresh 1 else fresh) truncated st2))"

definition expand_page ::
  "'u lab_env \<Rightarrow> traversal_io \<Rightarrow> QueueEntry \<Rightarrow> PageObservation \<Rightarrow> ObservedSource \<Rightarrow> PageTypeMatchEvidence
    \<Rightarrow> 'u SemanticTraversal \<Rightarrow> DiscoveryPreviewError + 'u SemanticTraversal" where
  "expand_page env io entry ob source source_match st =
     (if src_canonical source \<in> expanded st then Inr st
      else
        let st1 = st\<lparr>expanded := insert (src_canonical source) (expanded st)\<rparr> in
        case winner_id source_match of
          None \<Rightarrow> Inr st1
        | Some pt \<Rightarrow>
            res_bind (ok_or (url_parse (lab_api env)
                (case src_final_url source of None \<Rightarrow> src_requested source | Some u \<Rightarrow> u)) DpObservationInvalid) (\<lambda>base.
            res_bind (expand_links env io entry source source_match pt base (page_links ob) 0 False st1) (\<lambda>(fresh, st2).
            Inr (rebuild_queue (st2\<lparr>peak_new_from_page := max (peak_new_from_page st2) fresh\<rparr>)))))"

section \<open>One observation\<close>

text \<open>The checks of an answer, before anything is counted.\<close>

definition accept_observation ::
  "'u lab_env \<Rightarrow> QueueEntry \<Rightarrow> PageObservation \<Rightarrow> u64 \<Rightarrow> 'u SemanticTraversal
    \<Rightarrow> DiscoveryPreviewError + 'u CanonicalizationResult \<times> 'u SemanticTraversal" where
  "accept_observation env entry ob bytes st =
     (if requested_url ob \<noteq> qe_requested_url entry then Inl DpObservationRequestMismatch
      else res_bind (ok_or (checked_sub (el_max_downloaded_bytes (tv_limits st)) (consumed_bytes st)) DpBudgetOverflow) (\<lambda>remaining.
        if bytes > remaining \<or> length (discovered_links ob) > MAX_PREVIEW_LINKS_PER_OBSERVATION then Inl DpObservationInvalid
        else res_bind (validate_observation ob) (\<lambda>_.
          res_bind (ok_or (checked_add (consumed_bytes st) bytes) DpBudgetOverflow) (\<lambda>total.
          res_bind (map_err (\<lambda>_. DpObservationInvalid)
              (canonicalize (lab_api env) (cv_canonicalization (tv_version st))
                (case final_url ob of None \<Rightarrow> requested_url ob | Some u \<Rightarrow> u))) (\<lambda>final.
          Inr (final, st\<lparr>consumed_bytes := total\<rparr>))))))"

text \<open>A redirect moves the admitted identity to the final URL; when that one was admitted already, the
  two admissions collapse into one.\<close>

definition unschedule :: "PageTypeId option \<Rightarrow> 'u SemanticTraversal \<Rightarrow> DiscoveryPreviewError + 'u SemanticTraversal" where
  "unschedule target st =
     (case target of
        None \<Rightarrow> Inr st
      | Some p \<Rightarrow>
          res_bind (ok_or (bm_lookup (page_type_scheduled st) p) DpPersistedStateInvalid) (\<lambda>scheduled.
          res_bind (ok_or (checked_sub scheduled 1) DpPersistedStateInvalid) (\<lambda>n.
          Inr (st\<lparr>page_type_scheduled := bm_insert p n (page_type_scheduled st)\<rparr>))))"

definition move_admission :: "QueueEntry \<Rightarrow> string \<Rightarrow> 'u SemanticTraversal \<Rightarrow> DiscoveryPreviewError + 'u SemanticTraversal" where
  "move_admission entry canonical st =
     (if qe_canonical_url entry \<notin> admitted st then Inr st
      else
        let rest = admitted st - {qe_canonical_url entry}; st1 = st\<lparr>admitted := insert canonical rest\<rparr> in
        if canonical \<in> rest then
          unschedule (qe_target_page_type_id entry)
            (st1\<lparr>newly_enqueued_urls := saturating_sub (newly_enqueued_urls st1) 1\<rparr>)
        else Inr st1)"

definition forget_alias :: "string \<Rightarrow> string \<Rightarrow> 'u SemanticTraversal \<Rightarrow> 'u SemanticTraversal" where
  "forget_alias old canonical st =
     rebuild_queue (st\<lparr>in_scope_urls := in_scope_urls st - {old}, matching_urls := matching_urls st - {old},
       unmatched_urls := unmatched_urls st - {old}, ambiguous_urls := ambiguous_urls st - {old},
       queued := bm_remove canonical (queued st)\<rparr>)"

definition follow_redirect :: "QueueEntry \<Rightarrow> string \<Rightarrow> 'u SemanticTraversal \<Rightarrow> DiscoveryPreviewError + 'u SemanticTraversal" where
  "follow_redirect entry canonical st =
     (if canonical = qe_canonical_url entry then Inr (st\<lparr>seen := insert canonical (seen st)\<rparr>)
      else
        let st1 = st\<lparr>seen := insert canonical (seen st),
              duplicates_prevented := (if canonical \<in> seen st then saturating_add (duplicates_prevented st) 1
                                       else duplicates_prevented st)\<rparr>
        in res_bind (move_admission entry canonical st1) (\<lambda>st2.
           Inr (forget_alias (qe_canonical_url entry) canonical st2)))"

definition observed_match ::
  "'u lab_env \<Rightarrow> 'u CanonicalizationResult \<Rightarrow> DomainScopeEvidence option \<Rightarrow> 'u SemanticTraversal
    \<Rightarrow> PageTypeMatchEvidence option \<times> 'u SemanticTraversal" where
  "observed_match env final scope st =
     (if dp_is_in_scope scope then
        let evidence = from_decision (resolve_page_type (lab_matcher env) (res_canonical_url final)
              (pc_page_types (tv_context st)))
        in (Some evidence, register_match (url_as_str (lab_api env) (res_canonical_url final)) evidence False st)
      else (None, st))"

definition is_matched :: "PageTypeMatchEvidence option \<Rightarrow> bool" where
  "is_matched m \<longleftrightarrow> (case m of None \<Rightarrow> False | Some e \<Rightarrow> ev_decision e = MatchedStatus)"

text \<open>An identity is sampled once; its page type's budget is checked at that moment.\<close>

definition sample_page ::
  "QueueEntry \<Rightarrow> string \<Rightarrow> PageTypeMatchEvidence option \<Rightarrow> 'u SemanticTraversal
    \<Rightarrow> PreviewBudgetHit list \<times> 'u SemanticTraversal" where
  "sample_page entry canonical page_match st =
     (if canonical \<in> sampled st then ([], st)
      else
        let (hits, st1) =
          (case (is_matched page_match, Option.bind page_match winner_id) of
             (True, Some p) \<Rightarrow>
               (let (hit, st1) = actual_final_page_type_budget_hit entry p st
                in (case hit of None \<Rightarrow> [] | Some h \<Rightarrow> [h], st1\<lparr>page_type_sampled := bump p (page_type_sampled st1)\<rparr>))
           | _ \<Rightarrow> ([], st))
        in (hits, st1\<lparr>pages_sampled := saturating_add (pages_sampled st1) 1, sampled := insert canonical (sampled st1)\<rparr>))"

definition observed_state :: "DomainScopeEvidence option \<Rightarrow> PageTypeMatchEvidence option \<Rightarrow> PreviewUrlState" where
  "observed_state scope page_match =
     (case map_option ev_classification scope of
        Some ExternalStatus \<Rightarrow> ExternalState
      | Some BlockedStatus \<Rightarrow> BlockedState
      | _ \<Rightarrow> (case map_option ev_decision page_match of
            Some AmbiguousStatus \<Rightarrow> AmbiguousPageTypeState
          | Some MatchedStatus \<Rightarrow> Sampled
          | _ \<Rightarrow> UnmatchedState))"

definition observe_seeds ::
  "SeedId list \<Rightarrow> PageTypeMatchEvidence option \<Rightarrow> PreviewUrlState \<Rightarrow> PreviewBudgetHit list
    \<Rightarrow> 'u SemanticTraversal \<Rightarrow> 'u SemanticTraversal" where
  "observe_seeds ids page_match s hits st =
     st\<lparr>tv_seeds := map (\<lambda>seed. if ps_seed_id seed \<in> set ids
        then seed\<lparr>ps_page_type_match := page_match, ps_state := s, ps_budget_hits := hits\<rparr> else seed) (tv_seeds st)\<rparr>"

definition push_page :: "DiscoveryPreviewPage \<Rightarrow> 'u SemanticTraversal \<Rightarrow> 'u SemanticTraversal" where
  "push_page p st = st\<lparr>tv_pages := tv_pages st @ [p]\<rparr>"

definition targetful_pagination_count :: "PageObservation \<Rightarrow> u64" where
  "targetful_pagination_count ob = of_nat (length (filter (\<lambda>p. po_target_url p \<noteq> None) (pagination_observations ob)))"

definition targetless_pagination_count :: "PageObservation \<Rightarrow> u64" where
  "targetless_pagination_count ob = of_nat (length (filter (\<lambda>p. po_target_url p = None) (pagination_observations ob)))"

text \<open>The links of a page observed at the duration boundary are counted, not expanded.\<close>

definition skip_expansion :: "PageObservation \<Rightarrow> bool \<Rightarrow> 'u SemanticTraversal \<Rightarrow> 'u SemanticTraversal" where
  "skip_expansion ob source_can_expand st =
     (let links = of_nat (length (discovered_links ob)); targetful = targetful_pagination_count ob;
          regular_work = (discovered_links ob \<noteq> []);
          st1 = (if source_can_expand \<and> targetful > 0
                 then record_pagination_truncation targetful
                   ''Observed pagination was not expanded before the duration boundary.''
                   ''PREVIEW_PAGINATION_NOT_EXPANDED'' st
                 else st);
          st2 = st1\<lparr>duration_work_not_expanded := duration_work_not_expanded st1 \<or> regular_work,
                    urls_discovered := saturating_add (saturating_add (urls_discovered st1) links) targetful\<rparr>
      in if regular_work \<or> targetful > 0 \<or> targetless_pagination_count ob > 0 then
           tv_push_diagnostic \<lparr>pd_code = ''PREVIEW_TIME_BUDGET_LINKS_NOT_EXPANDED'',
             pd_message = ''Observed links or pagination were not expanded after the duration boundary.'',
             pd_observed = Some (links + targetful), pd_threshold = Some 0\<rparr> st2
         else st2)"

definition expand_observed ::
  "'u lab_env \<Rightarrow> traversal_io \<Rightarrow> QueueEntry \<Rightarrow> PageObservation \<Rightarrow> string \<Rightarrow> PageTypeMatchEvidence option
    \<Rightarrow> PreviewBudgetHit list \<Rightarrow> bool \<Rightarrow> 'u SemanticTraversal \<Rightarrow> DiscoveryPreviewError + 'u SemanticTraversal" where
  "expand_observed env io entry ob canonical page_match hits source_can_expand st =
     (let st1 = (if source_can_expand \<and> targetless_pagination_count ob > 0
                 then record_pagination_truncation (targetless_pagination_count ob)
                   ''Observed pagination did not provide a usable target URL.''
                   ''PREVIEW_PAGINATION_TARGET_UNAVAILABLE'' st
                 else st);
          (elapsed, st2) = elapsed_millis io st1
      in if elapsed \<ge> el_max_duration_ms (tv_limits st2) then
           Inr (skip_expansion ob source_can_expand (hit_time_budget io st2))
         else if source_can_expand \<and> targetful_pagination_count ob > 0 \<and> hits \<noteq> [] then
           Inr (record_pagination_truncation (targetful_pagination_count ob)
             ''Observed pagination was not expanded because the observed page reached a bounded PageType limit.''
             ''PREVIEW_PAGINATION_NOT_EXPANDED'' st2)
         else if hits = [] \<and> source_can_expand \<and> canonical \<notin> expanded st2 then
           (case page_match of
              None \<Rightarrow> Inr st2
            | Some source_match \<Rightarrow> expand_page env io entry ob
                \<lparr>src_requested = qe_requested_url entry, src_final_url = final_url ob, src_canonical = canonical\<rparr>
                source_match st2)
         else Inr st2)"

definition process_observation ::
  "'u lab_env \<Rightarrow> traversal_io \<Rightarrow> QueueEntry \<Rightarrow> PageObservation \<Rightarrow> u64 \<Rightarrow> 'u SemanticTraversal
    \<Rightarrow> DiscoveryPreviewError + 'u SemanticTraversal" where
  "process_observation env io entry ob bytes st =
     res_bind (accept_observation env entry ob bytes st) (\<lambda>(final, st1).
     let canonical = url_as_str (lab_api env) (res_canonical_url final);
         final_was_sampled = (canonical \<in> sampled st1)
     in res_bind (follow_redirect entry canonical st1) (\<lambda>st2.
        res_bind (traversal_scope env st2 (res_canonical_url final)) (\<lambda>scope.
        let (page_match, st3) = observed_match env final scope st2;
            (hits, st4) = sample_page entry canonical page_match st3;
            page_state = observed_state scope page_match;
            st5 = (if final_was_sampled then st4 else count_scope page_state st4);
            st6 = push_page
              \<lparr>pp_requested_url = qe_requested_url entry, pp_requested_canonical_url = qe_canonical_url entry,
               pp_final_url = final_url ob, pp_canonical_url = Some canonical, pp_depth = qe_depth entry,
               pp_state = page_state, pp_seed_ids = qe_seed_ids entry, pp_scope = scope,
               pp_page_type_match = page_match, pp_downloaded_bytes = Some bytes, pp_robots_reason = None,
               pp_diagnostic = None, pp_budget_hits = hits\<rparr>
              (observe_seeds (qe_seed_ids entry) page_match page_state hits st5)
        in expand_observed env io entry ob canonical page_match hits
             (dp_is_in_scope scope \<and> is_matched page_match) st6)))"

section \<open>Outcomes and steps\<close>

definition entry_scope ::
  "'u lab_env \<Rightarrow> QueueEntry \<Rightarrow> 'u SemanticTraversal \<Rightarrow> DiscoveryPreviewError + DomainScopeEvidence option" where
  "entry_scope env entry st =
     (case url_parse (lab_api env) (qe_canonical_url entry) of
        None \<Rightarrow> Inr None
      | Some u \<Rightarrow> traversal_scope env st u)"

definition unobserved_page ::
  "QueueEntry \<Rightarrow> PreviewUrlState \<Rightarrow> DomainScopeEvidence option \<Rightarrow> string option \<Rightarrow> TestDiagnostic option
    \<Rightarrow> DiscoveryPreviewPage" where
  "unobserved_page entry s scope reason diag =
     \<lparr>pp_requested_url = qe_requested_url entry, pp_requested_canonical_url = qe_canonical_url entry,
      pp_final_url = None, pp_canonical_url = Some (qe_canonical_url entry), pp_depth = qe_depth entry,
      pp_state = s, pp_seed_ids = qe_seed_ids entry, pp_scope = scope, pp_page_type_match = None,
      pp_downloaded_bytes = None, pp_robots_reason = reason, pp_diagnostic = diag, pp_budget_hits = []\<rparr>"

fun process_outcome ::
  "'u lab_env \<Rightarrow> traversal_io \<Rightarrow> QueueEntry \<Rightarrow> DiscoveryPreviewProviderOutcome \<Rightarrow> 'u SemanticTraversal
    \<Rightarrow> DiscoveryPreviewError + 'u SemanticTraversal" where
  "process_outcome env io entry (OutcomeRobotsExcluded reason) st =
     res_bind (validate_safe_text reason MAX_ROBOTS_REASON_CHARS) (\<lambda>_.
     let st1 = st\<lparr>robots_excluded := saturating_add (robots_excluded st) 1\<rparr> in
     res_bind (entry_scope env entry st1) (\<lambda>scope.
     Inr (push_page (unobserved_page entry RobotsExcludedState scope (Some reason) None)
       (update_seed_outcome (qe_seed_ids entry) RobotsExcludedState scope [] st1))))"
| "process_outcome env io entry (OutcomePageFailed diag) st =
     res_bind (dp_validate_diagnostic diag) (\<lambda>_.
     let st1 = st\<lparr>provider_errors := saturating_add (provider_errors st) 1\<rparr> in
     res_bind (entry_scope env entry st1) (\<lambda>scope.
     Inr (push_page (unobserved_page entry ProviderErrorState scope None (Some diag))
       (update_seed_outcome (qe_seed_ids entry) ProviderErrorState scope [] st1))))"
| "process_outcome env io entry (OutcomeInterrupted reason) st = Inl DpPersistedStateInvalid"
| "process_outcome env io entry (OutcomeObserved ob bytes) st = process_observation env io entry ob bytes st"

datatype SemanticTraversalStep =
    Processed "DiscoveryPreviewPage list" "DiscoveryPath list"
  | Complete
  | Interrupted DiscoveryPreviewInterruption

definition take_front :: "QueueEntry \<Rightarrow> 'u SemanticTraversal \<Rightarrow> 'u SemanticTraversal" where
  "take_front entry st = st\<lparr>tv_queue := tl (tv_queue st), queued := bm_remove (qe_canonical_url entry) (queued st)\<rparr>"

definition put_back :: "QueueEntry \<Rightarrow> 'u SemanticTraversal \<Rightarrow> 'u SemanticTraversal" where
  "put_back entry st = rebuild_queue (st\<lparr>queued := bm_insert (qe_canonical_url entry) entry (queued st)\<rparr>)"

definition process_entry ::
  "'u lab_env \<Rightarrow> traversal_io \<Rightarrow> QueueEntry \<Rightarrow> DiscoveryPreviewProviderOutcome \<Rightarrow> 'u SemanticTraversal
    \<Rightarrow> DiscoveryPreviewError + SemanticTraversalStep \<times> 'u SemanticTraversal" where
  "process_entry env io entry outcome st =
     (let (elapsed, st1) = elapsed_millis io st;
          st2 = (if elapsed \<ge> el_max_duration_ms (tv_limits st1) then hit_time_budget io st1 else st1)
      in res_bind (process_outcome env io entry outcome st2) (\<lambda>st3.
         Inr (Processed (drop (length (tv_pages st2)) (tv_pages st3)) (drop (length (tv_paths st2)) (tv_paths st3)), st3)))"

definition observe_entry ::
  "'u lab_env \<Rightarrow> traversal_io \<Rightarrow> QueueEntry \<Rightarrow> 'u SemanticTraversal
    \<Rightarrow> DiscoveryPreviewError + SemanticTraversalStep \<times> 'u SemanticTraversal" where
  "observe_entry env io entry st =
     res_bind (ok_or (checked_sub (el_max_downloaded_bytes (tv_limits st)) (consumed_bytes st)) DpBudgetOverflow) (\<lambda>remaining.
     let st1 = st\<lparr>observe_calls := Suc (observe_calls st)\<rparr> in
     res_bind (map_err dp_map_provider_error (io_observe io (observe_calls st)
         \<lparr>or_requested_url = qe_requested_url entry, remaining_download_bytes = remaining\<rparr>)) (\<lambda>outcome.
     case outcome of
       OutcomeInterrupted reason \<Rightarrow> Inr (Interrupted reason, put_back entry st1)
     | _ \<Rightarrow> process_entry env io entry outcome st1))"

definition step ::
  "'u lab_env \<Rightarrow> traversal_io \<Rightarrow> 'u SemanticTraversal
    \<Rightarrow> DiscoveryPreviewError + SemanticTraversalStep \<times> 'u SemanticTraversal" where
  "step env io st =
     (case tv_queue st of
        [] \<Rightarrow> Inr (Complete, st)
      | entry # _ \<Rightarrow>
          let (elapsed, st1) = elapsed_millis io st in
          if elapsed \<ge> el_max_duration_ms (tv_limits st1) then Inr (Complete, hit_time_budget io st1)
          else if consumed_bytes st1 \<ge> el_max_downloaded_bytes (tv_limits st1) then
            Inr (Complete, record_budget \<lparr>hit_kind = DownloadedBytesBudget, hit_transition_id = None,
              hit_page_type_id = None, hit_observed = consumed_bytes st1,
              hit_limit = el_max_downloaded_bytes (tv_limits st1)\<rparr> st1)
          else observe_entry env io entry (take_front entry st1))"

text \<open>The loop runs until a step is not \<open>Processed\<close>; \<open>None\<close> is a loop that never ends.\<close>

partial_function (option) traverse ::
  "'u lab_env \<Rightarrow> traversal_io \<Rightarrow> 'u SemanticTraversal \<Rightarrow> (DiscoveryPreviewError + 'u SemanticTraversal) option" where
  "traverse env io st =
     (case step env io st of
        Inl err \<Rightarrow> Some (Inl err)
      | Inr (Processed pages paths, st1) \<Rightarrow> traverse env io st1
      | Inr (_, st1) \<Rightarrow> Some (Inr st1))"

text \<open>A traversal over a frozen version: its roots are admitted once, in request order.\<close>

definition for_frozen_snapshot ::
  "'u lab_env \<Rightarrow> traversal_io \<Rightarrow> 'u CrawlerSemanticSnapshot \<Rightarrow> SeedId list \<Rightarrow> EffectiveDiscoveryPreviewLimits
    \<Rightarrow> DiscoveryPreviewError + 'u SemanticTraversal" where
  "for_frozen_snapshot env io snapshot ids limits =
     res_bind (context_from_snapshot env snapshot limits) (\<lambda>ctx.
     res_bind (select_seeds env ctx ids) (\<lambda>seeds.
     admit_roots env 0 seeds (traversal_new ctx ids (io_clock io 0) 1)))"

definition seed_evidence :: "'u SemanticTraversal \<Rightarrow> DiscoveryPreviewSeed list" where
  "seed_evidence st = tv_seeds st"

definition has_pending_work :: "'u SemanticTraversal \<Rightarrow> bool" where
  "has_pending_work st \<longleftrightarrow> tv_queue st \<noteq> []"

definition next_pending_canonical_url :: "'u SemanticTraversal \<Rightarrow> string option" where
  "next_pending_canonical_url st = (case tv_queue st of [] \<Rightarrow> None | e # _ \<Rightarrow> Some (qe_canonical_url e))"

text \<open>The states a run can be in.\<close>

inductive traversal_steps :: "'u lab_env \<Rightarrow> traversal_io \<Rightarrow> 'u SemanticTraversal \<Rightarrow> 'u SemanticTraversal \<Rightarrow> bool"
  for env io where
  steps_refl: "traversal_steps env io st st"
| steps_step: "traversal_steps env io st st1 \<Longrightarrow> step env io st1 = Inr (r, st2) \<Longrightarrow> traversal_steps env io st st2"

end
