(* ===== verification/Traversal_Invariant.thy ===== *)
theory Traversal_Invariant
  imports Traversal
begin

text \<open>
  The invariant of the semantic traversal: the frontier, the admitted, sampled and expanded
  identities and the budget counters stay consistent and within the limits of the frozen context, for
  every behaviour of the clock and of the provider.  Most operations only touch evidence and counters
  (\<open>core_of\<close> is unchanged), a few move the frontier.
\<close>

named_theorems frame_simps \<open>the part of the state an operation leaves alone\<close>

section \<open>What evidence and counters leave alone\<close>

definition frontier_of where
  "frontier_of st = (tv_context st, selected_seed_ids st, observe_calls st, tv_queue st, queued st, admitted st, seen st,
     sampled st, expanded st, page_type_scheduled st, (matching_urls st, unmatched_urls st, ambiguous_urls st,
     in_scope_urls st), consumed_bytes st, pages_sampled st, newly_enqueued_urls st)"

definition core_of where
  "core_of st = (frontier_of st, transition_page_counts st, transition_counts st)"

lemma core_of_eqD:
  assumes "core_of a = core_of b"
  shows "frontier_of a = frontier_of b" "transition_page_counts a = transition_page_counts b"
    "transition_counts a = transition_counts b"
  using assms by (simp_all add: core_of_def)

lemma frontier_of_eqD:
  assumes "frontier_of a = frontier_of b"
  shows "tv_context a = tv_context b" "selected_seed_ids a = selected_seed_ids b" "observe_calls a = observe_calls b"
    "tv_queue a = tv_queue b" "queued a = queued b" "admitted a = admitted b" "seen a = seen b"
    "sampled a = sampled b" "expanded a = expanded b" "page_type_scheduled a = page_type_scheduled b"
    "matching_urls a = matching_urls b" "unmatched_urls a = unmatched_urls b"
    "ambiguous_urls a = ambiguous_urls b" "in_scope_urls a = in_scope_urls b"
    "consumed_bytes a = consumed_bytes b" "pages_sampled a = pages_sampled b"
    "newly_enqueued_urls a = newly_enqueued_urls b"
  using assms by (simp_all add: frontier_of_def)

lemmas core_simps = core_of_def frontier_of_def

lemma record_budget_core [frame_simps]: "core_of (record_budget h st) = core_of st"
  by (simp add: record_budget_def core_simps)

lemma tv_push_diagnostic_core [frame_simps]: "core_of (tv_push_diagnostic d st) = core_of st"
  by (simp add: tv_push_diagnostic_def core_simps)

lemma pagination_truncation_core [frame_simps]: "core_of (record_pagination_truncation n m c st) = core_of st"
  by (simp add: record_pagination_truncation_def tv_push_diagnostic_def core_simps)

lemma elapsed_millis_core [frame_simps]: "core_of (snd (elapsed_millis io st)) = core_of st"
  by (simp add: elapsed_millis_def core_simps)

lemma hit_time_budget_core [frame_simps]: "core_of (hit_time_budget io st) = core_of st"
  by (simp add: hit_time_budget_def elapsed_millis_def record_budget_def Let_def core_simps)

lemma budget_hit_core [frame_simps]: "core_of (snd (budget_hit kind t p n l st)) = core_of st"
  by (simp add: budget_hit_def record_budget_def Let_def core_simps)

lemma exclusion_hit_core [frame_simps]: "core_of (snd (budget_hit_from_exclusion x t c st)) = core_of st"
  by (simp add: budget_hit_from_exclusion_def budget_hit_def record_budget_def Let_def core_simps
      split: DiscoveryBudgetExclusion.split)

lemma hits_core:
  "budget_hit kind t p n l st = (h, st') \<Longrightarrow> core_of st' = core_of st"
  "budget_hit_from_exclusion x tr c st = (h, st') \<Longrightarrow> core_of st' = core_of st"
  "elapsed_millis io st = (e, st') \<Longrightarrow> core_of st' = core_of st"
  using budget_hit_core [of kind t p n l st] exclusion_hit_core [of x tr c st] elapsed_millis_core [of io st]
  by simp_all

lemma count_scope_core [frame_simps]: "core_of (count_scope s st) = core_of st"
  by (cases s) (simp_all add: count_scope_def core_simps)

lemma push_seed_core [frame_simps]: "core_of (push_seed env seed s d scope st) = core_of st"
  by (simp add: push_seed_def core_simps)

lemma push_path_core [frame_simps]: "core_of (push_path p st) = core_of st"
  by (simp add: push_path_def core_simps)

lemma push_page_core [frame_simps]: "core_of (push_page p st) = core_of st"
  by (simp add: push_page_def core_simps)

lemma seed_outcome_core [frame_simps]:
  "core_of (update_seed_outcome ids s scope hits st) = core_of st"
  "core_of (observe_seeds ids m s hits st) = core_of st"
  by (simp_all add: update_seed_outcome_def observe_seeds_def core_simps)

lemma counters_core [frame_simps]:
  "core_of (st\<lparr>duplicates_prevented := n\<rparr>) = core_of st"
  "core_of (st\<lparr>urls_discovered := n\<rparr>) = core_of st"
  "core_of (st\<lparr>peak_new_from_page := n\<rparr>) = core_of st"
  "core_of (st\<lparr>robots_excluded := n\<rparr>) = core_of st"
  "core_of (st\<lparr>provider_errors := n\<rparr>) = core_of st"
  "core_of (st\<lparr>page_type_sampled := c\<rparr>) = core_of st"
  by (simp_all add: core_simps)

lemma skip_expansion_core [frame_simps]: "core_of (skip_expansion ob e st) = core_of st"
  by (simp add: skip_expansion_def record_pagination_truncation_def tv_push_diagnostic_def Let_def core_simps)

lemma drop_edge_core [frame_simps]: "core_of (drop_edge link already st) = core_of st"
  by (simp add: drop_edge_def Let_def frame_simps)

lemma final_hit_core [frame_simps]: "core_of (snd (actual_final_page_type_budget_hit entry p st)) = core_of st"
  by (simp add: actual_final_page_type_budget_hit_def budget_hit_def record_budget_def Let_def core_simps
      split: option.split)

lemma out_of_scope_core:
  "expand_out_of_scope env entry source m link original result scope unique st = Inr st' \<Longrightarrow> core_of st' = core_of st"
  by (auto simp: expand_out_of_scope_def Let_def result_simps frame_simps)

lemma invalid_path_core:
  "res_bind (invalid_path env entry source m link) (\<lambda>p. Inr (False, push_path p st)) = Inr (new, st')
     \<Longrightarrow> \<not> new \<and> core_of st' = core_of st"
  by (auto simp: result_simps frame_simps)

section \<open>The invariant\<close>

definition context_ok :: "'u SemanticTraversal \<Rightarrow> bool" where
  "context_ok st \<longleftrightarrow> distinct (map tr_id (pc_transitions (tv_context st)))"

definition sets_ok :: "'u SemanticTraversal \<Rightarrow> bool" where
  "sets_ok st \<longleftrightarrow>
     finite (seen st) \<and> admitted st \<subseteq> seen st \<and> sampled st \<subseteq> admitted st \<and> expanded st \<subseteq> sampled st
     \<and> card (admitted st) \<le> unat (el_max_pages (tv_limits st))
     \<and> newly_enqueued_urls st = set_len (admitted st) \<and> pages_sampled st = set_len (sampled st)
     \<and> consumed_bytes st \<le> el_max_downloaded_bytes (tv_limits st)"

definition entry_ok :: "'u SemanticTraversal \<Rightarrow> QueueEntry \<Rightarrow> bool" where
  "entry_ok st e \<longleftrightarrow>
     qe_depth e \<le> el_max_depth (tv_limits st)
     \<and> qe_seed_ids e \<noteq> [] \<and> distinct (qe_seed_ids e) \<and> set (qe_seed_ids e) \<subseteq> set (selected_seed_ids st)
     \<and> (\<forall>p. qe_target_page_type_id e = Some p \<longrightarrow> p \<in> pt_id ` set (pc_page_types (tv_context st)))
     \<and> (\<forall>i. qe_transition_id e = Some i \<longrightarrow> i \<in> tr_id ` set (pc_transitions (tv_context st)))"

definition queue_ok :: "'u SemanticTraversal \<Rightarrow> bool" where
  "queue_ok st \<longleftrightarrow>
     bm_invar (queued st)
     \<and> (\<forall>(k, e) \<in> set (queued st). qe_canonical_url e = k \<and> k \<in> admitted st \<and> k \<notin> sampled st \<and> entry_ok st e)"

definition page_types_ok :: "'u SemanticTraversal \<Rightarrow> bool" where
  "page_types_ok st \<longleftrightarrow>
     (\<forall>p b. Option.bind (guardrail_page_type (cv_guardrails (tv_version st)) p) page_budget = Some b
        \<longrightarrow> lookup_or_zero (page_type_scheduled st) p \<le> b)"

text \<open>The counters of the transitions: within their limits, and exactly the transitions of the version
  have one.\<close>

definition transitions_ok :: "'u SemanticTraversal \<Rightarrow> bool" where
  "transitions_ok st \<longleftrightarrow>
     bm_invar (transition_counts st) \<and> bm_invar (transition_page_counts st)
     \<and> fst ` set (transition_counts st) = tr_id ` set (pc_transitions (tv_context st))
     \<and> (\<forall>(k, n) \<in> set (transition_counts st). rc_transition_id n = k \<and> finite (source_pages n)
          \<and> (\<exists>t \<in> set (pc_transitions (tv_context st)). tr_id t = k \<and> rc_name n = tr_name t))
     \<and> (\<forall>(k, c) \<in> set (transition_page_counts st). fst k \<in> tr_id ` set (pc_transitions (tv_context st)))
     \<and> (\<forall>t \<in> set (pc_transitions (tv_context st)).
        (\<forall>source. lookup_or_zero (transition_page_counts st) (tr_id t, source) \<le> max_links_per_source_page (tr_budget t))
        \<and> (\<forall>n l. bm_lookup (transition_counts st) (tr_id t) = Some n
             \<longrightarrow> transition_total_limit (tv_context st) (tr_id t) = Some l \<longrightarrow> eligible_edges n \<le> l))"

definition matches_ok :: "'u SemanticTraversal \<Rightarrow> bool" where
  "matches_ok st \<longleftrightarrow>
     finite (in_scope_urls st) \<and> matching_urls st = in_scope_urls st \<and> unmatched_urls st \<subseteq> in_scope_urls st
     \<and> ambiguous_urls st \<subseteq> in_scope_urls st \<and> unmatched_urls st \<inter> ambiguous_urls st = {}"

lemmas inv_parts = context_ok_def sets_ok_def entry_ok_def queue_ok_def page_types_ok_def transitions_ok_def matches_ok_def

definition frontier_inv :: "'u SemanticTraversal \<Rightarrow> bool" where
  "frontier_inv st \<longleftrightarrow> context_ok st \<and> sets_ok st \<and> queue_ok st \<and> page_types_ok st \<and> matches_ok st"

text \<open>\<open>synced\<close>: the queue is the frontier in its order; it is rebuilt at the end of an expansion.\<close>

definition synced :: "'u SemanticTraversal \<Rightarrow> bool" where
  "synced st \<longleftrightarrow> tv_queue st = frontier_order (queued st)"

definition traversal_inv :: "'u SemanticTraversal \<Rightarrow> bool" where
  "traversal_inv st \<longleftrightarrow> frontier_inv st \<and> transitions_ok st"

lemma frontier_inv_frame: "frontier_of a = frontier_of b \<Longrightarrow> frontier_inv a = frontier_inv b"
  using frontier_of_eqD [of a b] by (simp only: frontier_inv_def inv_parts)

lemma synced_frame: "frontier_of a = frontier_of b \<Longrightarrow> synced a = synced b"
  using frontier_of_eqD [of a b] by (simp only: synced_def)

lemma transitions_ok_frame:
  assumes "core_of a = core_of b"
  shows "transitions_ok a = transitions_ok b"
  unfolding transitions_ok_def
  by (simp only: core_of_eqD [OF assms] frontier_of_eqD(1) [OF core_of_eqD(1) [OF assms]])

lemma traversal_inv_frame:
  assumes "core_of a = core_of b"
  shows "traversal_inv a = traversal_inv b"
  by (simp only: traversal_inv_def transitions_ok_frame [OF assms] frontier_inv_frame [OF core_of_eqD(1) [OF assms]])

lemma rebuild_synced [simp]: "synced (rebuild_queue st)"
  by (simp add: synced_def rebuild_queue_def)

lemma rebuild_inv [simp]: "traversal_inv (rebuild_queue st) = traversal_inv st"
  by (simp add: traversal_inv_def frontier_inv_def inv_parts rebuild_queue_def)

lemma rebuild_fields [simp]:
  "tv_context (rebuild_queue st) = tv_context st" "queued (rebuild_queue st) = queued st"
  "admitted (rebuild_queue st) = admitted st" "seen (rebuild_queue st) = seen st"
  "sampled (rebuild_queue st) = sampled st" "expanded (rebuild_queue st) = expanded st"
  "selected_seed_ids (rebuild_queue st) = selected_seed_ids st" "observe_calls (rebuild_queue st) = observe_calls st"
  by (simp_all add: rebuild_queue_def)

lemma sets_finite:
  assumes "sets_ok st"
  shows "finite (seen st)" "finite (admitted st)" "finite (sampled st)" "finite (expanded st)"
  using assms by (auto simp: sets_ok_def intro: finite_subset)

lemma unat_bound: "unat w < 2 ^ LENGTH('a)" for w :: "'a::len word"
  by (rule unsigned_less)

lemma set_len_room:
  assumes "sets_ok st" and "\<not> set_len (admitted st) \<ge> el_max_pages (tv_limits st)"
  shows "card (admitted st) < unat (el_max_pages (tv_limits st))"
proof -
  have "card (admitted st) < 2 ^ LENGTH(64)"
    using assms(1) unat_bound [of "el_max_pages (tv_limits st)"] by (simp add: sets_ok_def)
  then have "unat (set_len (admitted st)) = card (admitted st)"
    by (simp add: set_len_def unat_of_nat take_bit_nat_eq_self_iff)
  with assms(2) show ?thesis by (simp add: word_le_nat_alt)
qed

section \<open>Transitions\<close>

lemma saturating_add_one_le: "a < b \<Longrightarrow> saturating_add a 1 \<le> b" for a b :: "'a::len word"
  by (simp add: word_le_nat_alt word_less_nat_alt unat_saturating_add)

lemma add_one_le: "a < b \<Longrightarrow> a + 1 \<le> b" for a b :: "'a::len word"
  by (metis inc_le)

lemma bump_lookup: "lookup_or_zero (bump k m) k' = (if k' = k then lookup_or_zero m k + 1 else lookup_or_zero m k')"
  by (simp add: lookup_or_zero_def bump_def bm_insert_lookup)

lemma allowed_links:
  assumes "evaluate_budget ev c = Inr Allowed" and "ev_transition ev = Some t"
  shows "transition_links_on_source_page c < max_links_per_source_page t"
  using assms by (auto simp: evaluate_budget_def transition_checks_def Let_def result_simps not_le
      split: if_splits option.splits)

lemma set_bm_insert:
  "bm_invar m \<Longrightarrow> set (bm_insert k v m) = insert (k, v) {p \<in> set m. fst p \<noteq> k}"
proof (induction k v m rule: bm_insert.induct)
  case (2 k v a b m)
  then have "\<forall>p \<in> set m. a < fst p" by auto
  with 2 show ?case by (auto dest: order.strict_trans)
qed simp

text \<open>One more use of \<open>t\<close> from this source page fits its limits.\<close>

definition transition_room :: "DiscoveryTransition \<Rightarrow> string \<Rightarrow> 'u SemanticTraversal \<Rightarrow> bool" where
  "transition_room t source st \<longleftrightarrow>
     lookup_or_zero (transition_page_counts st) (tr_id t, source) < max_links_per_source_page (tr_budget t)
     \<and> (\<forall>n l. bm_lookup (transition_counts st) (tr_id t) = Some n
          \<longrightarrow> transition_total_limit (tv_context st) (tr_id t) = Some l \<longrightarrow> eligible_edges n < l)"

lemma check_transition_budget_ok:
  assumes "check_transition_budget io entry source t m st = Inr (hit, st')"
  shows "core_of st' = core_of st" and "hit = None \<Longrightarrow> transition_room t source st'"
proof -
  obtain elapsed st1 where clock: "elapsed_millis io st = (elapsed, st1)" by force
  then have core: "core_of st1 = core_of st" using elapsed_millis_core [of io st] by simp
  have "core_of st' = core_of st \<and> (hit = None \<longrightarrow> transition_room t source st')"
  proof (cases "el_max_pages (tv_limits st) \<le> set_len (admitted st)")
    case True
    with assms show ?thesis
      by (auto simp: check_transition_budget_def Let_def split: prod.split_asm dest: hits_core)
  next
    case False
    let ?c = "transition_candidate entry source t m elapsed st1"
    from assms clock False obtain semantic where ev: "evaluate_budget (semantic_evaluator st1 t) ?c = Inr semantic"
      by (auto simp: check_transition_budget_def Let_def result_simps)
    show ?thesis
    proof (cases semantic)
      case (Excluded x)
      with assms clock False ev show ?thesis
        by (auto simp: check_transition_budget_def Let_def core split: prod.split_asm dest!: hits_core)
    next
      case Allowed
      with assms clock False ev obtain limit where
        limit: "transition_total_limit (tv_context st1) (tr_id t) = Some limit"
        by (auto simp: check_transition_budget_def Let_def result_simps)
      show ?thesis
      proof (cases "limit \<le> transition_total_links ?c")
        case True
        with assms clock False ev Allowed limit show ?thesis
          by (auto simp: check_transition_budget_def Let_def core split: prod.split_asm dest!: hits_core)
      next
        case below: False
        with assms clock False ev Allowed limit have "hit = None \<and> st' = st1"
          by (auto simp: check_transition_budget_def Let_def)
        moreover have "transition_room t source st1"
          using allowed_links [of "semantic_evaluator st1 t" ?c "tr_budget t"] ev Allowed limit below
          by (auto simp: transition_room_def transition_candidate_def semantic_evaluator_def not_le)
        ultimately show ?thesis using core by simp
      qed
    qed
  qed
  then show "core_of st' = core_of st" and "hit = None \<Longrightarrow> transition_room t source st'" by simp_all
qed

lemma consume_frontier: "frontier_of (consume_transition t source st) = frontier_of st"
  by (simp add: consume_transition_def Let_def frontier_of_def split: option.split)

lemma distinct_map_unique:
  "distinct (map f xs) \<Longrightarrow> x \<in> set xs \<Longrightarrow> y \<in> set xs \<Longrightarrow> f x = f y \<longleftrightarrow> x = y"
  by (auto simp: distinct_map inj_on_def)

lemma consume_transitions_ok:
  assumes "transitions_ok st" and "transition_room t source st" and "context_ok st"
    and "t \<in> set (pc_transitions (tv_context st))"
  shows "transitions_ok (consume_transition t source st)"
proof -
  let ?st = "consume_transition t source st"
  let ?ts = "set (pc_transitions (tv_context st))"
  have same: "tr_id u = tr_id t \<longleftrightarrow> u = t" if "u \<in> ?ts" for u
    using assms(3,4) that by (simp add: context_ok_def distinct_map_unique)
  from assms(1) have maps: "bm_invar (transition_counts st)" "bm_invar (transition_page_counts st)"
    by (simp_all add: transitions_ok_def)
  obtain n where n: "bm_lookup (transition_counts st) (tr_id t) = Some n"
  proof (cases "bm_lookup (transition_counts st) (tr_id t)")
    case None
    then have "tr_id t \<notin> tr_id ` ?ts" using assms(1) by (simp add: bm_lookup_None bm_keys_def transitions_ok_def)
    with assms(4) show ?thesis by simp
  qed (rule that)
  then have mem: "(tr_id t, n) \<in> set (transition_counts st)" by (rule bm_lookup_mem)
  define n' where "n' = n\<lparr>eligible_edges := saturating_add (eligible_edges n) 1, source_pages := insert source (source_pages n)\<rparr>"
  have st: "tv_context ?st = tv_context st" "transition_counts ?st = bm_insert (tr_id t) n' (transition_counts st)"
      "transition_page_counts ?st = bump (tr_id t, source) (transition_page_counts st)"
    using n by (simp_all add: consume_transition_def n'_def Let_def)
  have "rc_transition_id n' = tr_id t \<and> finite (source_pages n') \<and> (\<exists>u \<in> ?ts. tr_id u = tr_id t \<and> rc_name n' = tr_name u)"
    using assms(1) mem by (auto simp: transitions_ok_def n'_def)
  moreover have "bm_invar (transition_counts ?st)" "bm_invar (transition_page_counts ?st)"
      "fst ` set (transition_counts ?st) = tr_id ` ?ts"
    using maps assms(1,4) by (auto simp: st bump_def bm_insert_invar keys_bm_insert transitions_ok_def)
  moreover have "\<forall>(k, c) \<in> set (transition_page_counts ?st). fst k \<in> tr_id ` ?ts"
    using maps assms(1,4) by (auto simp: st bump_def set_bm_insert transitions_ok_def)
  moreover have "lookup_or_zero (transition_page_counts ?st) (tr_id u, s) \<le> max_links_per_source_page (tr_budget u)"
    if "u \<in> ?ts" for u s
    using assms(1,2) that same [OF that]
    by (auto simp: st bump_lookup add_one_le transitions_ok_def transition_room_def)
  moreover have "eligible_edges m \<le> l"
    if "u \<in> ?ts" "bm_lookup (transition_counts ?st) (tr_id u) = Some m"
      "transition_total_limit (tv_context st) (tr_id u) = Some l" for u m l
    using assms(1,2) that same [OF that(1)] n
    by (auto simp: st bm_insert_lookup n'_def saturating_add_one_le transitions_ok_def transition_room_def split: if_splits)
  ultimately show ?thesis
    using assms(1) maps(1) unfolding transitions_ok_def st(1) by (auto simp: st(2) set_bm_insert)
qed

lemma admit_depth_ok:
  assumes "admit_depth entry source t st = Inr (hit, depth, st')"
  shows "frontier_of st' = frontier_of st"
    and "depth = Some d \<Longrightarrow> d \<le> el_max_depth (tv_limits st)"
    and "transitions_ok st \<Longrightarrow> transition_room t source st \<Longrightarrow> context_ok st
           \<Longrightarrow> t \<in> set (pc_transitions (tv_context st)) \<Longrightarrow> transitions_ok st'"
proof -
  have budget: "frontier_of (record_budget h st) = frontier_of st" for h
    using core_of_eqD(1) [OF record_budget_core] .
  show "frontier_of st' = frontier_of st"
    using assms by (auto simp: admit_depth_def result_simps Let_def consume_frontier budget split: if_splits)
  show "depth = Some d \<Longrightarrow> d \<le> el_max_depth (tv_limits st)"
    using assms by (auto simp: admit_depth_def result_simps Let_def not_less split: if_splits)
  show "transitions_ok st'" if "transitions_ok st" "transition_room t source st" "context_ok st"
      "t \<in> set (pc_transitions (tv_context st))"
    using assms that consume_transitions_ok [OF that]
    by (auto simp: admit_depth_def result_simps Let_def transitions_ok_frame [OF record_budget_core] split: if_splits)
qed

lemma evaluate_transition_ok:
  assumes "evaluate_transition io entry source link m t st = Inr (evaluation, depth, st')"
    and "transitions_ok st" "context_ok st" "t \<in> set (pc_transitions (tv_context st))"
  shows "frontier_of st' = frontier_of st \<and> transitions_ok st' \<and> (\<forall>d. depth = Some d \<longrightarrow> d \<le> el_max_depth (tv_limits st))"
proof (cases "link_selector_of link = Some (link_selector t) \<and> targets m t \<and> url_constraints t = None")
  case False
  then show ?thesis using assms(1,2) by (auto simp: evaluate_transition_def Let_def split: if_splits)
next
  case True
  with assms(1) obtain hit st1 where check: "check_transition_budget io entry source t m st = Inr (hit, st1)"
    by (auto simp: evaluate_transition_def Let_def res_bind_eq_Inr)
  note st1 = check_transition_budget_ok [OF check]
  then have ok: "transitions_ok st1" "context_ok st1" "tv_context st1 = tv_context st" "frontier_of st1 = frontier_of st"
    using assms(2,3) frontier_of_eqD(1) [OF core_of_eqD(1) [OF st1(1)]] core_of_eqD [OF st1(1)]
    by (simp_all add: transitions_ok_def context_ok_def)
  show ?thesis
  proof (cases hit)
    case (Some h)
    with assms(1) True check ok show ?thesis by (auto simp: evaluate_transition_def Let_def)
  next
    case None
    with assms(1) True check obtain depth_hit where "admit_depth entry source t st1 = Inr (depth_hit, depth, st')"
      by (auto simp: evaluate_transition_def Let_def res_bind_eq_Inr)
    from admit_depth_ok [OF this] show ?thesis
      using ok assms(4) st1(2) [OF None] by simp
  qed
qed

lemma evaluate_transitions_ok:
  assumes "evaluate_transitions io entry source link m ts st = Inr (evaluations, eligible, st')"
    and "transitions_ok st" "context_ok st" "set ts \<subseteq> set (pc_transitions (tv_context st))"
  shows "frontier_of st' = frontier_of st \<and> transitions_ok st'
    \<and> (\<forall>(t, d) \<in> set eligible. t \<in> set ts \<and> d \<le> el_max_depth (tv_limits st))"
  using assms
proof (induction ts arbitrary: st evaluations eligible)
  case (Cons t ts)
  from Cons.prems(1) obtain evaluation depth st1 evaluations' eligible' where
    one: "evaluate_transition io entry source link m t st = Inr (evaluation, depth, st1)"
    and rest: "evaluate_transitions io entry source link m ts st1 = Inr (evaluations', eligible', st')"
    and el: "eligible = (case depth of None \<Rightarrow> eligible' | Some d \<Rightarrow> (t, d) # eligible')"
    by (auto simp: res_bind_eq_Inr)
  from evaluate_transition_ok [OF one Cons.prems(2,3)] Cons.prems(4)
  have step: "frontier_of st1 = frontier_of st" "transitions_ok st1"
      "\<forall>d. depth = Some d \<longrightarrow> d \<le> el_max_depth (tv_limits st)" by simp_all
  then have ctx: "tv_context st1 = tv_context st" using frontier_of_eqD(1) [OF step(1)] by simp
  from Cons.IH [OF rest step(2)] have "frontier_of st' = frontier_of st1 \<and> transitions_ok st'
      \<and> (\<forall>(t, d) \<in> set eligible'. t \<in> set ts \<and> d \<le> el_max_depth (tv_limits st1))"
    using Cons.prems(3,4) ctx by (simp add: context_ok_def)
  with step ctx el show ?case by (auto split: option.splits)
qed simp

section \<open>Matching and admission\<close>

text \<open>What an expansion leaves alone.\<close>

definition steady :: "'u SemanticTraversal \<Rightarrow> 'u SemanticTraversal \<Rightarrow> bool" where
  "steady st st' \<longleftrightarrow> tv_context st' = tv_context st \<and> selected_seed_ids st' = selected_seed_ids st
     \<and> observe_calls st' = observe_calls st \<and> expanded st' = expanded st \<and> sampled st' = sampled st"

lemma steady_refl [simp]: "steady st st"
  by (simp add: steady_def)

lemma steady_trans: "steady a b \<Longrightarrow> steady b c \<Longrightarrow> steady a c"
  by (simp add: steady_def)

lemma steady_frontier: "frontier_of st' = frontier_of st \<Longrightarrow> steady st st'"
  using frontier_of_eqD [of st' st] by (simp add: steady_def)

lemma entry_ok_steady: "steady st st' \<Longrightarrow> entry_ok st' e = entry_ok st e"
  by (simp add: steady_def entry_ok_def)

lemma winner_known:
  assumes "winner_id (from_decision (resolve_page_type env u pts)) = Some p"
  shows "p \<in> pt_id ` set pts"
proof -
  obtain c where c: "resolve_page_type env u pts = Matched c" "p = cand_page_type_id c"
    using assms by (cases "resolve_page_type env u pts") (auto simp: winner_id_def from_candidate_def)
  from c(1) have "c \<in> set (List.map_filter (page_type_candidate env u) pts)"
    by (auto simp: resolve_page_type_def Let_def length_Suc_conv split: if_splits)
      (metis (no_types, lifting) filter_is_subset list.set_intros(1) set_sort subset_iff)
  then obtain pt where "pt \<in> set pts" "page_type_candidate env u pt = Some c"
    by (auto simp: List.map_filter_def)
  then show ?thesis using page_type_candidate_Some(1) [of env u pt c] c(2) by auto
qed

lemma register_match_fields:
  "tv_context (register_match u m b st) = tv_context st" "queued (register_match u m b st) = queued st"
  "admitted (register_match u m b st) = admitted st" "seen (register_match u m b st) = seen st"
  "tv_queue (register_match u m b st) = tv_queue st"
  "steady st (register_match u m b st)"
  by (simp_all add: register_match_def steady_def Let_def split: PageTypeMatchStatus.split option.split)

lemma register_match_inv:
  assumes "traversal_inv st"
  shows "traversal_inv (register_match u m b st)"
  using assms
  by (auto simp: register_match_def Let_def traversal_inv_def frontier_inv_def inv_parts
      split: PageTypeMatchStatus.split option.split)

lemma decide_admission_core:
  assumes "decide_admission m eligible st = (hit, adm, st')"
  shows "core_of st' = core_of st"
  using assms
  by (auto simp: decide_admission_def Let_def frame_simps
      split: option.split_asm if_split_asm prod.split_asm dest!: hits_core)

lemma admission_transition_Some:
  "admission_transition eligible depth = Some i \<Longrightarrow> i \<in> tr_id ` fst ` set eligible"
  by (force simp: admission_transition_def iter_min_Some)

lemma decide_admission_ok:
  assumes "decide_admission m eligible st = (hit, Some a, st')"
  shows "\<not> set_len (admitted st) \<ge> el_max_pages (tv_limits st)
    \<and> adm_depth a \<in> snd ` set eligible \<and> winner_id m = Some (adm_page_type_id a)
    \<and> (\<forall>i. adm_transition_id a = Some i \<longrightarrow> i \<in> tr_id ` fst ` set eligible)
    \<and> (\<forall>lim. Option.bind (guardrail_page_type (cv_guardrails (tv_version st)) (adm_page_type_id a)) page_budget = Some lim
        \<longrightarrow> lookup_or_zero (page_type_scheduled st) (adm_page_type_id a) < lim)"
proof -
  obtain depth winner where dw: "iter_min (map snd eligible) = Some depth" "winner_id m = Some winner"
    using assms by (auto simp: decide_admission_def split: option.split_asm)
  with assms have "a = \<lparr>adm_depth = depth, adm_page_type_id = winner, adm_transition_id = admission_transition eligible depth\<rparr>"
    and room: "\<not> set_len (admitted st) \<ge> el_max_pages (tv_limits st)"
    and budget: "case Option.bind (guardrail_page_type (cv_guardrails (tv_version st)) winner) page_budget of
        None \<Rightarrow> True | Some lim \<Rightarrow> lookup_or_zero (page_type_scheduled st) winner < lim"
    by (simp_all add: decide_admission_def Let_def split: if_split_asm prod.split_asm)
  moreover have "depth \<in> snd ` set eligible" using dw(1) by (simp add: iter_min_Some)
  ultimately show ?thesis using dw(2) admission_transition_Some by auto
qed

lemma queued_bound:
  assumes "queue_ok st" and "sets_ok st"
  shows "length (queued st) \<le> card (admitted st)"
proof -
  have "distinct (map fst (queued st))" using assms(1) by (simp add: queue_ok_def bm_invar_distinct)
  then have "length (queued st) = card (fst ` set (queued st))"
    by (metis distinct_card length_map list.set_map)
  also have "\<dots> \<le> card (admitted st)"
    using assms by (intro card_mono) (auto simp: sets_finite queue_ok_def)
  finally show ?thesis .
qed

lemma saturating_of_nat_Suc:
  assumes "Suc n < 2 ^ LENGTH('a)"
  shows "saturating_add (of_nat n) 1 = (of_nat (Suc n) :: 'a::len word)"
proof -
  have "unat (of_nat n :: 'a word) = n" "unat (of_nat (Suc n) :: 'a word) = Suc n"
    using assms by (simp_all only: unat_of_nat take_bit_nat_eq_self_iff) simp_all
  then show ?thesis
    using assms by (simp add: word_unat_eq_iff unat_saturating_add del: of_nat_Suc)
qed

lemma enqueue_target_inv:
  assumes "traversal_inv st" "entry_ok st entry" "canonical \<in> seen st" "canonical \<notin> admitted st"
    and "\<not> set_len (admitted st) \<ge> el_max_pages (tv_limits st)" "adm_depth a \<le> el_max_depth (tv_limits st)"
    and "adm_page_type_id a \<in> pt_id ` set (pc_page_types (tv_context st))"
    and "\<forall>i. adm_transition_id a = Some i \<longrightarrow> i \<in> tr_id ` set (pc_transitions (tv_context st))"
    and "\<forall>lim. Option.bind (guardrail_page_type (cv_guardrails (tv_version st)) (adm_page_type_id a)) page_budget = Some lim
           \<longrightarrow> lookup_or_zero (page_type_scheduled st) (adm_page_type_id a) < lim"
  shows "traversal_inv (enqueue_target entry source canonical pagination a st)"
    and "steady st (enqueue_target entry source canonical pagination a st)"
proof -
  let ?st = "enqueue_target entry source canonical pagination a st"
  from assms(1) have inv: "context_ok st" "sets_ok st" "queue_ok st" "page_types_ok st" "matches_ok st" "transitions_ok st"
    by (simp_all add: traversal_inv_def frontier_inv_def)
  note room = set_len_room [OF inv(2) assms(5)]
  show steady: "steady st ?st" by (simp add: steady_def enqueue_target_def Let_def)
  have newly: "saturating_add (set_len (admitted st)) 1 = set_len (insert canonical (admitted st))"
    using room unat_bound [of "el_max_pages (tv_limits st)"] assms(4) sets_finite [OF inv(2)]
    by (simp add: set_len_def saturating_of_nat_Suc del: of_nat_Suc)
  have "sets_ok ?st"
    using inv(2) assms(3,4) room sets_finite [OF inv(2)] newly
    by (auto simp: sets_ok_def enqueue_target_def Let_def)
  moreover have "queue_ok ?st"
  proof -
    define e where "e = \<lparr>qe_requested_url = canonical, qe_canonical_url = canonical, qe_depth = adm_depth a,
      qe_seed_ids = qe_seed_ids entry, qe_target_page_type_id = Some (adm_page_type_id a),
      qe_transition_id = adm_transition_id a, qe_parent_canonical_url = Some source, qe_pagination = pagination,
      qe_order = newly_enqueued_urls st + of_nat (length (selected_seed_ids st))\<rparr>"
    have e: "entry_ok st e" "qe_canonical_url e = canonical"
      using assms(2,6,7,8) by (simp_all add: entry_ok_def e_def)
    have fields: "queued ?st = bm_insert canonical e (queued st)" "admitted ?st = insert canonical (admitted st)"
        "sampled ?st = sampled st"
      by (simp_all add: enqueue_target_def Let_def e_def)
    have fresh: "canonical \<notin> sampled st" using inv(2) assms(4) by (auto simp: sets_ok_def)
    show ?thesis
      using inv(3) e fresh
      by (auto simp: queue_ok_def fields bm_insert_invar set_bm_insert entry_ok_steady [OF steady])
  qed
  moreover have "page_types_ok ?st"
    using inv(4) assms(9) by (auto simp: page_types_ok_def enqueue_target_def Let_def bump_lookup add_one_le)
  moreover have "context_ok ?st" "matches_ok ?st" "transitions_ok ?st"
    using inv by (simp_all add: context_ok_def matches_ok_def transitions_ok_def enqueue_target_def Let_def)
  ultimately show "traversal_inv ?st" by (simp add: traversal_inv_def frontier_inv_def)
qed

section \<open>Expansion\<close>

lemma replace_entry_inv:
  assumes "traversal_inv st" "bm_lookup (queued st) k = Some e" "entry_ok st e'" "qe_canonical_url e' = qe_canonical_url e"
  shows "traversal_inv (st\<lparr>queued := bm_insert k e' (queued st)\<rparr>)"
    and "steady st (st\<lparr>queued := bm_insert k e' (queued st)\<rparr>)"
proof -
  let ?st = "st\<lparr>queued := bm_insert k e' (queued st)\<rparr>"
  show steady: "steady st ?st" by (simp add: steady_def)
  have parts: "queue_ok st" "bm_invar (queued st)" using assms(1) by (auto simp: traversal_inv_def frontier_inv_def queue_ok_def)
  have "(k, e) \<in> set (queued st)" using assms(2) by (rule bm_lookup_mem)
  with parts(1) have "qe_canonical_url e = k" "k \<in> admitted st" "k \<notin> sampled st" by (auto simp: queue_ok_def)
  then have "queue_ok ?st"
    using parts assms(3,4) by (auto simp: queue_ok_def bm_insert_invar set_bm_insert entry_ok_steady [OF steady])
  with assms(1) show "traversal_inv ?st"
    by (simp add: traversal_inv_def frontier_inv_def context_ok_def sets_ok_def page_types_ok_def matches_ok_def transitions_ok_def)
qed

lemma queued_entry_ok:
  "traversal_inv st \<Longrightarrow> bm_lookup (queued st) k = Some e \<Longrightarrow> entry_ok st e"
  by (auto simp: traversal_inv_def frontier_inv_def queue_ok_def dest!: bm_lookup_mem)

lemma add_seed_ids_ok:
  "distinct held \<Longrightarrow> distinct (add_seed_ids held is)" "set (add_seed_ids held is) = set held \<union> set is"
  by (induction held "is" rule: add_seed_ids.induct) auto

lemma add_seed_ids_Nil: "held \<noteq> [] \<Longrightarrow> add_seed_ids held is \<noteq> []"
  by (induction held "is" rule: add_seed_ids.induct) auto

lemma steady_rebuild: "steady st (rebuild_queue st') = steady st st'"
  by (simp add: steady_def)

lemma merge_queued_inv:
  assumes "traversal_inv st" "set ids \<subseteq> set (selected_seed_ids st)"
  shows "traversal_inv (merge_queued_duplicate_provenance canonical ids depth st)
    \<and> steady st (merge_queued_duplicate_provenance canonical ids depth st)"
proof (cases "bm_lookup (queued st) canonical")
  case (Some e)
  note old = queued_entry_ok [OF assms(1) Some]
  define e' where "e' = e\<lparr>qe_seed_ids := add_seed_ids (qe_seed_ids e) ids,
      qe_depth := (case depth of None \<Rightarrow> qe_depth e | Some d \<Rightarrow> min d (qe_depth e))\<rparr>"
  have "entry_ok st e'" "qe_canonical_url e' = qe_canonical_url e"
    using old assms(2) add_seed_ids_ok(2) [of "qe_seed_ids e" ids]
    by (auto simp: entry_ok_def e'_def add_seed_ids_ok add_seed_ids_Nil min_def split: option.split)
  from replace_entry_inv [OF assms(1) Some this] show ?thesis
    using assms(1) Some
    by (simp add: merge_queued_duplicate_provenance_def e'_def [symmetric] Let_def steady_rebuild)
qed (simp add: merge_queued_duplicate_provenance_def assms(1))

lemma merge_root_inv:
  assumes "traversal_inv st" "i \<in> set (selected_seed_ids st)"
  shows "traversal_inv (merge_root_provenance canonical i st) \<and> steady st (merge_root_provenance canonical i st)"
proof (cases "bm_lookup (queued st) canonical")
  case (Some e)
  note old = queued_entry_ok [OF assms(1) Some]
  show ?thesis
  proof (cases "i \<in> set (qe_seed_ids e)")
    case False
    define e' where "e' = e\<lparr>qe_seed_ids := qe_seed_ids e @ [i]\<rparr>"
    have "entry_ok st e'" "qe_canonical_url e' = qe_canonical_url e"
      using old assms(2) False by (auto simp: entry_ok_def e'_def)
    from replace_entry_inv [OF assms(1) Some this] False show ?thesis
      using Some by (simp add: merge_root_provenance_def e'_def [symmetric] steady_rebuild)
  qed (simp add: merge_root_provenance_def Some assms(1))
qed (simp add: merge_root_provenance_def assms(1))

lemma frame_inv:
  assumes "core_of st' = core_of st"
  shows "traversal_inv st' = traversal_inv st" "steady st st'"
  using traversal_inv_frame [OF assms] steady_frontier [OF core_of_eqD(1) [OF assms]] by simp_all

text \<open>The operations keep the invariant and what an expansion leaves alone.\<close>

definition keeps :: "'u SemanticTraversal \<Rightarrow> 'u SemanticTraversal \<Rightarrow> bool" where
  "keeps st st' \<longleftrightarrow> (traversal_inv st \<longrightarrow> traversal_inv st') \<and> steady st st'"

lemma keeps_refl [simp]: "keeps st st"
  by (simp add: keeps_def)

lemma keeps_trans: "keeps a b \<Longrightarrow> keeps b c \<Longrightarrow> keeps a c"
  by (auto simp: keeps_def intro: steady_trans)

lemma keeps_frame: "core_of st' = core_of st \<Longrightarrow> keeps st st'"
  using frame_inv [of st' st] by (simp add: keeps_def)

lemma keeps_inv: "keeps st st' \<Longrightarrow> traversal_inv st \<Longrightarrow> traversal_inv st'"
  by (simp add: keeps_def)

lemma keeps_entry: "keeps st st' \<Longrightarrow> entry_ok st' e = entry_ok st e"
  by (simp add: keeps_def entry_ok_steady)

lemma see_inv:
  assumes "traversal_inv st"
  shows "traversal_inv (st\<lparr>seen := insert u (seen st)\<rparr>)"
proof -
  have "sets_ok st \<Longrightarrow> sets_ok (st\<lparr>seen := insert u (seen st)\<rparr>)" by (auto simp: sets_ok_def)
  with assms show ?thesis
    by (simp add: traversal_inv_def frontier_inv_def context_ok_def queue_ok_def entry_ok_def page_types_ok_def
        matches_ok_def transitions_ok_def)
qed

lemma keeps_see: "keeps st (st\<lparr>seen := insert u (seen st)\<rparr>)"
  by (simp add: keeps_def see_inv) (simp add: steady_def)

lemma expand_duplicate_keeps:
  assumes "expand_duplicate env entry source m link original result scope st = Inr st'" "entry_ok st entry" "traversal_inv st"
  shows "keeps st st'"
proof -
  let ?u = "url_as_str (lab_api env) (res_canonical_url result)"
  let ?st1 = "st\<lparr>duplicates_prevented := saturating_add (duplicates_prevented st) 1\<rparr>"
  have st1: "keeps st ?st1" by (rule keeps_frame) (simp add: frame_simps)
  have merged: "keeps st (merge_queued_duplicate_provenance ?u (qe_seed_ids entry) d ?st1)" for d
    using merge_queued_inv [of ?st1 "qe_seed_ids entry" ?u d] keeps_inv [OF st1 assms(3)] assms(2) st1
    by (auto simp: keeps_def entry_ok_def intro: steady_trans)
  from assms(1) obtain p st2 where "st' = push_path p st2"
    and "st2 = ?st1 \<or> (\<exists>d. st2 = merge_queued_duplicate_provenance ?u (qe_seed_ids entry) d ?st1)"
    by (auto simp: expand_duplicate_def Let_def res_bind_eq_Inr split: if_split_asm)
  then have "keeps st st2" "keeps st2 st'"
    using st1 merged keeps_frame [OF push_path_core] by auto
  then show ?thesis by (rule keeps_trans)
qed

text \<open>The admission decided for a unique target fits the frontier it is put in.\<close>

lemma admit_target_keeps:
  assumes "decide_admission m eligible st2 = (hit, Some a, st3)" and "core_of st5 = core_of st3"
    and "m = from_decision (resolve_page_type menv u (pc_page_types (tv_context st2)))"
    and "\<forall>(t, d) \<in> set eligible. t \<in> set (pc_transitions (tv_context st2)) \<and> d \<le> el_max_depth (tv_limits st2)"
    and "traversal_inv st2" "entry_ok st2 entry" "canonical \<in> seen st2" "canonical \<notin> admitted st2"
  shows "keeps st2 (enqueue_target entry source canonical pagination a st5)"
proof -
  have core: "core_of st5 = core_of st2" using decide_admission_core [OF assms(1)] assms(2) by simp
  note f = frontier_of_eqD [OF core_of_eqD(1) [OF core]]
  note a = decide_admission_ok [OF assms(1)]
  have inv5: "traversal_inv st5" "steady st2 st5" using frame_inv [OF core] assms(5) by simp_all
  have entry5: "entry_ok st5 entry" using entry_ok_steady [OF inv5(2)] assms(6) by simp
  have page_type: "adm_page_type_id a \<in> pt_id ` set (pc_page_types (tv_context st2))"
    using a unfolding assms(3) by (intro winner_known [of menv u]) simp
  have depth: "adm_depth a \<le> el_max_depth (tv_limits st2)" using a assms(4) by auto
  have transition: "\<forall>i. adm_transition_id a = Some i \<longrightarrow> i \<in> tr_id ` set (pc_transitions (tv_context st2))"
  proof (intro allI impI)
    fix i assume "adm_transition_id a = Some i"
    with a have "i \<in> tr_id ` fst ` set eligible" by blast
    then obtain t d where "(t, d) \<in> set eligible" "i = tr_id t" by auto
    with assms(4) show "i \<in> tr_id ` set (pc_transitions (tv_context st2))" by auto
  qed
  have placed: "canonical \<in> seen st5" "canonical \<notin> admitted st5"
      "\<not> set_len (admitted st5) \<ge> el_max_pages (tv_limits st5)" "adm_depth a \<le> el_max_depth (tv_limits st5)"
      "adm_page_type_id a \<in> pt_id ` set (pc_page_types (tv_context st5))"
    unfolding f by (fact assms(7) assms(8) a [THEN conjunct1] depth page_type)+
  have limits: "\<forall>i. adm_transition_id a = Some i \<longrightarrow> i \<in> tr_id ` set (pc_transitions (tv_context st5))"
      "\<forall>lim. Option.bind (guardrail_page_type (cv_guardrails (tv_version st5)) (adm_page_type_id a)) page_budget = Some lim
           \<longrightarrow> lookup_or_zero (page_type_scheduled st5) (adm_page_type_id a) < lim"
    unfolding f
    by (fact transition a [THEN conjunct2, THEN conjunct2, THEN conjunct2, THEN conjunct2])+
  note new = enqueue_target_inv [OF inv5(1) entry5 placed limits]
  then show ?thesis using inv5(2) by (auto simp: keeps_def intro: steady_trans)
qed

lemma expand_unique_keeps:
  assumes run: "expand_unique env io entry source m pt link original result scope st = Inr (new, st')"
    and entry: "entry_ok st entry" and inv: "traversal_inv st"
    and fresh: "url_as_str (lab_api env) (res_canonical_url result) \<in> seen st"
      "url_as_str (lab_api env) (res_canonical_url result) \<notin> admitted st"
  shows "keeps st st'"
proof -
  let ?u = "url_as_str (lab_api env) (res_canonical_url result)"
  define tm where "tm = from_decision (resolve_page_type (lab_matcher env) (res_canonical_url result)
      (pc_page_types (tv_context st)))"
  define st1 where "st1 = register_match ?u tm True st"
  have k1: "keeps st st1" "traversal_inv st1"
    using register_match_inv [OF inv] register_match_fields(6) [of st] by (simp_all add: keeps_def st1_def)
  have f1: "tv_context st1 = tv_context st" "?u \<in> seen st1" "?u \<notin> admitted st1"
    using fresh by (simp_all add: st1_def register_match_fields)
  from run obtain evaluations eligible st2 where ev:
    "evaluate_transitions io entry (src_canonical source) (tl_link link) tm (sorted_transitions_for st1 pt) st1
       = Inr (evaluations, eligible, st2)"
    by (auto simp: expand_unique_def Let_def res_bind_eq_Inr tm_def st1_def)
  obtain hit adm st3 where adm: "decide_admission tm eligible st2 = (hit, adm, st3)"
    by (cases "decide_admission tm eligible st2") auto
  have "set (sorted_transitions_for st1 pt) \<subseteq> set (pc_transitions (tv_context st1))"
    by (auto simp: sorted_transitions_for_def)
  then have t: "frontier_of st2 = frontier_of st1" "transitions_ok st2"
      "\<forall>(t, d) \<in> set eligible. t \<in> set (pc_transitions (tv_context st1)) \<and> d \<le> el_max_depth (tv_limits st1)"
    using evaluate_transitions_ok [OF ev] k1(2) by (auto simp: traversal_inv_def frontier_inv_def)
  note f2 = frontier_of_eqD [OF t(1)]
  have inv2: "traversal_inv st2"
    using k1(2) frontier_inv_frame [OF t(1)] t(2) by (simp add: traversal_inv_def)
  have k2: "keeps st st2"
    using inv2 k1 steady_frontier [OF t(1)] by (auto simp: keeps_def intro: steady_trans)
  define st4 where "st4 = (if is_pagination link \<and> target_state tm eligible evaluations hit = BudgetExcluded
      then record_pagination_truncation 1 ''Observed pagination was rejected by a bounded admission limit.''
        ''PREVIEW_PAGINATION_NOT_EXPANDED'' st3 else st3)"
  from run ev adm obtain p where
    st': "st' = (case adm of None \<Rightarrow> push_path p st4
      | Some a \<Rightarrow> enqueue_target entry (src_canonical source) ?u (is_pagination link) a (push_path p st4))"
    unfolding expand_unique_def Let_def tm_def [symmetric] st1_def [symmetric]
    by (auto simp: res_bind_eq_Inr st4_def split: option.split_asm)
  have core: "core_of (push_path p st4) = core_of st3"
    by (simp add: st4_def frame_simps)
  show ?thesis
  proof (cases adm)
    case None
    have "core_of (push_path p st4) = core_of st2" using decide_admission_core [OF adm] core by simp
    then have "keeps st2 (push_path p st4)" by (rule keeps_frame)
    with k2 have "keeps st (push_path p st4)" by (rule keeps_trans)
    then show ?thesis using st' None by simp
  next
    case (Some a)
    have "keeps st2 (enqueue_target entry (src_canonical source) ?u (is_pagination link) a (push_path p st4))"
      using adm Some t(3) inv2 f1 f2 keeps_entry [OF k2] entry
      by (intro admit_target_keeps [OF _ core]) (simp_all add: tm_def)
    with k2 show ?thesis using st' Some by (auto intro: keeps_trans)
  qed
qed

lemma expand_canonical_keeps:
  assumes run: "expand_canonical env io entry source m pt link original result st = Inr (new, st')"
    and entry: "entry_ok st entry" and inv: "traversal_inv st"
  shows "keeps st st'"
proof -
  let ?u = "url_as_str (lab_api env) (res_canonical_url result)"
  let ?st1 = "st\<lparr>seen := insert ?u (seen st)\<rparr>"
  have st1: "keeps st ?st1" by (rule keeps_see)
  note ok1 = keeps_inv [OF st1 inv] keeps_entry [OF st1, THEN iffD2, OF entry]
  obtain scope where scope: "traversal_scope env st (res_canonical_url result) = Inr scope"
    using run by (auto simp: expand_canonical_def Let_def res_bind_eq_Inr)
  have "keeps ?st1 st'"
  proof (cases "dp_is_in_scope scope")
    case False
    with run scope show ?thesis
      by (auto simp: expand_canonical_def Let_def res_bind_eq_Inr intro: keeps_frame dest!: out_of_scope_core)
  next
    case in_scope: True
    show ?thesis
    proof (cases "?u \<in> seen st")
      case True
      with run scope in_scope obtain d where
        "expand_duplicate env entry source m (tl_link link) original result scope ?st1 = Inr d" "st' = d"
        by (auto simp: expand_canonical_def Let_def res_bind_eq_Inr)
      with expand_duplicate_keeps [OF _ ok1(2,1)] show ?thesis by blast
    next
      case False
      with inv have "?u \<notin> admitted ?st1" by (auto simp: traversal_inv_def frontier_inv_def sets_ok_def)
      moreover from run scope in_scope False have
        "expand_unique env io entry source m pt link original result scope ?st1 = Inr (new, st')"
        by (simp add: expand_canonical_def Let_def)
      ultimately show ?thesis using ok1 by (intro expand_unique_keeps) simp_all
    qed
  qed
  with st1 show ?thesis by (rule keeps_trans)
qed

lemma expand_retained_keeps:
  assumes run: "expand_retained env io entry source m pt base link st = Inr (new, st')"
    and entry: "entry_ok st entry" and inv: "traversal_inv st"
  shows "keeps st st'"
proof -
  consider "res_bind (invalid_path env entry source m (tl_link link)) (\<lambda>p. Inr (False, push_path p st)) = Inr (new, st')"
    | original result where "expand_canonical env io entry source m pt link original result st = Inr (new, st')"
    using run by (auto simp: expand_retained_def Let_def split: option.split_asm if_split_asm sum.split_asm)
  then show ?thesis
  proof cases
    case 1
    from invalid_path_core [OF this] show ?thesis by (simp add: keeps_frame)
  next
    case 2
    from this entry inv show ?thesis by (rule expand_canonical_keeps)
  qed
qed

lemma expand_links_keeps:
  assumes "expand_links env io entry source m pt base links fresh truncated st = Inr (n, st')"
    and "entry_ok st entry" "traversal_inv st"
  shows "keeps st st'"
  using assms
proof (induction links arbitrary: fresh truncated st)
  case (Cons link links)
  let ?st1 = "st\<lparr>urls_discovered := saturating_add (urls_discovered st) 1\<rparr>"
  have st1: "keeps st ?st1" by (rule keeps_frame) (simp add: frame_simps)
  note ok1 = keeps_entry [OF st1, THEN iffD2, OF Cons.prems(2)] keeps_inv [OF st1 Cons.prems(3)]
  have "keeps ?st1 st'"
  proof (cases "length (tv_paths ?st1) \<ge> MAX_PREVIEW_PROVENANCE_EDGES")
    case True
    have drop: "keeps ?st1 (drop_edge link truncated ?st1)" by (rule keeps_frame) (simp add: frame_simps)
    from Cons.prems(1) True have
      "expand_links env io entry source m pt base links fresh True (drop_edge link truncated ?st1) = Inr (n, st')"
      by (simp add: Let_def)
    from Cons.IH [OF this] have "keeps (drop_edge link truncated ?st1) st'"
      using keeps_entry [OF drop] keeps_inv [OF drop] ok1 by blast
    with drop show ?thesis by (rule keeps_trans)
  next
    case False
    with Cons.prems(1) obtain new st2 fresh' where
      one: "expand_retained env io entry source m pt base link ?st1 = Inr (new, st2)"
      and rest: "expand_links env io entry source m pt base links fresh' truncated st2 = Inr (n, st')"
      by (auto simp: Let_def res_bind_eq_Inr)
    from expand_retained_keeps [OF one ok1] have two: "keeps ?st1 st2" .
    from Cons.IH [OF rest] have "keeps st2 st'" using keeps_entry [OF two] keeps_inv [OF two] ok1 by blast
    with two show ?thesis by (rule keeps_trans)
  qed
  with st1 show ?case by (rule keeps_trans)
qed simp

text \<open>Progress of one processed entry: a page is expanded for the first time, or the frontier does
  not grow.\<close>

definition advances :: "'u SemanticTraversal \<Rightarrow> 'u SemanticTraversal \<Rightarrow> bool" where
  "advances st st' \<longleftrightarrow>
     tv_context st' = tv_context st \<and> selected_seed_ids st' = selected_seed_ids st
     \<and> observe_calls st' = observe_calls st
     \<and> (expanded st' = expanded st \<and> length (queued st') \<le> length (queued st)
        \<or> (\<exists>u. u \<notin> expanded st \<and> expanded st' = insert u (expanded st)))"

definition settled :: "'u SemanticTraversal \<Rightarrow> 'u SemanticTraversal \<Rightarrow> bool" where
  "settled st st' \<longleftrightarrow> traversal_inv st' \<and> synced st' \<and> advances st st'"

lemma settled_frame:
  assumes "core_of st' = core_of st" "traversal_inv st" "synced st"
  shows "settled st st'"
  using frame_inv [OF assms(1)] synced_frame [OF core_of_eqD(1) [OF assms(1)]] assms(2,3)
    frontier_of_eqD [OF core_of_eqD(1) [OF assms(1)]]
  by (simp add: settled_def advances_def)

lemma expand_page_settled:
  assumes run: "expand_page env io entry ob source m st = Inr st'"
    and inv: "traversal_inv st" "synced st" and entry: "entry_ok st entry"
    and sampled: "src_canonical source \<in> sampled st"
  shows "settled st st'"
proof (cases "src_canonical source \<in> expanded st")
  case True
  with run inv show ?thesis by (simp add: expand_page_def settled_def advances_def)
next
  case False
  let ?st1 = "st\<lparr>expanded := insert (src_canonical source) (expanded st)\<rparr>"
  have "sets_ok st \<Longrightarrow> sets_ok ?st1" using sampled by (auto simp: sets_ok_def)
  with inv(1) have inv1: "traversal_inv ?st1"
    by (simp add: traversal_inv_def frontier_inv_def context_ok_def queue_ok_def entry_ok_def page_types_ok_def
        matches_ok_def transitions_ok_def)
  have entry1: "entry_ok ?st1 entry" using entry by (simp add: entry_ok_def)
  show ?thesis
  proof (cases "winner_id m")
    case None
    with run False inv1 inv(2) show ?thesis
      by (auto simp: expand_page_def Let_def settled_def advances_def synced_def)
  next
    case (Some pt)
    with run False obtain base fresh st2 where
      links: "expand_links env io entry source m pt base (page_links ob) 0 False ?st1 = Inr (fresh, st2)"
      and st': "st' = rebuild_queue (st2\<lparr>peak_new_from_page := max (peak_new_from_page st2) fresh\<rparr>)"
      by (auto simp: expand_page_def Let_def res_bind_eq_Inr)
    from expand_links_keeps [OF links entry1 inv1]
    have two: "traversal_inv st2" "steady ?st1 st2" using inv1 by (simp_all add: keeps_def)
    have frame: "core_of (st2\<lparr>peak_new_from_page := max (peak_new_from_page st2) fresh\<rparr>) = core_of st2"
      by (simp add: frame_simps)
    show ?thesis
      using two frame_inv(1) [OF frame] False
      by (auto simp: st' settled_def advances_def steady_def)
  qed
qed

section \<open>Redirects and samples\<close>

lemma accept_observation_ok:
  assumes "accept_observation env entry ob bytes st = Inr (final, st')" "traversal_inv st" "synced st"
  shows "settled st st' \<and> queued st' = queued st \<and> admitted st' = admitted st \<and> sampled st' = sampled st
    \<and> expanded st' = expanded st"
proof -
  from assms(1) obtain remaining total where
    "checked_sub (el_max_downloaded_bytes (tv_limits st)) (consumed_bytes st) = Some remaining" "bytes \<le> remaining"
    and total: "checked_add (consumed_bytes st) bytes = Some total" and st': "st' = st\<lparr>consumed_bytes := total\<rparr>"
    by (auto simp: accept_observation_def result_simps not_less split: if_split_asm)
  then have "unat total \<le> unat (el_max_downloaded_bytes (tv_limits st))"
    by (auto simp: checked_sub_def checked_add_Some word_le_nat_alt unat_sub split: if_split_asm)
  then have "sets_ok st \<Longrightarrow> sets_ok st'" by (simp add: st' sets_ok_def word_le_nat_alt)
  with assms(2,3) show ?thesis
    by (simp add: st' settled_def advances_def synced_def traversal_inv_def frontier_inv_def context_ok_def
        queue_ok_def entry_ok_def page_types_ok_def matches_ok_def transitions_ok_def)
qed

lemma queue_ok_subset:
  assumes "queue_ok st" "bm_invar (queued st')" "set (queued st') \<subseteq> set (queued st)"
    and "\<And>k. k \<in> fst ` set (queued st') \<Longrightarrow> k \<in> admitted st' \<and> k \<notin> sampled st'"
    and "tv_context st' = tv_context st" "selected_seed_ids st' = selected_seed_ids st"
  shows "queue_ok st'"
  unfolding queue_ok_def
proof (intro conjI ballI, rule assms(2), clarify)
  fix k e assume mem: "(k, e) \<in> set (queued st')"
  then have "qe_canonical_url e = k \<and> entry_ok st e" using assms(1,3) by (auto simp: queue_ok_def)
  moreover have "k \<in> admitted st' \<and> k \<notin> sampled st'" using mem by (intro assms(4)) force
  ultimately show "qe_canonical_url e = k \<and> k \<in> admitted st' \<and> k \<notin> sampled st' \<and> entry_ok st' e"
    by (simp add: entry_ok_def assms(5,6))
qed

lemma queue_keys:
  assumes "queue_ok st" "k \<in> fst ` set (queued st)"
  shows "k \<in> admitted st" "k \<notin> sampled st"
  using assms by (auto simp: queue_ok_def)

lemma queue_ok_invar: "queue_ok st \<Longrightarrow> bm_invar (queued st)"
  by (simp add: queue_ok_def)

text \<open>The entry taken from the frontier: still admitted, not sampled, no longer queued.\<close>

definition taken :: "'u SemanticTraversal \<Rightarrow> QueueEntry \<Rightarrow> bool" where
  "taken st entry \<longleftrightarrow> entry_ok st entry \<and> qe_canonical_url entry \<in> admitted st
     \<and> qe_canonical_url entry \<notin> sampled st \<and> qe_canonical_url entry \<notin> fst ` set (queued st)"

lemma unschedule_ok:
  assumes "unschedule target st = Inr st'"
  shows "st' = st\<lparr>page_type_scheduled := page_type_scheduled st'\<rparr>"
    and "page_types_ok st \<Longrightarrow> page_types_ok st'"
proof -
  have "target = None \<and> st' = st \<or> (\<exists>p n. bm_lookup (page_type_scheduled st) p = Some n \<and> 1 \<le> n
      \<and> st' = st\<lparr>page_type_scheduled := bm_insert p (n - 1) (page_type_scheduled st)\<rparr>)"
    using assms by (auto simp: unschedule_def result_simps checked_sub_def split: option.split_asm if_split_asm)
  then consider "st' = st" | p n where "bm_lookup (page_type_scheduled st) p = Some n" "1 \<le> n"
      "st' = st\<lparr>page_type_scheduled := bm_insert p (n - 1) (page_type_scheduled st)\<rparr>" by blast
  note cases = this
  from cases show "st' = st\<lparr>page_type_scheduled := page_type_scheduled st'\<rparr>" by cases simp_all
  from cases show "page_types_ok st \<Longrightarrow> page_types_ok st'"
  proof cases
    case 2
    have "n - 1 \<le> n" using 2(2) by (simp add: word_le_nat_alt unat_sub)
    then have "lookup_or_zero (bm_insert p (n - 1) (page_type_scheduled st)) q \<le> lookup_or_zero (page_type_scheduled st) q" for q
      using 2(1) by (simp add: lookup_or_zero_def bm_insert_lookup)
    then show "page_types_ok st \<Longrightarrow> page_types_ok st'"
      unfolding 2(3) page_types_ok_def by (auto intro: order.trans)
  qed simp
qed

lemma set_len_bound: "sets_ok st \<Longrightarrow> unat (set_len (admitted st)) = card (admitted st)"
proof -
  assume "sets_ok st"
  then have "card (admitted st) < 2 ^ LENGTH(64)"
    using unat_bound [of "el_max_pages (tv_limits st)"] by (simp add: sets_ok_def)
  then show ?thesis by (simp add: set_len_def unat_of_nat take_bit_nat_eq_self_iff)
qed

lemma set_len_minus:
  assumes "sets_ok st" "u \<in> admitted st"
  shows "saturating_sub (set_len (admitted st)) 1 = set_len (admitted st - {u})"
proof -
  have fin: "finite (admitted st)" using assms(1) by (rule sets_finite)
  then have card: "card (admitted st - {u}) = card (admitted st) - 1" "0 < card (admitted st)"
    using assms(2) by (auto simp: card_gt_0_iff)
  then have "card (admitted st - {u}) < 2 ^ LENGTH(64)"
    using set_len_bound [OF assms(1)] unat_bound [of "set_len (admitted st)"] by simp
  then have "unat (set_len (admitted st - {u})) = card (admitted st) - 1"
    using card(1) by (simp add: set_len_def unat_of_nat take_bit_nat_eq_self_iff)
  then show ?thesis
    using set_len_bound [OF assms(1)] by (simp add: word_unat_eq_iff unat_saturating_sub)
qed

lemma move_admission_ok:
  assumes run: "move_admission entry canonical st = Inr st'" and inv: "traversal_inv st" and taken: "taken st entry"
    and other: "canonical \<noteq> qe_canonical_url entry" and seen: "canonical \<in> seen st"
  shows "traversal_inv st'" and "canonical \<in> admitted st'"
    and "queued st' = queued st \<and> sampled st' = sampled st \<and> expanded st' = expanded st \<and> tv_context st' = tv_context st
      \<and> selected_seed_ids st' = selected_seed_ids st \<and> observe_calls st' = observe_calls st"
proof -
  let ?u = "qe_canonical_url entry"
  let ?rest = "admitted st - {?u}"
  let ?st1 = "st\<lparr>admitted := insert canonical ?rest\<rparr>"
  from inv have parts: "context_ok st" "sets_ok st" "queue_ok st" "page_types_ok st" "matches_ok st" "transitions_ok st"
    by (simp_all add: traversal_inv_def frontier_inv_def)
  have held: "?u \<in> admitted st" "?u \<notin> sampled st" "?u \<notin> fst ` set (queued st)"
    using taken by (simp_all add: taken_def)
  have fin: "finite (admitted st)" using parts(2) by (rule sets_finite)
  have rest_card: "card ?rest = card (admitted st) - 1" "0 < card (admitted st)"
    using fin held(1) by (auto simp: card_gt_0_iff)
  have queue: "queue_ok st2" if "queued st2 = queued st" "admitted st2 = insert canonical ?rest" "sampled st2 = sampled st"
      "tv_context st2 = tv_context st" "selected_seed_ids st2 = selected_seed_ids st" for st2 :: "'a SemanticTraversal"
  proof (rule queue_ok_subset [OF parts(3)])
    fix k assume "k \<in> fst ` set (queued st2)"
    then have "k \<in> fst ` set (queued st)" by (simp only: that(1))
    then have "k \<in> admitted st" "k \<notin> sampled st" "k \<noteq> ?u" using queue_keys [OF parts(3)] held(3) by blast+
    then show "k \<in> admitted st2 \<and> k \<notin> sampled st2" by (simp add: that)
  qed (use that queue_ok_invar [OF parts(3)] in simp_all)
  have sets: "sets_ok st2" if "seen st2 = seen st" "admitted st2 = insert canonical ?rest" "sampled st2 = sampled st"
      "expanded st2 = expanded st" "tv_context st2 = tv_context st" "pages_sampled st2 = pages_sampled st"
      "consumed_bytes st2 = consumed_bytes st" "newly_enqueued_urls st2 = set_len (insert canonical ?rest)"
      "card (insert canonical ?rest) \<le> card (admitted st)" for st2 :: "'a SemanticTraversal"
    using parts(2) held(2) seen that by (auto simp: sets_ok_def)
  show "traversal_inv st'" "canonical \<in> admitted st'"
    "queued st' = queued st \<and> sampled st' = sampled st \<and> expanded st' = expanded st \<and> tv_context st' = tv_context st
      \<and> selected_seed_ids st' = selected_seed_ids st \<and> observe_calls st' = observe_calls st"
  proof (atomize (full), cases "canonical \<in> ?rest")
    case True
    let ?st2 = "?st1\<lparr>newly_enqueued_urls := saturating_sub (newly_enqueued_urls ?st1) 1\<rparr>"
    from run True held(1) have un: "unschedule (qe_target_page_type_id entry) ?st2 = Inr st'"
      by (simp add: move_admission_def Let_def)
    note st' = unschedule_ok(1) [OF un]
    have "insert canonical ?rest = ?rest" using True by blast
    then have "sets_ok st'"
      by (subst st', intro sets)
        (use set_len_minus [OF parts(2) held(1)] parts(2) rest_card in \<open>simp_all add: sets_ok_def\<close>)
    moreover have "queue_ok st'" by (subst st', intro queue) simp_all
    moreover have "page_types_ok st'" by (rule unschedule_ok(2) [OF un]) (use parts(4) in \<open>simp add: page_types_ok_def\<close>)
    moreover have "context_ok st'" "matches_ok st'" "transitions_ok st'"
      by (subst st', use parts in \<open>simp add: context_ok_def matches_ok_def transitions_ok_def\<close>)+
    moreover have "canonical \<in> admitted st'" by (subst st') simp
    ultimately show "traversal_inv st' \<and> canonical \<in> admitted st' \<and> queued st' = queued st \<and> sampled st' = sampled st
      \<and> expanded st' = expanded st \<and> tv_context st' = tv_context st
      \<and> selected_seed_ids st' = selected_seed_ids st \<and> observe_calls st' = observe_calls st"
      by (simp add: traversal_inv_def frontier_inv_def) (subst st', simp)+
  next
    case False
    with run held(1) other have st': "st' = ?st1" by (auto simp: move_admission_def Let_def split: if_split_asm)
    have card: "card (insert canonical ?rest) = card (admitted st)"
      using False fin rest_card by (subst card_insert_disjoint) auto
    then have "sets_ok ?st1"
      by (intro sets) (use parts(2) in \<open>simp_all add: sets_ok_def set_len_def\<close>)
    moreover have "queue_ok ?st1" by (intro queue) simp_all
    ultimately show "traversal_inv st' \<and> canonical \<in> admitted st' \<and> queued st' = queued st \<and> sampled st' = sampled st
      \<and> expanded st' = expanded st \<and> tv_context st' = tv_context st
      \<and> selected_seed_ids st' = selected_seed_ids st \<and> observe_calls st' = observe_calls st"
      using parts by (simp add: st' traversal_inv_def frontier_inv_def context_ok_def matches_ok_def
          page_types_ok_def transitions_ok_def)
  qed
qed

lemma forget_alias_ok:
  assumes "traversal_inv st"
  shows "traversal_inv (forget_alias old canonical st)" and "synced (forget_alias old canonical st)"
    and "canonical \<notin> fst ` set (queued (forget_alias old canonical st))"
    and "length (queued (forget_alias old canonical st)) \<le> length (queued st)"
proof -
  let ?st = "st\<lparr>in_scope_urls := in_scope_urls st - {old}, matching_urls := matching_urls st - {old},
       unmatched_urls := unmatched_urls st - {old}, ambiguous_urls := ambiguous_urls st - {old},
       queued := bm_remove canonical (queued st)\<rparr>"
  from assms have parts: "context_ok st" "sets_ok st" "queue_ok st" "page_types_ok st" "matches_ok st" "transitions_ok st"
    by (simp_all add: traversal_inv_def frontier_inv_def)
  have "queue_ok ?st"
  proof (rule queue_ok_subset [OF parts(3)])
    fix k assume "k \<in> fst ` set (queued ?st)"
    then have "k \<in> fst ` set (queued st)" by (auto simp: bm_remove_def)
    then show "k \<in> admitted ?st \<and> k \<notin> sampled ?st" using queue_keys [OF parts(3)] by simp
  qed (use queue_ok_invar [OF parts(3)] in \<open>auto simp: bm_remove_def bm_filter_invar\<close>)
  moreover have "matches_ok ?st" using parts(5) by (auto simp: matches_ok_def)
  ultimately have "traversal_inv ?st"
    using parts by (simp add: traversal_inv_def frontier_inv_def context_ok_def sets_ok_def page_types_ok_def transitions_ok_def)
  then show "traversal_inv (forget_alias old canonical st)" by (simp add: forget_alias_def)
  show "synced (forget_alias old canonical st)" by (simp add: forget_alias_def)
  show "canonical \<notin> fst ` set (queued (forget_alias old canonical st))"
    by (auto simp: forget_alias_def bm_remove_def)
  show "length (queued (forget_alias old canonical st)) \<le> length (queued st)"
    by (simp add: forget_alias_def bm_remove_def)
qed

text \<open>After the redirect is followed the observed identity is admitted and no longer queued.\<close>

definition arrived :: "'u SemanticTraversal \<Rightarrow> string \<Rightarrow> bool" where
  "arrived st canonical \<longleftrightarrow> canonical \<in> admitted st \<and> canonical \<notin> fst ` set (queued st)"

lemma follow_redirect_ok:
  assumes run: "follow_redirect entry canonical st = Inr st'" and inv: "traversal_inv st" "synced st"
    and taken: "taken st entry"
  shows "settled st st' \<and> arrived st' canonical \<and> entry_ok st' entry \<and> sampled st' = sampled st \<and> expanded st' = expanded st"
proof (cases "canonical = qe_canonical_url entry")
  case True
  with run have st': "st' = st\<lparr>seen := insert canonical (seen st)\<rparr>" by (simp add: follow_redirect_def)
  have keeps: "keeps st st'" unfolding st' by (rule keeps_see)
  show ?thesis
    using inv taken True keeps_inv [OF keeps inv(1)] keeps_entry [OF keeps]
    by (simp add: st' settled_def advances_def synced_def arrived_def taken_def)
next
  case False
  let ?st1 = "st\<lparr>seen := insert canonical (seen st),
      duplicates_prevented := (if canonical \<in> seen st then saturating_add (duplicates_prevented st) 1
                               else duplicates_prevented st)\<rparr>"
  have "core_of ?st1 = core_of (st\<lparr>seen := insert canonical (seen st)\<rparr>)" by (simp add: core_simps)
  then have inv1: "traversal_inv ?st1" using see_inv [OF inv(1)] traversal_inv_frame by blast
  have taken1: "taken ?st1 entry" using taken by (simp add: taken_def entry_ok_def)
  from run False obtain st2 where move: "move_admission entry canonical ?st1 = Inr st2"
    and st': "st' = forget_alias (qe_canonical_url entry) canonical st2"
    by (auto simp: follow_redirect_def Let_def res_bind_eq_Inr)
  note moved = move_admission_ok [OF move inv1 taken1 False, simplified]
  note forgot = forget_alias_ok [OF moved(1), where old = "qe_canonical_url entry" and canonical = canonical]
  have fields: "tv_context st' = tv_context st2" "selected_seed_ids st' = selected_seed_ids st2"
      "observe_calls st' = observe_calls st2" "expanded st' = expanded st2" "sampled st' = sampled st2"
      "admitted st' = admitted st2"
    by (simp_all add: st' forget_alias_def)
  have entry': "entry_ok st' entry"
    using taken fields moved(3) by (simp add: taken_def entry_ok_def)
  show ?thesis
    using forgot moved(2,3) entry' unfolding st' [symmetric]
    by (simp add: settled_def advances_def arrived_def fields)
qed

lemma sample_page_ok:
  assumes run: "sample_page entry canonical m st = (hits, st')" and inv: "traversal_inv st" "synced st"
    and here: "arrived st canonical"
  shows "settled st st' \<and> canonical \<in> sampled st' \<and> expanded st' = expanded st"
proof (cases "canonical \<in> sampled st")
  case True
  with run inv show ?thesis by (simp add: sample_page_def settled_def advances_def)
next
  case False
  obtain st1 where core: "core_of st1 = core_of st"
    and st': "st' = st1\<lparr>pages_sampled := saturating_add (pages_sampled st1) 1, sampled := insert canonical (sampled st1)\<rparr>"
  proof (cases "(is_matched m, Option.bind m winner_id)")
    case (Pair matched winner)
    show ?thesis
    proof (cases "matched \<and> winner \<noteq> None")
      case True
      then obtain p where p: "winner = Some p" "matched" by auto
      obtain hit st2 where hit: "actual_final_page_type_budget_hit entry p st = (hit, st2)" by force
      let ?st1 = "st2\<lparr>page_type_sampled := bump p (page_type_sampled st2)\<rparr>"
      have "core_of ?st1 = core_of st" using final_hit_core [of entry p st] hit by (simp add: frame_simps)
      moreover have "st' = ?st1\<lparr>pages_sampled := saturating_add (pages_sampled ?st1) 1, sampled := insert canonical (sampled ?st1)\<rparr>"
        using run False Pair p hit by (simp add: sample_page_def Let_def)
      ultimately show ?thesis by (rule that)
    next
      case other: False
      have "st' = st\<lparr>pages_sampled := saturating_add (pages_sampled st) 1, sampled := insert canonical (sampled st)\<rparr>"
        using run False Pair other by (auto simp: sample_page_def Let_def split: option.split_asm bool.split_asm)
      with that [of st] show ?thesis by simp
    qed
  qed
  note f = frontier_of_eqD [OF core_of_eqD(1) [OF core]]
  have inv1: "traversal_inv st1" using frame_inv(1) [OF core] inv(1) by simp
  then have parts: "context_ok st1" "sets_ok st1" "queue_ok st1" "page_types_ok st1" "matches_ok st1" "transitions_ok st1"
    by (simp_all add: traversal_inv_def frontier_inv_def)
  have here1: "canonical \<in> admitted st1" "canonical \<notin> fst ` set (queued st1)" "canonical \<notin> sampled st1"
    using here False by (simp_all add: arrived_def f)
  have "sampled st1 \<subset> admitted st1" using parts(2) here1 by (auto simp: sets_ok_def)
  then have "card (sampled st1) < card (admitted st1)"
    using sets_finite [OF parts(2)] by (simp add: psubset_card_mono)
  then have room: "Suc (card (sampled st1)) < 2 ^ LENGTH(64)"
    using set_len_bound [OF parts(2)] unat_bound [of "set_len (admitted st1)"] by simp
  have "sets_ok st'"
    using parts(2) here1(1,3) saturating_of_nat_Suc [OF room] sets_finite [OF parts(2)]
    by (auto simp: st' sets_ok_def set_len_def simp del: of_nat_Suc)
  moreover have "queue_ok st'"
  proof (rule queue_ok_subset [OF parts(3)])
    fix k assume "k \<in> fst ` set (queued st')"
    then have "k \<in> fst ` set (queued st1)" by (simp add: st')
    then show "k \<in> admitted st' \<and> k \<notin> sampled st'" using queue_keys [OF parts(3)] here1(2) by (auto simp: st')
  qed (use queue_ok_invar [OF parts(3)] in \<open>simp_all add: st'\<close>)
  ultimately have "traversal_inv st'"
    using parts by (simp add: st' traversal_inv_def frontier_inv_def context_ok_def matches_ok_def
        page_types_ok_def transitions_ok_def)
  moreover have "synced st'" using synced_frame [OF core_of_eqD(1) [OF core]] inv(2) by (simp add: st' synced_def)
  ultimately show ?thesis by (simp add: settled_def advances_def st' f)
qed

section \<open>One step\<close>

lemma settled_trans:
  assumes "settled a b" "settled b c" "expanded b = expanded a"
  shows "settled a c"
  using assms by (auto simp: settled_def advances_def)

lemma settled_inv: "settled a b \<Longrightarrow> traversal_inv b" "settled a b \<Longrightarrow> synced b"
  by (simp_all add: settled_def)

lemma settled_entry: "settled a b \<Longrightarrow> entry_ok b e = entry_ok a e"
  by (simp add: settled_def advances_def entry_ok_def)

lemma settled_by_frame:
  assumes "settled a b" "core_of c = core_of b"
  shows "settled a c" "expanded c = expanded b" "sampled c = sampled b"
  using assms settled_frame [OF assms(2)] frontier_of_eqD [OF core_of_eqD(1) [OF assms(2)]]
  by (auto simp: settled_def advances_def)

lemma expand_observed_settled:
  assumes run: "expand_observed env io entry ob canonical m hits can st = Inr st'"
    and inv: "traversal_inv st" "synced st" and entry: "entry_ok st entry" and sampled: "canonical \<in> sampled st"
  shows "settled st st'"
proof -
  define st1 where "st1 = (if can \<and> targetless_pagination_count ob > 0
      then record_pagination_truncation (targetless_pagination_count ob)
        ''Observed pagination did not provide a usable target URL.''
        ''PREVIEW_PAGINATION_TARGET_UNAVAILABLE'' st else st)"
  obtain elapsed st2 where clock: "elapsed_millis io st1 = (elapsed, st2)" by force
  have core: "core_of st2 = core_of st"
    using hits_core(3) [OF clock] by (simp add: st1_def frame_simps)
  then have st2: "settled st st2" by (rule settled_frame) (use inv in simp_all)
  note f = frontier_of_eqD [OF core_of_eqD(1) [OF core]]
  from run clock consider "core_of st' = core_of st2"
    | source m' where "expand_page env io entry ob source m' st2 = Inr st'" "src_canonical source = canonical"
    by (auto simp: expand_observed_def st1_def [symmetric] Let_def frame_simps
        split: if_split_asm option.split_asm)
  then show ?thesis
  proof cases
    case 1
    then show ?thesis using settled_by_frame [OF st2] by simp
  next
    case 2
    have "settled st2 st'"
      using expand_page_settled [OF 2(1) settled_inv [OF st2]] settled_entry [OF st2] entry sampled 2(2) by (simp add: f)
    then show ?thesis by (rule settled_trans [OF st2]) (simp add: f)
  qed
qed

lemma process_observation_settled:
  assumes run: "process_observation env io entry ob bytes st = Inr st'"
    and inv: "traversal_inv st" "synced st" and taken: "taken st entry"
  shows "settled st st'"
proof -
  from run obtain final st1 where acc: "accept_observation env entry ob bytes st = Inr (final, st1)"
    by (auto simp: process_observation_def res_bind_eq_Inr)
  let ?u = "url_as_str (lab_api env) (res_canonical_url final)"
  from run acc obtain st2 where redirect: "follow_redirect entry ?u st1 = Inr st2"
    by (auto simp: process_observation_def res_bind_eq_Inr Let_def)
  from run acc redirect obtain scope where scope: "traversal_scope env st2 (res_canonical_url final) = Inr scope"
    by (auto simp: process_observation_def res_bind_eq_Inr Let_def)
  obtain m st3 where match: "observed_match env final scope st2 = (m, st3)" by force
  obtain hits st4 where sample: "sample_page entry ?u m st3 = (hits, st4)" by force
  define st5 where "st5 = push_page
      \<lparr>pp_requested_url = qe_requested_url entry, pp_requested_canonical_url = qe_canonical_url entry,
       pp_final_url = final_url ob, pp_canonical_url = Some ?u, pp_depth = qe_depth entry,
       pp_state = observed_state scope m, pp_seed_ids = qe_seed_ids entry, pp_scope = scope,
       pp_page_type_match = m, pp_downloaded_bytes = Some bytes, pp_robots_reason = None,
       pp_diagnostic = None, pp_budget_hits = hits\<rparr>
      (observe_seeds (qe_seed_ids entry) m (observed_state scope m) hits
        (if ?u \<in> sampled st1 then st4 else count_scope (observed_state scope m) st4))"
  have core: "core_of st5 = core_of st4" by (simp add: st5_def frame_simps)
  from run acc redirect scope match sample
  have expand: "expand_observed env io entry ob ?u m hits (dp_is_in_scope scope \<and> is_matched m) st5 = Inr st'"
    by (simp add: process_observation_def Let_def st5_def)
  from accept_observation_ok [OF acc inv] taken
  have s1: "settled st st1" "taken st1 entry" "expanded st1 = expanded st"
    by (auto simp: taken_def settled_entry)
  from follow_redirect_ok [OF redirect settled_inv [OF s1(1)] s1(2)]
  have s2: "settled st1 st2" "arrived st2 ?u" "entry_ok st2 entry" "expanded st2 = expanded st1" by simp_all
  have k3: "keeps st2 st3" "queued st3 = queued st2" "admitted st3 = admitted st2" "synced st3"
    using match settled_inv [OF s2(1)]
    by (auto simp: observed_match_def Let_def keeps_def register_match_fields synced_def register_match_inv
        split: if_split_asm)
  have s3: "settled st2 st3" "arrived st3 ?u" "expanded st3 = expanded st2"
    using k3 settled_inv [OF s2(1)] s2(2) by (simp_all add: settled_def advances_def keeps_def steady_def arrived_def)
  from sample_page_ok [OF sample settled_inv [OF s3(1)] s3(2)]
  have s4: "settled st3 st4" "?u \<in> sampled st4" "expanded st4 = expanded st3" by simp_all
  have s5: "settled st st5" "expanded st5 = expanded st" "?u \<in> sampled st5"
    using settled_by_frame [OF _ core] s4(2)
      settled_trans [OF settled_trans [OF settled_trans [OF s1(1) s2(1)] s3(1)] s4(1)]
    by (simp_all add: s1(3) s2(4) s3(3) s4(3))
  have "entry_ok st5 entry" using settled_entry [OF s5(1)] taken by (simp add: taken_def)
  from expand_observed_settled [OF expand settled_inv [OF s5(1)] this s5(3)] have "settled st5 st'" .
  with s5(1) show ?thesis by (rule settled_trans) (rule s5(2))
qed

lemma process_outcome_settled:
  assumes run: "process_outcome env io entry outcome st = Inr st'"
    and inv: "traversal_inv st" "synced st" and taken: "taken st entry"
  shows "settled st st'"
proof (cases outcome)
  case (OutcomeObserved ob bytes)
  with run process_observation_settled [OF _ inv taken] show ?thesis by simp
next
  case (OutcomeRobotsExcluded reason)
  with run have "core_of st' = core_of st" by (auto simp: result_simps Let_def frame_simps)
  then show ?thesis using inv by (rule settled_frame)
next
  case (OutcomePageFailed d)
  with run have "core_of st' = core_of st" by (auto simp: result_simps Let_def frame_simps)
  then show ?thesis using inv by (rule settled_frame)
next
  case (OutcomeInterrupted reason)
  with run show ?thesis by simp
qed

lemma frontier_take:
  assumes "queue_ok st" "tv_queue st = frontier_order (queued st)" "tv_queue st = e # q"
  shows "frontier_order (bm_remove (qe_canonical_url e) (queued st)) = q"
    and "(qe_canonical_url e, e) \<in> set (queued st)"
proof -
  let ?k = "qe_canonical_url e"
  let ?vs = "bm_values (queued st)"
  have keys: "map qe_canonical_url ?vs = map fst (queued st)"
    using assms(1) by (auto simp: queue_ok_def bm_values_def)
  have order: "frontier_order (queued st) = e # q" using assms(2,3) by simp
  then have "mset (e # q) = mset ?vs" by (metis frontier_order_def mset_sort)
  then have "mset (map qe_canonical_url (e # q)) = mset (map qe_canonical_url ?vs)" by (metis mset_map)
  then have "distinct (map qe_canonical_url (e # q))"
    using keys assms(1) by (metis bm_invar_distinct mset_eq_imp_distinct_iff queue_ok_def)
  then have others: "filter (\<lambda>x. qe_canonical_url x \<noteq> ?k) q = q"
    by (fastforce simp: filter_id_conv image_iff)
  have "bm_values (bm_remove ?k (queued st)) = filter (\<lambda>x. qe_canonical_url x \<noteq> ?k) ?vs"
    using assms(1) by (auto simp: queue_ok_def bm_values_def bm_remove_def filter_map o_def intro!: arg_cong [where f = "map snd"] filter_cong)
  then have "frontier_order (bm_remove ?k (queued st)) = filter (\<lambda>x. qe_canonical_url x \<noteq> ?k) (frontier_order (queued st))"
    by (simp add: frontier_order_def filter_sort)
  then show "frontier_order (bm_remove ?k (queued st)) = q" by (simp add: order others)
  have "e \<in> set ?vs" using \<open>mset (e # q) = mset ?vs\<close> by (metis list.set_intros(1) set_mset_mset)
  then show "(?k, e) \<in> set (queued st)" using assms(1) by (auto simp: queue_ok_def bm_values_def)
qed

lemma take_front_ok:
  assumes inv: "traversal_inv st" "synced st" and front: "tv_queue st = e # q"
  shows "traversal_inv (take_front e st)" "synced (take_front e st)" "taken (take_front e st) e"
    "Suc (length (queued (take_front e st))) = length (queued st)" "steady st (take_front e st)"
proof -
  let ?st = "take_front e st"
  from inv(1) have parts: "context_ok st" "sets_ok st" "queue_ok st" "page_types_ok st" "matches_ok st" "transitions_ok st"
    by (simp_all add: traversal_inv_def frontier_inv_def)
  have sync: "tv_queue st = frontier_order (queued st)" using inv(2) by (simp add: synced_def)
  note take = frontier_take [OF parts(3) sync front]
  have entry: "entry_ok st e" "qe_canonical_url e \<in> admitted st" "qe_canonical_url e \<notin> sampled st"
    using take(2) parts(3) by (auto simp: queue_ok_def)
  have "queue_ok ?st"
  proof (rule queue_ok_subset [OF parts(3)])
    fix k assume "k \<in> fst ` set (queued ?st)"
    then have "k \<in> fst ` set (queued st)" by (auto simp: take_front_def bm_remove_def)
    then show "k \<in> admitted ?st \<and> k \<notin> sampled ?st" using queue_keys [OF parts(3)] by (simp add: take_front_def)
  qed (use queue_ok_invar [OF parts(3)] in \<open>auto simp: take_front_def bm_remove_def bm_filter_invar\<close>)
  then show "traversal_inv ?st"
    using parts by (simp add: traversal_inv_def frontier_inv_def take_front_def context_ok_def sets_ok_def
        matches_ok_def page_types_ok_def transitions_ok_def)
  show "synced ?st" using take(1) front by (simp add: synced_def take_front_def)
  show "taken ?st e" using entry by (auto simp: taken_def take_front_def entry_ok_def bm_remove_def)
  show "Suc (length (queued ?st)) = length (queued st)"
    using bm_remove_length [of "queued st" "qe_canonical_url e"] bm_invar_distinct [OF queue_ok_invar [OF parts(3)]] take(2)
    by (auto simp: take_front_def bm_remove_def length_greater_0_conv [symmetric] simp del: length_greater_0_conv
        dest: length_pos_if_in_set)
  show "steady st ?st" by (simp add: steady_def take_front_def)
qed

lemma put_back_ok:
  assumes inv: "traversal_inv st" and taken: "taken st e"
  shows "traversal_inv (put_back e st)" "synced (put_back e st)" "steady st (put_back e st)"
proof -
  let ?st = "st\<lparr>queued := bm_insert (qe_canonical_url e) e (queued st)\<rparr>"
  from inv have parts: "context_ok st" "sets_ok st" "queue_ok st" "page_types_ok st" "matches_ok st" "transitions_ok st"
    by (simp_all add: traversal_inv_def frontier_inv_def)
  have steady: "steady st ?st" by (simp add: steady_def)
  have "queue_ok ?st"
    using parts(3) taken
    by (auto simp: queue_ok_def taken_def bm_insert_invar set_bm_insert entry_ok_steady [OF steady])
  then have "traversal_inv ?st"
    using parts by (simp add: traversal_inv_def frontier_inv_def context_ok_def sets_ok_def
        matches_ok_def page_types_ok_def transitions_ok_def)
  then show "traversal_inv (put_back e st)" "synced (put_back e st)" "steady st (put_back e st)"
    using steady by (simp_all add: put_back_def steady_rebuild)
qed

text \<open>The rank of a traversal: pages still to expand, then entries to take.\<close>

definition page_bound :: "'u SemanticTraversal \<Rightarrow> nat" where
  "page_bound st = unat (el_max_pages (tv_limits st))"

definition rank :: "'u SemanticTraversal \<Rightarrow> nat" where
  "rank st = (page_bound st - card (expanded st)) * Suc (page_bound st) + length (queued st)"

lemma expanded_bound:
  assumes "traversal_inv st"
  shows "card (expanded st) \<le> page_bound st" "length (queued st) \<le> page_bound st"
proof -
  from assms have parts: "sets_ok st" "queue_ok st" by (simp_all add: traversal_inv_def frontier_inv_def)
  have "card (expanded st) \<le> card (admitted st)"
    using parts(1) sets_finite [OF parts(1)] by (intro card_mono) (auto simp: sets_ok_def)
  moreover have "card (admitted st) \<le> page_bound st" using parts(1) by (simp add: sets_ok_def page_bound_def)
  ultimately show "card (expanded st) \<le> page_bound st" "length (queued st) \<le> page_bound st"
    using queued_bound [OF parts(2,1)] by simp_all
qed

lemma settled_rank:
  assumes "settled st st'" "traversal_inv st"
  shows "rank st' \<le> rank st"
proof -
  have bound: "page_bound st' = page_bound st" using assms(1) by (simp add: settled_def advances_def page_bound_def)
  consider "expanded st' = expanded st" "length (queued st') \<le> length (queued st)"
    | u where "u \<notin> expanded st" "expanded st' = insert u (expanded st)"
    using assms(1) by (auto simp: settled_def advances_def)
  then show ?thesis
  proof cases
    case 2
    have "finite (expanded st)"
      using assms(2) by (intro sets_finite) (simp add: traversal_inv_def frontier_inv_def)
    then have card: "card (expanded st') = Suc (card (expanded st))" using 2 by simp
    note b = expanded_bound [OF settled_inv(1) [OF assms(1)]]
    then have "page_bound st - card (expanded st) = Suc (page_bound st - card (expanded st'))"
      using card bound by simp
    then show ?thesis using b(2) by (simp add: rank_def bound)
  qed (simp add: rank_def bound)
qed

text \<open>Every step keeps the invariant; a processed entry lowers the rank and costs one observation.\<close>

definition step_ok :: "'u SemanticTraversal \<Rightarrow> SemanticTraversalStep \<Rightarrow> 'u SemanticTraversal \<Rightarrow> bool" where
  "step_ok st r st' \<longleftrightarrow>
     traversal_inv st' \<and> synced st' \<and> tv_context st' = tv_context st \<and> selected_seed_ids st' = selected_seed_ids st
     \<and> observe_calls st' \<le> Suc (observe_calls st)
     \<and> (\<forall>pages paths. r = Processed pages paths \<longrightarrow> rank st' < rank st)"

lemma step_ok_frame:
  assumes "traversal_inv st" "synced st" "core_of st' = core_of st" "\<forall>pages paths. r \<noteq> Processed pages paths"
  shows "step_ok st r st'"
  using settled_frame [OF assms(3,1,2)] assms(4) by (auto simp: step_ok_def settled_def advances_def)

lemma process_entry_ok:
  assumes run: "process_entry env io entry outcome st = Inr (r, st')"
    and inv: "traversal_inv st" "synced st" and taken: "taken st entry"
  shows "settled st st'"
proof -
  obtain elapsed st1 where clock: "elapsed_millis io st = (elapsed, st1)" by force
  define st2 where "st2 = (if elapsed \<ge> el_max_duration_ms (tv_limits st1) then hit_time_budget io st1 else st1)"
  have core: "core_of st2 = core_of st" using hits_core(3) [OF clock] by (simp add: st2_def frame_simps)
  then have st2: "settled st st2" by (rule settled_frame) (use inv in simp_all)
  note f = frontier_of_eqD [OF core_of_eqD(1) [OF core]]
  have taken2: "taken st2 entry" using taken settled_entry [OF st2] by (simp add: taken_def f)
  from run clock have "process_outcome env io entry outcome st2 = Inr st'"
    by (auto simp: process_entry_def st2_def Let_def res_bind_eq_Inr)
  from process_outcome_settled [OF this settled_inv [OF st2] taken2] have "settled st2 st'" .
  then show ?thesis by (rule settled_trans [OF st2]) (simp add: f)
qed

lemma observe_entry_ok:
  assumes run: "observe_entry env io e (take_front e st) = Inr (r, st')"
    and inv: "traversal_inv st" "synced st" and front: "tv_queue st = e # q"
  shows "step_ok st r st'"
proof -
  note t = take_front_ok [OF inv front]
  let ?st1 = "take_front e st\<lparr>observe_calls := Suc (observe_calls (take_front e st))\<rparr>"
  have st1: "traversal_inv ?st1" "synced ?st1" "taken ?st1 e" "rank ?st1 < rank st" "tv_context ?st1 = tv_context st"
      "selected_seed_ids ?st1 = selected_seed_ids st" "observe_calls ?st1 = Suc (observe_calls st)"
    using t
    by (simp_all add: traversal_inv_def frontier_inv_def inv_parts synced_def taken_def rank_def page_bound_def steady_def)
  from run obtain outcome where
    "(case outcome of OutcomeInterrupted reason \<Rightarrow> Inr (Interrupted reason, put_back e ?st1)
      | _ \<Rightarrow> process_entry env io e outcome ?st1) = Inr (r, st')"
    by (auto simp: observe_entry_def Let_def res_bind_eq_Inr)
  then consider reason where "r = Interrupted reason" "st' = put_back e ?st1"
    | "process_entry env io e outcome ?st1 = Inr (r, st')"
    by (auto split: DiscoveryPreviewProviderOutcome.split_asm)
  then show ?thesis
  proof cases
    case 1
    with put_back_ok [OF st1(1,3)] st1(5-7) show ?thesis by (simp add: step_ok_def steady_def)
  next
    case 2
    from process_entry_ok [OF 2 st1(1-3)] have s: "settled ?st1 st'" .
    from settled_rank [OF s st1(1)] s st1(4-7) show ?thesis by (simp add: step_ok_def settled_def advances_def)
  qed
qed

lemma step_result:
  assumes run: "step env io st = Inr (r, st')" and inv: "traversal_inv st" "synced st"
  shows "step_ok st r st'"
proof (cases "tv_queue st")
  case Nil
  with run inv show ?thesis by (simp add: step_def step_ok_def)
next
  case (Cons e q)
  obtain elapsed st1 where clock: "elapsed_millis io st = (elapsed, st1)" by force
  have core: "core_of st1 = core_of st" using hits_core(3) [OF clock] .
  note f = frontier_of_eqD [OF core_of_eqD(1) [OF core]]
  from run Cons clock consider "core_of st' = core_of st" "r = Complete"
    | "observe_entry env io e (take_front e st1) = Inr (r, st')"
    by (auto simp: step_def frame_simps core split: if_split_asm)
  then show ?thesis
  proof cases
    case 1
    then show ?thesis using inv by (intro step_ok_frame) simp_all
  next
    case 2
    have inv1: "traversal_inv st1" "synced st1" "tv_queue st1 = e # q"
      using inv Cons frame_inv(1) [OF core] synced_frame [OF core_of_eqD(1) [OF core]] by (simp_all add: f)
    from observe_entry_ok [OF 2 inv1] have "step_ok st1 r st'" .
    moreover have "rank st1 = rank st" by (simp add: rank_def page_bound_def f)
    ultimately show ?thesis by (simp add: step_ok_def f)
  qed
qed

lemma steps_keep:
  assumes "traversal_steps env io st st'" "traversal_inv st" "synced st"
  shows "traversal_inv st' \<and> synced st' \<and> tv_context st' = tv_context st \<and> selected_seed_ids st' = selected_seed_ids st"
  using assms
proof (induction rule: traversal_steps.induct)
  case (steps_step st st1 r st2)
  with step_result [of env io st1 r st2] show ?case by (simp add: step_ok_def)
qed simp

text \<open>The loop ends: the rank bounds the observations it makes.\<close>

lemma traverse_ends:
  assumes "traversal_inv st" "synced st"
  shows "\<exists>r. traverse env io st = Some r
    \<and> (\<forall>st'. r = Inr st' \<longrightarrow> traversal_steps env io st st' \<and> observe_calls st' \<le> observe_calls st + rank st + 1)"
  using assms
proof (induction "rank st" arbitrary: st rule: less_induct)
  case less
  have head: "traversal_steps env io st st1" if "step env io st = Inr (r, st1)" for r st1
    using that by (rule steps_step [OF steps_refl])
  have tail: "traversal_steps env io st st'" if "step env io st = Inr (r, st1)" "traversal_steps env io st1 st'" for r st1 st'
    using that(2) head [OF that(1)] by (induction rule: traversal_steps.induct) (blast intro: steps_step)+
  show ?case
  proof (cases "step env io st")
    case (Inl err)
    then show ?thesis by (subst traverse.simps) simp
  next
    case (Inr p)
    then obtain r st1 where run: "step env io st = Inr (r, st1)" by (cases p) auto
    note ok = step_result [OF run less.prems]
    show ?thesis
    proof (cases "\<exists>pages paths. r = Processed pages paths")
      case True
      then obtain pages paths where r: "r = Processed pages paths" by blast
      with ok have smaller: "rank st1 < rank st" "traversal_inv st1" "synced st1"
          "observe_calls st1 \<le> Suc (observe_calls st)"
        by (simp_all add: step_ok_def)
      from less.hyps [OF smaller(1-3)] obtain res where
        res: "traverse env io st1 = Some res" "\<And>st'. res = Inr st' \<Longrightarrow> traversal_steps env io st1 st'"
          "\<And>st'. res = Inr st' \<Longrightarrow> observe_calls st' \<le> observe_calls st1 + rank st1 + 1"
        by blast
      have "traverse env io st = Some res" using res(1) by (subst traverse.simps) (simp add: run r)
      moreover have "observe_calls st' \<le> observe_calls st + rank st + 1" if "res = Inr st'" for st'
        using res(3) [OF that] smaller(1,4) by simp
      ultimately show ?thesis using res(2) tail [OF run] by blast
    next
      case False
      then have "traverse env io st = Some (Inr st1)"
        by (subst traverse.simps) (simp add: run split: SemanticTraversalStep.split)
      with ok head [OF run] show ?thesis by (auto simp: step_ok_def)
    qed
  qed
qed

section \<open>The start\<close>

lemma fold_insert_values:
  "bm_lookup (fold (\<lambda>(k, v). bm_insert k v) kvs m) k = Some v
     \<Longrightarrow> bm_lookup m k = Some v \<or> (k, v) \<in> set kvs"
proof (induction kvs arbitrary: m)
  case (Cons p kvs)
  obtain a b where p: "p = (a, b)" by force
  from Cons.prems have "bm_lookup (fold (\<lambda>(k, v). bm_insert k v) kvs (bm_insert a b m)) k = Some v" by (simp add: p)
  from Cons.IH [OF this] show ?case by (auto simp: bm_insert_lookup p split: if_split_asm)
qed simp

lemma bm_collect_values: "bm_lookup (bm_collect kvs) k = Some v \<Longrightarrow> (k, v) \<in> set kvs"
  using fold_insert_values [of kvs "[]" k v] by (simp add: bm_collect_def bm_lookup_def)

lemma bm_collect_invar: "bm_invar (bm_collect kvs)"
proof -
  have "bm_invar m \<Longrightarrow> bm_invar (fold (\<lambda>(k, v). bm_insert k v) kvs m)" for m
    by (induction kvs arbitrary: m) (auto simp: bm_insert_invar)
  then show ?thesis by (simp add: bm_collect_def)
qed

lemma bm_collect_keys: "fst ` set (bm_collect kvs) = fst ` set kvs"
proof -
  have "fst ` set (fold (\<lambda>(k, v). bm_insert k v) kvs m) = fst ` set m \<union> fst ` set kvs" for m
  proof (induction kvs arbitrary: m)
    case (Cons p kvs)
    then show ?case by (cases p) (simp add: keys_bm_insert)
  qed simp
  then show ?thesis by (simp add: bm_collect_def)
qed

lemma traversal_new_inv:
  assumes "distinct (map tr_id (pc_transitions ctx))"
  shows "traversal_inv (traversal_new ctx ids start reads)" "synced (traversal_new ctx ids start reads)"
proof -
  let ?st = "traversal_new ctx ids start reads"
  let ?kvs = "map (\<lambda>t. (tr_id t, \<lparr>rc_transition_id = tr_id t, rc_name = tr_name t, eligible_edges = 0, source_pages = {}\<rparr>))
      (pc_transitions ctx)"
  have st: "tv_context ?st = ctx" "transition_counts ?st = bm_collect ?kvs" "transition_page_counts ?st = []"
    by (simp_all add: traversal_new_def)
  have invar: "bm_invar (bm_collect ?kvs)" by (rule bm_collect_invar)
  have zero: "eligible_edges n = 0" if "bm_lookup (bm_collect ?kvs) i = Some n" for i n
    using bm_collect_values [OF that] by auto
  have members: "rc_transition_id n = k \<and> finite (source_pages n) \<and> (\<exists>t \<in> set (pc_transitions ctx). tr_id t = k \<and> rc_name n = tr_name t)"
    if "(k, n) \<in> set (bm_collect ?kvs)" for k n
    using bm_collect_values [OF bm_mem_lookup [OF invar that]] by auto
  have "transitions_ok ?st"
    unfolding transitions_ok_def st
    using invar zero members by (auto simp: bm_collect_keys image_image lookup_or_zero_def bm_lookup_def [of "[]"])
  moreover have "frontier_inv ?st"
    using assms by (simp add: frontier_inv_def traversal_new_def inv_parts set_len_def lookup_or_zero_def bm_lookup_def)
  ultimately show "traversal_inv ?st" by (simp add: traversal_inv_def)
  show "synced ?st" by (simp add: synced_def traversal_new_def frontier_order_def bm_values_def)
qed

lemma enqueue_root_inv:
  assumes "traversal_inv st" "seed_id seed \<in> set (selected_seed_ids st)"
    and "url_as_str (lab_api env) (canonical_url seed) \<in> seen st"
    and "url_as_str (lab_api env) (canonical_url seed) \<notin> admitted st"
    and "\<not> set_len (admitted st) \<ge> el_max_pages (tv_limits st)"
  shows "traversal_inv (enqueue_root env order seed st)" "synced (enqueue_root env order seed st)"
    "steady st (enqueue_root env order seed st)"
proof -
  let ?u = "url_as_str (lab_api env) (canonical_url seed)"
  define e where "e = \<lparr>qe_requested_url = fragment_free_url (lab_api env) (original_url seed), qe_canonical_url = ?u,
      qe_depth = 0, qe_seed_ids = [seed_id seed], qe_target_page_type_id = None, qe_transition_id = None,
      qe_parent_canonical_url = None, qe_pagination = False, qe_order = of_nat order\<rparr>"
  let ?st = "st\<lparr>admitted := insert ?u (admitted st), queued := bm_insert ?u e (queued st),
      newly_enqueued_urls := saturating_add (newly_enqueued_urls st) 1\<rparr>"
  from assms(1) have parts: "context_ok st" "sets_ok st" "queue_ok st" "page_types_ok st" "matches_ok st" "transitions_ok st"
    by (simp_all add: traversal_inv_def frontier_inv_def)
  note room = set_len_room [OF parts(2) assms(5)]
  have newly: "saturating_add (set_len (admitted st)) 1 = set_len (insert ?u (admitted st))"
    using room unat_bound [of "el_max_pages (tv_limits st)"] assms(4) sets_finite [OF parts(2)]
    by (simp add: set_len_def saturating_of_nat_Suc del: of_nat_Suc)
  have steady: "steady st ?st" by (simp add: steady_def)
  have "sets_ok ?st"
    using parts(2) assms(3,4) room sets_finite [OF parts(2)] newly by (auto simp: sets_ok_def)
  moreover have "queue_ok ?st"
  proof -
    have "entry_ok st e" "qe_canonical_url e = ?u" using assms(2) by (simp_all add: entry_ok_def e_def)
    moreover have "?u \<notin> sampled st" using parts(2) assms(4) by (auto simp: sets_ok_def)
    ultimately show ?thesis
      using parts(3) by (auto simp: queue_ok_def bm_insert_invar set_bm_insert entry_ok_steady [OF steady])
  qed
  ultimately have "traversal_inv ?st"
    using parts by (simp add: traversal_inv_def frontier_inv_def context_ok_def matches_ok_def page_types_ok_def transitions_ok_def)
  moreover have "enqueue_root env order seed st = rebuild_queue ?st"
    by (simp add: enqueue_root_def e_def Let_def rebuild_queue_def)
  ultimately show "traversal_inv (enqueue_root env order seed st)" "synced (enqueue_root env order seed st)"
    "steady st (enqueue_root env order seed st)"
    using steady by (simp_all add: steady_rebuild)
qed

lemma admit_root_ok:
  assumes run: "admit_root env order seed st = Inr st'" and inv: "traversal_inv st" "synced st"
    and known: "seed_id seed \<in> set (selected_seed_ids st)"
  shows "traversal_inv st' \<and> synced st' \<and> steady st st'"
proof -
  let ?u = "url_as_str (lab_api env) (canonical_url seed)"
  let ?dup = "st\<lparr>duplicates_prevented := saturating_add (duplicates_prevented st) 1\<rparr>"
  let ?st1 = "st\<lparr>seen := insert ?u (seen st)\<rparr>"
  have dup: "core_of ?dup = core_of st" by (simp add: frame_simps)
  have dup_ok: "traversal_inv ?dup" "steady st ?dup" "synced ?dup" "seed_id seed \<in> set (selected_seed_ids ?dup)"
    using frame_inv [OF dup] inv known by (simp_all add: synced_def)
  have merged: "traversal_inv (merge_root_provenance ?u (seed_id seed) ?dup) \<and> steady st (merge_root_provenance ?u (seed_id seed) ?dup)"
    using merge_root_inv [OF dup_ok(1,4)] dup_ok(2) by (blast intro: steady_trans)
  have merged_sync: "synced (merge_root_provenance ?u (seed_id seed) ?dup)"
    using dup_ok(3) by (simp add: merge_root_provenance_def split: option.split)
  have see: "keeps st ?st1" by (rule keeps_see)
  have st1: "traversal_inv ?st1" "synced ?st1" "steady st ?st1" "?u \<in> seen ?st1" "seed_id seed \<in> set (selected_seed_ids ?st1)"
    using keeps_inv [OF see inv(1)] inv(2) known see by (simp_all add: synced_def keeps_def)
  have done_by: "traversal_inv st' \<and> synced st' \<and> steady st st'"
    if "core_of st' = core_of st2" "traversal_inv st2" "synced st2" "steady st st2" for st2
    using frame_inv [OF that(1)] synced_frame [OF core_of_eqD(1) [OF that(1)]] that(2-4) steady_trans by blast
  show ?thesis
  proof (cases "?u \<in> seen st")
    case True
    with run obtain scope where "st' = push_seed env seed CanonicalDuplicate (Some ?u) scope
        (merge_root_provenance ?u (seed_id seed) ?dup)"
      by (auto simp: admit_root_def Let_def res_bind_eq_Inr)
    then show ?thesis
      by (intro done_by [of "merge_root_provenance ?u (seed_id seed) ?dup"]) (simp_all add: frame_simps merged merged_sync)
  next
    case False
    then have fresh: "?u \<notin> admitted ?st1"
      using inv(1) by (auto simp: traversal_inv_def frontier_inv_def sets_ok_def)
    from run False consider "core_of st' = core_of ?st1"
      | scope where "\<not> set_len (admitted ?st1) \<ge> el_max_pages (tv_limits ?st1)"
          "st' = push_seed env seed InScopeMatched None scope (enqueue_root env order seed ?st1)"
      by (auto simp: admit_root_def Let_def res_bind_eq_Inr frame_simps split: if_split_asm)
    then show ?thesis
    proof cases
      case 1
      then show ?thesis using st1(1-3) by (rule done_by)
    next
      case 2
      have "core_of st' = core_of (enqueue_root env order seed ?st1)" unfolding 2(2) by (rule push_seed_core)
      then show ?thesis
      proof (rule done_by)
        note new = enqueue_root_inv [OF st1(1,5,4) fresh 2(1), of order]
        show "traversal_inv (enqueue_root env order seed ?st1)" "synced (enqueue_root env order seed ?st1)"
          using new by simp_all
        show "steady st (enqueue_root env order seed ?st1)" using st1(3) new(3) by (rule steady_trans)
      qed
    qed
  qed
qed

lemma admit_roots_ok:
  assumes "admit_roots env order seeds st = Inr st'" "traversal_inv st" "synced st"
    and "seed_id ` set seeds \<subseteq> set (selected_seed_ids st)"
  shows "traversal_inv st' \<and> synced st' \<and> steady st st'"
  using assms
proof (induction seeds arbitrary: order st)
  case (Cons seed seeds)
  from Cons.prems(1) obtain st1 where one: "admit_root env order seed st = Inr st1"
    and rest: "admit_roots env (Suc order) seeds st1 = Inr st'"
    by (auto simp: res_bind_eq_Inr)
  have first: "traversal_inv st1 \<and> synced st1 \<and> steady st st1"
    using Cons.prems(4) by (intro admit_root_ok [OF one Cons.prems(2,3)]) simp
  then have "traversal_inv st' \<and> synced st' \<and> steady st1 st'"
    using Cons.prems(4) by (intro Cons.IH [OF rest]) (simp_all add: steady_def)
  with first show ?case by (blast intro: steady_trans)
qed simp

lemma select_seeds_known:
  assumes "select_seeds env ctx ids = Inr seeds"
  shows "seed_id ` set seeds \<subseteq> set ids"
proof -
  have "seed_id s = i" if "select_seed env ctx i = Inr s" for i s
    using that
    by (auto simp: select_seed_def context_seed_def result_simps Let_def find_Some_iff split: if_split_asm)
  then show ?thesis
    using assms unfolding select_seeds_def by (force dest: collect_results_set)
qed

text \<open>A traversal over a frozen version starts in the invariant.\<close>

lemma frozen_start:
  assumes "for_frozen_snapshot env io snapshot ids limits = Inr st"
  shows "traversal_inv st" "synced st" "tv_limits st = limits" "selected_seed_ids st = ids"
    "pc_transitions (tv_context st) = snap_transitions snapshot" "pc_snapshot (tv_context st) = snapshot"
    "observe_calls st = 0" "expanded st = {}" "pc_page_types (tv_context st) = snap_page_types snapshot"
proof -
  from assms obtain ctx seeds where ctx: "context_from_snapshot env snapshot limits = Inr ctx"
    and seeds: "select_seeds env ctx ids = Inr seeds"
    and roots: "admit_roots env 0 seeds (traversal_new ctx ids (io_clock io 0) 1) = Inr st"
    by (auto simp: for_frozen_snapshot_def res_bind_eq_Inr)
  note c = context_from_snapshot_ok [OF ctx]
  let ?new = "traversal_new ctx ids (io_clock io 0) 1"
  have new: "tv_context ?new = ctx" "selected_seed_ids ?new = ids" "observe_calls ?new = 0" "expanded ?new = {}"
    by (simp_all add: traversal_new_def)
  have "traversal_inv st \<and> synced st \<and> steady ?new st"
    using traversal_new_inv [OF c(5)] select_seeds_known [OF seeds] new
    by (intro admit_roots_ok [OF roots]) simp_all
  then show "traversal_inv st" "synced st" "tv_limits st = limits" "selected_seed_ids st = ids"
    "pc_transitions (tv_context st) = snap_transitions snapshot" "pc_snapshot (tv_context st) = snapshot"
    "observe_calls st = 0" "expanded st = {}" "pc_page_types (tv_context st) = snap_page_types snapshot"
    using c new by (simp_all add: steady_def)
qed

end
