(* ===== verification/Traversal_Properties.thy ===== *)
theory Traversal_Properties
  imports Traversal_Invariant
begin

text \<open>
  What a run of the semantic traversal guarantees, for every clock and every provider: the limits of the
  frozen version hold in each state, the frontier is a well-formed work list, and the loop ends.
\<close>

section \<open>Examples\<close>

text \<open>A one-seed crawler with a transition from its page type to itself, and a provider that answers
  every request with two links.\<close>

definition preview_transition :: DiscoveryTransition where
  "preview_transition = lab_transition\<lparr>tr_budget := \<lparr>max_links_per_source_page = 8, total_budget = None, depth_contribution = 1\<rparr>\<rparr>"

definition preview_snapshot :: "plain_url CrawlerSemanticSnapshot" where
  "preview_snapshot = lab_snapshot
     \<lparr>snap_version := (snap_version lab_snapshot)\<lparr>cv_transition_ids := [''t'']\<rparr>, snap_transitions := [preview_transition]\<rparr>"

definition preview_limits :: EffectiveDiscoveryPreviewLimits where
  "preview_limits = \<lparr>el_max_pages = 2, el_max_depth = 3, el_max_duration_ms = 100, el_max_downloaded_bytes = 104857600,
     el_transition_total_limits = [\<lparr>etl_transition_id = ''t'', effective_total_limit = 10\<rparr>]\<rparr>"

definition preview_observation :: "string \<Rightarrow> PageObservation" where
  "preview_observation u = (lab_observation [''x'', ''y''])\<lparr>requested_url := u\<rparr>"

definition preview_io :: traversal_io where
  "preview_io = \<lparr>io_clock = (\<lambda>_. 0),
     io_observe = (\<lambda>_ r. Inr (OutcomeObserved (preview_observation (or_requested_url r)) 10))\<rparr>"

definition preview_start :: "DiscoveryPreviewError + plain_url SemanticTraversal" where
  "preview_start = for_frozen_snapshot lab_sample preview_io preview_snapshot [''s''] preview_limits"

definition preview_first_step :: "DiscoveryPreviewError + SemanticTraversalStep \<times> plain_url SemanticTraversal" where
  "preview_first_step = res_bind preview_start (step lab_sample preview_io)"

lemma preview_runs: "case preview_first_step of Inl _ \<Rightarrow> False
    | Inr (r, st) \<Rightarrow> map qe_canonical_url (tv_queue st) = [''https://a.test/?x''] \<and> card (admitted st) = 2"
  by code_simp

section \<open>Limits\<close>

text \<open>The limits a preview request is tightened to respect the total budgets of the transitions.\<close>

lemma preview_total_limit:
  assumes new: "context_new env evaluation request = Inr ctx" and t: "t \<in> set (snap_transitions (snap_draft evaluation))"
    and budget: "total_budget (tr_budget t) = Some b" and same: "pc_limits ctx' = pc_limits ctx"
  shows "\<exists>l. transition_total_limit ctx' (tr_id t) = Some l \<and> l \<le> b"
proof -
  let ?ts = "snap_transitions (snap_draft evaluation)"
  from new obtain effective overrides where frozen: "context_from_snapshot env (snap_draft evaluation) effective = Inr ctx"
    and effective: "el_transition_total_limits effective = sort_key etl_transition_id
      (map (effective_transition_limit overrides (default_transition_total_limit request)) ?ts)"
    by (auto simp: context_new_def result_simps Let_def)
  note c = context_from_snapshot_ok [OF frozen]
  have limits: "el_transition_total_limits (pc_limits ctx) = sort_key etl_transition_id
      (map (effective_transition_limit overrides (default_transition_total_limit request)) ?ts)"
    using effective c(2) by simp
  have distinct: "distinct (map tr_id ?ts)" using c(3,5) by simp
  let ?ls = "el_transition_total_limits (pc_limits ctx)"
  have ids: "etl_transition_id (effective_transition_limit overrides d s) = tr_id s" for d s
    by (simp add: effective_transition_limit_def Let_def)
  have "\<exists>l \<in> set ?ls. etl_transition_id l = tr_id t" using t by (auto simp: limits ids)
  then obtain l where l: "find (\<lambda>l. etl_transition_id l = tr_id t) ?ls = Some l"
    by (metis (mono_tags, lifting) find_None_iff not_Some_eq)
  then have "l \<in> set ?ls" "etl_transition_id l = tr_id t" by (auto simp: find_Some_iff)
  then obtain s where s: "s \<in> set ?ts" "tr_id s = tr_id t"
    and l': "l = effective_transition_limit overrides (default_transition_total_limit request) s"
    by (auto simp: limits ids)
  have "s = t" using distinct s t by (metis distinct_map inj_on_eq_iff)
  with l l' budget show ?thesis
    by (auto simp: transition_total_limit_def same effective_transition_limit_def Let_def)
qed


lemma preview_first_state:
  obtains st0 r st where "preview_start = Inr st0" "step lab_sample preview_io st0 = Inr (r, st)"
    "map qe_canonical_url (tv_queue st) = [''https://a.test/?x'']" "card (admitted st) = 2"
proof -
  obtain p where p: "preview_first_step = Inr p"
  proof (cases preview_first_step)
    case (Inl err)
    have False using preview_runs unfolding Inl by simp
    then show ?thesis ..
  qed (rule that)
  obtain r st where pair: "p = (r, st)" by force
  from p obtain st0 where st0: "preview_start = Inr st0" "step lab_sample preview_io st0 = Inr p"
    unfolding preview_first_step_def res_bind_eq_Inr by blast
  have "map qe_canonical_url (tv_queue st) = [''https://a.test/?x''] \<and> card (admitted st) = 2"
    using preview_runs unfolding p pair by simp
  then show ?thesis by (intro that [OF st0(1) st0(2) [unfolded pair]]) simp_all
qed

text \<open>The limits of the example are those its version leaves of a request.\<close>

definition preview_evaluation :: "plain_url CrawlerEvaluationSnapshot" where
  "preview_evaluation = \<lparr>snap_draft = preview_snapshot, snap_published = None\<rparr>"

definition preview_request :: DiscoveryPreviewLimits where
  "preview_request = \<lparr>pl_max_pages = 2, pl_max_depth = 3, pl_max_duration_ms = 100, default_transition_total_limit = 10,
     pl_transition_total_limits = []\<rparr>"

lemma preview_tightened: "case context_new lab_sample preview_evaluation preview_request of
    Inl _ \<Rightarrow> False | Inr ctx \<Rightarrow> pc_limits ctx = preview_limits"
  by code_simp


section \<open>The frontier\<close>

text \<open>
  C21. The frontier is a well-formed work list in every state of a run: it is the pending identities in
  breadth-first order (depth, then order of admission), each identity at most once; each is admitted, has
  not been sampled before, and carries a non-empty, duplicate-free list of selected seeds it was reached
  from, and the page type and transition it names belong to the frozen version.
\<close>
theorem frontier_is_work_list:
  assumes start: "for_frozen_snapshot env io snapshot ids limits = Inr st0"
    and run: "traversal_steps env io st0 st"
  shows "sorted (map queue_key (tv_queue st)) \<and> distinct (map qe_canonical_url (tv_queue st))
    \<and> (\<forall>e \<in> set (tv_queue st). qe_canonical_url e \<in> admitted st \<and> qe_canonical_url e \<notin> sampled st
        \<and> qe_seed_ids e \<noteq> [] \<and> distinct (qe_seed_ids e) \<and> set (qe_seed_ids e) \<subseteq> set ids
        \<and> (\<forall>p. qe_target_page_type_id e = Some p \<longrightarrow> p \<in> pt_id ` set (snap_page_types snapshot))
        \<and> (\<forall>i. qe_transition_id e = Some i \<longrightarrow> i \<in> tr_id ` set (snap_transitions snapshot)))"
proof -
  note s = frozen_start [OF start]
  have inv: "traversal_inv st" "synced st" "tv_context st = tv_context st0" "selected_seed_ids st = ids"
    using steps_keep [OF run s(1,2)] s(4) by simp_all
  then have queue: "queue_ok st" by (simp add: traversal_inv_def frontier_inv_def)
  have order: "tv_queue st = sort_key queue_key (bm_values (queued st))"
    using inv(2) by (simp add: synced_def frontier_order_def)
  have members: "qe_canonical_url e \<in> admitted st \<and> qe_canonical_url e \<notin> sampled st \<and> entry_ok st e"
    if "e \<in> set (tv_queue st)" for e
    using that queue by (auto simp: order bm_values_def queue_ok_def)
  have "map qe_canonical_url (bm_values (queued st)) = map fst (queued st)"
    using queue by (auto simp: queue_ok_def bm_values_def)
  moreover have "distinct (map fst (queued st))" by (rule bm_invar_distinct [OF queue_ok_invar [OF queue]])
  moreover have "mset (map qe_canonical_url (tv_queue st)) = mset (map qe_canonical_url (bm_values (queued st)))"
    unfolding order mset_map by simp
  ultimately have "distinct (map qe_canonical_url (tv_queue st))"
    using mset_eq_imp_distinct_iff by fastforce
  then show ?thesis
    using members s(5,9) inv(3,4) by (auto simp: order entry_ok_def)
qed

theorem frontier_is_work_list_witness:
  "\<exists>st0 st. preview_start = Inr st0 \<and> traversal_steps lab_sample preview_io st0 st
     \<and> map qe_canonical_url (tv_queue st) = [''https://a.test/?x''] \<and> ''https://a.test/?x'' \<notin> sampled st"
proof -
  obtain st0 r st where st0: "preview_start = Inr st0" and st: "step lab_sample preview_io st0 = Inr (r, st)"
    "map qe_canonical_url (tv_queue st) = [''https://a.test/?x'']" by (rule preview_first_state)
  have run: "traversal_steps lab_sample preview_io st0 st" using st(1) by (rule steps_step [OF steps_refl])
  from st(2) obtain e where "tv_queue st = [e]" "qe_canonical_url e = ''https://a.test/?x''" by (auto simp: map_eq_Cons_conv)
  then have "''https://a.test/?x'' \<notin> sampled st"
    using frontier_is_work_list [OF st0 [unfolded preview_start_def] run] by simp
  with st0 run st(2) show ?thesis by (intro exI conjI)
qed

section \<open>Termination\<close>

text \<open>
  C20. The traversal loop ends for every clock and every provider: a run over a frozen version returns a
  report or an error, and a run that returns a report made at most \<open>(max_pages + 1)\<^sup>2\<close> observations, in a
  state reachable by steps.  The bound is not \<open>max_pages\<close> itself: a redirect onto an identity admitted
  before frees one admission.
\<close>
theorem traverse_terminates:
  assumes start: "for_frozen_snapshot env io snapshot ids limits = Inr st0"
  shows "\<exists>r. traverse env io st0 = Some r
    \<and> (\<forall>st. r = Inr st \<longrightarrow> traversal_steps env io st0 st
         \<and> observe_calls st \<le> (unat (el_max_pages limits) + 1) ^ 2)"
proof -
  note s = frozen_start [OF start]
  let ?m = "unat (el_max_pages limits)"
  have "rank st0 \<le> ?m * Suc ?m + ?m"
    using expanded_bound(2) [OF s(1)] by (simp add: rank_def page_bound_def s(3,8))
  then have "rank st0 + 1 \<le> (?m + 1) ^ 2" by (simp add: power2_eq_square algebra_simps)
  with traverse_ends [OF s(1,2), of env io] s(7) show ?thesis by fastforce
qed

theorem traverse_terminates_witness:
  "\<exists>st0 r. preview_start = Inr st0 \<and> traverse lab_sample preview_io st0 = Some r
     \<and> (\<forall>st. r = Inr st \<longrightarrow> observe_calls st \<le> 9)"
proof -
  obtain st0 where st0: "preview_start = Inr st0" by (rule preview_first_state)
  from traverse_terminates [OF st0 [unfolded preview_start_def]] st0 show ?thesis
    by (auto simp: preview_limits_def)
qed

section \<open>Links of a page\<close>

text \<open>After the stable sort equal keys are adjacent, and the first link of a run of equal keys is kept.\<close>

lemma dedup_links_head: "ls \<noteq> [] \<Longrightarrow> \<exists>rest. dedup_links ls = hd ls # rest"
  by (induction ls rule: dedup_links.induct) auto

lemma dedup_links_subset: "set (dedup_links ls) \<subseteq> set ls"
  by (induction ls rule: dedup_links.induct) auto

lemma dedup_links_keys: "link_key ` set (dedup_links ls) = link_key ` set ls"
  by (induction ls rule: dedup_links.induct) auto

lemma dedup_links_distinct:
  "sorted (map link_key ls) \<Longrightarrow> distinct (map link_key (dedup_links ls))"
proof (induction ls rule: dedup_links.induct)
  case (1 kept later ls)
  show ?case
  proof (cases "link_key later = link_key kept")
    case False
    with 1(3) have "link_key kept < link_key x" if "x \<in> set (later # ls)" for x
      using that by (auto simp: less_le)
    then have "link_key kept \<notin> link_key ` set (dedup_links (later # ls))"
      unfolding dedup_links_keys by (metis image_iff less_irrefl)
    with 1 False show ?thesis by simp
  qed (use 1 in simp)
qed simp_all

text \<open>The kept link of a key is the first one with that key.\<close>

lemma dedup_links_first:
  assumes "sorted (map link_key ls)" "x \<in> set (dedup_links ls)"
  shows "find (\<lambda>l. link_key l = link_key x) ls = Some x"
  using assms
proof (induction ls rule: dedup_links.induct)
  case (1 kept later ls)
  show ?case
  proof (cases "link_key later = link_key kept")
    case True
    then have in_tail: "x \<in> set (dedup_links (kept # ls))" and sorted: "sorted (map link_key (kept # ls))"
      using 1(3,4) by auto
    from "1.IH"(1) [OF True sorted in_tail] show ?thesis by (auto simp: True split: if_splits)
  next
    case False
    show ?thesis
    proof (cases "x = kept")
      case in_rest: False
      then have mem: "x \<in> set (dedup_links (later # ls))" using 1(4) False by auto
      then have "link_key kept < link_key x"
        using dedup_links_subset [of "later # ls"] 1(3) False by (auto simp: less_le dest!: subsetD)
      moreover have "find (\<lambda>l. link_key l = link_key x) (later # ls) = Some x"
        using 1(3) by (intro "1.IH"(2) [OF False _ mem]) simp
      ultimately show ?thesis by auto
    qed simp
  qed
qed auto

lemma find_sort_key: "find (\<lambda>x. f x = k) (sort_key f xs) = find (\<lambda>x. f x = k) xs"
proof -
  have "find P ys = (case filter P ys of [] \<Rightarrow> None | y # _ \<Rightarrow> Some y)" for P and ys :: "'a list"
    by (induction ys) auto
  moreover have "filter (\<lambda>x. f x = k) (sort_key f xs) = filter (\<lambda>x. f x = k) xs" by (rule sort_key_stable)
  ultimately show ?thesis by metis
qed

lemma dedup_links_sorted: "sorted (map link_key ls) \<Longrightarrow> sorted (map link_key (dedup_links ls))"
proof (induction ls rule: dedup_links.induct)
  case (1 kept later ls)
  then show ?case
    using dedup_links_subset [of "later # ls"] by (auto split: if_splits dest!: subsetD)
qed simp_all

text \<open>The links of a page before they are sorted: regular ones first, then the pagination targets.\<close>

definition regular_links :: "PageObservation \<Rightarrow> TraversalObservedLink list" where
  "regular_links ob = map (\<lambda>l. \<lparr>tl_link = l, is_pagination = False\<rparr>) (discovered_links ob)"

definition paged_links :: "PageObservation \<Rightarrow> TraversalObservedLink list" where
  "paged_links ob = List.map_filter (\<lambda>p. map_option (\<lambda>u.
     \<lparr>tl_link = \<lparr>link_href = u, link_selector_of = po_selector p\<rparr>, is_pagination = True\<rparr>) (po_target_url p))
     (pagination_observations ob)"

lemma page_links_eq: "page_links ob = dedup_links (sort_key link_key (regular_links ob @ paged_links ob))"
  by (simp add: page_links_def regular_links_def paged_links_def)

lemma regular_links_keys: "link_key ` set (regular_links ob) = (\<lambda>r. (link_href r, link_selector_of r)) ` set (discovered_links ob)"
  by (simp add: regular_links_def link_key_def image_image)

lemma paged_links_keys: "link_key ` set (paged_links ob)
    = {(u, po_selector p) | p u. p \<in> set (pagination_observations ob) \<and> po_target_url p = Some u}"
  by (force simp: paged_links_def List.map_filter_def link_key_def image_iff)

lemma link_flags:
  "l \<in> set (regular_links ob) \<Longrightarrow> \<not> is_pagination l" "l \<in> set (paged_links ob) \<Longrightarrow> is_pagination l"
  by (auto simp: regular_links_def paged_links_def List.map_filter_def)

lemma find_append: "find P (xs @ ys) = (case find P xs of None \<Rightarrow> find P ys | Some x \<Rightarrow> Some x)"
  by (induction xs) auto

text \<open>The link that is kept is the first with its key, so a regular one when there is one.\<close>

lemma page_links_flag:
  assumes "l \<in> set (page_links ob)"
  shows "is_pagination l \<longleftrightarrow> link_key l \<notin> link_key ` set (regular_links ob)"
proof -
  have first: "find (\<lambda>x. link_key x = link_key l) (regular_links ob @ paged_links ob) = Some l"
    using dedup_links_first [of "sort_key link_key (regular_links ob @ paged_links ob)" l] assms
    by (simp add: page_links_eq find_sort_key)
  show ?thesis
  proof (cases "find (\<lambda>x. link_key x = link_key l) (regular_links ob)")
    case None
    then have "link_key l \<notin> link_key ` set (regular_links ob)" by (auto simp: find_None_iff)
    moreover have "l \<in> set (paged_links ob)" using first None by (auto simp: find_append find_Some_iff)
    ultimately show ?thesis using link_flags(2) by blast
  next
    case (Some x)
    then have "x = l" using first by (simp add: find_append)
    with Some have "l \<in> set (regular_links ob)" by (auto simp: find_Some_iff)
    then show ?thesis using link_flags(1) by blast
  qed
qed

text \<open>
  C23. The work list of a page holds every href and selector of its regular links and of its pagination
  targets, and nothing else, exactly once and in ascending order.  A link that the page has both as a
  regular link and as a pagination target is followed as a regular link: the flag that marks pagination is
  lost, because the closure given to \<open>dedup_by\<close> joins the flags into the link that is removed.  A link is
  followed as pagination exactly when no regular link has its href and selector.
\<close>
theorem coalesced_link_loses_pagination:
  "link_key ` set (page_links ob)
      = (\<lambda>r. (link_href r, link_selector_of r)) ` set (discovered_links ob)
        \<union> {(u, po_selector p) | p u. p \<in> set (pagination_observations ob) \<and> po_target_url p = Some u}
   \<and> distinct (map link_key (page_links ob)) \<and> sorted (map link_key (page_links ob))
   \<and> (\<forall>l \<in> set (page_links ob).
        is_pagination l \<longleftrightarrow> (\<forall>r \<in> set (discovered_links ob). (link_href r, link_selector_of r) \<noteq> link_key l))"
proof (intro conjI ballI)
  let ?links = "regular_links ob @ paged_links ob"
  have sorted: "sorted (map link_key (sort_key link_key ?links))" by simp
  show "link_key ` set (page_links ob)
      = (\<lambda>r. (link_href r, link_selector_of r)) ` set (discovered_links ob)
        \<union> {(u, po_selector p) | p u. p \<in> set (pagination_observations ob) \<and> po_target_url p = Some u}"
    unfolding page_links_eq dedup_links_keys regular_links_keys [symmetric] paged_links_keys [symmetric] by (simp add: image_Un)
  show "distinct (map link_key (page_links ob))" "sorted (map link_key (page_links ob))"
    using dedup_links_distinct [OF sorted] dedup_links_sorted [OF sorted] by (simp_all add: page_links_eq)
  show "is_pagination l \<longleftrightarrow> (\<forall>r \<in> set (discovered_links ob). (link_href r, link_selector_of r) \<noteq> link_key l)"
    if "l \<in> set (page_links ob)" for l
    unfolding page_links_flag [OF that] regular_links_keys by (auto intro: rev_image_eqI)
qed

definition paged_observation :: PageObservation where
  "paged_observation = (lab_observation [''n''])\<lparr>pagination_observations :=
     [\<lparr>po_kind = RelNext, po_selector = Some ''a'', po_target_url = Some ''n''\<rparr>,
      \<lparr>po_kind = RelNext, po_selector = Some ''b'', po_target_url = Some ''m''\<rparr>]\<rparr>"

theorem coalesced_link_loses_pagination_witness:
  "distinct (map link_key (page_links paged_observation)) \<and> map is_pagination (page_links paged_observation) = [True, False]"
proof -
  have "map is_pagination (page_links paged_observation) = [True, False]" by code_simp
  with coalesced_link_loses_pagination [of paged_observation] show ?thesis by simp
qed

section \<open>Redirects onto a pending root\<close>

text \<open>Two selected roots, the first of which redirects to the second: the pending entry of the second is
  dropped with its seed, so its seed is never reported as sampled although its page is.\<close>

definition two_roots :: "plain_url CrawlerSemanticSnapshot" where
  "two_roots = preview_snapshot\<lparr>snap_version := (snap_version preview_snapshot)
     \<lparr>cv_seeds := [new_seed ''s1'' (sample_url ''a'') (sample_url ''a''), new_seed ''s2'' (sample_url ''b'') (sample_url ''b'')]\<rparr>\<rparr>"

definition redirecting_io :: traversal_io where
  "redirecting_io = preview_io\<lparr>io_observe := (\<lambda>_ r. Inr (OutcomeObserved
     ((lab_observation [])\<lparr>requested_url := or_requested_url r, final_url := Some ''https://a.test/?b''\<rparr>) 10))\<rparr>"

lemma redirect_drops_pending_seed:
  "case res_bind (for_frozen_snapshot lab_sample redirecting_io two_roots [''s1'', ''s2''] preview_limits)
       (step lab_sample redirecting_io) of
     Inl _ \<Rightarrow> False
   | Inr (_, st) \<Rightarrow> \<not> has_pending_work st
       \<and> map (\<lambda>p. (pp_canonical_url p, pp_state p, pp_seed_ids p)) (tv_pages st)
           = [(Some ''https://a.test/?b'', Sampled, [''s1''])]
       \<and> map (\<lambda>s. (ps_seed_id s, ps_state s)) (seed_evidence st) = [(''s1'', Sampled), (''s2'', InScopeMatched)]"
  by code_simp

end
