(* ===== verification/Traversal_Checkpoint.thy ===== *)
theory Traversal_Checkpoint
  imports Traversal_Properties
begin

text \<open>
  The export of a traversal at a safe boundary and its restoration (\<open>checkpoint_state\<close>,
  \<open>restore_state\<close>, \<open>restore_from_checkpoint\<close> and \<open>restore_for_recovery\<close> of
  \<open>erabi-crawler/src/discovery_preview/service.rs\<close>).  A restored traversal continues with the same
  frontier, identities and counters.
\<close>

section \<open>Checkpoints\<close>

record SemanticTraversalQueueEntry =
  cq_requested_url :: string
  cq_canonical_url :: string
  cq_depth :: u32
  cq_seed_ids :: "SeedId list"
  cq_target_page_type_id :: "PageTypeId option"
  cq_transition_id :: "DiscoveryTransitionId option"
  cq_parent_canonical_url :: "string option"
  cq_pagination :: bool
  cq_discovered_url_id :: "string option"
  cq_order :: u64

record SemanticTraversalTransitionState =
  ct_transition_id :: DiscoveryTransitionId
  ct_name :: string
  ct_eligible_edges :: u64
  ct_source_pages :: "string list"

record SemanticTraversalCheckpoint =
  cp_selected_seed_ids :: "SeedId list"
  cp_pending :: "SemanticTraversalQueueEntry list"
  cp_admitted :: "string list"
  cp_seen :: "string list"
  cp_sampled :: "string list"
  cp_expanded :: "string list"
  cp_matching :: "string list"
  cp_unmatched :: "string list"
  cp_ambiguous :: "string list"
  cp_in_scope :: "string list"
  cp_consumed_bytes :: u64
  cp_pages_sampled :: u64
  cp_urls_discovered :: u64
  cp_duplicates_prevented :: u64
  cp_robots_excluded :: u64
  cp_provider_errors :: u64
  cp_external_urls :: u64
  cp_blocked_urls :: u64
  cp_newly_enqueued_urls :: u64
  cp_peak_new_from_page :: u64
  cp_time_budget_hit :: bool
  cp_pagination_truncation_count :: u64
  cp_duration_work_not_expanded :: bool
  cp_page_type_sampled :: "(PageTypeId \<times> u64) list"
  cp_page_type_discovered :: "(PageTypeId \<times> u64) list"
  cp_page_type_scheduled :: "(PageTypeId \<times> u64) list"
  cp_transition_counts :: "SemanticTraversalTransitionState list"
  cp_transition_page_counts :: "(DiscoveryTransitionId \<times> string \<times> u32) list"
  cp_elapsed_millis :: u64

definition export_entry :: "QueueEntry \<Rightarrow> SemanticTraversalQueueEntry" where
  "export_entry e =
     \<lparr>cq_requested_url = qe_requested_url e, cq_canonical_url = qe_canonical_url e, cq_depth = qe_depth e,
      cq_seed_ids = qe_seed_ids e, cq_target_page_type_id = qe_target_page_type_id e,
      cq_transition_id = qe_transition_id e, cq_parent_canonical_url = qe_parent_canonical_url e,
      cq_pagination = qe_pagination e, cq_discovered_url_id = None, cq_order = qe_order e\<rparr>"

definition import_entry :: "SemanticTraversalQueueEntry \<Rightarrow> QueueEntry" where
  "import_entry e =
     \<lparr>qe_requested_url = cq_requested_url e, qe_canonical_url = cq_canonical_url e, qe_depth = cq_depth e,
      qe_seed_ids = cq_seed_ids e, qe_target_page_type_id = cq_target_page_type_id e,
      qe_transition_id = cq_transition_id e, qe_parent_canonical_url = cq_parent_canonical_url e,
      qe_pagination = cq_pagination e, qe_order = cq_order e\<rparr>"

definition page_type_values :: "'u SemanticTraversal \<Rightarrow> (PageTypeId, u64) bmap \<Rightarrow> (PageTypeId \<times> u64) list" where
  "page_type_values st values =
     List.map_filter (\<lambda>pt. map_option (Pair (pt_id pt)) (bm_lookup values (pt_id pt))) (pc_page_types (tv_context st))"

definition export_transition :: "TransitionRuntimeCount \<Rightarrow> SemanticTraversalTransitionState" where
  "export_transition n =
     \<lparr>ct_transition_id = rc_transition_id n, ct_name = rc_name n, ct_eligible_edges = eligible_edges n,
      ct_source_pages = sorted_list_of_set (source_pages n)\<rparr>"

definition export_page_count ::
  "'u SemanticTraversal \<Rightarrow> (DiscoveryTransitionId \<times> string) \<times> u32 \<Rightarrow> (DiscoveryTransitionId \<times> string \<times> u32) option" where
  "export_page_count st kc = (case kc of ((i, source), n) \<Rightarrow>
     map_option (\<lambda>t. (tr_id t, source, n)) (find (\<lambda>t. tr_id t = i) (pc_transitions (tv_context st))))"

text \<open>The export reads the clock once more; the sets are exported in their order.\<close>

definition checkpoint_state ::
  "traversal_io \<Rightarrow> 'u SemanticTraversal \<Rightarrow> SemanticTraversalCheckpoint \<times> 'u SemanticTraversal" where
  "checkpoint_state io st =
     (let (elapsed, st1) = elapsed_millis io st in
      (\<lparr>cp_selected_seed_ids = selected_seed_ids st,
        cp_pending = sort_key (\<lambda>e. queue_key (import_entry e)) (map export_entry (bm_values (queued st))),
        cp_admitted = sorted_list_of_set (admitted st), cp_seen = sorted_list_of_set (seen st),
        cp_sampled = sorted_list_of_set (sampled st), cp_expanded = sorted_list_of_set (expanded st),
        cp_matching = sorted_list_of_set (matching_urls st), cp_unmatched = sorted_list_of_set (unmatched_urls st),
        cp_ambiguous = sorted_list_of_set (ambiguous_urls st), cp_in_scope = sorted_list_of_set (in_scope_urls st),
        cp_consumed_bytes = consumed_bytes st, cp_pages_sampled = pages_sampled st,
        cp_urls_discovered = urls_discovered st, cp_duplicates_prevented = duplicates_prevented st,
        cp_robots_excluded = robots_excluded st, cp_provider_errors = provider_errors st,
        cp_external_urls = external_urls st, cp_blocked_urls = blocked_urls st,
        cp_newly_enqueued_urls = newly_enqueued_urls st, cp_peak_new_from_page = peak_new_from_page st,
        cp_time_budget_hit = time_budget_hit st, cp_pagination_truncation_count = pagination_truncation_count st,
        cp_duration_work_not_expanded = duration_work_not_expanded st,
        cp_page_type_sampled = page_type_values st (page_type_sampled st),
        cp_page_type_discovered = page_type_values st (page_type_discovered st),
        cp_page_type_scheduled = page_type_values st (page_type_scheduled st),
        cp_transition_counts = map export_transition (bm_values (transition_counts st)),
        cp_transition_page_counts = List.map_filter (export_page_count st) (transition_page_counts st),
        cp_elapsed_millis = elapsed\<rparr>, st1))"

section \<open>Restoring\<close>

definition check_invalid :: "bool \<Rightarrow> DiscoveryPreviewError + unit" where
  "check_invalid bad = (if bad then Inl DpPersistedStateInvalid else Inr ())"

definition restorable_url :: "'u url_api \<Rightarrow> string \<Rightarrow> bool" where
  "restorable_url api v \<longleftrightarrow>
     (case url_parse api v of None \<Rightarrow> False
      | Some u \<Rightarrow> url_fragment api u = None \<and> length v \<le> MAX_PREVIEW_URL_CHARS)"

definition validate_restored_url :: "'u url_api \<Rightarrow> string \<Rightarrow> DiscoveryPreviewError + unit" where
  "validate_restored_url api v = check_invalid (\<not> restorable_url api v)"

fun collect_urls :: "'u url_api \<Rightarrow> string list \<Rightarrow> string set \<Rightarrow> DiscoveryPreviewError + string set" where
  "collect_urls api [] s = Inr s"
| "collect_urls api (v # vs) s =
     res_bind (validate_restored_url api v) (\<lambda>_.
     if v \<in> s then Inl DpPersistedStateInvalid else collect_urls api vs (insert v s))"

fun restore_page_type_counts ::
  "PageTypeId set \<Rightarrow> (PageTypeId \<times> u64) list \<Rightarrow> (PageTypeId, u64) bmap
    \<Rightarrow> DiscoveryPreviewError + (PageTypeId, u64) bmap" where
  "restore_page_type_counts known [] m = Inr m"
| "restore_page_type_counts known ((i, n) # vs) m =
     (if i \<notin> known \<or> bm_lookup m i \<noteq> None then Inl DpPersistedStateInvalid
      else restore_page_type_counts known vs (bm_insert i n m))"

fun restore_transition_counts ::
  "DiscoveryTransition list \<Rightarrow> SemanticTraversalTransitionState list \<Rightarrow> (DiscoveryTransitionId, TransitionRuntimeCount) bmap
    \<Rightarrow> DiscoveryPreviewError + (DiscoveryTransitionId, TransitionRuntimeCount) bmap" where
  "restore_transition_counts ts [] m = (if length m \<noteq> length ts then Inl DpPersistedStateInvalid else Inr m)"
| "restore_transition_counts ts (v # vs) m =
     (case find (\<lambda>t. tr_id t = ct_transition_id v) ts of
        None \<Rightarrow> Inl DpPersistedStateInvalid
      | Some t \<Rightarrow>
          if tr_name t \<noteq> ct_name v \<or> bm_lookup m (ct_transition_id v) \<noteq> None then Inl DpPersistedStateInvalid
          else restore_transition_counts ts vs (bm_insert (ct_transition_id v)
            \<lparr>rc_transition_id = ct_transition_id v, rc_name = ct_name v, eligible_edges = ct_eligible_edges v,
             source_pages = set (ct_source_pages v)\<rparr> m))"

fun restore_page_counts ::
  "'u url_api \<Rightarrow> DiscoveryTransitionId set \<Rightarrow> (DiscoveryTransitionId \<times> string \<times> u32) list
    \<Rightarrow> (DiscoveryTransitionId \<times> string, u32) bmap
    \<Rightarrow> DiscoveryPreviewError + (DiscoveryTransitionId \<times> string, u32) bmap" where
  "restore_page_counts api known [] m = Inr m"
| "restore_page_counts api known ((i, source, n) # vs) m =
     res_bind (validate_restored_url api source) (\<lambda>_.
     if i \<notin> known \<or> bm_lookup m (i, source) \<noteq> None then Inl DpPersistedStateInvalid
     else restore_page_counts api known vs (bm_insert (i, source) n m))"

text \<open>One pending entry; \<open>#\<close> is rejected anywhere in its URLs.\<close>

definition restored_entry_ok ::
  "'u lab_env \<Rightarrow> 'u SemanticTraversal \<Rightarrow> string set \<Rightarrow> string set \<Rightarrow> string set \<Rightarrow> SemanticTraversalQueueEntry \<Rightarrow> bool" where
  "restored_entry_ok env st adm smp expd e \<longleftrightarrow>
     CHR ''#'' \<notin> set (cq_requested_url e) \<and> CHR ''#'' \<notin> set (cq_canonical_url e)
     \<and> cq_seed_ids e \<noteq> [] \<and> distinct (cq_seed_ids e)
     \<and> cq_depth e \<le> el_max_depth (tv_limits st)
     \<and> list_all (\<lambda>i. i \<in> set (selected_seed_ids st)) (cq_seed_ids e)
     \<and> cq_canonical_url e \<in> adm \<and> cq_canonical_url e \<notin> smp \<and> cq_canonical_url e \<notin> expd
     \<and> (case cq_target_page_type_id e of None \<Rightarrow> True | Some p \<Rightarrow> p \<in> pt_id ` set (pc_page_types (tv_context st)))
     \<and> (case cq_transition_id e of None \<Rightarrow> True | Some i \<Rightarrow> i \<in> tr_id ` set (pc_transitions (tv_context st)))
     \<and> (case cq_parent_canonical_url e of None \<Rightarrow> True | Some v \<Rightarrow> restorable_url (lab_api env) v)
     \<and> (case cq_discovered_url_id e of None \<Rightarrow> True | Some v \<Rightarrow> v \<noteq> [] \<and> length v \<le> 512)"

fun restore_pending ::
  "'u lab_env \<Rightarrow> 'u SemanticTraversal \<Rightarrow> string set \<Rightarrow> string set \<Rightarrow> string set
    \<Rightarrow> SemanticTraversalQueueEntry list \<Rightarrow> (string, QueueEntry) bmap
    \<Rightarrow> DiscoveryPreviewError + (string, QueueEntry) bmap" where
  "restore_pending env st adm smp expd [] m = Inr m"
| "restore_pending env st adm smp expd (e # es) m =
     res_bind (validate_restored_url (lab_api env) (cq_requested_url e)) (\<lambda>_.
     res_bind (validate_restored_url (lab_api env) (cq_canonical_url e)) (\<lambda>_.
     if \<not> restored_entry_ok env st adm smp expd e \<or> bm_lookup m (cq_canonical_url e) \<noteq> None
     then Inl DpPersistedStateInvalid
     else restore_pending env st adm smp expd es (bm_insert (cq_canonical_url e) (import_entry e) m)))"

definition restored_seed :: "'u lab_env \<Rightarrow> 'u Seed \<Rightarrow> DiscoveryPreviewSeed" where
  "restored_seed env seed =
     \<lparr>ps_seed_id = seed_id seed, ps_requested_url = url_as_str (lab_api env) (original_url seed),
      ps_canonical_url = url_as_str (lab_api env) (canonical_url seed),
      ps_entry_page_type_hint = entry_page_type_hint seed, ps_state = InScopeMatched, ps_duplicate_of = None,
      ps_scope = None, ps_page_type_match = None, ps_budget_hits = []\<rparr>"

definition sets_consistent ::
  "string set \<Rightarrow> string set \<Rightarrow> string set \<Rightarrow> string set \<Rightarrow> string set \<Rightarrow> string set \<Rightarrow> string set \<Rightarrow> string set \<Rightarrow> bool" where
  "sets_consistent adm sn smp expd mat unm amb ins \<longleftrightarrow>
     adm \<subseteq> sn \<and> smp \<subseteq> sn \<and> expd \<subseteq> smp \<and> mat \<subseteq> ins \<and> unm \<subseteq> ins \<and> amb \<subseteq> ins
     \<and> mat \<inter> unm = {} \<and> mat \<inter> amb = {} \<and> unm \<inter> amb = {}"

definition restore_state ::
  "'u lab_env \<Rightarrow> SemanticTraversalCheckpoint \<Rightarrow> 'u Seed list \<Rightarrow> 'u SemanticTraversal
    \<Rightarrow> DiscoveryPreviewError + 'u SemanticTraversal" where
  "restore_state env cp seeds st =
     (let api = lab_api env; ctx = tv_context st; limits = tv_limits st in
      res_bind (check_invalid (\<not> distinct (selected_seed_ids st) \<or> cp_selected_seed_ids cp \<noteq> selected_seed_ids st)) (\<lambda>_.
      res_bind (collect_urls api (cp_admitted cp) {}) (\<lambda>adm.
      res_bind (collect_urls api (cp_seen cp) {}) (\<lambda>sn.
      res_bind (collect_urls api (cp_sampled cp) {}) (\<lambda>smp.
      res_bind (collect_urls api (cp_expanded cp) {}) (\<lambda>expd.
      res_bind (collect_urls api (cp_matching cp) {}) (\<lambda>mat.
      res_bind (collect_urls api (cp_unmatched cp) {}) (\<lambda>unm.
      res_bind (collect_urls api (cp_ambiguous cp) {}) (\<lambda>amb.
      res_bind (collect_urls api (cp_in_scope cp) {}) (\<lambda>ins.
      res_bind (check_invalid (\<not> sets_consistent adm sn smp expd mat unm amb ins)) (\<lambda>_.
      res_bind (check_invalid (set_len adm > el_max_pages limits \<or> cp_consumed_bytes cp > el_max_downloaded_bytes limits
          \<or> cp_pages_sampled cp \<noteq> set_len smp \<or> cp_newly_enqueued_urls cp \<noteq> set_len adm)) (\<lambda>_.
      res_bind (restore_pending env st adm smp expd (cp_pending cp) []) (\<lambda>pending.
      let pts = pt_id ` set (pc_page_types ctx); trs = tr_id ` set (pc_transitions ctx) in
      res_bind (restore_page_counts api trs (cp_transition_page_counts cp) []) (\<lambda>page_counts.
      res_bind (restore_page_type_counts pts (cp_page_type_sampled cp) []) (\<lambda>pt_sampled.
      res_bind (restore_page_type_counts pts (cp_page_type_discovered cp) []) (\<lambda>pt_discovered.
      res_bind (restore_page_type_counts pts (cp_page_type_scheduled cp) []) (\<lambda>pt_scheduled.
      res_bind (restore_transition_counts (pc_transitions ctx) (cp_transition_counts cp) []) (\<lambda>counts.
      Inr (rebuild_queue (st\<lparr>queued := pending, admitted := adm, seen := sn, sampled := smp, expanded := expd,
        matching_urls := mat, unmatched_urls := unm, ambiguous_urls := amb, in_scope_urls := ins,
        consumed_bytes := cp_consumed_bytes cp, pages_sampled := cp_pages_sampled cp,
        urls_discovered := cp_urls_discovered cp, duplicates_prevented := cp_duplicates_prevented cp,
        robots_excluded := cp_robots_excluded cp, provider_errors := cp_provider_errors cp,
        external_urls := cp_external_urls cp, blocked_urls := cp_blocked_urls cp,
        newly_enqueued_urls := cp_newly_enqueued_urls cp, peak_new_from_page := cp_peak_new_from_page cp,
        time_budget_hit := cp_time_budget_hit cp, pagination_truncation_count := cp_pagination_truncation_count cp,
        duration_work_not_expanded := cp_duration_work_not_expanded cp, page_type_sampled := pt_sampled,
        page_type_discovered := pt_discovered, page_type_scheduled := pt_scheduled, transition_counts := counts,
        transition_page_counts := page_counts, tv_seeds := map (restored_seed env) seeds\<rparr>))))))))))))))))))))"

definition restore_from_checkpoint ::
  "'u lab_env \<Rightarrow> traversal_io \<Rightarrow> 'u CrawlerSemanticSnapshot \<Rightarrow> SeedId list \<Rightarrow> EffectiveDiscoveryPreviewLimits
    \<Rightarrow> SemanticTraversalCheckpoint \<Rightarrow> DiscoveryPreviewError + 'u SemanticTraversal" where
  "restore_from_checkpoint env io snapshot ids limits cp =
     res_bind (context_from_snapshot env snapshot limits) (\<lambda>ctx.
     res_bind (select_seeds env ctx ids) (\<lambda>seeds.
     if cp_selected_seed_ids cp \<noteq> ids then Inl DpPersistedStateInvalid
     else restore_state env cp seeds
       (traversal_new ctx ids (saturating_sub (io_clock io 0) (cp_elapsed_millis cp)) 1)))"

text \<open>Recovery replaces the frontier by the entries chosen; they may have been sampled before.\<close>

definition recoverable_url :: "'u url_api \<Rightarrow> string \<Rightarrow> bool" where
  "recoverable_url api v \<longleftrightarrow> url_parse api v \<noteq> None \<and> CHR ''#'' \<notin> set v \<and> \<not> any_char is_control v
     \<and> length v \<le> MAX_PREVIEW_URL_CHARS"

definition recovery_entry_ok :: "'u lab_env \<Rightarrow> 'u SemanticTraversal \<Rightarrow> SemanticTraversalQueueEntry \<Rightarrow> bool" where
  "recovery_entry_ok env st e \<longleftrightarrow>
     recoverable_url (lab_api env) (cq_requested_url e) \<and> recoverable_url (lab_api env) (cq_canonical_url e)
     \<and> cq_depth e \<le> el_max_depth (tv_limits st) \<and> cq_canonical_url e \<in> admitted st
     \<and> bm_lookup (queued st) (cq_canonical_url e) = None \<and> cq_seed_ids e \<noteq> []
     \<and> list_all (\<lambda>i. i \<in> set (selected_seed_ids st)) (cq_seed_ids e)
     \<and> (case cq_target_page_type_id e of None \<Rightarrow> True | Some p \<Rightarrow> p \<in> pt_id ` set (pc_page_types (tv_context st)))
     \<and> (case cq_transition_id e of None \<Rightarrow> True | Some i \<Rightarrow> i \<in> tr_id ` set (pc_transitions (tv_context st)))
     \<and> (case cq_parent_canonical_url e of None \<Rightarrow> True | Some v \<Rightarrow> recoverable_url (lab_api env) v)
     \<and> (case cq_discovered_url_id e of None \<Rightarrow> True | Some v \<Rightarrow> v \<noteq> [] \<and> length v \<le> 512)"

fun admit_recovery ::
  "'u lab_env \<Rightarrow> SemanticTraversalQueueEntry list \<Rightarrow> 'u SemanticTraversal \<Rightarrow> DiscoveryPreviewError + 'u SemanticTraversal" where
  "admit_recovery env [] st = Inr st"
| "admit_recovery env (e # es) st =
     (if \<not> recovery_entry_ok env st e then Inl DpPersistedStateInvalid
      else admit_recovery env es (st\<lparr>queued := bm_insert (cq_canonical_url e) (import_entry e) (queued st)\<rparr>))"

definition restore_for_recovery ::
  "'u lab_env \<Rightarrow> traversal_io \<Rightarrow> 'u CrawlerSemanticSnapshot \<Rightarrow> SeedId list \<Rightarrow> EffectiveDiscoveryPreviewLimits
    \<Rightarrow> SemanticTraversalCheckpoint \<Rightarrow> SemanticTraversalQueueEntry list \<Rightarrow> DiscoveryPreviewError + 'u SemanticTraversal" where
  "restore_for_recovery env io snapshot ids limits cp entries =
     res_bind (restore_from_checkpoint env io snapshot ids limits cp) (\<lambda>st.
     res_bind (admit_recovery env entries (rebuild_queue (st\<lparr>queued := []\<rparr>))) (\<lambda>st1.
     Inr (rebuild_queue st1)))"

section \<open>What is exported is restored\<close>

lemma collect_urls_ok:
  "\<forall>v \<in> set vs. restorable_url api v \<Longrightarrow> distinct vs \<Longrightarrow> set vs \<inter> s = {}
     \<Longrightarrow> collect_urls api vs s = Inr (s \<union> set vs)"
  by (induction vs arbitrary: s) (auto simp: validate_restored_url_def check_invalid_def)

lemma collect_set:
  "finite s \<Longrightarrow> \<forall>v \<in> s. restorable_url api v \<Longrightarrow> collect_urls api (sorted_list_of_set s) {} = Inr s"
  using collect_urls_ok [of "sorted_list_of_set s" api "{}"] by simp

text \<open>Each restoring loop inserts its key-value pairs one after the other.\<close>

abbreviation insert_all :: "('k::linorder \<times> 'v) list \<Rightarrow> ('k, 'v) bmap \<Rightarrow> ('k, 'v) bmap" where
  "insert_all kvs m \<equiv> fold (\<lambda>(k, v). bm_insert k v) kvs m"

lemma bm_eqI:
  assumes "bm_invar a" "bm_invar b" "set a = set b"
  shows "a = b"
proof (rule map_sorted_distinct_set_unique [where f = fst])
  show "inj_on fst (set a \<union> set b)"
    using bm_invar_distinct [OF assms(1)] assms(3) by (simp add: distinct_map)
  show "sorted (map fst a)" "distinct (map fst a)" "sorted (map fst b)" "distinct (map fst b)"
    using assms(1,2) by (simp_all add: bm_invar_def strict_sorted_iff)
qed (rule assms(3))

lemma insert_all_set:
  "bm_invar m \<Longrightarrow> distinct (map fst kvs) \<Longrightarrow> fst ` set kvs \<inter> fst ` set m = {}
     \<Longrightarrow> set (insert_all kvs m) = set m \<union> set kvs"
proof (induction kvs arbitrary: m)
  case (Cons p kvs)
  obtain k v where p: "p = (k, v)" by force
  have "{q \<in> set m. fst q \<noteq> k} = set m" using Cons.prems(3) by (auto simp: p)
  then have "set (bm_insert k v m) = insert (k, v) (set m)" using Cons.prems(1) by (simp add: set_bm_insert)
  moreover have "set (insert_all kvs (bm_insert k v m)) = set (bm_insert k v m) \<union> set kvs"
    using Cons.prems by (intro Cons.IH) (auto simp: p bm_insert_invar keys_bm_insert)
  ultimately show ?case by (auto simp: p)
qed simp

lemma bm_collect_set: "distinct (map fst kvs) \<Longrightarrow> set (bm_collect kvs) = set kvs"
  using insert_all_set [of "[]" kvs] by (simp add: bm_collect_def)

lemma bm_collect_same:
  assumes "bm_invar m" "mset kvs = mset m"
  shows "bm_collect kvs = m"
proof (rule bm_eqI [OF bm_collect_invar assms(1)])
  have "mset (map fst kvs) = mset (map fst m)" by (simp only: mset_map assms(2))
  from mset_eq_imp_distinct_iff [OF this] have "distinct (map fst kvs)"
    using bm_invar_distinct [OF assms(1)] by simp
  then show "set (bm_collect kvs) = set m" using mset_eq_setD [OF assms(2)] by (simp only: bm_collect_set)
qed

lemma distinct_head: "distinct (map f (x # xs)) \<Longrightarrow> y \<in> set xs \<Longrightarrow> f y \<noteq> f x"
proof
  assume "distinct (map f (x # xs))" "y \<in> set xs" "f y = f x"
  moreover from \<open>y \<in> set xs\<close> have "f y \<in> f ` set xs" by (rule imageI)
  ultimately show False by simp
qed

lemma restore_pending_ok:
  assumes "\<forall>e \<in> set es. restorable_url (lab_api env) (cq_requested_url e) \<and> restorable_url (lab_api env) (cq_canonical_url e)
      \<and> restored_entry_ok env st adm smp expd e"
    and "distinct (map cq_canonical_url es)" and "\<forall>e \<in> set es. bm_lookup m (cq_canonical_url e) = None"
  shows "restore_pending env st adm smp expd es m = Inr (insert_all (map (\<lambda>e. (cq_canonical_url e, import_entry e)) es) m)"
  using assms
proof (induction es arbitrary: m)
  case (Cons e es)
  let ?m = "bm_insert (cq_canonical_url e) (import_entry e) m"
  have "\<forall>x \<in> set es. bm_lookup ?m (cq_canonical_url x) = None"
    using Cons.prems(3) by (simp add: bm_insert_lookup distinct_head [OF Cons.prems(2)])
  then have "restore_pending env st adm smp expd es ?m = Inr (insert_all (map (\<lambda>e. (cq_canonical_url e, import_entry e)) es) ?m)"
    using Cons.prems by (intro Cons.IH) simp_all
  with Cons.prems show ?case by (simp add: validate_restored_url_def check_invalid_def)
qed simp

lemma restore_page_type_counts_ok:
  "\<forall>p \<in> set kvs. fst p \<in> known \<and> bm_lookup m (fst p) = None \<Longrightarrow> distinct (map fst kvs)
     \<Longrightarrow> restore_page_type_counts known kvs m = Inr (insert_all kvs m)"
proof (induction kvs arbitrary: m)
  case (Cons p kvs)
  obtain k n where p: "p = (k, n)" by force
  have "restore_page_type_counts known kvs (bm_insert k n m) = Inr (insert_all kvs (bm_insert k n m))"
    using Cons.prems(1) distinct_head [OF Cons.prems(2)] Cons.prems(2)
    by (intro Cons.IH) (simp_all add: bm_insert_lookup p)
  with Cons.prems(1) show ?case by (simp add: p)
qed simp

lemma restore_page_counts_ok:
  "\<forall>(i, s, n) \<in> set vs. restorable_url api s \<and> i \<in> known \<and> bm_lookup m (i, s) = None
     \<Longrightarrow> distinct (map (\<lambda>(i, s, n). (i, s)) vs)
     \<Longrightarrow> restore_page_counts api known vs m = Inr (insert_all (map (\<lambda>(i, s, n). ((i, s), n)) vs) m)"
proof (induction vs arbitrary: m)
  case (Cons p vs)
  obtain i s n where p: "p = (i, s, n)" by (cases p)
  have "restore_page_counts api known vs (bm_insert (i, s) n m)
      = Inr (insert_all (map (\<lambda>(i, s, n). ((i, s), n)) vs) (bm_insert (i, s) n m))"
    using Cons.prems(1) distinct_head [OF Cons.prems(2)] Cons.prems(2)
    by (intro Cons.IH) (fastforce simp: bm_insert_lookup p)+
  with Cons.prems(1) show ?case by (simp add: p validate_restored_url_def check_invalid_def)
qed simp

definition import_transition :: "SemanticTraversalTransitionState \<Rightarrow> TransitionRuntimeCount" where
  "import_transition v = \<lparr>rc_transition_id = ct_transition_id v, rc_name = ct_name v,
     eligible_edges = ct_eligible_edges v, source_pages = set (ct_source_pages v)\<rparr>"

lemma restore_transition_counts_ok:
  assumes "distinct (map tr_id ts)"
  shows "\<forall>v \<in> set vs. (\<exists>t \<in> set ts. tr_id t = ct_transition_id v \<and> tr_name t = ct_name v)
        \<and> bm_lookup m (ct_transition_id v) = None \<Longrightarrow>
      distinct (map ct_transition_id vs) \<Longrightarrow>
      length (insert_all (map (\<lambda>v. (ct_transition_id v, import_transition v)) vs) m) = length ts \<Longrightarrow>
      restore_transition_counts ts vs m = Inr (insert_all (map (\<lambda>v. (ct_transition_id v, import_transition v)) vs) m)"
proof (induction vs arbitrary: m)
  case (Cons v vs)
  from Cons.prems(1) obtain t where t: "t \<in> set ts" "tr_id t = ct_transition_id v" "tr_name t = ct_name v" by auto
  have found: "find (\<lambda>t. tr_id t = ct_transition_id v) ts = Some t"
  proof (cases "find (\<lambda>t. tr_id t = ct_transition_id v) ts")
    case None
    with t show ?thesis by (auto simp: find_None_iff)
  next
    case (Some u)
    then have "u \<in> set ts" "tr_id u = tr_id t" using t by (auto simp: find_Some_iff)
    with assms t(1) Some show ?thesis by (simp add: distinct_map_unique)
  qed
  have "restore_transition_counts ts vs (bm_insert (ct_transition_id v) (import_transition v) m)
      = Inr (insert_all (map (\<lambda>v. (ct_transition_id v, import_transition v)) vs)
          (bm_insert (ct_transition_id v) (import_transition v) m))"
  proof (rule Cons.IH)
    show "\<forall>x \<in> set vs. (\<exists>t \<in> set ts. tr_id t = ct_transition_id x \<and> tr_name t = ct_name x)
        \<and> bm_lookup (bm_insert (ct_transition_id v) (import_transition v) m) (ct_transition_id x) = None"
      using Cons.prems(1) by (simp add: bm_insert_lookup distinct_head [OF Cons.prems(2)])
  qed (use Cons.prems in simp_all)
  then show ?case using Cons.prems(1) t found by (simp add: import_transition_def)
qed simp

lemma import_export [simp]: "import_entry (export_entry e) = e"
  by (simp add: import_entry_def export_entry_def)

lemma export_fields [simp]:
  "cq_requested_url (export_entry e) = qe_requested_url e" "cq_canonical_url (export_entry e) = qe_canonical_url e"
  "cq_depth (export_entry e) = qe_depth e" "cq_seed_ids (export_entry e) = qe_seed_ids e"
  "cq_target_page_type_id (export_entry e) = qe_target_page_type_id e"
  "cq_transition_id (export_entry e) = qe_transition_id e" "cq_discovered_url_id (export_entry e) = None"
  "cq_parent_canonical_url (export_entry e) = qe_parent_canonical_url e"
  by (simp_all add: export_entry_def)

text \<open>What the URL library has to accept for a traversal to be restorable: its URLs parse again, carry no
  fragment and stay within the length bound.\<close>

definition storable :: "'u lab_env \<Rightarrow> 'u SemanticTraversal \<Rightarrow> bool" where
  "storable env st \<longleftrightarrow>
     (\<forall>u \<in> seen st. restorable_url (lab_api env) u) \<and> (\<forall>u \<in> in_scope_urls st. restorable_url (lab_api env) u)
     \<and> (\<forall>p \<in> set (transition_page_counts st). restorable_url (lab_api env) (snd (fst p)))
     \<and> (\<forall>e \<in> set (tv_queue st). restorable_url (lab_api env) (qe_requested_url e)
          \<and> CHR ''#'' \<notin> set (qe_requested_url e) \<and> CHR ''#'' \<notin> set (qe_canonical_url e)
          \<and> (case qe_parent_canonical_url e of None \<Rightarrow> True | Some v \<Rightarrow> restorable_url (lab_api env) v))"

lemma pending_restored:
  assumes inv: "traversal_inv st" "synced st" and storable: "storable env st"
    and ctx: "tv_context n = tv_context st" "selected_seed_ids n = selected_seed_ids st"
  shows "restore_pending env n (admitted st) (sampled st) (expanded st)
      (sort_key (\<lambda>e. queue_key (import_entry e)) (map export_entry (bm_values (queued st)))) [] = Inr (queued st)"
proof -
  let ?es = "sort_key (\<lambda>e. queue_key (import_entry e)) (map export_entry (bm_values (queued st)))"
  from inv(1) have parts: "queue_ok st" "sets_ok st" by (simp_all add: traversal_inv_def frontier_inv_def)
  have queue: "set (tv_queue st) = snd ` set (queued st)"
    using inv(2) by (simp add: synced_def frontier_order_def bm_values_def)
  have keys: "map qe_canonical_url (bm_values (queued st)) = map fst (queued st)"
    using parts(1) by (auto simp: queue_ok_def bm_values_def)
  have "restorable_url (lab_api env) (cq_requested_url e) \<and> restorable_url (lab_api env) (cq_canonical_url e)
      \<and> restored_entry_ok env n (admitted st) (sampled st) (expanded st) e" if "e \<in> set ?es" for e
  proof -
    from that obtain k x where x: "(k, x) \<in> set (queued st)" "e = export_entry x" by (auto simp: bm_values_def)
    then have entry: "entry_ok st x" "qe_canonical_url x \<in> admitted st" "qe_canonical_url x \<notin> sampled st"
      using parts(1) by (auto simp: queue_ok_def)
    then have others: "qe_canonical_url x \<in> seen st" "qe_canonical_url x \<notin> expanded st"
      using parts(2) by (auto simp: sets_ok_def)
    have "x \<in> set (tv_queue st)" using x(1) queue by force
    with storable have "restorable_url (lab_api env) (qe_requested_url x)" "CHR ''#'' \<notin> set (qe_requested_url x)"
        "CHR ''#'' \<notin> set (qe_canonical_url x)"
        "case qe_parent_canonical_url x of None \<Rightarrow> True | Some v \<Rightarrow> restorable_url (lab_api env) v"
      by (simp_all add: storable_def)
    moreover have "restorable_url (lab_api env) (qe_canonical_url x)" using storable others(1) by (simp add: storable_def)
    ultimately show ?thesis
      using entry others by (simp add: restored_entry_ok_def entry_ok_def x(2) ctx subset_iff list_all_iff split: option.splits)
  qed
  moreover have "mset (map cq_canonical_url ?es) = mset (map fst (queued st))"
    by (simp add: keys [symmetric] multiset.map_comp o_def)
  then have "distinct (map cq_canonical_url ?es)"
    using mset_eq_imp_distinct_iff bm_invar_distinct [OF queue_ok_invar [OF parts(1)]] by blast
  ultimately have run: "restore_pending env n (admitted st) (sampled st) (expanded st) ?es []
      = Inr (bm_collect (map (\<lambda>e. (cq_canonical_url e, import_entry e)) ?es))"
    unfolding bm_collect_def by (intro restore_pending_ok) (simp_all add: bm_lookup_def)
  have "mset (map (\<lambda>e. (cq_canonical_url e, import_entry e)) ?es) = mset (queued st)"
  proof -
    have "map (\<lambda>p. (qe_canonical_url (snd p), snd p)) (queued st) = queued st"
      by (intro map_idI) (use parts(1) in \<open>auto simp: queue_ok_def\<close>)
    then have same: "map (\<lambda>e. (cq_canonical_url e, import_entry e)) (map export_entry (bm_values (queued st))) = queued st"
      by (simp add: bm_values_def o_def)
    have "mset (map (\<lambda>e. (cq_canonical_url e, import_entry e)) ?es)
        = mset (map (\<lambda>e. (cq_canonical_url e, import_entry e)) (map export_entry (bm_values (queued st))))"
      by (simp only: mset_map mset_sort)
    then show ?thesis unfolding same .
  qed
  with bm_collect_same [OF queue_ok_invar [OF parts(1)]] run show ?thesis by (simp only:)
qed

lemma page_counts_restored:
  assumes inv: "transitions_ok st" "context_ok st" and storable: "storable env st"
  shows "restore_page_counts (lab_api env) (tr_id ` set (pc_transitions (tv_context st)))
      (List.map_filter (export_page_count st) (transition_page_counts st)) [] = Inr (transition_page_counts st)"
proof -
  let ?m = "transition_page_counts st" and ?ts = "pc_transitions (tv_context st)"
  have found: "find (\<lambda>t. tr_id t = i) ?ts \<noteq> None" if "i \<in> tr_id ` set ?ts" for i
    using that by (auto simp: find_None_iff)
  have export: "export_page_count st ((i, s), n) = Some (i, s, n)" if "i \<in> tr_id ` set ?ts" for i s n
    using found [OF that] by (auto simp: export_page_count_def find_Some_iff)
  have members: "fst (fst p) \<in> tr_id ` set ?ts \<and> restorable_url (lab_api env) (snd (fst p))" if "p \<in> set ?m" for p
    using that inv(1) storable by (cases p) (auto simp: transitions_ok_def storable_def)
  have "List.map_filter (export_page_count st) m = map (\<lambda>((i, s), n). (i, s, n)) m" if "set m \<subseteq> set ?m" for m
    using that
  proof (induction m)
    case (Cons p m)
    obtain i s n where p: "p = ((i, s), n)" by (metis surj_pair)
    with Cons.prems members [of p] have "export_page_count st p = Some (i, s, n)" by (simp add: export)
    with Cons p show ?case by (simp add: List.map_filter_simps)
  qed (simp add: List.map_filter_simps)
  then have exported: "List.map_filter (export_page_count st) ?m = map (\<lambda>((i, s), n). (i, s, n)) ?m" by simp
  have again: "map (\<lambda>(i, s, n). ((i, s), n)) (map (\<lambda>((i, s), n). (i, s, n)) ?m) = ?m"
    "map (\<lambda>(i, s, n). (i, s)) (map (\<lambda>((i, s), n). (i, s, n)) ?m) = map fst ?m"
    by (auto simp: case_prod_unfold intro: map_idI)
  have invar: "bm_invar ?m" using inv(1) by (simp add: transitions_ok_def)
  have "restore_page_counts (lab_api env) (tr_id ` set ?ts) (map (\<lambda>((i, s), n). (i, s, n)) ?m) []
      = Inr (bm_collect (map (\<lambda>(i, s, n). ((i, s), n)) (map (\<lambda>((i, s), n). (i, s, n)) ?m)))"
    unfolding bm_collect_def
  proof (rule restore_page_counts_ok)
    show "\<forall>(i, s, n) \<in> set (map (\<lambda>((i, s), n). (i, s, n)) ?m). restorable_url (lab_api env) s
        \<and> i \<in> tr_id ` set ?ts \<and> bm_lookup [] (i, s) = None"
      using members by (force simp: bm_lookup_def)
    show "distinct (map (\<lambda>(i, s, n). (i, s)) (map (\<lambda>((i, s), n). (i, s, n)) ?m))"
      unfolding again(2) by (rule bm_invar_distinct [OF invar])
  qed
  then show ?thesis using bm_collect_same [OF invar, of ?m] by (simp only: exported again(1))
qed

lemma transition_counts_restored:
  assumes inv: "transitions_ok st" "context_ok st"
  shows "restore_transition_counts (pc_transitions (tv_context st)) (map export_transition (bm_values (transition_counts st))) []
    = Inr (transition_counts st)"
proof -
  let ?m = "transition_counts st" and ?ts = "pc_transitions (tv_context st)"
  let ?vs = "map export_transition (bm_values ?m)"
  have invar: "bm_invar ?m" using inv(1) by (simp add: transitions_ok_def)
  have members: "rc_transition_id n = k \<and> finite (source_pages n) \<and> (\<exists>t \<in> set ?ts. tr_id t = k \<and> tr_name t = rc_name n)"
    if "(k, n) \<in> set ?m" for k n
    using inv(1) that by (fastforce simp: transitions_ok_def)
  have again: "map (\<lambda>v. (ct_transition_id v, import_transition v)) ?vs = ?m"
    using members by (auto simp: bm_values_def export_transition_def import_transition_def intro!: map_idI)
  have ids: "map ct_transition_id ?vs = map fst ?m"
    using members by (auto simp: bm_values_def export_transition_def)
  have collect: "insert_all ?m [] = ?m" using bm_collect_same [OF invar refl] by (simp add: bm_collect_def)
  have "card (fst ` set ?m) = card (tr_id ` set ?ts)" using inv(1) by (simp add: transitions_ok_def)
  then have "length ?m = length ?ts"
    using bm_invar_distinct [OF invar] inv(2) by (metis context_ok_def distinct_card length_map list.set_map)
  moreover have "\<forall>v \<in> set ?vs. (\<exists>t \<in> set ?ts. tr_id t = ct_transition_id v \<and> tr_name t = ct_name v)
      \<and> bm_lookup [] (ct_transition_id v) = None"
    using members by (fastforce simp: bm_values_def export_transition_def bm_lookup_def)
  moreover have "distinct (map ct_transition_id ?vs)" using bm_invar_distinct [OF invar] by (simp only: ids)
  moreover have "distinct (map tr_id ?ts)" using inv(2) by (simp add: context_ok_def)
  ultimately have "restore_transition_counts ?ts ?vs [] = Inr (insert_all (map (\<lambda>v. (ct_transition_id v, import_transition v)) ?vs) [])"
    by (intro restore_transition_counts_ok) (simp_all only: again collect)
  then show ?thesis by (simp only: again collect)
qed

lemma page_types_restored:
  assumes "distinct (map pt_id (pc_page_types (tv_context st)))"
  obtains m where "restore_page_type_counts (pt_id ` set (pc_page_types (tv_context st))) (page_type_values st values) [] = Inr m"
    and "\<forall>p \<in> pt_id ` set (pc_page_types (tv_context st)). bm_lookup m p = bm_lookup values p"
proof -
  let ?kvs = "page_type_values st values" and ?known = "pt_id ` set (pc_page_types (tv_context st))"
  have members: "(p, n) \<in> set ?kvs \<longleftrightarrow> p \<in> ?known \<and> bm_lookup values p = Some n" for p n
    by (force simp: page_type_values_def List.map_filter_def)
  have "distinct (map fst (List.map_filter (\<lambda>pt. map_option (Pair (pt_id pt)) (bm_lookup values (pt_id pt))) pts))
      \<and> fst ` set (List.map_filter (\<lambda>pt. map_option (Pair (pt_id pt)) (bm_lookup values (pt_id pt))) pts) \<subseteq> pt_id ` set pts"
    if "distinct (map pt_id pts)" for pts :: "'a PageType list"
    using that by (induction pts) (auto simp: List.map_filter_simps split: option.split)
  with assms have distinct: "distinct (map fst ?kvs)" by (simp add: page_type_values_def)
  have "restore_page_type_counts ?known ?kvs [] = Inr (bm_collect ?kvs)"
    unfolding bm_collect_def using distinct members
    by (intro restore_page_type_counts_ok) (auto simp: bm_lookup_def)
  moreover have "bm_lookup (bm_collect ?kvs) p = bm_lookup values p" if "p \<in> ?known" for p
  proof (cases "bm_lookup values p")
    case (Some n)
    then have "(p, n) \<in> set (bm_collect ?kvs)" using that members by (simp add: bm_collect_set [OF distinct])
    from bm_mem_lookup [OF bm_collect_invar this] Some show ?thesis by simp
  next
    case None
    show ?thesis
    proof (cases "bm_lookup (bm_collect ?kvs) p")
      case (Some n)
      from bm_collect_values [OF this] members None show ?thesis by simp
    qed (simp add: None)
  qed
  ultimately show ?thesis by (intro that) auto
qed

text \<open>The state a resumed traversal shares with the one that was saved.\<close>

definition resumes :: "'u SemanticTraversal \<Rightarrow> 'u SemanticTraversal \<Rightarrow> bool" where
  "resumes st st' \<longleftrightarrow>
     tv_context st' = tv_context st \<and> selected_seed_ids st' = selected_seed_ids st
     \<and> tv_queue st' = tv_queue st \<and> queued st' = queued st
     \<and> admitted st' = admitted st \<and> seen st' = seen st \<and> sampled st' = sampled st \<and> expanded st' = expanded st
     \<and> matching_urls st' = matching_urls st \<and> unmatched_urls st' = unmatched_urls st
     \<and> ambiguous_urls st' = ambiguous_urls st \<and> in_scope_urls st' = in_scope_urls st
     \<and> (consumed_bytes st', pages_sampled st', urls_discovered st', duplicates_prevented st', robots_excluded st',
        provider_errors st', external_urls st', blocked_urls st', newly_enqueued_urls st', peak_new_from_page st')
       = (consumed_bytes st, pages_sampled st, urls_discovered st, duplicates_prevented st, robots_excluded st,
        provider_errors st, external_urls st, blocked_urls st, newly_enqueued_urls st, peak_new_from_page st)
     \<and> (time_budget_hit st', pagination_truncation_count st', duration_work_not_expanded st')
       = (time_budget_hit st, pagination_truncation_count st, duration_work_not_expanded st)
     \<and> transition_counts st' = transition_counts st \<and> transition_page_counts st' = transition_page_counts st
     \<and> (\<forall>p \<in> pt_id ` set (pc_page_types (tv_context st)).
          bm_lookup (page_type_sampled st') p = bm_lookup (page_type_sampled st) p
          \<and> bm_lookup (page_type_discovered st') p = bm_lookup (page_type_discovered st) p
          \<and> bm_lookup (page_type_scheduled st') p = bm_lookup (page_type_scheduled st) p)"

lemma frozen_context:
  assumes "for_frozen_snapshot env io snapshot ids limits = Inr st"
  obtains seeds where "context_from_snapshot env snapshot limits = Inr (tv_context st)"
    and "select_seeds env (tv_context st) ids = Inr seeds"
proof -
  from assms obtain ctx seeds where ctx: "context_from_snapshot env snapshot limits = Inr ctx"
    and seeds: "select_seeds env ctx ids = Inr seeds"
    and roots: "admit_roots env 0 seeds (traversal_new ctx ids (io_clock io 0) 1) = Inr st"
    by (auto simp: for_frozen_snapshot_def res_bind_eq_Inr)
  let ?new = "traversal_new ctx ids (io_clock io 0) 1"
  have "traversal_inv st \<and> synced st \<and> steady ?new st"
    using traversal_new_inv [OF context_from_snapshot_ok(5) [OF ctx]] select_seeds_known [OF seeds]
    by (intro admit_roots_ok [OF roots]) (simp_all add: traversal_new_def)
  then have "tv_context st = ctx" by (simp add: steady_def traversal_new_def)
  with ctx seeds that show ?thesis by blast
qed

lemma restore_state_exported:
  assumes inv: "traversal_inv st" "synced st" and storable: "storable env st"
    and new: "tv_context n = tv_context st" "selected_seed_ids n = selected_seed_ids st"
    and distinct: "distinct (selected_seed_ids st)" "distinct (map pt_id (pc_page_types (tv_context st)))"
  shows "if unmatched_urls st = {} \<and> ambiguous_urls st = {}
    then \<exists>st'. restore_state env (fst (checkpoint_state io st)) seeds n = Inr st' \<and> resumes st st'
    else restore_state env (fst (checkpoint_state io st)) seeds n = Inl DpPersistedStateInvalid"
proof -
  from inv(1) have parts: "context_ok st" "sets_ok st" "queue_ok st" "matches_ok st" "transitions_ok st"
    by (simp_all add: traversal_inv_def frontier_inv_def)
  note fin = sets_finite [OF parts(2)]
  let ?api = "lab_api env"
  have seen: "\<forall>u \<in> seen st. restorable_url ?api u" and scope: "\<forall>u \<in> in_scope_urls st. restorable_url ?api u"
    using storable by (simp_all add: storable_def)
  have fin_scope: "finite (in_scope_urls st)" using parts(4) by (simp add: matches_ok_def)
  have sub: "admitted st \<subseteq> seen st" "sampled st \<subseteq> admitted st" "expanded st \<subseteq> sampled st"
    "matching_urls st = in_scope_urls st" "unmatched_urls st \<subseteq> in_scope_urls st" "ambiguous_urls st \<subseteq> in_scope_urls st"
    "unmatched_urls st \<inter> ambiguous_urls st = {}"
    using parts(2,4) by (simp_all add: sets_ok_def matches_ok_def)
  have urls: "collect_urls ?api (sorted_list_of_set s) {} = Inr s" if "s \<subseteq> seen st \<or> s \<subseteq> in_scope_urls st" for s
    using that seen scope fin(1) fin_scope by (intro collect_set) (auto intro: finite_subset)
  have collected: "collect_urls ?api (sorted_list_of_set (admitted st)) {} = Inr (admitted st)"
      "collect_urls ?api (sorted_list_of_set (seen st)) {} = Inr (seen st)"
      "collect_urls ?api (sorted_list_of_set (sampled st)) {} = Inr (sampled st)"
      "collect_urls ?api (sorted_list_of_set (expanded st)) {} = Inr (expanded st)"
      "collect_urls ?api (sorted_list_of_set (matching_urls st)) {} = Inr (matching_urls st)"
      "collect_urls ?api (sorted_list_of_set (unmatched_urls st)) {} = Inr (unmatched_urls st)"
      "collect_urls ?api (sorted_list_of_set (ambiguous_urls st)) {} = Inr (ambiguous_urls st)"
      "collect_urls ?api (sorted_list_of_set (in_scope_urls st)) {} = Inr (in_scope_urls st)"
    using sub by (auto intro!: urls)
  have consistent: "sets_consistent (admitted st) (seen st) (sampled st) (expanded st) (matching_urls st)
      (unmatched_urls st) (ambiguous_urls st) (in_scope_urls st) \<longleftrightarrow> unmatched_urls st = {} \<and> ambiguous_urls st = {}"
    using sub by (auto simp: sets_consistent_def)
  have "\<not> set_len (admitted st) > el_max_pages (tv_limits st)"
    using parts(2) set_len_bound [OF parts(2)] by (simp add: sets_ok_def not_less word_le_nat_alt)
  then have counters: "\<not> (set_len (admitted st) > el_max_pages (tv_limits st)
      \<or> consumed_bytes st > el_max_downloaded_bytes (tv_limits st)
      \<or> pages_sampled st \<noteq> set_len (sampled st) \<or> newly_enqueued_urls st \<noteq> set_len (admitted st))"
    using parts(2) by (simp add: sets_ok_def not_less)
  obtain m1 where m1: "restore_page_type_counts (pt_id ` set (pc_page_types (tv_context st))) (page_type_values st (page_type_sampled st)) [] = Inr m1"
    "\<forall>p \<in> pt_id ` set (pc_page_types (tv_context st)). bm_lookup m1 p = bm_lookup (page_type_sampled st) p"
    by (rule page_types_restored [OF distinct(2)])
  obtain m2 where m2: "restore_page_type_counts (pt_id ` set (pc_page_types (tv_context st))) (page_type_values st (page_type_discovered st)) [] = Inr m2"
    "\<forall>p \<in> pt_id ` set (pc_page_types (tv_context st)). bm_lookup m2 p = bm_lookup (page_type_discovered st) p"
    by (rule page_types_restored [OF distinct(2)])
  obtain m3 where m3: "restore_page_type_counts (pt_id ` set (pc_page_types (tv_context st))) (page_type_values st (page_type_scheduled st)) [] = Inr m3"
    "\<forall>p \<in> pt_id ` set (pc_page_types (tv_context st)). bm_lookup m3 p = bm_lookup (page_type_scheduled st) p"
    by (rule page_types_restored [OF distinct(2)])
  note stages = collected pending_restored [OF inv storable new] page_counts_restored [OF parts(5,1) storable]
    transition_counts_restored [OF parts(5,1)] m1(1) m2(1) m3(1)
  show ?thesis
  proof (cases "unmatched_urls st = {} \<and> ambiguous_urls st = {}")
    case False
    then have "restore_state env (fst (checkpoint_state io st)) seeds n = Inl DpPersistedStateInvalid"
      using distinct(1) consistent
      by (simp add: restore_state_def checkpoint_state_def elapsed_millis_def Let_def new collected check_invalid_def)
    with False show ?thesis by simp
  next
    case True
    let ?st' = "rebuild_queue (n\<lparr>queued := queued st, admitted := admitted st, seen := seen st, sampled := sampled st,
        expanded := expanded st, matching_urls := matching_urls st, unmatched_urls := unmatched_urls st,
        ambiguous_urls := ambiguous_urls st, in_scope_urls := in_scope_urls st, consumed_bytes := consumed_bytes st,
        pages_sampled := pages_sampled st, urls_discovered := urls_discovered st,
        duplicates_prevented := duplicates_prevented st, robots_excluded := robots_excluded st,
        provider_errors := provider_errors st, external_urls := external_urls st, blocked_urls := blocked_urls st,
        newly_enqueued_urls := newly_enqueued_urls st, peak_new_from_page := peak_new_from_page st,
        time_budget_hit := time_budget_hit st, pagination_truncation_count := pagination_truncation_count st,
        duration_work_not_expanded := duration_work_not_expanded st, page_type_sampled := m1,
        page_type_discovered := m2, page_type_scheduled := m3, transition_counts := transition_counts st,
        transition_page_counts := transition_page_counts st, tv_seeds := map (restored_seed env) seeds\<rparr>)"
    have "restore_state env (fst (checkpoint_state io st)) seeds n = Inr ?st'"
      using True distinct(1) consistent counters
      by (simp add: restore_state_def checkpoint_state_def elapsed_millis_def Let_def new stages check_invalid_def)
    moreover have "resumes st ?st'"
      using inv(2) m1(2) m2(2) m3(2)
      by (simp add: resumes_def rebuild_queue_def synced_def new)
    ultimately show ?thesis using True by auto
  qed
qed

text \<open>
  C22. A traversal restored from its checkpoint, whatever the clock says by then, continues with the same
  frontier, the same identities and the same counters and budgets.  The restoration is refused exactly when a page in scope matched no
  page type or several: \<open>register_match\<close> lists such a page among the matching ones too, and a
  checkpoint whose matching and unmatched pages overlap is taken for corrupt.  The hypotheses state
  what the URL library accepts of the saved URLs, and that seeds and page types are told apart by
  their identifiers.
\<close>
theorem checkpoint_round_trip:
  assumes start: "for_frozen_snapshot env io snapshot ids limits = Inr st0"
    and run: "traversal_steps env io st0 st"
    and storable: "storable env st"
    and distinct: "distinct ids" "distinct (map pt_id (snap_page_types snapshot))"
  shows "(\<exists>st'. restore_from_checkpoint env io' snapshot ids limits (fst (checkpoint_state io st)) = Inr st' \<and> resumes st st'
            \<and> unmatched_urls st = {} \<and> ambiguous_urls st = {})
    \<or> restore_from_checkpoint env io' snapshot ids limits (fst (checkpoint_state io st)) = Inl DpPersistedStateInvalid
        \<and> (unmatched_urls st \<noteq> {} \<or> ambiguous_urls st \<noteq> {})"
proof -
  note s = frozen_start [OF start]
  have inv: "traversal_inv st" "synced st" "tv_context st = tv_context st0" "selected_seed_ids st = ids"
    using steps_keep [OF run s(1,2)] s(4) by simp_all
  obtain seeds where ctx: "context_from_snapshot env snapshot limits = Inr (tv_context st)"
    and seeds: "select_seeds env (tv_context st) ids = Inr seeds"
    using frozen_context [OF start] inv(3) by metis
  let ?cp = "fst (checkpoint_state io st)"
  let ?n = "traversal_new (tv_context st) ids (saturating_sub (io_clock io' 0) (cp_elapsed_millis ?cp)) 1"
  have "cp_selected_seed_ids ?cp = ids"
    by (simp add: checkpoint_state_def elapsed_millis_def inv(4))
  then have "restore_from_checkpoint env io' snapshot ids limits ?cp = restore_state env ?cp seeds ?n"
    by (simp add: restore_from_checkpoint_def ctx seeds)
  moreover have "tv_context ?n = tv_context st" "selected_seed_ids ?n = selected_seed_ids st"
    by (simp_all add: traversal_new_def inv(4))
  moreover have "distinct (map pt_id (pc_page_types (tv_context st)))" using distinct(2) s(9) inv(3) by simp
  ultimately show ?thesis
    using restore_state_exported [OF inv(1,2) storable, of ?n io seeds] distinct(1)
    by (auto simp: inv(4) split: if_split_asm)
qed

lemma preview_storable: "case preview_first_step of Inl _ \<Rightarrow> False
    | Inr (r, st) \<Rightarrow> storable lab_sample st \<and> unmatched_urls st = {} \<and> ambiguous_urls st = {}"
  by code_simp

theorem checkpoint_round_trip_witness:
  "\<exists>r st st'. preview_first_step = Inr (r, st)
     \<and> restore_from_checkpoint lab_sample preview_io preview_snapshot [''s''] preview_limits
       (fst (checkpoint_state preview_io st)) = Inr st'
     \<and> map qe_canonical_url (tv_queue st') = [''https://a.test/?x''] \<and> card (admitted st') = 2"
proof -
  obtain st0 r st where st0: "preview_start = Inr st0" and st: "step lab_sample preview_io st0 = Inr (r, st)"
    "map qe_canonical_url (tv_queue st) = [''https://a.test/?x'']" "card (admitted st) = 2" by (rule preview_first_state)
  have run: "traversal_steps lab_sample preview_io st0 st" using st(1) by (rule steps_step [OF steps_refl])
  have first: "preview_first_step = Inr (r, st)" by (simp add: preview_first_step_def st0 st(1))
  have ok: "storable lab_sample st \<and> unmatched_urls st = {} \<and> ambiguous_urls st = {}"
    using preview_storable unfolding first by simp
  have "distinct (map pt_id (snap_page_types preview_snapshot))" by (simp add: preview_snapshot_def lab_snapshot_def)
  from checkpoint_round_trip [OF st0 [unfolded preview_start_def] run _ _ this, of preview_io] ok
  obtain st' where "restore_from_checkpoint lab_sample preview_io preview_snapshot [''s''] preview_limits
      (fst (checkpoint_state preview_io st)) = Inr st'" "resumes st st'" by auto
  moreover from this(2) have "tv_queue st' = tv_queue st" "admitted st' = admitted st" by (simp_all add: resumes_def)
  ultimately show ?thesis using st(2,3) first by (intro exI conjI) (assumption | simp)+
qed

end
