(* ===== verification/Growth.thy ===== *)
theory Growth
  imports Traversal_Checkpoint
begin

text \<open>
  The report of a finished traversal (\<open>SemanticTraversal::finish\<close> of
  \<open>erabi-crawler/src/discovery_preview/service.rs\<close>): its counts, the growth indicators and the growth
  warnings, with the search for cycles among the transitions.
\<close>

section \<open>Records of the report\<close>

record PreviewTransitionCount =
  tc_transition_id :: DiscoveryTransitionId
  tc_transition_name :: string
  tc_eligible_edges :: u64
  tc_source_pages :: u64

record PreviewPageTypeDistribution =
  di_page_type_id :: PageTypeId
  di_page_type_name :: string
  di_discovered_unique_urls :: u64
  di_sampled_pages :: u64

record DiscoveryPreviewSummary =
  sm_pages_sampled :: u64
  sm_urls_discovered :: u64
  sm_canonical_unique_urls :: u64
  sm_duplicates_prevented :: u64
  sm_page_type_distribution :: "PreviewPageTypeDistribution list"
  sm_ambiguous_urls :: u64
  sm_unmatched_urls :: u64
  sm_external_urls :: u64
  sm_blocked_urls :: u64
  sm_robots_excluded :: u64
  sm_provider_errors :: u64
  sm_transition_counts :: "PreviewTransitionCount list"
  sm_budget_hit_counts :: "PreviewBudgetKind \<rightharpoonup> u64"
  sm_frontier_remaining :: u64
  sm_newly_enqueued_urls :: u64
  sm_pagination_truncation_count :: u64
  sm_duration_work_not_expanded :: bool

record PreviewQueryVariantGroup =
  qg_host :: string
  qg_path :: string
  qg_total_identities :: u64
  qg_query_bearing_identities :: u64
  qg_canonical_query_variants :: u64

record PreviewGrowthIndicators =
  gi_peak_new_canonical_urls_from_one_page :: u64
  gi_total_newly_enqueued_urls :: u64
  gi_frontier_remaining :: u64
  gi_dominant_transition_id :: "DiscoveryTransitionId option"
  gi_dominant_transition_eligible_edges :: u64
  gi_total_eligible_transition_edges :: u64
  gi_dominant_transition_share_percent :: "u64 option"
  gi_query_variant_groups :: "PreviewQueryVariantGroup list"
  gi_unmatched_denominator :: u64
  gi_ambiguity_denominator :: u64

datatype PreviewGrowthWarningCode =
  CyclicTransitionDominance | QueryParameterExplosion | HighUnmatchedRate | WidespreadPageTypeAmbiguity | BudgetPressure

record PreviewGrowthWarning =
  gw_code :: PreviewGrowthWarningCode
  gw_message :: string
  gw_observed :: u64
  gw_threshold :: u64

datatype DiscoveryPreviewResultSemantics = PreviewOnly

record DiscoveryPreviewResult =
  re_result_semantics :: DiscoveryPreviewResultSemantics
  re_crawler_version_id :: CrawlerVersionId
  re_config_hash :: string
  re_selected_seed_ids :: "SeedId list"
  re_effective_limits :: EffectiveDiscoveryPreviewLimits
  re_seeds :: "DiscoveryPreviewSeed list"
  re_pages :: "DiscoveryPreviewPage list"
  re_discovery_paths :: "DiscoveryPath list"
  re_summary :: DiscoveryPreviewSummary
  re_growth_indicators :: PreviewGrowthIndicators
  re_growth_warnings :: "PreviewGrowthWarning list"
  re_warnings :: "PreviewDiagnostic list"

section \<open>Cycles among the transitions\<close>

text \<open>The search is depth first; the set of visited page types is shared by all branches.\<close>

definition graph_successors :: "DiscoveryTransition list \<Rightarrow> PageTypeId \<Rightarrow> PageTypeId list" where
  "graph_successors graph p =
     map target_page_type_id (filter (\<lambda>t. tr_enabled t \<and> source_page_type_id t = p) graph)"

function any_reaches ::
  "DiscoveryTransition list \<Rightarrow> PageTypeId \<Rightarrow> PageTypeId list \<Rightarrow> PageTypeId set \<Rightarrow> bool \<times> PageTypeId set" where
  "any_reaches graph target [] visited = (False, visited)"
| "any_reaches graph target (p # ps) visited =
     (if p = target then (True, visited)
      else if p \<in> visited then any_reaches graph target ps visited
      else case any_reaches graph target (graph_successors graph p) (insert p visited) of
        (True, visited1) \<Rightarrow> (True, visited1)
      | (False, visited1) \<Rightarrow> any_reaches graph target ps visited1)"
  by pat_completeness auto

lemma any_reaches_grows:
  "any_reaches_dom (graph, target, ps, visited) \<Longrightarrow> visited \<subseteq> snd (any_reaches graph target ps visited)"
proof (induction graph target ps visited rule: any_reaches.pinduct)
  case (2 graph target p ps visited)
  then show ?case by (force simp: any_reaches.psimps split: prod.split bool.split)
qed (simp add: any_reaches.psimps)

definition unvisited_sources :: "DiscoveryTransition list \<Rightarrow> PageTypeId set \<Rightarrow> PageTypeId set" where
  "unvisited_sources graph visited = source_page_type_id ` set graph - visited"

lemma unvisited_less:
  "graph_successors graph p \<noteq> [] \<Longrightarrow> p \<notin> visited
     \<Longrightarrow> card (unvisited_sources graph (insert p visited)) < card (unvisited_sources graph visited)"
  by (intro psubset_card_mono) (auto simp: unvisited_sources_def graph_successors_def filter_empty_conv)

lemma unvisited_mono:
  "visited \<subseteq> visited1 \<Longrightarrow> card (unvisited_sources graph visited1) \<le> card (unvisited_sources graph visited)"
  by (intro card_mono) (auto simp: unvisited_sources_def)

termination any_reaches
proof (relation "inv_image (less_than <*lex*> less_than)
    (\<lambda>(graph, target, ps, visited). (card (unvisited_sources graph visited), length ps))", goal_cases)
  case (3 graph target p ps visited)
  show ?case
  proof (cases "graph_successors graph p = []")
    case True
    with unvisited_mono [OF subset_insertI, where graph = graph] show ?thesis by (auto simp: le_less)
  next
    case False
    with unvisited_less 3 show ?thesis by simp
  qed
next
  case (4 graph target p ps visited b visited1)
  with any_reaches_grows [of graph target "graph_successors graph p" "insert p visited"]
  have "visited \<subseteq> visited1" by (metis insert_subset snd_conv)
  from unvisited_mono [OF this, of graph] show ?case by auto
qed auto

definition page_type_reaches ::
  "DiscoveryTransition list \<Rightarrow> PageTypeId \<Rightarrow> PageTypeId \<Rightarrow> PageTypeId set \<Rightarrow> bool \<times> PageTypeId set" where
  "page_type_reaches graph p target visited = any_reaches graph target [p] visited"

definition transition_participates_in_cycle :: "DiscoveryTransition list \<Rightarrow> DiscoveryTransition \<Rightarrow> bool" where
  "transition_participates_in_cycle graph t \<longleftrightarrow>
     source_page_type_id t = target_page_type_id t
     \<or> fst (page_type_reaches graph (target_page_type_id t) (source_page_type_id t) {})"

text \<open>The edges the search follows, as a relation on page types.\<close>

definition transition_edges :: "DiscoveryTransition list \<Rightarrow> (PageTypeId \<times> PageTypeId) set" where
  "transition_edges graph = {(source_page_type_id t, target_page_type_id t) |t. t \<in> set graph \<and> tr_enabled t}"

lemma set_graph_successors: "set (graph_successors graph p) = transition_edges graph `` {p}"
  by (auto simp: graph_successors_def transition_edges_def)

text \<open>A search that finds the target reached it; one that does not has closed everything it visited.\<close>

lemma any_reaches_sound:
  "fst (any_reaches graph target ps visited) \<Longrightarrow> \<exists>p \<in> set ps. (p, target) \<in> (transition_edges graph)\<^sup>*"
proof (induction graph target ps visited rule: any_reaches.induct)
  case (2 graph target p ps visited)
  show ?case
  proof (cases "p = target \<or> p \<in> visited")
    case False
    obtain b visited1 where inner: "any_reaches graph target (graph_successors graph p) (insert p visited) = (b, visited1)"
      by force
    show ?thesis
    proof (cases b)
      case True
      with 2(2) False inner obtain q where "q \<in> set (graph_successors graph p)" "(q, target) \<in> (transition_edges graph)\<^sup>*"
        by auto
      then show ?thesis by (auto simp: set_graph_successors intro: converse_rtrancl_into_rtrancl)
    next
      case b: False
      with 2(3)[OF _ _ inner [symmetric]] 2(4) False inner show ?thesis by auto
    qed
  qed (use 2(1,4) in \<open>auto split: if_splits\<close>)
qed simp

lemma any_reaches_complete:
  "any_reaches graph target ps visited = (False, visited1)
     \<Longrightarrow> visited \<subseteq> visited1 \<and> set ps \<subseteq> visited1 \<and> target \<notin> set ps \<and> target \<notin> visited1 - visited
       \<and> transition_edges graph `` (visited1 - visited) \<subseteq> visited1"
proof (induction graph target ps visited arbitrary: visited1 rule: any_reaches.induct)
  case (2 graph target p ps visited)
  from 2(4) have p: "p \<noteq> target" by (auto split: if_splits)
  show ?case
  proof (cases "p \<in> visited")
    case True
    with 2(1) 2(4) p show ?thesis by auto
  next
    case False
    obtain b mid where inner: "any_reaches graph target (graph_successors graph p) (insert p visited) = (b, mid)" by force
    with 2(4) p False have b: "\<not> b" and rest: "any_reaches graph target ps mid = (False, visited1)"
      by (auto split: bool.splits)
    from 2(2) [OF p False] inner b
    have mid: "insert p visited \<subseteq> mid" "set (graph_successors graph p) \<subseteq> mid" "target \<notin> mid - insert p visited"
      "transition_edges graph `` (mid - insert p visited) \<subseteq> mid" by auto
    from 2(3) [OF p False inner [symmetric]] b rest
    have last: "mid \<subseteq> visited1" "set ps \<subseteq> visited1" "target \<notin> set ps" "target \<notin> visited1 - mid"
      "transition_edges graph `` (visited1 - mid) \<subseteq> visited1" by auto
    have "transition_edges graph `` (visited1 - visited) \<subseteq> visited1"
    proof
      fix y assume "y \<in> transition_edges graph `` (visited1 - visited)"
      then obtain x where x: "(x, y) \<in> transition_edges graph" "x \<in> visited1" "x \<notin> visited" by blast
      consider "x = p" | "x \<in> mid - insert p visited" | "x \<in> visited1 - mid" using x by blast
      then show "y \<in> visited1"
      proof cases
        case 1
        with x(1) mid(2) last(1) show ?thesis by (auto simp: set_graph_successors)
      qed (use x(1) mid(4) last in blast)+
    qed
    moreover have "target \<notin> visited1 - visited" using mid(3) last(4) p by blast
    moreover have "visited \<subseteq> visited1" "set (p # ps) \<subseteq> visited1" "target \<notin> set (p # ps)" using mid(1) last p by auto
    ultimately show ?thesis by blast
  qed
qed simp

lemma page_type_reaches_iff:
  "fst (page_type_reaches graph p target {}) \<longleftrightarrow> (p, target) \<in> (transition_edges graph)\<^sup>*"
proof
  assume "(p, target) \<in> (transition_edges graph)\<^sup>*"
  show "fst (page_type_reaches graph p target {})"
  proof (rule ccontr)
    assume "\<not> fst (page_type_reaches graph p target {})"
    then obtain visited1 where "any_reaches graph target [p] {} = (False, visited1)"
      by (metis page_type_reaches_def prod.collapse)
    from any_reaches_complete [OF this] have closed: "p \<in> visited1" "target \<notin> visited1"
      "transition_edges graph `` visited1 \<subseteq> visited1" by auto
    from \<open>(p, target) \<in> _\<close> have "target \<in> visited1"
      by (induction rule: rtrancl_induct) (use closed in auto)
    with closed(2) show False by simp
  qed
next
  assume "fst (page_type_reaches graph p target {})"
  from any_reaches_sound [OF this [unfolded page_type_reaches_def]] show "(p, target) \<in> (transition_edges graph)\<^sup>*" by simp
qed

section \<open>Checked arithmetic\<close>

definition saturating_mul :: "'a::len word \<Rightarrow> 'a word \<Rightarrow> 'a word" where
  "saturating_mul a b = (if uint a * uint b < 2 ^ LENGTH('a) then a * b else - 1)"

section \<open>The dominant transition and the query variants\<close>

definition unique_dominant_transition :: "PreviewTransitionCount list \<Rightarrow> PreviewTransitionCount option" where
  "unique_dominant_transition counts =
     (case map tc_eligible_edges counts of
        [] \<Rightarrow> None
      | e # es \<Rightarrow>
          let maximum = fold max es e in
          if maximum = 0 then None
          else case filter (\<lambda>c. tc_eligible_edges c = maximum) counts of [dominant] \<Rightarrow> Some dominant | _ \<Rightarrow> None)"

record QueryGroupAccounting =
  qa_total_identities :: u64
  qa_query_bearing_identities :: u64
  qa_variants :: "string set"

definition account_query :: "string option \<Rightarrow> QueryGroupAccounting \<Rightarrow> QueryGroupAccounting" where
  "account_query query a =
     (let a1 = a\<lparr>qa_total_identities := saturating_add (qa_total_identities a) 1\<rparr> in
      case query of
        None \<Rightarrow> a1
      | Some q \<Rightarrow> a1\<lparr>qa_query_bearing_identities := saturating_add (qa_query_bearing_identities a1) 1,
                    qa_variants := insert q (qa_variants a1)\<rparr>)"

definition query_group_key :: "'u url_api \<Rightarrow> 'u \<Rightarrow> string \<times> string" where
  "query_group_key api u =
     (to_ascii_lowercase (case url_host_str api u of None \<Rightarrow> [] | Some h \<Rightarrow> h), url_path api u)"

definition account_url ::
  "'u url_api \<Rightarrow> string \<Rightarrow> (string \<times> string, QueryGroupAccounting) bmap \<Rightarrow> (string \<times> string, QueryGroupAccounting) bmap" where
  "account_url api v groups =
     (case url_parse api v of
        None \<Rightarrow> groups
      | Some u \<Rightarrow>
          let key = query_group_key api u;
              group = (case bm_lookup groups key of
                 None \<Rightarrow> \<lparr>qa_total_identities = 0, qa_query_bearing_identities = 0, qa_variants = {}\<rparr> | Some g \<Rightarrow> g)
          in bm_insert key (account_query (url_query api u) group) groups)"

definition query_variant_group :: "(string \<times> string) \<times> QueryGroupAccounting \<Rightarrow> PreviewQueryVariantGroup option" where
  "query_variant_group p = (case p of ((host, path), a) \<Rightarrow>
     if card (qa_variants a) \<ge> unat QUERY_EXPLOSION_MIN_VARIANTS
     then Some \<lparr>qg_host = host, qg_path = path, qg_total_identities = qa_total_identities a,
        qg_query_bearing_identities = qa_query_bearing_identities a, qg_canonical_query_variants = set_len (qa_variants a)\<rparr>
     else None)"

definition query_variant_groups :: "'u url_api \<Rightarrow> string set \<Rightarrow> PreviewQueryVariantGroup list" where
  "query_variant_groups api urls =
     List.map_filter query_variant_group (fold (account_url api) (sorted_list_of_set urls) [])"

section \<open>Growth warnings\<close>

text \<open>The pressure test compares 128-bit products, the rates 64-bit ones.\<close>

definition has_relevant_budget_hit :: "(PreviewBudgetKind \<rightharpoonup> u64) \<Rightarrow> bool" where
  "has_relevant_budget_hit hits \<longleftrightarrow>
     list_ex (\<lambda>kind. hits kind \<noteq> None)
       [PagesBudget, DepthBudget, DurationBudget, DownloadedBytesBudget, PageTypeBudget,
        TransitionPerSourcePageBudget, TransitionTotalBudgetKind]"

definition reaches_budget_pressure :: "u64 \<Rightarrow> u64 \<Rightarrow> bool" where
  "reaches_budget_pressure observed limit \<longleftrightarrow>
     limit > 0 \<and> (ucast observed :: 128 word) * 100 \<ge> ucast limit * ucast BUDGET_PRESSURE_PERCENT"

definition page_type_budget_under_pressure :: "(PageTypeId, u64) bmap \<Rightarrow> PageTypeId \<Rightarrow> u64 option \<Rightarrow> bool" where
  "page_type_budget_under_pressure scheduled p configured_limit \<longleftrightarrow>
     (case configured_limit of None \<Rightarrow> False | Some limit \<Rightarrow> reaches_budget_pressure (lookup_or_zero scheduled p) limit)"

definition has_transition_total_budget_pressure ::
  "PreviewTransitionCount list \<Rightarrow> EffectiveDiscoveryPreviewLimits \<Rightarrow> bool" where
  "has_transition_total_budget_pressure counts limits \<longleftrightarrow>
     list_ex (\<lambda>c. case find (\<lambda>l. etl_transition_id l = tc_transition_id c) (el_transition_total_limits limits) of
        None \<Rightarrow> False | Some l \<Rightarrow> reaches_budget_pressure (tc_eligible_edges c) (effective_total_limit l)) counts"

definition source_page_pressure :: "DiscoveryTransition list \<Rightarrow> (DiscoveryTransitionId \<times> string) \<times> u32 \<Rightarrow> bool" where
  "source_page_pressure transitions kc = (case kc of ((i, source), n) \<Rightarrow>
     (case find (\<lambda>t. tr_id t = i) transitions of
        None \<Rightarrow> False
      | Some t \<Rightarrow> reaches_budget_pressure (ucast n) (ucast (max_links_per_source_page (tr_budget t)))))"

definition has_budget_pressure_utilization ::
  "traversal_io \<Rightarrow> 'u SemanticTraversal \<Rightarrow> PreviewTransitionCount list \<Rightarrow> u64 \<Rightarrow> bool" where
  "has_budget_pressure_utilization io st counts total_edges \<longleftrightarrow>
     reaches_budget_pressure (set_len (admitted st)) (el_max_pages (tv_limits st))
     \<or> reaches_budget_pressure (consumed_bytes st) (el_max_downloaded_bytes (tv_limits st))
     \<or> reaches_budget_pressure (fst (elapsed_millis io st)) (el_max_duration_ms (tv_limits st))
     \<or> list_ex (\<lambda>pt. page_type_budget_under_pressure (page_type_scheduled st) (pt_id pt)
          (Option.bind (guardrail_page_type (cv_guardrails (tv_version st)) (pt_id pt)) page_budget))
          (pc_page_types (tv_context st))
     \<or> list_ex (source_page_pressure (pc_transitions (tv_context st))) (transition_page_counts st)
     \<or> total_edges > 0 \<and> has_transition_total_budget_pressure counts (tv_limits st)"

definition dominance_warning ::
  "'u SemanticTraversal \<Rightarrow> PreviewTransitionCount option \<Rightarrow> u64 option \<Rightarrow> PreviewGrowthWarning list" where
  "dominance_warning st dominant share =
     (case (dominant, share) of
        (Some d, Some s) \<Rightarrow>
          if (case find (\<lambda>t. tr_id t = tc_transition_id d) (pc_transitions (tv_context st)) of
                None \<Rightarrow> False | Some t \<Rightarrow> transition_participates_in_cycle (pc_graph (tv_context st)) t)
             \<and> tc_eligible_edges d \<ge> DOMINANT_TRANSITION_MIN_EDGES \<and> s \<ge> DOMINANT_TRANSITION_SHARE_PERCENT
          then [\<lparr>gw_code = CyclicTransitionDominance, gw_message = ''A cyclic transition dominates eligible preview edges.'',
                 gw_observed = s, gw_threshold = DOMINANT_TRANSITION_SHARE_PERCENT\<rparr>]
          else []
      | _ \<Rightarrow> [])"

definition exploding_query_group :: "PreviewQueryVariantGroup \<Rightarrow> bool" where
  "exploding_query_group g \<longleftrightarrow>
     qg_canonical_query_variants g \<ge> QUERY_EXPLOSION_MIN_VARIANTS
     \<and> saturating_mul (qg_query_bearing_identities g) 100
         \<ge> saturating_mul (qg_total_identities g) QUERY_EXPLOSION_QUERY_BEARING_PERCENT"

definition explosion_warning :: "PreviewQueryVariantGroup list \<Rightarrow> PreviewGrowthWarning list" where
  "explosion_warning groups =
     (let exploding = filter exploding_query_group groups in
      if exploding = [] then []
      else [\<lparr>gw_code = QueryParameterExplosion, gw_message = ''A host/path has many canonical query variants.'',
             gw_observed = fold max (map qg_canonical_query_variants exploding) 0,
             gw_threshold = QUERY_EXPLOSION_MIN_VARIANTS\<rparr>])"

definition rate_warning ::
  "PreviewGrowthWarningCode \<Rightarrow> string \<Rightarrow> u64 \<Rightarrow> u64 \<Rightarrow> u64 \<Rightarrow> u64 \<Rightarrow> PreviewGrowthWarning list" where
  "rate_warning c m min_denominator percent denominator n =
     (if denominator \<ge> min_denominator \<and> n * 100 \<ge> denominator * percent
      then [\<lparr>gw_code = c, gw_message = m, gw_observed = n, gw_threshold = percent\<rparr>] else [])"

definition pressure_warning ::
  "traversal_io \<Rightarrow> 'u SemanticTraversal \<Rightarrow> PreviewTransitionCount list \<Rightarrow> u64 \<Rightarrow> u64 \<Rightarrow> PreviewGrowthWarning list" where
  "pressure_warning io st counts total_edges frontier =
     (if frontier > 0 \<and> (has_relevant_budget_hit (budget_hits st) \<or> has_budget_pressure_utilization io st counts total_edges)
      then [\<lparr>gw_code = BudgetPressure,
             gw_message = ''The remaining frontier is pressing against a bounded preview budget.'',
             gw_observed = frontier, gw_threshold = BUDGET_PRESSURE_PERCENT\<rparr>]
      else [])"

definition growth_warnings ::
  "traversal_io \<Rightarrow> 'u SemanticTraversal \<Rightarrow> PreviewTransitionCount list \<Rightarrow> u64 \<Rightarrow> PreviewTransitionCount option
    \<Rightarrow> u64 option \<Rightarrow> PreviewQueryVariantGroup list \<Rightarrow> u64 \<Rightarrow> PreviewGrowthWarning list" where
  "growth_warnings io st counts total_edges dominant share groups frontier =
     dominance_warning st dominant share
     @ explosion_warning groups
     @ rate_warning HighUnmatchedRate ''At least half of matched in-scope URLs were unmatched.''
         HIGH_UNMATCHED_MIN_DENOMINATOR HIGH_UNMATCHED_SHARE_PERCENT
         (set_len (matching_urls st)) (set_len (unmatched_urls st))
     @ rate_warning WidespreadPageTypeAmbiguity ''Many matched in-scope URLs have ambiguous PageTypes.''
         WIDESPREAD_AMBIGUITY_MIN_DENOMINATOR WIDESPREAD_AMBIGUITY_SHARE_PERCENT
         (set_len (matching_urls st)) (set_len (ambiguous_urls st))
     @ pressure_warning io st counts total_edges frontier"

section \<open>The report\<close>

definition note_time_budget :: "traversal_io \<Rightarrow> 'u SemanticTraversal \<Rightarrow> 'u SemanticTraversal" where
  "note_time_budget io st =
     (if time_budget_hit st then
        let (elapsed, st1) = elapsed_millis io st in
        tv_push_diagnostic \<lparr>pd_code = ''PREVIEW_TIME_BUDGET_HIT'',
          pd_message = ''Preview stopped at a safe clock boundary.'', pd_observed = Some elapsed,
          pd_threshold = Some (el_max_duration_ms (tv_limits st))\<rparr> st1
      else st)"

definition transition_count :: "TransitionRuntimeCount \<Rightarrow> PreviewTransitionCount" where
  "transition_count n =
     \<lparr>tc_transition_id = rc_transition_id n, tc_transition_name = rc_name n, tc_eligible_edges = eligible_edges n,
      tc_source_pages = set_len (source_pages n)\<rparr>"

definition page_type_distribution :: "'u SemanticTraversal \<Rightarrow> 'u PageType \<Rightarrow> PreviewPageTypeDistribution" where
  "page_type_distribution st pt =
     \<lparr>di_page_type_id = pt_id pt, di_page_type_name = pt_name pt,
      di_discovered_unique_urls = lookup_or_zero (page_type_discovered st) (pt_id pt),
      di_sampled_pages = lookup_or_zero (page_type_sampled st) (pt_id pt)\<rparr>"

definition dominant_share :: "PreviewTransitionCount option \<Rightarrow> u64 \<Rightarrow> u64 option" where
  "dominant_share dominant total_edges =
     (if total_edges > 0 then map_option (\<lambda>c. saturating_mul (tc_eligible_edges c) 100 div total_edges) dominant else None)"

definition final_budget_hits :: "'u SemanticTraversal \<Rightarrow> (PreviewBudgetKind \<rightharpoonup> u64)" where
  "final_budget_hits st =
     (if time_budget_hit st \<and> budget_hits st DurationBudget = None
      then (budget_hits st)(DurationBudget \<mapsto> 1) else budget_hits st)"

definition finish_traversal :: "'u lab_env \<Rightarrow> traversal_io \<Rightarrow> 'u SemanticTraversal \<Rightarrow> DiscoveryPreviewResult" where
  "finish_traversal env io st0 =
     (let st = note_time_budget io st0;
          frontier_remaining = of_nat (length (tv_queue st));
          counts = map transition_count (bm_values (transition_counts st));
          total_edges = sum_list (map tc_eligible_edges counts);
          dominant = unique_dominant_transition counts;
          share = dominant_share dominant total_edges;
          groups = query_variant_groups (lab_api env) (in_scope_urls st)
      in \<lparr>re_result_semantics = PreviewOnly, re_crawler_version_id = cv_id (tv_version st),
          re_config_hash = snap_config_hash (pc_snapshot (tv_context st)),
          re_selected_seed_ids = selected_seed_ids st, re_effective_limits = tv_limits st, re_seeds = tv_seeds st,
          re_pages = tv_pages st, re_discovery_paths = tv_paths st,
          re_summary =
            \<lparr>sm_pages_sampled = pages_sampled st, sm_urls_discovered = urls_discovered st,
             sm_canonical_unique_urls = set_len (seen st), sm_duplicates_prevented = duplicates_prevented st,
             sm_page_type_distribution = map (page_type_distribution st) (pc_page_types (tv_context st)),
             sm_ambiguous_urls = set_len (ambiguous_urls st), sm_unmatched_urls = set_len (unmatched_urls st),
             sm_external_urls = external_urls st, sm_blocked_urls = blocked_urls st,
             sm_robots_excluded = robots_excluded st, sm_provider_errors = provider_errors st,
             sm_transition_counts = counts, sm_budget_hit_counts = final_budget_hits st,
             sm_frontier_remaining = frontier_remaining, sm_newly_enqueued_urls = newly_enqueued_urls st,
             sm_pagination_truncation_count = pagination_truncation_count st,
             sm_duration_work_not_expanded = duration_work_not_expanded st\<rparr>,
          re_growth_indicators =
            \<lparr>gi_peak_new_canonical_urls_from_one_page = peak_new_from_page st,
             gi_total_newly_enqueued_urls = newly_enqueued_urls st, gi_frontier_remaining = frontier_remaining,
             gi_dominant_transition_id = map_option tc_transition_id dominant,
             gi_dominant_transition_eligible_edges = (case dominant of None \<Rightarrow> 0 | Some c \<Rightarrow> tc_eligible_edges c),
             gi_total_eligible_transition_edges = total_edges, gi_dominant_transition_share_percent = share,
             gi_query_variant_groups = groups, gi_unmatched_denominator = set_len (matching_urls st),
             gi_ambiguity_denominator = set_len (matching_urls st)\<rparr>,
          re_growth_warnings = growth_warnings io st counts total_edges dominant share groups frontier_remaining,
          re_warnings = tv_diagnostics st\<rparr>)"

section \<open>What the indicators mean\<close>

text \<open>
  C24. A transition takes part in a cycle exactly when its source page type can be reached again from its
  target through enabled transitions: sharing the visited set between the branches of the search loses
  no path, and the search ends on cyclic graphs.
\<close>
theorem cycle_iff_return_path:
  "transition_participates_in_cycle graph t
     \<longleftrightarrow> (target_page_type_id t, source_page_type_id t) \<in> (transition_edges graph)\<^sup>*"
  by (auto simp: transition_participates_in_cycle_def page_type_reaches_iff)

lemma filter_singleton_mset: "filter P xs = [x] \<longleftrightarrow> filter_mset P (mset xs) = {#x#}"
  by (metis mset_filter mset_single_iff_right mset_zero_iff)

text \<open>
  The dominant transition does not depend on the order of the counts: it is the one with more eligible
  edges than every other, and there is none when the highest count is shared or zero.
\<close>
theorem dominant_transition_unique_maximum:
  "unique_dominant_transition counts = Some c \<longleftrightarrow>
     c \<in># mset counts \<and> 0 < tc_eligible_edges c
     \<and> filter_mset (\<lambda>d. tc_eligible_edges c \<le> tc_eligible_edges d) (mset counts) = {#c#}"
proof (cases counts)
  case (Cons x xs)
  define m where "m = fold max (map tc_eligible_edges xs) (tc_eligible_edges x)"
  have max: "m = Max (tc_eligible_edges ` set counts)"
    using Max.set_eq_fold [of "tc_eligible_edges x" "map tc_eligible_edges xs"] by (simp add: m_def Cons)
  have bound: "\<forall>d \<in> set counts. tc_eligible_edges d \<le> m" unfolding max by simp
  have attained: "m \<in> tc_eligible_edges ` set counts" unfolding max by (intro Max_in) (simp_all add: Cons)
  have unfolded: "unique_dominant_transition counts =
      (if m = 0 then None else case filter (\<lambda>c. tc_eligible_edges c = m) counts of [dominant] \<Rightarrow> Some dominant | _ \<Rightarrow> None)"
    by (simp add: unique_dominant_transition_def Cons m_def)
  have same: "filter_mset (\<lambda>d. m \<le> tc_eligible_edges d) (mset counts) = filter_mset (\<lambda>d. tc_eligible_edges d = m) (mset counts)"
    using bound by (intro filter_mset_cong) auto
  show ?thesis
  proof
    assume "unique_dominant_transition counts = Some c"
    then have one: "m \<noteq> 0" "filter (\<lambda>c. tc_eligible_edges c = m) counts = [c]"
      unfolding unfolded by (auto split: if_splits list.splits)
    then have "c \<in> set counts" "tc_eligible_edges c = m" by (auto simp: filter_eq_Cons_iff)
    with one same show "c \<in># mset counts \<and> 0 < tc_eligible_edges c
        \<and> filter_mset (\<lambda>d. tc_eligible_edges c \<le> tc_eligible_edges d) (mset counts) = {#c#}"
      by (simp add: filter_singleton_mset word_neq_0_conv)
  next
    assume c: "c \<in># mset counts \<and> 0 < tc_eligible_edges c
        \<and> filter_mset (\<lambda>d. tc_eligible_edges c \<le> tc_eligible_edges d) (mset counts) = {#c#}"
    from attained obtain d where d: "d \<in> set counts" "tc_eligible_edges d = m" by blast
    from c bound have "tc_eligible_edges c \<le> m" by simp
    then have "d \<in># filter_mset (\<lambda>d. tc_eligible_edges c \<le> tc_eligible_edges d) (mset counts)" using d by simp
    moreover from c have "filter_mset (\<lambda>d. tc_eligible_edges c \<le> tc_eligible_edges d) (mset counts) = {#c#}" by blast
    ultimately have "d = c" by (simp only: set_mset_single set_mset_add_mset_insert set_mset_empty singleton_iff)
    with d c same have "filter (\<lambda>c. tc_eligible_edges c = m) counts = [c]" "m \<noteq> 0"
      by (auto simp: filter_singleton_mset)
    then show "unique_dominant_transition counts = Some c" unfolding unfolded by simp
  qed
qed (simp add: unique_dominant_transition_def)

text \<open>The identities of one host and path, and the canonical queries among them.\<close>

definition group_members :: "'u url_api \<Rightarrow> string set \<Rightarrow> string \<times> string \<Rightarrow> string set" where
  "group_members api urls k = {v \<in> urls. \<exists>u. url_parse api v = Some u \<and> query_group_key api u = k}"

definition query_bearing :: "'u url_api \<Rightarrow> string set \<Rightarrow> string \<times> string \<Rightarrow> string set" where
  "query_bearing api urls k =
     {v \<in> urls. \<exists>u. url_parse api v = Some u \<and> query_group_key api u = k \<and> url_query api u \<noteq> None}"

definition group_queries :: "'u url_api \<Rightarrow> string set \<Rightarrow> string \<times> string \<Rightarrow> string set" where
  "group_queries api urls k =
     {q. \<exists>v \<in> urls. \<exists>u. url_parse api v = Some u \<and> query_group_key api u = k \<and> url_query api u = Some q}"

definition capped :: "nat \<Rightarrow> u64" where
  "capped n = (if n < 2 ^ 64 then of_nat n else - 1)"

lemma capped_Suc [simp]: "saturating_add (capped n) 1 = capped (Suc n)"
proof (cases "n < 2 ^ 64")
  case True
  then have "unat (of_nat n :: u64) = n" by (simp add: unat_of_nat)
  with True show ?thesis by (simp add: capped_def saturating_add_def)
qed (simp add: capped_def saturating_add_def unsigned_minus_1_eq_mask mask_eq_exp_minus_1)

lemma capped_0 [simp]: "capped 0 = 0"
  by (simp add: capped_def)

lemma capped_one [simp]: "saturating_add 0 1 = capped (Suc 0)"
  using capped_Suc [of 0] by simp

lemma account_all:
  assumes "distinct vs"
  shows "bm_invar (fold (account_url api) vs []) \<and>
    (\<forall>k. bm_lookup (fold (account_url api) vs []) k =
       (if group_members api (set vs) k = {} then None
        else Some \<lparr>qa_total_identities = capped (card (group_members api (set vs) k)),
          qa_query_bearing_identities = capped (card (query_bearing api (set vs) k)),
          qa_variants = group_queries api (set vs) k\<rparr>))"
  using assms
proof (induction vs rule: rev_induct)
  case (snoc v vs)
  let ?m = "fold (account_url api) vs []"
  from snoc.prems have "distinct vs" by simp
  from snoc.IH [OF this] have IH: "bm_invar ?m" "\<And>k. bm_lookup ?m k = (if group_members api (set vs) k = {} then None
        else Some \<lparr>qa_total_identities = capped (card (group_members api (set vs) k)),
          qa_query_bearing_identities = capped (card (query_bearing api (set vs) k)),
          qa_variants = group_queries api (set vs) k\<rparr>)"
    by blast+
  have step: "fold (account_url api) (vs @ [v]) [] = account_url api v ?m" by simp
  show ?case
  proof (cases "url_parse api v")
    case None
    then have "group_members api (set (vs @ [v])) = group_members api (set vs)"
      "query_bearing api (set (vs @ [v])) = query_bearing api (set vs)"
      "group_queries api (set (vs @ [v])) = group_queries api (set vs)"
      by (auto simp: group_members_def query_bearing_def group_queries_def fun_eq_iff)
    moreover have "account_url api v ?m = ?m" by (simp only: account_url_def None option.case)
    ultimately show ?thesis using IH unfolding step by simp
  next
    case (Some u)
    let ?key = "query_group_key api u"
    have new: "v \<notin> group_members api (set vs) k" "v \<notin> query_bearing api (set vs) k" for k
      using snoc.prems by (auto simp: group_members_def query_bearing_def)
    have fin: "finite (group_members api (set vs) k)" "finite (query_bearing api (set vs) k)" for k
      by (simp_all add: group_members_def query_bearing_def)
    have others: "group_members api (set (vs @ [v])) k = group_members api (set vs) k"
        "query_bearing api (set (vs @ [v])) k = query_bearing api (set vs) k"
        "group_queries api (set (vs @ [v])) k = group_queries api (set vs) k" if "k \<noteq> ?key" for k
      using that Some by (auto simp: group_members_def query_bearing_def group_queries_def)
    have this_group: "group_members api (set (vs @ [v])) ?key = insert v (group_members api (set vs) ?key)"
        "query_bearing api (set (vs @ [v])) ?key = (if url_query api u = None then query_bearing api (set vs) ?key
           else insert v (query_bearing api (set vs) ?key))"
        "group_queries api (set (vs @ [v])) ?key = set_option (url_query api u) \<union> group_queries api (set vs) ?key"
      using Some by (auto simp: group_members_def query_bearing_def group_queries_def)
    have empty: "query_bearing api (set vs) ?key = {}" "group_queries api (set vs) ?key = {}"
      if "group_members api (set vs) ?key = {}"
      using that by (auto simp: group_members_def query_bearing_def group_queries_def)
    have cards: "card (group_members api (set (vs @ [v])) ?key) = Suc (card (group_members api (set vs) ?key))"
        "card (query_bearing api (set (vs @ [v])) ?key) =
           (if url_query api u = None then card (query_bearing api (set vs) ?key) else Suc (card (query_bearing api (set vs) ?key)))"
      using new fin unfolding this_group by simp_all
    have "bm_lookup (fold (account_url api) (vs @ [v]) []) k =
       (if group_members api (set (vs @ [v])) k = {} then None
        else Some \<lparr>qa_total_identities = capped (card (group_members api (set (vs @ [v])) k)),
          qa_query_bearing_identities = capped (card (query_bearing api (set (vs @ [v])) k)),
          qa_variants = group_queries api (set (vs @ [v])) k\<rparr>)" for k
    proof (cases "k = ?key")
      case False
      with others [OF False] IH(2) [of k] show ?thesis unfolding step by (simp add: account_url_def [of api v] Some Let_def bm_insert_lookup)
    next
      case True
      have nonempty: "group_members api (set (vs @ [v])) ?key \<noteq> {}" unfolding this_group by simp
      show ?thesis
        using nonempty empty IH(2) [of ?key] cards this_group(3) unfolding True step
        by (cases "url_query api u") (auto simp: account_url_def [of api v] Some Let_def bm_insert_lookup account_query_def)
    qed
    moreover have "bm_invar (fold (account_url api) (vs @ [v]) [])"
      using IH(1) unfolding step by (simp add: account_url_def [of api v] Some Let_def bm_insert_invar)
    ultimately show ?thesis by blast
  qed
qed (simp add: bm_invar_def bm_lookup_def group_members_def)

text \<open>
  C25. The query-variant groups count exactly: for the identities in scope, in the order of host and path,
  there is one group for each host and path that has at least eight distinct canonical queries, and its
  totals are the numbers of identities, of identities with a query, and of distinct queries of that host
  and path.  Identities that no longer parse belong to no group, hosts are compared in lower case.
\<close>
theorem query_variant_groups_count:
  "query_variant_groups api (set vs) =
     map (\<lambda>k. \<lparr>qg_host = fst k, qg_path = snd k,
            qg_total_identities = capped (card (group_members api (set vs) k)),
            qg_query_bearing_identities = capped (card (query_bearing api (set vs) k)),
            qg_canonical_query_variants = set_len (group_queries api (set vs) k)\<rparr>)
       (sorted_list_of_set {k. 8 \<le> card (group_queries api (set vs) k)})"
proof -
  let ?us = "sorted_list_of_set (set vs)"
  let ?m = "fold (account_url api) ?us []"
  let ?group = "\<lambda>k. \<lparr>qg_host = fst k, qg_path = snd k,
            qg_total_identities = capped (card (group_members api (set vs) k)),
            qg_query_bearing_identities = capped (card (query_bearing api (set vs) k)),
            qg_canonical_query_variants = set_len (group_queries api (set vs) k)\<rparr>"
  let ?big = "\<lambda>k. 8 \<le> card (group_queries api (set vs) k)"
  have invar: "bm_invar ?m" and lookup: "\<And>k. bm_lookup ?m k = (if group_members api (set vs) k = {} then None
        else Some \<lparr>qa_total_identities = capped (card (group_members api (set vs) k)),
          qa_query_bearing_identities = capped (card (query_bearing api (set vs) k)),
          qa_variants = group_queries api (set vs) k\<rparr>)"
    using account_all [of ?us api, unfolded set_sorted_list_of_set [OF finite_set]] distinct_sorted_list_of_set by blast+
  have threshold: "unat QUERY_EXPLOSION_MIN_VARIANTS = 8" by (simp add: QUERY_EXPLOSION_MIN_VARIANTS_def)
  have each: "query_variant_group p = (if ?big (fst p) then Some (?group (fst p)) else None)" if "p \<in> set ?m" for p
    using bm_mem_lookup [OF invar, of "fst p" "snd p"] that lookup [of "fst p"]
    by (cases p) (auto simp: query_variant_group_def threshold split: if_splits)
  have "List.map_filter query_variant_group m = map ?group (filter ?big (map fst m))" if "set m \<subseteq> set ?m" for m
    using that each by (induction m) (simp_all add: List.map_filter_simps)
  then have "query_variant_groups api (set vs) = map ?group (filter ?big (map fst ?m))"
    by (simp add: query_variant_groups_def)
  moreover have "filter ?big (map fst ?m) = sorted_list_of_set {k. ?big k}"
  proof -
    have "sorted_wrt (<) (filter ?big (map fst ?m))" using invar by (simp add: bm_invar_def sorted_wrt_filter)
    moreover have "set (filter ?big (map fst ?m)) = {k. ?big k}"
    proof -
      have "k \<in> fst ` set ?m" if "?big k" for k
      proof (rule ccontr)
        assume "k \<notin> fst ` set ?m"
        then have "bm_lookup ?m k = None" by (simp add: bm_lookup_None bm_keys_def)
        with lookup [of k] have "group_members api (set vs) k = {}" by (simp split: if_splits)
        then have "group_queries api (set vs) k = {}" by (auto simp: group_members_def group_queries_def)
        with that show False by simp
      qed
      then show ?thesis by auto
    qed
    ultimately show ?thesis
      by (metis sorted_list_of_set.idem_if_sorted_distinct strict_sorted_iff)
  qed
  ultimately show ?thesis by simp
qed

end
