(* ===== verification/Crawler_Store.thy ===== *)
theory Crawler_Store
  imports Version_Validation Test_Lab
begin

text \<open>
  The tables behind crawlers and their versions (\<open>migrations/0002_crawler_core.sql\<close>, the audit table of
  \<open>0001_system.sql\<close>) and the statements \<open>crates/erabi-db/src/repositories/crawler.rs\<close> runs on them.  A
  table maps primary keys to rows.  Rows hold their JSON columns decoded: a column that does not parse is
  outside the model, except for the checks a decoder makes beyond syntax.  A statement fails where SQLite
  aborts it: on a primary key, unique or foreign key violation, or when a trigger that protects the rows
  of published versions fires.
\<close>

section \<open>Rows\<close>

record 'u VersionRow =
  vr_crawler_id :: CrawlerId
  vr_state :: CrawlerVersionState
  vr_configuration :: "'u CrawlerVersion"

record SeedProjection =
  se_original_url :: string
  se_canonical_url :: string
  se_enabled :: bool
  se_label :: "string option"
  se_entry_page_type_hint :: "PageTypeId option"

record SeedRow =
  sr_version_id :: CrawlerVersionId
  sr_projection :: SeedProjection

record PageTypeRow =
  pg_version_id :: CrawlerVersionId
  pg_name :: string
  pg_priority :: int
  pg_configuration :: json

record 'u MatcherRow =
  ma_page_type_id :: PageTypeId
  ma_ordinal :: int
  ma_matcher :: "'u UrlMatcher"

record TransitionRow =
  tw_version_id :: CrawlerVersionId
  tw_transition :: DiscoveryTransition

text \<open>The payloads of audit events; the keys a payload lacks are \<open>None\<close>.\<close>

record AuditPayload =
  ap_version_id :: CrawlerVersionId
  ap_entity_id :: "string option"
  ap_base_version_id :: "CrawlerVersionId option"
  ap_config_hash :: "string option"
  ap_warning_summary :: "string list option"

record AuditRow =
  au_event_type :: string
  au_actor :: string
  au_occurred_at :: string
  au_entity_id :: string
  au_payload :: AuditPayload

record 'u crawler_db =
  db_crawlers :: "(CrawlerId, Crawler) bmap"
  db_versions :: "(CrawlerVersionId, 'u VersionRow) bmap"
  db_seeds :: "(SeedId, SeedRow) bmap"
  db_page_types :: "(PageTypeId, PageTypeRow) bmap"
  db_matchers :: "(string, 'u MatcherRow) bmap"
  db_transitions :: "(DiscoveryTransitionId, TransitionRow) bmap"
  db_audit :: "(string, AuditRow) bmap"

definition empty_crawler_db :: "'u crawler_db" where
  "empty_crawler_db = \<lparr>db_crawlers = [], db_versions = [], db_seeds = [], db_page_types = [], db_matchers = [],
     db_transitions = [], db_audit = []\<rparr>"

section \<open>Errors\<close>

datatype DatabaseFailure = BusyFailure | BusySnapshotFailure | ConstraintFailure | TriggerAbort

datatype CrawlerRepositoryError =
    CrCrawlerNotFound | CrCrawlerVersionNotFound | CrVersionNotOwnedByCrawler | CrActiveDraftExists
  | CrVersionNotDraft | CrVersionNotActiveDraft | CrVersionNotPublished | CrPublishedVersionImmutable
  | CrPageTypeNotFound | CrPageTypeNotOwnedByVersion | CrPageTypeInUse | CrUrlMatcherNotFound
  | CrUrlMatcherNotOwnedByPageType | CrInvalidUrlMatcherDefinition | CrDiscoveryTransitionNotFound
  | CrTransitionNotOwnedByVersion | CrTransitionSourcePageTypeNotFound | CrTransitionTargetPageTypeNotFound
  | CrInvalidDiscoveryTransition | CrInvalidCanonicalizationPolicy | CrInvalidDomainScope
  | CrInvalidCrawlGuardrails | CrInvalidPageTypeBudget | CrInvalidTransitionBudget
  | CrInvalidLifecycleTransition | CrConcurrentVersionTransition | CrCorruptState
  | CrPublicationValidationFailed VersionValidationReport | CrPublicationValidationInfrastructure
  | CrDatabase DatabaseFailure

fun map_semantic_error :: "ErrorCode \<Rightarrow> CrawlerRepositoryError" where
  "map_semantic_error InvalidCanonicalizationPolicy = CrInvalidCanonicalizationPolicy"
| "map_semantic_error InvalidDomainScope = CrInvalidDomainScope"
| "map_semantic_error InvalidDomainScopeRule = CrInvalidDomainScope"
| "map_semantic_error RegistrableDomainUnavailable = CrInvalidDomainScope"
| "map_semantic_error InvalidCrawlGuardrails = CrInvalidCrawlGuardrails"
| "map_semantic_error InvalidPageTypeBudget = CrInvalidPageTypeBudget"
| "map_semantic_error InvalidTransitionBudget = CrInvalidTransitionBudget"
| "map_semantic_error InvalidDiscoveryTransition = CrInvalidDiscoveryTransition"
| "map_semantic_error Conflict = CrPublishedVersionImmutable"
| "map_semantic_error _ = CrCorruptState"

definition db_guard :: "bool \<Rightarrow> DatabaseFailure \<Rightarrow> CrawlerRepositoryError + unit" where
  "db_guard ok failure = (if ok then Inr () else Inl (CrDatabase failure))"

section \<open>Triggers and foreign keys\<close>

definition version_state :: "'u crawler_db \<Rightarrow> CrawlerVersionId \<Rightarrow> CrawlerVersionState option" where
  "version_state db v = map_option vr_state (bm_lookup (db_versions db) v)"

text \<open>Semantic rows of a published version are immutable; those of a draft are free.\<close>

definition unfrozen :: "'u crawler_db \<Rightarrow> CrawlerVersionId \<Rightarrow> bool" where
  "unfrozen db v \<longleftrightarrow> version_state db v \<noteq> Some Published"

definition page_unfrozen :: "'u crawler_db \<Rightarrow> PageTypeId \<Rightarrow> bool" where
  "page_unfrozen db p \<longleftrightarrow> (case bm_lookup (db_page_types db) p of None \<Rightarrow> True | Some r \<Rightarrow> unfrozen db (pg_version_id r))"

section \<open>Statements\<close>

definition insert_crawler_row :: "Crawler \<Rightarrow> 'u crawler_db \<Rightarrow> CrawlerRepositoryError + 'u crawler_db" where
  "insert_crawler_row c db =
     res_bind (db_guard (bm_lookup (db_crawlers db) (crawler_id c) = None) ConstraintFailure) (\<lambda>_.
     Inr (db\<lparr>db_crawlers := bm_insert (crawler_id c) c (db_crawlers db)\<rparr>))"

definition insert_version_row :: "'u CrawlerVersion \<Rightarrow> 'u crawler_db \<Rightarrow> CrawlerRepositoryError + 'u crawler_db" where
  "insert_version_row v db =
     res_bind (db_guard (bm_lookup (db_versions db) (cv_id v) = None
        \<and> bm_lookup (db_crawlers db) (cv_crawler_id v) \<noteq> None) ConstraintFailure) (\<lambda>_.
     Inr (db\<lparr>db_versions := bm_insert (cv_id v)
        \<lparr>vr_crawler_id = cv_crawler_id v, vr_state = Draft, vr_configuration = v\<rparr> (db_versions db)\<rparr>))"

text \<open>Updates return the number of rows they changed.\<close>

definition update_draft_configuration ::
  "CrawlerVersionId \<Rightarrow> 'u CrawlerVersion \<Rightarrow> 'u crawler_db \<Rightarrow> CrawlerRepositoryError + nat \<times> 'u crawler_db" where
  "update_draft_configuration i v db =
     (case bm_lookup (db_versions db) i of
        None \<Rightarrow> Inr (0, db)
      | Some r \<Rightarrow>
          if vr_state r \<noteq> Draft then Inr (0, db)
          else Inr (1, db\<lparr>db_versions := bm_insert i (r\<lparr>vr_configuration := v\<rparr>) (db_versions db)\<rparr>))"

definition publish_version_row ::
  "CrawlerId \<Rightarrow> CrawlerVersionId \<Rightarrow> 'u CrawlerVersion \<Rightarrow> 'u crawler_db \<Rightarrow> CrawlerRepositoryError + nat \<times> 'u crawler_db" where
  "publish_version_row c i v db =
     (case bm_lookup (db_versions db) i of
        None \<Rightarrow> Inr (0, db)
      | Some r \<Rightarrow>
          if vr_crawler_id r \<noteq> c \<or> vr_state r \<noteq> Draft then Inr (0, db)
          else Inr (1, db\<lparr>db_versions := bm_insert i (r\<lparr>vr_state := Published, vr_configuration := v\<rparr>) (db_versions db)\<rparr>))"

definition update_crawler_row ::
  "CrawlerId \<Rightarrow> (Crawler \<Rightarrow> bool) \<Rightarrow> (Crawler \<Rightarrow> Crawler) \<Rightarrow> 'u crawler_db \<Rightarrow> nat \<times> 'u crawler_db" where
  "update_crawler_row i P f db =
     (case bm_lookup (db_crawlers db) i of
        None \<Rightarrow> (0, db)
      | Some c \<Rightarrow> if P c then (1, db\<lparr>db_crawlers := bm_insert i (f c) (db_crawlers db)\<rparr>) else (0, db))"

definition insert_seed_row :: "SeedId \<Rightarrow> SeedRow \<Rightarrow> 'u crawler_db \<Rightarrow> CrawlerRepositoryError + 'u crawler_db" where
  "insert_seed_row i r db =
     res_bind (db_guard (unfrozen db (sr_version_id r)) TriggerAbort) (\<lambda>_.
     res_bind (db_guard (bm_lookup (db_seeds db) i = None \<and> bm_lookup (db_versions db) (sr_version_id r) \<noteq> None) ConstraintFailure) (\<lambda>_.
     Inr (db\<lparr>db_seeds := bm_insert i r (db_seeds db)\<rparr>)))"

definition delete_seed_rows :: "CrawlerVersionId \<Rightarrow> 'u crawler_db \<Rightarrow> CrawlerRepositoryError + 'u crawler_db" where
  "delete_seed_rows v db =
     res_bind (db_guard (unfrozen db v \<or> list_all (\<lambda>(i, r). sr_version_id r \<noteq> v) (db_seeds db)) TriggerAbort) (\<lambda>_.
     Inr (db\<lparr>db_seeds := filter (\<lambda>(i, r). sr_version_id r \<noteq> v) (db_seeds db)\<rparr>))"

definition insert_page_type_row :: "PageTypeId \<Rightarrow> PageTypeRow \<Rightarrow> 'u crawler_db \<Rightarrow> CrawlerRepositoryError + 'u crawler_db" where
  "insert_page_type_row i r db =
     res_bind (db_guard (unfrozen db (pg_version_id r)) TriggerAbort) (\<lambda>_.
     res_bind (db_guard (bm_lookup (db_page_types db) i = None \<and> bm_lookup (db_versions db) (pg_version_id r) \<noteq> None) ConstraintFailure) (\<lambda>_.
     Inr (db\<lparr>db_page_types := bm_insert i r (db_page_types db)\<rparr>)))"

definition update_page_type_row ::
  "PageTypeId \<Rightarrow> CrawlerVersionId \<Rightarrow> string \<Rightarrow> int \<Rightarrow> 'u crawler_db \<Rightarrow> CrawlerRepositoryError + nat \<times> 'u crawler_db" where
  "update_page_type_row i v name prio db =
     (case bm_lookup (db_page_types db) i of
        None \<Rightarrow> Inr (0, db)
      | Some r \<Rightarrow>
          if pg_version_id r \<noteq> v then Inr (0, db)
          else res_bind (db_guard (unfrozen db v) TriggerAbort) (\<lambda>_.
            Inr (1, db\<lparr>db_page_types := bm_insert i (r\<lparr>pg_name := name, pg_priority := prio\<rparr>) (db_page_types db)\<rparr>)))"

definition delete_page_type_row ::
  "PageTypeId \<Rightarrow> CrawlerVersionId \<Rightarrow> 'u crawler_db \<Rightarrow> CrawlerRepositoryError + nat \<times> 'u crawler_db" where
  "delete_page_type_row i v db =
     (case bm_lookup (db_page_types db) i of
        None \<Rightarrow> Inr (0, db)
      | Some r \<Rightarrow>
          if pg_version_id r \<noteq> v then Inr (0, db)
          else res_bind (db_guard (unfrozen db v) TriggerAbort) (\<lambda>_.
            res_bind (db_guard (list_all (\<lambda>(_, m). ma_page_type_id m \<noteq> i) (db_matchers db)) ConstraintFailure) (\<lambda>_.
            Inr (1, db\<lparr>db_page_types := bm_remove i (db_page_types db)\<rparr>))))"

definition ordinal_taken :: "'u crawler_db \<Rightarrow> PageTypeId \<Rightarrow> int \<Rightarrow> bool" where
  "ordinal_taken db p n \<longleftrightarrow> list_ex (\<lambda>(_, m). ma_page_type_id m = p \<and> ma_ordinal m = n) (db_matchers db)"

definition insert_matcher_row :: "string \<Rightarrow> 'u MatcherRow \<Rightarrow> 'u crawler_db \<Rightarrow> CrawlerRepositoryError + 'u crawler_db" where
  "insert_matcher_row i m db =
     res_bind (db_guard (page_unfrozen db (ma_page_type_id m)) TriggerAbort) (\<lambda>_.
     res_bind (db_guard (bm_lookup (db_matchers db) i = None \<and> bm_lookup (db_page_types db) (ma_page_type_id m) \<noteq> None
        \<and> \<not> ordinal_taken db (ma_page_type_id m) (ma_ordinal m)) ConstraintFailure) (\<lambda>_.
     Inr (db\<lparr>db_matchers := bm_insert i m (db_matchers db)\<rparr>)))"

definition update_matcher_row ::
  "string \<Rightarrow> PageTypeId \<Rightarrow> 'u UrlMatcher \<Rightarrow> 'u crawler_db \<Rightarrow> CrawlerRepositoryError + nat \<times> 'u crawler_db" where
  "update_matcher_row i p matcher db =
     (case bm_lookup (db_matchers db) i of
        None \<Rightarrow> Inr (0, db)
      | Some m \<Rightarrow>
          if ma_page_type_id m \<noteq> p then Inr (0, db)
          else res_bind (db_guard (page_unfrozen db p) TriggerAbort) (\<lambda>_.
            Inr (1, db\<lparr>db_matchers := bm_insert i (m\<lparr>ma_matcher := matcher\<rparr>) (db_matchers db)\<rparr>)))"

definition delete_matcher_row ::
  "string \<Rightarrow> PageTypeId \<Rightarrow> 'u crawler_db \<Rightarrow> CrawlerRepositoryError + nat \<times> 'u crawler_db" where
  "delete_matcher_row i p db =
     (case bm_lookup (db_matchers db) i of
        None \<Rightarrow> Inr (0, db)
      | Some m \<Rightarrow>
          if ma_page_type_id m \<noteq> p then Inr (0, db)
          else res_bind (db_guard (page_unfrozen db p) TriggerAbort) (\<lambda>_.
            Inr (1, db\<lparr>db_matchers := bm_remove i (db_matchers db)\<rparr>)))"

definition delete_matcher_rows :: "PageTypeId \<Rightarrow> 'u crawler_db \<Rightarrow> CrawlerRepositoryError + 'u crawler_db" where
  "delete_matcher_rows p db =
     res_bind (db_guard (page_unfrozen db p \<or> list_all (\<lambda>(_, m). ma_page_type_id m \<noteq> p) (db_matchers db)) TriggerAbort) (\<lambda>_.
     Inr (db\<lparr>db_matchers := filter (\<lambda>(_, m). ma_page_type_id m \<noteq> p) (db_matchers db)\<rparr>))"

definition insert_transition_row ::
  "DiscoveryTransitionId \<Rightarrow> TransitionRow \<Rightarrow> 'u crawler_db \<Rightarrow> CrawlerRepositoryError + 'u crawler_db" where
  "insert_transition_row i r db =
     res_bind (db_guard (unfrozen db (tw_version_id r)) TriggerAbort) (\<lambda>_.
     res_bind (db_guard (bm_lookup (db_transitions db) i = None \<and> bm_lookup (db_versions db) (tw_version_id r) \<noteq> None) ConstraintFailure) (\<lambda>_.
     Inr (db\<lparr>db_transitions := bm_insert i r (db_transitions db)\<rparr>)))"

definition update_transition_row ::
  "DiscoveryTransitionId \<Rightarrow> CrawlerVersionId \<Rightarrow> DiscoveryTransition \<Rightarrow> 'u crawler_db
    \<Rightarrow> CrawlerRepositoryError + nat \<times> 'u crawler_db" where
  "update_transition_row i v t db =
     (case bm_lookup (db_transitions db) i of
        None \<Rightarrow> Inr (0, db)
      | Some r \<Rightarrow>
          if tw_version_id r \<noteq> v then Inr (0, db)
          else res_bind (db_guard (unfrozen db v) TriggerAbort) (\<lambda>_.
            Inr (1, db\<lparr>db_transitions := bm_insert i (r\<lparr>tw_transition := t\<rparr>) (db_transitions db)\<rparr>)))"

definition delete_transition_row ::
  "DiscoveryTransitionId \<Rightarrow> CrawlerVersionId \<Rightarrow> 'u crawler_db \<Rightarrow> CrawlerRepositoryError + nat \<times> 'u crawler_db" where
  "delete_transition_row i v db =
     (case bm_lookup (db_transitions db) i of
        None \<Rightarrow> Inr (0, db)
      | Some r \<Rightarrow>
          if tw_version_id r \<noteq> v then Inr (0, db)
          else res_bind (db_guard (unfrozen db v) TriggerAbort) (\<lambda>_.
            Inr (1, db\<lparr>db_transitions := bm_remove i (db_transitions db)\<rparr>)))"

definition insert_audit_event :: "string \<Rightarrow> AuditRow \<Rightarrow> 'u crawler_db \<Rightarrow> CrawlerRepositoryError + 'u crawler_db" where
  "insert_audit_event i r db =
     res_bind (db_guard (bm_lookup (db_audit db) i = None) ConstraintFailure) (\<lambda>_.
     Inr (db\<lparr>db_audit := bm_insert i r (db_audit db)\<rparr>))"

end
