(* ===== verification/Crawler_Repository.thy ===== *)
theory Crawler_Repository
  imports Crawler_Store
begin

text \<open>
  Reading crawlers and their versions, and the life of a version from draft to published
  (\<open>crates/erabi-db/src/repositories/crawler.rs\<close>): creating a draft, cloning a published version, saving,
  publishing through the validation registry, reactivating.  A transaction body maps the database to an
  error or to a result and the new database; \<open>run_tx\<close> commits or rolls back.  The digest of the semantic
  content and the stored test evidence are arguments, as are identifiers drawn from UUIDs.
\<close>

section \<open>Environment and transactions\<close>

record 'u repo_env =
  rp_scope :: "'u scope_env"
  rp_matcher :: "'u matcher_env"
  rp_registry :: "'u VersionValidationContributor list"
  rp_digest :: "'u crawler_db \<Rightarrow> 'u CrawlerVersion \<Rightarrow> string"
  rp_evidence :: "CrawlerVersionId \<Rightarrow> string \<Rightarrow> CrawlerRepositoryError + TestEvidence list"

abbreviation rp_api :: "'u repo_env \<Rightarrow> 'u url_api" where
  "rp_api env \<equiv> matcher_api (rp_matcher env)"

type_synonym ('u, 'a) crawler_tx = "'u crawler_db \<Rightarrow> CrawlerRepositoryError + 'a \<times> 'u crawler_db"

definition run_tx :: "('u, 'a) crawler_tx \<Rightarrow> 'u crawler_db \<Rightarrow> (CrawlerRepositoryError + 'a) \<times> 'u crawler_db" where
  "run_tx body db = (case body db of Inl e \<Rightarrow> (Inl e, db) | Inr (x, db') \<Rightarrow> (Inr x, db'))"

section \<open>Reading\<close>

definition ensure_crawler_exists :: "'u crawler_db \<Rightarrow> CrawlerId \<Rightarrow> CrawlerRepositoryError + unit" where
  "ensure_crawler_exists db c = (if bm_lookup (db_crawlers db) c = None then Inl CrCrawlerNotFound else Inr ())"

definition pointer_ok :: "'u crawler_db \<Rightarrow> CrawlerId \<Rightarrow> CrawlerVersionState \<Rightarrow> CrawlerVersionId option \<Rightarrow> bool" where
  "pointer_ok db c s p \<longleftrightarrow>
     (case p of None \<Rightarrow> True
      | Some i \<Rightarrow> (case bm_lookup (db_versions db) i of None \<Rightarrow> False | Some r \<Rightarrow> vr_crawler_id r = c \<and> vr_state r = s))"

definition ensure_pointer_consistency :: "'u crawler_db \<Rightarrow> CrawlerId \<Rightarrow> CrawlerRepositoryError + unit" where
  "ensure_pointer_consistency db c =
     (case bm_lookup (db_crawlers db) c of
        None \<Rightarrow> Inr ()
      | Some row \<Rightarrow>
          if pointer_ok db c Draft (active_draft_version_id row) \<and> pointer_ok db c Published (active_published_version_id row)
          then Inr () else Inl CrCorruptState)"

definition active_draft_for :: "'u crawler_db \<Rightarrow> CrawlerId \<Rightarrow> CrawlerRepositoryError + CrawlerVersionId option" where
  "active_draft_for db c = res_bind (ok_or (bm_lookup (db_crawlers db) c) CrCrawlerNotFound) (\<lambda>row. Inr (active_draft_version_id row))"

definition get_crawler :: "'u crawler_db \<Rightarrow> CrawlerId \<Rightarrow> CrawlerRepositoryError + Crawler" where
  "get_crawler db c =
     res_bind (ok_or (bm_lookup (db_crawlers db) c) CrCrawlerNotFound) (\<lambda>row.
     res_bind (ensure_pointer_consistency db (crawler_id row)) (\<lambda>_. Inr row))"

definition list_crawlers :: "'u crawler_db \<Rightarrow> CrawlerRepositoryError + Crawler list" where
  "list_crawlers db =
     collect_results (\<lambda>row. res_bind (ensure_pointer_consistency db (crawler_id row)) (\<lambda>_. Inr row))
       (sort_key (\<lambda>row. (crawler_name row, crawler_id row)) (bm_values (db_crawlers db)))"

definition version_from_row_with_semantic_validation ::
  "'u repo_env \<Rightarrow> CrawlerVersionId \<Rightarrow> 'u VersionRow \<Rightarrow> bool \<Rightarrow> CrawlerRepositoryError + 'u CrawlerVersion" where
  "version_from_row_with_semantic_validation env i r validate =
     (let v = vr_configuration r in
      if cv_id v \<noteq> i \<or> cv_crawler_id v \<noteq> vr_crawler_id r \<or> cv_state v \<noteq> vr_state r then Inl CrCorruptState
      else if validate
      then res_bind (map_err (\<lambda>_. CrCorruptState) (validate_semantic_contract (rp_scope env) v)) (\<lambda>_. Inr v)
      else Inr v)"

definition version_from_row :: "'u repo_env \<Rightarrow> CrawlerVersionId \<Rightarrow> 'u VersionRow \<Rightarrow> CrawlerRepositoryError + 'u CrawlerVersion" where
  "version_from_row env i r = version_from_row_with_semantic_validation env i r True"

definition seed_projection :: "'u repo_env \<Rightarrow> 'u Seed \<Rightarrow> SeedProjection" where
  "seed_projection env s =
     \<lparr>se_original_url = url_as_str (rp_api env) (original_url s), se_canonical_url = url_as_str (rp_api env) (canonical_url s),
      se_enabled = seed_enabled s, se_label = seed_label s, se_entry_page_type_hint = entry_page_type_hint s\<rparr>"

definition expected_projection :: "'u repo_env \<Rightarrow> 'u CrawlerVersion \<Rightarrow> (SeedId, SeedProjection) bmap" where
  "expected_projection env v = fold (\<lambda>s. bm_insert (seed_id s) (seed_projection env s)) (cv_seeds v) []"

definition actual_projection :: "'u crawler_db \<Rightarrow> CrawlerVersionId \<Rightarrow> (SeedId, SeedProjection) bmap" where
  "actual_projection db v =
     map (\<lambda>(i, r). (i, sr_projection r)) (filter (\<lambda>(i, r). sr_version_id r = v) (db_seeds db))"

definition validate_seed_projection :: "'u repo_env \<Rightarrow> 'u crawler_db \<Rightarrow> 'u CrawlerVersion \<Rightarrow> CrawlerRepositoryError + unit" where
  "validate_seed_projection env db v =
     (if length (expected_projection env v) \<noteq> length (cv_seeds v)
         \<or> list_ex (\<lambda>s. case entry_page_type_hint s of None \<Rightarrow> False | Some hint \<Rightarrow> hint \<notin> set (cv_page_type_ids v)) (cv_seeds v)
      then Inl CrCorruptState
      else if actual_projection db (cv_id v) \<noteq> expected_projection env v then Inl CrCorruptState
      else Inr ())"

definition load_version_with :: "bool \<Rightarrow> 'u repo_env \<Rightarrow> 'u crawler_db \<Rightarrow> CrawlerVersionId \<Rightarrow> CrawlerRepositoryError + 'u CrawlerVersion" where
  "load_version_with validate env db i =
     res_bind (ok_or (bm_lookup (db_versions db) i) CrCrawlerVersionNotFound) (\<lambda>r.
     res_bind (version_from_row_with_semantic_validation env i r validate) (\<lambda>v.
     res_bind (validate_seed_projection env db v) (\<lambda>_. Inr v)))"

definition load_version :: "'u repo_env \<Rightarrow> 'u crawler_db \<Rightarrow> CrawlerVersionId \<Rightarrow> CrawlerRepositoryError + 'u CrawlerVersion" where
  "load_version = load_version_with True"

definition load_publication_version ::
  "'u repo_env \<Rightarrow> 'u crawler_db \<Rightarrow> CrawlerVersionId \<Rightarrow> CrawlerRepositoryError + 'u CrawlerVersion" where
  "load_publication_version = load_version_with False"

record 'u UrlMatcherRecord =
  um_id :: string
  um_page_type_id :: PageTypeId
  um_ordinal :: int
  um_matcher :: "'u UrlMatcher"

record 'u PageTypeRecord =
  pr_id :: PageTypeId
  pr_version_id :: CrawlerVersionId
  pr_name :: string
  pr_priority :: int
  pr_matchers :: "'u UrlMatcherRecord list"

text \<open>A matcher whose definition is not valid is refused when it is decoded.\<close>

definition matcher_from_row :: "'u repo_env \<Rightarrow> string \<times> 'u MatcherRow \<Rightarrow> CrawlerRepositoryError + 'u UrlMatcherRecord" where
  "matcher_from_row env p = (case p of (i, m) \<Rightarrow>
     res_bind (map_err (\<lambda>_. CrCorruptState) (validate_definition (rp_matcher env) (ma_matcher m))) (\<lambda>_.
     Inr \<lparr>um_id = i, um_page_type_id = ma_page_type_id m, um_ordinal = ma_ordinal m, um_matcher = ma_matcher m\<rparr>))"

definition load_matchers_for_page_type ::
  "'u repo_env \<Rightarrow> 'u crawler_db \<Rightarrow> PageTypeId \<Rightarrow> CrawlerRepositoryError + 'u UrlMatcherRecord list" where
  "load_matchers_for_page_type env db p =
     collect_results (matcher_from_row env)
       (sort_key (\<lambda>(i, m). (ma_ordinal m, i)) (filter (\<lambda>(i, m). ma_page_type_id m = p) (db_matchers db)))"

definition page_type_from_row ::
  "'u repo_env \<Rightarrow> 'u crawler_db \<Rightarrow> PageTypeId list \<Rightarrow> PageTypeId \<times> PageTypeRow \<Rightarrow> CrawlerRepositoryError + 'u PageTypeRecord" where
  "page_type_from_row env db declared p = (case p of (i, r) \<Rightarrow>
     if i \<notin> set declared then Inl CrCorruptState
     else res_bind (load_matchers_for_page_type env db i) (\<lambda>matchers.
       Inr \<lparr>pr_id = i, pr_version_id = pg_version_id r, pr_name = pg_name r, pr_priority = pg_priority r, pr_matchers = matchers\<rparr>))"

definition load_page_type_records ::
  "'u repo_env \<Rightarrow> 'u crawler_db \<Rightarrow> 'u CrawlerVersion \<Rightarrow> CrawlerRepositoryError + 'u PageTypeRecord list" where
  "load_page_type_records env db v =
     (let declared = cv_page_type_ids v in
      if \<not> distinct declared then Inl CrCorruptState
      else res_bind (collect_results (page_type_from_row env db declared)
          (sort_key (\<lambda>(i, r). (pg_name r, i)) (filter (\<lambda>(i, r). pg_version_id r = cv_id v) (db_page_types db)))) (\<lambda>records.
        if pr_id ` set records \<noteq> set declared then Inl CrCorruptState else Inr records))"

definition domain_page_type :: "'u PageTypeRecord \<Rightarrow> 'u PageType" where
  "domain_page_type r = \<lparr>pt_id = pr_id r, pt_name = pr_name r, pt_priority = pr_priority r, pt_matchers = map um_matcher (pr_matchers r)\<rparr>"

definition ensure_page_type_belongs_to_version ::
  "'u crawler_db \<Rightarrow> CrawlerVersionId \<Rightarrow> PageTypeId \<Rightarrow> CrawlerRepositoryError + unit" where
  "ensure_page_type_belongs_to_version db v p =
     res_bind (ok_or (bm_lookup (db_page_types db) p) CrPageTypeNotFound) (\<lambda>r.
     if pg_version_id r \<noteq> v then Inl CrPageTypeNotOwnedByVersion else Inr ())"

definition ensure_missing_transition_page_type_is_absent :: "'u crawler_db \<Rightarrow> PageTypeId \<Rightarrow> CrawlerRepositoryError + unit" where
  "ensure_missing_transition_page_type_is_absent db p =
     (if bm_lookup (db_page_types db) p \<noteq> None then Inl CrCorruptState else Inr ())"

definition check_transition_semantics ::
  "'u crawler_db \<Rightarrow> 'u CrawlerVersion \<Rightarrow> DiscoveryTransition \<Rightarrow> CrawlerRepositoryError + unit" where
  "check_transition_semantics db v t =
     (let corrupt = map_err (\<lambda>_. CrCorruptState) in
      if source_page_type_id t \<notin> set (cv_page_type_ids v) \<or> target_page_type_id t \<notin> set (cv_page_type_ids v)
      then Inl CrCorruptState
      else res_bind (corrupt (ensure_page_type_belongs_to_version db (cv_id v) (source_page_type_id t))) (\<lambda>_.
        res_bind (corrupt (ensure_page_type_belongs_to_version db (cv_id v) (target_page_type_id t))) (\<lambda>_.
        map_err (\<lambda>_. CrCorruptState) (validate_transition t))))"

definition check_transition_references ::
  "'u crawler_db \<Rightarrow> 'u CrawlerVersion \<Rightarrow> DiscoveryTransition \<Rightarrow> CrawlerRepositoryError + unit" where
  "check_transition_references db v t =
     for_each (\<lambda>p. if p \<in> set (cv_page_type_ids v) then Inr () else ensure_missing_transition_page_type_is_absent db p)
       [source_page_type_id t, target_page_type_id t]"

definition transition_from_row ::
  "'u crawler_db \<Rightarrow> 'u CrawlerVersion \<Rightarrow> bool \<Rightarrow> DiscoveryTransitionId \<times> TransitionRow
    \<Rightarrow> CrawlerRepositoryError + DiscoveryTransition" where
  "transition_from_row db v validate p = (case p of (i, r) \<Rightarrow>
     if i \<notin> set (cv_transition_ids v) \<or> tr_id (tw_transition r) \<noteq> i then Inl CrCorruptState
     else res_bind (if validate then check_transition_semantics db v (tw_transition r)
         else check_transition_references db v (tw_transition r)) (\<lambda>_. Inr (tw_transition r)))"

definition load_transition_records ::
  "'u crawler_db \<Rightarrow> 'u CrawlerVersion \<Rightarrow> bool \<Rightarrow> CrawlerRepositoryError + DiscoveryTransition list" where
  "load_transition_records db v validate =
     (if \<not> distinct (cv_transition_ids v) then Inl CrCorruptState
      else res_bind (collect_results (transition_from_row db v validate)
          (filter (\<lambda>(i, r). tw_version_id r = cv_id v) (db_transitions db))) (\<lambda>records.
        if tr_id ` set records \<noteq> set (cv_transition_ids v) then Inl CrCorruptState else Inr records))"

text \<open>The digest is taken of a version whose rows are consistent with it.\<close>

definition version_matchers :: "'u crawler_db \<Rightarrow> CrawlerVersionId \<Rightarrow> (string \<times> 'u MatcherRow) list" where
  "version_matchers db v = filter (\<lambda>(i, m). case bm_lookup (db_page_types db) (ma_page_type_id m) of
      None \<Rightarrow> False | Some r \<Rightarrow> pg_version_id r = v) (db_matchers db)"

definition semantic_hash_with_semantic_validation ::
  "'u repo_env \<Rightarrow> 'u crawler_db \<Rightarrow> 'u CrawlerVersion \<Rightarrow> bool \<Rightarrow> CrawlerRepositoryError + string" where
  "semantic_hash_with_semantic_validation env db v validate =
     res_bind (if validate then map_err (\<lambda>_. CrCorruptState) (validate_semantic_contract (rp_scope env) v) else Inr ()) (\<lambda>_.
     res_bind (load_transition_records db v validate) (\<lambda>_.
     res_bind (collect_results (matcher_from_row env) (version_matchers db (cv_id v))) (\<lambda>_.
     Inr (rp_digest env db v))))"

definition semantic_hash :: "'u repo_env \<Rightarrow> 'u crawler_db \<Rightarrow> 'u CrawlerVersion \<Rightarrow> CrawlerRepositoryError + string" where
  "semantic_hash env db v = semantic_hash_with_semantic_validation env db v True"

definition load_semantic_snapshot ::
  "'u repo_env \<Rightarrow> 'u crawler_db \<Rightarrow> CrawlerId \<Rightarrow> CrawlerVersionId \<Rightarrow> CrawlerRepositoryError + 'u CrawlerSemanticSnapshot" where
  "load_semantic_snapshot env db c i =
     res_bind (load_version env db i) (\<lambda>v.
     if cv_crawler_id v \<noteq> c then Inl CrVersionNotOwnedByCrawler
     else
       res_bind (validate_seed_projection env db v) (\<lambda>_.
       res_bind (load_page_type_records env db v) (\<lambda>page_types.
       res_bind (load_transition_records db v True) (\<lambda>transitions.
       res_bind (semantic_hash_with_semantic_validation env db v True) (\<lambda>hash.
       Inr \<lparr>snap_version = v, snap_page_types = map domain_page_type page_types, snap_transitions = transitions,
            snap_config_hash = hash\<rparr>)))))"

definition evaluation_snapshot ::
  "'u repo_env \<Rightarrow> 'u crawler_db \<Rightarrow> CrawlerId \<Rightarrow> CrawlerVersionId \<Rightarrow> bool
    \<Rightarrow> CrawlerRepositoryError + 'u CrawlerEvaluationSnapshot" where
  "evaluation_snapshot env db c i include_published =
     res_bind (ensure_crawler_exists db c) (\<lambda>_.
     res_bind (ensure_pointer_consistency db c) (\<lambda>_.
     res_bind (ok_or (bm_lookup (db_crawlers db) c) (CrDatabase ConstraintFailure)) (\<lambda>row.
     res_bind (load_semantic_snapshot env db c i) (\<lambda>draft.
     if cv_state (snap_version draft) \<noteq> Draft then Inl CrVersionNotDraft
     else if active_draft_version_id row \<noteq> Some i then Inl CrVersionNotActiveDraft
     else
       res_bind (if include_published then
           (case active_published_version_id row of None \<Rightarrow> Inr None
            | Some p \<Rightarrow> res_bind (load_semantic_snapshot env db c p) (\<lambda>s. Inr (Some s)))
         else Inr None) (\<lambda>published.
       Inr \<lparr>snap_draft = draft, snap_published = published\<rparr>)))))"

definition published_semantic_snapshot ::
  "'u repo_env \<Rightarrow> 'u crawler_db \<Rightarrow> CrawlerId \<Rightarrow> CrawlerVersionId \<Rightarrow> CrawlerRepositoryError + 'u CrawlerSemanticSnapshot" where
  "published_semantic_snapshot env db c i =
     res_bind (ensure_crawler_exists db c) (\<lambda>_.
     res_bind (ensure_pointer_consistency db c) (\<lambda>_.
     res_bind (load_semantic_snapshot env db c i) (\<lambda>s.
     if cv_state (snap_version s) \<noteq> Published then Inl CrVersionNotPublished else Inr s)))"

definition configuration_hash ::
  "'u repo_env \<Rightarrow> 'u crawler_db \<Rightarrow> CrawlerId \<Rightarrow> CrawlerVersionId \<Rightarrow> CrawlerRepositoryError + string" where
  "configuration_hash env db c i =
     res_bind (ensure_crawler_exists db c) (\<lambda>_.
     res_bind (ensure_pointer_consistency db c) (\<lambda>_.
     res_bind (load_version env db i) (\<lambda>v.
     if cv_crawler_id v \<noteq> c then Inl CrVersionNotOwnedByCrawler
     else res_bind (validate_seed_projection env db v) (\<lambda>_.
       res_bind (load_transition_records db v True) (\<lambda>_. semantic_hash env db v)))))"

definition load_mutation_version ::
  "'u repo_env \<Rightarrow> 'u crawler_db \<Rightarrow> CrawlerId \<Rightarrow> CrawlerVersionId \<Rightarrow> CrawlerRepositoryError + 'u CrawlerVersion" where
  "load_mutation_version env db c i =
     res_bind (ensure_crawler_exists db c) (\<lambda>_.
     res_bind (load_version env db i) (\<lambda>v.
     if cv_crawler_id v \<noteq> c then Inl CrVersionNotOwnedByCrawler
     else if cv_state v \<noteq> Draft then Inl CrPublishedVersionImmutable
     else res_bind (active_draft_for db c) (\<lambda>draft.
       if draft \<noteq> Some i then Inl CrVersionNotActiveDraft
       else res_bind (load_page_type_records env db v) (\<lambda>_.
         res_bind (load_transition_records db v True) (\<lambda>_. Inr v)))))"

section \<open>Audit metadata\<close>

record CrawlerAuditMetadata =
  am_actor :: "string option"
  am_occurred_at :: "string option"
  am_config_hash :: "string option"
  am_warning_summary :: "string list"
  am_base_version_id :: "CrawlerVersionId option"

record 'u CrawlerVersionRecord =
  cr_version :: "'u CrawlerVersion"
  cr_audit :: CrawlerAuditMetadata

definition default_audit :: CrawlerAuditMetadata where
  "default_audit = \<lparr>am_actor = None, am_occurred_at = None, am_config_hash = None, am_warning_summary = [], am_base_version_id = None\<rparr>"

fun strictly_increasing :: "'a::linorder list \<Rightarrow> bool" where
  "strictly_increasing (x # y # xs) \<longleftrightarrow> x < y \<and> strictly_increasing (y # xs)"
| "strictly_increasing _ \<longleftrightarrow> True"

definition audit_warning_summary :: "string list option \<Rightarrow> CrawlerRepositoryError + string list" where
  "audit_warning_summary summary =
     (case summary of
        None \<Rightarrow> Inr []
      | Some vs \<Rightarrow>
          if length vs > MAX_VALIDATION_ISSUES then Inl CrCorruptState
          else if list_ex (\<lambda>v. v = [] \<or> char_count v > MAX_VALIDATION_MESSAGE_CHARS \<or> any_char is_control v) vs then Inl CrCorruptState
          else if \<not> strictly_increasing vs then Inl CrCorruptState
          else Inr vs)"

fun audit_fold :: "AuditRow list \<Rightarrow> CrawlerAuditMetadata \<Rightarrow> CrawlerRepositoryError + CrawlerAuditMetadata" where
  "audit_fold [] meta = Inr meta"
| "audit_fold (r # rs) meta =
     (if au_event_type r = ''CRAWLER_DRAFT_CREATED'' \<or> au_event_type r = ''CRAWLER_VERSION_PUBLISHED''
      then res_bind (audit_warning_summary (ap_warning_summary (au_payload r))) (\<lambda>summary.
        audit_fold rs \<lparr>am_actor = Some (au_actor r), am_occurred_at = Some (au_occurred_at r),
          am_config_hash = (case ap_config_hash (au_payload r) of None \<Rightarrow> am_config_hash meta | Some h \<Rightarrow> Some h),
          am_warning_summary = summary, am_base_version_id = ap_base_version_id (au_payload r)\<rparr>)
      else audit_fold rs meta)"

definition audit_metadata :: "'u crawler_db \<Rightarrow> CrawlerVersionId \<Rightarrow> CrawlerRepositoryError + CrawlerAuditMetadata" where
  "audit_metadata db i =
     audit_fold (map snd (sort_key (\<lambda>(k, r). (au_occurred_at r, k)) (filter (\<lambda>(k, r). au_entity_id r = i) (db_audit db)))) default_audit"

definition audit_payload ::
  "CrawlerVersionId \<Rightarrow> CrawlerVersionId option \<Rightarrow> string option \<Rightarrow> string list \<Rightarrow> AuditPayload" where
  "audit_payload i base hash warnings =
     \<lparr>ap_version_id = i, ap_entity_id = None, ap_base_version_id = base, ap_config_hash = hash,
      ap_warning_summary = Some warnings\<rparr>"

definition audit_event :: "string \<Rightarrow> string \<Rightarrow> string \<Rightarrow> CrawlerVersionId \<Rightarrow> AuditPayload \<Rightarrow> AuditRow" where
  "audit_event event actor at i payload =
     \<lparr>au_event_type = event, au_actor = actor, au_occurred_at = at, au_entity_id = i, au_payload = payload\<rparr>"

definition version_record ::
  "'u repo_env \<Rightarrow> 'u crawler_db \<Rightarrow> 'u CrawlerVersion \<Rightarrow> CrawlerRepositoryError + 'u CrawlerVersionRecord" where
  "version_record env db v =
     res_bind (validate_seed_projection env db v) (\<lambda>_.
     res_bind (load_transition_records db v True) (\<lambda>_.
     res_bind (audit_metadata db (cv_id v)) (\<lambda>audit. Inr \<lparr>cr_version = v, cr_audit = audit\<rparr>)))"

definition list_versions ::
  "'u repo_env \<Rightarrow> 'u crawler_db \<Rightarrow> CrawlerId \<Rightarrow> CrawlerRepositoryError + 'u CrawlerVersionRecord list" where
  "list_versions env db c =
     res_bind (ensure_crawler_exists db c) (\<lambda>_.
     res_bind (ensure_pointer_consistency db c) (\<lambda>_.
     collect_results (\<lambda>(i, r). res_bind (version_from_row env i r) (version_record env db))
       (filter (\<lambda>(i, r). vr_crawler_id r = c) (db_versions db))))"

definition get_version ::
  "'u repo_env \<Rightarrow> 'u crawler_db \<Rightarrow> CrawlerId \<Rightarrow> CrawlerVersionId \<Rightarrow> CrawlerRepositoryError + 'u CrawlerVersionRecord" where
  "get_version env db c i =
     res_bind (ensure_crawler_exists db c) (\<lambda>_.
     res_bind (ensure_pointer_consistency db c) (\<lambda>_.
     res_bind (ok_or (bm_lookup (db_versions db) i) CrCrawlerVersionNotFound) (\<lambda>r.
     res_bind (version_from_row env i r) (\<lambda>v.
     if cv_crawler_id v \<noteq> c then Inl CrVersionNotOwnedByCrawler else version_record env db v))))"

end
