(* ===== verification/Crawler_Lifecycle.thy ===== *)
theory Crawler_Lifecycle
  imports Crawler_Repository
begin

text \<open>
  The life of a crawler version in the database (\<open>crates/erabi-db/src/repositories/crawler.rs\<close>): a draft is
  created empty, saved, or cloned from a published version with all its child rows renamed; it is
  published through the validation registry; published versions are reactivated.
\<close>

section \<open>Drafts\<close>

definition create_crawler :: "Crawler \<Rightarrow> ('u, unit) crawler_tx" where
  "create_crawler c db =
     res_bind (insert_crawler_row (c\<lparr>crawler_collection_id := None, active_published_version_id := None,
        active_draft_version_id := None\<rparr>) db) (\<lambda>db1. Inr ((), db1))"

fun insert_seeds :: "'u repo_env \<Rightarrow> CrawlerVersionId \<Rightarrow> 'u Seed list \<Rightarrow> 'u crawler_db \<Rightarrow> CrawlerRepositoryError + 'u crawler_db" where
  "insert_seeds env v [] db = Inr db"
| "insert_seeds env v (s # ss) db =
     res_bind (insert_seed_row (seed_id s) \<lparr>sr_version_id = v, sr_projection = seed_projection env s\<rparr> db) (insert_seeds env v ss)"

definition sync_seed_rows :: "'u repo_env \<Rightarrow> 'u CrawlerVersion \<Rightarrow> 'u crawler_db \<Rightarrow> CrawlerRepositoryError + 'u crawler_db" where
  "sync_seed_rows env v db = res_bind (delete_seed_rows (cv_id v) db) (insert_seeds env (cv_id v) (cv_seeds v))"

definition activate_draft_pointer ::
  "CrawlerId \<Rightarrow> CrawlerVersionId \<Rightarrow> 'u crawler_db \<Rightarrow> CrawlerRepositoryError + 'u crawler_db" where
  "activate_draft_pointer c i db =
     (let (n, db1) = update_crawler_row c (\<lambda>row. active_draft_version_id row = None)
        (\<lambda>row. row\<lparr>active_draft_version_id := Some i\<rparr>) db
      in if n \<noteq> 1 then Inl CrConcurrentVersionTransition else Inr db1)"

definition insert_draft_in_transaction ::
  "'u repo_env \<Rightarrow> 'u CrawlerVersion \<Rightarrow> CrawlerVersionId option \<Rightarrow> string \<Rightarrow> string \<Rightarrow> ('u, unit) crawler_tx" where
  "insert_draft_in_transaction env v base actor at db =
     res_bind (map_err (\<lambda>e. map_semantic_error (code e)) (validate_semantic_contract (rp_scope env) v)) (\<lambda>_.
     res_bind (ok_or (bm_lookup (db_crawlers db) (cv_crawler_id v)) CrCrawlerNotFound) (\<lambda>row.
     if active_draft_version_id row \<noteq> None then Inl CrActiveDraftExists
     else
       res_bind (insert_version_row v db) (\<lambda>db1.
       res_bind (sync_seed_rows env v db1) (\<lambda>db2.
       res_bind (activate_draft_pointer (cv_crawler_id v) (cv_id v) db2) (\<lambda>db3.
       res_bind (insert_audit_event (''draft:'' @ cv_id v @ '':'' @ at)
          (audit_event ''CRAWLER_DRAFT_CREATED'' actor at (cv_id v) (audit_payload (cv_id v) base None [])) db3) (\<lambda>db4.
       Inr ((), db4)))))))"

definition save_draft_in_transaction ::
  "'u repo_env \<Rightarrow> 'u CrawlerVersion \<Rightarrow> string \<Rightarrow> string \<Rightarrow> ('u, unit) crawler_tx" where
  "save_draft_in_transaction env v actor at db =
     (case bm_lookup (db_versions db) (cv_id v) of
        Some r \<Rightarrow>
          if vr_crawler_id r \<noteq> cv_crawler_id v then Inl CrVersionNotOwnedByCrawler
          else if vr_state r = Published then Inl CrPublishedVersionImmutable
          else res_bind (active_draft_for db (cv_crawler_id v)) (\<lambda>pointer.
            if pointer \<noteq> Some (cv_id v) then Inl CrInvalidLifecycleTransition
            else res_bind (update_draft_configuration (cv_id v) v db) (\<lambda>(n, db1).
              res_bind (sync_seed_rows env v db1) (\<lambda>db2. Inr ((), db2))))
      | None \<Rightarrow> insert_draft_in_transaction env v None actor at db)"

definition save_draft_typed :: "'u repo_env \<Rightarrow> 'u CrawlerVersion \<Rightarrow> string \<Rightarrow> string \<Rightarrow> ('u, unit) crawler_tx" where
  "save_draft_typed env v actor at db =
     (if cv_state v \<noteq> Draft then Inl CrPublishedVersionImmutable
      else res_bind (map_err (\<lambda>e. map_semantic_error (code e)) (validate_semantic_contract (rp_scope env) v)) (\<lambda>_.
        save_draft_in_transaction env v actor at db))"

text \<open>Without its crawler the insert runs once more on its own, so that the caller sees the foreign key fail.\<close>

definition save_draft :: "'u repo_env \<Rightarrow> 'u CrawlerVersion \<Rightarrow> string \<Rightarrow> string \<Rightarrow> ('u, unit) crawler_tx" where
  "save_draft env v actor at db =
     (case save_draft_typed env v actor at db of
        Inl CrCrawlerNotFound \<Rightarrow> res_bind (insert_version_row v db) (\<lambda>db1. Inr ((), db1))
      | result \<Rightarrow> result)"

section \<open>Cloning\<close>

text \<open>\<open>opaque_page\<close> and \<open>opaque_transition\<close> name child rows the version does not declare, \<open>matcher_id n\<close>
  the n-th matcher.\<close>

record clone_ids =
  clone_fresh :: fresh_ids
  opaque_page :: "PageTypeId \<Rightarrow> PageTypeId"
  opaque_transition :: "DiscoveryTransitionId \<Rightarrow> DiscoveryTransitionId"
  opaque_seed :: "SeedId \<Rightarrow> SeedId"
  matcher_id :: "nat \<Rightarrow> string"

type_synonym id_map = "string \<rightharpoonup> string"

text \<open>A map of declared identifiers, extended by the rows found.\<close>

definition declared_child_id_map :: "string list \<Rightarrow> string list \<Rightarrow> id_map" where
  "declared_child_id_map old new = map_of (rev (zip old new))"

definition augment_child_id_map :: "(string \<Rightarrow> string) \<Rightarrow> string list \<Rightarrow> id_map \<Rightarrow> id_map" where
  "augment_child_id_map fresh ids m = fold (\<lambda>i m. if m i = None then m(i \<mapsto> fresh i) else m) ids m"

fun remap_string :: "id_map list \<Rightarrow> string \<Rightarrow> string" where
  "remap_string [] s = s"
| "remap_string (m # ms) s = (case m s of Some r \<Rightarrow> r | None \<Rightarrow> remap_string ms s)"

fun remap_json_value :: "id_map list \<Rightarrow> json \<Rightarrow> json" where
  "remap_json_value maps (JString s) = JString (remap_string maps s)"
| "remap_json_value maps (JArray vs) = JArray (map (remap_json_value maps) vs)"
| "remap_json_value maps (JObject kvs) = JObject (map (\<lambda>(k, v). (k, remap_json_value maps v)) kvs)"
| "remap_json_value maps v = v"

text \<open>The same on the strings of a decoded matcher or transition.  A URL is never an identifier.\<close>

fun remap_matcher :: "id_map list \<Rightarrow> 'u UrlMatcher \<Rightarrow> 'u UrlMatcher" where
  "remap_matcher maps (ExactUrl u) = ExactUrl u"
| "remap_matcher maps (ExactHostPathTemplate host path query) =
     ExactHostPathTemplate (remap_string maps host) (remap_string maps path)
       (map (\<lambda>(k, v). (k, remap_string maps v)) query)"
| "remap_matcher maps (PathPrefix host start) = PathPrefix (map_option (remap_string maps) host) (remap_string maps start)"
| "remap_matcher maps (PathGlob host glob) = PathGlob (map_option (remap_string maps) host) (remap_string maps glob)"
| "remap_matcher maps (RegexMatcher pattern) = RegexMatcher (remap_string maps pattern)"

definition remap_transition :: "id_map list \<Rightarrow> DiscoveryTransition \<Rightarrow> DiscoveryTransition" where
  "remap_transition maps t =
     t\<lparr>tr_id := remap_string maps (tr_id t), source_page_type_id := remap_string maps (source_page_type_id t),
       target_page_type_id := remap_string maps (target_page_type_id t), tr_name := remap_string maps (tr_name t),
       link_selector := remap_string maps (link_selector t),
       url_constraints := map_option (remap_string maps) (url_constraints t), latest_test_evidence_id := None\<rparr>"

definition clone_seed :: "id_map \<Rightarrow> id_map \<Rightarrow> (SeedId \<Rightarrow> SeedId) \<Rightarrow> CrawlerVersionId \<Rightarrow> SeedId \<times> SeedRow
    \<Rightarrow> CrawlerRepositoryError + SeedId \<times> SeedRow" where
  "clone_seed seed_map page_map opaque target p = (case p of (i, r) \<Rightarrow>
     res_bind (case se_entry_page_type_hint (sr_projection r) of
         None \<Rightarrow> Inr None
       | Some hint \<Rightarrow> res_bind (ok_or (page_map hint) CrCorruptState) (\<lambda>h. Inr (Some h))) (\<lambda>hint.
     Inr (case seed_map i of Some j \<Rightarrow> j | None \<Rightarrow> opaque i,
          \<lparr>sr_version_id = target, sr_projection = (sr_projection r)\<lparr>se_entry_page_type_hint := hint\<rparr>\<rparr>)))"

fun insert_all_rows ::
  "('i \<Rightarrow> 'r \<Rightarrow> 'u crawler_db \<Rightarrow> CrawlerRepositoryError + 'u crawler_db) \<Rightarrow> ('i \<times> 'r) list
    \<Rightarrow> 'u crawler_db \<Rightarrow> CrawlerRepositoryError + 'u crawler_db" where
  "insert_all_rows insert_row [] db = Inr db"
| "insert_all_rows insert_row ((i, r) # rows) db = res_bind (insert_row i r db) (insert_all_rows insert_row rows)"

definition clone_page_type :: "id_map \<Rightarrow> id_map list \<Rightarrow> (PageTypeId \<Rightarrow> PageTypeId) \<Rightarrow> CrawlerVersionId
    \<Rightarrow> PageTypeId \<times> PageTypeRow \<Rightarrow> PageTypeId \<times> PageTypeRow" where
  "clone_page_type page_map maps opaque target p = (case p of (i, r) \<Rightarrow>
     (case page_map i of Some j \<Rightarrow> j | None \<Rightarrow> opaque i,
      r\<lparr>pg_version_id := target, pg_configuration := remap_json_value maps (pg_configuration r)\<rparr>))"

definition clone_matcher :: "id_map \<Rightarrow> id_map list \<Rightarrow> string \<Rightarrow> 'u MatcherRow
    \<Rightarrow> CrawlerRepositoryError + string \<times> 'u MatcherRow" where
  "clone_matcher page_map maps fresh m =
     res_bind (ok_or (page_map (ma_page_type_id m)) CrCorruptState) (\<lambda>p.
     Inr (fresh, m\<lparr>ma_page_type_id := p, ma_matcher := remap_matcher maps (ma_matcher m)\<rparr>))"

definition clone_transition :: "id_map \<Rightarrow> id_map list \<Rightarrow> (DiscoveryTransitionId \<Rightarrow> DiscoveryTransitionId) \<Rightarrow> CrawlerVersionId
    \<Rightarrow> DiscoveryTransitionId \<times> TransitionRow \<Rightarrow> DiscoveryTransitionId \<times> TransitionRow" where
  "clone_transition transition_map maps opaque target p = (case p of (i, r) \<Rightarrow>
     (case transition_map i of Some j \<Rightarrow> j | None \<Rightarrow> opaque i,
      \<lparr>tw_version_id = target, tw_transition = remap_transition maps (tw_transition r)\<rparr>))"

text \<open>Each kind of row is read and inserted in turn; a hint without a page type stops the clone.  The page map
  has every page type of the source, so no matcher is refused.\<close>

definition clone_child_rows ::
  "clone_ids \<Rightarrow> CrawlerVersionId \<Rightarrow> CrawlerVersionId \<Rightarrow> id_map \<Rightarrow> id_map \<Rightarrow> id_map
    \<Rightarrow> 'u crawler_db \<Rightarrow> CrawlerRepositoryError + 'u crawler_db" where
  "clone_child_rows ids source target seed_map page_map transition_map db =
     (let maps = [seed_map, page_map, transition_map] in
      res_bind (collect_results (clone_seed seed_map page_map (opaque_seed ids) target)
         (filter (\<lambda>(i, r). sr_version_id r = source) (db_seeds db))) (\<lambda>seed_rows.
      res_bind (insert_all_rows insert_seed_row seed_rows db) (\<lambda>db1.
      res_bind (insert_all_rows insert_page_type_row
         (map (clone_page_type page_map maps (opaque_page ids) target)
           (filter (\<lambda>(i, r). pg_version_id r = source) (db_page_types db1))) db1) (\<lambda>db2.
      res_bind (collect_results (\<lambda>(n, i, m). clone_matcher page_map maps (matcher_id ids n) m)
         (enumerate 0 (sort_key (\<lambda>(i, m). (ma_page_type_id m, ma_ordinal m, i)) (version_matchers db2 source)))) (\<lambda>matcher_rows.
      res_bind (insert_all_rows insert_matcher_row matcher_rows db2) (\<lambda>db3.
      insert_all_rows insert_transition_row
         (map (clone_transition transition_map maps (opaque_transition ids) target)
           (filter (\<lambda>(i, r). tw_version_id r = source) (db_transitions db3))) db3))))))"

definition clone_draft_in_transaction ::
  "'u repo_env \<Rightarrow> clone_ids \<Rightarrow> CrawlerId \<Rightarrow> CrawlerVersionId \<Rightarrow> string \<Rightarrow> string \<Rightarrow> ('u, 'u CrawlerVersion) crawler_tx" where
  "clone_draft_in_transaction env ids c source_id actor at db =
     res_bind (ok_or (bm_lookup (db_crawlers db) c) CrCrawlerNotFound) (\<lambda>row.
     if active_draft_version_id row \<noteq> None then Inl CrActiveDraftExists
     else
       res_bind (load_version env db source_id) (\<lambda>source.
       if cv_crawler_id source \<noteq> c then Inl CrVersionNotOwnedByCrawler
       else if cv_state source \<noteq> Published then Inl CrVersionNotPublished
       else
         res_bind (map_err (\<lambda>_. CrInvalidLifecycleTransition)
           (draft_from_published (rp_scope env) (clone_fresh ids) source)) (\<lambda>clone.
         let page_map = augment_child_id_map (opaque_page ids)
               (map fst (filter (\<lambda>(i, r). pg_version_id r = source_id) (db_page_types db)))
               (declared_child_id_map (cv_page_type_ids source) (cv_page_type_ids clone));
             transition_map = augment_child_id_map (opaque_transition ids)
               (map fst (filter (\<lambda>(i, r). tw_version_id r = source_id) (db_transitions db)))
               (declared_child_id_map (cv_transition_ids source) (cv_transition_ids clone));
             seed_map = declared_child_id_map (map seed_id (cv_seeds source)) (map seed_id (cv_seeds clone))
         in
         res_bind (insert_version_row clone db) (\<lambda>db1.
         res_bind (clone_child_rows ids source_id (cv_id clone) seed_map page_map transition_map db1) (\<lambda>db2.
         res_bind (activate_draft_pointer c (cv_id clone) db2) (\<lambda>db3.
         res_bind (semantic_hash env db3 clone) (\<lambda>hash.
         res_bind (insert_audit_event (''draft:'' @ cv_id clone @ '':'' @ at)
            (audit_event ''CRAWLER_DRAFT_CREATED'' actor at (cv_id clone)
              (audit_payload (cv_id clone) (Some source_id) (Some hash) [])) db3) (\<lambda>db4.
         Inr (clone, db4)))))))))"

section \<open>Publication\<close>

definition publication_validation_context ::
  "'u repo_env \<Rightarrow> 'u crawler_db \<Rightarrow> CrawlerId \<Rightarrow> CrawlerVersionId \<Rightarrow> CrawlerRepositoryError + 'u VersionValidationContext" where
  "publication_validation_context env db c i =
     res_bind (ensure_crawler_exists db c) (\<lambda>_.
     res_bind (ensure_pointer_consistency db c) (\<lambda>_.
     res_bind (load_publication_version env db i) (\<lambda>v.
     if cv_crawler_id v \<noteq> c then Inl CrVersionNotOwnedByCrawler
     else if cv_state v \<noteq> Draft then Inl CrVersionNotDraft
     else res_bind (active_draft_for db c) (\<lambda>draft.
       if draft \<noteq> Some i then Inl (if draft \<noteq> None then CrInvalidLifecycleTransition else CrVersionNotDraft)
       else
         res_bind (load_page_type_records env db v) (\<lambda>page_types.
         res_bind (load_transition_records db v False) (\<lambda>transitions.
         res_bind (semantic_hash_with_semantic_validation env db v False) (\<lambda>hash.
         res_bind (rp_evidence env i hash) (\<lambda>evidence.
         Inr \<lparr>ctx_version = v, ctx_page_types = map domain_page_type page_types, ctx_transitions = transitions,
              ctx_test_evidence = evidence, ctx_config_hash = hash\<rparr>))))))))"

definition publish_validation ::
  "'u repo_env \<Rightarrow> 'u crawler_db \<Rightarrow> CrawlerId \<Rightarrow> CrawlerVersionId \<Rightarrow> CrawlerRepositoryError + VersionValidationReport" where
  "publish_validation env db c i =
     res_bind (publication_validation_context env db c i) (\<lambda>ctx.
     map_err (\<lambda>_. CrPublicationValidationInfrastructure) (validate_registry (rp_registry env) ctx))"

definition publish_in_transaction ::
  "'u repo_env \<Rightarrow> CrawlerId \<Rightarrow> CrawlerVersionId \<Rightarrow> string \<Rightarrow> string \<Rightarrow> ('u, 'u CrawlerVersionRecord) crawler_tx" where
  "publish_in_transaction env c i actor at db =
     res_bind (publication_validation_context env db c i) (\<lambda>ctx.
     res_bind (map_err (\<lambda>_. CrPublicationValidationInfrastructure) (validate_registry (rp_registry env) ctx)) (\<lambda>report.
     if \<not> publishable report then Inl (CrPublicationValidationFailed report)
     else
       let draft = ctx_version ctx; hash = report_config_hash report; warnings = warning_summary report in
       res_bind (map_err (\<lambda>_. CrPublishedVersionImmutable) (publish draft)) (\<lambda>published.
       res_bind (publish_version_row c i published db) (\<lambda>(updated, db1).
       if updated \<noteq> 1 then Inl CrConcurrentVersionTransition
       else
         let (pointers, db2) = update_crawler_row c (\<lambda>row. active_draft_version_id row = Some i)
               (\<lambda>row. row\<lparr>active_published_version_id := Some i, active_draft_version_id := None\<rparr>) db1
         in if pointers \<noteq> 1 then Inl CrConcurrentVersionTransition
         else
           res_bind (audit_metadata db2 i) (\<lambda>meta.
           res_bind (insert_audit_event (''publish:'' @ i @ '':'' @ at)
              (audit_event ''CRAWLER_VERSION_PUBLISHED'' actor at i
                (audit_payload i (am_base_version_id meta) (Some hash) warnings)) db2) (\<lambda>db3.
           Inr (\<lparr>cr_version = published, cr_audit = \<lparr>am_actor = Some actor, am_occurred_at = Some at,
               am_config_hash = Some hash, am_warning_summary = warnings, am_base_version_id = am_base_version_id meta\<rparr>\<rparr>, db3)))))))"

definition reactivate_in_transaction ::
  "'u repo_env \<Rightarrow> CrawlerId \<Rightarrow> CrawlerVersionId \<Rightarrow> string \<Rightarrow> string \<Rightarrow> ('u, unit) crawler_tx" where
  "reactivate_in_transaction env c i actor at db =
     res_bind (load_version env db i) (\<lambda>v.
     if cv_crawler_id v \<noteq> c then Inl CrVersionNotOwnedByCrawler
     else if cv_state v \<noteq> Published then Inl CrVersionNotPublished
     else
       let (changed, db1) = update_crawler_row c (\<lambda>_. pointer_ok db c Published (Some i))
             (\<lambda>row. row\<lparr>active_published_version_id := Some i\<rparr>) db
       in if changed \<noteq> 1 then Inl CrConcurrentVersionTransition
       else res_bind (insert_audit_event (''reactivate:'' @ i @ '':'' @ at)
           (audit_event ''CRAWLER_VERSION_REACTIVATED'' actor at i (audit_payload i None None [])) db1) (\<lambda>db2.
         Inr ((), db2)))"

section \<open>Contention\<close>

text \<open>Creating and cloning a draft retry when the database is busy.  \<open>calls\<close> numbers the accesses to the
  database, which other writers change in between; \<open>None\<close> is the \<open>unreachable!\<close> after the loop.\<close>

datatype 'u db_access = AccessFailed DatabaseFailure | AccessGranted "'u crawler_db"

definition LIFECYCLE_CONTENTION_ATTEMPTS :: nat where "LIFECYCLE_CONTENTION_ATTEMPTS = 5"

definition is_contention :: "DatabaseFailure \<Rightarrow> bool" where
  "is_contention f \<longleftrightarrow> f = BusyFailure \<or> f = BusySnapshotFailure"

definition retry_lifecycle_contention ::
  "CrawlerId \<Rightarrow> nat \<Rightarrow> DatabaseFailure \<Rightarrow> 'u db_access \<Rightarrow> CrawlerRepositoryError + unit" where
  "retry_lifecycle_contention c attempt original access =
     (let more = attempt + 1 < LIFECYCLE_CONTENTION_ATTEMPTS in
      case access of
        AccessFailed f \<Rightarrow> if is_contention f \<and> more then Inr () else Inl (CrDatabase original)
      | AccessGranted db \<Rightarrow>
          (case active_draft_for db c of
             Inr (Some _) \<Rightarrow> Inl CrActiveDraftExists
           | Inr None \<Rightarrow> if more then Inr () else Inl (CrDatabase original)
           | Inl e \<Rightarrow> Inl e))"

definition attempt_tx :: "('u, 'a) crawler_tx \<Rightarrow> 'u db_access \<Rightarrow> CrawlerRepositoryError + 'a \<times> 'u crawler_db" where
  "attempt_tx body access = (case access of AccessFailed f \<Rightarrow> Inl (CrDatabase f) | AccessGranted db \<Rightarrow> body db)"

fun lifecycle_attempts ::
  "('u, 'a) crawler_tx \<Rightarrow> CrawlerId \<Rightarrow> (nat \<Rightarrow> 'u db_access) \<Rightarrow> nat list
    \<Rightarrow> (CrawlerRepositoryError + 'a \<times> 'u crawler_db) option" where
  "lifecycle_attempts body c calls [] = None"
| "lifecycle_attempts body c calls (n # ns) =
     (case attempt_tx body (calls (2 * n)) of
        Inl (CrDatabase f) \<Rightarrow>
          if is_contention f
          then (case retry_lifecycle_contention c n f (calls (2 * n + 1)) of
                  Inr _ \<Rightarrow> lifecycle_attempts body c calls ns
                | Inl e \<Rightarrow> Some (Inl e))
          else Some (Inl (CrDatabase f))
      | result \<Rightarrow> Some result)"

definition create_draft ::
  "'u repo_env \<Rightarrow> CrawlerVersionId \<Rightarrow> CrawlerId \<Rightarrow> string \<Rightarrow> string \<Rightarrow> (nat \<Rightarrow> 'u db_access)
    \<Rightarrow> (CrawlerRepositoryError + unit \<times> 'u crawler_db) option" where
  "create_draft env fresh c actor at calls =
     lifecycle_attempts (insert_draft_in_transaction env (draft fresh c) None actor at) c calls
       [0..<LIFECYCLE_CONTENTION_ATTEMPTS]"

definition create_draft_from_published ::
  "'u repo_env \<Rightarrow> clone_ids \<Rightarrow> CrawlerId \<Rightarrow> CrawlerVersionId \<Rightarrow> string \<Rightarrow> string \<Rightarrow> (nat \<Rightarrow> 'u db_access)
    \<Rightarrow> (CrawlerRepositoryError + 'u CrawlerVersion \<times> 'u crawler_db) option" where
  "create_draft_from_published env ids c source_id actor at calls =
     lifecycle_attempts (clone_draft_in_transaction env ids c source_id actor at) c calls
       [0..<LIFECYCLE_CONTENTION_ATTEMPTS]"

end
