(* ===== verification/Crawler_Authoring.thy ===== *)
theory Crawler_Authoring
  imports Crawler_Lifecycle
begin

text \<open>
  Editing the active draft of a crawler (\<open>crates/erabi-db/src/repositories/crawler.rs\<close>): its policies and
  guardrails, its transitions, page types and URL matchers.  Every edit loads the draft with its child rows,
  changes configuration and rows together, and records the digest of the result in the audit.
  The record a method answers with is read back after the commit, by the functions of the last section.
\<close>

section \<open>Shared steps\<close>

definition update_version_configuration :: "'u CrawlerVersion \<Rightarrow> 'u crawler_db \<Rightarrow> CrawlerRepositoryError + 'u crawler_db" where
  "update_version_configuration v db =
     res_bind (update_draft_configuration (cv_id v) v db) (\<lambda>(updated, db1).
     if updated \<noteq> 1 then Inl CrConcurrentVersionTransition else Inr db1)"

text \<open>\<open>fresh\<close> is the identifier of the audit event.\<close>

definition insert_semantic_mutation_audit ::
  "'u repo_env \<Rightarrow> string \<Rightarrow> string \<Rightarrow> string \<Rightarrow> string \<Rightarrow> 'u CrawlerVersion \<Rightarrow> string \<Rightarrow> 'u crawler_db
    \<Rightarrow> CrawlerRepositoryError + 'u crawler_db" where
  "insert_semantic_mutation_audit env fresh event actor at v entity db =
     res_bind (semantic_hash env db v) (\<lambda>hash.
     insert_audit_event fresh (audit_event event actor at (cv_id v)
       \<lparr>ap_version_id = cv_id v, ap_entity_id = Some entity, ap_base_version_id = None, ap_config_hash = Some hash,
        ap_warning_summary = None\<rparr>) db)"

definition update_semantic_version ::
  "'u repo_env \<Rightarrow> string \<Rightarrow> CrawlerId \<Rightarrow> CrawlerVersionId \<Rightarrow> string \<Rightarrow> string \<Rightarrow> string \<Rightarrow> string
    \<Rightarrow> ('u CrawlerVersion \<Rightarrow> 'u CrawlerVersion product_result) \<Rightarrow> ('u, 'u CrawlerVersion) crawler_tx" where
  "update_semantic_version env fresh c i actor at event entity update db =
     res_bind (load_mutation_version env db c i) (\<lambda>v.
     res_bind (map_err (\<lambda>e. map_semantic_error (code e)) (update v)) (\<lambda>v1.
     res_bind (map_err (\<lambda>e. map_semantic_error (code e)) (validate_semantic_contract (rp_scope env) v1)) (\<lambda>_.
     res_bind (update_version_configuration v1 db) (\<lambda>db1.
     res_bind (insert_semantic_mutation_audit env fresh event actor at v1 entity db1) (\<lambda>db2.
     Inr (v1, db2))))))"

section \<open>Policies and guardrails\<close>

definition update_canonicalization_policy ::
  "'u repo_env \<Rightarrow> string \<Rightarrow> CrawlerId \<Rightarrow> CrawlerVersionId \<Rightarrow> CanonicalizationPolicy \<Rightarrow> string \<Rightarrow> string
    \<Rightarrow> ('u, 'u CrawlerVersion) crawler_tx" where
  "update_canonicalization_policy env fresh c i policy actor at db =
     res_bind (map_err (\<lambda>_. CrInvalidCanonicalizationPolicy) (validate_canonicalization policy)) (\<lambda>_.
     update_semantic_version env fresh c i actor at ''CANONICALIZATION_POLICY_UPDATED'' ''canonicalization''
       (set_canonicalization_policy policy) db)"

definition update_domain_scope_policy ::
  "'u repo_env \<Rightarrow> string \<Rightarrow> CrawlerId \<Rightarrow> CrawlerVersionId \<Rightarrow> DomainScopePolicy \<Rightarrow> string \<Rightarrow> string
    \<Rightarrow> ('u, 'u CrawlerVersion) crawler_tx" where
  "update_domain_scope_policy env fresh c i policy actor at db =
     res_bind (map_err (\<lambda>_. CrInvalidDomainScope) (validate_scope (rp_scope env) policy)) (\<lambda>_.
     update_semantic_version env fresh c i actor at ''DOMAIN_SCOPE_UPDATED'' ''domain_scope''
       (set_domain_scope (rp_scope env) policy) db)"

definition update_crawler_version_guardrails ::
  "'u repo_env \<Rightarrow> string \<Rightarrow> CrawlerId \<Rightarrow> CrawlerVersionId \<Rightarrow> CrawlerVersionGuardrails \<Rightarrow> string \<Rightarrow> string
    \<Rightarrow> ('u, 'u CrawlerVersion) crawler_tx" where
  "update_crawler_version_guardrails env fresh c i guardrails actor at db =
     res_bind (map_err (\<lambda>e. map_semantic_error (code e)) (validate_guardrails guardrails)) (\<lambda>_.
     update_semantic_version env fresh c i actor at ''CRAWLER_GUARDRAILS_UPDATED'' ''guardrails''
       (set_guardrails guardrails) db)"

section \<open>Transitions\<close>

definition ensure_transition_belongs_to_version ::
  "'u crawler_db \<Rightarrow> CrawlerVersionId \<Rightarrow> DiscoveryTransitionId \<Rightarrow> CrawlerRepositoryError + unit" where
  "ensure_transition_belongs_to_version db v t =
     res_bind (ok_or (bm_lookup (db_transitions db) t) CrDiscoveryTransitionNotFound) (\<lambda>r.
     if tw_version_id r \<noteq> v then Inl CrTransitionNotOwnedByVersion else Inr ())"

fun transition_page_type_error :: "bool \<Rightarrow> CrawlerRepositoryError \<Rightarrow> CrawlerRepositoryError" where
  "transition_page_type_error is_source CrPageTypeNotFound =
     (if is_source then CrTransitionSourcePageTypeNotFound else CrTransitionTargetPageTypeNotFound)"
| "transition_page_type_error is_source CrPageTypeNotOwnedByVersion = CrTransitionNotOwnedByVersion"
| "transition_page_type_error is_source e = e"

definition ensure_transition_page_type ::
  "'u crawler_db \<Rightarrow> CrawlerVersionId \<Rightarrow> PageTypeId \<Rightarrow> bool \<Rightarrow> CrawlerRepositoryError + unit" where
  "ensure_transition_page_type db v p is_source =
     map_err (transition_page_type_error is_source) (ensure_page_type_belongs_to_version db v p)"

definition create_discovery_transition ::
  "'u repo_env \<Rightarrow> string \<Rightarrow> CrawlerId \<Rightarrow> CrawlerVersionId \<Rightarrow> DiscoveryTransition \<Rightarrow> string \<Rightarrow> string
    \<Rightarrow> ('u, unit) crawler_tx" where
  "create_discovery_transition env fresh c i t actor at db =
     res_bind (map_err (\<lambda>_. CrInvalidDiscoveryTransition) (validate_transition t)) (\<lambda>_.
     res_bind (load_mutation_version env db c i) (\<lambda>v.
     res_bind (ensure_transition_page_type db i (source_page_type_id t) True) (\<lambda>_.
     res_bind (ensure_transition_page_type db i (target_page_type_id t) False) (\<lambda>_.
     if bm_lookup (db_transitions db) (tr_id t) \<noteq> None then Inl CrCorruptState
     else if tr_id t \<in> set (cv_transition_ids v) then Inl CrCorruptState
     else
       res_bind (map_err (\<lambda>e. map_semantic_error (code e)) (set_transition_ids (cv_transition_ids v @ [tr_id t]) v)) (\<lambda>v1.
       res_bind (insert_transition_row (tr_id t) \<lparr>tw_version_id = i, tw_transition = t\<rparr> db) (\<lambda>db1.
       res_bind (update_version_configuration v1 db1) (\<lambda>db2.
       res_bind (insert_semantic_mutation_audit env fresh ''DISCOVERY_TRANSITION_CREATED'' actor at v1 (tr_id t) db2) (\<lambda>db3.
       Inr ((), db3)))))))))"

definition update_discovery_transition ::
  "'u repo_env \<Rightarrow> string \<Rightarrow> CrawlerId \<Rightarrow> CrawlerVersionId \<Rightarrow> DiscoveryTransitionId \<Rightarrow> DiscoveryTransition
    \<Rightarrow> string \<Rightarrow> string \<Rightarrow> ('u, unit) crawler_tx" where
  "update_discovery_transition env fresh c i transition_id t actor at db =
     (if tr_id t \<noteq> transition_id then Inl CrInvalidDiscoveryTransition
      else
        res_bind (map_err (\<lambda>_. CrInvalidDiscoveryTransition) (validate_transition t)) (\<lambda>_.
        res_bind (load_mutation_version env db c i) (\<lambda>v.
        res_bind (ensure_transition_belongs_to_version db i transition_id) (\<lambda>_.
        res_bind (ensure_transition_page_type db i (source_page_type_id t) True) (\<lambda>_.
        res_bind (ensure_transition_page_type db i (target_page_type_id t) False) (\<lambda>_.
        res_bind (update_transition_row transition_id i t db) (\<lambda>(updated, db1).
        if updated \<noteq> 1 then Inl CrCorruptState
        else
          res_bind (insert_semantic_mutation_audit env fresh ''DISCOVERY_TRANSITION_UPDATED'' actor at v transition_id db1) (\<lambda>db2.
          Inr ((), db2)))))))))"

definition delete_discovery_transition ::
  "'u repo_env \<Rightarrow> string \<Rightarrow> CrawlerId \<Rightarrow> CrawlerVersionId \<Rightarrow> DiscoveryTransitionId \<Rightarrow> string \<Rightarrow> string
    \<Rightarrow> ('u, unit) crawler_tx" where
  "delete_discovery_transition env fresh c i transition_id actor at db =
     res_bind (load_mutation_version env db c i) (\<lambda>v.
     res_bind (ensure_transition_belongs_to_version db i transition_id) (\<lambda>_.
     res_bind (map_err (\<lambda>e. map_semantic_error (code e))
        (set_transition_ids (filter (\<lambda>t. t \<noteq> transition_id) (cv_transition_ids v)) v)) (\<lambda>v1.
     res_bind (delete_transition_row transition_id i db) (\<lambda>(deleted, db1).
     if deleted \<noteq> 1 then Inl CrCorruptState
     else
       res_bind (update_version_configuration v1 db1) (\<lambda>db2.
       res_bind (insert_semantic_mutation_audit env fresh ''DISCOVERY_TRANSITION_DELETED'' actor at v1 transition_id db2) (\<lambda>db3.
       Inr ((), db3)))))))"

section \<open>Page types\<close>

definition create_page_type ::
  "'u repo_env \<Rightarrow> string \<Rightarrow> PageTypeId \<Rightarrow> CrawlerId \<Rightarrow> CrawlerVersionId \<Rightarrow> string \<Rightarrow> int \<Rightarrow> string \<Rightarrow> string
    \<Rightarrow> ('u, unit) crawler_tx" where
  "create_page_type env fresh pt c i name prio actor at db =
     res_bind (load_mutation_version env db c i) (\<lambda>v.
     res_bind (map_err (\<lambda>e. map_semantic_error (code e)) (set_page_type_ids (cv_page_type_ids v @ [pt]) v)) (\<lambda>v1.
     res_bind (insert_page_type_row pt
        \<lparr>pg_version_id = i, pg_name = name, pg_priority = prio, pg_configuration = JObject []\<rparr> db) (\<lambda>db1.
     res_bind (update_version_configuration v1 db1) (\<lambda>db2.
     res_bind (insert_semantic_mutation_audit env fresh ''PAGE_TYPE_CREATED'' actor at v1 pt db2) (\<lambda>db3.
     Inr ((), db3))))))"

definition update_page_type ::
  "'u repo_env \<Rightarrow> string \<Rightarrow> CrawlerId \<Rightarrow> CrawlerVersionId \<Rightarrow> PageTypeId \<Rightarrow> string \<Rightarrow> int \<Rightarrow> string \<Rightarrow> string
    \<Rightarrow> ('u, unit) crawler_tx" where
  "update_page_type env fresh c i pt name prio actor at db =
     res_bind (load_mutation_version env db c i) (\<lambda>v.
     res_bind (ensure_page_type_belongs_to_version db i pt) (\<lambda>_.
     res_bind (update_page_type_row pt i name prio db) (\<lambda>(updated, db1).
     if updated \<noteq> 1 then Inl CrCorruptState
     else
       res_bind (insert_semantic_mutation_audit env fresh ''PAGE_TYPE_UPDATED'' actor at v pt db1) (\<lambda>db2.
       Inr ((), db2)))))"

fun json_contains_string :: "json \<Rightarrow> string \<Rightarrow> bool" where
  "json_contains_string (JArray vs) needle \<longleftrightarrow> list_ex (\<lambda>v. json_contains_string v needle) vs"
| "json_contains_string (JObject kvs) needle \<longleftrightarrow> list_ex (\<lambda>(k, v). json_contains_string v needle) kvs"
| "json_contains_string (JString s) needle \<longleftrightarrow> s = needle"
| "json_contains_string _ needle \<longleftrightarrow> False"

text \<open>The strings in the configuration of a transition.\<close>

definition transition_contains_string :: "DiscoveryTransition \<Rightarrow> string \<Rightarrow> bool" where
  "transition_contains_string t needle \<longleftrightarrow>
     needle \<in> {tr_id t, source_page_type_id t, target_page_type_id t, tr_name t, link_selector t}
     \<or> url_constraints t = Some needle \<or> latest_test_evidence_id t = Some needle"

definition page_type_is_in_use :: "'u crawler_db \<Rightarrow> 'u CrawlerVersion \<Rightarrow> PageTypeId \<Rightarrow> bool" where
  "page_type_is_in_use db v p \<longleftrightarrow>
     list_ex (\<lambda>g. page_type_id g = p) (gr_page_types (cv_guardrails v))
     \<or> list_ex (\<lambda>(i, r). sr_version_id r = cv_id v \<and> se_entry_page_type_hint (sr_projection r) = Some p) (db_seeds db)
     \<or> list_ex (\<lambda>(i, r). tw_version_id r = cv_id v \<and> transition_contains_string (tw_transition r) p) (db_transitions db)
     \<or> list_ex (\<lambda>(i, r). pg_version_id r = cv_id v \<and> i \<noteq> p \<and> json_contains_string (pg_configuration r) p) (db_page_types db)"

definition delete_page_type ::
  "'u repo_env \<Rightarrow> string \<Rightarrow> CrawlerId \<Rightarrow> CrawlerVersionId \<Rightarrow> PageTypeId \<Rightarrow> string \<Rightarrow> string
    \<Rightarrow> ('u, unit) crawler_tx" where
  "delete_page_type env fresh c i pt actor at db =
     res_bind (load_mutation_version env db c i) (\<lambda>v.
     res_bind (ensure_page_type_belongs_to_version db i pt) (\<lambda>_.
     if page_type_is_in_use db v pt then Inl CrPageTypeInUse
     else
       res_bind (map_err (\<lambda>e. if code e = InvalidPageTypeBudget then CrPageTypeInUse else map_semantic_error (code e))
         (set_page_type_ids (filter (\<lambda>p. p \<noteq> pt) (cv_page_type_ids v)) v)) (\<lambda>v1.
       res_bind (delete_matcher_rows pt db) (\<lambda>db1.
       res_bind (delete_page_type_row pt i db1) (\<lambda>(deleted, db2).
       if deleted \<noteq> 1 then Inl CrCorruptState
       else
         res_bind (update_version_configuration v1 db2) (\<lambda>db3.
         res_bind (insert_semantic_mutation_audit env fresh ''PAGE_TYPE_DELETED'' actor at v1 pt db3) (\<lambda>db4.
         Inr ((), db4))))))))"

section \<open>URL matchers\<close>

definition next_ordinal :: "'u crawler_db \<Rightarrow> PageTypeId \<Rightarrow> int" where
  "next_ordinal db p = fold (\<lambda>(_, m) n. if ma_page_type_id m = p then max n (ma_ordinal m) else n) (db_matchers db) (-1) + 1"

definition ensure_matcher_belongs_to_page_type ::
  "'u crawler_db \<Rightarrow> string \<Rightarrow> PageTypeId \<Rightarrow> CrawlerRepositoryError + unit" where
  "ensure_matcher_belongs_to_page_type db i p =
     res_bind (ok_or (bm_lookup (db_matchers db) i) CrUrlMatcherNotFound) (\<lambda>m.
     if ma_page_type_id m \<noteq> p then Inl CrUrlMatcherNotOwnedByPageType else Inr ())"

definition create_url_matcher ::
  "'u repo_env \<Rightarrow> string \<Rightarrow> string \<Rightarrow> CrawlerId \<Rightarrow> CrawlerVersionId \<Rightarrow> PageTypeId \<Rightarrow> 'u UrlMatcher \<Rightarrow> string \<Rightarrow> string
    \<Rightarrow> ('u, int) crawler_tx" where
  "create_url_matcher env fresh mid c i pt matcher actor at db =
     res_bind (map_err (\<lambda>_. CrInvalidUrlMatcherDefinition) (validate_definition (rp_matcher env) matcher)) (\<lambda>_.
     res_bind (load_mutation_version env db c i) (\<lambda>v.
     res_bind (ensure_page_type_belongs_to_version db i pt) (\<lambda>_.
     let ordinal = next_ordinal db pt in
     res_bind (insert_matcher_row mid
        \<lparr>ma_page_type_id = pt, ma_ordinal = ordinal, ma_matcher = matcher\<rparr> db) (\<lambda>db1.
     res_bind (insert_semantic_mutation_audit env fresh ''URL_MATCHER_CREATED'' actor at v mid db1) (\<lambda>db2.
     Inr (ordinal, db2))))))"

definition update_url_matcher ::
  "'u repo_env \<Rightarrow> string \<Rightarrow> CrawlerId \<Rightarrow> CrawlerVersionId \<Rightarrow> PageTypeId \<Rightarrow> string \<Rightarrow> 'u UrlMatcher \<Rightarrow> string \<Rightarrow> string
    \<Rightarrow> ('u, unit) crawler_tx" where
  "update_url_matcher env fresh c i pt mid matcher actor at db =
     res_bind (map_err (\<lambda>_. CrInvalidUrlMatcherDefinition) (validate_definition (rp_matcher env) matcher)) (\<lambda>_.
     res_bind (load_mutation_version env db c i) (\<lambda>v.
     res_bind (ensure_page_type_belongs_to_version db i pt) (\<lambda>_.
     res_bind (update_matcher_row mid pt matcher db) (\<lambda>(existing, db1).
     if existing \<noteq> 1
     then res_bind (ensure_matcher_belongs_to_page_type db1 mid pt) (\<lambda>_. Inl CrCorruptState)
     else
       res_bind (insert_semantic_mutation_audit env fresh ''URL_MATCHER_UPDATED'' actor at v mid db1) (\<lambda>db2.
       Inr ((), db2))))))"

definition delete_url_matcher ::
  "'u repo_env \<Rightarrow> string \<Rightarrow> CrawlerId \<Rightarrow> CrawlerVersionId \<Rightarrow> PageTypeId \<Rightarrow> string \<Rightarrow> string \<Rightarrow> string
    \<Rightarrow> ('u, unit) crawler_tx" where
  "delete_url_matcher env fresh c i pt mid actor at db =
     res_bind (load_mutation_version env db c i) (\<lambda>v.
     res_bind (ensure_page_type_belongs_to_version db i pt) (\<lambda>_.
     res_bind (delete_matcher_row mid pt db) (\<lambda>(deleted, db1).
     if deleted \<noteq> 1
     then res_bind (ensure_matcher_belongs_to_page_type db1 mid pt) (\<lambda>_. Inl CrUrlMatcherNotFound)
     else
       res_bind (insert_semantic_mutation_audit env fresh ''URL_MATCHER_DELETED'' actor at v mid db1) (\<lambda>db2.
       Inr ((), db2)))))"

section \<open>Reading single records\<close>

definition list_page_types ::
  "'u repo_env \<Rightarrow> 'u crawler_db \<Rightarrow> CrawlerId \<Rightarrow> CrawlerVersionId \<Rightarrow> CrawlerRepositoryError + 'u PageTypeRecord list" where
  "list_page_types env db c i =
     res_bind (get_version env db c i) (\<lambda>record. load_page_type_records env db (cr_version record))"

definition get_page_type ::
  "'u repo_env \<Rightarrow> 'u crawler_db \<Rightarrow> CrawlerId \<Rightarrow> CrawlerVersionId \<Rightarrow> PageTypeId \<Rightarrow> CrawlerRepositoryError + 'u PageTypeRecord" where
  "get_page_type env db c i p =
     res_bind (get_version env db c i) (\<lambda>record.
     res_bind (ensure_page_type_belongs_to_version db i p) (\<lambda>_.
     res_bind (load_page_type_records env db (cr_version record)) (\<lambda>records.
     ok_or (find (\<lambda>r. pr_id r = p) records) CrCorruptState)))"

definition list_url_matchers ::
  "'u repo_env \<Rightarrow> 'u crawler_db \<Rightarrow> CrawlerId \<Rightarrow> CrawlerVersionId \<Rightarrow> PageTypeId
    \<Rightarrow> CrawlerRepositoryError + 'u UrlMatcherRecord list" where
  "list_url_matchers env db c i p = res_bind (get_page_type env db c i p) (\<lambda>r. Inr (pr_matchers r))"

definition get_url_matcher ::
  "'u repo_env \<Rightarrow> 'u crawler_db \<Rightarrow> CrawlerId \<Rightarrow> CrawlerVersionId \<Rightarrow> PageTypeId \<Rightarrow> string
    \<Rightarrow> CrawlerRepositoryError + 'u UrlMatcherRecord" where
  "get_url_matcher env db c i p mid =
     res_bind (get_page_type env db c i p) (\<lambda>r.
     case find (\<lambda>m. um_id m = mid) (pr_matchers r) of
       Some m \<Rightarrow> Inr m
     | None \<Rightarrow> res_bind (ok_or (bm_lookup (db_matchers db) mid) CrUrlMatcherNotFound) (\<lambda>m.
         if ma_page_type_id m \<noteq> p then Inl CrUrlMatcherNotOwnedByPageType else Inl CrCorruptState))"

definition list_discovery_transitions ::
  "'u repo_env \<Rightarrow> 'u crawler_db \<Rightarrow> CrawlerId \<Rightarrow> CrawlerVersionId \<Rightarrow> CrawlerRepositoryError + DiscoveryTransition list" where
  "list_discovery_transitions env db c i =
     res_bind (get_version env db c i) (\<lambda>record. load_transition_records db (cr_version record) True)"

definition get_discovery_transition ::
  "'u repo_env \<Rightarrow> 'u crawler_db \<Rightarrow> CrawlerId \<Rightarrow> CrawlerVersionId \<Rightarrow> DiscoveryTransitionId
    \<Rightarrow> CrawlerRepositoryError + DiscoveryTransition" where
  "get_discovery_transition env db c i t =
     res_bind (list_discovery_transitions env db c i) (\<lambda>records.
     case find (\<lambda>r. tr_id r = t) records of
       Some r \<Rightarrow> Inr r
     | None \<Rightarrow> res_bind (ensure_transition_belongs_to_version db i t) (\<lambda>_. Inl CrCorruptState))"

end
