(* ===== verification/Crawler_Consistency.thy ===== *)
theory Crawler_Consistency
  imports Crawler_Authoring
begin

text \<open>
  What the crawler repository keeps: the rows a version owns are described by its view; every operation
  changes the view of one version only, which is not published; the rows of a version stay sound, and
  consistent with its configuration unless a draft is saved as a whole with other child rows; and
  loading a version decides whether it is consistent.
\<close>

section \<open>The rows of a version\<close>

definition rows_of :: "('r \<Rightarrow> bool) \<Rightarrow> ('k, 'r) bmap \<Rightarrow> 'k \<Rightarrow> 'r option" where
  "rows_of P m k = (case bm_lookup m k of None \<Rightarrow> None | Some r \<Rightarrow> if P r then Some r else None)"

lemma rows_of_insert: "rows_of P (bm_insert k r m) = (rows_of P m)(k := if P r then Some r else None)"
  by (auto simp: rows_of_def bm_insert_lookup fun_eq_iff)

lemma bm_lookup_remove: "bm_lookup (bm_remove k m) k' = (if k' = k then None else bm_lookup m k')"
  by (simp add: bm_lookup_def bm_remove_def map_of_filter_fst)

lemma rows_of_remove: "rows_of P (bm_remove k m) = (rows_of P m)(k := None)"
  by (auto simp: rows_of_def bm_lookup_remove fun_eq_iff)

lemma bm_lookup_filter:
  "bm_invar m \<Longrightarrow> bm_lookup (filter (\<lambda>(k, r). Q k r) m) k
     = (case bm_lookup m k of None \<Rightarrow> None | Some r \<Rightarrow> if Q k r then Some r else None)"
proof (induction m)
  case (Cons p m)
  obtain a r where p: "p = (a, r)" by force
  with Cons.prems have fresh: "a \<notin> fst ` set m" by (fastforce dest: bm_invar_distinct)
  then have "map_of m a = None" "map_of (filter (\<lambda>(k, r). Q k r) m) a = None"
    by (auto simp: map_of_eq_None_iff)
  with Cons p show ?case by (auto simp: bm_lookup_def)
qed (simp add: bm_lookup_def)

lemma rows_of_Some [simp]: "rows_of P m k = Some r \<longleftrightarrow> bm_lookup m k = Some r \<and> P r"
  by (auto simp: rows_of_def split: option.splits)

lemma set_filter_rows: "bm_invar m \<Longrightarrow> set (filter (\<lambda>(k, r). P r) m) = {(k, r). rows_of P m k = Some r}"
  by (auto dest: bm_mem_lookup bm_lookup_mem)

text \<open>The view of a version is a function of four tables.\<close>

definition seeds_of :: "'u crawler_db \<Rightarrow> CrawlerVersionId \<Rightarrow> SeedId \<Rightarrow> SeedRow option" where
  "seeds_of db j = rows_of (\<lambda>r. sr_version_id r = j) (db_seeds db)"

definition pages_of :: "'u crawler_db \<Rightarrow> CrawlerVersionId \<Rightarrow> PageTypeId \<Rightarrow> PageTypeRow option" where
  "pages_of db j = rows_of (\<lambda>r. pg_version_id r = j) (db_page_types db)"

definition transitions_of :: "'u crawler_db \<Rightarrow> CrawlerVersionId \<Rightarrow> DiscoveryTransitionId \<Rightarrow> TransitionRow option" where
  "transitions_of db j = rows_of (\<lambda>r. tw_version_id r = j) (db_transitions db)"

definition matchers_of :: "'u crawler_db \<Rightarrow> CrawlerVersionId \<Rightarrow> string \<Rightarrow> 'u MatcherRow option" where
  "matchers_of db j = rows_of (\<lambda>m. pages_of db j (ma_page_type_id m) \<noteq> None) (db_matchers db)"

record 'u version_view =
  vw_version :: "'u VersionRow option"
  vw_seeds :: "SeedId \<Rightarrow> SeedRow option"
  vw_pages :: "PageTypeId \<Rightarrow> PageTypeRow option"
  vw_transitions :: "DiscoveryTransitionId \<Rightarrow> TransitionRow option"
  vw_matchers :: "string \<Rightarrow> 'u MatcherRow option"

definition view :: "'u crawler_db \<Rightarrow> CrawlerVersionId \<Rightarrow> 'u version_view" where
  "view db j = \<lparr>vw_version = bm_lookup (db_versions db) j, vw_seeds = seeds_of db j, vw_pages = pages_of db j,
     vw_transitions = transitions_of db j, vw_matchers = matchers_of db j\<rparr>"

lemmas view_defs = view_def seeds_of_def pages_of_def transitions_of_def matchers_of_def

section \<open>Consistency of a version\<close>

definition seeds_consistent :: "'u repo_env \<Rightarrow> (SeedId \<Rightarrow> SeedRow option) \<Rightarrow> 'u CrawlerVersion \<Rightarrow> bool" where
  "seeds_consistent env rows v \<longleftrightarrow>
     distinct (map seed_id (cv_seeds v)) \<and> hints_owned v
     \<and> (\<forall>i. map_option sr_projection (rows i) = map_of (map (\<lambda>s. (seed_id s, seed_projection env s)) (cv_seeds v)) i)"

definition pages_consistent :: "'u repo_env \<Rightarrow> 'u version_view \<Rightarrow> 'u CrawlerVersion \<Rightarrow> bool" where
  "pages_consistent env w v \<longleftrightarrow>
     distinct (cv_page_type_ids v) \<and> dom (vw_pages w) = set (cv_page_type_ids v)
     \<and> (\<forall>m \<in> ran (vw_matchers w). validate_definition (rp_matcher env) (ma_matcher m) = Inr ())"

definition transitions_consistent :: "'u version_view \<Rightarrow> 'u CrawlerVersion \<Rightarrow> bool" where
  "transitions_consistent w v \<longleftrightarrow>
     distinct (cv_transition_ids v) \<and> dom (vw_transitions w) = set (cv_transition_ids v)
     \<and> (\<forall>i r. vw_transitions w i = Some r \<longrightarrow> tr_id (tw_transition r) = i
          \<and> source_page_type_id (tw_transition r) \<in> set (cv_page_type_ids v)
          \<and> target_page_type_id (tw_transition r) \<in> set (cv_page_type_ids v)
          \<and> validate_transition (tw_transition r) = Inr ())"

definition version_consistent :: "'u repo_env \<Rightarrow> 'u version_view \<Rightarrow> CrawlerVersionId \<Rightarrow> bool" where
  "version_consistent env w i \<longleftrightarrow>
     (case vw_version w of
        None \<Rightarrow> vw_seeds w = Map.empty \<and> vw_pages w = Map.empty \<and> vw_transitions w = Map.empty
      | Some r \<Rightarrow>
          let v = vr_configuration r in
          cv_id v = i \<and> cv_crawler_id v = vr_crawler_id r \<and> cv_state v = vr_state r
          \<and> validate_semantic_contract (rp_scope env) v = Inr ()
          \<and> seeds_consistent env (vw_seeds w) v \<and> pages_consistent env w v \<and> transitions_consistent w v)"

definition tables_ok :: "'u crawler_db \<Rightarrow> bool" where
  "tables_ok db \<longleftrightarrow> bm_invar (db_crawlers db) \<and> bm_invar (db_versions db) \<and> bm_invar (db_seeds db)
     \<and> bm_invar (db_page_types db) \<and> bm_invar (db_matchers db) \<and> bm_invar (db_transitions db) \<and> bm_invar (db_audit db)"

text \<open>The pointers of a crawler: its active draft is its only draft.\<close>

definition pointers_ok :: "'u crawler_db \<Rightarrow> bool" where
  "pointers_ok db \<longleftrightarrow>
     (\<forall>c row. bm_lookup (db_crawlers db) c = Some row \<longrightarrow> crawler_id row = c
        \<and> pointer_ok db c Draft (active_draft_version_id row) \<and> pointer_ok db c Published (active_published_version_id row))
     \<and> (\<forall>i r. bm_lookup (db_versions db) i = Some r \<longrightarrow>
          (\<exists>row. bm_lookup (db_crawlers db) (vr_crawler_id r) = Some row
            \<and> (vr_state r = Draft \<longrightarrow> active_draft_version_id row = Some i)))"

definition matchers_owned :: "'u crawler_db \<Rightarrow> bool" where
  "matchers_owned db \<longleftrightarrow> (\<forall>k m. bm_lookup (db_matchers db) k = Some m \<longrightarrow> bm_lookup (db_page_types db) (ma_page_type_id m) \<noteq> None)"

text \<open>
  A version is sound when it is stored under its identity with a valid contract, its seed rows are the
  projection of its seeds, and its child rows are valid among themselves.  It is consistent when its
  configuration names exactly those child rows as well.
\<close>

definition rows_valid :: "'u repo_env \<Rightarrow> 'u version_view \<Rightarrow> bool" where
  "rows_valid env w \<longleftrightarrow>
     (\<forall>m \<in> ran (vw_matchers w). validate_definition (rp_matcher env) (ma_matcher m) = Inr ())
     \<and> (\<forall>k r. vw_transitions w k = Some r \<longrightarrow> tr_id (tw_transition r) = k
          \<and> source_page_type_id (tw_transition r) \<in> dom (vw_pages w)
          \<and> target_page_type_id (tw_transition r) \<in> dom (vw_pages w)
          \<and> validate_transition (tw_transition r) = Inr ())"

definition seed_rows_of :: "'u repo_env \<Rightarrow> (SeedId \<Rightarrow> SeedRow option) \<Rightarrow> 'u CrawlerVersion \<Rightarrow> bool" where
  "seed_rows_of env rows v \<longleftrightarrow>
     distinct (map seed_id (cv_seeds v))
     \<and> (\<forall>i. map_option sr_projection (rows i) = map_of (map (\<lambda>s. (seed_id s, seed_projection env s)) (cv_seeds v)) i)"

definition version_sound :: "'u repo_env \<Rightarrow> 'u version_view \<Rightarrow> CrawlerVersionId \<Rightarrow> bool" where
  "version_sound env w i \<longleftrightarrow>
     (case vw_version w of
        None \<Rightarrow> vw_seeds w = Map.empty \<and> vw_pages w = Map.empty \<and> vw_transitions w = Map.empty
      | Some r \<Rightarrow>
          let v = vr_configuration r in
          cv_id v = i \<and> cv_crawler_id v = vr_crawler_id r \<and> cv_state v = vr_state r
          \<and> validate_semantic_contract (rp_scope env) v = Inr ()
          \<and> seed_rows_of env (vw_seeds w) v \<and> rows_valid env w)"

definition names_rows :: "'u version_view \<Rightarrow> 'u CrawlerVersion \<Rightarrow> bool" where
  "names_rows w v \<longleftrightarrow> hints_owned v
     \<and> distinct (cv_page_type_ids v) \<and> dom (vw_pages w) = set (cv_page_type_ids v)
     \<and> distinct (cv_transition_ids v) \<and> dom (vw_transitions w) = set (cv_transition_ids v)"

lemma seeds_consistent_iff: "seeds_consistent env rows v \<longleftrightarrow> hints_owned v \<and> seed_rows_of env rows v"
  by (auto simp: seeds_consistent_def seed_rows_of_def)

lemma version_consistent_iff:
  "version_consistent env w i \<longleftrightarrow>
     version_sound env w i \<and> (\<forall>r. vw_version w = Some r \<longrightarrow> names_rows w (vr_configuration r))"
proof (cases "vw_version w")
  case (Some r)
  show ?thesis
    unfolding version_consistent_def version_sound_def seeds_consistent_iff pages_consistent_def
      transitions_consistent_def names_rows_def rows_valid_def Let_def Some option.case
    by auto
qed (simp add: version_consistent_def version_sound_def)

definition published_version :: "'u crawler_db \<Rightarrow> CrawlerVersionId \<Rightarrow> bool" where
  "published_version db i \<longleftrightarrow> map_option vr_state (bm_lookup (db_versions db) i) = Some Published"

text \<open>Every version is sound, and every version is consistent except for the drafts in \<open>loose\<close>.\<close>

definition repo_ok :: "'u repo_env \<Rightarrow> CrawlerVersionId set \<Rightarrow> 'u crawler_db \<Rightarrow> bool" where
  "repo_ok env loose db \<longleftrightarrow> tables_ok db \<and> pointers_ok db \<and> matchers_owned db
     \<and> (\<forall>i. version_sound env (view db i) i)
     \<and> (\<forall>i. i \<notin> loose \<or> published_version db i \<longrightarrow> version_consistent env (view db i) i)"

text \<open>A view that is still there is still what it was.\<close>

lemma repo_ok_views:
  assumes "repo_ok env loose db" "view db' j = view db j"
  shows "version_sound env (view db' j) j"
    "j \<notin> loose \<or> published_version db' j \<Longrightarrow> version_consistent env (view db' j) j"
proof -
  from assms(2) have "bm_lookup (db_versions db') j = bm_lookup (db_versions db) j" by (simp add: view_def)
  then have "published_version db' j = published_version db j" by (simp add: published_version_def)
  with assms show "version_sound env (view db' j) j"
    and "j \<notin> loose \<or> published_version db' j \<Longrightarrow> version_consistent env (view db' j) j"
    by (simp_all add: repo_ok_def)
qed

text \<open>One version changed and is consistent, or is a draft that may be loose.\<close>

lemma repo_okI:
  assumes "repo_ok env loose db" "\<And>j. j \<noteq> i \<Longrightarrow> view db' j = view db j"
    and "tables_ok db'" "pointers_ok db'" "matchers_owned db'" "version_sound env (view db' i) i"
    and "version_consistent env (view db' i) i \<or> i \<in> loose \<and> \<not> published_version db' i"
  shows "repo_ok env loose db'"
proof -
  have "version_sound env (view db' j) j" for j
    using repo_ok_views(1) [OF assms(1,2)] assms(6) by (cases "j = i") simp_all
  moreover have "version_consistent env (view db' j) j" if "j \<notin> loose \<or> published_version db' j" for j
    using repo_ok_views(2) [OF assms(1,2) that] assms(7) that by (cases "j = i") auto
  ultimately show ?thesis using assms(3-5) by (simp add: repo_ok_def)
qed

lemma version_consistent_sound: "version_consistent env w i \<Longrightarrow> version_sound env w i"
  by (simp add: version_consistent_iff)

section \<open>Loading is decided by the view\<close>

lemma map_of_map_value: "map_of (map (\<lambda>(k, v). (k, f v)) m) k = map_option f (map_of m k)"
  by (induction m) auto

lemma bm_lookup_fold_insert:
  "bm_lookup (fold (\<lambda>s. bm_insert (f s) (g s)) ss m) k =
     (case map_of (rev (map (\<lambda>s. (f s, g s)) ss)) k of None \<Rightarrow> bm_lookup m k | Some x \<Rightarrow> Some x)"
proof (induction ss arbitrary: m)
  case (Cons s ss)
  show ?case using Cons.IH [of "bm_insert (f s) (g s) m"]
    by (cases "map_of (rev (map (\<lambda>s. (f s, g s)) ss)) k") (auto simp: bm_insert_lookup map_add_def)
qed simp

lemma fold_insert_invar: "bm_invar m \<Longrightarrow> bm_invar (fold (\<lambda>s. bm_insert (f s) (g s)) ss m)"
  by (induction ss arbitrary: m) (simp_all add: bm_insert_invar)

lemma bm_ext:
  fixes a b :: "('k::linorder, 'v) bmap"
  assumes "bm_invar a" "bm_invar b" "\<And>k. bm_lookup a k = bm_lookup b k"
  shows "a = b"
proof (rule map_sorted_distinct_set_unique [where f = fst])
  have "set m = {p. bm_lookup m (fst p) = Some (snd p)}" if "bm_invar m" for m :: "('k, 'v) bmap"
    using bm_mem_lookup [OF that] by (auto dest: bm_lookup_mem)
  then show "set a = set b" using assms by simp
  then show "inj_on fst (set a \<union> set b)"
    using bm_invar_distinct [OF assms(1)] by (simp add: distinct_map)
  show "sorted (map fst a)" "distinct (map fst a)" "sorted (map fst b)" "distinct (map fst b)"
    using assms(1,2) by (simp_all add: bm_invar_def strict_sorted_iff)
qed

lemma set_fold_insert_keys: "fst ` set (fold (\<lambda>s. bm_insert (f s) (g s)) ss m) = f ` set ss \<union> fst ` set m"
  by (induction ss arbitrary: m) (auto simp: keys_bm_insert)

lemma length_fold_insert:
  "length (fold (\<lambda>s. bm_insert (f s) (g s)) ss []) = length ss \<longleftrightarrow> distinct (map f ss)"
proof -
  let ?m = "fold (\<lambda>s. bm_insert (f s) (g s)) ss []"
  have "bm_invar ?m" by (rule fold_insert_invar) simp
  from distinct_card [OF bm_invar_distinct [OF this]] have "length ?m = card (fst ` set ?m)" by simp
  also have "\<dots> = card (set (map f ss))" by (simp add: set_fold_insert_keys)
  finally have size: "length ?m = card (set (map f ss))" .
  show ?thesis unfolding size using distinct_card [of "map f ss"] card_distinct [of "map f ss"] by auto
qed

lemma validate_seed_projection_iff:
  assumes "tables_ok db"
  shows "validate_seed_projection env db v = Inr () \<longleftrightarrow> seeds_consistent env (seeds_of db (cv_id v)) v"
proof -
  have inv: "bm_invar (db_seeds db)" using assms by (simp add: tables_ok_def)
  let ?e = "expected_projection env v" and ?a = "actual_projection db (cv_id v)"
  have len: "length ?e = length (cv_seeds v) \<longleftrightarrow> distinct (map seed_id (cv_seeds v))"
    by (simp add: expected_projection_def length_fold_insert)
  have ea: "bm_invar ?e" by (simp add: expected_projection_def fold_insert_invar)
  have aa: "bm_invar ?a"
  proof -
    have "bm_invar (filter (\<lambda>(i, r). sr_version_id r = cv_id v) (db_seeds db))" using inv by (rule bm_filter_invar)
    then show ?thesis by (simp add: actual_projection_def bm_invar_def o_def case_prod_unfold)
  qed
  have la: "bm_lookup ?a i = map_option sr_projection (seeds_of db (cv_id v) i)" for i
  proof -
    have "bm_lookup ?a i = map_option sr_projection (bm_lookup (filter (\<lambda>(i, r). sr_version_id r = cv_id v) (db_seeds db)) i)"
      using map_of_map_value [of sr_projection "filter (\<lambda>(i, r). sr_version_id r = cv_id v) (db_seeds db)" i]
      by (simp add: actual_projection_def bm_lookup_def)
    then show ?thesis
      by (simp add: bm_lookup_filter [OF inv] seeds_of_def rows_of_def split: option.split)
  qed
  have le: "bm_lookup ?e i = map_of (map (\<lambda>s. (seed_id s, seed_projection env s)) (cv_seeds v)) i"
    if "distinct (map seed_id (cv_seeds v))" for i
  proof -
    have "distinct (map fst (map (\<lambda>s. (seed_id s, seed_projection env s)) (cv_seeds v)))" using that by (simp add: o_def)
    then have "map_of (rev (map (\<lambda>s. (seed_id s, seed_projection env s)) (cv_seeds v))) = map_of (map (\<lambda>s. (seed_id s, seed_projection env s)) (cv_seeds v))"
      by (intro map_of_inject_set [THEN iffD2]) (simp_all add: rev_map [symmetric])
    then show ?thesis unfolding expected_projection_def bm_lookup_fold_insert by (simp add: bm_lookup_def split: option.split)
  qed
  have hints: "list_ex (\<lambda>s. case entry_page_type_hint s of None \<Rightarrow> False | Some hint \<Rightarrow> hint \<notin> set (cv_page_type_ids v)) (cv_seeds v)
      \<longleftrightarrow> \<not> hints_owned v"
    by (auto simp: list_ex_iff hints_owned_def split: option.splits)
  show ?thesis
  proof (cases "distinct (map seed_id (cv_seeds v))")
    case True
    have "?a = ?e \<longleftrightarrow> (\<forall>i. bm_lookup ?a i = bm_lookup ?e i)" by (metis bm_ext [OF aa ea])
    with True show ?thesis
      by (simp add: validate_seed_projection_def len hints seeds_consistent_def la le)
  qed (simp add: validate_seed_projection_def len seeds_consistent_def)
qed

lemma tables_invar:
  assumes "tables_ok db"
  shows "bm_invar (db_crawlers db)" "bm_invar (db_versions db)" "bm_invar (db_seeds db)" "bm_invar (db_page_types db)"
    "bm_invar (db_matchers db)" "bm_invar (db_transitions db)" "bm_invar (db_audit db)"
  using assms by (simp_all add: tables_ok_def)

lemma matcher_from_row_iff:
  "(\<exists>r. matcher_from_row env (k, m) = Inr r) \<longleftrightarrow> validate_definition (rp_matcher env) (ma_matcher m) = Inr ()"
  by (auto simp: matcher_from_row_def result_simps)

lemma load_matchers_iff:
  assumes "tables_ok db"
  shows "(\<exists>ms. load_matchers_for_page_type env db p = Inr ms) \<longleftrightarrow>
    (\<forall>k m. bm_lookup (db_matchers db) k = Some m \<longrightarrow> ma_page_type_id m = p \<longrightarrow>
       validate_definition (rp_matcher env) (ma_matcher m) = Inr ())"
  unfolding load_matchers_for_page_type_def collect_results_Inr_iff set_sort
    set_filter_rows [OF tables_invar(5) [OF assms]]
  by (auto simp: matcher_from_row_iff split_paired_all)

lemma collect_results_ids:
  assumes "collect_results f xs = Inr ys" and "\<And>p y. f p = Inr y \<Longrightarrow> g y = fst p"
  shows "g ` set ys = fst ` set xs"
  using assms(1) unfolding collect_results_Inr
  by (induction rule: list_all2_induct) (auto dest: assms(2))

lemma dom_rows: "fst ` {(i, r). m i = Some r} = dom m"
  by (force simp: dom_def)

lemma load_page_type_records_iff:
  assumes "tables_ok db"
  shows "(\<exists>rs. load_page_type_records env db v = Inr rs) \<longleftrightarrow> pages_consistent env (view db (cv_id v)) v"
proof -
  let ?ids = "cv_page_type_ids v" and ?pages = "pages_of db (cv_id v)"
  let ?rows = "sort_key (\<lambda>(i, r). (pg_name r, i)) (filter (\<lambda>(i, r). pg_version_id r = cv_id v) (db_page_types db))"
  have rows: "set ?rows = {(i, r). ?pages i = Some r}"
    unfolding set_sort set_filter_rows [OF tables_invar(4) [OF assms]] by (simp add: pages_of_def)
  have each: "(\<exists>y. page_type_from_row env db ?ids (i, r) = Inr y) \<longleftrightarrow> i \<in> set ?ids \<and>
      (\<exists>ms. load_matchers_for_page_type env db i = Inr ms)" for i r
    by (auto simp: page_type_from_row_def result_simps)
  have ids: "pr_id ` set ys = dom ?pages" if "collect_results (page_type_from_row env db ?ids) ?rows = Inr ys" for ys
    unfolding dom_rows [of ?pages, symmetric] rows [symmetric]
    by (rule collect_results_ids [OF that]) (auto simp: page_type_from_row_def result_simps split: if_splits prod.splits)
  have matchers: "(\<forall>i. ?pages i \<noteq> None \<longrightarrow> (\<exists>ms. load_matchers_for_page_type env db i = Inr ms)) \<longleftrightarrow>
      (\<forall>m \<in> ran (matchers_of db (cv_id v)). validate_definition (rp_matcher env) (ma_matcher m) = Inr ())"
    unfolding load_matchers_iff [OF assms] by (auto simp: ran_def matchers_of_def)
  have "(\<exists>rs. load_page_type_records env db v = Inr rs) \<longleftrightarrow> distinct ?ids
      \<and> (\<forall>i. ?pages i \<noteq> None \<longrightarrow> i \<in> set ?ids \<and> (\<exists>ms. load_matchers_for_page_type env db i = Inr ms)) \<and> dom ?pages = set ?ids"
  proof (cases "distinct ?ids")
    case True
    have "(\<exists>rs. load_page_type_records env db v = Inr rs) \<longleftrightarrow>
        (\<exists>ys. collect_results (page_type_from_row env db ?ids) ?rows = Inr ys \<and> dom ?pages = set ?ids)"
    proof (cases "collect_results (page_type_from_row env db ?ids) ?rows")
      case (Inr ys)
      with True ids [OF Inr] show ?thesis by (simp add: load_page_type_records_def Let_def)
    qed (simp add: load_page_type_records_def Let_def True)
    also have "\<dots> \<longleftrightarrow> (\<forall>p \<in> set ?rows. \<exists>y. page_type_from_row env db ?ids p = Inr y) \<and> dom ?pages = set ?ids"
      unfolding collect_results_Inr_iff [symmetric] by blast
    finally show ?thesis using True unfolding rows by (auto simp: each)
  qed (simp add: load_page_type_records_def)
  with matchers show ?thesis by (auto simp: pages_consistent_def view_def)
qed

lemma ensure_page_type_iff:
  "ensure_page_type_belongs_to_version db v p = Inr () \<longleftrightarrow> pages_of db v p \<noteq> None"
  by (auto simp: ensure_page_type_belongs_to_version_def result_simps pages_of_def rows_of_def split: option.splits)

lemma load_transition_records_iff:
  assumes "tables_ok db" and "dom (pages_of db (cv_id v)) = set (cv_page_type_ids v)"
  shows "(\<exists>rs. load_transition_records db v True = Inr rs) \<longleftrightarrow> transitions_consistent (view db (cv_id v)) v"
proof -
  let ?ids = "cv_transition_ids v" and ?ts = "transitions_of db (cv_id v)"
  let ?rows = "filter (\<lambda>(i, r). tw_version_id r = cv_id v) (db_transitions db)"
  have rows: "set ?rows = {(i, r). ?ts i = Some r}"
    unfolding set_filter_rows [OF tables_invar(6) [OF assms(1)]] by (simp add: transitions_of_def)
  have semantics: "check_transition_semantics db v t = Inr () \<longleftrightarrow> source_page_type_id t \<in> set (cv_page_type_ids v)
      \<and> target_page_type_id t \<in> set (cv_page_type_ids v) \<and> validate_transition t = Inr ()" for t
    using assms(2) by (auto simp: check_transition_semantics_def result_simps Let_def ensure_page_type_iff dom_def)
  have each: "(\<exists>y. transition_from_row db v True (i, r) = Inr y) \<longleftrightarrow> i \<in> set ?ids \<and> tr_id (tw_transition r) = i
      \<and> check_transition_semantics db v (tw_transition r) = Inr ()" for i r
    by (auto simp: transition_from_row_def result_simps)
  have ids: "tr_id ` set ys = dom ?ts" if "collect_results (transition_from_row db v True) ?rows = Inr ys" for ys
    unfolding dom_rows [of ?ts, symmetric] rows [symmetric]
    by (rule collect_results_ids [OF that]) (auto simp: transition_from_row_def result_simps split: if_splits prod.splits)
  have "(\<exists>rs. load_transition_records db v True = Inr rs) \<longleftrightarrow> distinct ?ids \<and> dom ?ts = set ?ids
      \<and> (\<forall>i r. ?ts i = Some r \<longrightarrow> tr_id (tw_transition r) = i \<and> check_transition_semantics db v (tw_transition r) = Inr ())"
  proof (cases "distinct ?ids")
    case True
    have "(\<exists>rs. load_transition_records db v True = Inr rs) \<longleftrightarrow>
        (\<exists>ys. collect_results (transition_from_row db v True) ?rows = Inr ys \<and> dom ?ts = set ?ids)"
    proof (cases "collect_results (transition_from_row db v True) ?rows")
      case (Inr ys)
      with True ids [OF Inr] show ?thesis by (simp add: load_transition_records_def)
    qed (simp add: load_transition_records_def True)
    also have "\<dots> \<longleftrightarrow> (\<forall>p \<in> set ?rows. \<exists>y. transition_from_row db v True p = Inr y) \<and> dom ?ts = set ?ids"
      unfolding collect_results_Inr_iff [symmetric] by blast
    finally show ?thesis using True unfolding rows by (auto simp: each)
  qed (simp add: load_transition_records_def)
  then show ?thesis by (simp add: transitions_consistent_def view_def semantics)
qed

text \<open>Whether or not the transitions are validated, the rows that load are those the version declares.\<close>

lemma load_transition_records_declared:
  assumes "tables_ok db" and "load_transition_records db v validate = Inr rs"
  shows "distinct (cv_transition_ids v)" "dom (transitions_of db (cv_id v)) = set (cv_transition_ids v)"
proof -
  let ?rows = "filter (\<lambda>(i, r). tw_version_id r = cv_id v) (db_transitions db)"
  from assms(2) show "distinct (cv_transition_ids v)" by (simp add: load_transition_records_def split: if_splits)
  from assms(2) have ys: "collect_results (transition_from_row db v validate) ?rows = Inr rs"
    and ids: "tr_id ` set rs = set (cv_transition_ids v)"
    by (auto simp: load_transition_records_def result_simps split: if_splits)
  have "tr_id ` set rs = fst ` set ?rows"
    by (rule collect_results_ids [OF ys]) (auto simp: transition_from_row_def result_simps split: if_splits prod.splits)
  also have "\<dots> = dom (transitions_of db (cv_id v))"
    unfolding set_filter_rows [OF tables_invar(6) [OF assms(1)]] transitions_of_def by (rule dom_rows)
  finally show "dom (transitions_of db (cv_id v)) = set (cv_transition_ids v)" using ids by simp
qed

text \<open>A sound version whose child rows load names them.\<close>

lemma loaded_consistent:
  assumes tables: "tables_ok db" and sound: "version_sound env (view db i) i"
    and r: "bm_lookup (db_versions db) i = Some r"
    and hints: "hints_owned (vr_configuration r)"
    and pages: "load_page_type_records env db (vr_configuration r) = Inr ps"
    and transitions: "load_transition_records db (vr_configuration r) validate = Inr ts"
  shows "version_consistent env (view db i) i"
proof -
  have i: "cv_id (vr_configuration r) = i" using sound r by (simp add: version_sound_def view_def Let_def)
  from pages have "pages_consistent env (view db i) (vr_configuration r)"
    using load_page_type_records_iff [OF tables, of env "vr_configuration r"] by (simp add: i)
  moreover note load_transition_records_declared [OF tables transitions]
  ultimately show ?thesis
    using sound hints r by (simp add: version_consistent_iff names_rows_def pages_consistent_def view_def i)
qed

section \<open>Statements and views\<close>

text \<open>\<open>edits i\<close>: only the version \<open>i\<close> is touched.\<close>

definition edits :: "CrawlerVersionId \<Rightarrow> 'u crawler_db \<Rightarrow> 'u crawler_db \<Rightarrow> bool" where
  "edits i db db' \<longleftrightarrow> (\<forall>j. j \<noteq> i \<longrightarrow> view db' j = view db j)"

lemma edits_refl [simp]: "edits i db db"
  by (simp add: edits_def)

lemma edits_trans: "edits i db db1 \<Longrightarrow> edits i db1 db2 \<Longrightarrow> edits i db db2"
  by (simp add: edits_def)

named_theorems row_statements \<comment> \<open>what a statement that succeeds has done\<close>

lemma db_guard_Inr [simp]: "db_guard ok f = Inr u \<longleftrightarrow> ok"
  by (simp add: db_guard_def)

lemma insert_version_row_Inr [row_statements]:
  "insert_version_row v db = Inr db' \<longleftrightarrow> bm_lookup (db_versions db) (cv_id v) = None
     \<and> bm_lookup (db_crawlers db) (cv_crawler_id v) \<noteq> None
     \<and> db' = db\<lparr>db_versions := bm_insert (cv_id v)
          \<lparr>vr_crawler_id = cv_crawler_id v, vr_state = Draft, vr_configuration = v\<rparr> (db_versions db)\<rparr>"
  by (auto simp: insert_version_row_def result_simps)

lemma update_draft_configuration_Inr [row_statements]:
  "update_draft_configuration i v db = Inr (Suc 0, db') \<longleftrightarrow> (\<exists>r. bm_lookup (db_versions db) i = Some r \<and> vr_state r = Draft
     \<and> db' = db\<lparr>db_versions := bm_insert i (r\<lparr>vr_configuration := v\<rparr>) (db_versions db)\<rparr>)"
  by (auto simp: update_draft_configuration_def split: option.splits)

lemma publish_version_row_Inr [row_statements]:
  "publish_version_row c i v db = Inr (Suc 0, db') \<longleftrightarrow> (\<exists>r. bm_lookup (db_versions db) i = Some r \<and> vr_crawler_id r = c
     \<and> vr_state r = Draft
     \<and> db' = db\<lparr>db_versions := bm_insert i (r\<lparr>vr_state := Published, vr_configuration := v\<rparr>) (db_versions db)\<rparr>)"
  by (auto simp: publish_version_row_def split: option.splits)

lemma update_crawler_row_1 [row_statements]:
  "update_crawler_row c P f db = (Suc 0, db') \<longleftrightarrow> (\<exists>row. bm_lookup (db_crawlers db) c = Some row \<and> P row
     \<and> db' = db\<lparr>db_crawlers := bm_insert c (f row) (db_crawlers db)\<rparr>)"
  by (auto simp: update_crawler_row_def split: option.splits)

lemma insert_seed_row_Inr [row_statements]:
  "insert_seed_row k r db = Inr db' \<longleftrightarrow> unfrozen db (sr_version_id r) \<and> bm_lookup (db_seeds db) k = None
     \<and> bm_lookup (db_versions db) (sr_version_id r) \<noteq> None \<and> db' = db\<lparr>db_seeds := bm_insert k r (db_seeds db)\<rparr>"
  by (auto simp: insert_seed_row_def result_simps)

lemma delete_seed_rows_Inr [row_statements]:
  "delete_seed_rows v db = Inr db' \<longleftrightarrow> (unfrozen db v \<or> list_all (\<lambda>(i, r). sr_version_id r \<noteq> v) (db_seeds db))
     \<and> db' = db\<lparr>db_seeds := filter (\<lambda>(i, r). sr_version_id r \<noteq> v) (db_seeds db)\<rparr>"
  by (auto simp: delete_seed_rows_def result_simps)

lemma insert_page_type_row_Inr [row_statements]:
  "insert_page_type_row k r db = Inr db' \<longleftrightarrow> unfrozen db (pg_version_id r) \<and> bm_lookup (db_page_types db) k = None
     \<and> bm_lookup (db_versions db) (pg_version_id r) \<noteq> None \<and> db' = db\<lparr>db_page_types := bm_insert k r (db_page_types db)\<rparr>"
  by (auto simp: insert_page_type_row_def result_simps)

lemma update_page_type_row_Inr [row_statements]:
  "update_page_type_row k v name prio db = Inr (Suc 0, db') \<longleftrightarrow> (\<exists>r. bm_lookup (db_page_types db) k = Some r
     \<and> pg_version_id r = v \<and> unfrozen db v
     \<and> db' = db\<lparr>db_page_types := bm_insert k (r\<lparr>pg_name := name, pg_priority := prio\<rparr>) (db_page_types db)\<rparr>)"
  by (auto simp: update_page_type_row_def result_simps split: option.splits)

lemma delete_page_type_row_Inr [row_statements]:
  "delete_page_type_row k v db = Inr (Suc 0, db') \<longleftrightarrow> (\<exists>r. bm_lookup (db_page_types db) k = Some r \<and> pg_version_id r = v
     \<and> unfrozen db v \<and> list_all (\<lambda>(_, m). ma_page_type_id m \<noteq> k) (db_matchers db)
     \<and> db' = db\<lparr>db_page_types := bm_remove k (db_page_types db)\<rparr>)"
  by (auto simp: delete_page_type_row_def result_simps split: option.splits)

lemma insert_matcher_row_Inr [row_statements]:
  "insert_matcher_row k m db = Inr db' \<longleftrightarrow> page_unfrozen db (ma_page_type_id m) \<and> bm_lookup (db_matchers db) k = None
     \<and> bm_lookup (db_page_types db) (ma_page_type_id m) \<noteq> None
     \<and> \<not> ordinal_taken db (ma_page_type_id m) (ma_ordinal m) \<and> db' = db\<lparr>db_matchers := bm_insert k m (db_matchers db)\<rparr>"
  by (auto simp: insert_matcher_row_def result_simps)

lemma update_matcher_row_Inr [row_statements]:
  "update_matcher_row k p matcher db = Inr (Suc 0, db') \<longleftrightarrow> (\<exists>m. bm_lookup (db_matchers db) k = Some m
     \<and> ma_page_type_id m = p \<and> page_unfrozen db p
     \<and> db' = db\<lparr>db_matchers := bm_insert k (m\<lparr>ma_matcher := matcher\<rparr>) (db_matchers db)\<rparr>)"
  by (auto simp: update_matcher_row_def result_simps split: option.splits)

lemma delete_matcher_row_Inr [row_statements]:
  "delete_matcher_row k p db = Inr (Suc 0, db') \<longleftrightarrow> (\<exists>m. bm_lookup (db_matchers db) k = Some m
     \<and> ma_page_type_id m = p \<and> page_unfrozen db p \<and> db' = db\<lparr>db_matchers := bm_remove k (db_matchers db)\<rparr>)"
  by (auto simp: delete_matcher_row_def result_simps split: option.splits)

lemma delete_matcher_rows_Inr [row_statements]:
  "delete_matcher_rows p db = Inr db' \<longleftrightarrow> (page_unfrozen db p \<or> list_all (\<lambda>(_, m). ma_page_type_id m \<noteq> p) (db_matchers db))
     \<and> db' = db\<lparr>db_matchers := filter (\<lambda>(_, m). ma_page_type_id m \<noteq> p) (db_matchers db)\<rparr>"
  by (auto simp: delete_matcher_rows_def result_simps)

lemma insert_transition_row_Inr [row_statements]:
  "insert_transition_row k r db = Inr db' \<longleftrightarrow> unfrozen db (tw_version_id r) \<and> bm_lookup (db_transitions db) k = None
     \<and> bm_lookup (db_versions db) (tw_version_id r) \<noteq> None \<and> db' = db\<lparr>db_transitions := bm_insert k r (db_transitions db)\<rparr>"
  by (auto simp: insert_transition_row_def result_simps)

lemma update_transition_row_Inr [row_statements]:
  "update_transition_row k v t db = Inr (Suc 0, db') \<longleftrightarrow> (\<exists>r. bm_lookup (db_transitions db) k = Some r \<and> tw_version_id r = v
     \<and> unfrozen db v \<and> db' = db\<lparr>db_transitions := bm_insert k (r\<lparr>tw_transition := t\<rparr>) (db_transitions db)\<rparr>)"
  by (auto simp: update_transition_row_def result_simps split: option.splits)

lemma delete_transition_row_Inr [row_statements]:
  "delete_transition_row k v db = Inr (Suc 0, db') \<longleftrightarrow> (\<exists>r. bm_lookup (db_transitions db) k = Some r \<and> tw_version_id r = v
     \<and> unfrozen db v \<and> db' = db\<lparr>db_transitions := bm_remove k (db_transitions db)\<rparr>)"
  by (auto simp: delete_transition_row_def result_simps split: option.splits)

lemma insert_audit_event_Inr [row_statements]:
  "insert_audit_event k r db = Inr db' \<longleftrightarrow> bm_lookup (db_audit db) k = None \<and> db' = db\<lparr>db_audit := bm_insert k r (db_audit db)\<rparr>"
  by (auto simp: insert_audit_event_def result_simps)

text \<open>The tables stay ordered.\<close>

lemma bm_remove_invar: "bm_invar m \<Longrightarrow> bm_invar (bm_remove k m)"
  by (simp add: bm_remove_def bm_filter_invar)

lemma tables_ok_updates:
  assumes "tables_ok db"
  shows "bm_invar t1 \<Longrightarrow> tables_ok (db\<lparr>db_crawlers := t1\<rparr>)" "bm_invar t2 \<Longrightarrow> tables_ok (db\<lparr>db_versions := t2\<rparr>)"
    "bm_invar t3 \<Longrightarrow> tables_ok (db\<lparr>db_seeds := t3\<rparr>)" "bm_invar t4 \<Longrightarrow> tables_ok (db\<lparr>db_page_types := t4\<rparr>)"
    "bm_invar t5 \<Longrightarrow> tables_ok (db\<lparr>db_matchers := t5\<rparr>)" "bm_invar t6 \<Longrightarrow> tables_ok (db\<lparr>db_transitions := t6\<rparr>)"
    "bm_invar t7 \<Longrightarrow> tables_ok (db\<lparr>db_audit := t7\<rparr>)"
  using assms by (simp_all add: tables_ok_def)

lemmas keep_tables = tables_ok_updates bm_insert_invar bm_remove_invar bm_filter_invar tables_invar

text \<open>What the statements do to views.\<close>

lemma view_unrelated [simp]:
  "view (db\<lparr>db_crawlers := t\<rparr>) j = view db j" "view (db\<lparr>db_audit := a\<rparr>) j = view db j"
  by (simp_all add: view_defs)

lemma edits_versions: "edits i db (db\<lparr>db_versions := bm_insert i r (db_versions db)\<rparr>)"
  by (simp add: edits_def view_defs bm_insert_lookup)

lemma edits_seeds:
  "bm_lookup (db_seeds db) k = None \<Longrightarrow> sr_version_id r = i \<Longrightarrow> edits i db (db\<lparr>db_seeds := bm_insert k r (db_seeds db)\<rparr>)"
  "tables_ok db \<Longrightarrow> edits i db (db\<lparr>db_seeds := filter (\<lambda>(k, r). sr_version_id r \<noteq> i) (db_seeds db)\<rparr>)"
  by (auto simp: edits_def view_defs rows_of_insert rows_of_def fun_eq_iff bm_lookup_filter [OF tables_invar(3)] split: option.split)

lemma edits_transitions:
  assumes "\<And>r. bm_lookup (db_transitions db) k = Some r \<Longrightarrow> tw_version_id r = i"
  shows "tw_version_id r' = i \<Longrightarrow> edits i db (db\<lparr>db_transitions := bm_insert k r' (db_transitions db)\<rparr>)"
    "edits i db (db\<lparr>db_transitions := bm_remove k (db_transitions db)\<rparr>)"
  using assms by (auto simp: edits_def view_defs rows_of_insert rows_of_remove rows_of_def fun_eq_iff split: option.split)

lemma edits_pages:
  assumes "\<And>r. bm_lookup (db_page_types db) k = Some r \<Longrightarrow> pg_version_id r = i"
  shows "pg_version_id r' = i \<Longrightarrow> edits i db (db\<lparr>db_page_types := bm_insert k r' (db_page_types db)\<rparr>)"
    "edits i db (db\<lparr>db_page_types := bm_remove k (db_page_types db)\<rparr>)"
proof -
  have "pages_of db j k = None" if "j \<noteq> i" for j
    using assms that by (auto simp: pages_of_def rows_of_def split: option.split)
  then show "pg_version_id r' = i \<Longrightarrow> edits i db (db\<lparr>db_page_types := bm_insert k r' (db_page_types db)\<rparr>)"
    and "edits i db (db\<lparr>db_page_types := bm_remove k (db_page_types db)\<rparr>)"
    by (auto simp: edits_def view_def seeds_of_def transitions_of_def matchers_of_def pages_of_def rows_of_insert
        rows_of_remove fun_upd_idem)
qed

lemma edits_matchers:
  assumes "\<And>m j. bm_lookup (db_matchers db) k = Some m \<Longrightarrow> pages_of db j (ma_page_type_id m) \<noteq> None \<Longrightarrow> j = i"
  shows "(\<And>j. pages_of db j (ma_page_type_id m') \<noteq> None \<Longrightarrow> j = i) \<Longrightarrow>
      edits i db (db\<lparr>db_matchers := bm_insert k m' (db_matchers db)\<rparr>)"
    "edits i db (db\<lparr>db_matchers := bm_remove k (db_matchers db)\<rparr>)"
proof -
  have old: "matchers_of db j k = None" if "j \<noteq> i" for j
    using assms that by (auto simp: matchers_of_def rows_of_def split: option.split)
  have pages: "pages_of (db\<lparr>db_matchers := t\<rparr>) = pages_of db" for t by (simp add: pages_of_def fun_eq_iff)
  show "edits i db (db\<lparr>db_matchers := bm_remove k (db_matchers db)\<rparr>)"
    using old by (auto simp: edits_def view_def seeds_of_def transitions_of_def matchers_of_def pages rows_of_remove fun_upd_idem)
  show "edits i db (db\<lparr>db_matchers := bm_insert k m' (db_matchers db)\<rparr>)"
    if "\<And>j. pages_of db j (ma_page_type_id m') \<noteq> None \<Longrightarrow> j = i"
    using old that by (auto simp: edits_def view_def seeds_of_def transitions_of_def matchers_of_def pages rows_of_insert fun_upd_idem)
qed

lemma edits_matcher_rows:
  assumes "tables_ok db" "\<And>j. pages_of db j p \<noteq> None \<Longrightarrow> j = i"
  shows "edits i db (db\<lparr>db_matchers := filter (\<lambda>(_, m). ma_page_type_id m \<noteq> p) (db_matchers db)\<rparr>)"
proof -
  have pages: "pages_of (db\<lparr>db_matchers := t\<rparr>) = pages_of db" for t by (simp add: pages_of_def fun_eq_iff)
  show ?thesis
    using assms by (auto simp: edits_def view_def seeds_of_def transitions_of_def matchers_of_def pages rows_of_def
        bm_lookup_filter [OF tables_invar(5)] fun_eq_iff split: option.splits)
qed

section \<open>What a loaded draft satisfies\<close>

lemma load_version_with_Inr:
  assumes "tables_ok db"
  shows "load_version_with validate env db i = Inr v \<longleftrightarrow>
    (\<exists>r. bm_lookup (db_versions db) i = Some r \<and> v = vr_configuration r \<and> cv_id v = i
       \<and> cv_crawler_id v = vr_crawler_id r \<and> cv_state v = vr_state r
       \<and> (validate \<longrightarrow> validate_semantic_contract (rp_scope env) v = Inr ()) \<and> seeds_consistent env (seeds_of db i) v)"
  using validate_seed_projection_iff [OF assms, of env v]
  by (auto simp: load_version_with_def version_from_row_with_semantic_validation_def Let_def result_simps)

lemma semantic_hash_Inr:
  assumes "tables_ok db" and "dom (pages_of db (cv_id v)) = set (cv_page_type_ids v)"
  shows "semantic_hash env db v = Inr h \<longleftrightarrow> validate_semantic_contract (rp_scope env) v = Inr ()
    \<and> transitions_consistent (view db (cv_id v)) v
    \<and> (\<forall>m \<in> ran (matchers_of db (cv_id v)). validate_definition (rp_matcher env) (ma_matcher m) = Inr ())
    \<and> h = rp_digest env db v"
proof -
  have rows: "set (version_matchers db j) = {(k, m). matchers_of db j k = Some m}" for j
  proof -
    have same: "(\<lambda>(i, m). case bm_lookup (db_page_types db) (ma_page_type_id m) of None \<Rightarrow> False | Some r \<Rightarrow> pg_version_id r = j)
        = (\<lambda>(i, m). pages_of db j (ma_page_type_id m) \<noteq> None)"
      by (auto simp: fun_eq_iff pages_of_def rows_of_def split: option.split)
    have inv: "bm_invar (db_matchers db)" using assms(1) by (simp add: tables_ok_def)
    show ?thesis unfolding version_matchers_def same matchers_of_def
      using set_filter_rows [OF inv, of "\<lambda>m. pages_of db j (ma_page_type_id m) \<noteq> None"] by simp
  qed
  have matchers: "(\<exists>ms. collect_results (matcher_from_row env) (version_matchers db (cv_id v)) = Inr ms) \<longleftrightarrow>
      (\<forall>m \<in> ran (matchers_of db (cv_id v)). validate_definition (rp_matcher env) (ma_matcher m) = Inr ())"
    unfolding collect_results_Inr_iff rows by (auto simp: matcher_from_row_iff ran_def)
  show ?thesis
    using load_transition_records_iff [OF assms] matchers
    by (auto simp: semantic_hash_def semantic_hash_with_semantic_validation_def result_simps)
qed

lemma load_mutation_version_Inr:
  assumes "tables_ok db" "load_mutation_version env db c i = Inr v"
  obtains r row where "bm_lookup (db_versions db) i = Some r" "vr_configuration r = v" "vr_state r = Draft" "vr_crawler_id r = c"
    "cv_id v = i" "cv_state v = Draft" "cv_crawler_id v = c" "bm_lookup (db_crawlers db) c = Some row"
    "active_draft_version_id row = Some i" "validate_semantic_contract (rp_scope env) v = Inr ()"
    "seeds_consistent env (seeds_of db i) v" "pages_consistent env (view db i) v" "transitions_consistent (view db i) v"
proof -
  from assms(2) have load: "load_version_with True env db i = Inr v" "cv_crawler_id v = c" "cv_state v = Draft"
    and row: "\<exists>row. bm_lookup (db_crawlers db) c = Some row \<and> active_draft_version_id row = Some i"
    and pages: "\<exists>rs. load_page_type_records env db v = Inr rs" and transitions: "\<exists>rs. load_transition_records db v True = Inr rs"
    by (auto simp: load_mutation_version_def load_version_def result_simps active_draft_for_def split: if_splits)
  from load(1) obtain r where r: "bm_lookup (db_versions db) i = Some r" "v = vr_configuration r" "cv_id v = i"
    "cv_crawler_id v = vr_crawler_id r" "cv_state v = vr_state r" "validate_semantic_contract (rp_scope env) v = Inr ()"
    "seeds_consistent env (seeds_of db i) v"
    by (auto simp: load_version_with_Inr [OF assms(1)])
  from pages r(3) have p: "pages_consistent env (view db i) v" using load_page_type_records_iff [OF assms(1)] by metis
  then have "dom (pages_of db (cv_id v)) = set (cv_page_type_ids v)" by (simp add: pages_consistent_def view_def r(3))
  with transitions r(3) have "transitions_consistent (view db i) v"
    using load_transition_records_iff [OF assms(1)] by metis
  with r p load row that show ?thesis by auto
qed

lemma mutation_audit_Inr:
  assumes "insert_semantic_mutation_audit env fresh event actor at v entity db = Inr db'"
  obtains h a where "semantic_hash env db v = Inr h" "db' = db\<lparr>db_audit := bm_insert fresh a (db_audit db)\<rparr>"
  using assms by (auto simp: insert_semantic_mutation_audit_def result_simps row_statements)

lemma update_version_configuration_Inr:
  "update_version_configuration v db = Inr db' \<longleftrightarrow> (\<exists>r. bm_lookup (db_versions db) (cv_id v) = Some r \<and> vr_state r = Draft
     \<and> db' = db\<lparr>db_versions := bm_insert (cv_id v) (r\<lparr>vr_configuration := v\<rparr>) (db_versions db)\<rparr>)"
  by (auto simp: update_version_configuration_def result_simps row_statements)

section \<open>Edits of the active draft\<close>

text \<open>An edit of a draft: only its rows and its configuration change, and it stays consistent.\<close>

definition draft_edit :: "'u repo_env \<Rightarrow> CrawlerVersionId \<Rightarrow> 'u crawler_db \<Rightarrow> 'u crawler_db \<Rightarrow> bool" where
  "draft_edit env i db db' \<longleftrightarrow>
     edits i db db' \<and> tables_ok db' \<and> db_crawlers db' = db_crawlers db \<and> (matchers_owned db \<longrightarrow> matchers_owned db')
     \<and> (\<exists>r v. bm_lookup (db_versions db) i = Some r \<and> vr_state r = Draft \<and> cv_id v = i \<and> cv_crawler_id v = vr_crawler_id r
          \<and> cv_state v = Draft \<and> bm_lookup (db_versions db') i = Some (r\<lparr>vr_configuration := v\<rparr>))
     \<and> version_consistent env (view db' i) i"

lemma edits_lookup: "edits i db db' \<Longrightarrow> j \<noteq> i \<Longrightarrow> bm_lookup (db_versions db') j = bm_lookup (db_versions db) j"
  by (auto simp: edits_def view_def)

text \<open>The pointers do not look at configurations.\<close>

lemma edit_pointers:
  assumes "pointers_ok db" "edits i db db'" "db_crawlers db' = db_crawlers db"
    and r: "bm_lookup (db_versions db) i = Some r" "bm_lookup (db_versions db') i = Some (r\<lparr>vr_configuration := v\<rparr>)"
  shows "pointers_ok db'"
proof -
  have same: "pointer_ok db' c s p = pointer_ok db c s p" for c s p
    using r edits_lookup [OF assms(2)] by (cases "p = Some i") (auto simp: pointer_ok_def split: option.split)
  show ?thesis
    unfolding pointers_ok_def
  proof (intro conjI allI impI)
    fix j q assume q: "bm_lookup (db_versions db') j = Some q"
    obtain q' where "bm_lookup (db_versions db) j = Some q'" "vr_crawler_id q' = vr_crawler_id q" "vr_state q' = vr_state q"
    proof (cases "j = i")
      case True
      with q r that show ?thesis by auto
    next
      case False
      with q edits_lookup [OF assms(2) False] that show ?thesis by auto
    qed
    with assms(1,3) show "\<exists>row. bm_lookup (db_crawlers db') (vr_crawler_id q) = Some row
        \<and> (vr_state q = Draft \<longrightarrow> active_draft_version_id row = Some j)"
      unfolding pointers_ok_def by metis
  qed (use assms(1) in \<open>auto simp: pointers_ok_def same assms(3)\<close>)
qed

lemma draft_edit_repo_ok:
  assumes "repo_ok env loose db" "draft_edit env i db db'"
  shows "repo_ok env loose db'"
proof -
  from assms(2) obtain r v where r: "bm_lookup (db_versions db) i = Some r"
      "bm_lookup (db_versions db') i = Some (r\<lparr>vr_configuration := v\<rparr>)"
    and e: "edits i db db'" "tables_ok db'" "db_crawlers db' = db_crawlers db" "matchers_owned db \<longrightarrow> matchers_owned db'"
      "version_consistent env (view db' i) i"
    by (auto simp: draft_edit_def)
  have old: "pointers_ok db" "matchers_owned db" using assms(1) by (simp_all add: repo_ok_def)
  show ?thesis
  proof (rule repo_okI [OF assms(1)])
    show "pointers_ok db'" by (rule edit_pointers [OF old(1) e(1,3) r])
    show "version_consistent env (view db' i) i \<or> i \<in> loose \<and> \<not> published_version db' i" using e(5) ..
  qed (use e old(2) version_consistent_sound [OF e(5)] in \<open>simp_all add: edits_def\<close>)
qed

text \<open>The last step of every edit digests the draft, which checks its transitions.\<close>

lemma finish_edit:
  assumes audit: "insert_semantic_mutation_audit env fresh event actor at v entity db1 = Inr db'"
    and tables: "tables_ok db1" and e: "edits i db db1" "db_crawlers db1 = db_crawlers db"
    and owned: "matchers_owned db \<longrightarrow> matchers_owned db1"
    and r: "bm_lookup (db_versions db) i = Some r" "vr_state r = Draft" "bm_lookup (db_versions db1) i = Some (r\<lparr>vr_configuration := v\<rparr>)"
    and v: "cv_id v = i" "cv_crawler_id v = vr_crawler_id r" "cv_state v = Draft"
    and pages: "distinct (cv_page_type_ids v)" "dom (pages_of db1 i) = set (cv_page_type_ids v)"
    and seeds: "seeds_consistent env (seeds_of db1 i) v"
  shows "draft_edit env i db db'"
proof -
  from audit obtain h a where h: "semantic_hash env db1 v = Inr h" and db': "db' = db1\<lparr>db_audit := bm_insert fresh a (db_audit db1)\<rparr>"
    by (rule mutation_audit_Inr)
  from h have checked: "validate_semantic_contract (rp_scope env) v = Inr ()" "transitions_consistent (view db1 i) v"
    "\<forall>m \<in> ran (matchers_of db1 i). validate_definition (rp_matcher env) (ma_matcher m) = Inr ()"
    using semantic_hash_Inr [OF tables, of v env h] v(1) pages(2) by simp_all
  then have "version_consistent env (view db1 i) i"
    using r v pages seeds by (simp add: version_consistent_def pages_consistent_def view_def)
  moreover have "view db' j = view db1 j" for j by (simp add: db')
  moreover have "tables_ok db'" using tables by (simp add: db' keep_tables)
  moreover have "matchers_owned db' = matchers_owned db1" by (simp add: db' matchers_owned_def)
  ultimately show ?thesis
    using e owned r v by (auto simp: draft_edit_def edits_def db')
qed

lemma version_update_views [simp]:
  "pages_of (db\<lparr>db_versions := t\<rparr>) i = pages_of db i" "seeds_of (db\<lparr>db_versions := t\<rparr>) i = seeds_of db i"
  "seeds_of (db\<lparr>db_page_types := t4\<rparr>) i = seeds_of db i" "seeds_of (db\<lparr>db_transitions := t6\<rparr>) i = seeds_of db i"
  "seeds_of (db\<lparr>db_matchers := t5\<rparr>) i = seeds_of db i"
  "pages_of (db\<lparr>db_transitions := t6\<rparr>) i = pages_of db i" "pages_of (db\<lparr>db_matchers := t5\<rparr>) i = pages_of db i"
  "matchers_owned (db\<lparr>db_versions := t\<rparr>) = matchers_owned db" "matchers_owned (db\<lparr>db_transitions := t6\<rparr>) = matchers_owned db"
  by (simp_all add: seeds_of_def pages_of_def matchers_owned_def)

lemma same_row: "r\<lparr>vr_configuration := vr_configuration r\<rparr> = r"
  by simp

lemma seeds_consistent_cong:
  "seeds_consistent env rows v \<Longrightarrow> cv_seeds w = cv_seeds v \<Longrightarrow> set (cv_page_type_ids v) \<subseteq> set (cv_page_type_ids w)
     \<Longrightarrow> seeds_consistent env rows w"
  by (fastforce simp: seeds_consistent_def hints_owned_def)

text \<open>Policies and guardrails keep the declared children and the seeds.\<close>

definition policy_update :: "('u CrawlerVersion \<Rightarrow> 'u CrawlerVersion product_result) \<Rightarrow> bool" where
  "policy_update update \<longleftrightarrow> (\<forall>v w. update v = Inr w \<longrightarrow> cv_id w = cv_id v \<and> cv_crawler_id w = cv_crawler_id v
     \<and> cv_state w = cv_state v \<and> cv_seeds w = cv_seeds v \<and> cv_page_type_ids w = cv_page_type_ids v
     \<and> cv_transition_ids w = cv_transition_ids v)"

lemma policy_updates:
  "policy_update (set_canonicalization_policy policy)" "policy_update (set_domain_scope scope_env scope)"
  "policy_update (set_guardrails guardrails)"
  by (auto simp: policy_update_def edit_defs result_simps split: if_splits)

lemma update_semantic_version_edit:
  assumes "tables_ok db" "policy_update update"
    and "update_semantic_version env fresh c i actor at event entity update db = Inr (x, db')"
  shows "draft_edit env i db db'"
proof -
  from assms(3) obtain v v1 db1 where v: "load_mutation_version env db c i = Inr v" and v1: "update v = Inr v1"
    and db1: "update_version_configuration v1 db = Inr db1"
    and audit: "insert_semantic_mutation_audit env fresh event actor at v1 entity db1 = Inr db'"
    by (auto simp: update_semantic_version_def result_simps)
  from load_mutation_version_Inr [OF assms(1) v] obtain r where r: "bm_lookup (db_versions db) i = Some r" "vr_state r = Draft"
    "c = vr_crawler_id r" "cv_id v = i" "cv_state v = Draft" "cv_crawler_id v = vr_crawler_id r"
    "seeds_consistent env (seeds_of db i) v" "pages_consistent env (view db i) v" by metis
  have same: "cv_id v1 = i" "cv_crawler_id v1 = vr_crawler_id r" "cv_state v1 = Draft" "cv_seeds v1 = cv_seeds v"
    "cv_page_type_ids v1 = cv_page_type_ids v"
    using assms(2) v1 r by (simp_all add: policy_update_def)
  from db1 r(1) have db1: "db1 = db\<lparr>db_versions := bm_insert i (r\<lparr>vr_configuration := v1\<rparr>) (db_versions db)\<rparr>"
    by (auto simp: update_version_configuration_Inr same)
  show ?thesis
    using assms(1) r same seeds_consistent_cong [OF r(7), of v1]
    by (intro finish_edit [OF audit])
      (simp_all add: db1 keep_tables edits_versions bm_insert_lookup pages_consistent_def view_def)
qed

end
