(* ===== verification/Crawler_Safety.thy ===== *)
theory Crawler_Safety
  imports Crawler_Consistency
begin

text \<open>
  Published versions are immutable: every statement the crawler repository runs keeps their rows, so
  every operation does, whatever its arguments and in whatever order they run.
\<close>

section \<open>Statements\<close>

definition keeps_published :: "'u crawler_db \<Rightarrow> 'u crawler_db \<Rightarrow> bool" where
  "keeps_published db db' \<longleftrightarrow> (tables_ok db \<longrightarrow> tables_ok db' \<and>
     (\<forall>j. version_state db j = Some Published \<longrightarrow> view db' j = view db j))"

lemma version_state_view: "version_state db j = map_option vr_state (vw_version (view db j))"
  by (simp add: version_state_def view_def)

lemma keeps_published_refl [simp]: "keeps_published db db"
  by (simp add: keeps_published_def)

lemma keeps_published_trans: "keeps_published db db1 \<Longrightarrow> keeps_published db1 db2 \<Longrightarrow> keeps_published db db2"
  unfolding keeps_published_def version_state_view by metis

lemma keeps_edits:
  assumes "tables_ok db \<Longrightarrow> tables_ok db'" "tables_ok db \<Longrightarrow> edits i db db'" "unfrozen db i"
  shows "keeps_published db db'"
  using assms by (auto simp: keeps_published_def edits_def unfrozen_def)

lemma keeps_unrelated [simp]:
  "keeps_published db (db\<lparr>db_crawlers := bm_insert c row (db_crawlers db)\<rparr>)"
  "keeps_published db (db\<lparr>db_audit := bm_insert k a (db_audit db)\<rparr>)"
  by (simp_all add: keeps_published_def keep_tables)

lemma page_owner: "pages_of db j p \<noteq> None \<longleftrightarrow> (\<exists>r. bm_lookup (db_page_types db) p = Some r \<and> pg_version_id r = j)"
  by (auto simp: pages_of_def rows_of_def split: option.splits)

text \<open>The rows of a matcher belong to the version that owns its page type, if one does.\<close>

lemma unfrozen_owner:
  assumes "page_unfrozen db p"
  obtains i where "unfrozen db i" "\<And>j. pages_of db j p \<noteq> None \<Longrightarrow> j = i"
proof (cases "bm_lookup (db_page_types db) p")
  case None
  then have unowned: "\<And>j. pages_of db j p = None" by (simp add: pages_of_def rows_of_def)
  have "infinite (UNIV :: string set)" by (rule infinite_UNIV_listI)
  then obtain i where "i \<notin> fst ` set (db_versions db)" by (meson ex_new_if_finite finite_set finite_imageI)
  then have "bm_lookup (db_versions db) i = None" by (simp add: bm_lookup_def map_of_eq_None_iff)
  then have "unfrozen db i" by (simp add: unfrozen_def version_state_def)
  with unowned show thesis by (intro that [of i]) auto
next
  case (Some r)
  with assms show thesis by (intro that [of "pg_version_id r"]) (auto simp: page_unfrozen_def pages_of_def)
qed

lemma matcher_update_keeps:
  assumes "page_unfrozen db p" and "\<And>m. bm_lookup (db_matchers db) k = Some m \<Longrightarrow> ma_page_type_id m = p"
  shows "ma_page_type_id m' = p \<Longrightarrow> keeps_published db (db\<lparr>db_matchers := bm_insert k m' (db_matchers db)\<rparr>)"
    and "keeps_published db (db\<lparr>db_matchers := bm_remove k (db_matchers db)\<rparr>)"
proof -
  from assms(1) obtain i where i: "unfrozen db i" "\<And>j. pages_of db j p \<noteq> None \<Longrightarrow> j = i"
    using unfrozen_owner by blast
  show "ma_page_type_id m' = p \<Longrightarrow> keeps_published db (db\<lparr>db_matchers := bm_insert k m' (db_matchers db)\<rparr>)"
    using assms(2) i by (intro keeps_edits [where i = i] edits_matchers) (auto simp: keep_tables)
  show "keeps_published db (db\<lparr>db_matchers := bm_remove k (db_matchers db)\<rparr>)"
    using assms(2) i by (intro keeps_edits [where i = i] edits_matchers) (auto simp: keep_tables)
qed

lemma matcher_filter_keeps:
  assumes "page_unfrozen db p"
  shows "keeps_published db (db\<lparr>db_matchers := filter (\<lambda>(_, m). ma_page_type_id m \<noteq> p) (db_matchers db)\<rparr>)"
proof -
  from assms obtain i where "unfrozen db i" "\<And>j. pages_of db j p \<noteq> None \<Longrightarrow> j = i"
    using unfrozen_owner by blast
  then show ?thesis by (intro keeps_edits [where i = i] edits_matcher_rows) (auto simp: keep_tables)
qed

lemma page_update_keeps:
  assumes "\<And>r. bm_lookup (db_page_types db) k = Some r \<Longrightarrow> pg_version_id r = i" "unfrozen db i"
  shows "pg_version_id r' = i \<Longrightarrow> keeps_published db (db\<lparr>db_page_types := bm_insert k r' (db_page_types db)\<rparr>)"
    and "keeps_published db (db\<lparr>db_page_types := bm_remove k (db_page_types db)\<rparr>)"
  using assms by (auto intro!: keeps_edits [where i = i] edits_pages simp: keep_tables)

lemma transition_update_keeps:
  assumes "\<And>r. bm_lookup (db_transitions db) k = Some r \<Longrightarrow> tw_version_id r = i" "unfrozen db i"
  shows "tw_version_id r' = i \<Longrightarrow> keeps_published db (db\<lparr>db_transitions := bm_insert k r' (db_transitions db)\<rparr>)"
    and "keeps_published db (db\<lparr>db_transitions := bm_remove k (db_transitions db)\<rparr>)"
  using assms by (auto intro!: keeps_edits [where i = i] edits_transitions simp: keep_tables)

lemma delete_seed_rows_keep: "delete_seed_rows v db = Inr db' \<Longrightarrow> keeps_published db db'"
proof (cases "unfrozen db v")
  case True
  assume "delete_seed_rows v db = Inr db'"
  with True show ?thesis
    by (auto simp: row_statements intro!: keeps_edits [where i = v] edits_seeds keep_tables)
next
  case False
  assume "delete_seed_rows v db = Inr db'"
  with False have "db' = db"
    by (auto simp: row_statements list_all_iff filter_id_conv case_prod_unfold)
  then show ?thesis by simp
qed

lemma delete_matcher_rows_keep: "delete_matcher_rows p db = Inr db' \<Longrightarrow> keeps_published db db'"
proof (cases "page_unfrozen db p")
  case True
  assume "delete_matcher_rows p db = Inr db'"
  with True show ?thesis by (auto simp: row_statements intro!: matcher_filter_keeps)
next
  case False
  assume "delete_matcher_rows p db = Inr db'"
  with False have "db' = db"
    by (auto simp: row_statements list_all_iff filter_id_conv case_prod_unfold)
  then show ?thesis by simp
qed

lemma insert_rows_keep:
  "insert_crawler_row c db = Inr db' \<Longrightarrow> keeps_published db db'"
  "insert_version_row v db = Inr db' \<Longrightarrow> keeps_published db db'"
  "insert_seed_row k1 r1 db = Inr db' \<Longrightarrow> keeps_published db db'"
  "insert_page_type_row k2 r2 db = Inr db' \<Longrightarrow> keeps_published db db'"
  "insert_matcher_row k3 r3 db = Inr db' \<Longrightarrow> keeps_published db db'"
  "insert_transition_row k4 r4 db = Inr db' \<Longrightarrow> keeps_published db db'"
  "insert_audit_event k5 r5 db = Inr db' \<Longrightarrow> keeps_published db db'"
proof -
  show "insert_crawler_row c db = Inr db' \<Longrightarrow> keeps_published db db'"
    by (auto simp: insert_crawler_row_def result_simps)
  show "insert_audit_event k5 r5 db = Inr db' \<Longrightarrow> keeps_published db db'"
    by (auto simp: row_statements)
  show "insert_version_row v db = Inr db' \<Longrightarrow> keeps_published db db'"
    by (rule keeps_edits [where i = "cv_id v"])
      (auto simp: row_statements edits_versions keep_tables unfrozen_def version_state_def)
  show "insert_seed_row k1 r1 db = Inr db' \<Longrightarrow> keeps_published db db'"
    by (rule keeps_edits [where i = "sr_version_id r1"]) (auto simp: row_statements edits_seeds keep_tables)
  show "insert_page_type_row k2 r2 db = Inr db' \<Longrightarrow> keeps_published db db'"
    by (auto simp: row_statements intro!: page_update_keeps(1))
  show "insert_matcher_row k3 r3 db = Inr db' \<Longrightarrow> keeps_published db db'"
    by (auto simp: row_statements intro: matcher_update_keeps(1))
  show "insert_transition_row k4 r4 db = Inr db' \<Longrightarrow> keeps_published db db'"
    by (auto simp: row_statements intro!: transition_update_keeps(1))
qed

lemma update_rows_keep:
  "update_draft_configuration i v db = Inr (n, db') \<Longrightarrow> keeps_published db db'"
  "publish_version_row c i v db = Inr (n, db') \<Longrightarrow> keeps_published db db'"
  "update_crawler_row c P f db = (n, db') \<Longrightarrow> keeps_published db db'"
  "update_page_type_row k i name prio db = Inr (n, db') \<Longrightarrow> keeps_published db db'"
  "delete_page_type_row k i db = Inr (n, db') \<Longrightarrow> keeps_published db db'"
  "update_matcher_row m p matcher db = Inr (n, db') \<Longrightarrow> keeps_published db db'"
  "delete_matcher_row m p db = Inr (n, db') \<Longrightarrow> keeps_published db db'"
  "update_transition_row t i tr db = Inr (n, db') \<Longrightarrow> keeps_published db db'"
  "delete_transition_row t i db = Inr (n, db') \<Longrightarrow> keeps_published db db'"
proof -
  show "update_draft_configuration i v db = Inr (n, db') \<Longrightarrow> keeps_published db db'"
    by (auto simp: update_draft_configuration_def edits_versions keep_tables unfrozen_def version_state_def
        intro: keeps_edits [where i = i] split: option.splits if_splits)
  show "publish_version_row c i v db = Inr (n, db') \<Longrightarrow> keeps_published db db'"
    by (auto simp: publish_version_row_def edits_versions keep_tables unfrozen_def version_state_def
        intro: keeps_edits [where i = i] split: option.splits if_splits)
  show "update_crawler_row c P f db = (n, db') \<Longrightarrow> keeps_published db db'"
    by (auto simp: update_crawler_row_def split: option.splits if_splits)
  show "update_page_type_row k i name prio db = Inr (n, db') \<Longrightarrow> keeps_published db db'"
    by (auto simp: update_page_type_row_def result_simps intro!: page_update_keeps split: option.splits if_splits)
  show "delete_page_type_row k i db = Inr (n, db') \<Longrightarrow> keeps_published db db'"
    by (auto simp: delete_page_type_row_def result_simps intro!: page_update_keeps split: option.splits if_splits)
  show "update_matcher_row m p matcher db = Inr (n, db') \<Longrightarrow> keeps_published db db'"
    by (auto simp: update_matcher_row_def result_simps intro: matcher_update_keeps split: option.splits if_splits)
  show "delete_matcher_row m p db = Inr (n, db') \<Longrightarrow> keeps_published db db'"
    by (auto simp: delete_matcher_row_def result_simps intro: matcher_update_keeps split: option.splits if_splits)
  show "update_transition_row t i tr db = Inr (n, db') \<Longrightarrow> keeps_published db db'"
    by (auto simp: update_transition_row_def result_simps intro!: transition_update_keeps split: option.splits if_splits)
  show "delete_transition_row t i db = Inr (n, db') \<Longrightarrow> keeps_published db db'"
    by (auto simp: delete_transition_row_def result_simps intro!: transition_update_keeps split: option.splits if_splits)
qed

lemmas statements_keep = insert_rows_keep update_rows_keep delete_seed_rows_keep delete_matcher_rows_keep

section \<open>Operations\<close>

lemma insert_seeds_keep: "insert_seeds env v ss db = Inr db' \<Longrightarrow> keeps_published db db'"
  by (induction ss arbitrary: db) (auto simp: result_simps intro: keeps_published_trans statements_keep)

lemma insert_all_rows_keep:
  assumes "\<And>i r db db'. insert_row i r db = Inr db' \<Longrightarrow> keeps_published db db'"
  shows "insert_all_rows insert_row rows db = Inr db' \<Longrightarrow> keeps_published db db'"
proof (induction rows arbitrary: db)
  case (Cons p rows)
  then show ?case by (cases p) (auto simp: result_simps dest!: assms intro: keeps_published_trans)
qed simp

lemma clone_rows_keep:
  "insert_all_rows insert_seed_row seed_rows db = Inr db' \<Longrightarrow> keeps_published db db'"
  "insert_all_rows insert_page_type_row page_rows db = Inr db' \<Longrightarrow> keeps_published db db'"
  "insert_all_rows insert_matcher_row matcher_rows db = Inr db' \<Longrightarrow> keeps_published db db'"
  "insert_all_rows insert_transition_row transition_rows db = Inr db' \<Longrightarrow> keeps_published db db'"
  using insert_all_rows_keep insert_rows_keep by blast+

lemma steps_keep_published:
  "sync_seed_rows env v db = Inr db' \<Longrightarrow> keeps_published db db'"
  "activate_draft_pointer c i db = Inr db' \<Longrightarrow> keeps_published db db'"
  "update_version_configuration v db = Inr db' \<Longrightarrow> keeps_published db db'"
  "insert_semantic_mutation_audit env fresh event actor at v entity db = Inr db' \<Longrightarrow> keeps_published db db'"
  "clone_child_rows ids source target seed_map page_map transition_map db = Inr db' \<Longrightarrow> keeps_published db db'"
proof -
  show "sync_seed_rows env v db = Inr db' \<Longrightarrow> keeps_published db db'"
    by (auto simp: sync_seed_rows_def result_simps intro: keeps_published_trans delete_seed_rows_keep insert_seeds_keep)
  show "activate_draft_pointer c i db = Inr db' \<Longrightarrow> keeps_published db db'"
    by (auto simp: activate_draft_pointer_def Let_def intro: update_rows_keep split: prod.splits if_splits)
  show "update_version_configuration v db = Inr db' \<Longrightarrow> keeps_published db db'"
    by (auto simp: update_version_configuration_def result_simps intro: update_rows_keep split: if_splits)
  show "insert_semantic_mutation_audit env fresh event actor at v entity db = Inr db' \<Longrightarrow> keeps_published db db'"
    by (auto simp: insert_semantic_mutation_audit_def result_simps intro: insert_rows_keep)
  assume "clone_child_rows ids source target seed_map page_map transition_map db = Inr db'"
  then show "keeps_published db db'"
    by (auto simp: clone_child_rows_def Let_def result_simps
        dest!: clone_rows_keep)
      ((erule keeps_published_trans)+, simp)
qed

lemmas all_keep = statements_keep steps_keep_published

lemma drafts_keep_published:
  "create_crawler row db = Inr (u, db') \<Longrightarrow> keeps_published db db'"
  "insert_draft_in_transaction env v base actor at db = Inr (u, db') \<Longrightarrow> keeps_published db db'"
  "save_draft_in_transaction env v actor at db = Inr (u, db') \<Longrightarrow> keeps_published db db'"
  "save_draft_typed env v actor at db = Inr (u, db') \<Longrightarrow> keeps_published db db'"
proof -
  show "create_crawler row db = Inr (u, db') \<Longrightarrow> keeps_published db db'"
    by (auto simp: create_crawler_def result_simps dest: all_keep)
  show insert: "keeps_published db db'" if "insert_draft_in_transaction env v base actor at db = Inr (u, db')" for base u db db'
    using that by (auto simp: insert_draft_in_transaction_def result_simps dest!: all_keep split: if_splits)
      ((erule keeps_published_trans)+, simp)
  show save: "keeps_published db db'" if "save_draft_in_transaction env v actor at db = Inr (u, db')" for u db db'
    using that by (auto simp: save_draft_in_transaction_def result_simps dest!: all_keep
        intro: insert keeps_published_trans split: option.splits if_splits)
  show "save_draft_typed env v actor at db = Inr (u, db') \<Longrightarrow> keeps_published db db'"
    by (auto simp: save_draft_typed_def result_simps intro: save split: if_splits)
qed

lemma save_draft_cases:
  assumes "save_draft env v actor at db = Inr ((), db')"
  obtains "save_draft_typed env v actor at db = Inr ((), db')" | "insert_version_row v db = Inr db'"
  using assms by (auto simp: save_draft_def result_simps split: sum.splits CrawlerRepositoryError.splits)

lemma save_draft_keeps: "save_draft env v actor at db = Inr (u, db') \<Longrightarrow> keeps_published db db'"
  using save_draft_cases [of env v actor at db db'] drafts_keep_published(4) insert_rows_keep(2) by (metis old.unit.exhaust)

lemma lifecycle_keeps_published:
  "clone_draft_in_transaction env ids c source actor at db = Inr (w, db') \<Longrightarrow> keeps_published db db'"
  "publish_in_transaction env c i actor at db = Inr (rec, db') \<Longrightarrow> keeps_published db db'"
  "reactivate_in_transaction env c i actor at db = Inr (u, db') \<Longrightarrow> keeps_published db db'"
proof -
  show "clone_draft_in_transaction env ids c source actor at db = Inr (w, db') \<Longrightarrow> keeps_published db db'"
    by (auto simp: clone_draft_in_transaction_def result_simps Let_def dest!: all_keep split: if_splits)
      ((erule keeps_published_trans)+, simp)
  show "publish_in_transaction env c i actor at db = Inr (rec, db') \<Longrightarrow> keeps_published db db'"
    by (auto simp: publish_in_transaction_def result_simps Let_def dest!: all_keep split: if_splits prod.splits)
      ((erule keeps_published_trans)+, simp)
  show "reactivate_in_transaction env c i actor at db = Inr (u, db') \<Longrightarrow> keeps_published db db'"
    by (auto simp: reactivate_in_transaction_def result_simps Let_def dest!: all_keep split: if_splits prod.splits)
      ((erule keeps_published_trans)+, simp)
qed

lemma authoring_keeps_published:
  "update_semantic_version env fresh c i actor at event entity update db = Inr (w, db') \<Longrightarrow> keeps_published db db'"
  "create_discovery_transition env fresh c i t actor at db = Inr (u, db') \<Longrightarrow> keeps_published db db'"
  "update_discovery_transition env fresh c i tid t actor at db = Inr (u, db') \<Longrightarrow> keeps_published db db'"
  "delete_discovery_transition env fresh c i tid actor at db = Inr (u, db') \<Longrightarrow> keeps_published db db'"
  "create_page_type env fresh pt c i name prio actor at db = Inr (u, db') \<Longrightarrow> keeps_published db db'"
  "update_page_type env fresh c i pt name prio actor at db = Inr (u, db') \<Longrightarrow> keeps_published db db'"
  "delete_page_type env fresh c i pt actor at db = Inr (u, db') \<Longrightarrow> keeps_published db db'"
  "create_url_matcher env fresh mid c i pt matcher actor at db = Inr (n, db') \<Longrightarrow> keeps_published db db'"
  "update_url_matcher env fresh c i pt mid matcher actor at db = Inr (u, db') \<Longrightarrow> keeps_published db db'"
  "delete_url_matcher env fresh c i pt mid actor at db = Inr (u, db') \<Longrightarrow> keeps_published db db'"
  by (auto simp: update_semantic_version_def create_discovery_transition_def update_discovery_transition_def
      delete_discovery_transition_def create_page_type_def update_page_type_def delete_page_type_def
      create_url_matcher_def update_url_matcher_def delete_url_matcher_def result_simps Let_def
      dest!: all_keep intro: keeps_published_trans split: if_splits)

section \<open>Histories\<close>

text \<open>The write operations of the repository, with the identifiers they draw.\<close>

datatype 'u crawler_op =
    CreateCrawler Crawler
  | CreateDraft CrawlerVersionId CrawlerId string string
  | CloneDraft clone_ids CrawlerId CrawlerVersionId string string
  | SaveDraft "'u CrawlerVersion" string string
  | Publish CrawlerId CrawlerVersionId string string
  | Reactivate CrawlerId CrawlerVersionId string string
  | UpdateCanonicalization string CrawlerId CrawlerVersionId CanonicalizationPolicy string string
  | UpdateDomainScope string CrawlerId CrawlerVersionId DomainScopePolicy string string
  | UpdateGuardrails string CrawlerId CrawlerVersionId CrawlerVersionGuardrails string string
  | CreateTransition string CrawlerId CrawlerVersionId DiscoveryTransition string string
  | UpdateTransition string CrawlerId CrawlerVersionId DiscoveryTransitionId DiscoveryTransition string string
  | DeleteTransition string CrawlerId CrawlerVersionId DiscoveryTransitionId string string
  | CreatePageType string PageTypeId CrawlerId CrawlerVersionId string int string string
  | UpdatePageType string CrawlerId CrawlerVersionId PageTypeId string int string string
  | DeletePageType string CrawlerId CrawlerVersionId PageTypeId string string
  | CreateUrlMatcher string string CrawlerId CrawlerVersionId PageTypeId "'u UrlMatcher" string string
  | UpdateUrlMatcher string CrawlerId CrawlerVersionId PageTypeId string "'u UrlMatcher" string string
  | DeleteUrlMatcher string CrawlerId CrawlerVersionId PageTypeId string string string

fun write_op :: "'u repo_env \<Rightarrow> 'u crawler_op \<Rightarrow> 'u crawler_db \<Rightarrow> 'u crawler_db" where
  "write_op env (CreateCrawler row) db = snd (run_tx (create_crawler row) db)"
| "write_op env (CreateDraft fresh c actor at) db =
     snd (run_tx (insert_draft_in_transaction env (draft fresh c) None actor at) db)"
| "write_op env (CloneDraft ids c source actor at) db = snd (run_tx (clone_draft_in_transaction env ids c source actor at) db)"
| "write_op env (SaveDraft v actor at) db = snd (run_tx (save_draft env v actor at) db)"
| "write_op env (Publish c i actor at) db = snd (run_tx (publish_in_transaction env c i actor at) db)"
| "write_op env (Reactivate c i actor at) db = snd (run_tx (reactivate_in_transaction env c i actor at) db)"
| "write_op env (UpdateCanonicalization fresh c i policy actor at) db =
     snd (run_tx (update_canonicalization_policy env fresh c i policy actor at) db)"
| "write_op env (UpdateDomainScope fresh c i scope actor at) db =
     snd (run_tx (update_domain_scope_policy env fresh c i scope actor at) db)"
| "write_op env (UpdateGuardrails fresh c i guardrails actor at) db =
     snd (run_tx (update_crawler_version_guardrails env fresh c i guardrails actor at) db)"
| "write_op env (CreateTransition fresh c i t actor at) db = snd (run_tx (create_discovery_transition env fresh c i t actor at) db)"
| "write_op env (UpdateTransition fresh c i tid t actor at) db =
     snd (run_tx (update_discovery_transition env fresh c i tid t actor at) db)"
| "write_op env (DeleteTransition fresh c i tid actor at) db =
     snd (run_tx (delete_discovery_transition env fresh c i tid actor at) db)"
| "write_op env (CreatePageType fresh pt c i name prio actor at) db =
     snd (run_tx (create_page_type env fresh pt c i name prio actor at) db)"
| "write_op env (UpdatePageType fresh c i pt name prio actor at) db =
     snd (run_tx (update_page_type env fresh c i pt name prio actor at) db)"
| "write_op env (DeletePageType fresh c i pt actor at) db = snd (run_tx (delete_page_type env fresh c i pt actor at) db)"
| "write_op env (CreateUrlMatcher fresh mid c i pt matcher actor at) db =
     snd (run_tx (create_url_matcher env fresh mid c i pt matcher actor at) db)"
| "write_op env (UpdateUrlMatcher fresh c i pt mid matcher actor at) db =
     snd (run_tx (update_url_matcher env fresh c i pt mid matcher actor at) db)"
| "write_op env (DeleteUrlMatcher fresh c i pt mid actor at) db =
     snd (run_tx (delete_url_matcher env fresh c i pt mid actor at) db)"

definition perform_all :: "'u repo_env \<Rightarrow> 'u crawler_op list \<Rightarrow> 'u crawler_db \<Rightarrow> 'u crawler_db" where
  "perform_all env = fold (write_op env)"

lemma run_tx_relation:
  assumes "\<And>x db'. body db = Inr (x, db') \<Longrightarrow> R db'" "R db"
  shows "R (snd (run_tx body db))"
  using assms by (auto simp: run_tx_def split: sum.splits)

lemma policies_keep_published:
  "update_canonicalization_policy env fresh c i policy actor at db = Inr (v, db') \<Longrightarrow> keeps_published db db'"
  "update_domain_scope_policy env fresh c i scope actor at db = Inr (v, db') \<Longrightarrow> keeps_published db db'"
  "update_crawler_version_guardrails env fresh c i guardrails actor at db = Inr (v, db') \<Longrightarrow> keeps_published db db'"
  by (auto simp: update_canonicalization_policy_def update_domain_scope_policy_def update_crawler_version_guardrails_def
      result_simps intro: authoring_keeps_published)

lemmas operations_keep_published = drafts_keep_published(1,2) save_draft_keeps lifecycle_keeps_published
  authoring_keeps_published(2-) policies_keep_published

lemma write_op_keeps_published: "keeps_published db (write_op env a db)"
  by (cases a; simp only: write_op.simps; rule run_tx_relation [where R = "keeps_published db"];
      (rule keeps_published_refl | erule operations_keep_published))

lemma perform_all_keeps_published: "keeps_published db (perform_all env ops db)"
  unfolding perform_all_def
  by (induction ops arbitrary: db) (auto intro: keeps_published_trans write_op_keeps_published)

lemma empty_tables_ok: "tables_ok empty_crawler_db"
  by (simp add: tables_ok_def empty_crawler_db_def)

text \<open>The published versions with everything stored for them.\<close>

definition published_views :: "'u crawler_db \<Rightarrow> CrawlerVersionId \<rightharpoonup> 'u version_view" where
  "published_views db i = (if version_state db i = Some Published then Some (view db i) else None)"

text \<open>
  C11. Once a version is published, nothing the repository does changes it: after any further operations,
  with any arguments, it is still published, and its configuration, seeds, page types, matchers and
  transitions are the same rows.
\<close>
theorem published_rows_immutable:
  "published_views (perform_all env before empty_crawler_db)
     \<subseteq>\<^sub>m published_views (perform_all env (before @ after) empty_crawler_db)"
proof -
  have "tables_ok (perform_all env before empty_crawler_db)"
    using perform_all_keeps_published [of empty_crawler_db env before] by (simp add: keeps_published_def empty_tables_ok)
  moreover have "keeps_published (perform_all env before empty_crawler_db) (perform_all env (before @ after) empty_crawler_db)"
    using perform_all_keeps_published [of _ env after] by (simp add: perform_all_def)
  ultimately show ?thesis
    by (auto simp: keeps_published_def map_le_def published_views_def version_state_view split: if_splits)
qed

end
