(* ===== verification/Crawler_Edits.thy ===== *)
theory Crawler_Edits
  imports Crawler_Safety
begin

text \<open>
  The authoring operations on the active draft: each changes only rows of that draft and leaves the
  draft consistent with its configuration.
\<close>

lemma loaded_draft:
  assumes "tables_ok db" "load_mutation_version env db c i = Inr v"
  obtains r where "bm_lookup (db_versions db) i = Some r" "vr_state r = Draft" "c = vr_crawler_id r"
    "r\<lparr>vr_configuration := v\<rparr> = r" "cv_id v = i" "cv_state v = Draft" "cv_crawler_id v = vr_crawler_id r"
    "seeds_consistent env (seeds_of db i) v" "distinct (cv_page_type_ids v)" "dom (pages_of db i) = set (cv_page_type_ids v)"
    "transitions_consistent (view db i) v"
proof -
  from load_mutation_version_Inr [OF assms] obtain r where r: "bm_lookup (db_versions db) i = Some r" "vr_configuration r = v"
    "vr_state r = Draft" "c = vr_crawler_id r" "cv_id v = i" "cv_state v = Draft" "cv_crawler_id v = vr_crawler_id r"
    "seeds_consistent env (seeds_of db i) v" "pages_consistent env (view db i) v" "transitions_consistent (view db i) v" by metis
  then have "r\<lparr>vr_configuration := v\<rparr> = r" by auto
  with r show thesis by (intro that) (simp_all add: pages_consistent_def view_def)
qed

text \<open>The digest of the edit needs no other child rows than those of the draft.\<close>

lemmas edit_simps = keep_tables bm_insert_lookup update_version_configuration_Inr row_statements

section \<open>Transitions\<close>

lemma create_transition_edit:
  assumes "tables_ok db" "create_discovery_transition env fresh c i t actor at db = Inr (u, db')"
  shows "draft_edit env i db db'"
proof -
  from assms(2) obtain v v1 db1 db2 where v: "load_mutation_version env db c i = Inr v"
    and v1: "set_transition_ids (cv_transition_ids v @ [tr_id t]) v = Inr v1"
    and db1: "insert_transition_row (tr_id t) \<lparr>tw_version_id = i, tw_transition = t\<rparr> db = Inr db1"
    and db2: "update_version_configuration v1 db1 = Inr db2"
    and audit: "insert_semantic_mutation_audit env fresh ''DISCOVERY_TRANSITION_CREATED'' actor at v1 (tr_id t) db2 = Inr db'"
    by (auto simp: create_discovery_transition_def result_simps split: if_splits)
  from assms(1) v obtain r where r: "bm_lookup (db_versions db) i = Some r" "vr_state r = Draft" "c = vr_crawler_id r"
    "r\<lparr>vr_configuration := v\<rparr> = r" "cv_id v = i" "cv_state v = Draft" "cv_crawler_id v = vr_crawler_id r"
    "seeds_consistent env (seeds_of db i) v" "distinct (cv_page_type_ids v)" "dom (pages_of db i) = set (cv_page_type_ids v)"
    "transitions_consistent (view db i) v" by (rule loaded_draft)
  from v1 r have v1: "v1 = v\<lparr>cv_transition_ids := cv_transition_ids v @ [tr_id t]\<rparr>" by (simp add: edit_defs result_simps)
  from db1 have fresh: "bm_lookup (db_transitions db) (tr_id t) = None"
    and db1: "db1 = db\<lparr>db_transitions := bm_insert (tr_id t) \<lparr>tw_version_id = i, tw_transition = t\<rparr> (db_transitions db)\<rparr>"
    by (simp_all add: row_statements)
  from db2 r(1,5) have db2: "db2 = db1\<lparr>db_versions := bm_insert i (r\<lparr>vr_configuration := v1\<rparr>) (db_versions db1)\<rparr>"
    by (simp add: update_version_configuration_Inr v1 db1)
  have "edits i db db1" unfolding db1 by (rule edits_transitions(1)) (simp_all add: fresh)
  moreover have "edits i db1 db2" unfolding db2 by (rule edits_versions)
  ultimately have "edits i db db2" by (rule edits_trans)
  with r assms(1) seeds_consistent_cong [OF r(8), of v1] show ?thesis
    by (intro finish_edit [OF audit]) (simp_all add: db1 db2 v1 edit_simps)
qed

lemma update_transition_edit:
  assumes "tables_ok db" "update_discovery_transition env fresh c i tid t actor at db = Inr (u, db')"
  shows "draft_edit env i db db'"
proof -
  from assms(2) obtain v db1 where v: "load_mutation_version env db c i = Inr v"
    and db1: "update_transition_row tid i t db = Inr (Suc 0, db1)"
    and audit: "insert_semantic_mutation_audit env fresh ''DISCOVERY_TRANSITION_UPDATED'' actor at v tid db1 = Inr db'"
    by (auto simp: update_discovery_transition_def result_simps split: if_splits)
  from assms(1) v obtain r where r: "bm_lookup (db_versions db) i = Some r" "vr_state r = Draft" "c = vr_crawler_id r"
    "r\<lparr>vr_configuration := v\<rparr> = r" "cv_id v = i" "cv_state v = Draft" "cv_crawler_id v = vr_crawler_id r"
    "seeds_consistent env (seeds_of db i) v" "distinct (cv_page_type_ids v)" "dom (pages_of db i) = set (cv_page_type_ids v)"
    "transitions_consistent (view db i) v" by (rule loaded_draft)
  from db1 obtain w where w: "bm_lookup (db_transitions db) tid = Some w" "tw_version_id w = i"
    and db1: "db1 = db\<lparr>db_transitions := bm_insert tid (w\<lparr>tw_transition := t\<rparr>) (db_transitions db)\<rparr>"
    by (auto simp: row_statements)
  have "edits i db db1" unfolding db1 by (rule edits_transitions(1)) (use w in simp_all)
  with r assms(1) show ?thesis by (intro finish_edit [OF audit]) (simp_all add: db1 edit_simps)
qed

lemma delete_transition_edit:
  assumes "tables_ok db" "delete_discovery_transition env fresh c i tid actor at db = Inr (u, db')"
  shows "draft_edit env i db db'"
proof -
  from assms(2) obtain v v1 db1 db2 where v: "load_mutation_version env db c i = Inr v"
    and v1: "set_transition_ids (filter (\<lambda>t. t \<noteq> tid) (cv_transition_ids v)) v = Inr v1"
    and db1: "delete_transition_row tid i db = Inr (Suc 0, db1)"
    and db2: "update_version_configuration v1 db1 = Inr db2"
    and audit: "insert_semantic_mutation_audit env fresh ''DISCOVERY_TRANSITION_DELETED'' actor at v1 tid db2 = Inr db'"
    by (auto simp: delete_discovery_transition_def result_simps split: if_splits)
  from assms(1) v obtain r where r: "bm_lookup (db_versions db) i = Some r" "vr_state r = Draft" "c = vr_crawler_id r"
    "r\<lparr>vr_configuration := v\<rparr> = r" "cv_id v = i" "cv_state v = Draft" "cv_crawler_id v = vr_crawler_id r"
    "seeds_consistent env (seeds_of db i) v" "distinct (cv_page_type_ids v)" "dom (pages_of db i) = set (cv_page_type_ids v)"
    "transitions_consistent (view db i) v" by (rule loaded_draft)
  from v1 r have v1: "v1 = v\<lparr>cv_transition_ids := filter (\<lambda>t. t \<noteq> tid) (cv_transition_ids v)\<rparr>"
    by (simp add: edit_defs result_simps)
  from db1 obtain w where w: "bm_lookup (db_transitions db) tid = Some w" "tw_version_id w = i"
    and db1: "db1 = db\<lparr>db_transitions := bm_remove tid (db_transitions db)\<rparr>"
    by (auto simp: row_statements)
  from db2 r(1,5) have db2: "db2 = db1\<lparr>db_versions := bm_insert i (r\<lparr>vr_configuration := v1\<rparr>) (db_versions db1)\<rparr>"
    by (simp add: update_version_configuration_Inr v1 db1)
  have "edits i db db1" unfolding db1 by (rule edits_transitions(2)) (use w in simp_all)
  moreover have "edits i db1 db2" unfolding db2 by (rule edits_versions)
  ultimately have "edits i db db2" by (rule edits_trans)
  with r assms(1) seeds_consistent_cong [OF r(8), of v1] show ?thesis
    by (intro finish_edit [OF audit]) (simp_all add: db1 db2 v1 edit_simps)
qed

section \<open>Page types\<close>

lemma pages_of_insert:
  "pages_of (db\<lparr>db_page_types := bm_insert k w (db_page_types db)\<rparr>) i
     = (pages_of db i)(k := if pg_version_id w = i then Some w else None)"
  by (simp add: pages_of_def rows_of_insert)

lemma pages_of_remove:
  "pages_of (db\<lparr>db_page_types := bm_remove k (db_page_types db)\<rparr>) i = (pages_of db i)(k := None)"
  by (simp add: pages_of_def rows_of_remove)

lemma matchers_owned_insert:
  "matchers_owned db \<Longrightarrow> matchers_owned (db\<lparr>db_page_types := bm_insert k w (db_page_types db)\<rparr>)"
  by (auto simp: matchers_owned_def bm_insert_lookup)

lemma pages_of_Some: "bm_lookup (db_page_types db) k = Some w \<Longrightarrow> pg_version_id w = i \<Longrightarrow> pages_of db i k = Some w"
  by (simp add: pages_of_def)

lemma create_page_type_edit:
  assumes "tables_ok db" "create_page_type env fresh pt c i name prio actor at db = Inr (u, db')"
  shows "draft_edit env i db db'"
proof -
  let ?row = "\<lparr>pg_version_id = i, pg_name = name, pg_priority = prio, pg_configuration = JObject []\<rparr>"
  from assms(2) obtain v v1 db1 db2 where v: "load_mutation_version env db c i = Inr v"
    and v1: "set_page_type_ids (cv_page_type_ids v @ [pt]) v = Inr v1"
    and db1: "insert_page_type_row pt ?row db = Inr db1"
    and db2: "update_version_configuration v1 db1 = Inr db2"
    and audit: "insert_semantic_mutation_audit env fresh ''PAGE_TYPE_CREATED'' actor at v1 pt db2 = Inr db'"
    by (auto simp: create_page_type_def result_simps split: if_splits)
  from assms(1) v obtain r where r: "bm_lookup (db_versions db) i = Some r" "vr_state r = Draft" "c = vr_crawler_id r"
    "r\<lparr>vr_configuration := v\<rparr> = r" "cv_id v = i" "cv_state v = Draft" "cv_crawler_id v = vr_crawler_id r"
    "seeds_consistent env (seeds_of db i) v" "distinct (cv_page_type_ids v)" "dom (pages_of db i) = set (cv_page_type_ids v)"
    "transitions_consistent (view db i) v" by (rule loaded_draft)
  from v1 r have v1: "v1 = v\<lparr>cv_page_type_ids := cv_page_type_ids v @ [pt]\<rparr>" by (simp add: edit_defs result_simps split: if_splits)
  from db1 have fresh: "bm_lookup (db_page_types db) pt = None"
    and db1: "db1 = db\<lparr>db_page_types := bm_insert pt ?row (db_page_types db)\<rparr>"
    by (simp_all add: row_statements)
  from db2 r(1,5) have db2: "db2 = db1\<lparr>db_versions := bm_insert i (r\<lparr>vr_configuration := v1\<rparr>) (db_versions db1)\<rparr>"
    by (simp add: update_version_configuration_Inr v1 db1)
  have "edits i db db1" unfolding db1 by (rule edits_pages(1)) (simp_all add: fresh)
  moreover have "edits i db1 db2" unfolding db2 by (rule edits_versions)
  ultimately have edits: "edits i db db2" by (rule edits_trans)
  have "pages_of db i pt = None" using fresh by (simp add: pages_of_def rows_of_def)
  with r(10) have "pt \<notin> set (cv_page_type_ids v)" by (metis domIff)
  with edits r assms(1) seeds_consistent_cong [OF r(8), of v1] show ?thesis
    by (intro finish_edit [OF audit])
      (auto simp: db1 db2 v1 edit_simps pages_of_insert intro: matchers_owned_insert)
qed

lemma update_page_type_edit:
  assumes "tables_ok db" "update_page_type env fresh c i pt name prio actor at db = Inr (u, db')"
  shows "draft_edit env i db db'"
proof -
  from assms(2) obtain v db1 where v: "load_mutation_version env db c i = Inr v"
    and db1: "update_page_type_row pt i name prio db = Inr (Suc 0, db1)"
    and audit: "insert_semantic_mutation_audit env fresh ''PAGE_TYPE_UPDATED'' actor at v pt db1 = Inr db'"
    by (auto simp: update_page_type_def result_simps split: if_splits)
  from assms(1) v obtain r where r: "bm_lookup (db_versions db) i = Some r" "vr_state r = Draft" "c = vr_crawler_id r"
    "r\<lparr>vr_configuration := v\<rparr> = r" "cv_id v = i" "cv_state v = Draft" "cv_crawler_id v = vr_crawler_id r"
    "seeds_consistent env (seeds_of db i) v" "distinct (cv_page_type_ids v)" "dom (pages_of db i) = set (cv_page_type_ids v)"
    "transitions_consistent (view db i) v" by (rule loaded_draft)
  from db1 obtain w where w: "bm_lookup (db_page_types db) pt = Some w" "pg_version_id w = i"
    and db1: "db1 = db\<lparr>db_page_types := bm_insert pt (w\<lparr>pg_name := name, pg_priority := prio\<rparr>) (db_page_types db)\<rparr>"
    by (auto simp: row_statements)
  have "edits i db db1" unfolding db1 by (rule edits_pages(1)) (use w in simp_all)
  moreover have "pt \<in> set (cv_page_type_ids v)" using r(10) pages_of_Some [OF w] by auto
  ultimately show ?thesis using r w(2) assms(1)
    by (intro finish_edit [OF audit]) (auto simp: db1 edit_simps pages_of_insert intro: matchers_owned_insert)
qed

text \<open>A page type in use is not deleted, so no seed of the draft loses its hint.\<close>

lemma unused_hints:
  assumes "seeds_consistent env (seeds_of db (cv_id v)) v" "\<not> page_type_is_in_use db v p"
    and "s \<in> set (cv_seeds v)"
  shows "entry_page_type_hint s \<noteq> Some p"
proof
  assume hint: "entry_page_type_hint s = Some p"
  have "map_of (map (\<lambda>s. (seed_id s, seed_projection env s)) (cv_seeds v)) (seed_id s) = Some (seed_projection env s)"
    using assms(1,3) by (intro map_of_is_SomeI) (auto simp: seeds_consistent_def o_def)
  with assms(1) have "map_option sr_projection (seeds_of db (cv_id v) (seed_id s)) = Some (seed_projection env s)"
    by (simp add: seeds_consistent_def)
  then obtain w where "bm_lookup (db_seeds db) (seed_id s) = Some w" "sr_version_id w = cv_id v"
    "se_entry_page_type_hint (sr_projection w) = Some p"
    by (auto simp: seeds_of_def seed_projection_def hint)
  then have "page_type_is_in_use db v p"
    using bm_lookup_mem [of "db_seeds db" "seed_id s" w]
    by (auto simp: page_type_is_in_use_def list_ex_iff)
  with assms(2) show False ..
qed

lemma delete_page_type_edit:
  assumes "tables_ok db" "delete_page_type env fresh c i pt actor at db = Inr (u, db')"
  shows "draft_edit env i db db'"
proof -
  let ?free = "filter (\<lambda>(_, m). ma_page_type_id m \<noteq> pt) (db_matchers db)"
  from assms(2) obtain v v1 db1 db2 db3 where v: "load_mutation_version env db c i = Inr v"
    and owner: "ensure_page_type_belongs_to_version db i pt = Inr ()"
    and unused: "\<not> page_type_is_in_use db v pt"
    and v1: "set_page_type_ids (filter (\<lambda>p. p \<noteq> pt) (cv_page_type_ids v)) v = Inr v1"
    and db1: "delete_matcher_rows pt db = Inr db1"
    and db2: "delete_page_type_row pt i db1 = Inr (Suc 0, db2)"
    and db3: "update_version_configuration v1 db2 = Inr db3"
    and audit: "insert_semantic_mutation_audit env fresh ''PAGE_TYPE_DELETED'' actor at v1 pt db3 = Inr db'"
    by (auto simp: delete_page_type_def result_simps split: if_splits)
  from assms(1) v obtain r where r: "bm_lookup (db_versions db) i = Some r" "vr_state r = Draft" "c = vr_crawler_id r"
    "r\<lparr>vr_configuration := v\<rparr> = r" "cv_id v = i" "cv_state v = Draft" "cv_crawler_id v = vr_crawler_id r"
    "seeds_consistent env (seeds_of db i) v" "distinct (cv_page_type_ids v)" "dom (pages_of db i) = set (cv_page_type_ids v)"
    "transitions_consistent (view db i) v" by (rule loaded_draft)
  from v1 r have v1: "v1 = v\<lparr>cv_page_type_ids := filter (\<lambda>p. p \<noteq> pt) (cv_page_type_ids v)\<rparr>"
    by (simp add: edit_defs result_simps split: if_splits)
  from db1 have db1: "db1 = db\<lparr>db_matchers := ?free\<rparr>" by (simp add: row_statements)
  from db2 db1 obtain w where w: "bm_lookup (db_page_types db) pt = Some w" "pg_version_id w = i"
    and db2: "db2 = db1\<lparr>db_page_types := bm_remove pt (db_page_types db1)\<rparr>"
    by (auto simp: row_statements)
  from db3 r(1,5) have db3: "db3 = db2\<lparr>db_versions := bm_insert i (r\<lparr>vr_configuration := v1\<rparr>) (db_versions db2)\<rparr>"
    by (simp add: update_version_configuration_Inr v1 db1 db2)
  have only: "j = i" if "pages_of db j pt \<noteq> None" for j using that w by (auto simp: pages_of_def)
  have "edits i db db1" unfolding db1 using assms(1) only by (rule edits_matcher_rows)
  moreover have "edits i db1 db2" unfolding db2 by (rule edits_pages(2)) (use w in \<open>simp_all add: db1\<close>)
  moreover have "edits i db2 db3" unfolding db3 by (rule edits_versions)
  ultimately have edits: "edits i db db3" by (meson edits_trans)
  have "hints_owned v1"
    using r(8) unused_hints [of env db v pt] unused r(5) by (auto simp: hints_owned_def v1 seeds_consistent_def)
  with r(8) have seeds: "seeds_consistent env (seeds_of db i) v1" by (simp add: seeds_consistent_def v1)
  have owned: "matchers_owned db3" if "matchers_owned db"
    using that by (auto simp: matchers_owned_def db1 db2 db3 bm_lookup_remove bm_lookup_filter [OF tables_invar(5) [OF assms(1)]]
        split: option.splits if_splits)
  have "pages_of db3 i = (pages_of db i)(pt := None)" by (simp add: db1 db2 db3 pages_of_def rows_of_remove)
  with r(10) have "dom (pages_of db3 i) = set (cv_page_type_ids v1)" by (auto simp: v1)
  with edits r seeds owned assms(1) show ?thesis
    by (intro finish_edit [OF audit]) (simp_all add: db1 db2 db3 v1 edit_simps)
qed

section \<open>URL matchers\<close>

lemma create_matcher_edit:
  assumes "tables_ok db" "create_url_matcher env fresh mid c i pt matcher actor at db = Inr (n, db')"
  shows "draft_edit env i db db'"
proof -
  from assms(2) obtain v db1 where v: "load_mutation_version env db c i = Inr v"
    and owner: "ensure_page_type_belongs_to_version db i pt = Inr ()"
    and db1: "insert_matcher_row mid \<lparr>ma_page_type_id = pt, ma_ordinal = next_ordinal db pt, ma_matcher = matcher\<rparr> db = Inr db1"
    and audit: "insert_semantic_mutation_audit env fresh ''URL_MATCHER_CREATED'' actor at v mid db1 = Inr db'"
    by (auto simp: create_url_matcher_def result_simps Let_def split: if_splits)
  from assms(1) v obtain r where r: "bm_lookup (db_versions db) i = Some r" "vr_state r = Draft" "c = vr_crawler_id r"
    "r\<lparr>vr_configuration := v\<rparr> = r" "cv_id v = i" "cv_state v = Draft" "cv_crawler_id v = vr_crawler_id r"
    "seeds_consistent env (seeds_of db i) v" "distinct (cv_page_type_ids v)" "dom (pages_of db i) = set (cv_page_type_ids v)"
    "transitions_consistent (view db i) v" by (rule loaded_draft)
  from db1 have fresh: "bm_lookup (db_matchers db) mid = None" and page: "bm_lookup (db_page_types db) pt \<noteq> None"
    and db1: "db1 = db\<lparr>db_matchers := bm_insert mid \<lparr>ma_page_type_id = pt, ma_ordinal = next_ordinal db pt, ma_matcher = matcher\<rparr> (db_matchers db)\<rparr>"
    by (simp_all add: row_statements)
  have only: "j = i" if "pages_of db j pt \<noteq> None" for j
    using that owner by (auto simp: ensure_page_type_iff pages_of_def)
  have "edits i db db1" unfolding db1 by (rule edits_matchers(1)) (use only in \<open>simp_all add: fresh\<close>)
  moreover have "matchers_owned db1" if "matchers_owned db" using that page by (auto simp: matchers_owned_def db1 bm_insert_lookup)
  ultimately show ?thesis using r assms(1) by (intro finish_edit [OF audit]) (simp_all add: db1 edit_simps)
qed

lemma update_matcher_edit:
  assumes "tables_ok db" "update_url_matcher env fresh c i pt mid matcher actor at db = Inr (u, db')"
  shows "draft_edit env i db db'"
proof -
  from assms(2) obtain v db1 where v: "load_mutation_version env db c i = Inr v"
    and owner: "ensure_page_type_belongs_to_version db i pt = Inr ()"
    and db1: "update_matcher_row mid pt matcher db = Inr (Suc 0, db1)"
    and audit: "insert_semantic_mutation_audit env fresh ''URL_MATCHER_UPDATED'' actor at v mid db1 = Inr db'"
    by (auto simp: update_url_matcher_def result_simps split: if_splits)
  from assms(1) v obtain r where r: "bm_lookup (db_versions db) i = Some r" "vr_state r = Draft" "c = vr_crawler_id r"
    "r\<lparr>vr_configuration := v\<rparr> = r" "cv_id v = i" "cv_state v = Draft" "cv_crawler_id v = vr_crawler_id r"
    "seeds_consistent env (seeds_of db i) v" "distinct (cv_page_type_ids v)" "dom (pages_of db i) = set (cv_page_type_ids v)"
    "transitions_consistent (view db i) v" by (rule loaded_draft)
  from db1 obtain m where m: "bm_lookup (db_matchers db) mid = Some m" "ma_page_type_id m = pt"
    and db1: "db1 = db\<lparr>db_matchers := bm_insert mid (m\<lparr>ma_matcher := matcher\<rparr>) (db_matchers db)\<rparr>"
    by (auto simp: row_statements)
  have only: "j = i" if "pages_of db j pt \<noteq> None" for j
    using that owner by (auto simp: ensure_page_type_iff pages_of_def)
  have "edits i db db1" unfolding db1 by (rule edits_matchers(1)) (use only m in auto)
  moreover have "matchers_owned db1" if "matchers_owned db" using that m by (auto simp: matchers_owned_def db1 bm_insert_lookup)
  ultimately show ?thesis using r assms(1) by (intro finish_edit [OF audit]) (simp_all add: db1 edit_simps)
qed

lemma delete_matcher_edit:
  assumes "tables_ok db" "delete_url_matcher env fresh c i pt mid actor at db = Inr (u, db')"
  shows "draft_edit env i db db'"
proof -
  from assms(2) obtain v db1 where v: "load_mutation_version env db c i = Inr v"
    and owner: "ensure_page_type_belongs_to_version db i pt = Inr ()"
    and db1: "delete_matcher_row mid pt db = Inr (Suc 0, db1)"
    and audit: "insert_semantic_mutation_audit env fresh ''URL_MATCHER_DELETED'' actor at v mid db1 = Inr db'"
    by (auto simp: delete_url_matcher_def result_simps split: if_splits)
  from assms(1) v obtain r where r: "bm_lookup (db_versions db) i = Some r" "vr_state r = Draft" "c = vr_crawler_id r"
    "r\<lparr>vr_configuration := v\<rparr> = r" "cv_id v = i" "cv_state v = Draft" "cv_crawler_id v = vr_crawler_id r"
    "seeds_consistent env (seeds_of db i) v" "distinct (cv_page_type_ids v)" "dom (pages_of db i) = set (cv_page_type_ids v)"
    "transitions_consistent (view db i) v" by (rule loaded_draft)
  from db1 obtain m where m: "bm_lookup (db_matchers db) mid = Some m" "ma_page_type_id m = pt"
    and db1: "db1 = db\<lparr>db_matchers := bm_remove mid (db_matchers db)\<rparr>"
    by (auto simp: row_statements)
  have only: "j = i" if "pages_of db j pt \<noteq> None" for j
    using that owner by (auto simp: ensure_page_type_iff pages_of_def)
  have "edits i db db1" unfolding db1 by (rule edits_matchers(2)) (use only m in auto)
  moreover have "matchers_owned db1" if "matchers_owned db" using that by (auto simp: matchers_owned_def db1 bm_lookup_remove)
  ultimately show ?thesis using r assms(1) by (intro finish_edit [OF audit]) (simp_all add: db1 edit_simps)
qed

lemma policy_edit:
  assumes "tables_ok db"
  shows "update_canonicalization_policy env fresh c i policy actor at db = Inr (v, db') \<Longrightarrow> draft_edit env i db db'"
    and "update_domain_scope_policy env fresh c i scope actor at db = Inr (v, db') \<Longrightarrow> draft_edit env i db db'"
    and "update_crawler_version_guardrails env fresh c i guardrails actor at db = Inr (v, db') \<Longrightarrow> draft_edit env i db db'"
  by (auto simp: update_canonicalization_policy_def update_domain_scope_policy_def update_crawler_version_guardrails_def
      result_simps intro: update_semantic_version_edit [OF assms policy_updates(1)]
        update_semantic_version_edit [OF assms policy_updates(2)] update_semantic_version_edit [OF assms policy_updates(3)])

lemmas draft_edits = create_transition_edit update_transition_edit delete_transition_edit create_page_type_edit
  update_page_type_edit delete_page_type_edit create_matcher_edit update_matcher_edit delete_matcher_edit policy_edit

end
