(* ===== verification/Crawler_History.thy ===== *)
theory Crawler_History
  imports Crawler_Edits
begin

text \<open>
  The consistency of the crawler tables over any history of operations: creating drafts, publishing,
  cloning and reactivating keep it, as the edits of a draft do; saving a draft as a whole keeps every
  version sound, and publishing it requires that it became consistent.
\<close>

section \<open>Seeds\<close>

definition seed_row :: "'u repo_env \<Rightarrow> CrawlerVersionId \<Rightarrow> 'u Seed \<Rightarrow> SeedRow" where
  "seed_row env i s = \<lparr>sr_version_id = i, sr_projection = seed_projection env s\<rparr>"

lemma insert_seeds_Inr:
  assumes "insert_seeds env i ss db = Inr db'" "tables_ok db"
  obtains t where "db' = db\<lparr>db_seeds := t\<rparr>" "bm_invar t" "edits i db db'" "distinct (map seed_id ss)"
    "\<And>k. bm_lookup t k = (case map_of (map (\<lambda>s. (seed_id s, seed_row env i s)) ss) k of
        None \<Rightarrow> bm_lookup (db_seeds db) k | Some r \<Rightarrow> Some r)"
    "\<And>s. s \<in> set ss \<Longrightarrow> bm_lookup (db_seeds db) (seed_id s) = None"
  using assms
proof (induction ss arbitrary: db thesis)
  case Nil
  from Nil.prems(1) [of "db_seeds db"] Nil.prems(2,3) show ?case by (simp add: tables_invar)
next
  case (Cons s ss)
  define db1 where "db1 = db\<lparr>db_seeds := bm_insert (seed_id s) (seed_row env i s) (db_seeds db)\<rparr>"
  from Cons.prems(2) have first: "bm_lookup (db_seeds db) (seed_id s) = None" and rest: "insert_seeds env i ss db1 = Inr db'"
    by (auto simp: result_simps row_statements seed_row_def db1_def)
  have "tables_ok db1" using Cons.prems(3) by (simp add: db1_def keep_tables)
  from Cons.IH [OF _ rest this] obtain t where t: "db' = db1\<lparr>db_seeds := t\<rparr>" "bm_invar t" "edits i db1 db'" "distinct (map seed_id ss)"
    "\<And>k. bm_lookup t k = (case map_of (map (\<lambda>s. (seed_id s, seed_row env i s)) ss) k of
        None \<Rightarrow> bm_lookup (db_seeds db1) k | Some r \<Rightarrow> Some r)"
    "\<And>s. s \<in> set ss \<Longrightarrow> bm_lookup (db_seeds db1) (seed_id s) = None"
    by blast
  have "edits i db db1" unfolding db1_def by (rule edits_seeds(1)) (simp_all add: first seed_row_def)
  with t(3) have edits: "edits i db db'" by (blast intro: edits_trans)
  have fresh: "seed_id s' \<noteq> seed_id s \<and> bm_lookup (db_seeds db) (seed_id s') = None" if "s' \<in> set ss" for s'
    using t(6) [OF that] by (auto simp: db1_def bm_insert_lookup split: if_splits)
  then have out: "seed_id s \<notin> seed_id ` set ss" by (metis imageE)
  have none: "map_of (map (\<lambda>s. (seed_id s, seed_row env i s)) ss) (seed_id s) = None"
    using out by (auto simp: map_of_eq_None_iff)
  show ?case
  proof (rule Cons.prems(1))
    show "db' = db\<lparr>db_seeds := t\<rparr>" using t(1) by (simp add: db1_def)
    show "distinct (map seed_id (s # ss))" using t(4) out by simp
    show "bm_lookup t k = (case map_of (map (\<lambda>s. (seed_id s, seed_row env i s)) (s # ss)) k of
        None \<Rightarrow> bm_lookup (db_seeds db) k | Some r \<Rightarrow> Some r)" for k
      using t(5) [of k] none by (auto simp: db1_def bm_insert_lookup split: option.split)
    show "bm_lookup (db_seeds db) (seed_id s') = None" if "s' \<in> set (s # ss)" for s'
      using that first fresh by auto
  qed (fact edits t(2))+
qed

lemma sync_seeds_Inr:
  assumes "sync_seed_rows env v db = Inr db'" "tables_ok db"
  obtains t where "db' = db\<lparr>db_seeds := t\<rparr>" "bm_invar t" "edits (cv_id v) db db'"
    "seed_rows_of env (seeds_of db' (cv_id v)) v"
proof -
  let ?i = "cv_id v" and ?kept = "filter (\<lambda>(k, r). sr_version_id r \<noteq> cv_id v) (db_seeds db)"
  define db1 where "db1 = db\<lparr>db_seeds := ?kept\<rparr>"
  from assms(1) have rest: "insert_seeds env ?i (cv_seeds v) db1 = Inr db'"
    by (auto simp: sync_seed_rows_def result_simps row_statements db1_def)
  have tables: "tables_ok db1" using assms(2) by (simp add: db1_def keep_tables)
  obtain t where t: "db' = db1\<lparr>db_seeds := t\<rparr>" "bm_invar t" "edits ?i db1 db'" "distinct (map seed_id (cv_seeds v))"
    "\<And>k. bm_lookup t k = (case map_of (map (\<lambda>s. (seed_id s, seed_row env ?i s)) (cv_seeds v)) k of
        None \<Rightarrow> bm_lookup (db_seeds db1) k | Some r \<Rightarrow> Some r)"
    by (rule insert_seeds_Inr [OF rest tables]) simp
  have "edits ?i db db1" unfolding db1_def using assms(2) by (rule edits_seeds(2))
  with t(3) have edits: "edits ?i db db'" by (blast intro: edits_trans)
  have kept: "bm_lookup (db_seeds db1) k = (case bm_lookup (db_seeds db) k of None \<Rightarrow> None
      | Some r \<Rightarrow> if sr_version_id r \<noteq> ?i then Some r else None)" for k
    using bm_lookup_filter [OF tables_invar(3) [OF assms(2)], of "\<lambda>k r. sr_version_id r \<noteq> ?i" k] by (simp add: db1_def)
  have rows: "seeds_of db' ?i k = map_of (map (\<lambda>s. (seed_id s, seed_row env ?i s)) (cv_seeds v)) k" for k
  proof (cases "map_of (map (\<lambda>s. (seed_id s, seed_row env ?i s)) (cv_seeds v)) k")
    case None
    with t(5) [of k] show ?thesis by (auto simp: seeds_of_def rows_of_def t(1) kept split: option.split)
  next
    case (Some r)
    then have "sr_version_id r = ?i" by (auto dest!: map_of_SomeD simp: seed_row_def)
    with Some t(5) [of k] show ?thesis by (simp add: seeds_of_def rows_of_def t(1))
  qed
  have projected: "map_option sr_projection (map_of (map (\<lambda>s. (seed_id s, seed_row env ?i s)) ss) k)
      = map_of (map (\<lambda>s. (seed_id s, seed_projection env s)) ss) k" for ss k
    by (induction ss) (auto simp: seed_row_def)
  have "seed_rows_of env (seeds_of db' ?i) v"
    using t(4) by (simp add: seed_rows_of_def rows projected)
  moreover have "db' = db\<lparr>db_seeds := t\<rparr>" using t(1) by (simp add: db1_def)
  ultimately show thesis using t(2) edits that by blast
qed

section \<open>Drafts\<close>

lemma pointer_ok_unrelated [simp]:
  "pointer_ok (db\<lparr>db_crawlers := t1\<rparr>) c s p = pointer_ok db c s p" "pointer_ok (db\<lparr>db_seeds := t2\<rparr>) c s p = pointer_ok db c s p"
  "pointer_ok (db\<lparr>db_page_types := t3\<rparr>) c s p = pointer_ok db c s p" "pointer_ok (db\<lparr>db_matchers := t4\<rparr>) c s p = pointer_ok db c s p"
  "pointer_ok (db\<lparr>db_transitions := t5\<rparr>) c s p = pointer_ok db c s p" "pointer_ok (db\<lparr>db_audit := t6\<rparr>) c s p = pointer_ok db c s p"
  "pointer_ok db c s None"
  by (simp_all add: pointer_ok_def split: option.split)

lemma create_crawler_repo_ok:
  assumes "repo_ok env loose db" "create_crawler c db = Inr (u, db')"
  shows "repo_ok env loose db'"
proof -
  define row where "row = c\<lparr>crawler_collection_id := None, active_published_version_id := None, active_draft_version_id := None\<rparr>"
  from assms(2) have fresh: "bm_lookup (db_crawlers db) (crawler_id c) = None"
    and row: "crawler_id row = crawler_id c" "active_draft_version_id row = None" "active_published_version_id row = None"
    and db': "db' = db\<lparr>db_crawlers := bm_insert (crawler_id c) row (db_crawlers db)\<rparr>"
    by (auto simp: create_crawler_def insert_crawler_row_def result_simps row_def)
  from assms(1) fresh have "vr_crawler_id r \<noteq> crawler_id c" if "bm_lookup (db_versions db) i = Some r" for i r
    using that unfolding repo_ok_def pointers_ok_def by (metis option.distinct(1))
  with assms(1) row have "pointers_ok db'"
    by (auto simp: repo_ok_def pointers_ok_def db' bm_insert_lookup)
  with assms(1) show ?thesis by (simp add: repo_ok_def db' keep_tables matchers_owned_def published_version_def)
qed

text \<open>A draft that is saved as a whole may name other child rows than those that are stored.\<close>

definition coherent :: "'u crawler_db \<Rightarrow> 'u CrawlerVersion \<Rightarrow> bool" where
  "coherent db v \<longleftrightarrow> names_rows (view db (cv_id v)) v"

lemma fresh_view:
  assumes "repo_ok env loose db" "bm_lookup (db_versions db) i = None"
  shows "seeds_of db i = Map.empty" "pages_of db i = Map.empty" "transitions_of db i = Map.empty" "matchers_of db i = Map.empty"
proof -
  from assms have "version_sound env (view db i) i" by (simp add: repo_ok_def)
  with assms(2) show e: "seeds_of db i = Map.empty" "pages_of db i = Map.empty" "transitions_of db i = Map.empty"
    by (simp_all add: version_sound_def view_def)
  from e(2) show "matchers_of db i = Map.empty" by (auto simp: matchers_of_def rows_of_def split: option.split)
qed

text \<open>Pointers look at crawlers and versions only.\<close>

lemma pointer_ok_cong: "db_versions db' = db_versions db \<Longrightarrow> pointer_ok db' c s p = pointer_ok db c s p"
  by (simp add: pointer_ok_def split: option.split)

lemma pointers_okD:
  assumes "pointers_ok db"
  shows "bm_lookup (db_crawlers db) c = Some row \<Longrightarrow> crawler_id row = c"
    "bm_lookup (db_crawlers db) c = Some row \<Longrightarrow> pointer_ok db c Draft (active_draft_version_id row)"
    "bm_lookup (db_crawlers db) c = Some row \<Longrightarrow> pointer_ok db c Published (active_published_version_id row)"
    "bm_lookup (db_versions db) i = Some r \<Longrightarrow> \<exists>row. bm_lookup (db_crawlers db) (vr_crawler_id r) = Some row"
    "bm_lookup (db_versions db) i = Some r \<Longrightarrow> vr_state r = Draft \<Longrightarrow> bm_lookup (db_crawlers db) (vr_crawler_id r) = Some row
       \<Longrightarrow> active_draft_version_id row = Some i"
  using assms unfolding pointers_ok_def by (blast, blast, blast, blast, metis option.inject)

lemma new_draft_pointers:
  assumes "pointers_ok db" "bm_lookup (db_versions db) i = None" "bm_lookup (db_crawlers db) c = Some row"
    and "active_draft_version_id row = None" "vr_crawler_id r = c" "vr_state r = Draft"
    and "db_versions db' = bm_insert i r (db_versions db)"
    and "db_crawlers db' = bm_insert c (row\<lparr>active_draft_version_id := Some i\<rparr>) (db_crawlers db)"
  shows "pointers_ok db'"
proof -
  note old = pointers_okD [OF assms(1)]
  have keep: "pointer_ok db' d s p" if "pointer_ok db d s p" for d s p
    using that assms(2) by (auto simp: pointer_ok_def assms(7) bm_insert_lookup split: option.splits)
  have new: "pointer_ok db' c Draft (Some i)" using assms(5,6) by (simp add: pointer_ok_def assms(7) bm_insert_lookup)
  show ?thesis
    unfolding pointers_ok_def assms(7,8)
  proof (intro conjI allI impI)
    fix d w assume "bm_lookup (bm_insert c (row\<lparr>active_draft_version_id := Some i\<rparr>) (db_crawlers db)) d = Some w"
    then have "d = c \<and> w = row\<lparr>active_draft_version_id := Some i\<rparr> \<or> d \<noteq> c \<and> bm_lookup (db_crawlers db) d = Some w"
      by (auto simp: bm_insert_lookup split: if_splits)
    then show "crawler_id w = d" and "pointer_ok db' d Draft (active_draft_version_id w)"
      and "pointer_ok db' d Published (active_published_version_id w)"
      using old(1-3) [OF assms(3)] old(1-3) [of d w] new keep by auto
  next
    fix j q assume "bm_lookup (bm_insert i r (db_versions db)) j = Some q"
    then have "j = i \<and> q = r \<or> j \<noteq> i \<and> bm_lookup (db_versions db) j = Some q" by (auto simp: bm_insert_lookup split: if_splits)
    then show "\<exists>w. bm_lookup (bm_insert c (row\<lparr>active_draft_version_id := Some i\<rparr>) (db_crawlers db)) (vr_crawler_id q) = Some w
        \<and> (vr_state q = Draft \<longrightarrow> active_draft_version_id w = Some j)"
      using old(4,5) [of j q] assms(3-6) by (auto simp: bm_insert_lookup)
  qed
qed

lemma insert_draft_repo_ok:
  assumes ok: "repo_ok env loose db" and coherent: "coherent db v \<or> cv_id v \<in> loose" and draft: "cv_state v = Draft"
    and run: "insert_draft_in_transaction env v base actor at db = Inr (u, db')"
  shows "repo_ok env loose db'"
proof -
  let ?i = "cv_id v" and ?c = "cv_crawler_id v" and ?r = "\<lparr>vr_crawler_id = cv_crawler_id v, vr_state = Draft, vr_configuration = v\<rparr>"
  from run obtain row db1 db2 db3 k a where contract: "validate_semantic_contract (rp_scope env) v = Inr ()"
    and row: "bm_lookup (db_crawlers db) ?c = Some row" "active_draft_version_id row = None"
    and db1: "insert_version_row v db = Inr db1" and db2: "sync_seed_rows env v db1 = Inr db2"
    and db3: "activate_draft_pointer ?c ?i db2 = Inr db3"
    and audit: "insert_audit_event k a db3 = Inr db'"
    by (auto simp: insert_draft_in_transaction_def result_simps split: if_splits)
  from db1 have fresh: "bm_lookup (db_versions db) ?i = None" and db1: "db1 = db\<lparr>db_versions := bm_insert ?i ?r (db_versions db)\<rparr>"
    by (simp_all add: row_statements)
  have tables: "tables_ok db" and pointers: "pointers_ok db" using ok by (simp_all add: repo_ok_def)
  have "tables_ok db1" using tables by (simp add: db1 keep_tables)
  from sync_seeds_Inr [OF db2 this] obtain t where db2: "db2 = db1\<lparr>db_seeds := t\<rparr>" "bm_invar t" "edits ?i db1 db2"
    and seeds: "seed_rows_of env (seeds_of db2 ?i) v" .
  from db3 row have db3: "db3 = db2\<lparr>db_crawlers := bm_insert ?c (row\<lparr>active_draft_version_id := Some ?i\<rparr>) (db_crawlers db)\<rparr>"
    by (auto simp: activate_draft_pointer_def Let_def row_statements db1 db2(1) split: prod.splits if_splits)
  from audit have db': "db' = db3\<lparr>db_audit := bm_insert k a (db_audit db3)\<rparr>"
    by (auto simp: row_statements)
  have "edits ?i db db1" unfolding db1 by (rule edits_versions)
  with db2(3) have "edits ?i db db2" by (blast intro: edits_trans)
  then have edits: "edits ?i db db'" by (simp add: edits_def db3 db')
  have rows: "pages_of db' ?i = Map.empty" "transitions_of db' ?i = Map.empty" "matchers_of db' ?i = Map.empty"
    using fresh_view(2-4) [OF ok fresh] by (simp_all add: db' db3 db2(1) db1 pages_of_def transitions_of_def matchers_of_def)
  have "seeds_of db' ?i = seeds_of db2 ?i" by (simp add: db' db3 seeds_of_def)
  with seeds have seeds: "seed_rows_of env (seeds_of db' ?i) v" by simp
  have version: "bm_lookup (db_versions db') ?i = Some ?r" by (simp add: db' db3 db2(1) db1 bm_insert_lookup)
  then have sound: "version_sound env (view db' ?i) ?i"
    using contract draft seeds rows by (simp add: version_sound_def view_def rows_valid_def)
  have "names_rows (view db' ?i) v" if "coherent db v"
    using that fresh_view(2,3) [OF ok fresh] rows by (simp add: coherent_def names_rows_def view_def)
  then have own: "version_consistent env (view db' ?i) ?i" if "coherent db v"
    using that sound version by (simp add: version_consistent_iff view_def)
  show ?thesis
  proof (rule repo_okI [OF ok])
    show "pointers_ok db'"
      by (rule new_draft_pointers [OF pointers fresh row, of ?r]) (simp_all add: db' db3 db2(1) db1)
    show "matchers_owned db'" using ok by (simp add: repo_ok_def matchers_owned_def db' db3 db2(1) db1)
    show "tables_ok db'" using tables db2(2) by (simp add: db' db3 db2(1) db1 keep_tables)
    show "version_sound env (view db' ?i) ?i" by (fact sound)
    show "view db' j = view db j" if "j \<noteq> ?i" for j using edits that by (simp add: edits_def)
    show "version_consistent env (view db' ?i) ?i \<or> ?i \<in> loose \<and> \<not> published_version db' ?i"
      using coherent own version by (auto simp: published_version_def)
  qed
qed

lemma new_draft_coherent:
  assumes "repo_ok env loose db" "bm_lookup (db_versions db) i = None"
  shows "coherent db (draft i c)"
  using fresh_view [OF assms] by (simp add: coherent_def names_rows_def view_def draft_def hints_owned_def)

lemma create_draft_repo_ok:
  assumes "repo_ok env loose db" "insert_draft_in_transaction env (draft i c) base actor at db = Inr (u, db')"
  shows "repo_ok env loose db'"
proof -
  have "bm_lookup (db_versions db) i = None"
    using assms(2) by (auto simp: insert_draft_in_transaction_def result_simps row_statements draft_def split: if_splits)
  then show ?thesis
    using insert_draft_repo_ok [OF assms(1) _ _ assms(2)] new_draft_coherent [OF assms(1)] by (simp add: draft_def)
qed

text \<open>Saving an existing draft replaces its configuration and its seeds.\<close>

lemma save_existing_repo_ok:
  assumes ok: "repo_ok env loose db" and coherent: "coherent db v \<or> cv_id v \<in> loose" and draft: "cv_state v = Draft"
    and contract: "validate_semantic_contract (rp_scope env) v = Inr ()"
    and r: "bm_lookup (db_versions db) (cv_id v) = Some r" "vr_crawler_id r = cv_crawler_id v" "vr_state r = Draft"
    and db1: "update_draft_configuration (cv_id v) v db = Inr (n, db1)" and db2: "sync_seed_rows env v db1 = Inr db2"
  shows "repo_ok env loose db2"
proof -
  let ?i = "cv_id v"
  from db1 r have db1: "db1 = db\<lparr>db_versions := bm_insert ?i (r\<lparr>vr_configuration := v\<rparr>) (db_versions db)\<rparr>"
    by (simp add: update_draft_configuration_def)
  have tables: "tables_ok db" and pointers: "pointers_ok db" using ok by (simp_all add: repo_ok_def)
  then have "tables_ok db1" by (simp add: db1 keep_tables)
  from sync_seeds_Inr [OF db2 this] obtain t where db2: "db2 = db1\<lparr>db_seeds := t\<rparr>" "bm_invar t" "edits ?i db1 db2"
    and seeds: "seed_rows_of env (seeds_of db2 ?i) v" .
  have "edits ?i db db1" unfolding db1 by (rule edits_versions)
  with db2(3) have edits: "edits ?i db db2" by (blast intro: edits_trans)
  have same: "pages_of db2 ?i = pages_of db ?i" "transitions_of db2 ?i = transitions_of db ?i" "matchers_of db2 ?i = matchers_of db ?i"
    by (simp_all add: db2(1) db1 pages_of_def transitions_of_def matchers_of_def)
  have "version_sound env (view db ?i) ?i" using ok by (simp add: repo_ok_def)
  with r have "rows_valid env (view db ?i)" by (simp add: version_sound_def view_def Let_def)
  then have rows: "rows_valid env (view db2 ?i)" by (simp add: rows_valid_def view_def same)
  have lookup: "bm_lookup (db_versions db2) ?i = Some (r\<lparr>vr_configuration := v\<rparr>)" by (simp add: db2(1) db1 bm_insert_lookup)
  with seeds contract draft r rows have sound: "version_sound env (view db2 ?i) ?i"
    by (simp add: version_sound_def Let_def view_def)
  have "version_consistent env (view db2 ?i) ?i" if "coherent db v"
    using that sound lookup by (simp add: version_consistent_iff coherent_def names_rows_def view_def same)
  then have own: "version_consistent env (view db2 ?i) ?i \<or> ?i \<in> loose \<and> \<not> published_version db2 ?i"
    using coherent lookup r(3) by (auto simp: published_version_def)
  have "pointers_ok db2"
    by (rule edit_pointers [OF pointers edits _ r(1) lookup]) (simp add: db2(1) db1)
  moreover have "matchers_owned db2" using ok by (simp add: repo_ok_def db2(1) db1 matchers_owned_def)
  moreover have "tables_ok db2" using tables db2(2) by (simp add: db2(1) db1 keep_tables)
  ultimately show ?thesis
    using edits sound own by (intro repo_okI [OF ok, of ?i]) (simp_all add: edits_def)
qed

text \<open>The second insert of \<open>save_draft\<close> never succeeds.\<close>

lemma insert_seeds_error: "insert_seeds env i ss db \<noteq> Inl CrCrawlerNotFound"
  by (induction ss arbitrary: db) (auto simp: result_simps insert_seed_row_def db_guard_def)

lemma map_semantic_error_not_found: "map_semantic_error e \<noteq> CrCrawlerNotFound"
  by (cases e) simp_all

lemma save_draft_typed_not_found:
  assumes "save_draft_typed env v actor at db = Inl CrCrawlerNotFound"
  shows "insert_version_row v db \<noteq> Inr db'"
proof
  assume "insert_version_row v db = Inr db'"
  then obtain row where free: "bm_lookup (db_versions db) (cv_id v) = None" "bm_lookup (db_crawlers db) (cv_crawler_id v) = Some row"
    by (auto simp: row_statements)
  have "sync_seed_rows env v db1 \<noteq> Inl CrCrawlerNotFound" for db1
    by (auto simp: sync_seed_rows_def result_simps delete_seed_rows_def db_guard_def insert_seeds_error)
  then have "insert_draft_in_transaction env v None actor at db \<noteq> Inl CrCrawlerNotFound"
    using free by (auto simp: insert_draft_in_transaction_def result_simps map_semantic_error_not_found insert_version_row_def
        activate_draft_pointer_def insert_audit_event_def db_guard_def Let_def dest: sym split: if_splits prod.splits)
  with assms free show False
    by (auto simp: save_draft_typed_def save_draft_in_transaction_def result_simps map_semantic_error_not_found dest: sym split: if_splits)
qed

lemma save_draft_repo_ok:
  assumes ok: "repo_ok env loose db" and coherent: "coherent db v \<or> cv_id v \<in> loose"
    and run: "save_draft env v actor at db = Inr (u, db')"
  shows "repo_ok env loose db'"
proof -
  have typed: "save_draft_typed env v actor at db = Inr (u, db')"
    using run save_draft_typed_not_found [of env v actor at db]
    by (auto simp: save_draft_def result_simps split: sum.splits CrawlerRepositoryError.splits)
  then have contract: "validate_semantic_contract (rp_scope env) v = Inr ()" and draft: "cv_state v = Draft"
    and tx: "save_draft_in_transaction env v actor at db = Inr (u, db')"
    by (auto simp: save_draft_typed_def result_simps split: if_splits)
  show ?thesis
  proof (cases "bm_lookup (db_versions db) (cv_id v)")
    case None
    with tx insert_draft_repo_ok [OF ok coherent draft] show ?thesis by (simp add: save_draft_in_transaction_def)
  next
    case (Some r)
    with tx obtain n db1 where "vr_crawler_id r = cv_crawler_id v" "vr_state r = Draft"
      "update_draft_configuration (cv_id v) v db = Inr (n, db1)" "sync_seed_rows env v db1 = Inr db'"
      by (cases "vr_state r") (auto simp: save_draft_in_transaction_def result_simps split: if_splits)
    with save_existing_repo_ok [OF ok coherent draft contract Some] show ?thesis by blast
  qed
qed

section \<open>Publication and reactivation\<close>

lemma publish_Inr:
  assumes "tables_ok db" "publish_in_transaction env c i actor at db = Inr (rec, db')"
  obtains r row k a where "bm_lookup (db_versions db) i = Some r" "vr_state r = Draft" "vr_crawler_id r = c"
    "bm_lookup (db_crawlers db) c = Some row" "active_draft_version_id row = Some i"
    "cr_version rec = (vr_configuration r)\<lparr>cv_state := Published\<rparr>"
    "db' = db\<lparr>db_versions := bm_insert i (r\<lparr>vr_state := Published, vr_configuration := (vr_configuration r)\<lparr>cv_state := Published\<rparr>\<rparr>) (db_versions db),
       db_crawlers := bm_insert c (row\<lparr>active_published_version_id := Some i, active_draft_version_id := None\<rparr>) (db_crawlers db),
       db_audit := bm_insert k a (db_audit db)\<rparr>"
proof -
  from assms(2) obtain ctx w db1 db2 row meta k a where ctx: "publication_validation_context env db c i = Inr ctx"
    and w: "publish (ctx_version ctx) = Inr w" and db1: "publish_version_row c i w db = Inr (Suc 0, db1)"
    and db2: "update_crawler_row c (\<lambda>row. active_draft_version_id row = Some i)
        (\<lambda>row. row\<lparr>active_published_version_id := Some i, active_draft_version_id := None\<rparr>) db1 = (Suc 0, db2)"
    and db': "insert_audit_event k a db2 = Inr db'" and rec: "cr_version rec = w"
    by (auto simp: publish_in_transaction_def result_simps Let_def split: if_splits prod.splits)
  from ctx have load: "load_publication_version env db i = Inr (ctx_version ctx)"
    by (auto simp: publication_validation_context_def result_simps split: if_splits)
  then obtain r where r: "bm_lookup (db_versions db) i = Some r" "ctx_version ctx = vr_configuration r"
    by (auto simp: load_publication_version_def load_version_with_Inr [OF assms(1)])
  from w r(2) have w: "w = (vr_configuration r)\<lparr>cv_state := Published\<rparr>" by (simp add: edit_defs result_simps)
  from db1 r(1) have "vr_crawler_id r = c" "vr_state r = Draft"
    and db1: "db1 = db\<lparr>db_versions := bm_insert i (r\<lparr>vr_state := Published, vr_configuration := w\<rparr>) (db_versions db)\<rparr>"
    by (auto simp: row_statements)
  moreover from db2 obtain row where "bm_lookup (db_crawlers db) c = Some row" "active_draft_version_id row = Some i"
    and "db2 = db1\<lparr>db_crawlers := bm_insert c (row\<lparr>active_published_version_id := Some i, active_draft_version_id := None\<rparr>) (db_crawlers db)\<rparr>"
    by (auto simp: row_statements db1)
  moreover have "db' = db2\<lparr>db_audit := bm_insert k a (db_audit db2)\<rparr>" using db' by (simp add: row_statements)
  ultimately show thesis using r(1) w rec by (intro that) simp_all
qed

lemma publish_pointers:
  assumes "pointers_ok db" "bm_lookup (db_versions db) i = Some r" "vr_crawler_id r = c"
    and "bm_lookup (db_crawlers db) c = Some row" "active_draft_version_id row = Some i"
    and "db_versions db' = bm_insert i r' (db_versions db)" "vr_crawler_id r' = c" "vr_state r' = Published"
    and "db_crawlers db' = bm_insert c (row\<lparr>active_published_version_id := Some i, active_draft_version_id := None\<rparr>) (db_crawlers db)"
  shows "pointers_ok db'"
proof -
  note old = pointers_okD [OF assms(1)]
  have keep: "pointer_ok db' d s p" if "pointer_ok db d s p" "p \<noteq> Some i" for d s p
    using that by (auto simp: pointer_ok_def assms(6) bm_insert_lookup split: option.splits)
  have other: "p \<noteq> Some i" if "pointer_ok db d s p" "d \<noteq> c" for d s p
    using that assms(2,3) by (auto simp: pointer_ok_def)
  have new: "pointer_ok db' c Published (Some i)" using assms(7,8) by (simp add: pointer_ok_def assms(6) bm_insert_lookup)
  show ?thesis
    unfolding pointers_ok_def assms(6,9)
  proof (intro conjI allI impI)
    fix d w assume "bm_lookup (bm_insert c (row\<lparr>active_published_version_id := Some i, active_draft_version_id := None\<rparr>) (db_crawlers db)) d = Some w"
    then have "d = c \<and> w = row\<lparr>active_published_version_id := Some i, active_draft_version_id := None\<rparr>
        \<or> d \<noteq> c \<and> bm_lookup (db_crawlers db) d = Some w"
      by (auto simp: bm_insert_lookup split: if_splits)
    then show "crawler_id w = d" and "pointer_ok db' d Draft (active_draft_version_id w)"
      and "pointer_ok db' d Published (active_published_version_id w)"
      using old(1) [OF assms(4)] old(1-3) [of d w] new keep other by auto
  next
    fix j q assume "bm_lookup (bm_insert i r' (db_versions db)) j = Some q"
    then have "j = i \<and> q = r' \<or> j \<noteq> i \<and> bm_lookup (db_versions db) j = Some q" by (auto simp: bm_insert_lookup split: if_splits)
    then show "\<exists>w. bm_lookup (bm_insert c (row\<lparr>active_published_version_id := Some i, active_draft_version_id := None\<rparr>) (db_crawlers db)) (vr_crawler_id q) = Some w
        \<and> (vr_state q = Draft \<longrightarrow> active_draft_version_id w = Some j)"
      using old(4,5) [of j q] assms(4,5,7,8) by (auto simp: bm_insert_lookup)
  qed
qed

text \<open>A version that is published was consistent, even when its draft had been saved as a whole.\<close>

lemma publication_consistent:
  assumes ok: "repo_ok env loose db" and ctx: "publication_validation_context env db c i = Inr ctx"
  shows "version_consistent env (view db i) i"
proof -
  have tables: "tables_ok db" and sound: "version_sound env (view db i) i" using ok by (simp_all add: repo_ok_def)
  from ctx obtain v ps ts where load: "load_publication_version env db i = Inr v"
    and pages: "load_page_type_records env db v = Inr ps" and transitions: "load_transition_records db v False = Inr ts"
    by (auto simp: publication_validation_context_def result_simps split: if_splits)
  from load obtain r where r: "bm_lookup (db_versions db) i = Some r" "v = vr_configuration r"
    and seeds: "seeds_consistent env (seeds_of db i) v"
    by (auto simp: load_publication_version_def load_version_with_Inr [OF tables])
  from seeds have "hints_owned v" by (simp add: seeds_consistent_iff)
  with pages transitions show ?thesis by (intro loaded_consistent [OF tables sound r(1)]) (simp_all add: r(2))
qed

lemma publish_repo_ok:
  assumes ok: "repo_ok env loose db" and run: "publish_in_transaction env c i actor at db = Inr (rec, db')"
  shows "repo_ok env loose db'"
proof -
  have tables: "tables_ok db" using ok by (simp add: repo_ok_def)
  obtain r row k a where r: "bm_lookup (db_versions db) i = Some r" "vr_state r = Draft" "vr_crawler_id r = c"
    and row: "bm_lookup (db_crawlers db) c = Some row" "active_draft_version_id row = Some i"
    and db': "db' = db\<lparr>db_versions := bm_insert i (r\<lparr>vr_state := Published, vr_configuration := (vr_configuration r)\<lparr>cv_state := Published\<rparr>\<rparr>) (db_versions db),
       db_crawlers := bm_insert c (row\<lparr>active_published_version_id := Some i, active_draft_version_id := None\<rparr>) (db_crawlers db),
       db_audit := bm_insert k a (db_audit db)\<rparr>"
    by (rule publish_Inr [OF tables run]) blast
  let ?r = "r\<lparr>vr_state := Published, vr_configuration := (vr_configuration r)\<lparr>cv_state := Published\<rparr>\<rparr>"
  have rows: "view db' j = (if j = i then (view db i)\<lparr>vw_version := Some ?r\<rparr> else view db j)" for j
    by (simp add: db' view_defs bm_insert_lookup)
  have "version_consistent env (view db i) i"
    using run by (auto simp: publish_in_transaction_def result_simps intro: publication_consistent [OF ok])
  then have "version_consistent env ((view db i)\<lparr>vw_version := Some ?r\<rparr>) i"
    using r by (auto simp: version_consistent_def Let_def view_def contract_iff seeds_consistent_def hints_owned_def
        pages_consistent_def transitions_consistent_def)
  then have own: "version_consistent env (view db' i) i" by (simp add: rows)
  show ?thesis
  proof (rule repo_okI [OF ok])
    show "pointers_ok db'"
      using ok r(3) by (intro publish_pointers [OF _ r(1,3) row, of db' ?r]) (simp_all add: repo_ok_def db')
    show "matchers_owned db'" using ok by (simp add: repo_ok_def matchers_owned_def db')
    show "tables_ok db'" using tables by (simp add: db' keep_tables)
    show "view db' j = view db j" if "j \<noteq> i" for j using that by (simp add: rows)
    show "version_consistent env (view db' i) i \<or> i \<in> loose \<and> \<not> published_version db' i" using own ..
  qed (rule version_consistent_sound [OF own])
qed

lemma reactivate_repo_ok:
  assumes ok: "repo_ok env loose db" and run: "reactivate_in_transaction env c i actor at db = Inr (u, db')"
  shows "repo_ok env loose db'"
proof -
  from run obtain row k a where row: "bm_lookup (db_crawlers db) c = Some row" and pointer: "pointer_ok db c Published (Some i)"
    and db': "db' = db\<lparr>db_crawlers := bm_insert c (row\<lparr>active_published_version_id := Some i\<rparr>) (db_crawlers db),
       db_audit := bm_insert k a (db_audit db)\<rparr>"
    by (auto simp: reactivate_in_transaction_def result_simps Let_def row_statements split: if_splits prod.splits)
  from ok have old: "pointers_ok db" by (simp add: repo_ok_def)
  have same: "pointer_ok db' d s p = pointer_ok db d s p" for d s p by (rule pointer_ok_cong) (simp add: db')
  have "pointers_ok db'"
    unfolding pointers_ok_def same
  proof (intro conjI allI impI)
    fix d w assume "bm_lookup (db_crawlers db') d = Some w"
    then have "d = c \<and> w = row\<lparr>active_published_version_id := Some i\<rparr> \<or> d \<noteq> c \<and> bm_lookup (db_crawlers db) d = Some w"
      by (auto simp: db' bm_insert_lookup split: if_splits)
    then show "crawler_id w = d" "pointer_ok db d Draft (active_draft_version_id w)"
      "pointer_ok db d Published (active_published_version_id w)"
      using pointers_okD(1-3) [OF old row] pointers_okD(1-3) [OF old, of d w] pointer by auto
  next
    fix j q assume "bm_lookup (db_versions db') j = Some q"
    then have "bm_lookup (db_versions db) j = Some q" by (simp add: db')
    from pointers_okD(4,5) [OF old this] row
    show "\<exists>w. bm_lookup (db_crawlers db') (vr_crawler_id q) = Some w \<and> (vr_state q = Draft \<longrightarrow> active_draft_version_id w = Some j)"
      by (auto simp: db' bm_insert_lookup)
  qed
  moreover have "view db' j = view db j" for j by (simp add: db' view_defs)
  ultimately show ?thesis
    using ok by (simp add: repo_ok_def db' keep_tables matchers_owned_def published_version_def)
qed

section \<open>Tables that only grow\<close>

text \<open>The insert statements share one contract: the key is new, and the row is all that changes.\<close>

locale row_table =
  fixes insert_row :: "'i::linorder \<Rightarrow> 'r \<Rightarrow> 'u crawler_db \<Rightarrow> CrawlerRepositoryError + 'u crawler_db"
    and tab :: "'u crawler_db \<Rightarrow> ('i, 'r) bmap" and upd :: "('i, 'r) bmap \<Rightarrow> 'u crawler_db \<Rightarrow> 'u crawler_db"
  assumes insert_row: "insert_row k r db = Inr db' \<Longrightarrow> bm_lookup (tab db) k = None \<and> db' = upd (bm_insert k r (tab db)) db"
    and tab_upd: "tab (upd t db) = t" and upd_upd: "upd t (upd t' db) = upd t db" and upd_tab: "upd (tab db) db = db"
begin

lemma inserted:
  assumes "insert_all_rows insert_row rows db = Inr db'" "bm_invar (tab db)"
  obtains t where "db' = upd t db" "bm_invar t" "distinct (map fst rows)"
    "\<And>k. bm_lookup t k = (case map_of rows k of None \<Rightarrow> bm_lookup (tab db) k | Some r \<Rightarrow> Some r)"
    "\<And>k r. (k, r) \<in> set rows \<Longrightarrow> bm_lookup (tab db) k = None"
  using assms
proof (induction rows arbitrary: db thesis)
  case Nil
  then show ?case by (simp add: upd_tab) (metis upd_tab)
next
  case (Cons p rows)
  obtain k r where p: "p = (k, r)" by force
  with Cons.prems(2) obtain db1 where step: "insert_row k r db = Inr db1" and rest: "insert_all_rows insert_row rows db1 = Inr db'"
    by (auto simp: result_simps)
  from insert_row [OF step] have free: "bm_lookup (tab db) k = None" and db1: "db1 = upd (bm_insert k r (tab db)) db" by simp_all
  have "bm_invar (tab db1)" using Cons.prems(3) by (simp add: db1 tab_upd bm_insert_invar)
  from Cons.IH [OF _ rest this] obtain t where t: "db' = upd t db1" "bm_invar t" "distinct (map fst rows)"
    "\<And>k. bm_lookup t k = (case map_of rows k of None \<Rightarrow> bm_lookup (tab db1) k | Some r \<Rightarrow> Some r)"
    "\<And>k r. (k, r) \<in> set rows \<Longrightarrow> bm_lookup (tab db1) k = None"
    by blast
  have others: "a \<noteq> k \<and> bm_lookup (tab db) a = None" if "(a, b) \<in> set rows" for a b
    using t(5) [OF that] by (auto simp: db1 tab_upd bm_insert_lookup split: if_splits)
  then have out: "k \<notin> fst ` set rows" by force
  then have none: "map_of rows k = None" by (simp add: map_of_eq_None_iff)
  show ?case
  proof (rule Cons.prems(1))
    show "db' = upd t db" using t(1) by (simp add: db1 upd_upd)
    show "distinct (map fst (p # rows))" using t(3) out by (simp add: p)
    show "bm_lookup t a = (case map_of (p # rows) a of None \<Rightarrow> bm_lookup (tab db) a | Some r \<Rightarrow> Some r)" for a
      using t(4) [of a] none by (auto simp: p db1 tab_upd bm_insert_lookup split: option.split)
    show "bm_lookup (tab db) a = None" if "(a, b) \<in> set (p # rows)" for a b
      using that others free by (auto simp: p)
  qed (rule t(2))
qed

end

interpretation seed_table: row_table insert_seed_row db_seeds "\<lambda>t. db_seeds_update (\<lambda>_. t)"
  by unfold_locales (auto simp: row_statements)

interpretation page_table: row_table insert_page_type_row db_page_types "\<lambda>t. db_page_types_update (\<lambda>_. t)"
  by unfold_locales (auto simp: row_statements)

interpretation matcher_table: row_table insert_matcher_row db_matchers "\<lambda>t. db_matchers_update (\<lambda>_. t)"
  by unfold_locales (auto simp: row_statements)

interpretation transition_table: row_table insert_transition_row db_transitions "\<lambda>t. db_transitions_update (\<lambda>_. t)"
  by unfold_locales (auto simp: row_statements)

text \<open>What the new rows add to the rows of a version.\<close>

lemma rows_of_extend:
  assumes "\<And>k. bm_lookup t k = (case map_of rows k of None \<Rightarrow> bm_lookup m k | Some r \<Rightarrow> Some r)"
    and "\<And>k r. (k, r) \<in> set rows \<Longrightarrow> bm_lookup m k = None"
  shows "(\<And>k r. (k, r) \<in> set rows \<Longrightarrow> P r) \<Longrightarrow> rows_of P m = Map.empty \<Longrightarrow> rows_of P t = map_of rows"
    and "(\<And>k r. (k, r) \<in> set rows \<Longrightarrow> \<not> P r) \<Longrightarrow> rows_of P t = rows_of P m"
proof -
  show "rows_of P t = map_of rows" if P: "\<And>k r. (k, r) \<in> set rows \<Longrightarrow> P r" and none: "rows_of P m = Map.empty"
  proof
    fix k
    show "rows_of P t k = map_of rows k"
    proof (cases "map_of rows k")
      case None
      with fun_cong [OF none, of k] show ?thesis by (simp add: rows_of_def assms(1))
    next
      case (Some r)
      with P [OF map_of_SomeD] show ?thesis by (simp add: rows_of_def assms(1))
    qed
  qed
  show "rows_of P t = rows_of P m" if P: "\<And>k r. (k, r) \<in> set rows \<Longrightarrow> \<not> P r"
  proof
    fix k
    show "rows_of P t k = rows_of P m k"
    proof (cases "map_of rows k")
      case (Some r)
      then have "(k, r) \<in> set rows" by (rule map_of_SomeD)
      with P assms(2) Some show ?thesis by (simp add: rows_of_def assms(1))
    qed (simp add: rows_of_def assms(1))
  qed
qed

text \<open>The maps of identifiers a clone uses.\<close>

lemma map_of_zip_position:
  "map_of (zip xs (map f [k..<k + length xs])) x = map_option (\<lambda>n. f (k + n)) (position x xs)"
proof (induction xs arbitrary: k)
  case (Cons y ys)
  have "[k..<k + length (y # ys)] = k # [Suc k..<Suc k + length ys]" by (simp add: upt_conv_Cons del: upt_Suc)
  then show ?case using Cons.IH [of "Suc k"] by (cases "position x ys") auto
qed simp

lemma declared_map_renamed:
  assumes "distinct old"
  shows "declared_child_id_map old (map f [0..<length old]) = (\<lambda>x. map_option f (position x old))"
proof
  fix x
  have "distinct (map fst (zip old (map f [0..<length old])))" using assms by simp
  then have "map_of (rev (zip old (map f [0..<length old]))) = map_of (zip old (map f [0..<length old]))"
    by (intro map_of_inject_set [THEN iffD2]) (simp_all add: rev_map [symmetric])
  then show "declared_child_id_map old (map f [0..<length old]) x = map_option f (position x old)"
    using map_of_zip_position [of old f 0 x] by (simp add: declared_child_id_map_def)
qed

lemma augment_declared: "set ids \<subseteq> dom m \<Longrightarrow> augment_child_id_map fresh ids m = m"
  unfolding augment_child_id_map_def by (induction ids) auto

section \<open>Cloning\<close>

text \<open>The child rows of a clone: new rows under the target, nothing else.\<close>

lemma clone_matchers_set:
  assumes "collect_results (\<lambda>(n, i, m). clone_matcher page_map maps (f n) m) ms = Inr rows" "(k, m') \<in> set rows"
  obtains n i m p where "(n, i, m) \<in> set ms" "page_map (ma_page_type_id m) = Some p" "ma_page_type_id m' = p"
proof -
  from assms obtain n i m where "(n, i, m) \<in> set ms" "clone_matcher page_map maps (f n) m = Inr (k, m')"
    using collect_results_set [OF assms(1)] by auto
  then show thesis by (intro that) (auto simp: clone_matcher_def result_simps)
qed

lemma enumerate_mem: "(n, x) \<in> set (enumerate k xs) \<Longrightarrow> x \<in> set xs"
  by (auto simp: in_set_enumerate_eq)

lemma clone_child_rows_Inr:
  fixes source target :: CrawlerVersionId
  defines "sources db \<equiv> filter (\<lambda>(i, r). pg_version_id r = source) (db_page_types db)"
  assumes run: "clone_child_rows ids source target seed_map page_map transition_map db = Inr db'" and tables: "tables_ok db"
    and owned: "matchers_owned db" and neq: "source \<noteq> target"
    and empty: "seeds_of db target = Map.empty" "pages_of db target = Map.empty"
    and pages: "\<And>p r. pages_of db source p = Some r \<Longrightarrow> \<exists>q. page_map p = Some q"
  obtains t1 t2 t3 t4 seed_rows where
    "db' = db\<lparr>db_seeds := t1, db_page_types := t2, db_matchers := t3, db_transitions := t4\<rparr>"
    "tables_ok db'" "edits target db db'" "matchers_owned db'"
    "collect_results (clone_seed seed_map page_map (opaque_seed ids) target)
       (filter (\<lambda>(i, r). sr_version_id r = source) (db_seeds db)) = Inr seed_rows"
    "distinct (map fst seed_rows)" "seeds_of db' target = map_of seed_rows"
    "distinct (map (\<lambda>p. the (page_map (fst p))) (sources db))"
    "dom (pages_of db' target) = (\<lambda>p. the (page_map (fst p))) ` set (sources db)"
proof -
  let ?maps = "[seed_map, page_map, transition_map]"
  let ?page_rows = "map (clone_page_type page_map ?maps (opaque_page ids) target) (sources db)"
  from run obtain seed_rows db1 db2 matcher_rows db3 transition_rows
    where seeds: "collect_results (clone_seed seed_map page_map (opaque_seed ids) target)
        (filter (\<lambda>(i, r). sr_version_id r = source) (db_seeds db)) = Inr seed_rows"
      and db1: "insert_all_rows insert_seed_row seed_rows db = Inr db1"
      and db2: "insert_all_rows insert_page_type_row
        (map (clone_page_type page_map ?maps (opaque_page ids) target) (sources db1)) db1 = Inr db2"
      and matchers: "collect_results (\<lambda>(n, i, m). clone_matcher page_map ?maps (matcher_id ids n) m)
        (enumerate 0 (sort_key (\<lambda>(i, m). (ma_page_type_id m, ma_ordinal m, i)) (version_matchers db2 source))) = Inr matcher_rows"
      and db3: "insert_all_rows insert_matcher_row matcher_rows db2 = Inr db3"
      and transition_rows: "transition_rows = map (clone_transition transition_map ?maps (opaque_transition ids) target)
        (filter (\<lambda>(i, r). tw_version_id r = source) (db_transitions db3))"
      and db4: "insert_all_rows insert_transition_row transition_rows db3 = Inr db'"
    by (auto simp: clone_child_rows_def Let_def result_simps sources_def)
  note inv = tables_invar [OF tables]
  obtain t1 where t1: "db1 = db\<lparr>db_seeds := t1\<rparr>" "bm_invar t1" "distinct (map fst seed_rows)"
    "\<And>k. bm_lookup t1 k = (case map_of seed_rows k of None \<Rightarrow> bm_lookup (db_seeds db) k | Some r \<Rightarrow> Some r)"
    "\<And>k r. (k, r) \<in> set seed_rows \<Longrightarrow> bm_lookup (db_seeds db) k = None"
    using seed_table.inserted [OF db1 inv(3)] by metis
  have seed_target: "sr_version_id r = target" if "(k, r) \<in> set seed_rows" for k r
    using that collect_results_set [OF seeds] by (auto simp: clone_seed_def result_simps)
  have "sources db1 = sources db" by (simp add: sources_def t1(1))
  with db2 have db2: "insert_all_rows insert_page_type_row ?page_rows db1 = Inr db2" by simp
  have same1: "db_page_types db1 = db_page_types db" by (simp add: t1(1))
  have inv1: "bm_invar (db_page_types db1)" using inv by (simp add: t1(1))
  obtain t2 where t2: "db2 = db1\<lparr>db_page_types := t2\<rparr>" "bm_invar t2" "distinct (map fst ?page_rows)"
    "\<And>k. bm_lookup t2 k = (case map_of ?page_rows k of None \<Rightarrow> bm_lookup (db_page_types db) k | Some r \<Rightarrow> Some r)"
    "\<And>k r. (k, r) \<in> set ?page_rows \<Longrightarrow> bm_lookup (db_page_types db) k = None"
    using page_table.inserted [OF db2 inv1, unfolded same1] by metis
  have page_target: "pg_version_id r = target" if "(k, r) \<in> set ?page_rows" for k r
    using that by (auto simp: clone_page_type_def)
  have sources_iff: "(a, r) \<in> set (sources db) \<longleftrightarrow> pages_of db source a = Some r" for a r
    unfolding sources_def pages_of_def set_filter_rows [OF inv(4)] by simp
  have source_set: "p \<in> set (sources db) \<Longrightarrow> \<exists>r q. pages_of db source (fst p) = Some r \<and> page_map (fst p) = Some q" for p
    using pages by (cases p) (fastforce simp: sources_iff)
  have keys: "map fst ?page_rows = map (\<lambda>p. the (page_map (fst p))) (sources db)"
    using source_set by (fastforce simp: clone_page_type_def split: prod.split)
  have page_rows: "rows_of (\<lambda>r. pg_version_id r = target) t2 = map_of ?page_rows"
    "j \<noteq> target \<Longrightarrow> rows_of (\<lambda>r. pg_version_id r = j) t2 = pages_of db j" for j
    using page_target empty(2)
    by (auto simp: pages_of_def intro!: rows_of_extend(1) [OF t2(4,5)] rows_of_extend(2) [OF t2(4,5)])
  have source_pages: "pages_of db2 source = pages_of db source" using page_rows(2) [OF neq] by (simp add: pages_of_def t2(1))
  have same2: "db_matchers db2 = db_matchers db" by (simp add: t1(1) t2(1))
  have inv2: "bm_invar (db_matchers db2)" using inv by (simp add: t2(1) t1(1))
  obtain t3 where t3: "db3 = db2\<lparr>db_matchers := t3\<rparr>" "bm_invar t3"
    "\<And>k. bm_lookup t3 k = (case map_of matcher_rows k of None \<Rightarrow> bm_lookup (db_matchers db) k | Some r \<Rightarrow> Some r)"
    "\<And>k r. (k, r) \<in> set matcher_rows \<Longrightarrow> bm_lookup (db_matchers db) k = None"
    using matcher_table.inserted [OF db3 inv2, unfolded same2] by metis
  have matcher_page: "ma_page_type_id m \<in> fst ` set ?page_rows" if "(k, m) \<in> set matcher_rows" for k m
  proof -
    obtain n i w q where w: "(n, i, w) \<in> set (enumerate 0 (sort_key (\<lambda>(i, m). (ma_page_type_id m, ma_ordinal m, i)) (version_matchers db2 source)))"
      and q: "page_map (ma_page_type_id w) = Some q" "ma_page_type_id m = q"
      by (rule clone_matchers_set [OF matchers \<open>(k, m) \<in> set matcher_rows\<close>])
    from w have "(i, w) \<in> set (version_matchers db2 source)" using enumerate_mem [OF w] by simp
    then have "pages_of db2 source (ma_page_type_id w) \<noteq> None"
      by (auto simp: version_matchers_def pages_of_def rows_of_def split: option.splits)
    then obtain r where "pages_of db source (ma_page_type_id w) = Some r" by (auto simp: source_pages)
    then have "(ma_page_type_id w, r) \<in> set (sources db)"
      by (simp only: sources_iff)
    then have "the (page_map (fst (ma_page_type_id w, r))) \<in> set (map fst ?page_rows)" unfolding keys by force
    then show ?thesis by (simp add: q image_image)
  qed
  have same3: "db_transitions db3 = db_transitions db" by (simp add: t1(1) t2(1) t3(1))
  have inv3: "bm_invar (db_transitions db3)" using inv by (simp add: t3(1) t2(1) t1(1))
  obtain t4 where t4: "db' = db3\<lparr>db_transitions := t4\<rparr>" "bm_invar t4"
    "\<And>k. bm_lookup t4 k = (case map_of transition_rows k of None \<Rightarrow> bm_lookup (db_transitions db) k | Some r \<Rightarrow> Some r)"
    "\<And>k r. (k, r) \<in> set transition_rows \<Longrightarrow> bm_lookup (db_transitions db) k = None"
    using transition_table.inserted [OF db4 inv3, unfolded same3] by metis
  have transition_target: "tw_version_id r = target" if "(k, r) \<in> set transition_rows" for k r
    using that by (auto simp: transition_rows clone_transition_def)
  have db': "db' = db\<lparr>db_seeds := t1, db_page_types := t2, db_matchers := t3, db_transitions := t4\<rparr>"
    by (simp add: t4(1) t3(1) t2(1) t1(1))
  have tables': "tables_ok db'" using tables t1(2) t2(2) t3(2) t4(2) by (simp add: tables_ok_def db')
  have seeds': "seeds_of db' target = map_of seed_rows" "j \<noteq> target \<Longrightarrow> seeds_of db' j = seeds_of db j" for j
    using seed_target empty(1)
    by (auto simp: seeds_of_def db' intro!: rows_of_extend(1) [OF t1(4,5)] rows_of_extend(2) [OF t1(4,5)])
  have pages': "pages_of db' target = map_of ?page_rows" "j \<noteq> target \<Longrightarrow> pages_of db' j = pages_of db j" for j
    using page_rows by (simp_all add: pages_of_def db')
  have transitions': "transitions_of db' j = transitions_of db j" if "j \<noteq> target" for j
    using transition_target that by (auto simp: transitions_of_def db' intro!: rows_of_extend(2) [OF t4(3,4)])
  have foreign: "pages_of db' j p = None" if "p \<in> fst ` set ?page_rows" "j \<noteq> target" for p j
  proof -
    from that(1) have "pages_of db' target p \<noteq> None" by (simp add: pages' map_of_eq_None_iff)
    with that(2) show ?thesis by (auto simp: pages_of_def rows_of_def split: option.splits if_splits)
  qed
  have matchers': "matchers_of db' j = matchers_of db j" if "j \<noteq> target" for j
  proof -
    have "rows_of (\<lambda>m. pages_of db' j (ma_page_type_id m) \<noteq> None) t3 = rows_of (\<lambda>m. pages_of db' j (ma_page_type_id m) \<noteq> None) (db_matchers db)"
    proof (rule rows_of_extend(2) [OF t3(3,4)])
      fix k m assume "(k, m) \<in> set matcher_rows"
      from foreign [OF matcher_page [OF this] that] show "\<not> (pages_of db' j (ma_page_type_id m) \<noteq> None)" by simp
    qed
    then show ?thesis by (simp add: matchers_of_def pages'(2) [OF that]) (simp add: db')
  qed
  have edits: "edits target db db'"
    using seeds'(2) pages'(2) transitions' matchers' by (simp add: edits_def view_def) (simp add: db')
  have "bm_lookup t2 (ma_page_type_id m) \<noteq> None" if "bm_lookup t3 k = Some m" for k m
  proof (cases "map_of matcher_rows k")
    case None
    with that owned show ?thesis by (auto simp: t3(3) t2(4) matchers_owned_def split: option.split)
  next
    case (Some m')
    with that have "ma_page_type_id m \<in> fst ` set ?page_rows" using matcher_page [OF map_of_SomeD] by (simp add: t3(3))
    then show ?thesis by (auto simp: t2(4) map_of_eq_None_iff split: option.split)
  qed
  then have owned': "matchers_owned db'" by (simp add: matchers_owned_def db')
  have keys': "distinct (map (\<lambda>p. the (page_map (fst p))) (sources db))" using t2(3) unfolding keys .
  have "dom (pages_of db' target) = set (map fst ?page_rows)" by (simp add: pages'(1) dom_map_of_conv_image_fst image_image)
  then have "dom (pages_of db' target) = (\<lambda>p. the (page_map (fst p))) ` set (sources db)" unfolding keys by simp
  with keys' show thesis by (intro that [OF db' tables' edits owned' seeds t1(3) seeds'(1)])
qed

lemma position_nth: "distinct xs \<Longrightarrow> n < length xs \<Longrightarrow> position (xs ! n) xs = Some n"
proof -
  assume xs: "distinct xs" "n < length xs"
  then obtain k where k: "position (xs ! n) xs = Some k" by (metis not_None_eq nth_mem position_None)
  with xs position_Some [OF k] show ?thesis by (metis nth_eq_iff_index_eq)
qed

lemma seed_rows_projection:
  "map_option sr_projection (map_of (map (\<lambda>s. (seed_id s, seed_row env i s)) ss) k)
     = map_of (map (\<lambda>s. (seed_id s, seed_projection env s)) ss) k"
  by (induction ss) (auto simp: seed_row_def)

text \<open>As many distinct keys as entries.\<close>

lemma distinct_by_count:
  assumes "distinct xs" "set ys = set xs" "length ys = length xs"
  shows "distinct ys"
  using assms distinct_card [of xs] card_distinct [of ys] by simp

definition cloned_seed :: "fresh_ids \<Rightarrow> (PageTypeId \<Rightarrow> PageTypeId) \<Rightarrow> nat \<Rightarrow> 'u Seed \<Rightarrow> 'u Seed" where
  "cloned_seed fresh \<rho> n s = s\<lparr>seed_id := fresh_seed fresh n, entry_page_type_hint := map_option \<rho> (entry_page_type_hint s)\<rparr>"

lemma clone_of_seeds:
  "cv_seeds (clone_of fresh v) = map (\<lambda>n. cloned_seed fresh (renamed fresh (cv_page_type_ids v)) n (cv_seeds v ! n)) [0..<length (cv_seeds v)]"
  by (rule nth_equalityI) (simp_all add: clone_of_def Let_def cloned_seed_def nth_enumerate_eq)

lemma clone_of_simps:
  "cv_id (clone_of fresh v) = fresh_version fresh" "cv_crawler_id (clone_of fresh v) = cv_crawler_id v"
  "cv_state (clone_of fresh v) = Draft"
  "cv_page_type_ids (clone_of fresh v) = map (fresh_page_type fresh) [0..<length (cv_page_type_ids v)]"
  "cv_transition_ids (clone_of fresh v) = map (fresh_transition fresh) [0..<length (cv_transition_ids v)]"
  by (simp_all add: clone_of_def Let_def)

lemma renamed_owned:
  assumes "h \<in> set ids" shows "renamed fresh ids h \<in> set (map (fresh_page_type fresh) [0..<length ids])"
proof -
  from assms obtain k where k: "position h ids = Some k" by (metis not_None_eq position_None)
  with position_Some [OF k] show ?thesis by (simp add: renamed_def)
qed

lemma clone_hints_owned: "hints_owned v \<Longrightarrow> hints_owned (clone_of fresh v)"
  unfolding hints_owned_def clone_of_seeds clone_of_simps
  by (auto simp: cloned_seed_def dest!: nth_mem intro!: renamed_owned [simplified])

lemma clone_seed_rows:
  fixes v :: "'u CrawlerVersion" and fresh :: fresh_ids and db :: "'u crawler_db" and source target :: CrawlerVersionId
  defines "\<rho> \<equiv> renamed fresh (cv_page_type_ids v)" and "rows \<equiv> seeds_of db source"
  assumes tables: "tables_ok db" and seeds: "seeds_consistent env rows v"
    and page_map: "\<And>h. h \<in> set (cv_page_type_ids v) \<Longrightarrow> page_map h = Some (\<rho> h)"
    and run: "collect_results (clone_seed (declared_child_id_map (map seed_id (cv_seeds v)) (map seed_id (cv_seeds (clone_of fresh v))))
        page_map opaque target) (filter (\<lambda>(i, r). sr_version_id r = source) (db_seeds db)) = Inr seed_rows"
    and distinct: "distinct (map fst seed_rows)"
  shows "seeds_consistent env (map_of seed_rows) (clone_of fresh v)"
proof -
  let ?ss = "cv_seeds v" and ?cs = "cv_seeds (clone_of fresh v)" and ?source = "filter (\<lambda>(i, r). sr_version_id r = source) (db_seeds db)"
  let ?seed_map = "declared_child_id_map (map seed_id ?ss) (map seed_id ?cs)"
  let ?clone = "\<lambda>n. cloned_seed fresh \<rho> n (?ss ! n)"
  have cs: "?cs = map ?clone [0..<length ?ss]" unfolding \<rho>_def by (rule clone_of_seeds)
  have ids: "distinct (map seed_id ?ss)" and hints: "hints_owned v"
    and projections: "\<And>i. map_option sr_projection (rows i) = map_of (map (\<lambda>s. (seed_id s, seed_projection env s)) ?ss) i"
    using seeds by (simp_all add: seeds_consistent_def)
  have "map seed_id ?cs = map (fresh_seed fresh) [0..<length (map seed_id ?ss)]" by (simp add: cs cloned_seed_def)
  then have seed_map: "?seed_map x = map_option (fresh_seed fresh) (position x (map seed_id ?ss))" for x
    using declared_map_renamed [OF ids, of "fresh_seed fresh"] by simp
  have source_iff: "(i, r) \<in> set ?source \<longleftrightarrow> rows i = Some r" for i r
    unfolding rows_def seeds_of_def set_filter_rows [OF tables_invar(3) [OF tables]] by simp
  have one: "clone_seed ?seed_map page_map opaque target (seed_id (?ss ! n), r)
      = Inr (seed_id (?clone n), seed_row env target (?clone n))"
    if n: "n < length ?ss" and r: "rows (seed_id (?ss ! n)) = Some r" for n r
  proof -
    have "map_of (map (\<lambda>s. (seed_id s, seed_projection env s)) ?ss) (seed_id (?ss ! n)) = Some (seed_projection env (?ss ! n))"
      using ids n by (intro map_of_is_SomeI) (auto simp: o_def)
    with projections [of "seed_id (?ss ! n)"] r have p: "sr_projection r = seed_projection env (?ss ! n)" by simp
    have "?seed_map (seed_id (?ss ! n)) = Some (fresh_seed fresh n)"
      using position_nth [OF ids, of n] n by (simp add: seed_map)
    moreover have "page_map h = Some (\<rho> h)" if "entry_page_type_hint (?ss ! n) = Some h" for h
      using hints n that by (intro page_map) (auto simp: hints_owned_def)
    ultimately show ?thesis
      by (cases "entry_page_type_hint (?ss ! n)") (simp_all add: clone_seed_def p seed_projection_def seed_row_def cloned_seed_def)
  qed
  have row: "\<exists>r. rows (seed_id (?ss ! n)) = Some r" if n: "n < length ?ss" for n
  proof -
    have "map_of (map (\<lambda>s. (seed_id s, seed_projection env s)) ?ss) (seed_id (?ss ! n)) \<noteq> None"
      using n by (simp add: map_of_eq_None_iff image_image)
    with projections [of "seed_id (?ss ! n)"] show ?thesis by (metis map_option_is_None not_None_eq)
  qed
  have index: "\<exists>n < length ?ss. i = seed_id (?ss ! n)" if "rows i = Some r" for i r
  proof -
    from projections [of i] that have "map_of (map (\<lambda>s. (seed_id s, seed_projection env s)) ?ss) i \<noteq> None" by (metis option.distinct(1) option.map(2))
    then have "i \<in> seed_id ` set ?ss" by (simp add: map_of_eq_None_iff image_image)
    then show ?thesis by (auto simp: in_set_conv_nth)
  qed
  have "set seed_rows = (\<lambda>n. (seed_id (?clone n), seed_row env target (?clone n))) ` {..<length ?ss}"
  proof (intro set_eqI iffI)
    fix x assume "x \<in> set seed_rows"
    then obtain i r where ir: "rows i = Some r" "clone_seed ?seed_map page_map opaque target (i, r) = Inr x"
      using collect_results_set [OF run] by (auto simp only: source_iff mem_Collect_eq split_paired_Ex Bex_def)
    from index [OF ir(1)] obtain n where "n < length ?ss" "i = seed_id (?ss ! n)" by blast
    with one [of n r] ir show "x \<in> (\<lambda>n. (seed_id (?clone n), seed_row env target (?clone n))) ` {..<length ?ss}" by auto
  next
    fix x assume "x \<in> (\<lambda>n. (seed_id (?clone n), seed_row env target (?clone n))) ` {..<length ?ss}"
    then obtain n where n: "n < length ?ss" "x = (seed_id (?clone n), seed_row env target (?clone n))" by auto
    from row [OF n(1)] obtain r where r: "rows (seed_id (?ss ! n)) = Some r" ..
    with one [OF n(1) r] n(2) show "x \<in> set seed_rows"
      unfolding collect_results_set [OF run] using source_iff by blast
  qed
  then have same: "set (map (\<lambda>s. (seed_id s, seed_row env target s)) ?cs) = set seed_rows" by (auto simp: cs)
  have "length seed_rows = length ?source" using run unfolding collect_results_Inr by (metis list_all2_lengthD)
  also have "\<dots> = card (set (map fst ?source))"
    using distinct_card [OF bm_invar_distinct [OF bm_filter_invar [OF tables_invar(3) [OF tables]]]] by simp
  also have "set (map fst ?source) = seed_id ` set ?ss"
  proof -
    have "set (map fst ?source) = dom rows"
      unfolding rows_def seeds_of_def set_map set_filter_rows [OF tables_invar(3) [OF tables]] by (rule dom_rows)
    also have "\<dots> = dom (\<lambda>i. map_option sr_projection (rows i))" by auto
    also have "\<dots> = seed_id ` set ?ss" unfolding projections dom_map_of_conv_image_fst by (simp add: image_image)
    finally show ?thesis .
  qed
  also have "card (seed_id ` set ?ss) = length ?cs" using distinct_card [OF ids] by (simp add: cs)
  finally have count: "length seed_rows = length ?cs" .
  have keys: "set (map seed_id ?cs) = set (map fst seed_rows)" using arg_cong [OF same, of "image fst"] by (simp add: image_image)
  have fresh: "distinct (map seed_id ?cs)" using distinct keys by (rule distinct_by_count) (simp add: count)
  have "map_of seed_rows = map_of (map (\<lambda>s. (seed_id s, seed_row env target s)) ?cs)"
    using distinct fresh same by (intro map_of_inject_set [THEN iffD2]) (simp_all add: o_def)
  with fresh clone_hints_owned [OF hints] show ?thesis by (simp add: seeds_consistent_def seed_rows_projection)
qed

lemma insert_all_rows_frame:
  assumes "\<And>i r db db'. insert_row i r db = Inr db' \<Longrightarrow> db_crawlers db' = db_crawlers db"
  shows "insert_all_rows insert_row rows db = Inr db' \<Longrightarrow> db_crawlers db' = db_crawlers db"
proof (induction rows arbitrary: db)
  case (Cons p rows)
  then show ?case by (cases p) (auto simp: result_simps dest!: assms)
qed simp

lemma insert_all_frame:
  "insert_all_rows insert_seed_row rows1 db = Inr db' \<Longrightarrow> db_crawlers db' = db_crawlers db"
  "insert_all_rows insert_page_type_row rows2 db = Inr db' \<Longrightarrow> db_crawlers db' = db_crawlers db"
  "insert_all_rows insert_matcher_row rows3 db = Inr db' \<Longrightarrow> db_crawlers db' = db_crawlers db"
  "insert_all_rows insert_transition_row rows4 db = Inr db' \<Longrightarrow> db_crawlers db' = db_crawlers db"
  by (erule insert_all_rows_frame [rotated], simp add: row_statements)+

lemma clone_child_rows_frame:
  "clone_child_rows ids source target seed_map page_map transition_map db = Inr db' \<Longrightarrow> db_crawlers db' = db_crawlers db"
  by (auto simp: clone_child_rows_def Let_def result_simps dest!: insert_all_frame)

lemma clone_start:
  assumes ok: "repo_ok env loose db" and run: "clone_draft_in_transaction env ids c source_id actor at db = Inr (w, db')"
  obtains row source db2 hash k a where
    "bm_lookup (db_crawlers db) c = Some row" "active_draft_version_id row = None"
    "w = clone_of (clone_fresh ids) source" "cv_crawler_id source = c" "cv_id source = source_id"
    "seeds_consistent env (seeds_of db source_id) source" "pages_consistent env (view db source_id) source"
    "bm_lookup (db_versions db) (cv_id w) = None"
    "clone_child_rows ids source_id (cv_id w) (declared_child_id_map (map seed_id (cv_seeds source)) (map seed_id (cv_seeds w)))
       (declared_child_id_map (cv_page_type_ids source) (cv_page_type_ids w))
       (augment_child_id_map (opaque_transition ids) (map fst (filter (\<lambda>(i, r). tw_version_id r = source_id) (db_transitions db)))
          (declared_child_id_map (cv_transition_ids source) (cv_transition_ids w)))
       (db\<lparr>db_versions := bm_insert (cv_id w) \<lparr>vr_crawler_id = c, vr_state = Draft, vr_configuration = w\<rparr> (db_versions db)\<rparr>) = Inr db2"
    "semantic_hash env (db2\<lparr>db_crawlers := bm_insert c (row\<lparr>active_draft_version_id := Some (cv_id w)\<rparr>) (db_crawlers db2)\<rparr>) w = Inr hash"
    "db' = db2\<lparr>db_crawlers := bm_insert c (row\<lparr>active_draft_version_id := Some (cv_id w)\<rparr>) (db_crawlers db2),
       db_audit := bm_insert k a (db_audit db2)\<rparr>"
    "bm_lookup (db_crawlers db2) c = Some row" "source_id \<noteq> cv_id w"
proof -
  have tables: "tables_ok db" using ok by (simp add: repo_ok_def)
  from run obtain row source db1 db2 db3 hash k a where row: "bm_lookup (db_crawlers db) c = Some row" "active_draft_version_id row = None"
    and load: "load_version env db source_id = Inr source" and owner: "cv_crawler_id source = c" and pub: "cv_state source = Published"
    and clone: "draft_from_published (rp_scope env) (clone_fresh ids) source = Inr w"
    and db1: "insert_version_row w db = Inr db1"
    and db2: "clone_child_rows ids source_id (cv_id w) (declared_child_id_map (map seed_id (cv_seeds source)) (map seed_id (cv_seeds w)))
       (augment_child_id_map (opaque_page ids) (map fst (filter (\<lambda>(i, r). pg_version_id r = source_id) (db_page_types db)))
          (declared_child_id_map (cv_page_type_ids source) (cv_page_type_ids w)))
       (augment_child_id_map (opaque_transition ids) (map fst (filter (\<lambda>(i, r). tw_version_id r = source_id) (db_transitions db)))
          (declared_child_id_map (cv_transition_ids source) (cv_transition_ids w))) db1 = Inr db2"
    and db3: "activate_draft_pointer c (cv_id w) db2 = Inr db3" and hash: "semantic_hash env db3 w = Inr hash"
    and audit: "insert_audit_event k a db3 = Inr db'"
    by (auto simp: clone_draft_in_transaction_def result_simps Let_def split: if_splits)
  from load obtain r where r: "bm_lookup (db_versions db) source_id = Some r" "source = vr_configuration r" "cv_id source = source_id"
      "validate_semantic_contract (rp_scope env) source = Inr ()" "seeds_consistent env (seeds_of db source_id) source"
      "cv_state source = vr_state r"
    by (auto simp: load_version_def load_version_with_Inr [OF tables])
  have "published_version db source_id" using pub r(1,6) by (simp add: published_version_def)
  then have "version_consistent env (view db source_id) source_id" using ok by (simp add: repo_ok_def)
  with r(1,2) have pages: "pages_consistent env (view db source_id) source" by (simp add: version_consistent_def view_def Let_def)
  have w: "w = clone_of (clone_fresh ids) source"
    using clone draft_from_published_clone [OF r(4) pub, of "clone_fresh ids"] r(5) by (simp add: seeds_consistent_def)
  have "distinct (cv_page_type_ids source)" and dom: "dom (pages_of db source_id) = set (cv_page_type_ids source)"
    using pages by (simp_all add: pages_consistent_def view_def)
  then have map: "declared_child_id_map (cv_page_type_ids source) (cv_page_type_ids w)
      = (\<lambda>x. map_option (fresh_page_type (clone_fresh ids)) (position x (cv_page_type_ids source)))"
    by (simp add: w clone_of_simps declared_map_renamed)
  have "fst ` set (filter (\<lambda>(i, r). pg_version_id r = source_id) (db_page_types db)) = set (cv_page_type_ids source)"
    unfolding dom [symmetric] pages_of_def set_filter_rows [OF tables_invar(4) [OF tables]] by (rule dom_rows)
  then have same: "augment_child_id_map (opaque_page ids) (map fst (filter (\<lambda>(i, r). pg_version_id r = source_id) (db_page_types db)))
      (declared_child_id_map (cv_page_type_ids source) (cv_page_type_ids w))
      = declared_child_id_map (cv_page_type_ids source) (cv_page_type_ids w)"
    by (intro augment_declared) (auto simp: map dom_def)
  from db1 owner have free: "bm_lookup (db_versions db) (cv_id w) = None"
    and db1: "db1 = db\<lparr>db_versions := bm_insert (cv_id w) \<lparr>vr_crawler_id = c, vr_state = Draft, vr_configuration = w\<rparr> (db_versions db)\<rparr>"
    by (simp_all add: row_statements w clone_of_simps)
  from db3 obtain row' where "bm_lookup (db_crawlers db2) c = Some row'"
    and db3: "db3 = db2\<lparr>db_crawlers := bm_insert c (row'\<lparr>active_draft_version_id := Some (cv_id w)\<rparr>) (db_crawlers db2)\<rparr>"
    by (auto simp: activate_draft_pointer_def Let_def row_statements split: prod.splits if_splits)
  moreover have "db_crawlers db2 = db_crawlers db"
    using clone_child_rows_frame [OF db2] by (simp add: db1)
  ultimately have "row' = row" and lookup: "bm_lookup (db_crawlers db2) c = Some row" using row by simp_all
  have "source_id \<noteq> cv_id w" using r(1) free by auto
  moreover have "db' = db2\<lparr>db_crawlers := bm_insert c (row\<lparr>active_draft_version_id := Some (cv_id w)\<rparr>) (db_crawlers db2),
       db_audit := bm_insert k a (db_audit db2)\<rparr>"
    using audit by (simp add: row_statements db3 \<open>row' = row\<close>)
  ultimately show thesis
    by (intro that [OF row w owner r(3,5) pages free db2 [unfolded same db1] hash [unfolded db3 \<open>row' = row\<close>] _ lookup])
qed

lemma clone_repo_ok:
  assumes ok: "repo_ok env loose db" and run: "clone_draft_in_transaction env ids c source_id actor at db = Inr (w, db')"
  shows "repo_ok env loose db'"
proof -
  let ?i = "cv_id w" and ?r = "\<lparr>vr_crawler_id = c, vr_state = Draft, vr_configuration = w\<rparr>"
  have tables: "tables_ok db" and owned: "matchers_owned db" using ok by (simp_all add: repo_ok_def)
  obtain row source db2 hash k a where row: "bm_lookup (db_crawlers db) c = Some row" "active_draft_version_id row = None"
    and w: "w = clone_of (clone_fresh ids) source" and source: "cv_crawler_id source = c" "cv_id source = source_id"
      "seeds_consistent env (seeds_of db source_id) source" "pages_consistent env (view db source_id) source"
    and free: "bm_lookup (db_versions db) ?i = None"
    and rows: "clone_child_rows ids source_id ?i (declared_child_id_map (map seed_id (cv_seeds source)) (map seed_id (cv_seeds w)))
       (declared_child_id_map (cv_page_type_ids source) (cv_page_type_ids w))
       (augment_child_id_map (opaque_transition ids) (map fst (filter (\<lambda>(i, r). tw_version_id r = source_id) (db_transitions db)))
          (declared_child_id_map (cv_transition_ids source) (cv_transition_ids w)))
       (db\<lparr>db_versions := bm_insert ?i ?r (db_versions db)\<rparr>) = Inr db2"
    and hash: "semantic_hash env (db2\<lparr>db_crawlers := bm_insert c (row\<lparr>active_draft_version_id := Some ?i\<rparr>) (db_crawlers db2)\<rparr>) w = Inr hash"
    and db': "db' = db2\<lparr>db_crawlers := bm_insert c (row\<lparr>active_draft_version_id := Some ?i\<rparr>) (db_crawlers db2),
       db_audit := bm_insert k a (db_audit db2)\<rparr>"
    and crawlers: "bm_lookup (db_crawlers db2) c = Some row" and neq: "source_id \<noteq> ?i"
    by (rule clone_start [OF ok run])
  let ?old = "cv_page_type_ids source" and ?new = "cv_page_type_ids w"
  let ?page_map = "declared_child_id_map ?old ?new"
  define db1 where "db1 = db\<lparr>db_versions := bm_insert ?i ?r (db_versions db)\<rparr>"
  have rows_same: "seeds_of db1 = seeds_of db" "pages_of db1 = pages_of db" "transitions_of db1 = transitions_of db"
    by (simp_all add: fun_eq_iff db1_def seeds_of_def pages_of_def transitions_of_def)
  have tables1: "tables_ok db1" using tables by (simp add: db1_def keep_tables)
  have owned1: "matchers_owned db1" using owned by (simp add: db1_def matchers_owned_def)
  have old: "distinct ?old" "dom (pages_of db source_id) = set ?old" using source(4) by (simp_all add: pages_consistent_def view_def)
  have page_map: "?page_map = (\<lambda>x. map_option (fresh_page_type (clone_fresh ids)) (position x ?old))"
    using old(1) by (simp add: w clone_of_simps declared_map_renamed)
  have map_old: "?page_map h = Some (renamed (clone_fresh ids) ?old h)" if h: "h \<in> set ?old" for h
  proof -
    from h obtain n where "position h ?old = Some n" by (metis not_None_eq position_None)
    then show ?thesis by (simp add: page_map renamed_def)
  qed
  have mapped: "\<exists>q. ?page_map p = Some q" if "pages_of db1 source_id p = Some r" for p r
    using map_old [of p] that old(2) by (auto simp: rows_same)
  obtain t1 t2 t3 t4 seed_rows where db2: "db2 = db1\<lparr>db_seeds := t1, db_page_types := t2, db_matchers := t3, db_transitions := t4\<rparr>"
    and tables2: "tables_ok db2" and edits: "edits ?i db1 db2" and owned2: "matchers_owned db2"
    and seed_run: "collect_results (clone_seed (declared_child_id_map (map seed_id (cv_seeds source)) (map seed_id (cv_seeds w)))
       ?page_map (opaque_seed ids) ?i) (filter (\<lambda>(i, r). sr_version_id r = source_id) (db_seeds db1)) = Inr seed_rows"
    and seed_rows: "distinct (map fst seed_rows)" "seeds_of db2 ?i = map_of seed_rows"
    and page_keys: "distinct (map (\<lambda>p. the (?page_map (fst p))) (filter (\<lambda>(i, r). pg_version_id r = source_id) (db_page_types db1)))"
    and page_dom: "dom (pages_of db2 ?i) = (\<lambda>p. the (?page_map (fst p))) ` set (filter (\<lambda>(i, r). pg_version_id r = source_id) (db_page_types db1))"
    by (rule clone_child_rows_Inr [OF rows [folded db1_def] tables1 owned1 neq _ _ mapped])
      (simp_all add: rows_same fresh_view [OF ok free])
  have seeds: "seeds_consistent env (map_of seed_rows) w"
    unfolding w
    by (rule clone_seed_rows [OF tables1 _ map_old [unfolded w] seed_run [unfolded w] seed_rows(1)]) (simp_all add: rows_same source(3))
  let ?source_pages = "filter (\<lambda>(i, r). pg_version_id r = source_id) (db_page_types db)"
  have same_pages: "db_page_types db1 = db_page_types db" by (simp add: db1_def)
  have source_pages: "fst ` set ?source_pages = set ?old"
    unfolding old(2) [symmetric] pages_of_def set_filter_rows [OF tables_invar(4) [OF tables]] by (rule dom_rows)
  have "set ?new = (\<lambda>h. the (?page_map h)) ` set ?old"
  proof -
    have "?new = map (\<lambda>h. the (?page_map h)) ?old"
      by (rule nth_equalityI) (simp_all add: w clone_of_simps page_map [unfolded w clone_of_simps] position_nth [OF old(1)])
    then show ?thesis by (metis set_map)
  qed
  then have new: "dom (pages_of db2 ?i) = set ?new"
    by (simp add: page_dom same_pages source_pages [symmetric] image_image)
  have "length ?source_pages = length ?old"
  proof -
    have "length ?source_pages = card (fst ` set ?source_pages)"
      using distinct_card [OF bm_invar_distinct [OF bm_filter_invar [OF tables_invar(4) [OF tables]]]] by simp
    with source_pages distinct_card [OF old(1)] show ?thesis by simp
  qed
  then have "length ?new = length (map (\<lambda>p. the (?page_map (fst p))) ?source_pages)" by (simp add: w clone_of_simps)
  moreover have "set ?new = set (map (\<lambda>p. the (?page_map (fst p))) ?source_pages)" using new by (simp add: page_dom same_pages)
  ultimately have new_distinct: "distinct ?new" using page_keys unfolding same_pages by (metis distinct_by_count)
  define db3 where "db3 = db2\<lparr>db_crawlers := bm_insert c (row\<lparr>active_draft_version_id := Some ?i\<rparr>) (db_crawlers db2)\<rparr>"
  have tables3: "tables_ok db3" using tables2 by (simp add: db3_def keep_tables)
  have view3: "view db3 j = view db2 j" "view db' j = view db2 j" for j by (simp_all add: db3_def db' view_defs)
  then have pages3: "pages_of db3 ?i = pages_of db2 ?i" "matchers_of db3 ?i = matchers_of db2 ?i" by (simp_all add: view_def)
  from hash have "semantic_hash env db3 w = Inr hash" by (simp add: db3_def)
  then have checked: "validate_semantic_contract (rp_scope env) w = Inr ()" "transitions_consistent (view db2 ?i) w"
    "\<forall>m \<in> ran (matchers_of db2 ?i). validate_definition (rp_matcher env) (ma_matcher m) = Inr ()"
    using semantic_hash_Inr [OF tables3, of w env hash] new by (simp_all add: view3 pages3)
  have "bm_lookup (db_versions db2) ?i = Some ?r" by (simp add: db2 db1_def bm_insert_lookup)
  moreover have "cv_crawler_id w = c" "cv_state w = Draft" by (simp_all add: w clone_of_simps source(1))
  ultimately have own: "version_consistent env (view db' ?i) ?i"
    unfolding view3 using checked seeds new new_distinct seed_rows(2)
    by (simp add: version_consistent_def view_def pages_consistent_def)
  have "edits ?i db db1" unfolding db1_def by (rule edits_versions)
  with edits have "edits ?i db db2" by (blast intro: edits_trans)
  then have "view db' j = view db j" if "j \<noteq> ?i" for j using that by (simp add: edits_def view3)
  moreover have "pointers_ok db'"
  proof (rule new_draft_pointers [OF _ free row, of ?r])
    show "pointers_ok db" using ok by (simp add: repo_ok_def)
    show "db_versions db' = bm_insert ?i ?r (db_versions db)" unfolding db' db2 db1_def by simp
    show "db_crawlers db' = bm_insert c (row\<lparr>active_draft_version_id := Some ?i\<rparr>) (db_crawlers db)"
      unfolding db' db2 db1_def by simp
  qed simp_all
  moreover have "matchers_owned db'" using owned2 by (simp add: db' matchers_owned_def)
  moreover have "tables_ok db'" using tables2 by (simp add: db' keep_tables)
  ultimately show ?thesis
    using own version_consistent_sound [OF own] by (blast intro: repo_okI [OF ok])
qed

end
