(* ===== verification/Crawler_Properties.thy ===== *)
theory Crawler_Properties
  imports Crawler_History
begin

text \<open>
  What the crawler repository promises: its tables are sound after any history, and consistent but for
  drafts saved as a whole with other child rows than the stored ones; exactly the consistent versions
  load; when publishing and reactivating succeed; and that creating a draft under contention always answers.
\<close>

section \<open>Histories keep the tables consistent\<close>

text \<open>The drafts a history saved as a whole with child rows other than the stored ones.\<close>

definition loose_save :: "'u repo_env \<Rightarrow> 'u crawler_op \<Rightarrow> 'u crawler_db \<Rightarrow> CrawlerVersionId set" where
  "loose_save env a db = (case a of
     SaveDraft v actor at \<Rightarrow> if coherent db v \<or> isl (save_draft env v actor at db) then {} else {cv_id v}
   | _ \<Rightarrow> {})"

fun loose_saves :: "'u repo_env \<Rightarrow> 'u crawler_op list \<Rightarrow> 'u crawler_db \<Rightarrow> CrawlerVersionId set" where
  "loose_saves env [] db = {}"
| "loose_saves env (a # as) db = loose_save env a db \<union> loose_saves env as (write_op env a db)"

lemma edits_repo_ok:
  assumes "repo_ok env loose db"
  shows "create_discovery_transition env fresh c i t actor at db = Inr (u, db') \<Longrightarrow> repo_ok env loose db'"
    "update_discovery_transition env fresh c i tid t actor at db = Inr (u, db') \<Longrightarrow> repo_ok env loose db'"
    "delete_discovery_transition env fresh c i tid actor at db = Inr (u, db') \<Longrightarrow> repo_ok env loose db'"
    "create_page_type env fresh pt c i name prio actor at db = Inr (u, db') \<Longrightarrow> repo_ok env loose db'"
    "update_page_type env fresh c i pt name prio actor at db = Inr (u, db') \<Longrightarrow> repo_ok env loose db'"
    "delete_page_type env fresh c i pt actor at db = Inr (u, db') \<Longrightarrow> repo_ok env loose db'"
    "create_url_matcher env fresh mid c i pt matcher actor at db = Inr (n, db') \<Longrightarrow> repo_ok env loose db'"
    "update_url_matcher env fresh c i pt mid matcher actor at db = Inr (u, db') \<Longrightarrow> repo_ok env loose db'"
    "delete_url_matcher env fresh c i pt mid actor at db = Inr (u, db') \<Longrightarrow> repo_ok env loose db'"
    "update_canonicalization_policy env fresh c i policy actor at db = Inr (v, db') \<Longrightarrow> repo_ok env loose db'"
    "update_domain_scope_policy env fresh c i scope actor at db = Inr (v, db') \<Longrightarrow> repo_ok env loose db'"
    "update_crawler_version_guardrails env fresh c i guardrails actor at db = Inr (v, db') \<Longrightarrow> repo_ok env loose db'"
  using draft_edit_repo_ok [OF assms] assms by (auto simp: repo_ok_def dest: draft_edits)

lemma write_op_repo_ok:
  assumes "repo_ok env loose db" "loose_save env a db \<subseteq> loose"
  shows "repo_ok env loose (write_op env a db)"
  by (insert assms(2); cases a; simp only: write_op.simps loose_save_def crawler_op.case; rule run_tx_relation [where R = "repo_ok env loose"];
      (rule assms(1) | erule edits_repo_ok [OF assms(1)] create_crawler_repo_ok [OF assms(1)] create_draft_repo_ok [OF assms(1)]
        clone_repo_ok [OF assms(1)] publish_repo_ok [OF assms(1)] reactivate_repo_ok [OF assms(1)]
      | frule save_draft_repo_ok [OF assms(1), rotated]; simp split: if_splits))

lemma empty_repo_ok: "repo_ok env loose empty_crawler_db"
  by (simp add: repo_ok_def empty_tables_ok)
    (simp add: empty_crawler_db_def pointers_ok_def matchers_owned_def version_consistent_def version_sound_def view_defs
      rows_of_def bm_lookup_def fun_eq_iff)

lemma history_repo_ok:
  "repo_ok env loose db \<Longrightarrow> loose_saves env ops db \<subseteq> loose \<Longrightarrow> repo_ok env loose (perform_all env ops db)"
  unfolding perform_all_def
  by (induction ops arbitrary: db) (auto intro: write_op_repo_ok)

text \<open>An environment without public suffixes, regular expressions or contributors.\<close>

definition sample_repo_env :: "plain_url repo_env" where
  "sample_repo_env = \<lparr>rp_scope = \<lparr>scope_api = plain_api, psl_domain = (\<lambda>_. None)\<rparr>, rp_matcher = sample_matcher_env,
     rp_registry = [], rp_digest = (\<lambda>_ _. ''digest''), rp_evidence = (\<lambda>_ _. Inr [])\<rparr>"

definition sample_clone_ids :: clone_ids where
  "sample_clone_ids = \<lparr>clone_fresh = \<lparr>fresh_version = ''v2'', fresh_seed = (\<lambda>_. ''s''), fresh_page_type = (\<lambda>_. ''p''),
     fresh_transition = (\<lambda>_. ''t'')\<rparr>, opaque_page = (\<lambda>s. s), opaque_transition = (\<lambda>s. s), opaque_seed = (\<lambda>s. s),
     matcher_id = (\<lambda>_. ''m'')\<rparr>"

text \<open>A draft gets a page type, is saved as a whole with a transition budget of its own, published, cloned, and
  the clone is saved without its page type.\<close>

definition saved_draft :: "CrawlerVersionId \<Rightarrow> PageTypeId list \<Rightarrow> plain_url CrawlerVersion" where
  "saved_draft i pages = (draft i ''c'')\<lparr>cv_page_type_ids := pages\<rparr>"

definition sample_history :: "plain_url crawler_op list" where
  "sample_history = [CreateCrawler (new_crawler ''c'' ''Shop''), CreateDraft ''v1'' ''c'' ''op'' ''unix:1'',
     CreatePageType ''a1'' ''product'' ''c'' ''v1'' ''Product'' 0 ''op'' ''unix:2'',
     SaveDraft (saved_draft ''v1'' [''product'']) ''op'' ''unix:3'',
     Publish ''c'' ''v1'' ''op'' ''unix:4'', CloneDraft sample_clone_ids ''c'' ''v1'' ''op'' ''unix:5'',
     SaveDraft (saved_draft ''v2'' []) ''op'' ''unix:6'']"

lemma coherent_rows:
  assumes "tables_ok db"
  shows "coherent db v \<longleftrightarrow>
     list_all (\<lambda>s. case entry_page_type_hint s of None \<Rightarrow> True | Some hint \<Rightarrow> hint \<in> set (cv_page_type_ids v)) (cv_seeds v)
     \<and> distinct (cv_page_type_ids v)
     \<and> set (map fst (filter (\<lambda>(k, r). pg_version_id r = cv_id v) (db_page_types db))) = set (cv_page_type_ids v)
     \<and> distinct (cv_transition_ids v)
     \<and> set (map fst (filter (\<lambda>(k, r). tw_version_id r = cv_id v) (db_transitions db))) = set (cv_transition_ids v)"
  unfolding coherent_def names_rows_def view_def pages_of_def transitions_of_def set_map
    set_filter_rows [OF tables_invar(4) [OF assms]] set_filter_rows [OF tables_invar(6) [OF assms]] dom_rows
  by (auto simp: hints_owned_def list_all_iff split: option.splits)

definition sample_state :: "nat \<Rightarrow> plain_url crawler_db" where
  "sample_state n = perform_all sample_repo_env (take n sample_history) empty_crawler_db"

lemma sample_tables: "tables_ok (sample_state n)"
  using history_repo_ok [OF empty_repo_ok subset_UNIV, of sample_repo_env "take n sample_history"]
  by (simp add: sample_state_def repo_ok_def)

lemma sample_saved: "coherent (sample_state 3) (saved_draft ''v1'' [''product''])"
  unfolding coherent_rows [OF sample_tables] by code_simp

lemma sample_loose: "loose_saves sample_repo_env sample_history empty_crawler_db \<subseteq> {''v2''}"
  using sample_saved
  by (simp add: sample_history_def loose_save_def sample_state_def perform_all_def saved_draft_def draft_def del: write_op.simps)

text \<open>
  C12. Whatever operations ran, in whatever order and with whatever arguments, the tables are sound: the
  active draft of a crawler is its only draft and its published pointer names a published version of it;
  every version is stored under its identity with a valid contract; its seed rows are the projection of its
  seeds; its matchers are valid and its valid transitions join page types of its own.  Every published
  version, and every draft except those a caller saved as a whole with other child rows than the stored
  ones, also names exactly the page types and transitions that are stored, and hints only at those.
\<close>
theorem crawler_store_consistent:
  "repo_ok env (loose_saves env ops empty_crawler_db) (perform_all env ops empty_crawler_db)"
  by (rule history_repo_ok [OF empty_repo_ok]) simp

lemma sample_versions:
  "map (\<lambda>(i, r). (i, vr_state r)) (db_versions (perform_all sample_repo_env sample_history empty_crawler_db))
     = [(''v1'', Published), (''v2'', Draft)]"
  by code_simp

lemma sample_published: "published_version (perform_all sample_repo_env sample_history empty_crawler_db) ''v1''"
  unfolding published_version_def by code_simp

theorem crawler_store_consistent_witness:
  "let db = perform_all sample_repo_env sample_history empty_crawler_db in
     map (\<lambda>(i, r). (i, vr_state r)) (db_versions db) = [(''v1'', Published), (''v2'', Draft)]
   \<and> ''v1'' \<notin> loose_saves sample_repo_env sample_history empty_crawler_db
   \<and> version_consistent sample_repo_env (view db ''v1'') ''v1'' \<and> version_sound sample_repo_env (view db ''v2'') ''v2''"
  using crawler_store_consistent [of sample_repo_env sample_history] sample_versions sample_published sample_loose
  by (auto simp: Let_def repo_ok_def)

section \<open>Which versions load\<close>

lemma consistent_version:
  assumes "repo_ok env loose db" "version_consistent env (view db i) i" "bm_lookup (db_versions db) i = Some r"
  shows "cv_id (vr_configuration r) = i" "cv_crawler_id (vr_configuration r) = vr_crawler_id r" "cv_state (vr_configuration r) = vr_state r"
    "load_version env db i = Inr (vr_configuration r)" "validate_seed_projection env db (vr_configuration r) = Inr ()"
    "\<exists>pages. load_page_type_records env db (vr_configuration r) = Inr pages"
    "\<exists>ts. load_transition_records db (vr_configuration r) True = Inr ts"
    "semantic_hash env db (vr_configuration r) = Inr (rp_digest env db (vr_configuration r))"
proof -
  let ?v = "vr_configuration r"
  have tables: "tables_ok db" using assms(1) by (simp add: repo_ok_def)
  from assms(2,3) have v: "cv_id ?v = i" "cv_crawler_id ?v = vr_crawler_id r" "cv_state ?v = vr_state r"
    "validate_semantic_contract (rp_scope env) ?v = Inr ()" "seeds_consistent env (seeds_of db i) ?v"
    "pages_consistent env (view db i) ?v" "transitions_consistent (view db i) ?v"
    by (simp_all add: version_consistent_def view_def Let_def)
  then have dom: "dom (pages_of db (cv_id ?v)) = set (cv_page_type_ids ?v)"
    and matchers: "\<forall>m \<in> ran (matchers_of db (cv_id ?v)). validate_definition (rp_matcher env) (ma_matcher m) = Inr ()"
    by (simp_all add: pages_consistent_def view_def)
  show "cv_id ?v = i" "cv_crawler_id ?v = vr_crawler_id r" "cv_state ?v = vr_state r" by (fact v)+
  show "load_version env db i = Inr ?v" using v assms(3) by (simp add: load_version_def load_version_with_Inr [OF tables])
  show "validate_seed_projection env db ?v = Inr ()" using v by (simp add: validate_seed_projection_iff [OF tables])
  show "\<exists>pages. load_page_type_records env db ?v = Inr pages" using v by (simp add: load_page_type_records_iff [OF tables])
  show "\<exists>ts. load_transition_records db ?v True = Inr ts" using v by (simp add: load_transition_records_iff [OF tables dom])
  show "semantic_hash env db ?v = Inr (rp_digest env db ?v)" using v matchers by (simp add: semantic_hash_Inr [OF tables dom])
qed

lemma load_version_consistent:
  assumes ok: "repo_ok env loose db" and load: "load_version env db i = Inr v"
    and rows: "load_page_type_records env db v = Inr ps" "load_transition_records db v True = Inr ts"
  shows "version_consistent env (view db i) i"
proof -
  have tables: "tables_ok db" and sound: "version_sound env (view db i) i" using ok by (simp_all add: repo_ok_def)
  from load obtain r where r: "bm_lookup (db_versions db) i = Some r" "v = vr_configuration r"
    and "seeds_consistent env (seeds_of db i) v"
    by (auto simp: load_version_def load_version_with_Inr [OF tables])
  then have "hints_owned (vr_configuration r)" by (simp add: seeds_consistent_iff)
  with rows show ?thesis by (intro loaded_consistent [OF tables sound r(1)]) (simp_all add: r(2))
qed

lemma load_semantic_snapshot_iff:
  assumes "repo_ok env loose db"
  shows "(\<exists>s. load_semantic_snapshot env db c i = Inr s) \<longleftrightarrow>
    map_option vr_crawler_id (bm_lookup (db_versions db) i) = Some c \<and> version_consistent env (view db i) i"
    (is "?loads \<longleftrightarrow> ?owner \<and> ?consistent")
proof
  assume ?loads
  then obtain v ps ts where v: "load_version env db i = Inr v" "cv_crawler_id v = c"
    "load_page_type_records env db v = Inr ps" "load_transition_records db v True = Inr ts"
    by (auto simp: load_semantic_snapshot_def result_simps split: if_splits)
  have "tables_ok db" using assms by (simp add: repo_ok_def)
  with v(1,2) have ?owner by (auto simp: load_version_def load_version_with_Inr)
  with load_version_consistent [OF assms v(1,3,4)] show "?owner \<and> ?consistent" by simp
next
  assume "?owner \<and> ?consistent"
  then obtain r where r: "bm_lookup (db_versions db) i = Some r" "vr_crawler_id r = c" and ?consistent by auto
  note ok = consistent_version [OF assms \<open>?consistent\<close> r(1)]
  from ok(6,7) obtain pages ts where "load_page_type_records env db (vr_configuration r) = Inr pages"
    "load_transition_records db (vr_configuration r) True = Inr ts" by blast
  with r ok show ?loads by (simp add: load_semantic_snapshot_def result_simps semantic_hash_def [symmetric])
qed

lemma load_semantic_snapshot_version:
  "load_semantic_snapshot env db c i = Inr s \<Longrightarrow> load_version env db i = Inr (snap_version s)"
  by (auto simp: load_semantic_snapshot_def result_simps split: if_splits)

lemma pointers_ensured: "repo_ok env loose db \<Longrightarrow> ensure_pointer_consistency db c = Inr ()"
  using pointers_okD(2,3) [of db c] by (auto simp: repo_ok_def ensure_pointer_consistency_def split: option.split)

lemma active_draft_row:
  assumes "repo_ok env loose db" "bm_lookup (db_crawlers db) c = Some row" "active_draft_version_id row = Some i"
  obtains r where "bm_lookup (db_versions db) i = Some r" "vr_crawler_id r = c" "vr_state r = Draft"
  using pointers_okD(2) [of db c row] assms by (auto simp: repo_ok_def pointer_ok_def split: option.splits)

lemma load_mutation_version_iff:
  assumes "repo_ok env loose db"
  shows "(\<exists>v. load_mutation_version env db c i = Inr v) \<longleftrightarrow>
    Option.bind (bm_lookup (db_crawlers db) c) active_draft_version_id = Some i \<and> version_consistent env (view db i) i"
    (is "?loads \<longleftrightarrow> ?active \<and> ?consistent")
proof
  assume ?loads
  then obtain v where v1: "load_mutation_version env db c i = Inr v" ..
  then obtain ps ts where v2: "load_version env db i = Inr v"
    "load_page_type_records env db v = Inr ps" "load_transition_records db v True = Inr ts"
    by (auto simp: load_mutation_version_def result_simps split: if_splits)
  note v = v1 v2
  have "tables_ok db" using assms by (simp add: repo_ok_def)
  with v(1) have ?active by (metis load_mutation_version_Inr bind.bind_lunit)
  with load_version_consistent [OF assms v(2-4)] show "?active \<and> ?consistent" by simp
next
  assume "?active \<and> ?consistent"
  then obtain row where row: "bm_lookup (db_crawlers db) c = Some row" "active_draft_version_id row = Some i" and ?consistent
    by (auto simp: bind_eq_Some_conv)
  obtain r where r: "bm_lookup (db_versions db) i = Some r" "vr_crawler_id r = c" "vr_state r = Draft"
    by (rule active_draft_row [OF assms row])
  note ok = consistent_version [OF assms \<open>?consistent\<close> r(1)]
  from ok(6,7) obtain pages ts where "load_page_type_records env db (vr_configuration r) = Inr pages"
    "load_transition_records db (vr_configuration r) True = Inr ts" by blast
  with ok r row show ?loads
    by (simp add: load_mutation_version_def ensure_crawler_exists_def active_draft_for_def result_simps)
qed

lemma evaluation_snapshot_iff:
  assumes "repo_ok env loose db"
  shows "(\<exists>s. evaluation_snapshot env db c i published = Inr s) \<longleftrightarrow>
    Option.bind (bm_lookup (db_crawlers db) c) active_draft_version_id = Some i \<and> version_consistent env (view db i) i"
    (is "?loads \<longleftrightarrow> ?active \<and> ?consistent")
proof
  assume ?loads
  then have ?active and "\<exists>s. load_semantic_snapshot env db c i = Inr s"
    by (auto simp: evaluation_snapshot_def result_simps split: if_splits)
  with load_semantic_snapshot_iff [OF assms] show "?active \<and> ?consistent" by blast
next
  assume "?active \<and> ?consistent"
  then obtain row where row: "bm_lookup (db_crawlers db) c = Some row" "active_draft_version_id row = Some i" and ?consistent
    by (auto simp: bind_eq_Some_conv)
  obtain r where r: "bm_lookup (db_versions db) i = Some r" "vr_crawler_id r = c" "vr_state r = Draft"
    by (rule active_draft_row [OF assms row])
  with \<open>?consistent\<close> obtain s where s: "load_semantic_snapshot env db c i = Inr s"
    using load_semantic_snapshot_iff [OF assms, of c i] by auto
  have state: "cv_state (snap_version s) = Draft"
    using load_semantic_snapshot_version [OF s] consistent_version(3,4) [OF assms \<open>?consistent\<close> r(1)] r(3) by simp
  have "\<exists>s. load_semantic_snapshot env db c p = Inr s" if p: "active_published_version_id row = Some p" for p
  proof -
    have "pointer_ok db c Published (Some p)" using pointers_okD(3) [of db c row] assms row(1) p by (simp add: repo_ok_def)
    then have owner: "map_option vr_crawler_id (bm_lookup (db_versions db) p) = Some c" and "published_version db p"
      by (auto simp: pointer_ok_def published_version_def split: option.splits)
    then have "version_consistent env (view db p) p" using assms by (simp add: repo_ok_def)
    with owner load_semantic_snapshot_iff [OF assms] show ?thesis by blast
  qed
  with row s state show ?loads
    by (cases "active_published_version_id row")
      (auto simp: evaluation_snapshot_def ensure_crawler_exists_def pointers_ensured [OF assms] result_simps)
qed

text \<open>
  C13. After any history, exactly the consistent versions load: a version of a crawler loads as a snapshot, and its
  active draft can be edited, and can be tested and previewed with the published version beside it when
  that is asked for, exactly when the configuration names the child rows that are stored.  That is so for
  every published version and for every draft that was not saved as a whole with other child rows: what
  the operations on single rows stored is never lost to a consistency check.
\<close>
theorem stored_versions_load:
  "let db = perform_all env ops empty_crawler_db; consistent = version_consistent env (view db i) i in
     ((\<exists>s. load_semantic_snapshot env db c i = Inr s) \<longleftrightarrow>
        map_option vr_crawler_id (bm_lookup (db_versions db) i) = Some c \<and> consistent)
   \<and> ((\<exists>v. load_mutation_version env db c i = Inr v) \<longleftrightarrow>
        Option.bind (bm_lookup (db_crawlers db) c) active_draft_version_id = Some i \<and> consistent)
   \<and> ((\<exists>s. evaluation_snapshot env db c i published = Inr s) \<longleftrightarrow>
        Option.bind (bm_lookup (db_crawlers db) c) active_draft_version_id = Some i \<and> consistent)
   \<and> (published_version db i \<or> i \<notin> loose_saves env ops empty_crawler_db \<longrightarrow> consistent)"
proof -
  let ?db = "perform_all env ops empty_crawler_db"
  have ok: "repo_ok env (loose_saves env ops empty_crawler_db) ?db" by (rule history_repo_ok [OF empty_repo_ok]) simp
  then have "published_version ?db i \<or> i \<notin> loose_saves env ops empty_crawler_db \<longrightarrow> version_consistent env (view ?db i) i"
    by (auto simp: repo_ok_def)
  then show ?thesis
    by (simp add: Let_def load_semantic_snapshot_iff [OF ok] load_mutation_version_iff [OF ok] evaluation_snapshot_iff [OF ok])
qed

theorem stored_versions_load_witness:
  "let db = perform_all sample_repo_env sample_history empty_crawler_db in
     (\<exists>s. load_semantic_snapshot sample_repo_env db ''c'' ''v1'' = Inr s)
   \<and> Option.bind (bm_lookup (db_crawlers db) ''c'') active_draft_version_id = Some ''v2''
   \<and> \<not> version_consistent sample_repo_env (view db ''v2'') ''v2''"
proof -
  let ?db = "perform_all sample_repo_env sample_history empty_crawler_db"
  have v1: "map_option vr_crawler_id (bm_lookup (db_versions ?db) ''v1'') = Some ''c''" by code_simp
  have draft: "Option.bind (bm_lookup (db_crawlers ?db) ''c'') active_draft_version_id = Some ''v2''" by code_simp
  have "load_mutation_version sample_repo_env ?db ''c'' ''v2'' = Inl CrCorruptState" by code_simp
  then have "\<not> version_consistent sample_repo_env (view ?db ''v2'') ''v2''"
    using stored_versions_load [of sample_repo_env sample_history "''v2''" "''c''" False] draft by (simp add: Let_def)
  moreover have "\<exists>s. load_semantic_snapshot sample_repo_env ?db ''c'' ''v1'' = Inr s"
    using stored_versions_load [of sample_repo_env sample_history "''v1''" "''c''" False] v1 sample_published
    by (simp add: Let_def)
  ultimately show ?thesis using draft by (simp add: Let_def)
qed

section \<open>Publishing and reactivating\<close>

lemma publication_context_facts:
  assumes "publication_validation_context env db c i = Inr ctx"
  obtains r row where "bm_lookup (db_versions db) i = Some r" "vr_crawler_id r = c" "vr_state r = Draft" "cv_state (ctx_version ctx) = Draft"
    "bm_lookup (db_crawlers db) c = Some row" "active_draft_version_id row = Some i"
  using assms
  by (auto simp: publication_validation_context_def load_publication_version_def load_version_with_def Let_def
      version_from_row_with_semantic_validation_def active_draft_for_def result_simps split: if_splits)

lemma audit_metadata_crawlers [simp]:
  "audit_metadata (db\<lparr>db_versions := t\<rparr>) i = audit_metadata db i" "audit_metadata (db\<lparr>db_crawlers := u\<rparr>) i = audit_metadata db i"
  by (simp_all add: audit_metadata_def)

text \<open>
  C14. Publishing succeeds exactly when the validation shown to the author is publishable, the audit trail of
  the version reads back, and the version was not published at the same instant before: the checks of
  publishing and of its preview cannot disagree, and no other step of the transaction can fail.
\<close>
theorem publish_iff_validation_passes:
  "(\<exists>x. publish_in_transaction env c i actor at db = Inr x) \<longleftrightarrow>
     (\<exists>report. publish_validation env db c i = Inr report \<and> publishable report)
     \<and> (\<exists>meta. audit_metadata db i = Inr meta)
     \<and> bm_lookup (db_audit db) (''publish:'' @ i @ '':'' @ at) = None"
proof (cases "publication_validation_context env db c i")
  case (Inl e)
  then show ?thesis by (simp add: publish_in_transaction_def publish_validation_def result_simps)
next
  case (Inr ctx)
  then obtain r row where r: "bm_lookup (db_versions db) i = Some r" "vr_crawler_id r = c" "vr_state r = Draft" "cv_state (ctx_version ctx) = Draft"
    and row: "bm_lookup (db_crawlers db) c = Some row" "active_draft_version_id row = Some i"
    by (rule publication_context_facts)
  then have draft: "publish (ctx_version ctx) = Inr ((ctx_version ctx)\<lparr>cv_state := Published\<rparr>)"
    by (simp add: publish_def ensure_draft_def)
  show ?thesis
  proof (cases "validate_registry (rp_registry env) ctx")
    case (Inr report)
    with \<open>publication_validation_context env db c i = Inr ctx\<close> draft r row show ?thesis
      by (cases "audit_metadata db i")
        (auto simp: publish_in_transaction_def publish_validation_def result_simps publish_version_row_def
          update_crawler_row_def Let_def row_statements)
  qed (use Inr in \<open>simp add: publish_in_transaction_def publish_validation_def result_simps\<close>)
qed

text \<open>
  C15. A published version of a crawler is reactivated exactly when no reactivation of it was recorded under
  the same time stamp: time stamps have a resolution of one second, so a second reactivation within that
  second fails on the primary key of the audit trail.
\<close>
theorem reactivation_needs_unused_second:
  "(\<exists>x. reactivate_in_transaction env c i actor at db = Inr x) \<longleftrightarrow>
     (\<exists>v. load_version env db i = Inr v \<and> cv_crawler_id v = c \<and> cv_state v = Published)
     \<and> bm_lookup (db_crawlers db) c \<noteq> None
     \<and> bm_lookup (db_audit db) (''reactivate:'' @ i @ '':'' @ at) = None"
proof (cases "load_version env db i")
  case (Inr v)
  then have "pointer_ok db (cv_crawler_id v) (cv_state v) (Some i)"
    by (auto simp: load_version_def load_version_with_def version_from_row_with_semantic_validation_def Let_def
        pointer_ok_def result_simps split: if_splits)
  with Inr show ?thesis
    by (cases "bm_lookup (db_crawlers db) c")
      (auto simp: reactivate_in_transaction_def update_crawler_row_def row_statements result_simps Let_def)
qed (simp add: reactivate_in_transaction_def result_simps)

section \<open>Contention\<close>

text \<open>An attempt that met contention and was found worth repeating.\<close>

definition contended :: "('u, 'a) crawler_tx \<Rightarrow> CrawlerId \<Rightarrow> (nat \<Rightarrow> 'u db_access) \<Rightarrow> nat \<Rightarrow> bool" where
  "contended body c calls n \<longleftrightarrow>
     (case attempt_tx body (calls (2 * n)) of
        Inl (CrDatabase f) \<Rightarrow> is_contention f \<and> retry_lifecycle_contention c n f (calls (2 * n + 1)) = Inr ()
      | _ \<Rightarrow> False)"

lemma last_attempt_not_contended:
  "LIFECYCLE_CONTENTION_ATTEMPTS \<le> Suc n \<Longrightarrow> \<not> contended body c calls n"
  by (auto simp: contended_def retry_lifecycle_contention_def Let_def split: sum.splits CrawlerRepositoryError.splits
      db_access.splits option.splits)

lemma lifecycle_attempts_skip:
  "contended body c calls n \<Longrightarrow> lifecycle_attempts body c calls (n # ns) = lifecycle_attempts body c calls ns"
  by (auto simp: contended_def split: sum.splits CrawlerRepositoryError.splits)

lemma lifecycle_attempts_stop:
  "\<not> contended body c calls n \<Longrightarrow> \<exists>r. lifecycle_attempts body c calls (n # ns) = Some r
     \<and> (\<forall>x. r = Inr x \<longleftrightarrow> attempt_tx body (calls (2 * n)) = Inr x)"
  by (auto simp: contended_def split: sum.splits CrawlerRepositoryError.splits)

lemma contended_fails: "contended body c calls n \<Longrightarrow> attempt_tx body (calls (2 * n)) \<noteq> Inr x"
  by (auto simp: contended_def)

lemma lifecycle_attempts_answer:
  assumes "k < LIFECYCLE_CONTENTION_ATTEMPTS"
  shows "(\<exists>r. lifecycle_attempts body c calls [k..<LIFECYCLE_CONTENTION_ATTEMPTS] = Some r)
    \<and> (\<forall>x. lifecycle_attempts body c calls [k..<LIFECYCLE_CONTENTION_ATTEMPTS] = Some (Inr x) \<longleftrightarrow>
         (\<exists>n. k \<le> n \<and> n < LIFECYCLE_CONTENTION_ATTEMPTS \<and> list_all (contended body c calls) [k..<n]
            \<and> attempt_tx body (calls (2 * n)) = Inr x))"
  using assms
proof (induction "LIFECYCLE_CONTENTION_ATTEMPTS - k" arbitrary: k)
  case (Suc m)
  let ?N = LIFECYCLE_CONTENTION_ATTEMPTS
  have head: "[k..<?N] = k # [Suc k..<?N]" using Suc.prems by (simp add: upt_conv_Cons)
  have split: "list_all P [k..<n] \<longleftrightarrow> n = k \<or> P k \<and> list_all P [Suc k..<n]" if "k \<le> n" for P n
    using that by (cases "n = k") (simp_all add: upt_conv_Cons)
  show ?case
  proof (cases "contended body c calls k")
    case True
    then have more: "Suc k < ?N" using last_attempt_not_contended [of k body c calls] by (cases "Suc k < ?N") auto
    have IH: "(\<exists>r. lifecycle_attempts body c calls [Suc k..<?N] = Some r)
        \<and> (\<forall>x. lifecycle_attempts body c calls [Suc k..<?N] = Some (Inr x) \<longleftrightarrow>
             (\<exists>n. Suc k \<le> n \<and> n < ?N \<and> list_all (contended body c calls) [Suc k..<n]
                \<and> attempt_tx body (calls (2 * n)) = Inr x))"
      by (rule Suc.hyps(1)) (use Suc.hyps(2) more in simp_all)
    have "(\<exists>n. k \<le> n \<and> n < ?N \<and> list_all (contended body c calls) [k..<n] \<and> attempt_tx body (calls (2 * n)) = Inr x)
        \<longleftrightarrow> (\<exists>n. Suc k \<le> n \<and> n < ?N \<and> list_all (contended body c calls) [Suc k..<n] \<and> attempt_tx body (calls (2 * n)) = Inr x)" for x
      using contended_fails [OF True, of x] True split [of _ "contended body c calls"]
      by (metis Suc_leD Suc_leI le_neq_implies_less)
    with IH show ?thesis unfolding head lifecycle_attempts_skip [OF True] by simp
  next
    case False
    then have "(\<exists>n. k \<le> n \<and> n < ?N \<and> list_all (contended body c calls) [k..<n] \<and> attempt_tx body (calls (2 * n)) = Inr x)
        \<longleftrightarrow> attempt_tx body (calls (2 * k)) = Inr x" for x
      using split [of _ "contended body c calls"] Suc.prems by auto
    with lifecycle_attempts_stop [OF False, of "[Suc k..<?N]"] show ?thesis unfolding head by (metis option.inject)
  qed
qed simp

text \<open>
  Creating a draft always answers, whatever the other writers do to the database between its accesses: it
  succeeds exactly when one of five attempts does and every attempt before it met contention and found
  no active draft; the point after the loop is never reached.
\<close>
theorem create_draft_always_answers:
  "(\<exists>r. create_draft env fresh c actor at calls = Some r)
   \<and> (create_draft env fresh c actor at calls = Some (Inr x) \<longleftrightarrow>
       (\<exists>n < 5. list_all (contended (insert_draft_in_transaction env (draft fresh c) None actor at) c calls) [0..<n]
          \<and> attempt_tx (insert_draft_in_transaction env (draft fresh c) None actor at) (calls (2 * n)) = Inr x))"
  using lifecycle_attempts_answer [of 0 "insert_draft_in_transaction env (draft fresh c) None actor at" c calls]
  by (cases x) (simp add: create_draft_def LIFECYCLE_CONTENTION_ATTEMPTS_def)

end
