(* ===== verification/Spec2Isabelle.thy ===== *)
theory Spec2Isabelle
  imports Budget Robots Job_Reconciliation Test_Comparison Version_Validation Naming Growth Crawler_Properties
begin

text \<open>
  Erabi is a self-hosted web crawler.  Its domain layer validates what a crawl may do, its crawler
  layer decides whether and when a request may be sent and tries a crawler out, and its database layer
  stores the versions of crawlers and is a durable job queue that hands crawl work to workers.  This development models those layers from the
  Rust sources under \<open>crates/\<close> and proves what they promise.

  \<^bold>\<open>Library.\<close>  \<open>Prelude\<close> holds results (\<open>Result\<close> as a sum with the error on the left), checked
  integer arithmetic and list lemmas; \<open>Rust_Text\<close> the string functions of the standard library
  on UTF-8 bytes; \<open>Ordered_Map\<close> the interface of \<open>BTreeMap\<close> as a locale, interpreted on sorted
  association lists; \<open>Url_Api\<close> the accessors of the URL library, which is a parameter.

  \<^bold>\<open>Domain.\<close>  \<open>Domain_Base\<close> models layered settings (\<open>settings.rs\<close>), statuses and errors;
  \<open>Guardrails\<close> the semantic caps of a crawler version and its transition graph (\<open>guardrails.rs\<close>,
  \<open>transition.rs\<close>); \<open>Budget\<close> the discovery budget evaluator (\<open>budget.rs\<close>), proved equal to a
  statement over unbounded numbers; \<open>Snapshot\<close> the frozen run snapshot with its canonical JSON and
  hashes (\<open>crawl_snapshot.rs\<close>) and the completeness decision (\<open>complete_snapshot.rs\<close>).
  \<open>Url_Text\<close> holds the text functions the next theories share.  \<open>Domain_Scope\<close> models host rules
  and the classification of a URL (\<open>domain_scope.rs\<close>, \<open>seed.rs\<close>); \<open>Canonicalization\<close> every step of
  URL canonicalisation (\<open>canonicalization.rs\<close>); \<open>Url_Matcher\<close> the matchers of a page type, their
  specificity and the resolution of a page type (\<open>url_matcher.rs\<close>, \<open>matching.rs\<close>, \<open>page_type.rs\<close>);
  \<open>Crawler_Version\<close> drafts, publication and the versions of a crawler (\<open>crawler_version.rs\<close>,
  \<open>crawler.rs\<close>).  The public-suffix list and the regular expression engine are parameters.

  \<^bold>\<open>Test Lab.\<close>  \<open>Test_Evidence\<close> models evidence records, behavioural equivalence and the validation
  every stored record passes (\<open>test_evidence.rs\<close>); \<open>Test_Lab\<close> the evaluation of URLs, selectors,
  pagination and discovered links, and \<open>Test_Comparison\<close> the comparison with the published version
  and the whole execution of a test (\<open>test_lab/service.rs\<close>).  The links of a page are followed by a
  fold over a state of counters; its invariant gives the bounds on eligible links.  A panic of the
  source is a value of its own.

  \<^bold>\<open>Politeness and safety of requests.\<close>  \<open>Pacing\<close> models the state kept per origin and the registry
  of origins (\<open>pacing.rs\<close>); \<open>Pacing_Protocol\<close> the interleavings of registrations, waiters,
  permits, outcomes and pruning as guarded actions on a world that shares origin states through
  addresses, as \<open>Arc\<close> does.  Its invariant gives the concurrency and deadline guarantees.
  \<open>Network_Policy\<close> models target validation (\<open>network_policy.rs\<close>): the address tests are proved
  equal to the special-use prefixes.  \<open>Robots\<close> models the robots policy (\<open>robots.rs\<close>): parser,
  wildcard matcher, group selection, evaluation, cache, retrieval and override.  Floating point
  parsing of a crawl delay, the resolver, the transport and the clock are parameters.

  \<^bold>\<open>Publication gate.\<close>  \<open>Version_Validation\<close> models validation issues, the registry that sorts, merges
  and bounds the contributions, and the core contributor (\<open>version_validation.rs\<close>); a version is
  publishable exactly when it has no blocking issue, which is spelled out over its configuration.
  \<open>Naming\<close> holds the derived names (\<open>naming.rs\<close>).

  \<^bold>\<open>Discovery traversal.\<close>  \<open>Discovery_Preview\<close> models requests, limits and the frozen context
  (\<open>discovery_preview.rs\<close>), \<open>Traversal\<close> the breadth-first traversal with its budgets, redirects,
  duplicates and interruption (\<open>discovery_preview/service.rs\<close>) over an oracle for clock and provider.
  \<open>Traversal_Invariant\<close> proves the invariant of every step, \<open>Traversal_Properties\<close> the limits (those a
  run is started with, and those of the version a preview request is tightened to), the work-list
  discipline, termination and the links of a page, \<open>Traversal_Checkpoint\<close> export and restoration of a traversal,
  and \<open>Growth\<close> the report: cycles among transitions by a search with a shared visited set, proved to
  be reachability, query-variant groups and growth warnings.

  \<^bold>\<open>Crawler repository.\<close>  \<open>Crawler_Store\<close> models the tables of migration 0002 with keys and triggers and
  the statements run on them; \<open>Crawler_Repository\<close> the reads and consistency checks,
  \<open>Crawler_Lifecycle\<close> drafts, cloning, publication, reactivation and the retry under contention,
  \<open>Crawler_Authoring\<close> the edits of a draft (all of \<open>repositories/crawler.rs\<close>).
  \<open>Crawler_Consistency\<close> defines the view of a version, when it is sound and when it also names exactly
  the child rows that are stored (is consistent), and proves that loading decides consistency.
  \<open>Crawler_Safety\<close> lifts the immutability of published rows from statements to histories of
  operations; \<open>Crawler_Edits\<close> and \<open>Crawler_History\<close> prove that every operation keeps every version
  sound, and consistent except for drafts that a caller saves as a whole with other child rows, cloning
  and publication included; a locale for tables that only grow is interpreted on the four child tables.
  \<open>Crawler_Properties\<close> states the guarantees.

  \<^bold>\<open>Durable queue.\<close>  \<open>Job_Store\<close> models the tables of migration 0004 with their constraints and
  triggers, and transactions that commit or roll back.  \<open>Progress\<close> (\<open>progress.rs\<close>) and
  \<open>Checkpoint\<close> (\<open>checkpoint.rs\<close>) model progress streams and checkpoint evidence.  \<open>Job_Queue\<close>
  models every operation of \<open>JobRepository\<close> (\<open>job.rs\<close>); identifiers drawn from UUIDs are
  arguments, \<open>job_env\<close> holds the JSON codec, the UUID parser and the rows outside the queue a
  new run refers to.  \<open>Tx_Calculus\<close> is a locale in which the composition of transaction bodies
  is proved once for any relation that keeps its invariant; it is interpreted on the lifecycle,
  on the frame of a single job and on the preservation of terminal runs.  \<open>Job_Invariants\<close> defines the abstract lifecycle \<open>qstep\<close> and
  its invariant, \<open>Job_Refinement\<close> proves that every operation refines it, \<open>Job_Properties\<close>,
  \<open>Job_Scheduling\<close> and \<open>Job_Reconciliation\<close> state the guarantees: consistency after any history,
  attempt budget, immutable history, fencing of superseded leases, selection and exclusivity
  of acquisition, completion by the owner, and that a job which disagrees with its terminal run, as
  the resumption of a failed run leaves one, blocks start-up recovery.

  \<^bold>\<open>Bounds and fuel.\<close>  No definition uses fuel.  Machine integers are words where their width
  matters and integers with the range checks written out in the database, whose columns are 64 bits
  wide.  \<open>lineage\<close> follows parent links in a loop that need not end on arbitrary tables; it is
  a partial function into \<open>option\<close>.  So is the traversal loop \<open>traverse\<close>, which is proved to end
  for every clock and provider; the search for cycles ends because the visited set grows.  The retry
  of draft creation runs over the list of its five attempts, and \<open>None\<close> after the last is proved
  unreachable.

  \<^bold>\<open>Not modelled.\<close>  The asynchronous worker runtime (\<open>erabi-jobs\<close>), the persistence of crawl
  evidence, sources and artifacts, browser adapters, the HTTP API, the command line,
  observability and the web application.  Coalescing of concurrent robots fetches and the audit row
  written beside a new run are left out of the modelled components, and so are the artifact lookup
  and the storage of Test Lab evidence.  Of the crawler repository the label refinement that makes the
  semantic digest independent of identifiers is a parameter, because it ends in a hash whose equality
  says nothing the kernel can check; JSON columns are kept decoded.
\<close>

end
